(* ===== verification/Py_Prelude.thy ===== *)
theory Py_Prelude
  imports Main "HOL-Library.Code_Target_Numeral"
begin

text \<open>
  The vocabulary shared by every component: Python strings as lists of Unicode code points,
  the white space and substring methods of \<open>str\<close> that the code uses, raised exceptions as the
  left side of a sum, and the list lemmas about tables (lists of rows) that the repository
  proofs need.
\<close>

section \<open>Collections of facts\<close>

named_theorems model_defs \<open>definitions of operations, unfolded in the proofs about them\<close>
named_theorems row_simps \<open>facts about rows and tables\<close>

section \<open>Results\<close>

text \<open>An operation that may raise returns \<open>Inl\<close> of the exception or \<open>Inr\<close> of the result.\<close>

fun bindR :: "'e + 'a \<Rightarrow> ('a \<Rightarrow> 'e + 'b) \<Rightarrow> 'e + 'b" where
  "bindR (Inl e) f = Inl e"
| "bindR (Inr x) f = f x"

text \<open>Evaluation by \<open>code_simp\<close> runs the first operation before it looks at the continuation.\<close>

lemma bindR_case [code_unfold]: "bindR m f = (case m of Inl e \<Rightarrow> Inl e | Inr x \<Rightarrow> f x)"
  by (cases m) auto

lemma option_bind_case [code_unfold]:
  "Option.bind m f = (case m of None \<Rightarrow> None | Some x \<Rightarrow> f x)"
  by (cases m) auto

definition ensure :: "bool \<Rightarrow> 'e \<Rightarrow> 'e + unit" where
  "ensure c e = (if c then Inr () else Inl e)"

lemma bindR_Inr_iff [simp]: "bindR m f = Inr y \<longleftrightarrow> (\<exists>x. m = Inr x \<and> f x = Inr y)"
  by (cases m) auto

lemma bindR_Inl_iff: "bindR m f = Inl e \<longleftrightarrow> m = Inl e \<or> (\<exists>x. m = Inr x \<and> f x = Inl e)"
  by (cases m) auto

lemma ensure_Inr [simp]: "ensure c e = Inr x \<longleftrightarrow> c"
  by (simp add: ensure_def)

lemma ensure_True [simp]: "ensure True e = Inr ()"
  by (simp add: ensure_def)

lemma ensure_False [simp]: "ensure False e = Inl e"
  by (simp add: ensure_def)

text \<open>A loop that validates each element and stops at the first exception.\<close>

fun mapR :: "('a \<Rightarrow> 'e + 'b) \<Rightarrow> 'a list \<Rightarrow> 'e + 'b list" where
  "mapR f [] = Inr []"
| "mapR f (x # xs) = bindR (f x) (\<lambda>y. bindR (mapR f xs) (\<lambda>ys. Inr (y # ys)))"

lemma mapR_Inr_iff: "mapR f xs = Inr ys \<longleftrightarrow> list_all2 (\<lambda>x y. f x = Inr y) xs ys"
  by (induction xs arbitrary: ys) (auto simp: list_all2_Cons1)

section \<open>Python strings\<close>

text \<open>
  A \<open>str\<close> is a sequence of code points, so its length is \<open>length\<close> of the list. \<open>ustr\<close> turns an
  ASCII literal into one. Stable codes that are only compared (error codes, object kinds) are
  kept as HOL \<open>string\<close>s or datatypes instead.
\<close>

type_synonym pystr = "nat list"

definition ustr :: "string \<Rightarrow> pystr" where
  "ustr s = map of_char s"

text \<open>The code points for which \<open>str.isspace\<close> holds, which \<open>strip\<close> and \<open>split\<close> remove.\<close>

definition py_isspace :: "nat \<Rightarrow> bool" where
  "py_isspace c \<longleftrightarrow>
     9 \<le> c \<and> c \<le> 13 \<or> 28 \<le> c \<and> c \<le> 32 \<or> c = 133 \<or> c = 160 \<or> c = 5760 \<or>
     8192 \<le> c \<and> c \<le> 8202 \<or> c = 8232 \<or> c = 8233 \<or> c = 8239 \<or> c = 8287 \<or> c = 12288"

definition py_lstrip :: "pystr \<Rightarrow> pystr" where
  "py_lstrip s = dropWhile py_isspace s"

definition py_rstrip :: "pystr \<Rightarrow> pystr" where
  "py_rstrip s = rev (dropWhile py_isspace (rev s))"

definition py_strip :: "pystr \<Rightarrow> pystr" where
  "py_strip s = py_rstrip (py_lstrip s)"

text \<open>\<open>s.rstrip(c)\<close> for a single character \<open>c\<close>.\<close>

definition py_rstrip_char :: "nat \<Rightarrow> pystr \<Rightarrow> pystr" where
  "py_rstrip_char c s = rev (dropWhile (\<lambda>x. x = c) (rev s))"

lemma py_lstrip_length: "length (py_lstrip s) \<le> length s"
  by (simp add: py_lstrip_def length_dropWhile_le)

lemma py_lstrip_head: "py_lstrip s = c # t \<Longrightarrow> \<not> py_isspace c"
  unfolding py_lstrip_def by (metis dropWhile_eq_Cons_conv)

text \<open>\<open>s.split()\<close>: the maximal runs of characters that are not white space.\<close>

function py_split :: "pystr \<Rightarrow> pystr list" where
  "py_split s = (case py_lstrip s of
      [] \<Rightarrow> []
    | t \<Rightarrow> takeWhile (\<lambda>c. \<not> py_isspace c) t # py_split (dropWhile (\<lambda>c. \<not> py_isspace c) t))"
  by pat_completeness auto

termination
proof (relation "measure length", goal_cases)
  case 1
  show ?case by simp
next
  case (2 s c t)
  have "\<not> py_isspace c" using 2 by (auto dest: py_lstrip_head)
  then have "dropWhile (\<lambda>c. \<not> py_isspace c) (c # t) = dropWhile (\<lambda>c. \<not> py_isspace c) t"
    by simp
  moreover have "length (c # t) \<le> length s"
    using py_lstrip_length [of s] 2 by simp
  ultimately show ?case
    using length_dropWhile_le [of "\<lambda>c. \<not> py_isspace c" t] 2 by auto
qed

declare py_split.simps [simp del]

text \<open>\<open>" ".join(xs)\<close>.\<close>

fun join_space :: "pystr list \<Rightarrow> pystr" where
  "join_space [] = []"
| "join_space [x] = x"
| "join_space (x # y # ys) = x @ 32 # join_space (y # ys)"

text \<open>\<open>p in s\<close> on strings, and \<open>s.startswith(p)\<close>.\<close>

fun is_prefix :: "'a list \<Rightarrow> 'a list \<Rightarrow> bool" where
  "is_prefix [] ys = True"
| "is_prefix (x # xs) [] = False"
| "is_prefix (x # xs) (y # ys) = (x = y \<and> is_prefix xs ys)"

fun is_substring :: "'a list \<Rightarrow> 'a list \<Rightarrow> bool" where
  "is_substring p [] = (p = [])"
| "is_substring p (x # xs) = (is_prefix p (x # xs) \<or> is_substring p xs)"

lemma is_prefix_iff: "is_prefix p s \<longleftrightarrow> (\<exists>t. s = p @ t)"
  by (induction p s rule: is_prefix.induct) auto

lemma is_substring_iff: "is_substring p s \<longleftrightarrow> (\<exists>a b. s = a @ p @ b)"
proof (induction s)
  case Nil
  show ?case by auto
next
  case (Cons x xs)
  have "is_substring p (x # xs) \<longleftrightarrow> (\<exists>b. x # xs = p @ b) \<or> (\<exists>a b. xs = a @ p @ b)"
    using Cons.IH by (simp add: is_prefix_iff)
  also have "\<dots> \<longleftrightarrow> (\<exists>a b. x # xs = a @ p @ b)"
  proof
    assume "(\<exists>b. x # xs = p @ b) \<or> (\<exists>a b. xs = a @ p @ b)"
    then show "\<exists>a b. x # xs = a @ p @ b"
    proof
      assume "\<exists>b. x # xs = p @ b"
      then show ?thesis by (metis append_Nil)
    next
      assume "\<exists>a b. xs = a @ p @ b"
      then show ?thesis by (metis append_Cons)
    qed
  next
    assume "\<exists>a b. x # xs = a @ p @ b"
    then obtain a b where "x # xs = a @ p @ b" by blast
    then show "(\<exists>b. x # xs = p @ b) \<or> (\<exists>a b. xs = a @ p @ b)"
      by (cases a) auto
  qed
  finally show ?case .
qed

text \<open>Identifiers: \<open>^[a-z][a-z0-9_]{0,63}$\<close>.\<close>

definition is_lower :: "nat \<Rightarrow> bool" where
  "is_lower c \<longleftrightarrow> 97 \<le> c \<and> c \<le> 122"

definition is_digit :: "nat \<Rightarrow> bool" where
  "is_digit c \<longleftrightarrow> 48 \<le> c \<and> c \<le> 57"

definition is_identifier :: "pystr \<Rightarrow> bool" where
  "is_identifier s \<longleftrightarrow>
     (case s of [] \<Rightarrow> False
      | c # cs \<Rightarrow> is_lower c \<and> length cs \<le> 63 \<and>
                  (\<forall>d \<in> set cs. is_lower d \<or> is_digit d \<or> d = 95))"

text \<open>\<open>Field(min_length=a, max_length=b)\<close>.\<close>

definition length_between :: "nat \<Rightarrow> nat \<Rightarrow> 'a list \<Rightarrow> bool" where
  "length_between a b xs \<longleftrightarrow> a \<le> length xs \<and> length xs \<le> b"

text \<open>A text without lone surrogates: what \<open>encode("utf-8")\<close> and pydantic's \<open>str\<close> accept.\<close>

definition encodable :: "pystr \<Rightarrow> bool" where
  "encodable s \<longleftrightarrow> (\<forall>c \<in> set s. \<not> (55296 \<le> c \<and> c \<le> 57343))"

section \<open>Normalised text is a fixed point\<close>

lemma py_rstrip_last: "py_rstrip s \<noteq> [] \<Longrightarrow> \<not> py_isspace (last (py_rstrip s))"
  unfolding py_rstrip_def by (simp add: last_rev hd_dropWhile)

lemma py_rstrip_id: "s = [] \<or> \<not> py_isspace (last s) \<Longrightarrow> py_rstrip s = s"
  by (cases s rule: rev_cases) (auto simp: py_rstrip_def)

lemma py_lstrip_id: "s = [] \<or> \<not> py_isspace (hd s) \<Longrightarrow> py_lstrip s = s"
  by (cases s) (auto simp: py_lstrip_def)

lemma py_rstrip_prefix: "\<exists>t. s = py_rstrip s @ t"
proof -
  have "rev s = takeWhile py_isspace (rev s) @ dropWhile py_isspace (rev s)" by simp
  then have "s = py_rstrip s @ rev (takeWhile py_isspace (rev s))"
    unfolding py_rstrip_def by (metis rev_append rev_rev_ident)
  then show ?thesis by blast
qed

lemma py_strip_idem [simp]: "py_strip (py_strip s) = py_strip s"
proof (cases "py_strip s = []")
  case True
  moreover have "py_strip [] = []" by (simp add: py_strip_def py_lstrip_def py_rstrip_def)
  ultimately show ?thesis by simp
next
  case False
  obtain t where t: "py_lstrip s = py_strip s @ t"
    using py_rstrip_prefix unfolding py_strip_def by blast
  with False have "hd (py_strip s) = hd (py_lstrip s)" "py_lstrip s \<noteq> []" by auto
  then have "\<not> py_isspace (hd (py_strip s))"
    using py_lstrip_head by (metis list.collapse)
  then have "py_lstrip (py_strip s) = py_strip s" using py_lstrip_id by blast
  moreover have "py_rstrip (py_strip s) = py_strip s"
    using py_rstrip_last py_rstrip_id unfolding py_strip_def by metis
  ultimately show ?thesis by (simp add: py_strip_def)
qed

definition py_word :: "pystr \<Rightarrow> bool" where
  "py_word w \<longleftrightarrow> w \<noteq> [] \<and> (\<forall>c \<in> set w. \<not> py_isspace c)"

lemma py_split_words: "\<forall>w \<in> set (py_split s). py_word w"
proof (induction s rule: py_split.induct)
  case (1 s)
  show ?case
  proof (cases "py_lstrip s")
    case Nil
    then show ?thesis by (subst py_split.simps) simp
  next
    case (Cons c t)
    then have "\<not> py_isspace c" by (rule py_lstrip_head)
    then have "py_word (takeWhile (\<lambda>c. \<not> py_isspace c) (c # t))"
      by (auto simp: py_word_def dest: set_takeWhileD)
    with "1.IH" [OF Cons] Cons show ?thesis by (subst py_split.simps) simp
  qed
qed

lemma py_split_word:
  assumes "py_word w" "s = [] \<or> py_isspace (hd s)"
  shows "py_split (w @ s) = w # py_split s"
proof -
  obtain c w' where w: "w = c # w'" "\<not> py_isspace c" using assms(1) by (cases w) (auto simp: py_word_def)
  have "takeWhile (\<lambda>c. \<not> py_isspace c) (w @ s) = w" "dropWhile (\<lambda>c. \<not> py_isspace c) (w @ s) = s"
    using assms by (cases s; auto simp: py_word_def)+
  moreover have "py_lstrip (w @ s) = c # (w' @ s)" using w by (simp add: py_lstrip_def)
  ultimately show ?thesis using w by (subst py_split.simps) simp
qed

lemma py_split_space: "py_split (32 # s) = py_split s"
  by (subst (1 2) py_split.simps) (simp add: py_lstrip_def py_isspace_def)

lemma py_split_join: "\<forall>w \<in> set ws. py_word w \<Longrightarrow> py_split (join_space ws) = ws"
proof (induction ws rule: join_space.induct)
  case 1
  show ?case by (subst py_split.simps) (simp add: py_lstrip_def)
next
  case (2 w)
  then show ?case using py_split_word [of w "[]"] by (simp add: py_split.simps [of "[]"] py_lstrip_def)
next
  case (3 w v ws)
  then have "py_split (w @ 32 # join_space (v # ws)) = w # py_split (32 # join_space (v # ws))"
    by (intro py_split_word) (simp_all add: py_isspace_def)
  with 3 show ?case by (simp add: py_split_space)
qed

lemma collapse_idem [simp]: "join_space (py_split (join_space (py_split s))) = join_space (py_split s)"
  using py_split_join [OF py_split_words] by simp

section \<open>Tables as lists of rows\<close>

text \<open>\<open>UPDATE\<close> of the rows that satisfy a condition.\<close>

definition update_where :: "('r \<Rightarrow> bool) \<Rightarrow> ('r \<Rightarrow> 'r) \<Rightarrow> 'r list \<Rightarrow> 'r list" where
  "update_where p f rs = map (\<lambda>r. if p r then f r else r) rs"

definition count_where :: "('r \<Rightarrow> bool) \<Rightarrow> 'r list \<Rightarrow> nat" where
  "count_where p rs = length (filter p rs)"

lemma length_update_where [simp]: "length (update_where p f rs) = length rs"
  by (simp add: update_where_def)

lemma update_where_Nil [simp]: "update_where p f [] = []"
  by (simp add: update_where_def)

lemma update_where_Cons [simp]:
  "update_where p f (r # rs) = (if p r then f r else r) # update_where p f rs"
  by (simp add: update_where_def)

lemma set_update_where: "r' \<in> set (update_where p f rs) \<longleftrightarrow>
    (\<exists>r \<in> set rs. r' = (if p r then f r else r))"
  by (auto simp: update_where_def)

lemma update_where_none: "(\<And>r. r \<in> set rs \<Longrightarrow> \<not> p r) \<Longrightarrow> update_where p f rs = rs"
  by (induction rs) auto

lemma map_update_where:
  "(\<And>r. r \<in> set rs \<Longrightarrow> p r \<Longrightarrow> g (f r) = g r) \<Longrightarrow> map g (update_where p f rs) = map g rs"
  by (induction rs) auto

lemma count_where_Nil [simp]: "count_where p [] = 0"
  by (simp add: count_where_def)

lemma count_where_Cons [simp]:
  "count_where p (r # rs) = (if p r then Suc (count_where p rs) else count_where p rs)"
  by (simp add: count_where_def)

lemma count_where_append [simp]: "count_where p (xs @ ys) = count_where p xs + count_where p ys"
  by (simp add: count_where_def)

lemma count_where_0: "count_where p rs = 0 \<longleftrightarrow> (\<forall>r \<in> set rs. \<not> p r)"
  by (induction rs) auto

lemma find_SomeD: "find p rs = Some r \<Longrightarrow> r \<in> set rs \<and> p r"
  by (auto simp: find_Some_iff)

lemma find_NoneD: "find p rs = None \<Longrightarrow> r \<in> set rs \<Longrightarrow> \<not> p r"
  by (simp add: find_None_iff)

lemma distinct_map_eqD:
  "distinct (map f xs) \<Longrightarrow> x \<in> set xs \<Longrightarrow> y \<in> set xs \<Longrightarrow> f x = f y \<Longrightarrow> x = y"
  by (auto simp: distinct_map inj_on_def)

lemma find_key:
  "distinct (map k rs) \<Longrightarrow> r \<in> set rs \<Longrightarrow> find (\<lambda>x. k x = k r) rs = Some r"
  by (induction rs) auto

text \<open>Replacing the row with the key of \<open>x\<close>, when keys are unique.\<close>

definition replace_row :: "('r \<Rightarrow> 'k) \<Rightarrow> 'r \<Rightarrow> 'r \<Rightarrow> 'r list \<Rightarrow> 'r list" where
  "replace_row k x x' rs = update_where (\<lambda>y. k y = k x) (\<lambda>_. x') rs"

lemma replace_row_set:
  "distinct (map k rs) \<Longrightarrow> x \<in> set rs \<Longrightarrow> set (replace_row k x x' rs) = insert x' (set rs - {x})"
  unfolding replace_row_def update_where_def by (induction rs) (auto simp: image_iff)

lemma replace_row_subset: "y \<in> set (replace_row k x x' rs) \<Longrightarrow> y = x' \<or> y \<in> set rs \<and> k y \<noteq> k x"
  by (auto simp: replace_row_def set_update_where split: if_splits)

lemma replace_row_map: "(\<And>y. y \<in> set rs \<Longrightarrow> k y = k x \<Longrightarrow> f y = f x') \<Longrightarrow> map f (replace_row k x x' rs) = map f rs"
  unfolding replace_row_def by (induction rs) auto

lemma replace_row_keys: "k x' = k x \<Longrightarrow> map k (replace_row k x x' rs) = map k rs"
  by (rule replace_row_map) simp

lemma replace_row_count:
  "distinct (map k rs) \<Longrightarrow> x \<in> set rs \<Longrightarrow>
     count_where p (replace_row k x x' rs) + (if p x then 1 else 0)
       = count_where p rs + (if p x' then 1 else 0)"
proof (induction rs)
  case (Cons r rs)
  show ?case
  proof (cases "r = x")
    case True
    with Cons.prems(1) have "\<forall>y \<in> set rs. k y \<noteq> k x" by (auto simp: image_iff)
    then have "replace_row k x x' rs = rs" unfolding replace_row_def by (intro update_where_none) simp
    with True show ?thesis by (simp add: replace_row_def)
  next
    case False
    then have "k r \<noteq> k x" using Cons.prems by force
    with False Cons show ?thesis by (auto simp: replace_row_def)
  qed
qed simp

lemma count_where_pos: "0 < count_where p rs \<longleftrightarrow> (\<exists>r \<in> set rs. p r)"
  using count_where_0 [of p rs] by auto

lemma count_where_cong: "(\<And>r. r \<in> set rs \<Longrightarrow> p r = q r) \<Longrightarrow> count_where p rs = count_where q rs"
  by (induction rs) auto

lemma count_where_unique:
  "count_where p rs = 1 \<Longrightarrow> x \<in> set rs \<Longrightarrow> y \<in> set rs \<Longrightarrow> p x \<Longrightarrow> p y \<Longrightarrow> x = y"
  by (induction rs) (auto simp: count_where_0 split: if_splits)

lemma find_unique:
  "distinct (map k rs) \<Longrightarrow> find (\<lambda>x. k x = i \<and> q x) rs = Some r \<longleftrightarrow> r \<in> set rs \<and> k r = i \<and> q r"
  by (induction rs) (auto dest: find_SomeD)

lemma find_unique_key:
  "distinct (map k rs) \<Longrightarrow> find (\<lambda>x. k x = i) rs = Some r \<longleftrightarrow> r \<in> set rs \<and> k r = i"
  using find_unique [of k rs i "\<lambda>_. True" r] by simp

text \<open>Looking a row up by its key, in two tables that agree on keys and on the column read.\<close>

lemma find_same_key:
  "map (\<lambda>r. (k r, f r)) rs = map (\<lambda>r. (k r, f r)) rs' \<Longrightarrow>
     map_option f (find (\<lambda>r. k r = x) rs) = map_option f (find (\<lambda>r. k r = x) rs')"
proof (induction rs arbitrary: rs')
  case (Cons r rs)
  then obtain r' rs'' where "rs' = r' # rs''" "k r' = k r" "f r' = f r" "map (\<lambda>r. (k r, f r)) rs = map (\<lambda>r. (k r, f r)) rs''"
    by (cases rs') auto
  then show ?case using Cons.IH by simp
qed simp

end
