(* ===== verification/Py_Decimal.thy ===== *)
theory Py_Decimal
  imports Py_Prelude
begin

text \<open>
  Python's \<open>decimal.Decimal\<close> as the scoring code uses it: a sign, a coefficient and an exponent,
  arithmetic in the default context (28 significant digits, half-even rounding), comparison by
  value, the exact remainder \<open>%\<close>, and \<open>format(d, "f")\<close>. Scores carry at most four decimal
  places and six whole digits (\<open>Field(max_digits=10, decimal_places=4)\<close>), so their value is an
  integer number of ten-thousandths, \<open>dec_units\<close>; the lemmas show that the context's rounding
  never changes such a value and reduce every operation to integer arithmetic on units.
  Exponents are unbounded integers: the context's overflow and underflow beyond exponent
  999999, and the values NaN and infinity, which every \<open>Decimal\<close> field refuses, are not modelled.
\<close>

section \<open>Values\<close>

datatype decimal = Dec (dec_neg: bool) (dec_coef: nat) (dec_exp: int)

definition dec_int :: "decimal \<Rightarrow> int" where
  "dec_int d = (if dec_neg d then - int (dec_coef d) else int (dec_coef d))"

text \<open>The integer that \<open>d\<close> is at a smaller exponent \<open>e\<close>.\<close>

definition dec_at :: "int \<Rightarrow> decimal \<Rightarrow> int" where
  "dec_at e d = dec_int d * 10 ^ nat (dec_exp d - e)"

definition dec_zero :: decimal where
  "dec_zero = Dec False 0 0"

definition dec_of_int :: "int \<Rightarrow> decimal" where
  "dec_of_int n = Dec (n < 0) (nat \<bar>n\<bar>) 0"

text \<open>Number of decimal digits of a coefficient.\<close>

fun ndigits :: "nat \<Rightarrow> nat" where
  "ndigits n = (if n < 10 then 1 else Suc (ndigits (n div 10)))"

declare ndigits.simps [simp del]

text \<open>The context's \<open>_fix\<close>: round a coefficient to 28 digits, ties to even.\<close>

definition dec_fix :: "decimal \<Rightarrow> decimal" where
  "dec_fix d = (let c = dec_coef d; n = ndigits c in
     if n \<le> 28 then d
     else let k = n - 28; q = c div 10 ^ k; r = c mod 10 ^ k;
              q' = (if 2 * r > 10 ^ k \<or> 2 * r = 10 ^ k \<and> odd q then Suc q else q)
          in if q' = 10 ^ 28 then Dec (dec_neg d) (10 ^ 27) (dec_exp d + int k + 1)
             else Dec (dec_neg d) q' (dec_exp d + int k))"

section \<open>Arithmetic\<close>

definition dec_minus :: "decimal \<Rightarrow> decimal" where
  "dec_minus d = Dec (\<not> dec_neg d) (dec_coef d) (dec_exp d)"

definition dec_add :: "decimal \<Rightarrow> decimal \<Rightarrow> decimal" where
  "dec_add a b = (let e = min (dec_exp a) (dec_exp b); r = dec_at e a + dec_at e b in
     dec_fix (Dec (r < 0 \<or> r = 0 \<and> dec_neg a \<and> dec_neg b) (nat \<bar>r\<bar>) e))"

definition dec_sub :: "decimal \<Rightarrow> decimal \<Rightarrow> decimal" where
  "dec_sub a b = dec_add a (dec_minus b)"

definition dec_sum :: "decimal list \<Rightarrow> decimal" where
  "dec_sum ds = foldl dec_add dec_zero ds"

definition dec_less :: "decimal \<Rightarrow> decimal \<Rightarrow> bool" where
  "dec_less a b = (let e = min (dec_exp a) (dec_exp b) in dec_at e a < dec_at e b)"

definition dec_le :: "decimal \<Rightarrow> decimal \<Rightarrow> bool" where
  "dec_le a b = (let e = min (dec_exp a) (dec_exp b) in dec_at e a \<le> dec_at e b)"

definition dec_eq :: "decimal \<Rightarrow> decimal \<Rightarrow> bool" where
  "dec_eq a b = (let e = min (dec_exp a) (dec_exp b) in dec_at e a = dec_at e b)"

text \<open>\<open>max(a, b)\<close> keeps the first argument on a tie.\<close>

definition dec_max :: "decimal \<Rightarrow> decimal \<Rightarrow> decimal" where
  "dec_max a b = (if dec_less a b then b else a)"

text \<open>
  \<open>a % b\<close>: the sign of the dividend; \<open>None\<close> is \<open>decimal.InvalidOperation\<close> or
  \<open>DivisionByZero\<close> (a zero divisor, or an integer quotient of more than 28 digits).
\<close>

definition dec_rem :: "decimal \<Rightarrow> decimal \<Rightarrow> decimal option" where
  "dec_rem a b = (let e = min (dec_exp a) (dec_exp b); x = nat \<bar>dec_at e a\<bar>; y = nat \<bar>dec_at e b\<bar> in
     if y = 0 \<or> x div y \<ge> 10 ^ 28 then None
     else Some (dec_fix (Dec (dec_neg a) (x mod y) e)))"

section \<open>Units: values with at most four decimal places\<close>

definition dec_units :: "decimal \<Rightarrow> int option" where
  "dec_units d =
     (if dec_exp d \<ge> -4 then Some (dec_at (-4) d)
      else let k = nat (- 4 - dec_exp d) in
           if dec_coef d mod 10 ^ k = 0
           then Some (if dec_neg d then - int (dec_coef d div 10 ^ k) else int (dec_coef d div 10 ^ k))
           else None)"

text \<open>
  \<open>Field(max_digits=10, decimal_places=4)\<close>: the value as \<open>normalize()\<close> returns it (rounded to the
  context's 28 digits, trailing zeros removed) has at most four decimal places and at most
  \<open>10 - 4\<close> whole digits.
\<close>

definition decimal_field :: "decimal \<Rightarrow> bool" where
  "decimal_field d \<longleftrightarrow>
     (case dec_units (dec_fix d) of None \<Rightarrow> False | Some x \<Rightarrow> \<bar>x\<bar> < 10 ^ 10)"

section \<open>Fixed-point text\<close>

fun show_nat :: "nat \<Rightarrow> pystr" where
  "show_nat n = (if n < 10 then [48 + n] else show_nat (n div 10) @ [48 + n mod 10])"

declare show_nat.simps [simp del]

text \<open>\<open>format(d, "f")\<close>; a zero with a positive exponent is first rescaled to exponent 0.\<close>

definition format_f :: "decimal \<Rightarrow> pystr" where
  "format_f d = (let
      e = (if dec_coef d = 0 \<and> dec_exp d > 0 then 0 else dec_exp d);
      ds = show_nat (dec_coef d);
      dotplace = e + int (length ds);
      intpart = (if dotplace < 0 then [48]
                 else if dotplace > int (length ds)
                 then ds @ replicate (nat (dotplace - int (length ds))) 48
                 else if nat dotplace = 0 then [48] else take (nat dotplace) ds);
      fracpart = (if dotplace < 0 then replicate (nat (- dotplace)) 48 @ ds
                  else if dotplace > int (length ds) then [] else drop (nat dotplace) ds)
    in (if dec_neg d then [45] else []) @ intpart @ (if fracpart = [] then [] else 46 # fracpart))"


section \<open>Digits\<close>

lemma ndigits_pos: "0 < ndigits n"
  by (subst ndigits.simps) simp

lemma ndigits_upper: "n < 10 ^ ndigits n"
proof (induction n rule: ndigits.induct)
  case (1 n)
  show ?case
  proof (cases "n < 10")
    case True
    then show ?thesis by (subst ndigits.simps) simp
  next
    case False
    with "1.IH" have "n div 10 < 10 ^ ndigits (n div 10)" by simp
    then have "n < 10 * 10 ^ ndigits (n div 10)" by simp
    with False show ?thesis by (subst ndigits.simps) simp
  qed
qed

lemma ndigits_lower: "0 < n \<Longrightarrow> 10 ^ (ndigits n - 1) \<le> n"
proof (induction n rule: ndigits.induct)
  case (1 n)
  show ?case
  proof (cases "n < 10")
    case True
    with "1.prems" show ?thesis by (subst ndigits.simps) simp
  next
    case False
    with "1.IH" have "10 ^ (ndigits (n div 10) - 1) \<le> n div 10" by simp
    then have "10 * 10 ^ (ndigits (n div 10) - 1) \<le> n" by linarith
    moreover have "ndigits (n div 10) = Suc (ndigits (n div 10) - 1)"
      using ndigits_pos [of "n div 10"] by simp
    ultimately have "10 ^ ndigits (n div 10) \<le> n" by (metis power_Suc)
    with False show ?thesis by (subst ndigits.simps) simp
  qed
qed

lemma ndigits_le: "n < 10 ^ k \<Longrightarrow> 0 < k \<Longrightarrow> ndigits n \<le> k"
proof (cases "n = 0")
  case True
  assume "0 < k"
  with True show ?thesis by (subst ndigits.simps) simp
next
  case False
  assume "n < 10 ^ k" "0 < k"
  then have "10 ^ (ndigits n - 1) < (10::nat) ^ k"
    using ndigits_lower [of n] False by linarith
  then have "ndigits n - 1 < k" by (rule power_less_imp_less_exp [rotated]) simp
  then show ?thesis by simp
qed

section \<open>Units determine a value\<close>

lemma dec_int_abs: "\<bar>dec_int d\<bar> = int (dec_coef d)"
  by (simp add: dec_int_def)

lemma scaled_sign: "- (\<bar>x\<bar> * 10 ^ k) = x * 10 ^ k \<Longrightarrow> x = - \<bar>x\<bar>" for x :: int
  by (metis minus_mult_left mult_cancel_right power_eq_0_iff zero_neq_numeral)

lemma dec_at_shift:
  assumes "e' \<le> e" "e \<le> dec_exp d"
  shows "dec_at e' d = dec_at e d * 10 ^ nat (e - e')"
proof -
  have "nat (dec_exp d - e') = nat (dec_exp d - e) + nat (e - e')"
    using assms by simp
  then show ?thesis by (simp add: dec_at_def power_add)
qed

lemma dec_units_iff:
  assumes "e \<le> -4" "e \<le> dec_exp d"
  shows "dec_units d = Some x \<longleftrightarrow> dec_at e d = x * 10 ^ nat (-4 - e)"
proof (cases "dec_exp d \<ge> -4")
  case True
  then have "dec_at e d = dec_at (-4) d * 10 ^ nat (-4 - e)"
    using dec_at_shift [of e "-4" d] assms by simp
  with True show ?thesis by (auto simp: dec_units_def)
next
  case False
  define k where "k = nat (-4 - dec_exp d)"
  have ek: "nat (-4 - e) = nat (dec_exp d - e) + k"
    using False assms by (simp add: k_def)
  have *: "dec_at e d = x * 10 ^ nat (-4 - e) \<longleftrightarrow> dec_int d = x * 10 ^ k"
    by (simp add: dec_at_def ek power_add)
  show ?thesis
  proof
    assume "dec_units d = Some x"
    with False have m: "dec_coef d mod 10 ^ k = 0"
      and x: "x = (if dec_neg d then - int (dec_coef d div 10 ^ k) else int (dec_coef d div 10 ^ k))"
      by (auto simp: dec_units_def Let_def k_def split: if_splits)
    have "int (dec_coef d) = int (dec_coef d div 10 ^ k) * 10 ^ k"
      using m by (metis mod_0_imp_dvd dvd_div_mult_self of_nat_mult of_nat_power of_nat_numeral)
    then have "dec_int d = x * 10 ^ k" using x by (simp add: dec_int_def)
    with * show "dec_at e d = x * 10 ^ nat (-4 - e)" by simp
  next
    assume "dec_at e d = x * 10 ^ nat (-4 - e)"
    with * have i: "dec_int d = x * 10 ^ k" by simp
    then have "int (dec_coef d) = \<bar>x\<bar> * 10 ^ k"
      by (simp add: abs_mult flip: dec_int_abs)
    then have c: "dec_coef d = nat \<bar>x\<bar> * 10 ^ k"
      by (metis nat_int nat_mult_distrib abs_ge_zero nat_power_eq zero_le_numeral nat_numeral)
    have "x = (if dec_neg d then - int (nat \<bar>x\<bar>) else int (nat \<bar>x\<bar>))"
      using i c by (auto simp: dec_int_def dest: scaled_sign split: if_splits)
    then have "(if dec_neg d then - int (dec_coef d div 10 ^ k) else int (dec_coef d div 10 ^ k)) = x"
      using c by (simp split: if_splits)
    with False c show "dec_units d = Some x"
      by (simp add: dec_units_def Let_def flip: k_def)
  qed
qed

lemma dec_fix_units:
  assumes "dec_units d = Some x" "\<bar>x\<bar> < 10 ^ 28"
  shows "dec_units (dec_fix d) = Some x"
proof (cases "ndigits (dec_coef d) \<le> 28")
  case True
  with assms show ?thesis by (simp add: dec_fix_def Let_def)
next
  case False
  define c where "c = dec_coef d"
  define k where "k = ndigits c - 28"
  define j where "j = nat (-4 - dec_exp d)"
  have k: "0 < k" "ndigits c = 28 + k" using False by (auto simp: k_def c_def)
  have cpos: "0 < c"
  proof (rule ccontr)
    assume "\<not> 0 < c"
    then have "ndigits c = 1" by (subst ndigits.simps) simp
    with k show False by simp
  qed
  have lo: "10 ^ (27 + k) \<le> c" using ndigits_lower [OF cpos] k by simp
  have hi: "c < 10 ^ (28 + k)" using ndigits_upper [of c] k by simp
  have e4: "dec_exp d < -4"
  proof (rule ccontr)
    assume "\<not> dec_exp d < -4"
    then have "x = dec_int d * 10 ^ nat (dec_exp d + 4)"
      using assms(1) by (simp add: dec_units_def dec_at_def)
    then have "\<bar>x\<bar> = int c * 10 ^ nat (dec_exp d + 4)"
      by (simp add: abs_mult dec_int_def c_def)
    then have "int c \<le> \<bar>x\<bar>" by (simp add: mult_le_cancel_left1)
    moreover have "(10::nat) ^ 28 \<le> c"
      using lo k(1) power_increasing [of 28 "27 + k" "10::nat"] by linarith
    moreover have "int (10 ^ 28) = (10::int) ^ 28" by simp
    ultimately have "(10::int) ^ 28 \<le> \<bar>x\<bar>" by (metis of_nat_le_iff order_trans)
    with assms(2) show False by simp
  qed
  have cx: "c = nat \<bar>x\<bar> * 10 ^ j"
  proof -
    have "dec_int d = x * 10 ^ j"
      using assms(1) e4 dec_units_iff [of "dec_exp d" d x] by (simp add: dec_at_def j_def)
    then have "int c = \<bar>x\<bar> * 10 ^ j"
      by (simp add: abs_mult c_def flip: dec_int_abs)
    then show ?thesis
      by (metis nat_int nat_mult_distrib abs_ge_zero nat_power_eq zero_le_numeral nat_numeral)
  qed
  have sgn: "dec_int d = x * 10 ^ j"
    using assms(1) e4 dec_units_iff [of "dec_exp d" d x] by (simp add: dec_at_def j_def)
  have "nat \<bar>x\<bar> < 10 ^ 28" using assms(2) by (simp add: nat_less_iff)
  then have "c < 10 ^ (28 + j)" unfolding cx power_add by simp
  with lo have "(10::nat) ^ (27 + k) < 10 ^ (28 + j)" by linarith
  then have kj: "k \<le> j" by (simp add: power_strict_increasing_iff)
  then have split: "(10::nat) ^ j = 10 ^ (j - k) * 10 ^ k" by (simp flip: power_add)
  have q: "c div 10 ^ k = nat \<bar>x\<bar> * 10 ^ (j - k)" and r: "c mod 10 ^ k = 0"
    using cx unfolding split by (simp_all flip: mult.assoc)
  have qlt: "c div 10 ^ k < 10 ^ 28"
    using hi unfolding power_add by (simp add: less_mult_imp_div_less)
  have "dec_fix d = Dec (dec_neg d) (nat \<bar>x\<bar> * 10 ^ (j - k)) (dec_exp d + int k)"
    using False r q qlt by (simp add: dec_fix_def Let_def flip: c_def k_def)
  moreover have exps: "nat (-4 - (dec_exp d + int k)) = j - k" "dec_exp d + int k \<le> -4"
    using kj e4 by (auto simp: j_def)
  moreover have "(if dec_neg d then - int (nat \<bar>x\<bar>) else int (nat \<bar>x\<bar>)) = x"
    using sgn cx by (auto simp: dec_int_def c_def dest: scaled_sign split: if_splits)
  then have "(if dec_neg d then - (int (nat \<bar>x\<bar> * 10 ^ (j - k))) else int (nat \<bar>x\<bar> * 10 ^ (j - k)))
      = x * 10 ^ (j - k)"
    by (simp split: if_splits)
  ultimately have "dec_at (dec_exp d + int k) (dec_fix d) = x * 10 ^ (j - k)"
    by (simp only: dec_at_def dec_int_def decimal.sel) simp
  moreover have "dec_exp (dec_fix d) = dec_exp d + int k"
    using \<open>dec_fix d = _\<close> by (simp only: decimal.sel)
  ultimately show ?thesis
    using dec_units_iff [of "dec_exp d + int k" "dec_fix d" x] exps by simp
qed


section \<open>Arithmetic on units\<close>

text \<open>The common exponent at which two operands and the unit scale can be compared.\<close>

definition dec_floor :: "decimal \<Rightarrow> decimal \<Rightarrow> int" where
  "dec_floor a b = min (min (dec_exp a) (dec_exp b)) (-4)"

lemma dec_floor_le:
  "dec_floor a b \<le> -4" "dec_floor a b \<le> dec_exp a" "dec_floor a b \<le> dec_exp b"
  "dec_floor a b \<le> min (dec_exp a) (dec_exp b)"
  by (auto simp: dec_floor_def)

lemma dec_at_min_floor:
  "dec_at (dec_floor a b) a
     = dec_at (min (dec_exp a) (dec_exp b)) a * 10 ^ nat (min (dec_exp a) (dec_exp b) - dec_floor a b)"
  "dec_at (dec_floor a b) b
     = dec_at (min (dec_exp a) (dec_exp b)) b * 10 ^ nat (min (dec_exp a) (dec_exp b) - dec_floor a b)"
  using dec_at_shift [of "dec_floor a b" "min (dec_exp a) (dec_exp b)" a]
    dec_at_shift [of "dec_floor a b" "min (dec_exp a) (dec_exp b)" b] dec_floor_le(4) [of a b]
  by auto

lemma dec_at_floor_units:
  "dec_units a = Some x \<Longrightarrow> dec_at (dec_floor a b) a = x * 10 ^ nat (-4 - dec_floor a b)"
  "dec_units b = Some y \<Longrightarrow> dec_at (dec_floor a b) b = y * 10 ^ nat (-4 - dec_floor a b)"
  using dec_units_iff [of "dec_floor a b" a x] dec_units_iff [of "dec_floor a b" b y]
    dec_floor_le [of a b] by blast+

lemma dec_compare_units:
  assumes "dec_units a = Some x" "dec_units b = Some y"
  shows "dec_less a b \<longleftrightarrow> x < y" "dec_le a b \<longleftrightarrow> x \<le> y" "dec_eq a b \<longleftrightarrow> x = y"
proof -
  let ?e = "min (dec_exp a) (dec_exp b)"
  let ?p = "10 ^ nat (?e - dec_floor a b) :: int" and ?q = "10 ^ nat (-4 - dec_floor a b) :: int"
  have a: "dec_at ?e a * ?p = x * ?q" and b: "dec_at ?e b * ?p = y * ?q"
    using dec_at_min_floor [of a b] dec_at_floor_units(1) [of a x b]
      dec_at_floor_units(2) [of b y a] assms by metis+
  have pos: "0 < ?p" "0 < ?q" by simp_all
  have "dec_at ?e a < dec_at ?e b \<longleftrightarrow> x * ?q < y * ?q"
    using mult_less_cancel_right_pos [OF pos(1)] a b by metis
  then show "dec_less a b \<longleftrightarrow> x < y"
    using mult_less_cancel_right_pos [OF pos(2)] by (simp add: dec_less_def Let_def)
  have "dec_at ?e a \<le> dec_at ?e b \<longleftrightarrow> x * ?q \<le> y * ?q"
    using mult_le_cancel_right_pos [OF pos(1)] a b by metis
  then show "dec_le a b \<longleftrightarrow> x \<le> y"
    using mult_le_cancel_right_pos [OF pos(2)] by (simp add: dec_le_def Let_def)
  have "dec_at ?e a = dec_at ?e b \<longleftrightarrow> x * ?q = y * ?q"
    using a b pos(1) by (metis mult_cancel_right order_less_irrefl)
  then show "dec_eq a b \<longleftrightarrow> x = y"
    using pos(2) by (simp add: dec_eq_def Let_def)
qed

lemma dec_units_minus: "dec_units (dec_minus a) = map_option uminus (dec_units a)"
  by (auto simp: dec_units_def dec_minus_def dec_at_def dec_int_def Let_def)

lemma dec_units_add:
  assumes "dec_units a = Some x" "dec_units b = Some y" "\<bar>x + y\<bar> < 10 ^ 28"
  shows "dec_units (dec_add a b) = Some (x + y)"
proof -
  let ?e = "min (dec_exp a) (dec_exp b)"
  define r where "r = dec_at ?e a + dec_at ?e b"
  define d where "d = Dec (r < 0 \<or> r = 0 \<and> dec_neg a \<and> dec_neg b) (nat \<bar>r\<bar>) ?e"
  have i: "dec_int d = r" by (auto simp: d_def dec_int_def)
  have de: "dec_exp d = ?e" by (simp only: d_def decimal.sel)
  have "dec_at (dec_floor a b) d = r * 10 ^ nat (?e - dec_floor a b)"
    by (simp only: dec_at_def de i)
  also have "\<dots> = dec_at (dec_floor a b) a + dec_at (dec_floor a b) b"
    by (simp only: dec_at_min_floor r_def distrib_right)
  also have "\<dots> = (x + y) * 10 ^ nat (-4 - dec_floor a b)"
    using dec_at_floor_units(1) [of a x b] dec_at_floor_units(2) [of b y a] assms(1,2)
    by (simp only: distrib_right)
  finally have "dec_units d = Some (x + y)"
    using dec_units_iff [of "dec_floor a b" d "x + y"] dec_floor_le(1,4) [of a b] de by metis
  then have "dec_units (dec_fix d) = Some (x + y)"
    using assms(3) by (rule dec_fix_units)
  then show ?thesis by (simp only: dec_add_def Let_def d_def r_def)
qed

lemma dec_units_sub:
  assumes "dec_units a = Some x" "dec_units b = Some y" "\<bar>x - y\<bar> < 10 ^ 28"
  shows "dec_units (dec_sub a b) = Some (x - y)"
  using dec_units_add [of a x "dec_minus b" "- y"] assms
  by (simp add: dec_sub_def dec_units_minus)

lemma dec_units_max:
  assumes "dec_units a = Some x" "dec_units b = Some y"
  shows "dec_units (dec_max a b) = Some (max x y)"
  using assms by (auto simp: dec_max_def dec_compare_units)

lemma dec_units_zero [simp]: "dec_units dec_zero = Some 0"
  by (simp add: dec_units_def dec_zero_def dec_at_def dec_int_def)

text \<open>A sum whose partial sums all stay below the context's precision is exact.\<close>

lemma foldl_dec_add_units:
  assumes "list_all2 (\<lambda>d x. dec_units d = Some x) ds xs"
    and "dec_units a = Some s"
    and "\<bar>s\<bar> + sum_list (map abs xs) < 10 ^ 28"
  shows "dec_units (foldl dec_add a ds) = Some (s + sum_list xs)"
  using assms
proof (induction ds xs arbitrary: a s rule: list_all2_induct)
  case Nil
  then show ?case by simp
next
  case (Cons d ds x xs)
  have nn: "0 \<le> sum_list (map abs xs)" by (rule sum_list_nonneg) auto
  have "\<bar>s + x\<bar> < 10 ^ 28"
    using Cons.prems(2) nn abs_triangle_ineq [of s x] by (simp del: abs_triangle_ineq)
  then have "dec_units (dec_add a d) = Some (s + x)"
    using dec_units_add Cons.hyps(1) Cons.prems(1) by blast
  moreover have "\<bar>s + x\<bar> + sum_list (map abs xs) < 10 ^ 28"
    using Cons.prems(2) abs_triangle_ineq [of s x] by simp
  ultimately have "dec_units (foldl dec_add (dec_add a d) ds) = Some (s + x + sum_list xs)"
    by (rule Cons.IH)
  then show ?case by (simp add: add.assoc)
qed

lemma dec_sum_units:
  assumes "list_all2 (\<lambda>d x. dec_units d = Some x) ds xs"
    and "sum_list (map abs xs) < 10 ^ 28"
  shows "dec_units (dec_sum ds) = Some (sum_list xs)"
  using foldl_dec_add_units [OF assms(1), of dec_zero 0] assms(2) by (simp add: dec_sum_def)


section \<open>Remainders\<close>

lemma dec_fix_coef_0: "dec_coef (dec_fix d) = 0 \<longleftrightarrow> dec_coef d = 0"
proof (cases "ndigits (dec_coef d) \<le> 28")
  case True
  then show ?thesis by (simp add: dec_fix_def Let_def)
next
  case False
  define k where "k = ndigits (dec_coef d) - 28"
  have "0 < dec_coef d"
  proof (rule ccontr)
    assume "\<not> 0 < dec_coef d"
    then have "ndigits (dec_coef d) = 1" by (subst ndigits.simps) simp
    with False show False by simp
  qed
  then have "10 ^ (27 + k) \<le> dec_coef d"
    using ndigits_lower [of "dec_coef d"] False by (simp add: k_def)
  moreover have "(10::nat) ^ k \<le> 10 ^ (27 + k)" by (rule power_increasing) simp_all
  ultimately have "10 ^ k \<le> dec_coef d" by linarith
  then have "0 < dec_coef d div 10 ^ k" by (simp add: div_greater_zero_iff)
  with False \<open>0 < dec_coef d\<close> show ?thesis by (auto simp: dec_fix_def Let_def simp flip: k_def)
qed

lemma dec_rem_units:
  assumes "dec_units a = Some x" "dec_units b = Some y" "y \<noteq> 0" "\<bar>x\<bar> < 10 ^ 28"
  shows "\<exists>r. dec_rem a b = Some r \<and> (dec_coef r = 0 \<longleftrightarrow> y dvd x)"
proof -
  let ?e = "min (dec_exp a) (dec_exp b)"
  define P where "P = (10::int) ^ nat (?e - dec_floor a b)"
  define Q where "Q = (10::int) ^ nat (-4 - dec_floor a b)"
  define X where "X = \<bar>dec_at ?e a\<bar>"
  define Y where "Y = \<bar>dec_at ?e b\<bar>"
  have pos: "0 < P" "0 < Q" by (simp_all add: P_def Q_def)
  have "dec_at ?e a * P = x * Q" "dec_at ?e b * P = y * Q"
    using dec_at_min_floor [of a b] dec_at_floor_units(1) [of a x b]
      dec_at_floor_units(2) [of b y a] assms(1,2) unfolding P_def Q_def by metis+
  then have XY: "X * P = \<bar>x\<bar> * Q" "Y * P = \<bar>y\<bar> * Q"
    using pos by (metis X_def Y_def abs_mult abs_of_pos)+
  have Y0: "Y \<noteq> 0" using XY(2) pos assms(3) by auto
  have nn: "0 \<le> X" "0 \<le> Y" by (simp_all add: X_def Y_def)
  have "X div Y = (X * P) div (Y * P)" using pos(1) by simp
  also have "\<dots> = \<bar>x\<bar> div \<bar>y\<bar>" unfolding XY using pos(2) by simp
  also have "\<dots> \<le> \<bar>x\<bar>" using zdiv_mono2 [of "\<bar>x\<bar>" 1 "\<bar>y\<bar>"] assms(3) by simp
  finally have q: "X div Y < 10 ^ 28" using assms(4) by linarith
  have "Y dvd X \<longleftrightarrow> Y * P dvd X * P" using pos(1) by simp
  also have "\<dots> \<longleftrightarrow> y dvd x" unfolding XY using pos(2) by simp
  finally have d: "Y dvd X \<longleftrightarrow> y dvd x" .
  have "nat X div nat Y < 10 ^ 28"
    using q nn by (simp add: nat_div_distrib [symmetric] nat_less_iff)
  moreover have "nat Y \<noteq> 0" using Y0 nn by simp
  moreover have "nat X mod nat Y = 0 \<longleftrightarrow> y dvd x"
    using d nn by (metis int_dvd_int_iff int_nat_eq mod_eq_0_iff_dvd)
  moreover have "dec_rem a b = (if nat Y = 0 \<or> nat X div nat Y \<ge> 10 ^ 28 then None
      else Some (dec_fix (Dec (dec_neg a) (nat X mod nat Y) ?e)))"
    by (simp only: dec_rem_def Let_def X_def Y_def)
  ultimately show ?thesis by (simp add: dec_fix_coef_0 not_le)
qed


section \<open>What rounding to 28 digits can change\<close>

lemma dec_fix_wide:
  fixes d defines "c \<equiv> dec_coef d" and "k \<equiv> ndigits (dec_coef d) - 28"
  assumes "28 < ndigits c"
  obtains q where
    "dec_at (dec_exp d) (dec_fix d) = (if dec_neg d then - int q else int q) * 10 ^ k"
    "dec_exp d \<le> dec_exp (dec_fix d)"
    "q = c div 10 ^ k \<or> q = Suc (c div 10 ^ k)" "c mod 10 ^ k = 0 \<longrightarrow> q = c div 10 ^ k"
proof -
  define q where "q = (if 2 * (c mod 10 ^ k) > 10 ^ k \<or> 2 * (c mod 10 ^ k) = 10 ^ k \<and> odd (c div 10 ^ k)
    then Suc (c div 10 ^ k) else c div 10 ^ k)"
  have f: "dec_fix d = (if q = 10 ^ 28 then Dec (dec_neg d) (10 ^ 27) (dec_exp d + int k + 1)
      else Dec (dec_neg d) q (dec_exp d + int k))"
    using assms(3) by (simp add: dec_fix_def Let_def q_def c_def k_def)
  have exps: "nat (int k + 1) = Suc k" "nat (int k) = k" by simp_all
  show ?thesis
  proof (rule that [of q])
    show "dec_at (dec_exp d) (dec_fix d) = (if dec_neg d then - int q else int q) * 10 ^ k"
      unfolding f by (auto simp: dec_at_def dec_int_def exps add.assoc)
    show "dec_exp d \<le> dec_exp (dec_fix d)" unfolding f by simp
    show "q = c div 10 ^ k \<or> q = Suc (c div 10 ^ k)" by (simp add: q_def)
    show "c mod 10 ^ k = 0 \<longrightarrow> q = c div 10 ^ k" by (auto simp: q_def)
  qed
qed

lemma dec_fix_error_at_exp:
  "\<bar>dec_at (dec_exp d) (dec_fix d) - dec_int d\<bar> * 10 ^ 27 \<le> \<bar>dec_int d\<bar> \<and> dec_exp d \<le> dec_exp (dec_fix d)"
proof (cases "28 < ndigits (dec_coef d)")
  case False
  then show ?thesis by (simp add: dec_fix_def Let_def dec_at_def)
next
  case True
  define c where "c = dec_coef d"
  define k where "k = ndigits (dec_coef d) - 28"
  obtain q where q: "dec_at (dec_exp d) (dec_fix d) = (if dec_neg d then - int q else int q) * 10 ^ k"
    "dec_exp d \<le> dec_exp (dec_fix d)" "q = c div 10 ^ k \<or> q = Suc (c div 10 ^ k)"
    using dec_fix_wide [OF True] unfolding c_def k_def by metis
  have "0 < c" using True unfolding c_def by (cases "dec_coef d = 0") (simp_all add: ndigits.simps)
  then have "10 ^ (27 + k) \<le> c"
    using ndigits_lower [of c] True unfolding c_def k_def by simp
  then have "int (10 ^ (27 + k)) \<le> int c" by (simp only: of_nat_le_iff)
  then have lo: "10 ^ k * 10 ^ 27 \<le> int c" by (simp add: power_add)
  have "int c = int (c div 10 ^ k * 10 ^ k + c mod 10 ^ k)" by (simp only: div_mult_mod_eq)
  then have m: "int c = int (c div 10 ^ k) * 10 ^ k + int (c mod 10 ^ k)"
    by (simp only: of_nat_add of_nat_mult of_nat_power of_nat_numeral)
  have r: "0 \<le> int (c mod 10 ^ k)" "int (c mod 10 ^ k) < 10 ^ k"
    by (simp_all add: zmod_int)
  define A where "A = int (c div 10 ^ k) * 10 ^ k"
  define R where "R = int (c mod 10 ^ k)"
  have "int q * 10 ^ k = A \<or> int q * 10 ^ k = A + 10 ^ k"
    using q(3) by (auto simp: A_def distrib_right)
  moreover have "int c = A + R" "0 \<le> R" "R < 10 ^ k" using m r by (simp_all add: A_def R_def)
  ultimately have "\<bar>int q * 10 ^ k - int c\<bar> \<le> 10 ^ k" by arith
  then have "\<bar>int q * 10 ^ k - int c\<bar> * 10 ^ 27 \<le> 10 ^ k * 10 ^ 27"
    by (rule mult_right_mono) simp
  with lo have b: "\<bar>int q * 10 ^ k - int c\<bar> * 10 ^ 27 \<le> int c" by linarith
  have i: "dec_int d = (if dec_neg d then - int c else int c)" by (simp add: dec_int_def c_def)
  have "\<bar>dec_at (dec_exp d) (dec_fix d) - dec_int d\<bar> = \<bar>int q * 10 ^ k - int c\<bar>"
    unfolding q(1) i by (auto simp: abs_minus_commute)
  with b q(2) i show ?thesis by simp
qed

lemma dec_fix_error:
  assumes "e \<le> dec_exp d"
  shows "\<bar>dec_at e (dec_fix d) - dec_at e d\<bar> * 10 ^ 27 \<le> \<bar>dec_at e d\<bar>"
proof -
  let ?p = "10 ^ nat (dec_exp d - e) :: int"
  note f = dec_fix_error_at_exp [of d]
  have "dec_at e (dec_fix d) = dec_at (dec_exp d) (dec_fix d) * ?p" "dec_at e d = dec_int d * ?p"
    using dec_at_shift [of e "dec_exp d" "dec_fix d"] f assms by (simp_all add: dec_at_def)
  then have "dec_at e (dec_fix d) - dec_at e d = (dec_at (dec_exp d) (dec_fix d) - dec_int d) * ?p"
    "\<bar>dec_at e d\<bar> = \<bar>dec_int d\<bar> * ?p"
    by (simp_all add: left_diff_distrib abs_mult)
  moreover have "\<bar>dec_at (dec_exp d) (dec_fix d) - dec_int d\<bar> * 10 ^ 27 * ?p \<le> \<bar>dec_int d\<bar> * ?p"
    using f by (intro mult_right_mono) auto
  ultimately show ?thesis by (simp add: abs_mult mult.assoc mult.commute)
qed
lemma dec_coef_fix_digits: "ndigits (dec_coef (dec_fix d)) \<le> 28"
proof (cases "28 < ndigits (dec_coef d)")
  case False
  then show ?thesis by (simp add: dec_fix_def Let_def)
next
  case True
  define c where "c = dec_coef d"
  define k where "k = ndigits c - 28"
  have n: "ndigits c = 28 + k" using True by (simp add: c_def k_def)
  have "c < 10 ^ 28 * 10 ^ k" using ndigits_upper [of c] unfolding n by (simp only: power_add)
  then have "c div 10 ^ k < 10 ^ 28" by (rule less_mult_imp_div_less)
  then have "dec_coef (dec_fix d) < 10 ^ 28"
    using True by (auto simp: dec_fix_def Let_def c_def [symmetric] k_def [symmetric])
  then show ?thesis by (rule ndigits_le) simp
qed

text \<open>Rounding does not change a value that has a representation of at most 28 digits.\<close>

lemma dec_fix_exact:
  assumes "dec_coef b < 10 ^ 28" "e \<le> dec_exp d" "e \<le> dec_exp b" "dec_at e b = dec_at e d"
  shows "dec_at e (dec_fix d) = dec_at e d"
proof (cases "28 < ndigits (dec_coef d)")
  case False
  then show ?thesis by (simp add: dec_fix_def Let_def)
next
  case True
  define c where "c = dec_coef d"
  define k where "k = ndigits (dec_coef d) - 28"
  define m where "m = nat (dec_exp d - e)"
  define n where "n = nat (dec_exp b - e)"
  obtain q where q: "dec_at (dec_exp d) (dec_fix d) = (if dec_neg d then - int q else int q) * 10 ^ k"
    "dec_exp d \<le> dec_exp (dec_fix d)" "c mod 10 ^ k = 0 \<longrightarrow> q = c div 10 ^ k"
    using dec_fix_wide [OF True] unfolding c_def k_def by metis
  have "0 < c" using True unfolding c_def by (cases "dec_coef d = 0") (simp_all add: ndigits.simps)
  then have lo: "10 ^ (27 + k) \<le> c"
    using ndigits_lower [of c] True unfolding c_def k_def by simp
  have "int (dec_coef b) * 10 ^ n = int c * 10 ^ m"
  proof -
    have "\<bar>dec_int b * 10 ^ n\<bar> = \<bar>dec_int d * 10 ^ m\<bar>"
      using assms(4) by (simp add: dec_at_def n_def m_def)
    then show ?thesis by (simp add: abs_mult dec_int_abs c_def)
  qed
  then have "int (dec_coef b * 10 ^ n) = int (c * 10 ^ m)" by simp
  then have bc: "dec_coef b * 10 ^ n = c * 10 ^ m" by (simp only: of_nat_eq_iff)
  have "(10::nat) ^ (27 + k) * 10 ^ m \<le> c * 10 ^ m" using lo by (rule mult_right_mono) simp
  also have "\<dots> < 10 ^ 28 * 10 ^ n" unfolding bc [symmetric] using assms(1) by simp
  finally have "(10::nat) ^ (27 + k + m) < 10 ^ (28 + n)" by (simp only: power_add)
  then have kmn: "k + m \<le> n" by (simp add: power_strict_increasing_iff)
  then have "c * 10 ^ m = dec_coef b * 10 ^ (n - (k + m)) * 10 ^ k * 10 ^ m"
    unfolding bc [symmetric] by (simp flip: power_add add: mult.assoc)
  then have "c = dec_coef b * 10 ^ (n - (k + m)) * 10 ^ k" by simp
  then have "c mod 10 ^ k = 0" by simp
  then have "q * 10 ^ k = c" using q(3) by (metis mod_0_imp_dvd dvd_div_mult_self)
  then have "int q * 10 ^ k = int c" by (metis of_nat_mult of_nat_power of_nat_numeral)
  then have "dec_at (dec_exp d) (dec_fix d) = dec_int d"
    using q(1) by (simp add: dec_int_def c_def)
  then show ?thesis
    using dec_at_shift [OF assms(2) q(2)] by (simp add: dec_at_def)
qed

text \<open>
  A value whose rounding is an integer number of units, and of which some integer number of units
  is a multiple, is that integer itself.
\<close>

lemma dec_divisor_units:
  assumes "dec_units t = Some T" "0 < T" "T < 10 ^ 10"
    and "dec_units (dec_fix d) = Some X" "0 < dec_at e d"
    and "dec_at e d dvd dec_at e t" "e \<le> -4" "e \<le> dec_exp t" "e \<le> dec_exp d"
  shows "dec_units d = Some X \<and> X dvd T"
proof -
  define P where "P = (10::int) ^ nat (-4 - e)"
  define y where "y = dec_at e d"
  have P: "0 < P" by (simp add: P_def)
  have ef: "e \<le> dec_exp (dec_fix d)" using dec_fix_error_at_exp [of d] assms(9) by simp
  have t: "dec_at e t = T * P" using dec_units_iff assms(1,7,8) unfolding P_def by blast
  have f: "dec_at e (dec_fix d) = X * P" using dec_units_iff assms(4,7) ef unfolding P_def by blast
  obtain m where m: "T * P = y * m" using assms(6) unfolding t y_def by (elim dvdE)
  have y: "0 < y" using assms(5) by (simp add: y_def)
  have "0 < y * m" unfolding m [symmetric] using assms(2) P by simp
  with y have m0: "0 < m" by (simp add: zero_less_mult_iff)
  have "\<bar>X * P - y\<bar> * 10 ^ 27 \<le> y"
    using dec_fix_error [OF assms(9)] y unfolding f y_def by simp
  then have "m * (\<bar>X * P - y\<bar> * 10 ^ 27) \<le> m * y" using m0 by (intro mult_left_mono) auto
  moreover have "m * \<bar>X * P - y\<bar> = \<bar>m * X - T\<bar> * P"
  proof -
    have "m * (X * P - y) = (m * X - T) * P" using m by (simp add: algebra_simps)
    then show ?thesis using m0 P by (metis abs_mult abs_of_pos)
  qed
  ultimately have "\<bar>m * X - T\<bar> * P * 10 ^ 27 \<le> T * P"
    using m by (simp add: mult.assoc mult.commute)
  then have "(\<bar>m * X - T\<bar> * 10 ^ 27) * P \<le> T * P" by (simp add: ac_simps)
  then have le: "\<bar>m * X - T\<bar> * 10 ^ 27 \<le> T" using P by simp
  have mx: "m * X = T"
  proof (rule ccontr)
    assume "m * X \<noteq> T"
    then have "1 \<le> \<bar>m * X - T\<bar>" by arith
    then have "1 * 10 ^ 27 \<le> \<bar>m * X - T\<bar> * 10 ^ 27" by (rule mult_right_mono) simp
    with le assms(3) show False by simp
  qed
  with m have "m * (X * P) = m * y" by (simp add: ac_simps)
  with m0 have "y = X * P" by simp
  then have "dec_units d = Some X"
    using dec_units_iff [OF assms(7,9)] unfolding y_def P_def by blast
  with mx show ?thesis by auto
qed


section \<open>Exact multiples\<close>

lemma dec_rem_dvd:
  assumes "dec_rem a b = Some r" "dec_coef r = 0" "e \<le> dec_exp a" "e \<le> dec_exp b"
  shows "dec_at e b dvd dec_at e a"
proof -
  define f where "f = min (dec_exp a) (dec_exp b)"
  have "nat \<bar>dec_at f a\<bar> mod nat \<bar>dec_at f b\<bar> = 0"
    using assms(1,2) by (auto simp: dec_rem_def Let_def dec_fix_coef_0 f_def split: if_splits)
  then have "dec_at f b dvd dec_at f a"
    by (metis abs_dvd_iff dvd_abs_iff int_dvd_int_iff int_nat_eq abs_ge_zero mod_eq_0_iff_dvd)
  moreover have "dec_at e a = dec_at f a * 10 ^ nat (f - e)" "dec_at e b = dec_at f b * 10 ^ nat (f - e)"
    using dec_at_shift [of e f a] dec_at_shift [of e f b] assms(3,4) by (auto simp: f_def)
  ultimately show ?thesis by simp
qed

lemma dec_multiple_units:
  assumes "dec_units st = Some S" "dec_rem s st = Some r" "dec_coef r = 0"
  shows "\<exists>x. dec_units s = Some x \<and> S dvd x"
proof -
  let ?e = "dec_floor s st"
  have "dec_at ?e st dvd dec_at ?e s" by (rule dec_rem_dvd [OF assms(2,3)]) (rule dec_floor_le)+
  moreover have "dec_at ?e st = S * 10 ^ nat (-4 - ?e)" by (rule dec_at_floor_units(2) [OF assms(1)])
  ultimately obtain m where "dec_at ?e s = S * 10 ^ nat (-4 - ?e) * m" by (metis dvdE)
  then have "dec_at ?e s = (S * m) * 10 ^ nat (-4 - ?e)" by (simp add: ac_simps)
  then have "dec_units s = Some (S * m)" using dec_units_iff dec_floor_le by blast
  then show ?thesis by simp
qed

lemma dec_sum_digits: "dec_coef (dec_sum ds) < 10 ^ 28"
proof (cases ds rule: rev_cases)
  case Nil
  then show ?thesis by (simp add: dec_sum_def dec_zero_def)
next
  case (snoc ds' d)
  have "dec_coef (dec_fix x) < 10 ^ 28" for x
    using ndigits_upper [of "dec_coef (dec_fix x)"] dec_coef_fix_digits [of x]
      power_increasing [of "ndigits (dec_coef (dec_fix x))" 28 "10::nat"] by linarith
  with snoc show ?thesis by (simp add: dec_sum_def dec_add_def Let_def)
qed


section \<open>The integer value of a score\<close>

definition uval :: "decimal \<Rightarrow> int" where
  "uval d = the (dec_units d)"

lemma decimal_fieldD: "decimal_field d \<Longrightarrow> \<exists>x. dec_units (dec_fix d) = Some x \<and> \<bar>x\<bar> < 10 ^ 10"
  by (auto simp: decimal_field_def split: option.splits)

lemma decimal_field_bound:
  assumes "decimal_field d" "dec_units d = Some x"
  shows "\<bar>x\<bar> < 10 ^ 10"
proof -
  obtain X where X: "dec_units (dec_fix d) = Some X" "\<bar>X\<bar> < 10 ^ 10" using decimal_fieldD [OF assms(1)] by blast
  define e where "e = min (dec_exp d) (-4)"
  define P where "P = (10::int) ^ nat (-4 - e)"
  have e: "e \<le> -4" "e \<le> dec_exp d" "e \<le> dec_exp (dec_fix d)"
    using dec_fix_error_at_exp [of d] by (auto simp: e_def)
  have P: "0 < P" by (simp add: P_def)
  have "dec_at e d = x * P" "dec_at e (dec_fix d) = X * P"
    using dec_units_iff [OF e(1,2)] dec_units_iff [OF e(1,3)] assms(2) X(1) unfolding P_def by blast+
  then have "\<bar>X * P - x * P\<bar> * 10 ^ 27 \<le> \<bar>x * P\<bar>" using dec_fix_error [OF e(2)] by simp
  moreover have "\<bar>X * P - x * P\<bar> = \<bar>X - x\<bar> * P" "\<bar>x * P\<bar> = \<bar>x\<bar> * P"
    using P by (metis abs_mult abs_of_pos left_diff_distrib)+
  ultimately have "\<bar>X - x\<bar> * 10 ^ 27 * P \<le> \<bar>x\<bar> * P" by (simp add: ac_simps)
  then have "\<bar>X - x\<bar> * 10 ^ 27 \<le> \<bar>x\<bar>" using P by simp
  then have "\<bar>X - x\<bar> * 2 \<le> \<bar>x\<bar>"
    using mult_left_mono [of 2 "10 ^ 27 :: int" "\<bar>X - x\<bar>"] by simp
  show ?thesis
  proof (cases "\<bar>x\<bar> < 10 ^ 28")
    case True
    then show ?thesis using dec_fix_units [OF assms(2)] X by simp
  next
    case False
    have "\<bar>x\<bar> \<le> 2 * \<bar>X\<bar>" using \<open>\<bar>X - x\<bar> * 2 \<le> \<bar>x\<bar>\<close> by arith
    with False X(2) show ?thesis by simp
  qed
qed

lemma decimal_field_units:
  assumes "dec_units d = Some x"
  shows "decimal_field d \<longleftrightarrow> \<bar>x\<bar> < 10 ^ 10"
proof
  assume "\<bar>x\<bar> < 10 ^ 10"
  then show "decimal_field d" using dec_fix_units [OF assms] by (simp add: decimal_field_def)
qed (use decimal_field_bound assms in blast)

lemma uval_Some: "dec_units d = Some x \<Longrightarrow> uval d = x"
  by (simp add: uval_def)

end
