(* ===== verification/Domain_Rubric.thy ===== *)
theory Domain_Rubric
  imports Py_Decimal
begin

text \<open>
  \<open>backend/app/domain/rubric.py\<close>: the frozen rubric contract. The pydantic models are records;
  each \<open>field_validator\<close> and \<open>Field\<close> constraint is a guard of the constructor function, and
  \<open>validate_unique_dimension_ids\<close> is the root validator, check by check in the source's order.
  \<open>str.casefold\<close> (the Unicode case table) is the parameter \<open>casefold\<close>.
\<close>

section \<open>Data\<close>

record rubric_band =
  band_label :: pystr
  band_min_score :: decimal
  band_max_score :: decimal
  band_description :: pystr

record rubric_dimension =
  dim_id :: pystr
  dim_name :: pystr
  dim_description :: pystr
  dim_max_score :: decimal
  dim_bands :: "rubric_band list"
  dim_evidence_requirements :: "pystr list"

record rubric_deduction =
  ded_id :: pystr
  ded_name :: pystr
  ded_description :: pystr
  ded_points :: decimal

record structured_rubric =
  rub_schema_version :: int
  rub_total_score :: decimal
  rub_score_step :: decimal
  rub_dimensions :: "rubric_dimension list"
  rub_deductions :: "rubric_deduction list"

text \<open>
  The raised errors. \<open>FieldError\<close> is a violated \<open>Field\<close> constraint or field validator; the others
  are the \<open>ValueError\<close>s of the root validator; \<open>DecimalInvalidOperation\<close> is the arithmetic
  exception that \<open>%\<close> could raise.
\<close>

datatype rubric_error =
    FieldError string
  | DimensionIdDuplicate
  | DimensionNameDuplicate
  | DeductionIdDuplicate
  | DeductionNameDuplicate
  | DimensionSumMismatch
  | ScoreStepMismatch
  | DeductionExceedsTotal
  | BandsNotContiguous
  | DecimalInvalidOperation

section \<open>Field validators\<close>

text \<open>\<open>validate_text\<close> (mode before): strip and refuse the empty text.\<close>

definition validate_text :: "string \<Rightarrow> pystr \<Rightarrow> rubric_error + pystr" where
  "validate_text field v =
     (let s = py_strip v in if s = [] then Inl (FieldError field) else Inr s)"

definition text_field :: "string \<Rightarrow> nat \<Rightarrow> pystr \<Rightarrow> rubric_error + pystr" where
  "text_field field hi v =
     bindR (validate_text field v) (\<lambda>s.
     bindR (ensure (length_between 1 hi s) (FieldError field)) (\<lambda>_. Inr s))"

definition score_ge0 :: "decimal \<Rightarrow> bool" where
  "score_ge0 d \<longleftrightarrow> dec_le dec_zero d \<and> decimal_field d"

definition score_gt0 :: "decimal \<Rightarrow> bool" where
  "score_gt0 d \<longleftrightarrow> dec_less dec_zero d \<and> decimal_field d"

definition validate_band :: "rubric_band \<Rightarrow> rubric_error + rubric_band" where
  "validate_band b =
     bindR (text_field ''label'' 120 (band_label b)) (\<lambda>label.
     bindR (ensure (score_ge0 (band_min_score b)) (FieldError ''min_score'')) (\<lambda>_.
     bindR (ensure (score_ge0 (band_max_score b)) (FieldError ''max_score'')) (\<lambda>_.
     bindR (text_field ''description'' 4000 (band_description b)) (\<lambda>description.
     Inr (b\<lparr>band_label := label, band_description := description\<rparr>)))))"

text \<open>\<open>validate_evidence_requirements\<close>: collapse white space, refuse empty entries.\<close>

definition validate_evidence_requirements :: "pystr list \<Rightarrow> rubric_error + pystr list" where
  "validate_evidence_requirements vs =
     (let cleaned = map (\<lambda>v. join_space (py_split v)) vs in
      if \<exists>v \<in> set cleaned. v = [] then Inl (FieldError ''evidence_requirements'')
      else Inr cleaned)"

definition validate_dimension :: "rubric_dimension \<Rightarrow> rubric_error + rubric_dimension" where
  "validate_dimension d =
     bindR (ensure (is_identifier (dim_id d)) (FieldError ''id'')) (\<lambda>_.
     bindR (text_field ''name'' 160 (dim_name d)) (\<lambda>name.
     bindR (text_field ''description'' 4000 (dim_description d)) (\<lambda>description.
     bindR (ensure (score_gt0 (dim_max_score d)) (FieldError ''max_score'')) (\<lambda>_.
     bindR (ensure (length_between 1 50 (dim_bands d)) (FieldError ''bands'')) (\<lambda>_.
     bindR (mapR validate_band (dim_bands d)) (\<lambda>bands.
     bindR (ensure (length_between 1 50 (dim_evidence_requirements d))
       (FieldError ''evidence_requirements'')) (\<lambda>_.
     bindR (validate_evidence_requirements (dim_evidence_requirements d)) (\<lambda>evidence.
     Inr (d\<lparr>dim_name := name, dim_description := description, dim_bands := bands,
            dim_evidence_requirements := evidence\<rparr>)))))))))"

definition validate_deduction :: "rubric_deduction \<Rightarrow> rubric_error + rubric_deduction" where
  "validate_deduction d =
     bindR (ensure (is_identifier (ded_id d)) (FieldError ''id'')) (\<lambda>_.
     bindR (text_field ''name'' 160 (ded_name d)) (\<lambda>name.
     bindR (text_field ''description'' 4000 (ded_description d)) (\<lambda>description.
     bindR (ensure (score_gt0 (ded_points d)) (FieldError ''points'')) (\<lambda>_.
     Inr (d\<lparr>ded_name := name, ded_description := description\<rparr>)))))"

section \<open>The root validator\<close>

text \<open>The key under which names are compared: collapsed white space, case folded.\<close>

definition name_key :: "(pystr \<Rightarrow> pystr) \<Rightarrow> pystr \<Rightarrow> pystr" where
  "name_key casefold name = casefold (join_space (py_split name))"

text \<open>\<open>any(score % step != 0 for score in scores)\<close>; \<open>None\<close> when \<open>%\<close> raises.\<close>

fun any_off_step :: "decimal \<Rightarrow> decimal list \<Rightarrow> bool option" where
  "any_off_step step [] = Some False"
| "any_off_step step (s # ss) = (case dec_rem s step of
      None \<Rightarrow> None
    | Some r \<Rightarrow> if dec_coef r \<noteq> 0 then Some True else any_off_step step ss)"

definition rubric_scores :: "structured_rubric \<Rightarrow> decimal list" where
  "rubric_scores r = rub_total_score r # map dim_max_score (rub_dimensions r)
     @ concat (map (\<lambda>d. concat (map (\<lambda>b. [band_min_score b, band_max_score b]) (dim_bands d)))
                   (rub_dimensions r))
     @ map ded_points (rub_deductions r)"

text \<open>The inner loop over the bands of one dimension, with \<open>previous_max\<close> as its state.\<close>

fun check_bands :: "decimal \<Rightarrow> decimal \<Rightarrow> decimal option \<Rightarrow> rubric_band list \<Rightarrow> rubric_error + unit" where
  "check_bands step dim_max previous_max [] =
     (case previous_max of None \<Rightarrow> Inl BandsNotContiguous
      | Some p \<Rightarrow> ensure (dec_eq p dim_max) BandsNotContiguous)"
| "check_bands step dim_max previous_max (b # bs) =
     (let expected_min = (case previous_max of None \<Rightarrow> dec_zero | Some p \<Rightarrow> dec_add p step) in
      if \<not> dec_eq (band_min_score b) expected_min
         \<or> dec_less (band_max_score b) (band_min_score b)
         \<or> dec_less dim_max (band_max_score b)
      then Inl BandsNotContiguous
      else check_bands step dim_max (Some (band_max_score b)) bs)"

definition validate_unique_dimension_ids ::
    "(pystr \<Rightarrow> pystr) \<Rightarrow> structured_rubric \<Rightarrow> rubric_error + structured_rubric" where
  "validate_unique_dimension_ids casefold r =
     bindR (ensure (distinct (map dim_id (rub_dimensions r))) DimensionIdDuplicate) (\<lambda>_.
     bindR (ensure (distinct (map (name_key casefold \<circ> dim_name) (rub_dimensions r)))
       DimensionNameDuplicate) (\<lambda>_.
     bindR (ensure (distinct (map ded_id (rub_deductions r))) DeductionIdDuplicate) (\<lambda>_.
     bindR (ensure (distinct (map (name_key casefold \<circ> ded_name) (rub_deductions r)))
       DeductionNameDuplicate) (\<lambda>_.
     bindR (ensure (dec_eq (dec_sum (map dim_max_score (rub_dimensions r))) (rub_total_score r))
       DimensionSumMismatch) (\<lambda>_.
     bindR (if dec_less (rub_total_score r) (rub_score_step r) then Inl ScoreStepMismatch
            else case any_off_step (rub_score_step r) (rubric_scores r) of
                   None \<Rightarrow> Inl DecimalInvalidOperation
                 | Some True \<Rightarrow> Inl ScoreStepMismatch
                 | Some False \<Rightarrow> Inr ()) (\<lambda>_.
     bindR (ensure (\<forall>d \<in> set (rub_deductions r). \<not> dec_less (rub_total_score r) (ded_points d))
       DeductionExceedsTotal) (\<lambda>_.
     bindR (mapR (\<lambda>d. check_bands (rub_score_step r) (dim_max_score d) None (dim_bands d))
       (rub_dimensions r)) (\<lambda>_.
     Inr r))))))))"

text \<open>\<open>StructuredRubric.model_validate\<close> on fields of the declared types.\<close>

definition validate_rubric ::
    "(pystr \<Rightarrow> pystr) \<Rightarrow> structured_rubric \<Rightarrow> rubric_error + structured_rubric" where
  "validate_rubric casefold r =
     bindR (ensure (rub_schema_version r = 1) (FieldError ''schema_version'')) (\<lambda>_.
     bindR (ensure (score_gt0 (rub_total_score r)) (FieldError ''total_score'')) (\<lambda>_.
     bindR (ensure (score_gt0 (rub_score_step r)) (FieldError ''score_step'')) (\<lambda>_.
     bindR (ensure (length_between 1 100 (rub_dimensions r)) (FieldError ''dimensions'')) (\<lambda>_.
     bindR (mapR validate_dimension (rub_dimensions r)) (\<lambda>dimensions.
     bindR (ensure (length_between 0 100 (rub_deductions r)) (FieldError ''deductions'')) (\<lambda>_.
     bindR (mapR validate_deduction (rub_deductions r)) (\<lambda>deductions.
     validate_unique_dimension_ids casefold
       (r\<lparr>rub_dimensions := dimensions, rub_deductions := deductions\<rparr>))))))))"


section \<open>Scores of a validated rubric\<close>

lemma score_gt0_units:
  "score_gt0 d \<Longrightarrow> dec_units d = Some x \<Longrightarrow> 0 < uval d \<and> uval d < 10 ^ 10"
  using decimal_field_units [of d x] dec_compare_units [of dec_zero 0 d]
  by (auto simp: score_gt0_def uval_Some)

lemma score_ge0_units:
  "score_ge0 d \<Longrightarrow> dec_units d = Some x \<Longrightarrow> 0 \<le> uval d \<and> uval d < 10 ^ 10"
  using decimal_field_units [of d x] dec_compare_units [of dec_zero 0 d]
  by (auto simp: score_ge0_def uval_Some)

lemma any_off_step_False:
  "any_off_step step ss = Some False \<longleftrightarrow>
     (\<forall>s \<in> set ss. \<exists>r. dec_rem s step = Some r \<and> dec_coef r = 0)"
  by (induction ss) (auto split: option.splits)

text \<open>
  The total equals a sum of at most 28 digits, so it is an integer number of units; the step
  divides it exactly, so the step and with it every score is one too.
\<close>

lemma score_gt0_at:
  assumes "score_gt0 d" "e \<le> dec_exp d"
  shows "0 < dec_at e d"
proof -
  have "0 < dec_at (min 0 (dec_exp d)) d"
    using assms(1) by (simp add: score_gt0_def dec_less_def Let_def dec_zero_def dec_at_def dec_int_def)
  then have "0 < dec_int d" by (simp add: dec_at_def zero_less_mult_iff)
  then show ?thesis by (simp add: dec_at_def)
qed

lemma total_units:
  assumes "score_gt0 t" "dec_eq (dec_sum ds) t"
  shows "\<exists>x. dec_units t = Some x"
proof -
  obtain X where X: "dec_units (dec_fix t) = Some X"
    using assms(1) decimal_fieldD by (auto simp: score_gt0_def)
  let ?e = "dec_floor (dec_sum ds) t"
  have "dec_at ?e (dec_sum ds) = dec_at ?e t"
    using assms(2) dec_at_min_floor [of "dec_sum ds" t] by (simp add: dec_eq_def Let_def)
  then have "dec_at ?e (dec_fix t) = dec_at ?e t"
    by (intro dec_fix_exact [OF dec_sum_digits]) (simp_all add: dec_floor_le)
  moreover have "?e \<le> dec_exp (dec_fix t)"
    using dec_fix_error_at_exp [of t] dec_floor_le(3) [of "dec_sum ds" t] by linarith
  ultimately have "dec_units t = Some X"
    using X dec_units_iff [of ?e] dec_floor_le [of "dec_sum ds" t] by metis
  then show ?thesis by blast
qed

lemma step_units:
  assumes "score_gt0 t" "dec_units t = Some T" "score_gt0 st" "dec_rem t st = Some r" "dec_coef r = 0"
  shows "dec_units st = Some (uval st) \<and> 0 < uval st \<and> uval st < 10 ^ 10 \<and> uval st dvd T"
proof -
  obtain X where X: "dec_units (dec_fix st) = Some X"
    using assms(3) decimal_fieldD by (auto simp: score_gt0_def)
  let ?e = "dec_floor t st"
  have "0 < T" "T < 10 ^ 10" using score_gt0_units [OF assms(1,2)] assms(2) by (simp_all add: uval_Some)
  then have "dec_units st = Some X \<and> X dvd T"
    by (intro dec_divisor_units [OF assms(2) _ _ X, where e = ?e] score_gt0_at
        dec_rem_dvd [OF assms(4,5)] assms(3))
      (simp_all add: dec_floor_le)
  then show ?thesis using score_gt0_units [OF assms(3)] by (auto simp: uval_Some)
qed

text \<open>What validation establishes, over integers.\<close>

definition score_at :: "int \<Rightarrow> decimal \<Rightarrow> bool" where
  "score_at st d \<longleftrightarrow> dec_units d = Some (uval d) \<and> 0 \<le> uval d \<and> uval d < 10 ^ 10 \<and> st dvd uval d"

definition rubric_spec :: "structured_rubric \<Rightarrow> bool" where
  "rubric_spec r \<longleftrightarrow>
     dec_units (rub_score_step r) = Some (uval (rub_score_step r)) \<and> 0 < uval (rub_score_step r) \<and>
     uval (rub_score_step r) \<le> uval (rub_total_score r) \<and>
     score_at (uval (rub_score_step r)) (rub_total_score r) \<and>
     uval (rub_total_score r) = sum_list (map (uval \<circ> dim_max_score) (rub_dimensions r)) \<and>
     1 \<le> length (rub_dimensions r) \<and> length (rub_dimensions r) \<le> 100 \<and>
     length (rub_deductions r) \<le> 100 \<and>
     distinct (map dim_id (rub_dimensions r)) \<and> distinct (map ded_id (rub_deductions r)) \<and>
     (\<forall>d \<in> set (rub_dimensions r). score_at (uval (rub_score_step r)) (dim_max_score d) \<and>
        0 < uval (dim_max_score d) \<and>
        (\<forall>b \<in> set (dim_bands d). score_at (uval (rub_score_step r)) (band_min_score b) \<and>
           score_at (uval (rub_score_step r)) (band_max_score b)) \<and>
        check_bands (rub_score_step r) (dim_max_score d) None (dim_bands d) = Inr ()) \<and>
     (\<forall>d \<in> set (rub_deductions r). score_at (uval (rub_score_step r)) (ded_points d) \<and>
        0 < uval (ded_points d) \<and> uval (ded_points d) \<le> uval (rub_total_score r))"

lemma validate_band_scores:
  "validate_band b = Inr b' \<Longrightarrow> score_ge0 (band_min_score b') \<and> score_ge0 (band_max_score b')"
  by (auto simp: validate_band_def)

lemma validate_dimension_scores:
  assumes "validate_dimension d = Inr d'"
  shows "score_gt0 (dim_max_score d') \<and>
    (\<forall>b \<in> set (dim_bands d'). score_ge0 (band_min_score b) \<and> score_ge0 (band_max_score b))"
proof -
  from assms have "score_gt0 (dim_max_score d')" and "mapR validate_band (dim_bands d) = Inr (dim_bands d')"
    by (auto simp: validate_dimension_def)
  then show ?thesis
    using validate_band_scores by (fastforce simp: mapR_Inr_iff list_all2_conv_all_nth in_set_conv_nth)
qed

lemma validate_deduction_scores:
  "validate_deduction d = Inr d' \<Longrightarrow> score_gt0 (ded_points d')"
  by (auto simp: validate_deduction_def)

lemma mapR_set: "mapR f xs = Inr ys \<Longrightarrow> y \<in> set ys \<Longrightarrow> \<exists>x \<in> set xs. f x = Inr y"
  by (fastforce simp: mapR_Inr_iff list_all2_conv_all_nth in_set_conv_nth)

lemma mapR_length: "mapR f xs = Inr ys \<Longrightarrow> length ys = length xs"
  by (auto simp: mapR_Inr_iff list_all2_lengthD)

lemma mapR_all: "mapR f xs = Inr ys \<Longrightarrow> x \<in> set xs \<Longrightarrow> \<exists>y. f x = Inr y"
  by (fastforce simp: mapR_Inr_iff list_all2_conv_all_nth in_set_conv_nth)

lemma sum_abs_le:
  fixes xs :: "int list"
  assumes "\<forall>x \<in> set xs. \<bar>x\<bar> \<le> B"
  shows "sum_list (map abs xs) \<le> int (length xs) * B"
  using assms by (induction xs) (auto simp: distrib_right)

lemma sum_list_le_bound:
  fixes xs :: "int list"
  assumes "\<forall>x \<in> set xs. x \<le> B" "length xs \<le> n" "0 \<le> B"
  shows "sum_list xs \<le> int n * B"
proof -
  have "sum_list xs \<le> int (length xs) * B"
    using assms(1) by (induction xs) (auto simp: distrib_right)
  also have "\<dots> \<le> int n * B" using assms(2,3) by (intro mult_right_mono) auto
  finally show ?thesis .
qed

lemma sum_list_units:
  assumes "\<And>d. d \<in> set ds \<Longrightarrow> dec_units (f d) = Some (uval (f d)) \<and> 0 \<le> uval (f d) \<and> uval (f d) < 10 ^ 10"
    and "length ds \<le> 100"
  shows "dec_units (dec_sum (map f ds)) = Some (sum_list (map (uval \<circ> f) ds))"
proof (rule dec_sum_units)
  show "list_all2 (\<lambda>d x. dec_units d = Some x) (map f ds) (map (uval \<circ> f) ds)"
    using assms(1) by (simp add: list_all2_conv_all_nth)
  have "sum_list (map abs (map (uval \<circ> f) ds)) \<le> int (length (map (uval \<circ> f) ds)) * 10 ^ 10"
    by (rule sum_abs_le) (use assms(1) in fastforce)
  also have "\<dots> < 10 ^ 28" using assms(2) by simp
  finally show "sum_list (map abs (map (uval \<circ> f) ds)) < 10 ^ 28" .
qed

lemma validated_parts:
  assumes "validate_rubric cf r = Inr v"
  obtains dims deds where
    "mapR validate_dimension (rub_dimensions r) = Inr (rub_dimensions v)"
    "mapR validate_deduction (rub_deductions r) = Inr (rub_deductions v)"
    "validate_unique_dimension_ids cf v = Inr v"
    "score_gt0 (rub_total_score v)" "score_gt0 (rub_score_step v)"
    "length_between 1 100 (rub_dimensions v)" "length_between 0 100 (rub_deductions v)"
proof -
  from assms obtain dims deds where
    p: "mapR validate_dimension (rub_dimensions r) = Inr dims"
       "mapR validate_deduction (rub_deductions r) = Inr deds"
       "validate_unique_dimension_ids cf (r\<lparr>rub_dimensions := dims, rub_deductions := deds\<rparr>) = Inr v"
       "score_gt0 (rub_total_score r)" "score_gt0 (rub_score_step r)"
       "length_between 1 100 (rub_dimensions r)" "length_between 0 100 (rub_deductions r)"
    by (auto simp: validate_rubric_def)
  then have v: "v = r\<lparr>rub_dimensions := dims, rub_deductions := deds\<rparr>"
    by (auto simp: validate_unique_dimension_ids_def)
  show ?thesis
    by (rule that) (use p v in \<open>auto simp: length_between_def dest: mapR_length\<close>)
qed

lemma validated_rubric_spec:
  assumes "validate_rubric cf r = Inr v"
  shows "rubric_spec v"
proof -
  let ?st = "uval (rub_score_step v)"
  from assms obtain
    dm: "mapR validate_dimension (rub_dimensions r) = Inr (rub_dimensions v)"
    and dd: "mapR validate_deduction (rub_deductions r) = Inr (rub_deductions v)"
    and root: "validate_unique_dimension_ids cf v = Inr v"
    and pos: "score_gt0 (rub_total_score v)" "score_gt0 (rub_score_step v)"
    and len: "length_between 1 100 (rub_dimensions v)" "length_between 0 100 (rub_deductions v)"
    by (rule validated_parts) blast
  have dims: "score_gt0 (dim_max_score d) \<and>
      (\<forall>b \<in> set (dim_bands d). score_ge0 (band_min_score b) \<and> score_ge0 (band_max_score b))"
    if "d \<in> set (rub_dimensions v)" for d
    using mapR_set [OF dm that] validate_dimension_scores by blast
  have deds: "score_gt0 (ded_points d)" if "d \<in> set (rub_deductions v)" for d
    using mapR_set [OF dd that] validate_deduction_scores by blast
  from root have r:
    "distinct (map dim_id (rub_dimensions v))" "distinct (map ded_id (rub_deductions v))"
    "dec_eq (dec_sum (map dim_max_score (rub_dimensions v))) (rub_total_score v)"
    "\<not> dec_less (rub_total_score v) (rub_score_step v)"
    "any_off_step (rub_score_step v) (rubric_scores v) = Some False"
    "\<forall>d \<in> set (rub_deductions v). \<not> dec_less (rub_total_score v) (ded_points d)"
    "\<exists>x. mapR (\<lambda>d. check_bands (rub_score_step v) (dim_max_score d) None (dim_bands d))
        (rub_dimensions v) = Inr x"
    by (auto simp: validate_unique_dimension_ids_def split: if_splits option.splits bool.splits)
  note rems = r(5) [unfolded any_off_step_False]
  obtain T0 where T0: "dec_units (rub_total_score v) = Some T0" using total_units [OF pos(1) r(3)] by blast
  have T: "dec_units (rub_total_score v) = Some (uval (rub_total_score v)) \<and>
      0 < uval (rub_total_score v) \<and> uval (rub_total_score v) < 10 ^ 10"
    using score_gt0_units [OF pos(1) T0] T0 by (simp add: uval_Some)
  have st: "dec_units (rub_score_step v) = Some ?st \<and> 0 < ?st \<and> ?st < 10 ^ 10"
  proof -
    obtain q where "dec_rem (rub_total_score v) (rub_score_step v) = Some q" "dec_coef q = 0"
      using rems by (auto simp: rubric_scores_def)
    then show ?thesis using step_units [OF pos(1) T0 pos(2)] by blast
  qed
  have mult: "\<forall>s \<in> set (rubric_scores v). dec_units s = Some (uval s) \<and> ?st dvd uval s"
  proof
    fix s assume "s \<in> set (rubric_scores v)"
    then obtain q where "dec_rem s (rub_score_step v) = Some q" "dec_coef q = 0" using rems by blast
    then obtain x where "dec_units s = Some x" "?st dvd x" using dec_multiple_units st by blast
    then show "dec_units s = Some (uval s) \<and> ?st dvd uval s" by (simp add: uval_Some)
  qed
  have dim_units: "dec_units (dim_max_score d) = Some (uval (dim_max_score d))"
    "0 < uval (dim_max_score d)" "uval (dim_max_score d) < 10 ^ 10"
    if "d \<in> set (rub_dimensions v)" for d
    using mult that score_gt0_units dims [OF that] by (fastforce simp: rubric_scores_def)+
  have sum: "dec_units (dec_sum (map dim_max_score (rub_dimensions v)))
      = Some (sum_list (map (uval \<circ> dim_max_score) (rub_dimensions v)))"
    using dim_units len by (intro sum_list_units) (fastforce simp: length_between_def)+
  have T_at: "score_at ?st (rub_total_score v)"
    using T mult by (auto simp: score_at_def rubric_scores_def)
  have dims_at: "score_at ?st (dim_max_score d)" "0 < uval (dim_max_score d)"
    "\<And>b. b \<in> set (dim_bands d) \<Longrightarrow> score_at ?st (band_min_score b) \<and> score_at ?st (band_max_score b)"
    "check_bands (rub_score_step v) (dim_max_score d) None (dim_bands d) = Inr ()"
    if d: "d \<in> set (rub_dimensions v)" for d
  proof -
    show "score_at ?st (dim_max_score d)" "0 < uval (dim_max_score d)"
      using dims [OF d] score_gt0_units [of "dim_max_score d"] mult d
      by (auto simp: score_at_def rubric_scores_def)
    show "score_at ?st (band_min_score b) \<and> score_at ?st (band_max_score b)"
      if b: "b \<in> set (dim_bands d)" for b
    proof -
      have "band_min_score b \<in> set (rubric_scores v)" "band_max_score b \<in> set (rubric_scores v)"
        using b d by (fastforce simp: rubric_scores_def)+
      then show ?thesis
        using dims [OF d] b mult score_ge0_units by (auto simp: score_at_def)
    qed
    show "check_bands (rub_score_step v) (dim_max_score d) None (dim_bands d) = Inr ()"
      using r(7) mapR_all d by fastforce
  qed
  have deds_at: "score_at ?st (ded_points d) \<and> 0 < uval (ded_points d) \<and>
      uval (ded_points d) \<le> uval (rub_total_score v)" if d: "d \<in> set (rub_deductions v)" for d
    using deds [OF d] score_gt0_units [of "ded_points d"] mult d r(6) T
      dec_compare_units(1) [of "rub_total_score v" "uval (rub_total_score v)" "ded_points d"]
    by (auto simp: score_at_def rubric_scores_def)
  show ?thesis
    unfolding rubric_spec_def
    using r(1,2) st T T_at dims_at deds_at len sum
      dec_compare_units(3) [OF sum, of "rub_total_score v" "uval (rub_total_score v)"] r(3,4)
      dec_compare_units(1) [of "rub_total_score v" "uval (rub_total_score v)" "rub_score_step v"]
    by (simp add: length_between_def)
qed


section \<open>Validation is idempotent\<close>

lemma text_field_idem: "text_field f n v = Inr s \<Longrightarrow> text_field f n s = Inr s"
  by (auto simp: text_field_def validate_text_def Let_def split: if_splits)

lemma validate_band_idem:
  assumes "validate_band b = Inr c"
  shows "validate_band c = Inr c"
proof -
  from assms obtain l d where "text_field ''label'' 120 (band_label b) = Inr l"
    "text_field ''description'' 4000 (band_description b) = Inr d"
    "score_ge0 (band_min_score b)" "score_ge0 (band_max_score b)"
    "c = b\<lparr>band_label := l, band_description := d\<rparr>"
    by (auto simp: validate_band_def)
  then show ?thesis by (simp add: validate_band_def text_field_idem)
qed

lemma mapR_idem:
  assumes "\<And>x y. f x = Inr y \<Longrightarrow> f y = Inr y" "mapR f xs = Inr ys"
  shows "mapR f ys = Inr ys"
  using assms(2) by (induction xs arbitrary: ys) (auto dest: assms(1))

lemma validate_evidence_idem:
  "validate_evidence_requirements vs = Inr ws \<Longrightarrow> validate_evidence_requirements ws = Inr ws"
  by (auto simp: validate_evidence_requirements_def Let_def comp_def split: if_splits)

lemma validate_evidence_length: "validate_evidence_requirements vs = Inr ws \<Longrightarrow> length ws = length vs"
  by (auto simp: validate_evidence_requirements_def Let_def split: if_splits)

lemma validate_dimension_idem:
  assumes "validate_dimension d = Inr e"
  shows "validate_dimension e = Inr e"
proof -
  from assms obtain n t bs es where p: "is_identifier (dim_id d)"
    "text_field ''name'' 160 (dim_name d) = Inr n"
    "text_field ''description'' 4000 (dim_description d) = Inr t"
    "score_gt0 (dim_max_score d)" "length_between 1 50 (dim_bands d)"
    "mapR validate_band (dim_bands d) = Inr bs"
    "length_between 1 50 (dim_evidence_requirements d)"
    "validate_evidence_requirements (dim_evidence_requirements d) = Inr es"
    "e = d\<lparr>dim_name := n, dim_description := t, dim_bands := bs, dim_evidence_requirements := es\<rparr>"
    by (auto simp: validate_dimension_def)
  moreover have "mapR validate_band bs = Inr bs" by (rule mapR_idem [OF validate_band_idem p(6)])
  ultimately show ?thesis
    using mapR_length [OF p(6)] validate_evidence_length [OF p(8)]
    by (simp add: validate_dimension_def text_field_idem validate_evidence_idem length_between_def)
qed

lemma validate_deduction_idem:
  assumes "validate_deduction d = Inr e"
  shows "validate_deduction e = Inr e"
proof -
  from assms obtain n t where "is_identifier (ded_id d)" "text_field ''name'' 160 (ded_name d) = Inr n"
    "text_field ''description'' 4000 (ded_description d) = Inr t" "score_gt0 (ded_points d)"
    "e = d\<lparr>ded_name := n, ded_description := t\<rparr>"
    by (auto simp: validate_deduction_def)
  then show ?thesis by (simp add: validate_deduction_def text_field_idem)
qed

section \<open>The bands partition the score range\<close>

text \<open>
  The state of the loop over the bands: every permitted score from the next expected minimum
  up to the dimension's maximum lies in exactly one of the bands still to come.
\<close>

definition next_min :: "int \<Rightarrow> decimal option \<Rightarrow> int" where
  "next_min st prev = (case prev of None \<Rightarrow> 0 | Some p \<Rightarrow> uval p + st)"

definition band_holds :: "int \<Rightarrow> rubric_band \<Rightarrow> bool" where
  "band_holds x b \<longleftrightarrow> uval (band_min_score b) \<le> x \<and> x \<le> uval (band_max_score b)"

lemma score_atD:
  "score_at st d \<Longrightarrow> dec_units d = Some (uval d)" "score_at st d \<Longrightarrow> 0 \<le> uval d"
  "score_at st d \<Longrightarrow> uval d < 10 ^ 10" "score_at st d \<Longrightarrow> st dvd uval d"
  by (simp_all add: score_at_def)

lemma next_dvd_le:
  fixes st x y :: int
  assumes "st dvd x" "st dvd y" "y < x"
  shows "y + st \<le> x"
  using zdvd_imp_le [OF dvd_diff [OF assms(1,2)]] assms(3) by simp

lemma check_bands_step:
  assumes "check_bands step m prev (b # bs) = Inr ()"
    and "dec_units step = Some st" "0 < st" "st < 10 ^ 10" "score_at st m"
    and "score_at st (band_min_score b)" "score_at st (band_max_score b)"
    and "\<And>p. prev = Some p \<Longrightarrow> score_at st p"
  shows "uval (band_min_score b) = next_min st prev"
    "uval (band_min_score b) \<le> uval (band_max_score b)"
    "check_bands step m (Some (band_max_score b)) bs = Inr ()"
proof -
  let ?exp = "case prev of None \<Rightarrow> dec_zero | Some p \<Rightarrow> dec_add p step"
  have e: "dec_units ?exp = Some (next_min st prev)"
  proof (cases prev)
    case None
    then show ?thesis by (simp add: next_min_def)
  next
    case (Some p)
    note p = score_atD [OF assms(8) [OF Some]]
    have "\<bar>uval p + st\<bar> < 10 ^ 28" using p(2,3) assms(3,4) by simp
    then show ?thesis
      using dec_units_add [OF p(1) assms(2)] Some by (simp add: next_min_def)
  qed
  from assms(1) have c: "dec_eq (band_min_score b) ?exp"
    "\<not> dec_less (band_max_score b) (band_min_score b)"
    and rest: "check_bands step m (Some (band_max_score b)) bs = Inr ()"
    by (simp_all add: Let_def split: if_splits)
  show "uval (band_min_score b) = next_min st prev"
    using c(1) dec_compare_units(3) [OF score_atD(1) [OF assms(6)] e] by simp
  show "uval (band_min_score b) \<le> uval (band_max_score b)"
    using c(2) dec_compare_units(1) [OF score_atD(1) [OF assms(7)] score_atD(1) [OF assms(6)]]
    by simp
  show "check_bands step m (Some (band_max_score b)) bs = Inr ()" by (rule rest)
qed

lemma check_bands_partition:
  assumes "check_bands step m prev bs = Inr ()"
    and "dec_units step = Some st" "0 < st" "st < 10 ^ 10" "score_at st m"
    and "\<forall>b \<in> set bs. score_at st (band_min_score b) \<and> score_at st (band_max_score b)"
    and "\<And>p. prev = Some p \<Longrightarrow> score_at st p"
  shows "(\<forall>b \<in> set bs. next_min st prev \<le> uval (band_min_score b)) \<and>
    (\<forall>x. st dvd x \<longrightarrow> next_min st prev \<le> x \<longrightarrow> x \<le> uval m \<longrightarrow> count_where (band_holds x) bs = 1)"
  using assms
proof (induction bs arbitrary: prev)
  case Nil
  then obtain p where p: "prev = Some p" "dec_eq p m" by (cases prev) auto
  have "uval p = uval m"
    using p dec_compare_units(3) [OF score_atD(1) [OF Nil.prems(7)] score_atD(1) [OF Nil.prems(5)]]
    by simp
  with p Nil.prems(3) show ?case by (simp add: next_min_def)
next
  case (Cons b bs)
  have bs: "score_at st (band_min_score b)" "score_at st (band_max_score b)"
    using Cons.prems(6) by auto
  note s = check_bands_step [OF Cons.prems(1-5) bs Cons.prems(7)]
  let ?hi = "uval (band_max_score b)"
  have "(\<forall>c \<in> set bs. next_min st (Some (band_max_score b)) \<le> uval (band_min_score c)) \<and>
    (\<forall>x. st dvd x \<longrightarrow> next_min st (Some (band_max_score b)) \<le> x \<longrightarrow> x \<le> uval m \<longrightarrow>
      count_where (band_holds x) bs = 1)"
    by (rule Cons.IH) (use Cons.prems s(3) bs in auto)
  then have later: "\<And>c. c \<in> set bs \<Longrightarrow> ?hi + st \<le> uval (band_min_score c)"
    and one: "\<And>x. st dvd x \<Longrightarrow> ?hi + st \<le> x \<Longrightarrow> x \<le> uval m \<Longrightarrow> count_where (band_holds x) bs = 1"
    by (simp_all add: next_min_def)
  have "count_where (band_holds x) (b # bs) = 1"
    if x: "st dvd x" "next_min st prev \<le> x" "x \<le> uval m" for x
  proof (cases "x \<le> ?hi")
    case True
    then have "band_holds x b" using s(1) x(2) by (simp add: band_holds_def)
    moreover have "count_where (band_holds x) bs = 0"
      unfolding count_where_0 band_holds_def using True later Cons.prems(3) by fastforce
    ultimately show ?thesis by simp
  next
    case False
    then have "\<not> band_holds x b" by (simp add: band_holds_def)
    moreover have "?hi + st \<le> x"
      using next_dvd_le [OF x(1) score_atD(4) [OF bs(2)]] False by simp
    ultimately show ?thesis using one x by simp
  qed
  moreover have "next_min st prev \<le> uval (band_min_score c)" if "c \<in> set (b # bs)" for c
    using that s(1,2) later [of c] Cons.prems(3) by auto
  ultimately show ?case by blast
qed

text \<open>
  C1. A rubric that validation accepts gives every dimension a partition of its score range:
  each score that a grader may award (a multiple of the step between 0 and the dimension's
  maximum) falls into exactly one band.
\<close>

theorem rubric_bands_partition:
  assumes "validate_rubric cf r = Inr v"
    and "d \<in> set (rub_dimensions v)"
    and "dec_units s = Some x" "uval (rub_score_step v) dvd x" "0 \<le> x" "x \<le> uval (dim_max_score d)"
  shows "count_where (\<lambda>b. dec_le (band_min_score b) s \<and> dec_le s (band_max_score b)) (dim_bands d) = 1"
proof -
  from validated_rubric_spec [OF assms(1)] assms(2)
  have st: "dec_units (rub_score_step v) = Some (uval (rub_score_step v))" "0 < uval (rub_score_step v)"
      "uval (rub_score_step v) < 10 ^ 10"
    and d: "score_at (uval (rub_score_step v)) (dim_max_score d)"
      "\<forall>b \<in> set (dim_bands d). score_at (uval (rub_score_step v)) (band_min_score b) \<and>
         score_at (uval (rub_score_step v)) (band_max_score b)"
      "check_bands (rub_score_step v) (dim_max_score d) None (dim_bands d) = Inr ()"
    by (auto simp: rubric_spec_def score_at_def)
  have "count_where (band_holds x) (dim_bands d) = 1"
    using check_bands_partition [OF d(3) st d(1,2)] assms(4-6) by (simp add: next_min_def)
  moreover have "filter (\<lambda>b. dec_le (band_min_score b) s \<and> dec_le s (band_max_score b)) (dim_bands d)
      = filter (band_holds x) (dim_bands d)"
    by (rule filter_cong) (use d(2) score_atD(1) assms(3) in
      \<open>auto simp: band_holds_def dec_compare_units\<close>)
  ultimately show ?thesis by (simp add: count_where_def)
qed

text \<open>A rubric of one dimension with two bands, 0--4 and 5--10, in steps of one.\<close>

definition example_band :: "nat \<Rightarrow> nat \<Rightarrow> rubric_band" where
  "example_band lo hi = \<lparr>band_label = [65], band_min_score = dec_of_int (int lo),
     band_max_score = dec_of_int (int hi), band_description = [66]\<rparr>"

definition example_dimension :: rubric_dimension where
  "example_dimension = \<lparr>dim_id = [97], dim_name = [67], dim_description = [68],
     dim_max_score = dec_of_int 10, dim_bands = [example_band 0 4, example_band 5 10],
     dim_evidence_requirements = [[69]]\<rparr>"

definition example_rubric :: structured_rubric where
  "example_rubric = \<lparr>rub_schema_version = 1, rub_total_score = dec_of_int 10,
     rub_score_step = dec_of_int 1, rub_dimensions = [example_dimension],
     rub_deductions = [\<lparr>ded_id = [98], ded_name = [70], ded_description = [71],
       ded_points = dec_of_int 2\<rparr>]\<rparr>"


lemma example_rubric_valid: "validate_rubric id example_rubric = Inr example_rubric"
  by code_simp

theorem rubric_bands_partition_witness:
  "count_where (\<lambda>b. dec_le (band_min_score b) (dec_of_int 7) \<and> dec_le (dec_of_int 7) (band_max_score b))
     (dim_bands example_dimension) = 1"
proof -
  have "example_dimension \<in> set (rub_dimensions example_rubric)"
    by (simp add: example_rubric_def)
  moreover have "dec_units (dec_of_int 7) = Some 70000" by code_simp
  moreover have "uval (rub_score_step example_rubric) dvd 70000" by code_simp
  moreover have "70000 \<le> uval (dim_max_score example_dimension)" by code_simp
  ultimately show ?thesis
    using rubric_bands_partition [OF example_rubric_valid] by simp
qed

text \<open>
  Validation is idempotent: the validated rubric, which is what the system stores and hashes,
  validates to itself. Its texts are already stripped and collapsed, and every check passes again.
\<close>

theorem validate_rubric_idempotent:
  assumes "validate_rubric cf r = Inr v"
  shows "validate_rubric cf v = Inr v"
proof -
  from assms have "rub_schema_version v = 1"
    by (auto simp: validate_rubric_def validate_unique_dimension_ids_def)
  moreover from assms obtain
    "mapR validate_dimension (rub_dimensions r) = Inr (rub_dimensions v)"
    "mapR validate_deduction (rub_deductions r) = Inr (rub_deductions v)"
    "validate_unique_dimension_ids cf v = Inr v"
    "score_gt0 (rub_total_score v)" "score_gt0 (rub_score_step v)"
    "length_between 1 100 (rub_dimensions v)" "length_between 0 100 (rub_deductions v)"
    by (rule validated_parts) blast
  ultimately show ?thesis
    using mapR_idem [OF validate_dimension_idem] mapR_idem [OF validate_deduction_idem]
    by (simp add: validate_rubric_def)
qed
theorem validate_rubric_idempotent_witness:
  "validate_rubric id (example_rubric\<lparr>rub_dimensions := [example_dimension\<lparr>dim_name := [32, 67, 32]\<rparr>]\<rparr>)
     = Inr example_rubric \<and> validate_rubric id example_rubric = Inr example_rubric"
proof -
  have "validate_rubric id (example_rubric\<lparr>rub_dimensions := [example_dimension\<lparr>dim_name := [32, 67, 32]\<rparr>]\<rparr>)
     = Inr example_rubric"
    by code_simp
  then show ?thesis using validate_rubric_idempotent by blast
qed

end
