(* ===== verification/Domain_Grading.thy ===== *)
theory Domain_Grading
  imports Domain_Rubric
begin

text \<open>
  \<open>backend/app/domain/grading.py\<close> and the document contract of \<open>backend/app/parsing/models.py\<close>:
  the request that is graded, the structure a model may return, its strict decoder from parsed
  JSON, and the canonical text under which decimals are hashed. The Unicode character database
  (letters, Latin names, decimal digits) is the parameter record \<open>unicode_db\<close>.
\<close>

section \<open>JSON values and the character database\<close>

text \<open>
  The values of \<open>json.loads\<close>. A finite float is given by its shortest decimal; \<open>NaN\<close> and the
  infinities, which \<open>json.loads\<close> accepts, have a constructor of their own.
\<close>

datatype non_finite = NotANumber | PosInfinity | NegInfinity

datatype json =
    JNull
  | JBool bool
  | JInt int
  | JFloat decimal
  | JStr pystr
  | JNonFinite non_finite
  | JArr "json list"
  | JObj "(pystr \<times> json) list"

record unicode_db =
  uni_isalpha :: "nat \<Rightarrow> bool"
  uni_latin :: "nat \<Rightarrow> bool"
  uni_digit :: "nat \<Rightarrow> nat option"

text \<open>The ASCII part of the database, which every instance extends.\<close>

definition ascii_letter :: "nat \<Rightarrow> bool" where
  "ascii_letter c \<longleftrightarrow> is_lower c \<or> 65 \<le> c \<and> c \<le> 90"

definition ascii_db :: unicode_db where
  "ascii_db = \<lparr>uni_isalpha = ascii_letter, uni_latin = ascii_letter,
     uni_digit = (\<lambda>c. if is_digit c then Some (c - 48) else None)\<rparr>"

fun json_get :: "pystr \<Rightarrow> json \<Rightarrow> json option" where
  "json_get k (JObj kvs) = map_of kvs k"
| "json_get k _ = None"

fun json_str :: "json \<Rightarrow> pystr option" where
  "json_str (JStr s) = Some s"
| "json_str _ = None"

fun json_bool :: "json \<Rightarrow> bool option" where
  "json_bool (JBool b) = Some b"
| "json_bool _ = None"

fun json_arr :: "json \<Rightarrow> json list option" where
  "json_arr (JArr xs) = Some xs"
| "json_arr _ = None"

text \<open>\<open>extra="forbid"\<close>: an object, and no key outside the model's fields.\<close>

fun json_fields_within :: "pystr list \<Rightarrow> json \<Rightarrow> bool" where
  "json_fields_within ks (JObj kvs) = (\<forall>kv \<in> set kvs. fst kv \<in> set ks)"
| "json_fields_within ks _ = False"

definition guard_opt :: "bool \<Rightarrow> 'a \<Rightarrow> 'a option" where
  "guard_opt c x = (if c then Some x else None)"

lemma guard_opt_Some [simp]: "guard_opt c x = Some y \<longleftrightarrow> c \<and> y = x"
  by (auto simp: guard_opt_def)

fun map_opt :: "('a \<Rightarrow> 'b option) \<Rightarrow> 'a list \<Rightarrow> 'b list option" where
  "map_opt f [] = Some []"
| "map_opt f (x # xs) =
     (case f x of None \<Rightarrow> None
      | Some y \<Rightarrow> (case map_opt f xs of None \<Rightarrow> None | Some ys \<Rightarrow> Some (y # ys)))"

lemma map_opt_Some: "map_opt f xs = Some ys \<longleftrightarrow> list_all2 (\<lambda>x y. f x = Some y) xs ys"
proof (induction xs arbitrary: ys)
  case (Cons x xs)
  then show ?case by (cases "f x"; cases "map_opt f xs") (auto simp: list_all2_Cons1)
qed auto

lemma map_opt_mem: "map_opt f xs = Some ys \<Longrightarrow> y \<in> set ys \<Longrightarrow> \<exists>x \<in> set xs. f x = Some y"
  by (fastforce simp: map_opt_Some list_all2_conv_all_nth in_set_conv_nth)

section \<open>Decimal strings\<close>

text \<open>
  \<open>_require_decimal_string\<close> and \<open>Decimal(text)\<close>: white space stripped, underscores dropped,
  decimal digits of any script, an optional sign, point and exponent. NaN and infinity, which
  the field refuses, are \<open>None\<close> like every malformed text.
\<close>

definition ascii_digits :: "unicode_db \<Rightarrow> pystr \<Rightarrow> pystr" where
  "ascii_digits U s = map (\<lambda>c. case uni_digit U c of Some d \<Rightarrow> 48 + d | None \<Rightarrow> c) s"

definition digits_value :: "pystr \<Rightarrow> nat" where
  "digits_value ds = foldl (\<lambda>n c. 10 * n + (c - 48)) 0 ds"

fun take_sign :: "pystr \<Rightarrow> bool \<times> pystr" where
  "take_sign (c # s) = (if c = 45 then (True, s) else if c = 43 then (False, s) else (False, c # s))"
| "take_sign [] = (False, [])"

definition parse_exponent :: "pystr \<Rightarrow> int option" where
  "parse_exponent s = (case s of
      [] \<Rightarrow> Some 0
    | c # t \<Rightarrow> if c \<noteq> 69 \<and> c \<noteq> 101 then None
        else let (neg, ds) = take_sign t in
          if ds = [] \<or> (\<exists>d \<in> set ds. \<not> is_digit d) then None
          else Some (if neg then - int (digits_value ds) else int (digits_value ds)))"

definition parse_decimal :: "unicode_db \<Rightarrow> pystr \<Rightarrow> decimal option" where
  "parse_decimal U text =
     (let s = ascii_digits U (filter (\<lambda>c. c \<noteq> 95) (py_strip text));
          (neg, t) = take_sign s;
          whole = takeWhile is_digit t;
          rest = dropWhile is_digit t;
          (frac, tail) = (case rest of
              [] \<Rightarrow> ([], [])
            | c # r \<Rightarrow> if c = 46 then (takeWhile is_digit r, dropWhile is_digit r) else ([], c # r))
      in if whole = [] \<and> frac = [] then None
         else case parse_exponent tail of None \<Rightarrow> None
           | Some e \<Rightarrow> Some (Dec neg (digits_value (whole @ frac)) (e - int (length frac))))"

definition model_decimal :: "unicode_db \<Rightarrow> json \<Rightarrow> decimal option" where
  "model_decimal U j = (case json_str j of None \<Rightarrow> None
     | Some s \<Rightarrow> (case parse_decimal U s of None \<Rightarrow> None
        | Some d \<Rightarrow> guard_opt (decimal_field d) d))"

section \<open>Narrative text\<close>

text \<open>\<open>require_english_narrative\<close>: every letter is Latin and there is one.\<close>

definition require_english_narrative :: "unicode_db \<Rightarrow> pystr \<Rightarrow> bool" where
  "require_english_narrative U s \<longleftrightarrow>
     (\<forall>c \<in> set s. uni_isalpha U c \<longrightarrow> uni_latin U c) \<and> (\<exists>c \<in> set s. uni_isalpha U c)"

definition narrative_ok :: "unicode_db \<Rightarrow> nat \<Rightarrow> pystr \<Rightarrow> bool" where
  "narrative_ok U hi s \<longleftrightarrow>
     py_strip s \<noteq> [] \<and> require_english_narrative U s \<and> length_between 1 hi s"

section \<open>The document\<close>

text \<open>
  \<open>DocumentLocator\<close>: a paragraph, a table cell paragraph or a page block. A bounding box
  coordinate is a float that is only stored, kept here as the decimal of its shortest representation.
\<close>

datatype document_locator =
    DocxParagraph nat
  | DocxTableParagraph nat nat nat nat
  | PdfTextBlock nat nat "decimal \<times> decimal \<times> decimal \<times> decimal"

fun valid_locator :: "document_locator \<Rightarrow> bool" where
  "valid_locator (DocxParagraph p) = (1 \<le> p)"
| "valid_locator (DocxTableParagraph t r c p) = (1 \<le> t \<and> 1 \<le> r \<and> 1 \<le> c \<and> 1 \<le> p)"
| "valid_locator (PdfTextBlock p b box) = (1 \<le> p \<and> 1 \<le> b)"

record document_block =
  blk_id :: pystr
  blk_text :: pystr
  blk_locator :: document_locator

datatype media_type = MediaPdf | MediaDocx

record parsed_document =
  doc_media_type :: media_type
  doc_page_count :: "int option"
  doc_character_count :: int
  doc_blocks :: "document_block list"

text \<open>\<open>f"b{index:06d}"\<close> and the pattern \<open>^b[0-9]{6}$\<close>.\<close>

definition pad6 :: "pystr \<Rightarrow> pystr" where
  "pad6 ds = replicate (6 - length ds) 48 @ ds"

definition block_name :: "nat \<Rightarrow> pystr" where
  "block_name i = 98 # pad6 (show_nat i)"

definition is_block_id :: "pystr \<Rightarrow> bool" where
  "is_block_id s \<longleftrightarrow> length s = 7 \<and> hd s = 98 \<and> (\<forall>c \<in> set (tl s). is_digit c)"

definition validate_block :: "document_block \<Rightarrow> bool" where
  "validate_block b \<longleftrightarrow> is_block_id (blk_id b) \<and> length_between 1 500000 (blk_text b) \<and>
     valid_locator (blk_locator b)"

text \<open>The constructor of \<open>ParsedDocument\<close> with its root validator \<open>validate_block_ids\<close>.\<close>

definition validate_block_ids :: "parsed_document \<Rightarrow> bool" where
  "validate_block_ids d \<longleftrightarrow>
     map blk_id (doc_blocks d) = map block_name [1..<length (doc_blocks d) + 1] \<and>
     doc_character_count d = int (sum_list (map (length \<circ> blk_text) (doc_blocks d))) \<and>
     (if doc_media_type d = MediaPdf
      then (case doc_page_count d of None \<Rightarrow> False | Some n \<Rightarrow> 1 \<le> n \<and> n \<le> 200)
      else doc_page_count d = None)"

definition validate_document :: "parsed_document \<Rightarrow> bool" where
  "validate_document d \<longleftrightarrow>
     0 < doc_character_count d \<and> doc_character_count d \<le> 500000 \<and>
     length_between 1 50000 (doc_blocks d) \<and> list_all validate_block (doc_blocks d) \<and>
     validate_block_ids d"

section \<open>The grading request\<close>

text \<open>Identifiers are UUIDs; only their equality matters.\<close>

type_synonym uuid = nat

record grade_request =
  greq_assignment_id :: uuid
  greq_assignment_title :: pystr
  greq_assignment_instructions :: pystr
  greq_rubric_version_id :: uuid
  greq_rubric_version :: int
  greq_rubric :: structured_rubric
  greq_submission_id :: uuid
  greq_document :: parsed_document

text \<open>
  The constructor: title and instructions are stripped first; the nested rubric and document are
  already validated values of their classes.
\<close>

definition make_grade_request :: "grade_request \<Rightarrow> grade_request option" where
  "make_grade_request g =
     (let title = py_strip (greq_assignment_title g);
          instructions = py_strip (greq_assignment_instructions g)
      in guard_opt (length_between 1 300 title \<and> length_between 1 100000 instructions \<and>
                    0 < greq_rubric_version g)
           (g\<lparr>greq_assignment_title := title, greq_assignment_instructions := instructions\<rparr>))"

section \<open>The structure a model returns\<close>

record evidence_quote =
  ev_block_id :: pystr
  ev_quote :: pystr

record dimension_result =
  dr_dimension_id :: pystr
  dr_score :: decimal
  dr_reason :: pystr
  dr_evidence :: "evidence_quote list"
  dr_revision_suggestions :: "pystr list"

record deduction_result =
  xr_deduction_id :: pystr
  xr_applied :: bool
  xr_reason :: pystr
  xr_evidence :: "evidence_quote list"

record grade_result =
  gr_dimensions :: "dimension_result list"
  gr_deductions :: "deduction_result list"
  gr_overall_feedback :: pystr

record validated_grade_result = grade_result +
  vr_subtotal :: decimal
  vr_deduction_total :: decimal
  vr_total_score :: decimal

section \<open>Decoding the model's JSON: \<open>GradeResult.model_validate\<close>\<close>

definition json_field :: "string \<Rightarrow> (json \<Rightarrow> 'a option) \<Rightarrow> json \<Rightarrow> 'a option" where
  "json_field k dec j = Option.bind (json_get (ustr k) j) dec"

definition json_list :: "nat \<Rightarrow> nat \<Rightarrow> (json \<Rightarrow> 'a option) \<Rightarrow> json \<Rightarrow> 'a list option" where
  "json_list lo hi dec j = Option.bind (json_arr j) (\<lambda>xs.
     if length_between lo hi xs then map_opt dec xs else None)"

definition json_text :: "(pystr \<Rightarrow> bool) \<Rightarrow> json \<Rightarrow> pystr option" where
  "json_text ok j = Option.bind (json_str j) (\<lambda>s. guard_opt (encodable s \<and> ok s) s)"

definition decode_evidence :: "json \<Rightarrow> evidence_quote option" where
  "decode_evidence j =
     (if \<not> json_fields_within [ustr ''block_id'', ustr ''quote''] j then None
      else Option.bind (json_field ''block_id'' (json_text is_block_id) j) (\<lambda>block_id.
           Option.bind (json_field ''quote''
             (json_text (\<lambda>s. length_between 1 20000 s \<and> py_strip s \<noteq> [])) j) (\<lambda>quote.
           Some \<lparr>ev_block_id = block_id, ev_quote = quote\<rparr>)))"

definition decode_dimension :: "unicode_db \<Rightarrow> json \<Rightarrow> dimension_result option" where
  "decode_dimension U j =
     (if \<not> json_fields_within [ustr ''dimension_id'', ustr ''score'', ustr ''reason'',
           ustr ''evidence'', ustr ''revision_suggestions''] j then None
      else Option.bind (json_field ''dimension_id'' (json_text is_identifier) j) (\<lambda>i.
           Option.bind (json_field ''score'' (model_decimal U) j) (\<lambda>score.
           Option.bind (json_field ''reason'' (json_text (narrative_ok U 10000)) j) (\<lambda>reason.
           Option.bind (json_field ''evidence'' (json_list 1 100 decode_evidence) j) (\<lambda>evidence.
           Option.bind (json_field ''revision_suggestions''
             (json_list 1 50 (json_text (narrative_ok U 4000))) j) (\<lambda>suggestions.
           Some \<lparr>dr_dimension_id = i, dr_score = score, dr_reason = reason, dr_evidence = evidence,
                 dr_revision_suggestions = suggestions\<rparr>))))))"

definition decode_deduction :: "unicode_db \<Rightarrow> json \<Rightarrow> deduction_result option" where
  "decode_deduction U j =
     (if \<not> json_fields_within [ustr ''deduction_id'', ustr ''applied'', ustr ''reason'',
           ustr ''evidence''] j then None
      else Option.bind (json_field ''deduction_id'' (json_text is_identifier) j) (\<lambda>i.
           Option.bind (json_field ''applied'' json_bool j) (\<lambda>applied.
           Option.bind (json_field ''reason'' (json_text (narrative_ok U 10000)) j) (\<lambda>reason.
           Option.bind (case json_get (ustr ''evidence'') j of
               None \<Rightarrow> Some []
             | Some e \<Rightarrow> json_list 0 100 decode_evidence e) (\<lambda>evidence.
           Some \<lparr>xr_deduction_id = i, xr_applied = applied, xr_reason = reason,
                 xr_evidence = evidence\<rparr>)))))"

definition decode_grade_result :: "unicode_db \<Rightarrow> json \<Rightarrow> grade_result option" where
  "decode_grade_result U j =
     (if \<not> json_fields_within [ustr ''schema_version'', ustr ''dimensions'', ustr ''deductions'',
           ustr ''overall_feedback''] j then None
      else Option.bind (json_field ''schema_version''
             (json_text (\<lambda>s. s = ustr ''grade-result.v1'')) j) (\<lambda>_.
           Option.bind (json_field ''dimensions'' (json_list 1 100 (decode_dimension U)) j) (\<lambda>dims.
           Option.bind (json_field ''deductions'' (json_list 0 100 (decode_deduction U)) j) (\<lambda>deds.
           Option.bind (json_field ''overall_feedback'' (json_text (narrative_ok U 20000)) j) (\<lambda>fb.
           Some \<lparr>gr_dimensions = dims, gr_deductions = deds, gr_overall_feedback = fb\<rparr>)))))"

text \<open>What a decoded result always satisfies.\<close>

lemma json_list_Some:
  "json_list lo hi dec j = Some ys \<Longrightarrow>
     lo \<le> length ys \<and> length ys \<le> hi \<and> (\<forall>y \<in> set ys. \<exists>x. dec x = Some y)"
  by (auto simp: json_list_def length_between_def bind_eq_Some_conv map_opt_Some list_all2_lengthD
      dest: map_opt_mem split: if_splits)
    (metis map_opt_Some map_opt_mem)

lemma model_decimal_field: "model_decimal U j = Some d \<Longrightarrow> decimal_field d"
  by (auto simp: model_decimal_def split: option.splits)

lemma decode_score: "decode_dimension U j = Some d \<Longrightarrow> decimal_field (dr_score d)"
  by (auto simp: decode_dimension_def json_field_def bind_eq_Some_conv
      dest: model_decimal_field split: if_splits)

lemma decoded_result:
  assumes "decode_grade_result U j = Some r"
  shows "1 \<le> length (gr_dimensions r)" "length (gr_dimensions r) \<le> 100"
    "\<forall>d \<in> set (gr_dimensions r). decimal_field (dr_score d)"
    "length (gr_deductions r) \<le> 100"
  using assms by (auto simp: decode_grade_result_def json_field_def bind_eq_Some_conv
      dest!: json_list_Some dest: decode_score split: if_splits)

end
