(* ===== verification/Grading_Validator.thy ===== *)
theory Grading_Validator
  imports Domain_Grading
begin

text \<open>
  \<open>backend/app/grading/totals.py\<close> and \<open>backend/app/grading/validator.py\<close>: the only entrance of a
  model's answer into the system. A raised exception is a \<open>grade_exn\<close>: the stable
  \<open>GradeValidationError\<close>, or one that the caller does not catch (\<open>ValidationError\<close> of pydantic,
  \<open>ValueError\<close>, \<open>decimal.InvalidOperation\<close>). Which errors pydantic reports for a payload, and in
  which order, is the parameter \<open>perr\<close>; it only determines the path stored with an issue.
\<close>

section \<open>Totals\<close>

record grade_totals =
  gt_subtotal :: decimal
  gt_deduction_total :: decimal
  gt_total_score :: decimal

definition applied_ids :: "'a grade_result_scheme \<Rightarrow> pystr set" where
  "applied_ids r = set (map xr_deduction_id (filter xr_applied (gr_deductions r)))"

definition calculate_grade_totals :: "'a grade_result_scheme \<Rightarrow> structured_rubric \<Rightarrow> grade_totals" where
  "calculate_grade_totals r rubric =
     (let subtotal = dec_sum (map dr_score (gr_dimensions r));
          deduction_total = dec_sum (map ded_points
            (filter (\<lambda>d. ded_id d \<in> applied_ids r) (rub_deductions rubric)));
          total_score = dec_max dec_zero (dec_sub subtotal deduction_total)
      in \<lparr>gt_subtotal = subtotal, gt_deduction_total = deduction_total, gt_total_score = total_score\<rparr>)"

section \<open>Errors and paths\<close>

datatype grade_exn =
    GradeValidationError string pystr
  | PydanticValidationError
  | ValueErr
  | DecimalInvalid

datatype loc_part = LocIndex nat | LocKey pystr

record pydantic_error =
  pe_type :: string
  pe_loc :: "loc_part list"

fun render_loc :: "loc_part \<Rightarrow> pystr" where
  "render_loc (LocIndex i) = ustr ''['' @ show_nat i @ ustr '']''"
| "render_loc (LocKey k) = ustr ''.'' @ k"

definition first_validation_path :: "pydantic_error list \<Rightarrow> pystr" where
  "first_validation_path errors = (case errors of
      [] \<Rightarrow> ustr ''$''
    | e # _ \<Rightarrow> if pe_type e = ''extra_forbidden'' then ustr ''$''
        else ustr ''$'' @ concat (map render_loc (pe_loc e)))"

definition grade_error :: "string \<Rightarrow> grade_exn + 'a" where
  "grade_error code = Inl (GradeValidationError code (ustr ''$''))"

section \<open>The checks\<close>

text \<open>\<open>_require_exact_ids\<close>; the label is part of the code.\<close>

definition require_exact_ids :: "pystr list \<Rightarrow> pystr list \<Rightarrow> string \<Rightarrow> grade_exn + unit" where
  "require_exact_ids actual expected label =
     (if \<not> distinct actual then grade_error (''grade_'' @ label @ ''_duplicate'')
      else if actual \<noteq> expected then grade_error (''grade_'' @ label @ ''_mismatch'')
      else Inr ())"

text \<open>The score check of one dimension, \<open>or\<close> evaluated from the left.\<close>

definition check_score :: "decimal \<Rightarrow> dimension_result \<times> rubric_dimension \<Rightarrow> grade_exn + unit" where
  "check_score step p =
     (let score = dr_score (fst p) in
      if dec_less score dec_zero \<or> dec_less (dim_max_score (snd p)) score
      then grade_error ''grade_dimension_score_invalid''
      else case dec_rem score step of
             None \<Rightarrow> Inl DecimalInvalid
           | Some r \<Rightarrow> if dec_coef r \<noteq> 0 then grade_error ''grade_dimension_score_invalid''
                       else Inr ())"

text \<open>\<open>_validate_evidence\<close>: the loop over one item's quotes, with \<open>seen\<close> as its state.\<close>

fun check_quotes ::
    "(pystr \<Rightarrow> pystr option) \<Rightarrow> (pystr \<times> pystr) list \<Rightarrow> evidence_quote list \<Rightarrow> grade_exn + unit" where
  "check_quotes block_text seen [] = Inr ()"
| "check_quotes block_text seen (e # es) =
     (let key = (ev_block_id e, ev_quote e) in
      if key \<in> set seen then grade_error ''grade_evidence_duplicate''
      else case block_text (ev_block_id e) of
             None \<Rightarrow> grade_error ''grade_evidence_block_unknown''
           | Some source \<Rightarrow>
               if \<not> is_substring (ev_quote e) source then grade_error ''grade_evidence_quote_mismatch''
               else check_quotes block_text (key # seen) es)"

definition block_text :: "grade_request \<Rightarrow> pystr \<Rightarrow> pystr option" where
  "block_text g = map_of (rev (map (\<lambda>b. (blk_id b, blk_text b)) (doc_blocks (greq_document g))))"

definition validate_evidence :: "grade_result \<Rightarrow> grade_request \<Rightarrow> grade_exn + unit" where
  "validate_evidence r g =
     (let groups = map dr_evidence (gr_dimensions r) @ map xr_evidence (gr_deductions r)
      in bindR (mapR (check_quotes (block_text g) []) groups) (\<lambda>_. Inr ()))"

text \<open>The bounds that the fields of \<open>ValidatedGradeResult\<close> put on the computed totals.\<close>

definition make_validated_result :: "grade_result \<Rightarrow> grade_totals \<Rightarrow> grade_exn + validated_grade_result" where
  "make_validated_result r t =
     (if score_ge0 (gt_subtotal t) \<and> score_ge0 (gt_deduction_total t) \<and> score_ge0 (gt_total_score t)
      then Inr \<lparr>gr_dimensions = gr_dimensions r, gr_deductions = gr_deductions r,
                gr_overall_feedback = gr_overall_feedback r, vr_subtotal = gt_subtotal t,
                vr_deduction_total = gt_deduction_total t, vr_total_score = gt_total_score t\<rparr>
      else Inl PydanticValidationError)"

text \<open>
  The part of \<open>validate_grade_response\<close> after \<open>GradeResult.model_validate\<close>, which returns a value
  that already is a \<open>GradeResult\<close> unchanged: a teacher's review enters here.
\<close>

definition check_grade_result :: "grade_result \<Rightarrow> grade_request \<Rightarrow> grade_exn + validated_grade_result" where
  "check_grade_result r g =
     bindR (require_exact_ids (map dr_dimension_id (gr_dimensions r))
              (map dim_id (rub_dimensions (greq_rubric g))) ''dimension'') (\<lambda>_.
     bindR (mapR (check_score (rub_score_step (greq_rubric g)))
              (zip (gr_dimensions r) (rub_dimensions (greq_rubric g)))) (\<lambda>_.
     bindR (require_exact_ids (map xr_deduction_id (gr_deductions r))
              (map ded_id (rub_deductions (greq_rubric g))) ''deduction'') (\<lambda>_.
     bindR (validate_evidence r g) (\<lambda>_.
     make_validated_result r (calculate_grade_totals r (greq_rubric g))))))"

definition validate_grade_response ::
    "unicode_db \<Rightarrow> (json \<Rightarrow> pydantic_error list) \<Rightarrow> json \<Rightarrow> grade_request
       \<Rightarrow> grade_exn + validated_grade_result" where
  "validate_grade_response U perr raw g =
     (case decode_grade_result U raw of
        None \<Rightarrow> Inl (GradeValidationError ''grade_output_schema_invalid'' (first_validation_path (perr raw)))
      | Some r \<Rightarrow> check_grade_result r g)"

section \<open>The outcome of one call\<close>

datatype outcome_status = Accepted | CorrectionRequired | NeedsReview

record grade_issue =
  iss_code :: string
  iss_path :: pystr

record grade_outcome =
  oc_status :: outcome_status
  oc_code :: "string option"
  oc_attempt_count :: nat
  oc_result :: "validated_grade_result option"
  oc_issues :: "grade_issue list"

text \<open>\<open>GradeValidationIssue\<close>: the pattern of the code and the length of the path.\<close>

definition is_issue_code :: "pystr \<Rightarrow> bool" where
  "is_issue_code s \<longleftrightarrow> (case s of [] \<Rightarrow> False
     | c # cs \<Rightarrow> is_lower c \<and> length cs \<le> 127 \<and> (\<forall>d \<in> set cs. is_lower d \<or> is_digit d \<or> d = 95))"

definition make_issue :: "string \<Rightarrow> pystr \<Rightarrow> grade_exn + grade_issue" where
  "make_issue code path =
     (if is_issue_code (ustr code) \<and> length_between 1 500 path
      then Inr \<lparr>iss_code = code, iss_path = path\<rparr> else Inl PydanticValidationError)"

text \<open>\<open>GradeValidationOutcome.validate_shape\<close>.\<close>

definition outcome_shape :: "grade_outcome \<Rightarrow> bool" where
  "outcome_shape o' \<longleftrightarrow>
     (if oc_status o' = Accepted
      then \<not> (oc_result o' = None \<or> oc_code o' \<noteq> None \<or> oc_issues o' \<noteq> [])
      else \<not> (oc_result o' \<noteq> None \<or> oc_code o' = None \<or> oc_issues o' = [])) \<and>
     \<not> (oc_status o' = CorrectionRequired \<and> oc_attempt_count o' \<noteq> 1 \<or>
        oc_status o' = NeedsReview \<and> oc_attempt_count o' \<noteq> 2)"

definition make_outcome :: "grade_outcome \<Rightarrow> grade_exn + grade_outcome" where
  "make_outcome o' =
     (if outcome_shape o' \<and> oc_attempt_count o' \<in> {1, 2} \<and> length (oc_issues o') \<le> 100
      then Inr o' else Inl PydanticValidationError)"

text \<open>
  \<open>assess_grade_response\<close>. The prompt snapshot is seen through the hash of the request it was
  built from and the number of its messages; \<open>request_hash\<close> is \<open>canonical_sha256\<close>.
\<close>

record 'h grading_call =
  gc_base_request_hash :: 'h
  gc_message_count :: nat

definition correction_code :: string where
  "correction_code = ''grade_output_correction_required''"

definition after_correction_code :: string where
  "after_correction_code = ''grade_output_invalid_after_correction''"

definition assess_grade_response ::
    "unicode_db \<Rightarrow> (json \<Rightarrow> pydantic_error list) \<Rightarrow> (grade_request \<Rightarrow> 'h) \<Rightarrow> json \<Rightarrow> grade_request
       \<Rightarrow> 'h grading_call \<Rightarrow> grade_exn + grade_outcome" where
  "assess_grade_response U perr request_hash raw g prompt =
     (if gc_base_request_hash prompt \<noteq> request_hash g then grade_error ''grade_request_snapshot_mismatch''
      else if gc_message_count prompt \<noteq> 2 \<and> gc_message_count prompt \<noteq> 3 then Inl ValueErr
      else let attempt_count = (if gc_message_count prompt = 2 then 1 else 2) in
        case validate_grade_response U perr raw g of
          Inr v \<Rightarrow> make_outcome \<lparr>oc_status = Accepted, oc_code = None, oc_attempt_count = attempt_count,
                     oc_result = Some v, oc_issues = []\<rparr>
        | Inl (GradeValidationError code path) \<Rightarrow>
            bindR (make_issue code path) (\<lambda>issue.
            if attempt_count = 1
            then make_outcome \<lparr>oc_status = CorrectionRequired,
                   oc_code = Some correction_code, oc_attempt_count = attempt_count,
                   oc_result = None, oc_issues = [issue]\<rparr>
            else make_outcome \<lparr>oc_status = NeedsReview,
                   oc_code = Some after_correction_code,
                   oc_attempt_count = attempt_count, oc_result = None, oc_issues = [issue]\<rparr>)
        | Inl e \<Rightarrow> Inl e)"

section \<open>What an accepted answer satisfies\<close>

lemma check_score_units:
  assumes "check_score step (d, m) = Inr ()" "decimal_field (dr_score d)"
    and "dec_units step = Some st" "0 < st" "dec_units (dim_max_score m) = Some x"
  shows "dec_units (dr_score d) = Some (uval (dr_score d)) \<and> st dvd uval (dr_score d) \<and>
    0 \<le> uval (dr_score d) \<and> uval (dr_score d) \<le> x \<and> uval (dr_score d) < 10 ^ 10"
proof -
  from assms(1) obtain q where q: "dec_rem (dr_score d) step = Some q" "dec_coef q = 0"
    and c: "\<not> dec_less (dr_score d) dec_zero" "\<not> dec_less (dim_max_score m) (dr_score d)"
    by (auto simp: check_score_def grade_error_def Let_def split: if_splits option.splits)
  from dec_multiple_units [OF assms(3) q] obtain y where y: "dec_units (dr_score d) = Some y" "st dvd y"
    by blast
  then show ?thesis
    using c dec_compare_units(1) [OF y(1) dec_units_zero] dec_compare_units(1) [OF assms(5) y(1)]
      decimal_field_bound [OF assms(2) y(1)] by (simp add: uval_Some)
qed

lemma checked_parts:
  assumes "check_grade_result r g = Inr v"
  shows "gr_dimensions v = gr_dimensions r"
    "gr_deductions v = gr_deductions r" "gr_overall_feedback v = gr_overall_feedback r"
    "distinct (map dr_dimension_id (gr_dimensions r))"
    "map dr_dimension_id (gr_dimensions r) = map dim_id (rub_dimensions (greq_rubric g))"
    "\<forall>p \<in> set (zip (gr_dimensions r) (rub_dimensions (greq_rubric g))).
       check_score (rub_score_step (greq_rubric g)) p = Inr ()"
    "map xr_deduction_id (gr_deductions r) = map ded_id (rub_deductions (greq_rubric g))"
    "validate_evidence r g = Inr ()"
    "vr_subtotal v = gt_subtotal (calculate_grade_totals r (greq_rubric g))"
    "vr_deduction_total v = gt_deduction_total (calculate_grade_totals r (greq_rubric g))"
    "vr_total_score v = gt_total_score (calculate_grade_totals r (greq_rubric g))"
proof -
  from assms obtain x where
    r: "require_exact_ids (map dr_dimension_id (gr_dimensions r))
       (map dim_id (rub_dimensions (greq_rubric g))) ''dimension'' = Inr ()"
    "mapR (check_score (rub_score_step (greq_rubric g)))
       (zip (gr_dimensions r) (rub_dimensions (greq_rubric g))) = Inr x"
    "require_exact_ids (map xr_deduction_id (gr_deductions r))
       (map ded_id (rub_deductions (greq_rubric g))) ''deduction'' = Inr ()"
    "validate_evidence r g = Inr ()"
    "make_validated_result r (calculate_grade_totals r (greq_rubric g)) = Inr v"
    unfolding check_grade_result_def by auto
  show "gr_dimensions v = gr_dimensions r"
    "gr_deductions v = gr_deductions r" "gr_overall_feedback v = gr_overall_feedback r"
    "distinct (map dr_dimension_id (gr_dimensions r))"
    "map dr_dimension_id (gr_dimensions r) = map dim_id (rub_dimensions (greq_rubric g))"
    "\<forall>p \<in> set (zip (gr_dimensions r) (rub_dimensions (greq_rubric g))).
       check_score (rub_score_step (greq_rubric g)) p = Inr ()"
    "map xr_deduction_id (gr_deductions r) = map ded_id (rub_deductions (greq_rubric g))"
    "validate_evidence r g = Inr ()"
    "vr_subtotal v = gt_subtotal (calculate_grade_totals r (greq_rubric g))"
    "vr_deduction_total v = gt_deduction_total (calculate_grade_totals r (greq_rubric g))"
    "vr_total_score v = gt_total_score (calculate_grade_totals r (greq_rubric g))"
    using r mapR_all [OF r(2)]
    by (auto simp: require_exact_ids_def grade_error_def make_validated_result_def split: if_splits)
qed

lemma accepted_decoded:
  assumes "validate_grade_response U perr raw g = Inr v"
  obtains r where "decode_grade_result U raw = Some r" "check_grade_result r g = Inr v"
  using assms by (auto simp: validate_grade_response_def split: option.splits)

text \<open>The totals of an answer whose scores and deductions are scores of a validated rubric.\<close>

lemma totals_units:
  assumes dims: "\<And>d. d \<in> set (gr_dimensions r) \<Longrightarrow> dec_units (dr_score d) = Some (uval (dr_score d)) \<and>
      0 \<le> uval (dr_score d) \<and> uval (dr_score d) < 10 ^ 10" "length (gr_dimensions r) \<le> 100"
    and deds: "\<And>d. d \<in> set (rub_deductions q) \<Longrightarrow> dec_units (ded_points d) = Some (uval (ded_points d)) \<and>
      0 \<le> uval (ded_points d) \<and> uval (ded_points d) < 10 ^ 10" "length (rub_deductions q) \<le> 100"
  defines "S \<equiv> sum_list (map (uval \<circ> dr_score) (gr_dimensions r))"
    and "D \<equiv> sum_list (map (uval \<circ> ded_points) (filter (\<lambda>d. ded_id d \<in> applied_ids r) (rub_deductions q)))"
  shows "dec_units (gt_subtotal (calculate_grade_totals r q)) = Some S"
    "dec_units (gt_deduction_total (calculate_grade_totals r q)) = Some D"
    "dec_units (gt_total_score (calculate_grade_totals r q)) = Some (max 0 (S - D))"
    "0 \<le> S" "0 \<le> D"
proof -
  let ?F = "filter (\<lambda>d. ded_id d \<in> applied_ids r) (rub_deductions q)"
  have s: "dec_units (dec_sum (map dr_score (gr_dimensions r))) = Some S"
    unfolding S_def by (rule sum_list_units) (use dims in auto)
  have len: "length ?F \<le> 100" using deds(2) length_filter_le [of _ "rub_deductions q"] by (rule le_trans [rotated])
  have d: "dec_units (dec_sum (map ded_points ?F)) = Some D"
    unfolding D_def by (rule sum_list_units) (use deds(1) len in auto)
  show S0: "0 \<le> S" unfolding S_def by (rule sum_list_nonneg) (use dims in auto)
  show D0: "0 \<le> D" unfolding D_def by (rule sum_list_nonneg) (use deds in auto)
  have "\<forall>x \<in> set (map (uval \<circ> dr_score) (gr_dimensions r)). x \<le> 10 ^ 10" using dims(1) by fastforce
  then have S1: "S \<le> int 100 * 10 ^ 10"
    unfolding S_def by (rule sum_list_le_bound) (use dims(2) in simp_all)
  have "\<forall>x \<in> set (map (uval \<circ> ded_points) ?F). x \<le> 10 ^ 10" using deds(1) by fastforce
  then have D1: "D \<le> int 100 * 10 ^ 10"
    unfolding D_def by (rule sum_list_le_bound) (use len in simp_all)
  have "dec_units (dec_sub (dec_sum (map dr_score (gr_dimensions r))) (dec_sum (map ded_points ?F)))
      = Some (S - D)"
    by (rule dec_units_sub [OF s d]) (use S0 S1 D0 D1 in simp)
  then show "dec_units (gt_subtotal (calculate_grade_totals r q)) = Some S"
    "dec_units (gt_deduction_total (calculate_grade_totals r q)) = Some D"
    "dec_units (gt_total_score (calculate_grade_totals r q)) = Some (max 0 (S - D))"
    using s d dec_units_max [OF dec_units_zero] by (simp_all add: calculate_grade_totals_def Let_def)
qed

lemma accepted_scores:
  assumes "rubric_spec q"
    and "length (gr_dimensions r) = length (rub_dimensions q)"
    and "\<forall>d \<in> set (gr_dimensions r). decimal_field (dr_score d)"
    and "\<forall>p \<in> set (zip (gr_dimensions r) (rub_dimensions q)). check_score (rub_score_step q) p = Inr ()"
    and "(d, m) \<in> set (zip (gr_dimensions r) (rub_dimensions q))"
  shows "dec_units (dr_score d) = Some (uval (dr_score d))" "uval (rub_score_step q) dvd uval (dr_score d)"
    "0 \<le> uval (dr_score d)" "uval (dr_score d) \<le> uval (dim_max_score m)" "uval (dr_score d) < 10 ^ 10"
proof -
  have "m \<in> set (rub_dimensions q)" "d \<in> set (gr_dimensions r)"
    using assms(5) set_zip_rightD set_zip_leftD by fastforce+
  then show "dec_units (dr_score d) = Some (uval (dr_score d))" "uval (rub_score_step q) dvd uval (dr_score d)"
    "0 \<le> uval (dr_score d)" "uval (dr_score d) \<le> uval (dim_max_score m)" "uval (dr_score d) < 10 ^ 10"
    using assms check_score_units [of "rub_score_step q" d m "uval (rub_score_step q)" "uval (dim_max_score m)"]
    by (auto simp: rubric_spec_def score_at_def)
qed

lemma sum_zip_le:
  fixes f :: "'a \<Rightarrow> int"
  assumes "length xs = length ys" "\<And>x y. (x, y) \<in> set (zip xs ys) \<Longrightarrow> f x \<le> g y"
  shows "sum_list (map f xs) \<le> sum_list (map g ys)"
  using assms by (induction xs ys rule: list_induct2) (auto intro: add_mono)

lemma sum_list_dvd:
  fixes xs :: "int list"
  assumes "\<forall>x \<in> set xs. c dvd x"
  shows "c dvd sum_list xs"
  using assms by (induction xs) auto

lemma checked_facts:
  assumes "validate_rubric cf q0 = Inr (greq_rubric g)"
    and "check_grade_result r g = Inr v" "\<forall>d \<in> set (gr_dimensions r). decimal_field (dr_score d)"
  shows "dec_units (vr_total_score v) = Some (uval (vr_total_score v)) \<and>
    map dr_dimension_id (gr_dimensions v) = map dim_id (rub_dimensions (greq_rubric g)) \<and>
    distinct (map dr_dimension_id (gr_dimensions v)) \<and>
    (\<forall>(d, m) \<in> set (zip (gr_dimensions v) (rub_dimensions (greq_rubric g))).
       0 \<le> uval (dr_score d) \<and> uval (dr_score d) \<le> uval (dim_max_score m) \<and>
       uval (rub_score_step (greq_rubric g)) dvd uval (dr_score d)) \<and>
    uval (vr_total_score v) = max 0 (sum_list (map (uval \<circ> dr_score) (gr_dimensions v)) -
       sum_list (map (uval \<circ> ded_points)
         (filter (\<lambda>d. ded_id d \<in> applied_ids v) (rub_deductions (greq_rubric g))))) \<and>
    0 \<le> uval (vr_total_score v) \<and>
    uval (vr_total_score v) \<le> uval (rub_total_score (greq_rubric g)) \<and>
    uval (rub_score_step (greq_rubric g)) dvd uval (vr_total_score v)"
proof (intro conjI)
  let ?q = "greq_rubric g" and ?st = "uval (rub_score_step (greq_rubric g))"
  note q = validated_rubric_spec [OF assms(1)]
  note c = checked_parts [OF assms(2)]
  note r = assms(2) c(1,2,4,5,6,11)
  have len: "length (gr_dimensions r) = length (rub_dimensions ?q)" using r(5) map_eq_imp_length_eq by blast
  note sc = accepted_scores [OF q len assms(3) r(6)]
  have mem: "\<exists>m. (d, m) \<in> set (zip (gr_dimensions r) (rub_dimensions ?q))" if "d \<in> set (gr_dimensions r)" for d
    using that len by (metis in_set_impl_in_set_zip1)
  have dim: "dec_units (dr_score d) = Some (uval (dr_score d)) \<and> 0 \<le> uval (dr_score d) \<and>
      uval (dr_score d) < 10 ^ 10 \<and> ?st dvd uval (dr_score d)" if "d \<in> set (gr_dimensions r)" for d
    using mem [OF that] sc by blast
  have ded: "dec_units (ded_points d) = Some (uval (ded_points d)) \<and> 0 \<le> uval (ded_points d) \<and>
      uval (ded_points d) < 10 ^ 10 \<and> ?st dvd uval (ded_points d)" if "d \<in> set (rub_deductions ?q)" for d
    using q that by (auto simp: rubric_spec_def score_at_def)
  let ?S = "sum_list (map (uval \<circ> dr_score) (gr_dimensions r))"
  let ?D = "sum_list (map (uval \<circ> ded_points) (filter (\<lambda>d. ded_id d \<in> applied_ids r) (rub_deductions ?q)))"
  have t: "dec_units (vr_total_score v) = Some (max 0 (?S - ?D))" "0 \<le> ?D"
    unfolding r(7) by (rule totals_units; use dim ded q in \<open>auto simp: rubric_spec_def len\<close>)+
  have le: "?S \<le> uval (rub_total_score ?q)"
    using q sum_zip_le [OF len, of "uval \<circ> dr_score" "uval \<circ> dim_max_score"] sc
    by (auto simp: rubric_spec_def)
  have dvd: "?st dvd ?S - ?D"
    by (intro dvd_diff sum_list_dvd) (use dim ded in auto)
  show "dec_units (vr_total_score v) = Some (uval (vr_total_score v))" using t(1) uval_Some by simp
  show "map dr_dimension_id (gr_dimensions v) = map dim_id (rub_dimensions ?q)"
    "distinct (map dr_dimension_id (gr_dimensions v))" using r by simp_all
  show "\<forall>(d, m) \<in> set (zip (gr_dimensions v) (rub_dimensions ?q)).
       0 \<le> uval (dr_score d) \<and> uval (dr_score d) \<le> uval (dim_max_score m) \<and> ?st dvd uval (dr_score d)"
    using sc r(2) by auto
  have "applied_ids v = applied_ids r" using r(3) by (simp add: applied_ids_def)
  then show tot: "uval (vr_total_score v) = max 0 (sum_list (map (uval \<circ> dr_score) (gr_dimensions v)) -
       sum_list (map (uval \<circ> ded_points) (filter (\<lambda>d. ded_id d \<in> applied_ids v) (rub_deductions ?q))))"
    using t(1) r(2) by (simp add: uval_Some)
  have u: "uval (vr_total_score v) = max 0 (?S - ?D)" using t(1) by (rule uval_Some)
  show "0 \<le> uval (vr_total_score v)" using u by simp
  have "0 \<le> uval (rub_total_score ?q)" using q by (auto simp: rubric_spec_def score_at_def)
  then show "uval (vr_total_score v) \<le> uval (rub_total_score ?q)" using u t(2) le by simp
  show "?st dvd uval (vr_total_score v)" using u dvd by (simp add: max_def)
qed

lemma accepted_facts:
  assumes "validate_rubric cf q0 = Inr (greq_rubric g)"
    and "validate_grade_response U perr raw g = Inr v"
  shows "dec_units (vr_total_score v) = Some (uval (vr_total_score v)) \<and>
    map dr_dimension_id (gr_dimensions v) = map dim_id (rub_dimensions (greq_rubric g)) \<and>
    distinct (map dr_dimension_id (gr_dimensions v)) \<and>
    (\<forall>(d, m) \<in> set (zip (gr_dimensions v) (rub_dimensions (greq_rubric g))).
       0 \<le> uval (dr_score d) \<and> uval (dr_score d) \<le> uval (dim_max_score m) \<and>
       uval (rub_score_step (greq_rubric g)) dvd uval (dr_score d)) \<and>
    uval (vr_total_score v) = max 0 (sum_list (map (uval \<circ> dr_score) (gr_dimensions v)) -
       sum_list (map (uval \<circ> ded_points)
         (filter (\<lambda>d. ded_id d \<in> applied_ids v) (rub_deductions (greq_rubric g))))) \<and>
    0 \<le> uval (vr_total_score v) \<and>
    uval (vr_total_score v) \<le> uval (rub_total_score (greq_rubric g)) \<and>
    uval (rub_score_step (greq_rubric g)) dvd uval (vr_total_score v)"
proof (rule accepted_decoded [OF assms(2)])
  fix r assume r: "decode_grade_result U raw = Some r" "check_grade_result r g = Inr v"
  show ?thesis by (rule checked_facts [OF assms(1) r(2) decoded_result(3) [OF r(1)]])
qed

text \<open>What the database checks of an accepted result.\<close>

lemma checked_row:
  assumes "validate_rubric cf q0 = Inr (greq_rubric g)"
    and "check_grade_result r g = Inr v" "\<forall>d \<in> set (gr_dimensions r). decimal_field (dr_score d)"
  shows "dec_le dec_zero (vr_total_score v) \<and> dec_le (vr_total_score v) (rub_total_score (greq_rubric g)) \<and>
    vr_total_score v = dec_max dec_zero (dec_sub (vr_subtotal v) (vr_deduction_total v))"
proof -
  have t: "dec_units (rub_total_score (greq_rubric g)) = Some (uval (rub_total_score (greq_rubric g)))"
    using validated_rubric_spec [OF assms(1)] by (auto simp: rubric_spec_def score_at_def)
  have "vr_total_score v = dec_max dec_zero (dec_sub (vr_subtotal v) (vr_deduction_total v))"
    using checked_parts(9,10,11) [OF assms(2)] by (simp add: calculate_grade_totals_def Let_def)
  moreover have v: "dec_units (vr_total_score v) = Some (uval (vr_total_score v))" "0 \<le> uval (vr_total_score v)"
    "uval (vr_total_score v) \<le> uval (rub_total_score (greq_rubric g))"
    using checked_facts [OF assms] by blast+
  ultimately show ?thesis
    using dec_compare_units(2) [OF dec_units_zero v(1)] dec_compare_units(2) [OF v(1) t] by blast
qed

lemma accepted_row:
  assumes "validate_rubric cf q0 = Inr (greq_rubric g)"
    and "validate_grade_response U perr raw g = Inr v"
  shows "dec_le dec_zero (vr_total_score v) \<and> dec_le (vr_total_score v) (rub_total_score (greq_rubric g)) \<and>
    vr_total_score v = dec_max dec_zero (dec_sub (vr_subtotal v) (vr_deduction_total v))"
proof (rule accepted_decoded [OF assms(2)])
  fix r assume r: "decode_grade_result U raw = Some r" "check_grade_result r g = Inr v"
  show ?thesis by (rule checked_row [OF assms(1) r(2) decoded_result(3) [OF r(1)]])
qed


text \<open>A request for \<open>example_rubric\<close> with one block, and an answer that cites it.\<close>

definition example_request :: grade_request where
  "example_request = \<lparr>greq_assignment_id = 1, greq_assignment_title = ustr ''Essay'',
     greq_assignment_instructions = ustr ''Write'', greq_rubric_version_id = 2, greq_rubric_version = 1,
     greq_rubric = example_rubric, greq_submission_id = 3,
     greq_document = \<lparr>doc_media_type = MediaDocx, doc_page_count = None, doc_character_count = 9,
       doc_blocks = [\<lparr>blk_id = block_name 1, blk_text = ustr ''some text'',
         blk_locator = DocxParagraph 1\<rparr>]\<rparr>\<rparr>"

definition example_quote :: "string \<Rightarrow> json" where
  "example_quote q = JArr [JObj [(ustr ''block_id'', JStr (block_name 1)), (ustr ''quote'', JStr (ustr q))]]"

definition example_answer :: "string \<Rightarrow> json" where
  "example_answer q = JObj [(ustr ''schema_version'', JStr (ustr ''grade-result.v1'')),
     (ustr ''dimensions'', JArr [JObj [(ustr ''dimension_id'', JStr (ustr ''a'')),
        (ustr ''score'', JStr (ustr ''7.0'')), (ustr ''reason'', JStr (ustr ''clear'')),
        (ustr ''evidence'', example_quote q),
        (ustr ''revision_suggestions'', JArr [JStr (ustr ''shorten'')])]]),
     (ustr ''deductions'', JArr [JObj [(ustr ''deduction_id'', JStr (ustr ''b'')),
        (ustr ''applied'', JBool True), (ustr ''reason'', JStr (ustr ''late''))]]),
     (ustr ''overall_feedback'', JStr (ustr ''good''))]"

lemma example_accepted:
  "(case validate_grade_response ascii_db (\<lambda>_. []) (example_answer ''text'') example_request of
      Inl _ \<Rightarrow> False | Inr v \<Rightarrow> uval (vr_total_score v) = 50000)"
  by code_simp


section \<open>Evidence is verbatim\<close>

lemma check_quotes_sound:
  assumes "check_quotes bt seen es = Inr ()"
  shows "(\<forall>e \<in> set es. \<exists>src. bt (ev_block_id e) = Some src \<and> is_substring (ev_quote e) src) \<and>
    distinct (map (\<lambda>e. (ev_block_id e, ev_quote e)) es) \<and>
    set seen \<inter> set (map (\<lambda>e. (ev_block_id e, ev_quote e)) es) = {}"
  using assms
  by (induction bt seen es rule: check_quotes.induct)
    (auto simp: grade_error_def Let_def split: if_splits option.splits)

lemma block_text_Some:
  "block_text g i = Some src \<Longrightarrow> \<exists>b \<in> set (doc_blocks (greq_document g)). blk_id b = i \<and> blk_text b = src"
  by (auto simp: block_text_def dest!: map_of_SomeD)

lemma checked_evidence:
  assumes "check_grade_result r g = Inr v"
    and "es \<in> dr_evidence ` set (gr_dimensions v) \<union> xr_evidence ` set (gr_deductions v)"
  shows "(\<forall>e \<in> set es. \<exists>b \<in> set (doc_blocks (greq_document g)). \<exists>before after.
      blk_id b = ev_block_id e \<and> blk_text b = before @ ev_quote e @ after) \<and>
    distinct (map (\<lambda>e. (ev_block_id e, ev_quote e)) es)"
proof (intro conjI)
  note c = checked_parts [OF assms(1)]
  note r = c(1,2,8)
  have "es \<in> set (map dr_evidence (gr_dimensions r) @ map xr_evidence (gr_deductions r))"
    using assms(2) r(1,2) by auto
  moreover obtain x where
    "mapR (check_quotes (block_text g) []) (map dr_evidence (gr_dimensions r) @ map xr_evidence (gr_deductions r)) = Inr x"
    using r(3) by (auto simp: validate_evidence_def Let_def)
  ultimately have c: "check_quotes (block_text g) [] es = Inr ()" using mapR_all by fastforce
  show "distinct (map (\<lambda>e. (ev_block_id e, ev_quote e)) es)" using check_quotes_sound [OF c] by blast
  show "\<forall>e \<in> set es. \<exists>b \<in> set (doc_blocks (greq_document g)). \<exists>before after.
      blk_id b = ev_block_id e \<and> blk_text b = before @ ev_quote e @ after"
    using check_quotes_sound [OF c] block_text_Some is_substring_iff by metis
qed

text \<open>
  C4. Every quotation of an accepted answer, for a dimension or for a deduction, names a block of
  the graded document and occurs in that block's text letter for letter; and one item never cites
  the same quotation of the same block twice.
\<close>

theorem accepted_evidence_verbatim:
  assumes "validate_grade_response U perr raw g = Inr v"
    and "es \<in> dr_evidence ` set (gr_dimensions v) \<union> xr_evidence ` set (gr_deductions v)"
  shows "(\<forall>e \<in> set es. \<exists>b \<in> set (doc_blocks (greq_document g)). \<exists>before after.
      blk_id b = ev_block_id e \<and> blk_text b = before @ ev_quote e @ after) \<and>
    distinct (map (\<lambda>e. (ev_block_id e, ev_quote e)) es)"
proof (rule accepted_decoded [OF assms(1)])
  fix r assume "check_grade_result r g = Inr v"
  then show ?thesis using checked_evidence assms(2) by blast
qed

theorem accepted_evidence_verbatim_witness:
  "\<exists>v d. validate_grade_response ascii_db (\<lambda>_. []) (example_answer ''text'') example_request = Inr v \<and>
     d \<in> set (gr_dimensions v) \<and> distinct (map (\<lambda>e. (ev_block_id e, ev_quote e)) (dr_evidence d)) \<and>
     (\<forall>e \<in> set (dr_evidence d). \<exists>b \<in> set (doc_blocks (greq_document example_request)). \<exists>before after.
        blk_id b = ev_block_id e \<and> blk_text b = before @ ev_quote e @ after)"
proof -
  obtain v where v: "validate_grade_response ascii_db (\<lambda>_. []) (example_answer ''text'') example_request = Inr v"
    using example_accepted by (auto split: sum.splits)
  from v obtain r where "decode_grade_result ascii_db (example_answer ''text'') = Some r"
    "gr_dimensions v = gr_dimensions r" using checked_parts(1) by (metis accepted_decoded)
  then have "gr_dimensions v \<noteq> []" using decoded_result(1) by fastforce
  then obtain d where d: "d \<in> set (gr_dimensions v)" by (cases "gr_dimensions v") auto
  then have "dr_evidence d \<in> dr_evidence ` set (gr_dimensions v) \<union> xr_evidence ` set (gr_deductions v)" by blast
  with accepted_evidence_verbatim [OF v this] v d show ?thesis by blast
qed

section \<open>When an assessment returns\<close>

lemma dec_rem_total:
  assumes "dec_units step = Some st" "0 < st" "dec_units m = Some M" "M < 10 ^ 10"
    and "\<not> dec_less s dec_zero" "\<not> dec_less m s"
  shows "dec_rem s step \<noteq> None"
proof -
  define e where "e = min (dec_exp s) (dec_exp step)"
  define f where "f = min (min e (dec_exp m)) (-4)"
  define Q where "Q = (10::int) ^ nat (-4 - f)"
  define P where "P = (10::int) ^ nat (e - f)"
  have pos: "0 < P" "0 < Q" by (simp_all add: P_def Q_def)
  have le: "f \<le> -4" "f \<le> e" "f \<le> dec_exp m" "f \<le> dec_exp s" "f \<le> dec_exp step"
    "e \<le> dec_exp s" "e \<le> dec_exp step" by (auto simp: e_def f_def)
  have st: "dec_at f step = st * Q" and m: "dec_at f m = M * Q"
    using dec_units_iff le assms(1,3) unfolding Q_def by blast+
  have sh: "dec_at f s = dec_at e s * P" "dec_at f step = dec_at e step * P"
    using dec_at_shift [OF le(2,6)] dec_at_shift [OF le(2,7)] by (simp_all add: P_def)
  have "0 \<le> dec_int s" using assms(5)
    by (simp add: dec_less_def Let_def dec_zero_def dec_at_def dec_int_def mult_less_0_iff split: if_splits)
  then have s0: "0 \<le> dec_at e s" by (simp add: dec_at_def)
  have "dec_at (min (dec_exp m) (dec_exp s)) s \<le> dec_at (min (dec_exp m) (dec_exp s)) m"
    using assms(6) by (simp add: dec_less_def Let_def)
  then have "dec_at f s \<le> dec_at f m"
    using dec_at_shift [of f "min (dec_exp m) (dec_exp s)" s] dec_at_shift [of f "min (dec_exp m) (dec_exp s)" m] le
    by simp
  also have "\<dots> \<le> (10 ^ 10 * st) * Q"
    unfolding m using assms(2,4) pos by (intro mult_right_mono) auto
  also have "\<dots> = 10 ^ 10 * dec_at e step * P" using st sh(2) by (simp only: mult.assoc)
  finally have b: "dec_at e s \<le> 10 ^ 10 * dec_at e step" unfolding sh(1) using pos by simp
  have "0 < dec_at e step * P" unfolding sh(2) [symmetric] st using assms(2) pos by simp
  then have y: "0 < dec_at e step" using pos by (simp add: zero_less_mult_iff)
  have "nat (dec_at e s) \<le> nat (10 ^ 10 * dec_at e step)" using b by (rule nat_mono)
  also have "\<dots> = 10 ^ 10 * nat (dec_at e step)" by (simp add: nat_mult_distrib)
  finally have "nat (dec_at e s) div nat (dec_at e step) \<le> 10 ^ 10 * nat (dec_at e step) div nat (dec_at e step)"
    by (rule div_le_mono)
  also have "\<dots> = 10 ^ 10" using y by simp
  finally have "nat (dec_at e s) div nat (dec_at e step) < 10 ^ 28" by simp
  then show ?thesis using y s0 by (simp add: dec_rem_def Let_def flip: e_def)
qed

definition stable_codes :: "string list" where
  "stable_codes = [''grade_output_schema_invalid'', ''grade_dimension_duplicate'', ''grade_dimension_mismatch'',
     ''grade_dimension_score_invalid'', ''grade_deduction_duplicate'', ''grade_deduction_mismatch'',
     ''grade_evidence_duplicate'', ''grade_evidence_block_unknown'', ''grade_evidence_quote_mismatch'']"

lemma stable_code_mem [simp]:
  "''grade_output_schema_invalid'' \<in> set stable_codes" "''grade_dimension_duplicate'' \<in> set stable_codes"
  "''grade_dimension_mismatch'' \<in> set stable_codes" "''grade_dimension_score_invalid'' \<in> set stable_codes"
  "''grade_deduction_duplicate'' \<in> set stable_codes" "''grade_deduction_mismatch'' \<in> set stable_codes"
  "''grade_evidence_duplicate'' \<in> set stable_codes" "''grade_evidence_block_unknown'' \<in> set stable_codes"
  "''grade_evidence_quote_mismatch'' \<in> set stable_codes"
  by code_simp+

lemma check_quotes_exn:
  "check_quotes bt seen es = Inl x \<Longrightarrow> \<exists>c. x = GradeValidationError c (ustr ''$'') \<and> c \<in> set stable_codes"
proof (induction bt seen es rule: check_quotes.induct)
  case (2 bt seen e es)
  then show ?case
    by (auto simp: grade_error_def Let_def split: if_splits option.splits)
qed simp

lemma exact_ids_exn:
  assumes "require_exact_ids xs ys label = Inl x" "label = ''dimension'' \<or> label = ''deduction''"
  shows "\<exists>c. x = GradeValidationError c (ustr ''$'') \<and> c \<in> set stable_codes"
  using assms(2)
proof
  assume "label = ''dimension''"
  with assms(1) show ?thesis by (auto simp: require_exact_ids_def grade_error_def split: if_splits)
next
  assume "label = ''deduction''"
  with assms(1) show ?thesis by (auto simp: require_exact_ids_def grade_error_def split: if_splits)
qed

lemma mapR_Inl: "mapR f xs = Inl e \<Longrightarrow> \<exists>x \<in> set xs. f x = Inl e"
  by (induction xs) (auto simp: bindR_Inl_iff)

lemma stable_code_issue: "c \<in> set stable_codes \<Longrightarrow> is_issue_code (ustr c)"
proof -
  have "\<forall>c \<in> set stable_codes. is_issue_code (ustr c)" by code_simp
  then show "c \<in> set stable_codes \<Longrightarrow> is_issue_code (ustr c)" by blast
qed

lemma sum_list_filter_le_int:
  fixes f :: "'a \<Rightarrow> int"
  assumes "\<And>x. x \<in> set xs \<Longrightarrow> 0 \<le> f x"
  shows "sum_list (map f (filter p xs)) \<le> sum_list (map f xs)"
  using assms by (induction xs) (auto intro: add_increasing)

lemma validated_result_total:
  assumes "rubric_spec q" "length (gr_dimensions r) = length (rub_dimensions q)"
    and "\<forall>d \<in> set (gr_dimensions r). decimal_field (dr_score d)"
    and "\<forall>p \<in> set (zip (gr_dimensions r) (rub_dimensions q)). check_score (rub_score_step q) p = Inr ()"
    and "sum_list (map (uval \<circ> ded_points) (rub_deductions q)) < 10 ^ 10"
  shows "\<exists>v. make_validated_result r (calculate_grade_totals r q) = Inr v"
proof -
  let ?F = "filter (\<lambda>d. ded_id d \<in> applied_ids r) (rub_deductions q)"
  define S where "S = sum_list (map (uval \<circ> dr_score) (gr_dimensions r))"
  define D where "D = sum_list (map (uval \<circ> ded_points) ?F)"
  note sc = accepted_scores [OF assms(1-4)]
  have mem: "\<exists>m. (d, m) \<in> set (zip (gr_dimensions r) (rub_dimensions q))" if "d \<in> set (gr_dimensions r)" for d
    using that assms(2) by (metis in_set_impl_in_set_zip1)
  have dim: "dec_units (dr_score d) = Some (uval (dr_score d)) \<and> 0 \<le> uval (dr_score d) \<and>
      uval (dr_score d) < 10 ^ 10" if "d \<in> set (gr_dimensions r)" for d
    using mem [OF that] sc by blast
  have ded: "dec_units (ded_points d) = Some (uval (ded_points d)) \<and> 0 \<le> uval (ded_points d) \<and>
      uval (ded_points d) < 10 ^ 10" if "d \<in> set (rub_deductions q)" for d
    using assms(1) that by (auto simp: rubric_spec_def score_at_def)
  note T = totals_units [where r = r and q = q, folded S_def D_def]
  have t: "dec_units (gt_subtotal (calculate_grade_totals r q)) = Some S"
    "dec_units (gt_deduction_total (calculate_grade_totals r q)) = Some D"
    "dec_units (gt_total_score (calculate_grade_totals r q)) = Some (max 0 (S - D))" "0 \<le> S" "0 \<le> D"
    by (rule T; use dim ded assms(1,2) in \<open>auto simp: rubric_spec_def\<close>)+
  have "S \<le> uval (rub_total_score q)"
    using assms(1) sum_zip_le [OF assms(2), of "uval \<circ> dr_score" "uval \<circ> dim_max_score"] sc
    by (auto simp: rubric_spec_def S_def)
  then have S: "S < 10 ^ 10" using assms(1) by (auto simp: rubric_spec_def score_at_def)
  have "D \<le> sum_list (map (uval \<circ> ded_points) (rub_deductions q))"
    unfolding D_def using ded by (intro sum_list_filter_le_int) auto
  with assms(5) have D: "D < 10 ^ 10" by linarith
  have ge: "score_ge0 d" if "dec_units d = Some x" "0 \<le> x" "x < 10 ^ 10" for d x
    using that dec_compare_units(2) [OF dec_units_zero that(1)] decimal_field_units [OF that(1)]
    by (simp add: score_ge0_def)
  show ?thesis
    using ge [OF t(1,4) S] ge [OF t(2,5) D] ge [OF t(3)] S t(5) by (simp add: make_validated_result_def)
qed


lemma bind_chain:
  "bindR a (\<lambda>_. bindR b (\<lambda>_. bindR c (\<lambda>_. bindR d (\<lambda>_. m)))) = Inl x \<Longrightarrow>
     a = Inl x \<or> b = Inl x \<or> c = Inl x \<or> d = Inl x \<or> (\<exists>u y. a = Inr u \<and> b = Inr y \<and> m = Inl x)"
  by (cases a; cases b; cases c; cases d) auto

lemma check_errors:
  assumes "rubric_spec (greq_rubric g)"
    and "sum_list (map (uval \<circ> ded_points) (rub_deductions (greq_rubric g))) < 10 ^ 10"
    and "check_grade_result r g = Inl x" "\<forall>d \<in> set (gr_dimensions r). decimal_field (dr_score d)"
  shows "\<exists>c p. x = GradeValidationError c p \<and> c \<in> set stable_codes \<and> p = ustr ''$''"
proof -
  let ?q = "greq_rubric g" and ?step = "rub_score_step (greq_rubric g)"
  have bad_score: "x = GradeValidationError ''grade_dimension_score_invalid'' (ustr ''$'')"
    if p: "p \<in> set (zip (gr_dimensions r) (rub_dimensions ?q))" "check_score ?step p = Inl x" for p
  proof -
    have "snd p \<in> set (rub_dimensions ?q)" using p(1) by (metis set_zip_rightD prod.collapse)
    then have "dec_units (dim_max_score (snd p)) = Some (uval (dim_max_score (snd p)))"
      "uval (dim_max_score (snd p)) < 10 ^ 10"
      using assms(1) by (auto simp: rubric_spec_def score_at_def)
    then show ?thesis
      using p(2) dec_rem_total [of ?step "uval ?step" "dim_max_score (snd p)" _ "dr_score (fst p)"] assms(1)
      by (auto simp: check_score_def Let_def grade_error_def rubric_spec_def split: if_splits option.splits)
  qed
  note chain = bind_chain [OF assms(3) [unfolded check_grade_result_def]]
  then consider
      (dim) "require_exact_ids (map dr_dimension_id (gr_dimensions r)) (map dim_id (rub_dimensions ?q)) ''dimension'' = Inl x"
    | (score) "mapR (check_score ?step) (zip (gr_dimensions r) (rub_dimensions ?q)) = Inl x"
    | (ded) "require_exact_ids (map xr_deduction_id (gr_deductions r)) (map ded_id (rub_deductions ?q)) ''deduction'' = Inl x"
    | (ev) "validate_evidence r g = Inl x"
    | (tot) "\<exists>u y. require_exact_ids (map dr_dimension_id (gr_dimensions r)) (map dim_id (rub_dimensions ?q)) ''dimension'' = Inr u \<and>
        mapR (check_score ?step) (zip (gr_dimensions r) (rub_dimensions ?q)) = Inr y \<and>
        make_validated_result r (calculate_grade_totals r ?q) = Inl x"
    by (elim disjE) assumption+
  then show ?thesis
  proof cases
    case score
    from mapR_Inl [OF score] obtain p' where
      "p' \<in> set (zip (gr_dimensions r) (rub_dimensions ?q))" "check_score ?step p' = Inl x" by (elim bexE)
    then have "x = GradeValidationError ''grade_dimension_score_invalid'' (ustr ''$'')" by (rule bad_score)
    then show ?thesis by simp
  next
    case ev
    then have "mapR (check_quotes (block_text g) [])
        (map dr_evidence (gr_dimensions r) @ map xr_evidence (gr_deductions r)) = Inl x"
      by (simp add: validate_evidence_def Let_def bindR_Inl_iff)
    from mapR_Inl [OF this] obtain es where "check_quotes (block_text g) [] es = Inl x" by (elim bexE)
    from check_quotes_exn [OF this] show ?thesis by blast
  next
    case tot
    then obtain u y where tot: "require_exact_ids (map dr_dimension_id (gr_dimensions r)) (map dim_id (rub_dimensions ?q)) ''dimension'' = Inr u"
      "mapR (check_score ?step) (zip (gr_dimensions r) (rub_dimensions ?q)) = Inr y"
      "make_validated_result r (calculate_grade_totals r ?q) = Inl x" by (elim exE conjE)
    have "length (gr_dimensions r) = length (rub_dimensions ?q)"
      using tot(1) by (auto simp: require_exact_ids_def grade_error_def dest: map_eq_imp_length_eq split: if_splits)
    moreover have "\<forall>p \<in> set (zip (gr_dimensions r) (rub_dimensions ?q)). check_score ?step p = Inr ()"
      using mapR_all [OF tot(2)] by auto
    ultimately have False
      using validated_result_total [OF assms(1) _ assms(4) _ assms(2)] tot(3) by auto
    then show ?thesis ..
  next
    case dim
    then show ?thesis using exact_ids_exn [of _ _ "''dimension''"] by blast
  next
    case ded
    then show ?thesis using exact_ids_exn [of _ _ "''deduction''"] by blast
  qed
qed

lemma validate_errors:
  assumes "rubric_spec (greq_rubric g)"
    and "sum_list (map (uval \<circ> ded_points) (rub_deductions (greq_rubric g))) < 10 ^ 10"
    and "validate_grade_response U perr raw g = Inl x"
  shows "\<exists>c p. x = GradeValidationError c p \<and> c \<in> set stable_codes \<and>
    (p = ustr ''$'' \<or> p = first_validation_path (perr raw))"
proof (cases "decode_grade_result U raw")
  case None
  then show ?thesis using assms(3) by (auto simp: validate_grade_response_def)
next
  case (Some r)
  then have "check_grade_result r g = Inl x" using assms(3) by (simp add: validate_grade_response_def)
  then show ?thesis using check_errors [OF assms(1,2) _ decoded_result(3) [OF Some]] by blast
qed

text \<open>
  C5. For a validated rubric whose deductions together stay below one million points, assessing an
  answer against the prompt it belongs to always returns an outcome and never raises: an accepted
  one carrying the validated result exactly when validation succeeds, a request for a correction
  after the first call, and teacher review after the second.
\<close>

theorem assess_total:
  assumes "validate_rubric cf q0 = Inr (greq_rubric g)"
    and "sum_list (map (uval \<circ> ded_points) (rub_deductions (greq_rubric g))) < 10 ^ 10"
    and "gc_base_request_hash prompt = request_hash g" "gc_message_count prompt \<in> {2, 3}"
    and "length_between 1 500 (first_validation_path (perr raw))"
  shows "\<exists>oc. assess_grade_response U perr request_hash raw g prompt = Inr oc \<and>
    oc_attempt_count oc = gc_message_count prompt - 1 \<and>
    (case validate_grade_response U perr raw g of
       Inr v \<Rightarrow> oc_status oc = Accepted \<and> oc_result oc = Some v \<and> oc_issues oc = []
     | Inl _ \<Rightarrow> oc_result oc = None \<and> length (oc_issues oc) = 1 \<and>
         oc_status oc = (if gc_message_count prompt = 2 then CorrectionRequired else NeedsReview))"
proof (cases "validate_grade_response U perr raw g")
  case (Inr v)
  then show ?thesis using assms(3,4)
    by (auto simp: assess_grade_response_def make_outcome_def outcome_shape_def)
next
  case (Inl x)
  from validate_errors [OF validated_rubric_spec [OF assms(1)] assms(2) Inl] obtain c p where
    x: "x = GradeValidationError c p" "c \<in> set stable_codes"
    and "p = ustr ''$'' \<or> p = first_validation_path (perr raw)" by blast
  then have "length_between 1 500 p" using assms(5) by (auto simp: length_between_def ustr_def)
  then have "make_issue c p = Inr \<lparr>iss_code = c, iss_path = p\<rparr>"
    using stable_code_issue [OF x(2)] by (simp add: make_issue_def)
  then show ?thesis using assms(3,4) Inl x(1)
    by (auto simp: assess_grade_response_def make_outcome_def outcome_shape_def)
qed

text \<open>A fabricated quotation: the second call hands the paper to the teacher.\<close>

theorem assess_total_witness:
  "\<exists>oc. assess_grade_response ascii_db (\<lambda>_. []) (\<lambda>_. 0 :: nat) (example_answer ''absent'') example_request
      \<lparr>gc_base_request_hash = 0, gc_message_count = 3\<rparr> = Inr oc \<and> oc_status oc = NeedsReview"
proof -
  have v: "validate_rubric id example_rubric = Inr (greq_rubric example_request)"
    using example_rubric_valid by (simp add: example_request_def)
  have s: "sum_list (map (uval \<circ> ded_points) (rub_deductions (greq_rubric example_request))) < 10 ^ 10"
    by code_simp
  have p: "length_between 1 500 (first_validation_path [])" by code_simp
  have e: "isl (validate_grade_response ascii_db (\<lambda>_. []) (example_answer ''absent'') example_request)"
    by code_simp
  show ?thesis
    using assess_total [where perr = "\<lambda>_. []" and raw = "example_answer ''absent''" and U = ascii_db and
        request_hash = "\<lambda>_. 0 :: nat" and prompt = "\<lparr>gc_base_request_hash = 0, gc_message_count = 3\<rparr>",
        OF v s] p e
    by (auto simp: isl_def)
qed

section \<open>Deductions beyond six whole digits\<close>

text \<open>
  Each deduction is bounded by the total, their sum is not: with two deductions that both apply the
  field bound on \<open>deduction_total\<close> fails and pydantic's own error leaves the validator.
\<close>

definition wide_deduction :: "pystr \<Rightarrow> rubric_deduction" where
  "wide_deduction i = \<lparr>ded_id = i, ded_name = i, ded_description = [71], ded_points = dec_of_int 600000\<rparr>"

definition wide_rubric :: structured_rubric where
  "wide_rubric = \<lparr>rub_schema_version = 1, rub_total_score = dec_of_int 600000,
     rub_score_step = dec_of_int 1,
     rub_dimensions = [example_dimension\<lparr>dim_max_score := dec_of_int 600000,
       dim_bands := [example_band 0 4, example_band 5 600000]\<rparr>],
     rub_deductions = [wide_deduction [98], wide_deduction [99]]\<rparr>"

definition wide_answer :: json where
  "wide_answer = JObj [(ustr ''schema_version'', JStr (ustr ''grade-result.v1'')),
     (ustr ''dimensions'', JArr [JObj [(ustr ''dimension_id'', JStr (ustr ''a'')),
        (ustr ''score'', JStr (ustr ''7'')), (ustr ''reason'', JStr (ustr ''clear'')),
        (ustr ''evidence'', example_quote ''text''),
        (ustr ''revision_suggestions'', JArr [JStr (ustr ''shorten'')])]]),
     (ustr ''deductions'', JArr (map (\<lambda>i. JObj [(ustr ''deduction_id'', JStr [i]),
        (ustr ''applied'', JBool True), (ustr ''reason'', JStr (ustr ''late''))]) [98, 99])),
     (ustr ''overall_feedback'', JStr (ustr ''good''))]"


end
