(* ===== verification/Review_Models.thy ===== *)
theory Review_Models
  imports Grading_Validator
begin

text \<open>
  \<open>backend/app/reviews/models.py\<close>: what a teacher submits when reviewing a graded paper. A total is
  not among the fields; evidence is listed apart, each quotation with the item it supports. The
  validators return the normalised value or \<open>None\<close> for pydantic's \<open>ValidationError\<close>.
\<close>

record criterion_input =
  ci_dimension_id :: pystr
  ci_score :: decimal
  ci_reason :: pystr
  ci_revision_suggestions :: "pystr list"

record deduction_input =
  di_deduction_id :: pystr
  di_applied :: bool
  di_reason :: pystr

datatype target_type = TargetDimension | TargetDeduction

record evidence_input =
  ei_target_type :: target_type
  ei_target_id :: pystr
  ei_block_id :: pystr
  ei_quote :: pystr

record review_draft_input =
  dri_attempt_id :: uuid
  dri_criteria :: "criterion_input list"
  dri_deductions :: "deduction_input list"
  dri_evidence :: "evidence_input list"
  dri_overall_feedback :: pystr
  dri_change_reason :: "pystr option"

text \<open>A text that is stripped, then checked for English, then for its length.\<close>

definition narrative_field :: "unicode_db \<Rightarrow> nat \<Rightarrow> pystr \<Rightarrow> pystr option" where
  "narrative_field U hi s = (let t = py_strip s in
     guard_opt (require_english_narrative U t \<and> encodable t \<and> length_between 1 hi t) t)"

definition validate_suggestions :: "unicode_db \<Rightarrow> pystr list \<Rightarrow> pystr list option" where
  "validate_suggestions U values = (let ts = map py_strip values in
     guard_opt (length_between 1 50 values \<and> list_all encodable values \<and> (\<forall>t \<in> set ts. t \<noteq> []) \<and>
       (\<forall>t \<in> set ts. require_english_narrative U t)) ts)"

definition validate_criterion :: "unicode_db \<Rightarrow> criterion_input \<Rightarrow> criterion_input option" where
  "validate_criterion U c =
     (if \<not> (is_identifier (ci_dimension_id c) \<and> decimal_field (ci_score c)) then None
      else Option.bind (narrative_field U 10000 (ci_reason c)) (\<lambda>reason.
           Option.bind (validate_suggestions U (ci_revision_suggestions c)) (\<lambda>suggestions.
           Some (c\<lparr>ci_reason := reason, ci_revision_suggestions := suggestions\<rparr>))))"

definition validate_deduction_input :: "unicode_db \<Rightarrow> deduction_input \<Rightarrow> deduction_input option" where
  "validate_deduction_input U d =
     (if \<not> is_identifier (di_deduction_id d) then None
      else map_option (\<lambda>reason. d\<lparr>di_reason := reason\<rparr>) (narrative_field U 10000 (di_reason d)))"

definition validate_evidence_input :: "evidence_input \<Rightarrow> bool" where
  "validate_evidence_input e \<longleftrightarrow> is_identifier (ei_target_id e) \<and> is_block_id (ei_block_id e) \<and>
     encodable (ei_quote e) \<and> length_between 1 20000 (ei_quote e) \<and> py_strip (ei_quote e) \<noteq> []"

text \<open>\<open>value.strip() or None\<close>.\<close>

definition normalize_change_reason :: "pystr option \<Rightarrow> pystr option" where
  "normalize_change_reason r = (case r of None \<Rightarrow> None
     | Some s \<Rightarrow> if py_strip s = [] then None else Some (py_strip s))"

definition validate_draft_input :: "unicode_db \<Rightarrow> review_draft_input \<Rightarrow> review_draft_input option" where
  "validate_draft_input U p =
     Option.bind (if length_between 1 100 (dri_criteria p) then map_opt (validate_criterion U) (dri_criteria p) else None) (\<lambda>cs.
     Option.bind (if length (dri_deductions p) \<le> 100 then map_opt (validate_deduction_input U) (dri_deductions p) else None) (\<lambda>ds.
     if \<not> (length (dri_evidence p) \<le> 10000 \<and> list_all validate_evidence_input (dri_evidence p)) then None
     else Option.bind (narrative_field U 20000 (dri_overall_feedback p)) (\<lambda>feedback.
       let reason = normalize_change_reason (dri_change_reason p) in
       if (case reason of None \<Rightarrow> True | Some r \<Rightarrow> encodable r \<and> length r \<le> 4000) \<and>
          distinct (map ci_dimension_id cs) \<and> distinct (map di_deduction_id ds)
       then Some (p\<lparr>dri_criteria := cs, dri_deductions := ds, dri_overall_feedback := feedback, dri_change_reason := reason\<rparr>)
       else None)))"

text \<open>\<open>ReviewDraftData\<close>: a draft with the totals the server computed.\<close>

record review_draft_data = review_draft_input +
  rdd_subtotal :: decimal
  rdd_deduction_total :: decimal
  rdd_final_score :: decimal

text \<open>What every validated draft satisfies.\<close>

lemma validated_draft:
  assumes "validate_draft_input U p = Some q"
  shows "\<forall>c \<in> set (dri_criteria q). decimal_field (ci_score c) \<and> is_identifier (ci_dimension_id c)"
    "\<forall>e \<in> set (dri_evidence q). validate_evidence_input e"
    "distinct (map ci_dimension_id (dri_criteria q))" "distinct (map di_deduction_id (dri_deductions q))"
    "dri_change_reason q \<noteq> Some []"
proof -
  from assms obtain cs where cs: "map_opt (validate_criterion U) (dri_criteria p) = Some cs"
    "dri_criteria q = cs" "dri_evidence q = dri_evidence p" "list_all validate_evidence_input (dri_evidence p)"
    "distinct (map ci_dimension_id cs)" "distinct (map di_deduction_id (dri_deductions q))"
    "dri_change_reason q = normalize_change_reason (dri_change_reason p)"
    by (auto simp: validate_draft_input_def Let_def bind_eq_Some_conv split: if_splits)
  have "decimal_field (ci_score c) \<and> is_identifier (ci_dimension_id c)" if "c \<in> set cs" for c
    using map_opt_mem [OF cs(1) that] by (auto simp: validate_criterion_def bind_eq_Some_conv split: if_splits)
  then show "\<forall>c \<in> set (dri_criteria q). decimal_field (ci_score c) \<and> is_identifier (ci_dimension_id c)"
    using cs(2) by blast
  show "\<forall>e \<in> set (dri_evidence q). validate_evidence_input e" using cs(3,4) by (simp add: list_all_iff)
  show "distinct (map ci_dimension_id (dri_criteria q))" "distinct (map di_deduction_id (dri_deductions q))"
    using cs by auto
  show "dri_change_reason q \<noteq> Some []" using cs(7) by (auto simp: normalize_change_reason_def split: option.splits if_splits)
qed

end
