(* ===== verification/Providers_Base.thy ===== *)
theory Providers_Base
  imports Domain_Grading
begin

text \<open>
  \<open>backend/app/providers/base.py\<close> and the provider enumeration of \<open>domain/enums.py\<close>: the
  vendor-independent contract of a model call. HTTP statuses become stable errors with a retry
  safety, token usage and price tiers are validated, and the cost of a call is computed in
  \<open>Decimal\<close> arithmetic. Error codes are constructors of a datatype, one per code string.
\<close>

section \<open>Enumerations\<close>

datatype provider_type = DeepSeek | Kimi | Glm | OpenAI | Anthropic | Gemini | OpenAICompatible

datatype structured_output = JsonSchema | JsonObject
datatype schema_dialect = DialectCanonical | DialectOpenAI | DialectAnthropic | DialectGemini
datatype sampling_policy = TemperatureZero | TemperatureFixed06 | DoSampleFalse | SamplingOmit
datatype thinking_policy = ThinkingDisabled | ThinkingEnabled | ThinkingOmit
datatype output_token_parameter = MaxTokens | MaxCompletionTokens | MaxOutputTokens
datatype retry_safety = RetryNever | RetrySafe | RetryUnknown

section \<open>Errors of a provider call\<close>

datatype provider_code =
    PRedirectRejected | PAuthenticationFailed | PPermissionDenied | PBalanceUnavailable
  | PRequestInvalid | PEndpointInvalid | PTimeout | PRateLimited | PUnavailable | PRequestFailed
  | PCapabilityUnsupported | PModelUnavailable | PResponseInvalid | PContextExceeded
  | POutputTruncated | PContentRefused | PQuotaExhausted | PNetworkUnavailable | PResponseTooLarge
  | PAdapterUnavailable

record http_response =
  hr_status :: int
  hr_json :: json
  hr_raw :: pystr
  hr_headers :: "(pystr \<times> pystr) list"

record provider_error =
  pr_code :: provider_code
  pr_retryable :: bool
  pr_retry_safety :: retry_safety
  pr_response :: "http_response option"

text \<open>
  \<open>ProviderAdapterError.__init__\<close>: the default safety follows \<open>retryable\<close>; a safe error that is
  not retryable is a \<open>ValueError\<close>, here \<open>None\<close>.
\<close>

definition make_provider_error ::
    "provider_code \<Rightarrow> bool \<Rightarrow> retry_safety option \<Rightarrow> http_response option \<Rightarrow> provider_error option" where
  "make_provider_error code retryable safety response =
     (let s = (case safety of Some x \<Rightarrow> x | None \<Rightarrow> if retryable then RetryUnknown else RetryNever) in
      if s = RetrySafe \<and> \<not> retryable then None
      else Some \<lparr>pr_code = code, pr_retryable = retryable, pr_retry_safety = s, pr_response = response\<rparr>)"

definition plain_error :: "provider_code \<Rightarrow> http_response option \<Rightarrow> provider_error" where
  "plain_error code response =
     \<lparr>pr_code = code, pr_retryable = False, pr_retry_safety = RetryNever, pr_response = response\<rparr>"

definition safe_error :: "provider_code \<Rightarrow> http_response option \<Rightarrow> provider_error" where
  "safe_error code response =
     \<lparr>pr_code = code, pr_retryable = True, pr_retry_safety = RetrySafe, pr_response = response\<rparr>"

definition unknown_error :: "provider_code \<Rightarrow> http_response option \<Rightarrow> provider_error" where
  "unknown_error code response =
     \<lparr>pr_code = code, pr_retryable = True, pr_retry_safety = RetryUnknown, pr_response = response\<rparr>"

lemma make_provider_error_forms:
  "make_provider_error c False None r = Some (plain_error c r)"
  "make_provider_error c True (Some RetrySafe) r = Some (safe_error c r)"
  "make_provider_error c True None r = Some (unknown_error c r)"
  by (simp_all add: make_provider_error_def plain_error_def safe_error_def unknown_error_def)

text \<open>\<open>raise_for_provider_status\<close>: the chain of status tests in the source's order.\<close>

definition raise_for_provider_status :: "http_response \<Rightarrow> provider_type \<Rightarrow> provider_error + unit" where
  "raise_for_provider_status response provider =
     (let s = hr_status response; r = Some response in
      if s = 200 then Inr ()
      else if 300 \<le> s \<and> s < 400 then Inl (plain_error PRedirectRejected r)
      else if s = 401 \<or> s = 403 \<and> provider = Gemini then Inl (plain_error PAuthenticationFailed r)
      else if s = 403 then Inl (plain_error PPermissionDenied r)
      else if s = 402 then Inl (plain_error PBalanceUnavailable r)
      else if s = 400 \<or> s = 422 then Inl (plain_error PRequestInvalid r)
      else if s = 404 then Inl (plain_error PEndpointInvalid r)
      else if s = 408 \<or> s = 504 then Inl (safe_error PTimeout r)
      else if s = 429 then Inl (safe_error PRateLimited r)
      else if s = 500 \<or> s = 502 \<or> s = 503 \<or> s = 529 then Inl (safe_error PUnavailable r)
      else Inl (plain_error PRequestFailed r))"

section \<open>Prices\<close>

text \<open>\<open>Field(max_digits=m, decimal_places=p)\<close> on the normalised value.\<close>

definition dec_scaled :: "nat \<Rightarrow> decimal \<Rightarrow> int option" where
  "dec_scaled p d =
     (if dec_exp d \<ge> - int p then Some (dec_at (- int p) d)
      else let k = nat (- int p - dec_exp d) in
           if dec_coef d mod 10 ^ k = 0
           then Some (if dec_neg d then - int (dec_coef d div 10 ^ k) else int (dec_coef d div 10 ^ k))
           else None)"

definition decimal_digits_field :: "nat \<Rightarrow> nat \<Rightarrow> decimal \<Rightarrow> bool" where
  "decimal_digits_field m p d \<longleftrightarrow>
     (case dec_scaled p (dec_fix d) of None \<Rightarrow> False | Some x \<Rightarrow> \<bar>x\<bar> < 10 ^ m)"

definition price_field :: "decimal \<Rightarrow> bool" where
  "price_field d \<longleftrightarrow> dec_le dec_zero d \<and> decimal_digits_field 18 9 d"

record price_tier =
  tier_up_to :: "int option"
  tier_input :: decimal
  tier_cache_read :: decimal
  tier_cache_write :: decimal
  tier_output :: decimal

record provider_pricing =
  pp_tariff_version :: pystr
  pp_currency :: pystr
  pp_tiers :: "price_tier list"

definition valid_tier :: "price_tier \<Rightarrow> bool" where
  "valid_tier t \<longleftrightarrow> (case tier_up_to t of None \<Rightarrow> True | Some n \<Rightarrow> 0 < n) \<and>
     price_field (tier_input t) \<and> price_field (tier_cache_read t) \<and>
     price_field (tier_cache_write t) \<and> price_field (tier_output t)"

definition is_currency :: "pystr \<Rightarrow> bool" where
  "is_currency s \<longleftrightarrow> length s = 3 \<and> (\<forall>c \<in> set s. 65 \<le> c \<and> c \<le> 90)"

text \<open>\<open>ProviderPricing.validate_tiers\<close>; \<open>sorted(set(limits))\<close> is \<open>sorted_list_of_set\<close>.\<close>

definition finite_limits :: "price_tier list \<Rightarrow> int list" where
  "finite_limits tiers = List.map_filter tier_up_to tiers"

definition validate_tiers :: "price_tier list \<Rightarrow> bool" where
  "validate_tiers tiers \<longleftrightarrow>
     tier_up_to (last tiers) = None \<and> (\<forall>t \<in> set (butlast tiers). tier_up_to t \<noteq> None) \<and>
     finite_limits tiers = sorted_list_of_set (set (finite_limits tiers))"

definition validate_pricing :: "provider_pricing \<Rightarrow> bool" where
  "validate_pricing p \<longleftrightarrow> length_between 1 100 (pp_tariff_version p) \<and> is_currency (pp_currency p) \<and>
     length_between 1 100 (pp_tiers p) \<and> list_all valid_tier (pp_tiers p) \<and> validate_tiers (pp_tiers p)"

record model_capabilities =
  cap_version :: pystr
  cap_model :: pystr
  cap_context_window :: int
  cap_max_output :: int
  cap_structured_output :: structured_output
  cap_schema_dialect :: schema_dialect
  cap_sampling_policy :: sampling_policy
  cap_thinking_policy :: thinking_policy
  cap_output_parameter :: output_token_parameter
  cap_supports_listing :: bool
  cap_pricing :: "provider_pricing option"

definition validate_capabilities :: "model_capabilities \<Rightarrow> bool" where
  "validate_capabilities c \<longleftrightarrow> length_between 1 100 (cap_version c) \<and> length_between 1 255 (cap_model c) \<and>
     0 < cap_context_window c \<and> 0 < cap_max_output c \<and>
     (case cap_pricing c of None \<Rightarrow> True | Some p \<Rightarrow> validate_pricing p)"

record model_profile =
  prof_capabilities :: model_capabilities
  prof_grading_max_output :: int

text \<open>\<open>ProviderModelProfile\<close> with \<open>validate_output_limit\<close>.\<close>

definition validate_profile :: "model_profile \<Rightarrow> bool" where
  "validate_profile p \<longleftrightarrow> validate_capabilities (prof_capabilities p) \<and>
     0 < prof_grading_max_output p \<and> prof_grading_max_output p \<le> 1000000 \<and>
     prof_grading_max_output p \<le> cap_max_output (prof_capabilities p)"

section \<open>Usage and results\<close>

record token_usage =
  use_input :: int
  use_cached_input :: int
  use_cache_write :: int
  use_output :: int
  use_reasoning :: int
  use_total :: "int option"

text \<open>\<open>ProviderTokenUsage\<close> with \<open>validate_subsets\<close>.\<close>

definition validate_usage :: "token_usage \<Rightarrow> bool" where
  "validate_usage t \<longleftrightarrow> 0 \<le> use_input t \<and> 0 \<le> use_cached_input t \<and> 0 \<le> use_cache_write t \<and>
     0 \<le> use_output t \<and> 0 \<le> use_reasoning t \<and>
     (case use_total t of None \<Rightarrow> True | Some n \<Rightarrow> 0 \<le> n) \<and>
     use_cached_input t + use_cache_write t \<le> use_input t \<and> use_reasoning t \<le> use_output t"

record cost_estimate =
  cost_tariff_version :: pystr
  cost_currency :: pystr
  cost_amount :: decimal

text \<open>The digest of a byte string; only equality of digests matters.\<close>

type_synonym digest = nat

record provider_result =
  res_provider :: provider_type
  res_requested_model :: pystr
  res_reported_model :: pystr
  res_request_id :: pystr
  res_output_text :: pystr
  res_usage :: token_usage
  res_cost :: "cost_estimate option"
  res_raw :: pystr
  res_raw_sha256 :: digest
  res_schema_sha256 :: digest

text \<open>\<open>Decimal.__mul__\<close> and \<open>Decimal.__truediv__\<close> for a non-zero divisor.\<close>

definition dec_mul :: "decimal \<Rightarrow> decimal \<Rightarrow> decimal" where
  "dec_mul a b = dec_fix (Dec (dec_neg a \<noteq> dec_neg b) (dec_coef a * dec_coef b) (dec_exp a + dec_exp b))"

fun strip_zeros :: "nat \<Rightarrow> nat \<Rightarrow> int \<Rightarrow> nat \<times> int" where
  "strip_zeros 0 c e = (c, e)"
| "strip_zeros (Suc n) c e = (if c mod 10 = 0 then strip_zeros n (c div 10) (e + 1) else (c, e))"

definition dec_div :: "decimal \<Rightarrow> decimal \<Rightarrow> decimal" where
  "dec_div a b =
     (let neg = (dec_neg a \<noteq> dec_neg b); ideal = dec_exp a - dec_exp b in
      if dec_coef a = 0 then Dec neg 0 ideal
      else let shift = int (ndigits (dec_coef b)) - int (ndigits (dec_coef a)) + 28 + 1;
               x = (if 0 \<le> shift then dec_coef a * 10 ^ nat shift else dec_coef a);
               y = (if 0 \<le> shift then dec_coef b else dec_coef b * 10 ^ nat (- shift));
               q = x div y; r = x mod y; e = ideal - shift
           in if r \<noteq> 0 then dec_fix (Dec neg (if q mod 5 = 0 then q + 1 else q) e)
              else let (q', e') = strip_zeros (nat (ideal - e)) q e in dec_fix (Dec neg q' e'))"

text \<open>
  \<open>ProviderAdapterBase.estimate_cost\<close>: \<open>Inl ()\<close> is the \<open>ValueError\<close> of an uncovered input length;
  the sum associates to the left.
\<close>

definition estimate_cost :: "token_usage \<Rightarrow> provider_pricing option \<Rightarrow> unit + cost_estimate option" where
  "estimate_cost usage pricing = (case pricing of None \<Rightarrow> Inr None
     | Some p \<Rightarrow>
       (case find (\<lambda>t. case tier_up_to t of None \<Rightarrow> True | Some n \<Rightarrow> use_input usage \<le> n) (pp_tiers p) of
          None \<Rightarrow> Inl ()
        | Some t \<Rightarrow>
            let uncached = use_input usage - use_cached_input usage - use_cache_write usage;
                total = dec_add (dec_add (dec_add
                    (dec_mul (dec_of_int uncached) (tier_input t))
                    (dec_mul (dec_of_int (use_cached_input usage)) (tier_cache_read t)))
                    (dec_mul (dec_of_int (use_cache_write usage)) (tier_cache_write t)))
                    (dec_mul (dec_of_int (use_output usage)) (tier_output t))
            in Inr (Some \<lparr>cost_tariff_version = pp_tariff_version p, cost_currency = pp_currency p,
                          cost_amount = dec_div total (dec_of_int 1000000)\<rparr>)))"

section \<open>Status classification\<close>

text \<open>
  The status of a provider's answer decides the fate of the call: only 200 passes; exactly the
  timeouts, the rate limit and the temporary outages are errors that may be retried safely; every
  other status is an error that is never retried; and every such error carries the response, so
  that its body is kept for the audit.
\<close>

theorem provider_status_classified:
  "(raise_for_provider_status response provider = Inr () \<longleftrightarrow> hr_status response = 200) \<and>
   (case raise_for_provider_status response provider of Inr _ \<Rightarrow> True
    | Inl e \<Rightarrow> pr_response e = Some response \<and>
        pr_retryable e = (hr_status response \<in> {408, 429, 500, 502, 503, 504, 529}) \<and>
        pr_retry_safety e = (if hr_status response \<in> {408, 429, 500, 502, 503, 504, 529}
          then RetrySafe else RetryNever))"
  by (auto simp: raise_for_provider_status_def Let_def plain_error_def safe_error_def)

section \<open>Costs\<close>

definition dec_nonneg :: "decimal \<Rightarrow> bool" where
  "dec_nonneg d \<longleftrightarrow> 0 \<le> dec_int d"

lemma dec_nonneg_le: "dec_le dec_zero d \<longleftrightarrow> dec_nonneg d"
proof -
  have "\<not> (10::int) ^ nat (dec_exp d - min 0 (dec_exp d)) \<le> 0" by (simp add: not_le)
  then show ?thesis
    by (simp add: dec_le_def dec_nonneg_def dec_zero_def dec_at_def Let_def zero_le_mult_iff dec_int_def)
qed

lemma dec_nonneg_cases: "dec_nonneg d \<longleftrightarrow> \<not> dec_neg d \<or> dec_coef d = 0"
  by (auto simp: dec_nonneg_def dec_int_def)

lemma dec_fix_neg: "dec_neg (dec_fix d) = dec_neg d"
  by (simp add: dec_fix_def Let_def)

lemma dec_nonneg_fix [simp]: "dec_nonneg (dec_fix d) = dec_nonneg d"
  by (simp add: dec_nonneg_cases dec_fix_neg dec_fix_coef_0)

lemma dec_nonneg_add [intro]: "dec_nonneg a \<Longrightarrow> dec_nonneg b \<Longrightarrow> dec_nonneg (dec_add a b)"
proof -
  assume a: "dec_nonneg a" and b: "dec_nonneg b"
  have "0 \<le> dec_at e a" "0 \<le> dec_at e b" for e
    using a b by (simp_all add: dec_nonneg_def dec_at_def)
  then have "0 \<le> dec_at (min (dec_exp a) (dec_exp b)) a + dec_at (min (dec_exp a) (dec_exp b)) b"
    by (simp add: add_nonneg_nonneg)
  then show ?thesis unfolding dec_add_def Let_def dec_nonneg_fix by (auto simp: dec_nonneg_cases)
qed

lemma dec_nonneg_mul [intro]: "dec_nonneg a \<Longrightarrow> dec_nonneg b \<Longrightarrow> dec_nonneg (dec_mul a b)"
  unfolding dec_mul_def dec_nonneg_fix by (auto simp: dec_nonneg_cases)

lemma dec_nonneg_div [intro]: "dec_nonneg a \<Longrightarrow> dec_nonneg b \<Longrightarrow> dec_coef b \<noteq> 0 \<Longrightarrow> dec_nonneg (dec_div a b)"
  by (auto simp: dec_div_def Let_def dec_nonneg_cases dec_fix_neg dec_fix_coef_0 split: prod.splits)

lemma dec_nonneg_of_int [simp]: "dec_nonneg (dec_of_int n) \<longleftrightarrow> 0 \<le> n"
  by (auto simp: dec_nonneg_cases dec_of_int_def)

lemma covering_tier:
  assumes "validate_tiers tiers" "tiers \<noteq> []"
  shows "\<exists>t. find (\<lambda>t. case tier_up_to t of None \<Rightarrow> True | Some n \<Rightarrow> x \<le> n) tiers = Some t \<and> t \<in> set tiers"
proof -
  have "last tiers \<in> set tiers" "tier_up_to (last tiers) = None" using assms by (auto simp: validate_tiers_def)
  then have "find (\<lambda>t. case tier_up_to t of None \<Rightarrow> True | Some n \<Rightarrow> x \<le> n) tiers \<noteq> None"
    by (auto simp: find_None_iff)
  then show ?thesis using find_SomeD by fastforce
qed

text \<open>
  For a validated price table and validated usage the cost of a call is always computed: some
  tier covers the input length, so the \<open>ValueError\<close> is unreachable, and the amount is never
  negative, so that the \<open>ge=0\<close> constraint of the estimate holds.
\<close>

theorem estimate_cost_total:
  assumes "validate_pricing p" "validate_usage usage"
  shows "\<exists>c. estimate_cost usage (Some p) = Inr (Some c) \<and> dec_le dec_zero (cost_amount c) \<and>
    cost_currency c = pp_currency p \<and> cost_tariff_version c = pp_tariff_version p"
proof -
  have "validate_tiers (pp_tiers p)" "pp_tiers p \<noteq> []" and ok: "list_all valid_tier (pp_tiers p)"
    using assms(1) by (auto simp: validate_pricing_def length_between_def)
  from covering_tier [OF this(1,2)] obtain t where
    t: "find (\<lambda>t. case tier_up_to t of None \<Rightarrow> True | Some n \<Rightarrow> use_input usage \<le> n) (pp_tiers p) = Some t"
      "t \<in> set (pp_tiers p)" by blast
  from ok t(2) have price: "dec_nonneg (tier_input t)" "dec_nonneg (tier_cache_read t)"
    "dec_nonneg (tier_cache_write t)" "dec_nonneg (tier_output t)"
    by (auto simp: list_all_iff valid_tier_def price_field_def dec_nonneg_le)
  have "0 \<le> use_input usage - use_cached_input usage - use_cache_write usage"
    "0 \<le> use_cached_input usage" "0 \<le> use_cache_write usage" "0 \<le> use_output usage"
    using assms(2) by (auto simp: validate_usage_def)
  moreover have "dec_coef (dec_of_int 1000000) \<noteq> 0" by (simp add: dec_of_int_def)
  ultimately show ?thesis
    using t(1) price by (auto simp: estimate_cost_def Let_def dec_nonneg_le intro!: dec_nonneg_div dec_nonneg_add dec_nonneg_mul)
qed

definition example_pricing :: provider_pricing where
  "example_pricing = \<lparr>pp_tariff_version = ustr ''v1'', pp_currency = ustr ''USD'',
     pp_tiers = [\<lparr>tier_up_to = Some 1000, tier_input = dec_of_int 2, tier_cache_read = dec_of_int 1,
        tier_cache_write = dec_of_int 3, tier_output = dec_of_int 8\<rparr>,
       \<lparr>tier_up_to = None, tier_input = dec_of_int 4, tier_cache_read = dec_of_int 2,
        tier_cache_write = dec_of_int 6, tier_output = dec_of_int 16\<rparr>]\<rparr>"

definition example_usage :: token_usage where
  "example_usage = \<lparr>use_input = 1500, use_cached_input = 100, use_cache_write = 0, use_output = 300,
     use_reasoning = 20, use_total = Some 1800\<rparr>"

theorem estimate_cost_total_witness:
  "\<exists>c. estimate_cost example_usage (Some example_pricing) = Inr (Some c) \<and>
     dec_le dec_zero (cost_amount c)"
proof -
  have "validate_pricing example_pricing" "validate_usage example_usage" by code_simp+
  then show ?thesis using estimate_cost_total by blast
qed
end
