(* ===== verification/Domain_Models.thy ===== *)
theory Domain_Models
  imports Review_Models Providers_Base
begin

text \<open>
  \<open>backend/app/domain/models.py\<close> and \<open>domain/enums.py\<close>: the persistent rows the grading pipeline
  reads and writes, their status vocabularies, and the \<open>CheckConstraint\<close>s of each table as
  predicates on rows. Columns of one JSON document are kept as the value that the code stores in
  them. Hashes are \<open>digest\<close>s and object keys a datatype with one constructor per key template,
  because the templates are injective in the identifiers they contain.
\<close>

section \<open>Status vocabularies\<close>

datatype provider_status = ProviderDraft | ProviderEnabled | ProviderDisabled
datatype assignment_status = AssignmentDraft | AssignmentReady | AssignmentArchived
datatype rubric_status = RubricDraft | RubricConfirmed | RubricSuperseded
datatype submission_status = SubUploaded | SubParsing | SubReady | SubFailed
datatype job_status = JobQueued | JobRunning | JobPaused | JobNeedsReview | JobCompleted | JobFailed | JobCancelled
datatype item_status = ItemQueued | ItemRunning | ItemNeedsReview | ItemCompleted | ItemFailed | ItemCancelled
datatype attempt_status = AttRunning | AttSucceeded | AttNeedsReview | AttFailed
datatype review_status = ReviewDraft | ReviewConfirmed
datatype attempt_kind = Initial | Correction | AutomaticRetry | ManualRetry
datatype call_state = CallStarted | CallNotSent | CallResponseReceived | CallAmbiguous

type_synonym time = nat

text \<open>The error codes an attempt or an item can carry.\<close>

datatype call_code =
    CodeCorrectionRequired
  | CodeInvalidAfterCorrection
  | CodeOutcomeUnknown
  | CodeBaseUrlUnavailable
  | CodeOutputInvalid
  | CodeProvider provider_code

text \<open>The JSON objects stored in \<open>error_details\<close>.\<close>

datatype error_details =
    LeaseExpiredDetails
  | UrlRejectedDetails
  | ProviderDetails bool retry_safety
  | IssueDetails "grade_issue list"

datatype object_key =
    SourceKey uuid uuid uuid media_type
  | DocumentBlocksKey uuid uuid uuid
  | ProviderResponseKey uuid uuid uuid uuid

definition blank :: "pystr \<Rightarrow> bool" where
  "blank s \<longleftrightarrow> (\<forall>c \<in> set s. c = 32)"

section \<open>Configuration rows\<close>

record provider_row =
  prov_id :: uuid
  prov_type :: provider_type
  prov_name :: pystr
  prov_base_url :: pystr
  prov_encrypted_key :: "pystr option"
  prov_nonce :: "pystr option"
  prov_allowed_models :: "pystr list"
  prov_default_model :: "pystr option"
  prov_timeout_ms :: nat
  prov_max_concurrency :: int
  prov_model_profiles :: "(pystr \<times> model_profile) list"
  prov_status :: provider_status
  prov_config_version :: int
  prov_tested_version :: "int option"
  prov_tested_at :: "time option"

definition check_provider :: "provider_row \<Rightarrow> bool" where
  "check_provider p \<longleftrightarrow>
     0 < prov_timeout_ms p \<and> 0 < prov_max_concurrency p \<and>
     (case (prov_encrypted_key p, prov_nonce p) of
        (None, None) \<Rightarrow> True
      | (Some k, Some n) \<Rightarrow> length n = 12 \<and> 17 \<le> length k
      | _ \<Rightarrow> False) \<and>
     (prov_status p \<noteq> ProviderEnabled \<or>
        prov_tested_at p \<noteq> None \<and> prov_encrypted_key p \<noteq> None \<and> prov_default_model p \<noteq> None \<and>
        prov_tested_version p = Some (prov_config_version p)) \<and>
     0 < prov_config_version p \<and>
     (case prov_tested_version p of None \<Rightarrow> True | Some v \<Rightarrow> 0 < v) \<and>
     ((prov_tested_at p = None) = (prov_tested_version p = None)) \<and>
     \<not> blank (prov_name p) \<and> \<not> blank (prov_base_url p) \<and>
     (case prov_default_model p of None \<Rightarrow> True
      | Some m \<Rightarrow> \<not> blank m \<and> m \<in> set (prov_allowed_models p))"

record assignment_row =
  asg_id :: uuid
  asg_owner :: uuid
  asg_title :: pystr
  asg_instructions :: pystr
  asg_status :: assignment_status

definition check_assignment :: "assignment_row \<Rightarrow> bool" where
  "check_assignment a \<longleftrightarrow> \<not> blank (asg_title a) \<and> \<not> blank (asg_instructions a)"

record rubric_row =
  rv_id :: uuid
  rv_owner :: uuid
  rv_assignment :: uuid
  rv_provider :: "uuid option"
  rv_model :: "pystr option"
  rv_version :: int
  rv_status :: rubric_status
  rv_original :: pystr
  rv_structured :: "structured_rubric option"
  rv_total_score :: decimal
  rv_score_step :: decimal
  rv_confirmed_at :: "time option"

text \<open>\<open>content_ok\<close> is the SQL function \<open>paper_grading_valid_structured_rubric\<close>.\<close>

definition check_rubric_row ::
    "(structured_rubric \<Rightarrow> decimal \<Rightarrow> decimal \<Rightarrow> bool) \<Rightarrow> rubric_row \<Rightarrow> bool" where
  "check_rubric_row content_ok v \<longleftrightarrow>
     0 < rv_version v \<and> dec_less dec_zero (rv_total_score v) \<and> dec_less dec_zero (rv_score_step v) \<and>
     dec_le (rv_score_step v) (rv_total_score v) \<and>
     map_option dec_coef (dec_rem (rv_total_score v) (rv_score_step v)) = Some 0 \<and>
     (if rv_status v = RubricDraft then rv_confirmed_at v = None
      else rv_confirmed_at v \<noteq> None \<and> rv_structured v \<noteq> None \<and> rv_provider v \<noteq> None \<and>
        (case rv_model v of None \<Rightarrow> False | Some m \<Rightarrow> \<not> blank m)) \<and>
     \<not> blank (rv_original v) \<and>
     (case (rv_provider v, rv_model v) of
        (None, None) \<Rightarrow> True | (Some _, Some m) \<Rightarrow> \<not> blank m | _ \<Rightarrow> False) \<and>
     (rv_structured v = None \<or> rv_provider v \<noteq> None) \<and>
     (case rv_structured v of None \<Rightarrow> True
      | Some r \<Rightarrow> content_ok r (rv_total_score v) (rv_score_step v))"

section \<open>Submissions\<close>

datatype parse_code = ParseCode string

record submission_row =
  sub_id :: uuid
  sub_owner :: uuid
  sub_assignment :: uuid
  sub_filename :: pystr
  sub_media :: media_type
  sub_size :: int
  sub_sha256 :: digest
  sub_source_key :: object_key
  sub_extracted_key :: "object_key option"
  sub_status :: submission_status
  sub_error :: "parse_code option"
  sub_created :: time

definition check_submission :: "submission_row \<Rightarrow> bool" where
  "check_submission s \<longleftrightarrow>
     0 < sub_size s \<and> sub_size s \<le> 20971520 \<and>
     length_between 1 255 (sub_filename s) \<and> \<not> blank (sub_filename s) \<and>
     (case sub_status s of
        SubUploaded \<Rightarrow> sub_extracted_key s = None \<and> sub_error s = None
      | SubParsing \<Rightarrow> sub_extracted_key s = None \<and> sub_error s = None
      | SubReady \<Rightarrow> sub_extracted_key s \<noteq> None \<and> sub_error s = None
      | SubFailed \<Rightarrow> sub_extracted_key s = None \<and>
          (case sub_error s of None \<Rightarrow> False | Some (ParseCode c) \<Rightarrow> \<exists>x \<in> set c. x \<noteq> CHR '' '')) \<and>
     sub_source_key s = SourceKey (sub_owner s) (sub_assignment s) (sub_id s) (sub_media s) \<and>
     (sub_extracted_key s = None \<or>
      sub_extracted_key s = Some (DocumentBlocksKey (sub_owner s) (sub_assignment s) (sub_id s)))"

section \<open>Batches, papers and calls\<close>

text \<open>
  \<open>GradingProviderSnapshot\<close> of \<open>workers/models.py\<close>, stored in \<open>model_parameters\<close>, and
  \<open>GradingContractSnapshot\<close> of \<open>grading/prompt.py\<close>. Times are in milliseconds: the timeout has
  three decimal places.
\<close>

record provider_snapshot =
  snap_type :: provider_type
  snap_base_url :: pystr
  snap_timeout_ms :: nat
  snap_max_concurrency :: int
  snap_profile :: model_profile

definition validate_snapshot :: "provider_snapshot \<Rightarrow> bool" where
  "validate_snapshot s \<longleftrightarrow> length_between 1 2048 (snap_base_url s) \<and>
     0 < snap_timeout_ms s \<and> snap_timeout_ms s \<le> 300000 \<and>
     1 \<le> snap_max_concurrency s \<and> snap_max_concurrency s \<le> 100 \<and> validate_profile (snap_profile s)"

record contract_snapshot =
  con_prompt_version :: pystr
  con_prompt_hash :: digest
  con_schema_version :: pystr
  con_schema :: json
  con_schema_hash :: digest
  con_rubric_hash :: digest

record job_row =
  job_id :: uuid
  job_owner :: uuid
  job_assignment :: uuid
  job_rubric_version :: uuid
  job_provider :: uuid
  job_provider_version :: int
  job_title :: pystr
  job_instructions :: pystr
  job_expected :: nat
  job_request_hash :: digest
  job_model :: pystr
  job_parameters :: provider_snapshot
  job_parameters_hash :: digest
  job_contract :: contract_snapshot
  job_key :: pystr
  job_status :: job_status
  job_state_version :: nat
  job_started :: "time option"
  job_finished :: "time option"
  job_created :: time
  job_updated :: time

definition check_job :: "job_row \<Rightarrow> bool" where
  "check_job j \<longleftrightarrow>
     0 < job_provider_version j \<and> \<not> blank (job_model j) \<and>
     \<not> blank (con_prompt_version (job_contract j)) \<and> \<not> blank (con_schema_version (job_contract j)) \<and>
     \<not> blank (job_key j) \<and> 1 \<le> job_expected j \<and> job_expected j \<le> 100 \<and> 0 < job_state_version j \<and>
     \<not> blank (job_title j) \<and> \<not> blank (job_instructions j) \<and>
     (case job_status j of
        JobQueued \<Rightarrow> job_started j = None \<and> job_finished j = None
      | JobRunning \<Rightarrow> job_started j \<noteq> None \<and> job_finished j = None
      | JobPaused \<Rightarrow> job_started j \<noteq> None \<and> job_finished j = None
      | JobNeedsReview \<Rightarrow> job_started j \<noteq> None \<and> job_finished j = None
      | _ \<Rightarrow> job_finished j \<noteq> None)"

record item_row =
  item_id :: uuid
  item_owner :: uuid
  item_assignment :: uuid
  item_job :: uuid
  item_submission :: uuid
  item_position :: nat
  item_status :: item_status
  item_version :: nat
  item_retries :: nat
  item_available :: time
  item_lease :: "uuid option"
  item_lease_expires :: "time option"
  item_started :: "time option"
  item_finished :: "time option"
  item_error :: "call_code option"
  item_updated :: time

definition check_item :: "item_row \<Rightarrow> bool" where
  "check_item i \<longleftrightarrow>
     0 < item_version i \<and>
     (case item_status i of
        ItemQueued \<Rightarrow> item_finished i = None \<and> item_lease i = None \<and> item_lease_expires i = None \<and>
          item_error i = None
      | ItemRunning \<Rightarrow> item_started i \<noteq> None \<and> item_finished i = None \<and> item_lease i \<noteq> None \<and>
          item_lease_expires i \<noteq> None \<and> item_error i = None
      | ItemNeedsReview \<Rightarrow> item_finished i \<noteq> None \<and> item_lease i = None \<and> item_lease_expires i = None
      | ItemCompleted \<Rightarrow> item_finished i \<noteq> None \<and> item_lease i = None \<and> item_lease_expires i = None \<and>
          item_error i = None
      | ItemFailed \<Rightarrow> item_finished i \<noteq> None \<and> item_lease i = None \<and> item_lease_expires i = None \<and>
          item_error i \<noteq> None
      | ItemCancelled \<Rightarrow> item_finished i \<noteq> None \<and> item_lease i = None \<and> item_lease_expires i = None)"

text \<open>
  The columns that one call fills in: the provider's identification of the answer, its usage and
  cost, the stored response, and the validated result.
\<close>

record attempt_row =
  att_id :: uuid
  att_owner :: uuid
  att_item :: uuid
  att_parent :: "uuid option"
  att_number :: nat
  att_round :: nat
  att_sequence :: nat
  att_kind :: attempt_kind
  att_status :: attempt_status
  att_call_started :: time
  att_call_state :: call_state
  att_request_hash :: digest
  att_max_score :: decimal
  att_subtotal :: "decimal option"
  att_deduction_total :: "decimal option"
  att_total_score :: "decimal option"
  att_criteria :: "dimension_result list option"
  att_deductions :: "deduction_result list option"
  att_feedback :: "pystr option"
  att_raw_key :: "object_key option"
  att_raw_sha256 :: "digest option"
  att_request_id :: "pystr option"
  att_reported_model :: "pystr option"
  att_usage :: "token_usage option"
  att_cost :: "cost_estimate option"
  att_error :: "call_code option"
  att_details :: "error_details option"
  att_finished :: "time option"

text \<open>\<open>f"{item.id}:{item.dispatch_version}:{call_sequence}:{request_hash.hex()}"\<close>.\<close>

definition att_key :: "attempt_row \<Rightarrow> uuid \<times> nat \<times> nat \<times> digest" where
  "att_key a = (att_item a, att_round a, att_sequence a, att_request_hash a)"

definition check_attempt :: "attempt_row \<Rightarrow> bool" where
  "check_attempt a \<longleftrightarrow>
     0 < att_number a \<and> 0 < att_round a \<and> 0 < att_sequence a \<and>
     dec_less dec_zero (att_max_score a) \<and>
     (case att_total_score a of None \<Rightarrow> True
      | Some t \<Rightarrow> dec_le dec_zero t \<and> dec_le t (att_max_score a)) \<and>
     (case att_usage a of None \<Rightarrow> True | Some t \<Rightarrow> validate_usage t) \<and>
     (case att_cost a of None \<Rightarrow> True | Some c \<Rightarrow> dec_le dec_zero (cost_amount c) \<and>
        is_currency (cost_currency c) \<and> \<not> blank (cost_tariff_version c)) \<and>
     ((att_raw_key a = None) = (att_raw_sha256 a = None)) \<and>
     (case att_status a of
        AttRunning \<Rightarrow> att_finished a = None
      | AttFailed \<Rightarrow> att_finished a \<noteq> None \<and> att_error a \<noteq> None
      | _ \<Rightarrow> att_finished a \<noteq> None \<and> att_call_state a = CallResponseReceived \<and>
          (case (att_total_score a, att_subtotal a, att_deduction_total a) of
             (Some t, Some s, Some d) \<Rightarrow> dec_eq t (dec_max dec_zero (dec_sub s d))
           | _ \<Rightarrow> False) \<and>
          att_criteria a \<noteq> None \<and> att_deductions a \<noteq> None \<and> att_feedback a \<noteq> None \<and>
          att_raw_key a \<noteq> None \<and> att_request_id a \<noteq> None \<and> att_reported_model a \<noteq> None \<and>
          att_usage a \<noteq> None)"

record review_row =
  rev_id :: uuid
  rev_owner :: uuid
  rev_item :: uuid
  rev_attempt :: uuid
  rev_revision :: nat
  rev_status :: review_status
  rev_max_score :: decimal
  rev_subtotal :: decimal
  rev_deduction_total :: decimal
  rev_final_score :: decimal
  rev_criteria :: "criterion_input list"
  rev_deductions :: "deduction_input list"
  rev_feedback :: pystr
  rev_evidence :: "evidence_input list"
  rev_change_reason :: "pystr option"
  rev_confirmed_at :: "time option"

definition check_review :: "review_row \<Rightarrow> bool" where
  "check_review r \<longleftrightarrow>
     0 < rev_revision r \<and> dec_less dec_zero (rev_max_score r) \<and>
     dec_le dec_zero (rev_final_score r) \<and> dec_le (rev_final_score r) (rev_max_score r) \<and>
     ((rev_status r = ReviewDraft) = (rev_confirmed_at r = None)) \<and>
     dec_le dec_zero (rev_subtotal r) \<and> dec_le dec_zero (rev_deduction_total r) \<and>
     dec_eq (rev_final_score r) (dec_max dec_zero (dec_sub (rev_subtotal r) (rev_deduction_total r)))"

end
