(* ===== verification/Canonical_Text.thy ===== *)
theory Canonical_Text
  imports Domain_Grading
begin

text \<open>
  The canonical text of a decimal, the branch of \<open>_canonical_value\<close> in
  \<open>backend/app/domain/grading.py\<close> under which rubrics, requests and results are hashed and
  compared: fixed-point text without trailing zeros, and one text for zero. Two decimals get the
  same text exactly when they are equal as numbers, whatever their sign of zero, coefficient and
  exponent are.
\<close>

definition canonical_decimal :: "decimal \<Rightarrow> pystr" where
  "canonical_decimal d =
     (let t = format_f d;
          s = (if 46 \<in> set t then py_rstrip_char 46 (py_rstrip_char 48 t) else t)
      in if s = [45, 48] \<or> s = [] then [48] else s)"

section \<open>Digits of a number\<close>

text \<open>The last \<open>k\<close> digits.\<close>

fun fixed :: "nat \<Rightarrow> nat \<Rightarrow> pystr" where
  "fixed 0 n = []"
| "fixed (Suc k) n = fixed k (n div 10) @ [48 + n mod 10]"

lemma length_fixed [simp]: "length (fixed k n) = k"
  by (induction k arbitrary: n) auto

lemma fixed_digits: "c \<in> set (fixed k n) \<Longrightarrow> is_digit c"
  by (induction k arbitrary: n) (auto simp: is_digit_def)

lemma show_nat_digits: "c \<in> set (show_nat n) \<Longrightarrow> is_digit c"
proof (induction n rule: show_nat.induct)
  case (1 n)
  then show ?case by (subst (asm) show_nat.simps) (auto simp: is_digit_def split: if_splits)
qed

lemma show_nat_not_Nil [simp]: "show_nat n \<noteq> []" "[] \<noteq> show_nat n"
  by (subst show_nat.simps, simp)+

lemma show_nat_split: "10 ^ k \<le> c \<Longrightarrow> show_nat c = show_nat (c div 10 ^ k) @ fixed k c"
proof (induction k arbitrary: c)
  case (Suc k)
  have "10 ^ k \<le> c div 10" using Suc.prems by (simp add: less_eq_div_iff_mult_less_eq mult.commute)
  moreover have "\<not> c < 10" using Suc.prems by (simp add: not_less) (metis le_trans mult_le_mono2 mult.right_neutral one_le_numeral one_le_power)
  ultimately show ?case
    using Suc.IH [of "c div 10"] by (subst show_nat.simps) (simp add: div_mult2_eq)
qed simp

lemma fixed_zero: "fixed k 0 = replicate k 48"
  by (induction k) (auto simp: replicate_append_same)

lemma fixed_pad:
  "c < 10 ^ k \<Longrightarrow> 0 < k \<Longrightarrow> length (show_nat c) \<le> k \<and>
     fixed k c = replicate (k - length (show_nat c)) 48 @ show_nat c"
proof (induction k arbitrary: c)
  case (Suc k)
  show ?case
  proof (cases "c < 10")
    case True
    then show ?thesis by (subst (1 2 3) show_nat.simps) (simp add: fixed_zero)
  next
    case False
    have "c div 10 < 10 ^ k" using Suc.prems by (simp add: less_mult_imp_div_less mult.commute)
    moreover have "0 < k"
    proof (rule ccontr)
      assume "\<not> 0 < k"
      with Suc.prems(1) False show False by simp
    qed
    ultimately have "length (show_nat (c div 10)) \<le> k \<and>
        fixed k (c div 10) = replicate (k - length (show_nat (c div 10))) 48 @ show_nat (c div 10)"
      by (rule Suc.IH)
    with False show ?thesis by (subst (1 2 3) show_nat.simps) simp
  qed
qed simp

lemma fixed_shift: "fixed (k + j) (c * 10 ^ j) = fixed k c @ replicate j 48"
  by (induction j) (auto simp: replicate_append_same [symmetric] mult.assoc [symmetric] simp del: replicate_append_same)

lemma show_nat_shift: "0 < c \<Longrightarrow> show_nat (c * 10 ^ j) = show_nat c @ replicate j 48"
  using show_nat_split [of j "c * 10 ^ j"] fixed_shift [of 0 j c] by simp

lemma digits_inj: "fixed k m = fixed k n \<Longrightarrow> m mod 10 ^ k = n mod 10 ^ k"
proof (induction k arbitrary: m n)
  case (Suc k)
  from Suc.prems have "fixed k (m div 10) = fixed k (n div 10)" "m mod 10 = n mod 10" by auto
  with Suc.IH have "m div 10 mod 10 ^ k = n div 10 mod 10 ^ k" by blast
  then show ?case using \<open>m mod 10 = n mod 10\<close> by (simp add: mod_mult2_eq)
qed simp

lemma show_nat_inj: "show_nat m = show_nat n \<Longrightarrow> m = n"
proof (induction m arbitrary: n rule: show_nat.induct)
  case (1 m)
  note eq = "1.prems" [unfolded show_nat.simps [of m] show_nat.simps [of n]]
  show ?case
  proof (cases "m < 10")
    case True
    with eq show ?thesis by (auto split: if_splits)
  next
    case False
    with eq have "\<not> n < 10" by (auto split: if_splits)
    with False eq have "show_nat (m div 10) = show_nat (n div 10)" "m mod 10 = n mod 10" by auto
    with "1.IH" [OF False] have "m div 10 = n div 10" by blast
    with \<open>m mod 10 = n mod 10\<close> show ?thesis by (metis div_mult_mod_eq)
  qed
qed

section \<open>The text as a function of a common scale\<close>

definition strip0 :: "pystr \<Rightarrow> pystr" where
  "strip0 s = rev (dropWhile (\<lambda>x. x = 48) (rev s))"

text \<open>The text of \<open>N\<close> units of \<open>10 ^ -k\<close>.\<close>

definition render_nat :: "nat \<Rightarrow> nat \<Rightarrow> pystr" where
  "render_nat k N = show_nat (N div 10 ^ k) @
     (let f = strip0 (fixed k N) in if f = [] then [] else 46 # f)"

definition render :: "nat \<Rightarrow> int \<Rightarrow> pystr" where
  "render k x = (if x < 0 then [45] else []) @ render_nat k (nat \<bar>x\<bar>)"

lemma drop_zeros: "dropWhile (\<lambda>x. x = c) (replicate j c @ t) = dropWhile (\<lambda>x. x = c) t"
  by (induction j) simp_all

lemma strip0_zeros [simp]: "strip0 (s @ replicate j 48) = strip0 s"
  by (simp add: strip0_def drop_zeros)

lemma strip0_digits: "c \<in> set (strip0 s) \<Longrightarrow> c \<in> set s"
  unfolding strip0_def by (metis set_rev set_dropWhileD)

lemma strip0_restore: "s = strip0 s @ replicate (length s - length (strip0 s)) 48"
proof (induction s rule: rev_induct)
  case Nil
  show ?case by (simp add: strip0_def)
next
  case (snoc c s)
  show ?case
  proof (cases "c = 48")
    case True
    then have "strip0 (s @ [c]) = strip0 s" by (simp add: strip0_def)
    moreover have "length (strip0 s) \<le> length s"
      unfolding strip0_def using length_dropWhile_le [of _ "rev s"] by simp
    ultimately show ?thesis
      using snoc True
      by (simp add: Suc_diff_le replicate_append_same [symmetric] flip: append_assoc del: replicate_append_same)
  next
    case False
    then show ?thesis by (simp add: strip0_def)
  qed
qed

lemma strip0_inj:
  assumes "strip0 s = strip0 t" "length s = length t"
  shows "s = t"
proof -
  have "s = strip0 s @ replicate (length s - length (strip0 s)) 48" by (rule strip0_restore)
  also have "\<dots> = strip0 t @ replicate (length t - length (strip0 t)) 48" using assms by simp
  also have "\<dots> = t" by (rule strip0_restore [symmetric])
  finally show ?thesis .
qed

lemma render_nat_shift: "render_nat (k + j) (N * 10 ^ j) = render_nat k N"
  by (simp add: render_nat_def fixed_shift power_add)

lemma render_shift: "render (k + j) (x * 10 ^ j) = render k x"
proof -
  have "nat \<bar>x * 10 ^ j\<bar> = nat \<bar>x\<bar> * 10 ^ j" by (simp add: abs_mult nat_mult_distrib nat_power_eq)
  then show ?thesis by (simp add: render_def render_nat_shift mult_less_0_iff)
qed

lemma render_nat_head: "\<exists>c s. render_nat k N = c # s \<and> is_digit c"
  using show_nat_digits [of _ "N div 10 ^ k"] by (cases "show_nat (N div 10 ^ k)") (auto simp: render_nat_def)

lemma render_nat_inj:
  assumes "render_nat k M = render_nat k N"
  shows "M = N"
proof -
  have d: "46 \<notin> set (show_nat n)" for n using show_nat_digits [of 46 n] by (auto simp: is_digit_def)
  have p: "takeWhile (\<lambda>c. c \<noteq> 46) (render_nat k n) = show_nat (n div 10 ^ k)"
    "dropWhile (\<lambda>c. c \<noteq> 46) (render_nat k n)
       = (if strip0 (fixed k n) = [] then [] else 46 # strip0 (fixed k n))" for n
  proof -
    have "\<forall>c \<in> set (show_nat (n div 10 ^ k)). c \<noteq> 46" using d by metis
    then show "takeWhile (\<lambda>c. c \<noteq> 46) (render_nat k n) = show_nat (n div 10 ^ k)"
      "dropWhile (\<lambda>c. c \<noteq> 46) (render_nat k n)
         = (if strip0 (fixed k n) = [] then [] else 46 # strip0 (fixed k n))"
      by (simp_all add: render_nat_def Let_def takeWhile_append2 dropWhile_append2)
  qed
  have "show_nat (M div 10 ^ k) = show_nat (N div 10 ^ k)" using p(1) assms by metis
  then have "M div 10 ^ k = N div 10 ^ k" by (rule show_nat_inj)
  moreover have "strip0 (fixed k M) = strip0 (fixed k N)"
    using p(2) [of M] p(2) [of N] assms by (auto split: if_splits)
  then have "fixed k M = fixed k N" by (rule strip0_inj) simp
  then have "M mod 10 ^ k = N mod 10 ^ k" by (rule digits_inj)
  ultimately show ?thesis by (metis div_mult_mod_eq)
qed

lemma render_inj:
  assumes "render k x = render k y"
  shows "x = y"
proof -
  obtain c s where c: "render_nat k (nat \<bar>x\<bar>) = c # s" "is_digit c" using render_nat_head by blast
  obtain d t where d: "render_nat k (nat \<bar>y\<bar>) = d # t" "is_digit d" using render_nat_head by blast
  have "x < 0 \<longleftrightarrow> y < 0" using assms c d by (auto simp: render_def is_digit_def split: if_splits)
  moreover from this have "render_nat k (nat \<bar>x\<bar>) = render_nat k (nat \<bar>y\<bar>)"
    using assms by (auto simp: render_def split: if_splits)
  then have "nat \<bar>x\<bar> = nat \<bar>y\<bar>" by (rule render_nat_inj)
  ultimately show ?thesis by (auto simp: nat_eq_iff split: if_splits)
qed

section \<open>The text depends on the value only\<close>

lemma rstrip_zeros: "py_rstrip_char 48 (s @ 46 # f) = s @ 46 # strip0 f"
proof -
  have "rev (s @ 46 # f) = rev f @ 46 # rev s" by simp
  then show ?thesis
    by (simp add: py_rstrip_char_def strip0_def dropWhile_append)
qed

lemma rstrip_dot:
  assumes "46 \<notin> set s" "46 \<notin> set f"
  shows "py_rstrip_char 46 (s @ 46 # f) = s @ (if f = [] then [] else 46 # f)"
proof (cases f rule: rev_cases)
  case Nil
  then show ?thesis using assms(1)
    by (cases s rule: rev_cases) (auto simp: py_rstrip_char_def)
next
  case (snoc g c)
  with assms(2) have "c \<noteq> 46" by simp
  with snoc show ?thesis by (simp add: py_rstrip_char_def)
qed

text \<open>\<open>format_f\<close> of a decimal with a negative exponent, and of one without.\<close>

lemma format_f_frac:
  assumes "dec_exp d < 0"
  defines "k \<equiv> nat (- dec_exp d)"
  shows "format_f d = (if dec_neg d then [45] else []) @ show_nat (dec_coef d div 10 ^ k) @ 46 # fixed k (dec_coef d)"
proof -
  let ?c = "dec_coef d" and ?ds = "show_nat (dec_coef d)"
  have k: "0 < k" "dec_exp d = - int k" using assms by simp_all
  show ?thesis
  proof (cases "10 ^ k \<le> ?c")
    case True
    note sp = show_nat_split [OF True]
    define I where "I = show_nat (?c div 10 ^ k)"
    have ds: "?ds = I @ fixed k ?c" using sp by (simp add: I_def)
    have "I \<noteq> []" by (simp add: I_def)
    then have "0 < length I" by simp
    then have dp: "dec_exp d + int (length ?ds) = int (length I)" using k ds by simp
    have fx: "fixed k ?c \<noteq> []" using k(1) length_fixed [of k ?c] by (cases "fixed k ?c") auto
    show ?thesis
      unfolding format_f_def Let_def using k dp fx \<open>0 < length I\<close>
      by (simp add: ds flip: I_def)
  next
    case False
    then have c: "?c < 10 ^ k" by simp
    note fp = fixed_pad [OF c k(1)]
    have z: "show_nat (?c div 10 ^ k) = [48]" using c by (subst show_nat.simps) simp
    have len: "length ?ds \<le> k" using fp by blast
    show ?thesis
      unfolding format_f_def Let_def using k len z fp
      by (cases "length ?ds = k") (auto simp: nat_diff_distrib)
  qed
qed

lemma format_f_int:
  assumes "0 \<le> dec_exp d"
  shows "format_f d = (if dec_neg d then [45] else []) @ show_nat (dec_coef d * 10 ^ nat (dec_exp d))"
proof (cases "dec_coef d = 0")
  case True
  then show ?thesis using assms by (auto simp: format_f_def Let_def)
next
  case False
  then show ?thesis using assms show_nat_shift [of "dec_coef d" "nat (dec_exp d)"]
    by (auto simp: format_f_def Let_def)
qed


lemma render_nat_0: "render_nat j N = [48] \<longleftrightarrow> N = 0"
proof -
  have "strip0 (replicate j 48) = []" using strip0_zeros [of "[]" j] by (simp add: strip0_def)
  then have "render_nat j 0 = [48]"
    by (simp add: render_nat_def fixed_zero Let_def show_nat.simps [of 0])
  then show ?thesis using render_nat_inj by metis
qed

lemma finish_render:
  "(let s = (if neg then [45] else []) @ render_nat j N in if s = [45, 48] \<or> s = [] then [48] else s)
     = render j (if neg then - int N else int N)"
proof (cases "N = 0")
  case True
  then show ?thesis using render_nat_0 [of j 0] by (simp add: render_def Let_def)
next
  case False
  then have "render_nat j N \<noteq> [48]" "render_nat j N \<noteq> []"
    using render_nat_0 render_nat_head [of j N] by auto
  moreover have "render_nat j N \<noteq> [45, 48]"
    using render_nat_head [of j N] by (auto simp: is_digit_def)
  ultimately show ?thesis using False by (simp add: render_def Let_def)
qed

lemma no_dot: "46 \<notin> set (show_nat n)" "46 \<notin> set (fixed j n)" "46 \<notin> set (strip0 (fixed j n))"
  using show_nat_digits [of 46 n] fixed_digits [of 46 j n] strip0_digits [of 46 "fixed j n"]
  by (auto simp: is_digit_def)

lemma canonical_render:
  assumes "- int k \<le> dec_exp d"
  shows "canonical_decimal d = render k (dec_at (- int k) d)"
proof (cases "dec_exp d < 0")
  case True
  define j where "j = nat (- dec_exp d)"
  define sg where "sg = (if dec_neg d then [45] else [] :: pystr)"
  define S where "S = sg @ show_nat (dec_coef d div 10 ^ j)"
  have "46 \<notin> set S" using no_dot(1) by (simp add: S_def sg_def)
  have f: "format_f d = S @ 46 # fixed j (dec_coef d)"
    using format_f_frac [OF True] by (simp add: S_def sg_def j_def)
  have "py_rstrip_char 46 (py_rstrip_char 48 (format_f d)) = sg @ render_nat j (dec_coef d)"
    unfolding f rstrip_zeros rstrip_dot [OF \<open>46 \<notin> set S\<close> no_dot(3)]
    by (simp add: S_def render_nat_def Let_def)
  then have "canonical_decimal d = (let s = sg @ render_nat j (dec_coef d) in
      if s = [45, 48] \<or> s = [] then [48] else s)"
    using f by (simp add: canonical_decimal_def Let_def)
  also have "\<dots> = render j (dec_int d)"
    unfolding sg_def dec_int_def by (rule finish_render)
  also have "\<dots> = render (j + (k - j)) (dec_int d * 10 ^ (k - j))" by (rule render_shift [symmetric])
  also have "nat (dec_exp d + int k) = k - j" using True by (simp add: j_def)
  then have "dec_int d * 10 ^ (k - j) = dec_at (- int k) d" by (simp add: dec_at_def)
  also have "j + (k - j) = k" using assms True by (simp add: j_def)
  finally show ?thesis .
next
  case False
  define N where "N = dec_coef d * 10 ^ nat (dec_exp d)"
  have f: "format_f d = (if dec_neg d then [45] else []) @ render_nat 0 N"
    using format_f_int [of d] False by (simp add: N_def render_nat_def strip0_def)
  have "46 \<notin> set (format_f d)"
    unfolding f using no_dot(1) by (simp add: render_nat_def strip0_def)
  then have "canonical_decimal d = (let s = (if dec_neg d then [45] else []) @ render_nat 0 N in
      if s = [45, 48] \<or> s = [] then [48] else s)"
    by (simp add: canonical_decimal_def f)
  also have "\<dots> = render 0 (if dec_neg d then - int N else int N)" by (rule finish_render)
  also have "(if dec_neg d then - int N else int N) = dec_at 0 d"
    by (simp add: N_def dec_at_def dec_int_def)
  also have "render 0 (dec_at 0 d) = render (0 + k) (dec_at 0 d * 10 ^ k)"
    by (rule render_shift [symmetric])
  also have "dec_at 0 d * 10 ^ k = dec_at (- int k) d"
    using dec_at_shift [of "- int k" 0 d] False by simp
  finally show ?thesis by simp
qed

lemma canonical_text_eq: "canonical_decimal a = canonical_decimal b \<longleftrightarrow> dec_eq a b"
proof -
  let ?e = "min (dec_exp a) (dec_exp b)"
  define k where "k = nat (- ?e)"
  have ka: "- int k \<le> dec_exp a" "- int k \<le> dec_exp b" "- int k \<le> ?e" by (auto simp: k_def)
  have "canonical_decimal a = canonical_decimal b \<longleftrightarrow> dec_at (- int k) a = dec_at (- int k) b"
    unfolding canonical_render [OF ka(1)] canonical_render [OF ka(2)] by (auto dest: render_inj)
  also have "\<dots> \<longleftrightarrow> dec_at ?e a = dec_at ?e b"
    using dec_at_shift [OF ka(3), of a] dec_at_shift [OF ka(3), of b] by simp
  finally show ?thesis by (simp add: dec_eq_def Let_def)
qed

text \<open>
  C2. The canonical text of a decimal, over which rubric versions, grading requests and review
  snapshots are hashed, is the same for two decimals exactly when they compare equal: trailing
  zeros, exponent form and the sign of zero never change a hash, and different scores never share
  a text.
\<close>

theorem canonical_decimal_iff: "canonical_decimal a = canonical_decimal b \<longleftrightarrow> dec_eq a b"
  by (rule canonical_text_eq)

end
