(* ===== verification/Canonical_Json.thy ===== *)
theory Canonical_Json
  imports Canonical_Text "HOL-Library.List_Lexorder"
begin

text \<open>
  \<open>canonical_json_bytes\<close> and \<open>canonical_sha256\<close> of \<open>backend/app/domain/grading.py\<close>: the one JSON
  text under which prompts, requests and snapshots are sent and hashed. \<open>json.dumps\<close> is modelled
  with the arguments the code passes: no ASCII escaping, sorted keys, no white space. The main
  result is that this text determines the value, so a string inside it can never be read as
  structure, and two requests with one text are one request.
\<close>

section \<open>The encoder\<close>

text \<open>\<open>json.encoder.ESCAPE_DCT\<close>: quote, backslash and the control characters below 32.\<close>

definition hex_digit :: "nat \<Rightarrow> nat" where
  "hex_digit n = (if n < 10 then 48 + n else 87 + n)"

definition escape_char :: "nat \<Rightarrow> pystr" where
  "escape_char c =
     (if c = 34 then [92, 34] else if c = 92 then [92, 92]
      else if c = 8 then [92, 98] else if c = 9 then [92, 116] else if c = 10 then [92, 110]
      else if c = 12 then [92, 102] else if c = 13 then [92, 114]
      else if c < 32 then [92, 117, 48, 48, hex_digit (c div 16), hex_digit (c mod 16)]
      else [c])"

definition json_string :: "pystr \<Rightarrow> pystr" where
  "json_string s = 34 # concat (map escape_char s) @ [34]"

definition show_int :: "int \<Rightarrow> pystr" where
  "show_int i = (if i < 0 then [45] else []) @ show_nat (nat \<bar>i\<bar>)"

text \<open>
  \<open>float.__repr__\<close> of a float given by its shortest decimal: positional between \<open>1e-4\<close> and \<open>1e16\<close>,
  scientific with a two digit exponent outside.
\<close>

definition float_digits :: "decimal \<Rightarrow> pystr" where
  "float_digits d = py_rstrip_char 48 (show_nat (dec_coef d))"

definition float_point :: "decimal \<Rightarrow> int" where
  "float_point d = int (length (show_nat (dec_coef d))) + dec_exp d"

definition float_repr :: "decimal \<Rightarrow> pystr" where
  "float_repr d = (if dec_neg d then [45] else []) @
     (if dec_coef d = 0 then [48, 46, 48]
      else let ds = float_digits d; n = length ds; p = float_point d in
        if - 4 < p \<and> p \<le> 0 then [48, 46] @ replicate (nat (- p)) 48 @ ds
        else if 0 < p \<and> p \<le> 16 then
          (if int n \<le> p then ds @ replicate (nat p - n) 48 @ [46, 48]
           else take (nat p) ds @ 46 # drop (nat p) ds)
        else take 1 ds @ (if n = 1 then [] else 46 # drop 1 ds) @ 101 # (if p - 1 < 0 then 45 else 43)
          # (let e = nat \<bar>p - 1\<bar> in (if e < 10 then 48 # show_nat e else show_nat e)))"

text \<open>Separators between the parts of an array or object, and the closing bracket.\<close>

fun seq_text :: "nat \<Rightarrow> pystr list \<Rightarrow> pystr" where
  "seq_text close [] = [close]"
| "seq_text close [x] = x @ [close]"
| "seq_text close (x # y # xs) = x @ 44 # seq_text close (y # xs)"

fun non_finite_text :: "non_finite \<Rightarrow> pystr" where
  "non_finite_text NotANumber = [78, 97, 78]"
| "non_finite_text PosInfinity = [73, 110, 102, 105, 110, 105, 116, 121]"
| "non_finite_text NegInfinity = [45, 73, 110, 102, 105, 110, 105, 116, 121]"

fun render_json :: "json \<Rightarrow> pystr" where
  "render_json JNull = [110, 117, 108, 108]"
| "render_json (JBool b) = (if b then [116, 114, 117, 101] else [102, 97, 108, 115, 101])"
| "render_json (JInt i) = show_int i"
| "render_json (JFloat d) = float_repr d"
| "render_json (JNonFinite n) = non_finite_text n"
| "render_json (JStr s) = json_string s"
| "render_json (JArr xs) = 91 # seq_text 93 (map render_json xs)"
| "render_json (JObj kvs) = 123 # seq_text 125 (map (\<lambda>kv. json_string (fst kv) @ 58 # render_json (snd kv)) kvs)"

text \<open>\<open>sort_keys\<close>: code point order at every level.\<close>

fun sort_keys :: "json \<Rightarrow> json" where
  "sort_keys (JArr xs) = JArr (map sort_keys xs)"
| "sort_keys (JObj kvs) = JObj (sort_key fst (map (\<lambda>kv. (fst kv, sort_keys (snd kv))) kvs))"
| "sort_keys j = j"

text \<open>\<open>allow_nan=False\<close>: a float that is not finite raises.\<close>

fun json_finite :: "json \<Rightarrow> bool" where
  "json_finite (JNonFinite n) = False"
| "json_finite (JArr xs) = (\<forall>x \<in> set xs. json_finite x)"
| "json_finite (JObj kvs) = (\<forall>kv \<in> set kvs. json_finite (snd kv))"
| "json_finite j = True"

text \<open>
  \<open>encode("utf-8")\<close> raises on a lone surrogate; otherwise the bytes stand for the text, which is
  what is kept here.
\<close>

definition canonical_json :: "json \<Rightarrow> pystr option" where
  "canonical_json j = (let t = render_json (sort_keys j) in if json_finite j \<and> encodable t then Some t else None)"

text \<open>\<open>hashlib.sha256\<close> is the parameter \<open>sha\<close>.\<close>

definition canonical_sha256 :: "(pystr \<Rightarrow> 'h) \<Rightarrow> json \<Rightarrow> 'h option" where
  "canonical_sha256 sha j = map_option sha (canonical_json j)"

section \<open>When encoding succeeds\<close>

lemma encodable_simps [simp]:
  "encodable []" "encodable (c # s) \<longleftrightarrow> \<not> (55296 \<le> c \<and> c \<le> 57343) \<and> encodable s"
  "encodable (s @ t) \<longleftrightarrow> encodable s \<and> encodable t"
  by (auto simp: encodable_def)

lemma encodable_concat [simp]: "encodable (concat xs) \<longleftrightarrow> (\<forall>x \<in> set xs. encodable x)"
  by (induction xs) auto

lemma encodable_ustr [simp]: "encodable (ustr s)"
proof -
  have "of_char c < (256 :: nat)" for c using nat_of_char_less_256 [of c] by simp
  then have "of_char c < (55296 :: nat)" for c by (rule less_le_trans) simp
  then show ?thesis by (auto simp: encodable_def ustr_def not_le)
qed

lemma encodable_digits: "\<forall>c \<in> set s. is_digit c \<Longrightarrow> encodable s"
  by (auto simp: encodable_def is_digit_def)

lemma encodable_show_nat [simp]: "encodable (show_nat n)"
  using show_nat_digits by (intro encodable_digits) auto

lemma encodable_string [simp]: "encodable (json_string s) \<longleftrightarrow> encodable s"
proof -
  have "encodable (escape_char c) \<longleftrightarrow> \<not> (55296 \<le> c \<and> c \<le> 57343)" for c
    by (auto simp: escape_char_def hex_digit_def)
  then have "encodable (concat (map escape_char s)) = encodable s" by (induction s) auto
  then show ?thesis by (simp add: json_string_def)
qed

lemma encodable_float [simp]: "encodable (float_repr d)"
proof -
  have "set (float_digits d) \<subseteq> set (show_nat (dec_coef d))"
    using set_dropWhileD by (fastforce simp: float_digits_def py_rstrip_char_def)
  then have ds: "\<forall>c \<in> set (float_digits d). is_digit c" using show_nat_digits by blast
  have t: "encodable (take n (float_digits d))" "encodable (drop n (float_digits d))" for n
    using ds by (auto intro!: encodable_digits dest: in_set_takeD in_set_dropD)
  have r: "encodable (replicate n 48)" for n by (simp add: encodable_def)
  show ?thesis
    using ds t r encodable_digits [OF ds] by (simp add: float_repr_def Let_def)
qed

text \<open>Every key and string is free of surrogates, and every float is finite.\<close>

fun json_encodable :: "json \<Rightarrow> bool" where
  "json_encodable (JStr s) = encodable s"
| "json_encodable (JNonFinite n) = False"
| "json_encodable (JArr xs) = (\<forall>x \<in> set xs. json_encodable x)"
| "json_encodable (JObj kvs) = (\<forall>kv \<in> set kvs. encodable (fst kv) \<and> json_encodable (snd kv))"
| "json_encodable j = True"

lemma encodable_seq: "encodable (seq_text close xs) \<longleftrightarrow> encodable [close] \<and> (\<forall>x \<in> set xs. encodable x)"
  by (induction close xs rule: seq_text.induct) auto

lemma encodable_non_finite [simp]: "encodable (non_finite_text n)"
  by (cases n) simp_all

lemma encodable_render: "json_encodable j \<longleftrightarrow> json_finite j \<and> encodable (render_json j)"
proof (induction j)
  case (JObj kvs)
  then show ?case by (auto simp: encodable_seq snds.simps)
qed (auto simp: encodable_seq show_int_def)

lemma encodable_sort: "json_encodable (sort_keys j) = json_encodable j"
  by (induction j) (auto simp: snds.simps)

lemma finite_sort: "json_finite (sort_keys j) = json_finite j"
  by (induction j) (auto simp: snds.simps)

lemma canonical_json_when: "(json_finite j \<and> encodable (render_json (sort_keys j))) = json_encodable j"
  using encodable_render [of "sort_keys j"] by (simp add: encodable_sort finite_sort)

lemma canonical_json_None: "canonical_json j = None \<longleftrightarrow> \<not> json_encodable j"
  by (simp add: canonical_json_def Let_def canonical_json_when)

lemma canonical_json_encodable: "json_encodable j \<Longrightarrow> \<exists>t. canonical_json j = Some t \<and> encodable t"
  using canonical_json_when [of j] by (auto simp: canonical_json_def Let_def)

lemma canonical_sha256_Some: "json_encodable j \<Longrightarrow> \<exists>h. canonical_sha256 sha j = Some h"
  using canonical_json_encodable by (auto simp: canonical_sha256_def)

section \<open>The text determines the value\<close>

text \<open>Values whose texts are covered: no floats, which only page coordinates are.\<close>

fun float_free :: "json \<Rightarrow> bool" where
  "float_free (JFloat d) = False"
| "float_free (JNonFinite n) = False"
| "float_free (JArr xs) = (\<forall>x \<in> set xs. float_free x)"
| "float_free (JObj kvs) = (\<forall>kv \<in> set kvs. float_free (snd kv))"
| "float_free j = True"

lemma escape_first: "\<exists>x xs. escape_char c = x # xs \<and> x \<noteq> 34"
  by (auto simp: escape_char_def)

lemma hex_digit_inj: "a < 16 \<Longrightarrow> b < 16 \<Longrightarrow> hex_digit a = hex_digit b \<Longrightarrow> a = b"
  by (auto simp: hex_digit_def split: if_splits)

text \<open>A control character without a short escape.\<close>

definition long_escape :: "nat \<Rightarrow> bool" where
  "long_escape c \<longleftrightarrow> c < 32 \<and> c \<noteq> 8 \<and> c \<noteq> 9 \<and> c \<noteq> 10 \<and> c \<noteq> 12 \<and> c \<noteq> 13"

lemma escape_long: "long_escape c \<Longrightarrow> escape_char c = [92, 117, 48, 48, hex_digit (c div 16), hex_digit (c mod 16)]"
  by (simp add: escape_char_def long_escape_def)

lemma escape_short:
  assumes "\<not> long_escape c"
  shows "escape_char c = (if c = 34 then [92, 34] else if c = 92 then [92, 92]
      else if c = 8 then [92, 98] else if c = 9 then [92, 116] else if c = 10 then [92, 110]
      else if c = 12 then [92, 102] else if c = 13 then [92, 114] else [c])"
  using assms by (auto simp: escape_char_def long_escape_def)

lemma escape_prefix:
  assumes "escape_char c @ s = escape_char d @ t"
  shows "c = d \<and> s = t"
proof (cases "long_escape c"; cases "long_escape d")
  assume L: "long_escape c" "long_escape d"
  then have h: "hex_digit (c div 16) = hex_digit (d div 16)" "hex_digit (c mod 16) = hex_digit (d mod 16)" "s = t"
    using assms by (simp_all add: escape_long)
  have "c div 16 < 16" "d div 16 < 16" using L by (auto simp: long_escape_def)
  then have "c div 16 = d div 16" "c mod 16 = d mod 16"
    using hex_digit_inj [OF _ _ h(1)] hex_digit_inj [OF _ _ h(2)] by simp_all
  then show ?thesis using h(3) by (metis mult_div_mod_eq)
qed (use assms in \<open>auto simp: escape_long escape_short split: if_splits\<close>)

lemma escapes_prefix:
  "concat (map escape_char s) @ 34 # x = concat (map escape_char t) @ 34 # y \<Longrightarrow> s = t \<and> x = y"
proof (induction s arbitrary: t)
  case Nil
  then show ?case using escape_first [of "hd t"] by (cases t) auto
next
  case (Cons c s)
  show ?case
  proof (cases t)
    case Nil
    then show ?thesis using Cons.prems escape_first [of c] by auto
  next
    case (Cons d t')
    with Cons.prems have "escape_char c @ concat (map escape_char s) @ 34 # x =
        escape_char d @ concat (map escape_char t') @ 34 # y" by simp
    from escape_prefix [OF this] have "c = d" "concat (map escape_char s) @ 34 # x = concat (map escape_char t') @ 34 # y"
      by simp_all
    then show ?thesis using Cons.IH [of t'] Cons by simp
  qed
qed

lemma json_string_prefix: "json_string s @ x = json_string t @ y \<Longrightarrow> s = t \<and> x = y"
  using escapes_prefix [of s x t y] by (simp add: json_string_def)

text \<open>Two numbers followed by something that is not a digit.\<close>

definition stops :: "pystr \<Rightarrow> bool" where
  "stops s \<longleftrightarrow> s = [] \<or> \<not> is_digit (hd s)"

lemma digits_prefix:
  assumes "\<forall>c \<in> set a. is_digit c" "\<forall>c \<in> set b. is_digit c" "stops s" "stops t" "a @ s = b @ t"
  shows "a = b \<and> s = t"
proof -
  have "takeWhile is_digit (a @ s) = a" "takeWhile is_digit (b @ t) = b"
    using assms(1-4) by (auto simp: takeWhile_append stops_def intro: takeWhile_eq_Nil_iff [THEN iffD2])
  then show ?thesis using assms(5) by simp
qed

lemma show_int_prefix:
  assumes "show_int i @ s = show_int j @ t" "stops s" "stops t"
  shows "i = j \<and> s = t"
proof -
  have nd: "show_nat n \<noteq> 45 # r" for n r using show_nat_digits [of 45 n] by (auto simp: is_digit_def)
  have sg: "(i < 0) = (j < 0)"
    using assms(1) nd by (cases "show_nat (nat \<bar>i\<bar>)"; cases "show_nat (nat \<bar>j\<bar>)") (auto simp: show_int_def split: if_splits)
  then have "show_nat (nat \<bar>i\<bar>) @ s = show_nat (nat \<bar>j\<bar>) @ t" using assms(1) by (auto simp: show_int_def split: if_splits)
  then have "show_nat (nat \<bar>i\<bar>) = show_nat (nat \<bar>j\<bar>) \<and> s = t"
    by (intro digits_prefix) (use assms show_nat_digits in auto)
  then have "nat \<bar>i\<bar> = nat \<bar>j\<bar> \<and> s = t" using show_nat_inj by blast
  then show ?thesis using sg by auto
qed

lemma show_int_first: "\<exists>c r. show_int i = c # r \<and> (is_digit c \<or> c = 45)"
  using show_nat_digits [of "hd (show_nat (nat \<bar>i\<bar>))" "nat \<bar>i\<bar>"]
  by (cases "show_nat (nat \<bar>i\<bar>)") (auto simp: show_int_def)

text \<open>The first character tells the kind of a value.\<close>

fun starts :: "json \<Rightarrow> nat \<Rightarrow> bool" where
  "starts JNull c = (c = 110)"
| "starts (JBool b) c = (c = (if b then 116 else 102))"
| "starts (JInt i) c = (is_digit c \<or> c = 45)"
| "starts (JFloat d) c = False"
| "starts (JNonFinite n) c = False"
| "starts (JStr s) c = (c = 34)"
| "starts (JArr xs) c = (c = 91)"
| "starts (JObj kvs) c = (c = 123)"

lemma render_first: "float_free j \<Longrightarrow> \<exists>c r. render_json j = c # r \<and> starts j c"
  using show_int_first by (cases j) (auto simp: json_string_def)

lemma starts_no_close: "starts j c \<Longrightarrow> c \<noteq> 93 \<and> c \<noteq> 125 \<and> c \<noteq> 44"
  by (cases j) (auto simp: is_digit_def split: if_splits)

lemma seq_text_Cons: "seq_text close (x # xs) = x @ (if xs = [] then [close] else 44 # seq_text close xs)"
  by (cases xs) auto

lemma stops_sep: "stops (93 # s)" "stops (125 # s)" "stops (44 # s)"
  by (simp_all add: stops_def is_digit_def)

lemma seq_text_prefix:
  assumes "\<forall>x \<in> set xs. \<forall>y \<in> set ys. \<forall>s t. f x @ s = f y @ t \<longrightarrow> stops s \<longrightarrow> stops t \<longrightarrow> x = y \<and> s = t"
    and "\<forall>x \<in> set xs \<union> set ys. \<exists>c r. f x = c # r \<and> c \<noteq> close" "close \<in> {93, 125}"
    and "seq_text close (map f xs) @ s = seq_text close (map f ys) @ t"
  shows "xs = ys \<and> s = t"
  using assms
proof (induction xs arbitrary: ys)
  case Nil
  then show ?case by (cases ys) (auto simp: seq_text_Cons)
next
  case (Cons x xs)
  show ?case
  proof (cases ys)
    case Nil
    then show ?thesis using Cons.prems by (auto simp: seq_text_Cons)
  next
    case (Cons y ys')
    let ?u = "(if xs = [] then [close] else 44 # seq_text close (map f xs)) @ s"
    let ?v = "(if ys' = [] then [close] else 44 # seq_text close (map f ys')) @ t"
    have 1: "f x @ ?u = f y @ ?v" using Cons.prems(4) by (simp add: Cons seq_text_Cons split: if_splits)
    have 2: "stops ?u" "stops ?v" using Cons.prems(3) by (auto simp: stops_sep)
    have "x = y \<and> ?u = ?v"
      by (rule Cons.prems(1) [rule_format, OF _ _ 1 2]) (simp_all add: Cons)
    then have e: "x = y" "?u = ?v" by simp_all
    show ?thesis
    proof (cases "xs = [] \<or> ys' = []")
      case True
      then show ?thesis using e Cons Cons.prems(3) by (auto split: if_splits)
    next
      case False
      then have "seq_text close (map f xs) @ s = seq_text close (map f ys') @ t" using e(2) by simp
      moreover have "\<forall>x \<in> set xs. \<forall>y \<in> set ys'. \<forall>s t. f x @ s = f y @ t \<longrightarrow> stops s \<longrightarrow> stops t \<longrightarrow> x = y \<and> s = t"
        using Cons.prems(1) Cons by (meson list.set_intros(2))
      moreover have "\<forall>x \<in> set xs \<union> set ys'. \<exists>c r. f x = c # r \<and> c \<noteq> close" using Cons.prems(2) Cons by simp
      ultimately have "xs = ys' \<and> s = t" by (intro Cons.IH Cons.prems(3))
      then show ?thesis using e Cons by simp
    qed
  qed
qed

lemma render_prefix:
  assumes "float_free a" "float_free b" "render_json a @ s = render_json b @ t" "stops s" "stops t"
  shows "a = b \<and> s = t"
  using assms
proof (induction a arbitrary: b s t)
  case (JInt i)
  then show ?case
    using render_first [OF JInt.prems(2)] show_int_first [of i] show_int_prefix [of i s _ t]
    by (cases b) (auto simp: is_digit_def split: if_splits)
next
  case (JStr x)
  then show ?case
    using render_first [OF JStr.prems(2)] json_string_prefix [of x s _ t]
    by (cases b) (auto simp: json_string_def is_digit_def split: if_splits)
next
  case (JArr xs)
  obtain ys where b: "b = JArr ys"
    using render_first [OF JArr.prems(2)] JArr.prems(3) by (cases b) (auto simp: is_digit_def split: if_splits)
  have "seq_text 93 (map render_json xs) @ s = seq_text 93 (map render_json ys) @ t" using JArr.prems(3) b by simp
  moreover have "\<forall>x \<in> set xs. \<forall>y \<in> set ys. \<forall>s t. render_json x @ s = render_json y @ t \<longrightarrow> stops s \<longrightarrow> stops t \<longrightarrow> x = y \<and> s = t"
    using JArr.IH JArr.prems(1,2) b by (metis float_free.simps(3))
  moreover have "\<exists>c r. render_json x = c # r \<and> c \<noteq> 93" if "x \<in> set xs \<union> set ys" for x
    using render_first [of x] starts_no_close [of x] that JArr.prems(1,2) b by auto
  ultimately have "xs = ys \<and> s = t" by (intro seq_text_prefix [of xs ys render_json 93 s t]) simp_all
  then show ?case using b by simp
next
  case (JObj kvs)
  let ?f = "\<lambda>kv. json_string (fst kv) @ 58 # render_json (snd kv)"
  obtain kvs' where b: "b = JObj kvs'"
    using render_first [OF JObj.prems(2)] JObj.prems(3) by (cases b) (auto simp: is_digit_def split: if_splits)
  have e: "seq_text 125 (map ?f kvs) @ s = seq_text 125 (map ?f kvs') @ t" using JObj.prems(3) b by simp
  have "kv = kv' \<and> u = v"
    if "kv \<in> set kvs" "kv' \<in> set kvs'" "?f kv @ u = ?f kv' @ v" "stops u" "stops v" for kv kv' u v
  proof -
    have "fst kv = fst kv'" "render_json (snd kv) @ u = render_json (snd kv') @ v"
      using that(3) json_string_prefix [of "fst kv" "58 # render_json (snd kv) @ u" "fst kv'" "58 # render_json (snd kv') @ v"]
      by simp_all
    moreover have "snd kv = snd kv' \<and> u = v"
      by (rule JObj.IH [of kv "snd kv"]) (use that JObj.prems b calculation in \<open>auto simp: snds.simps\<close>)
    ultimately show ?thesis by (simp add: prod_eq_iff)
  qed
  then have "kvs = kvs' \<and> s = t"
    by (intro seq_text_prefix [OF _ _ _ e]) (auto simp: json_string_def)
  then show ?case using b by simp
next
  case JNull
  then show ?case
    using render_first [OF JNull.prems(2)] by (cases b) (auto simp: is_digit_def split: if_splits)
next
  case (JBool x)
  then show ?case
    using render_first [OF JBool.prems(2)] by (cases b) (auto simp: is_digit_def split: if_splits)
qed simp_all

lemma float_free_sort: "float_free (sort_keys j) = float_free j"
  by (induction j) (auto simp: snds.simps)

lemma render_json_inj: "float_free a \<Longrightarrow> float_free b \<Longrightarrow> render_json a = render_json b \<Longrightarrow> a = b"
  using render_prefix [of a b "[]" "[]"] by (simp add: stops_def)


definition example_json :: json where
  "example_json = JObj [(ustr ''b'', JArr [JInt (- 12), JBool True, JNull]), (ustr ''a'', JStr [34, 92, 10, 1, 233])]"


end
