(* ===== verification/Decimal_Strings.thy ===== *)
theory Decimal_Strings
  imports Domain_Grading Canonical_Text
begin

text \<open>
  Decimals as text and back. The review service turns a score into text with \<open>format(score, "f")\<close>
  and lets pydantic parse it again; JSON dumps use \<open>str(score)\<close>. Reading a written value gives the
  value it was written from.
\<close>

section \<open>Python's \<open>str\<close> of a decimal\<close>

text \<open>\<open>Decimal.__str__\<close>: plain notation for exponents from the digits down to \<open>1E-6\<close>.\<close>

definition decimal_str :: "decimal \<Rightarrow> pystr" where
  "decimal_str d = (let
      ds = show_nat (dec_coef d);
      leftdigits = dec_exp d + int (length ds);
      dotplace = (if dec_exp d \<le> 0 \<and> - 6 < leftdigits then leftdigits else 1);
      intpart = (if dotplace \<le> 0 then [48]
                 else if int (length ds) \<le> dotplace then ds @ replicate (nat (dotplace - int (length ds))) 48
                 else take (nat dotplace) ds);
      fracpart = (if dotplace \<le> 0 then 46 # replicate (nat (- dotplace)) 48 @ ds
                  else if int (length ds) \<le> dotplace then []
                  else 46 # drop (nat dotplace) ds);
      expo = leftdigits - dotplace
    in (if dec_neg d then [45] else []) @ intpart @ fracpart @
       (if expo = 0 then [] else 69 # (if expo < 0 then [45] else [43]) @ show_nat (nat \<bar>expo\<bar>)))"

section \<open>Parsing plain notation\<close>

text \<open>A character database whose ASCII digits are the decimal digits.\<close>

definition ascii_digits_ok :: "unicode_db \<Rightarrow> bool" where
  "ascii_digits_ok U \<longleftrightarrow> (\<forall>c < 128. uni_digit U c = (if is_digit c then Some (c - 48) else None))"

lemma ascii_db_digits [simp]: "ascii_digits_ok ascii_db"
  by (simp add: ascii_digits_ok_def ascii_db_def)

lemma digits_value_foldl: "foldl (\<lambda>n c. 10 * n + (c - 48)) a s = a * 10 ^ length s + digits_value s"
proof (induction s arbitrary: a)
  case (Cons c s)
  have e: "digits_value (c # s) = (c - 48) * 10 ^ length s + digits_value s"
    using Cons [of "c - 48"] by (simp add: digits_value_def)
  show ?case using Cons [of "10 * a + (c - 48)"] e by (simp add: algebra_simps)
qed (simp add: digits_value_def)

lemma digits_value_append: "digits_value (s @ t) = digits_value s * 10 ^ length t + digits_value t"
  using digits_value_foldl [of "digits_value s" t] by (simp add: digits_value_def)

lemma digits_value_zeros [simp]: "digits_value (replicate k 48) = 0"
  by (induction k) (use digits_value_append [of "[48]"] in \<open>auto simp: digits_value_def\<close>)

lemma digits_value_show [simp]: "digits_value (show_nat n) = n"
proof (induction n rule: show_nat.induct)
  case (1 n)
  show ?case
  proof (cases "n < 10")
    case True
    then show ?thesis by (simp add: show_nat.simps [of n] digits_value_def)
  next
    case False
    have "digits_value (show_nat n) = n div 10 * 10 + n mod 10"
      using 1 False by (simp add: show_nat.simps [of n] digits_value_append) (simp add: digits_value_def)
    then show ?thesis by simp
  qed
qed

definition sign_text :: "bool \<Rightarrow> pystr" where
  "sign_text neg = (if neg then [45] else [])"

lemma ascii_digits_id:
  assumes "ascii_digits_ok U" "\<forall>c \<in> set s. c < 128"
  shows "ascii_digits U s = s"
  unfolding ascii_digits_def
proof (rule map_idI)
  fix c assume "c \<in> set s"
  then have "uni_digit U c = (if is_digit c then Some (c - 48) else None)"
    using assms unfolding ascii_digits_ok_def by blast
  then show "(case uni_digit U c of None \<Rightarrow> c | Some d \<Rightarrow> 48 + d) = c" by (auto simp: is_digit_def)
qed

lemma strip_text:
  assumes "s \<noteq> []" "\<not> py_isspace (hd s)" "\<not> py_isspace (last s)"
  shows "py_strip s = s"
  unfolding py_strip_def using assms py_lstrip_id [of s] py_rstrip_id [of s] by simp

lemma digit_class: "is_digit c \<Longrightarrow> \<not> py_isspace c \<and> c < 128 \<and> c \<noteq> 95 \<and> c \<noteq> 46 \<and> c \<noteq> 45"
  by (auto simp: is_digit_def py_isspace_def)

text \<open>What follows the digits: nothing, or an exponent.\<close>

definition exponent_text :: "int \<Rightarrow> pystr" where
  "exponent_text e = (if e = 0 then [] else 69 # (if e < 0 then [45] else [43]) @ show_nat (nat \<bar>e\<bar>))"

lemma show_nat_all_digits: "\<forall>c \<in> set (show_nat n). is_digit c"
  using show_nat_digits by blast

lemma parse_exponent_text: "parse_exponent (exponent_text e) = Some e"
  using show_nat_digits by (auto simp: parse_exponent_def exponent_text_def)

lemma exponent_chars: "c \<in> set (exponent_text e) \<Longrightarrow> is_digit c \<or> c = 69 \<or> c = 43 \<or> c = 45"
  using show_nat_digits by (auto simp: exponent_text_def split: if_splits)

lemma exponent_last: "exponent_text e \<noteq> [] \<Longrightarrow> is_digit (last (exponent_text e))"
  using show_nat_digits [OF last_in_set [OF show_nat_not_Nil(1)]] by (auto simp: exponent_text_def split: if_splits)

lemma exponent_first: "exponent_text e = [] \<or> (\<exists>t. exponent_text e = 69 # t)"
  by (simp add: exponent_text_def)

lemma parse_digits:
  fixes neg :: bool and e :: int
  assumes U: "ascii_digits_ok U" and w: "\<forall>c \<in> set whole. is_digit c" "whole \<noteq> []"
    and f: "\<forall>c \<in> set frac. is_digit c"
  defines "t \<equiv> whole @ (if frac = [] then [] else 46 # frac) @ exponent_text e"
  shows "parse_decimal U (sign_text neg @ t) = Some (Dec neg (digits_value (whole @ frac)) (e - int (length frac)))"
proof -
  let ?s = "sign_text neg @ t"
  have chars: "\<forall>c \<in> set ?s. is_digit c \<or> c = 45 \<or> c = 46 \<or> c = 69 \<or> c = 43"
    using w f exponent_chars [of _ e] by (auto simp: t_def sign_text_def split: if_splits)
  have last: "is_digit (last ?s)" using w f exponent_last [of e] by (auto simp: t_def last_append)
  have hd: "is_digit (hd ?s) \<or> hd ?s = 45" using w by (auto simp: t_def sign_text_def)
  have ne: "?s \<noteq> []" using w by (simp add: t_def)
  have strip: "py_strip ?s = ?s"
    by (rule strip_text) (use ne last hd digit_class in \<open>auto simp: py_isspace_def\<close>)
  have fil: "filter (\<lambda>c. c \<noteq> 95) ?s = ?s" by (rule filter_True) (use chars in \<open>fastforce simp: is_digit_def\<close>)
  have dig: "ascii_digits U ?s = ?s" by (rule ascii_digits_id [OF U]) (use chars in \<open>fastforce simp: is_digit_def\<close>)
  have sg: "take_sign ?s = (neg, t)"
  proof (cases neg)
    case False
    obtain c u where "t = c # u" "is_digit c" using w by (cases whole) (auto simp: t_def)
    then show ?thesis using False by (auto simp: sign_text_def is_digit_def)
  qed (simp add: sign_text_def)
  have n: "\<not> is_digit 46" "\<not> is_digit 69" by (simp_all add: is_digit_def)
  have tail: "takeWhile is_digit (exponent_text e) = []" "dropWhile is_digit (exponent_text e) = exponent_text e"
    using exponent_first [of e] n by auto
  have tw: "takeWhile is_digit t = whole" "dropWhile is_digit t = (if frac = [] then [] else 46 # frac) @ exponent_text e"
    using w(1) n tail by (auto simp: t_def takeWhile_append dropWhile_append)
  have tf: "takeWhile is_digit (frac @ exponent_text e) = frac" "dropWhile is_digit (frac @ exponent_text e) = exponent_text e"
    using f tail by (auto simp: takeWhile_append dropWhile_append)
  have parts: "(case (if frac = [] then [] else 46 # frac) @ exponent_text e of [] \<Rightarrow> ([], [])
      | c # r \<Rightarrow> if c = 46 then (takeWhile is_digit r, dropWhile is_digit r) else ([], c # r)) = (frac, exponent_text e)"
    using tf exponent_first [of e] by auto
  show ?thesis
    unfolding parse_decimal_def strip fil dig Let_def sg prod.case tw parts
    by (simp add: w(2) parse_exponent_text)
qed

lemma parse_plain:
  assumes "ascii_digits_ok U" "\<forall>c \<in> set whole. is_digit c" "whole \<noteq> []" "\<forall>c \<in> set frac. is_digit c"
  shows "parse_decimal U (sign_text neg @ whole @ (if frac = [] then [] else 46 # frac)) =
    Some (Dec neg (digits_value (whole @ frac)) (- int (length frac)))"
  using parse_digits [OF assms, of neg 0] by (simp add: exponent_text_def)

section \<open>Fixed-point text\<close>

text \<open>The value that fixed-point text denotes: the same number with an exponent of at most zero.\<close>

definition plain_decimal :: "decimal \<Rightarrow> decimal" where
  "plain_decimal d = (if 0 < dec_exp d then Dec (dec_neg d) (dec_coef d * 10 ^ nat (dec_exp d)) 0 else d)"

lemma plain_units [simp]: "dec_units (plain_decimal d) = dec_units d"
  by (auto simp: plain_decimal_def dec_units_def dec_at_def dec_int_def nat_add_distrib power_add algebra_simps)

lemma set_take_digits: "\<forall>c \<in> set (take k (show_nat n)). is_digit c" "\<forall>c \<in> set (drop k (show_nat n)). is_digit c"
  using show_nat_digits by (auto dest: in_set_takeD in_set_dropD)

lemma parse_format:
  assumes "ascii_digits_ok U"
  shows "parse_decimal U (format_f d) = Some (plain_decimal d)"
proof -
  let ?ds = "show_nat (dec_coef d)" and ?n = "length (show_nat (dec_coef d))"
  have zero: "is_digit 48" by (simp add: is_digit_def)
  consider (pos) "0 < dec_exp d" "dec_coef d \<noteq> 0" | (pos0) "0 < dec_exp d" "dec_coef d = 0"
    | (small) "dec_exp d \<le> 0" "dec_exp d + int ?n \<le> 0" | (split) "dec_exp d \<le> 0" "0 < dec_exp d + int ?n"
    by linarith
  then show ?thesis
  proof cases
    case pos
    have "format_f d = sign_text (dec_neg d) @ (?ds @ replicate (nat (dec_exp d)) 48) @ (if ([] :: pystr) = [] then [] else 46 # [])"
      using pos by (simp add: format_f_def Let_def sign_text_def)
    then show ?thesis
      using parse_plain [OF assms, of "?ds @ replicate (nat (dec_exp d)) 48" "[]"] pos zero
      by (simp add: plain_decimal_def digits_value_append show_nat_all_digits)
  next
    case pos0
    have "format_f d = sign_text (dec_neg d) @ [48] @ (if ([] :: pystr) = [] then [] else 46 # [])"
      using pos0 by (simp add: format_f_def Let_def sign_text_def show_nat.simps)
    then show ?thesis
      using parse_plain [OF assms, of "[48]" "[]"] pos0 zero by (simp add: plain_decimal_def digits_value_def)
  next
    case small
    let ?f = "replicate (nat (- (dec_exp d + int ?n))) 48 @ ?ds"
    have f: "format_f d = sign_text (dec_neg d) @ [48] @ (if ?f = [] then [] else 46 # ?f)"
      using small by (auto simp: format_f_def Let_def sign_text_def)
    have l: "- int (length ?f) = dec_exp d" using small by simp
    have v: "digits_value ([48] @ ?f) = dec_coef d"
      using digits_value_append [of "[48]" ?f] by (simp add: digits_value_append) (simp add: digits_value_def)
    have "\<forall>c \<in> set ?f. is_digit c" using zero show_nat_all_digits by auto
    then have "parse_decimal U (format_f d) = Some (Dec (dec_neg d) (digits_value ([48] @ ?f)) (- int (length ?f)))"
      unfolding f by (intro parse_plain [OF assms]) (use zero in simp_all)
    then show ?thesis unfolding v l using small by (simp add: plain_decimal_def)
  next
    case split
    let ?k = "nat (dec_exp d + int ?n)"
    have k: "0 < ?k" "?k \<le> ?n" using split by auto
    have "format_f d = sign_text (dec_neg d) @ take ?k ?ds @ (if drop ?k ?ds = [] then [] else 46 # drop ?k ?ds)"
      using split by (auto simp: format_f_def Let_def sign_text_def)
    moreover have "int (length (drop ?k ?ds)) = - dec_exp d" using split by simp
    ultimately show ?thesis
      using parse_plain [OF assms, of "take ?k ?ds" "drop ?k ?ds" "dec_neg d"] k split
      by (simp add: plain_decimal_def set_take_digits)
  qed
qed

section \<open>Python's notation\<close>

lemma parse_str:
  assumes "ascii_digits_ok U"
  shows "parse_decimal U (decimal_str d) = Some d"
proof -
  let ?ds = "show_nat (dec_coef d)" and ?n = "length (show_nat (dec_coef d))"
  have zero: "is_digit 48" by (simp add: is_digit_def)
  have n: "0 < ?n" by simp
  have d: "Dec (dec_neg d) (dec_coef d) (dec_exp d) = d" by simp
  consider (zeros) "dec_exp d \<le> 0" "- 6 < dec_exp d + int ?n" "dec_exp d + int ?n \<le> 0"
    | (plain) "dec_exp d \<le> 0" "0 < dec_exp d + int ?n"
    | (sci) "\<not> (dec_exp d \<le> 0 \<and> - 6 < dec_exp d + int ?n)"
    by linarith
  then show ?thesis
  proof cases
    case zeros
    let ?f = "replicate (nat (- (dec_exp d + int ?n))) 48 @ ?ds"
    have f: "decimal_str d = sign_text (dec_neg d) @ [48] @ (if ?f = [] then [] else 46 # ?f)"
      using zeros by (auto simp: decimal_str_def Let_def sign_text_def)
    have l: "- int (length ?f) = dec_exp d" using zeros by simp
    have v: "digits_value ([48] @ ?f) = dec_coef d"
      using digits_value_append [of "[48]" ?f] by (simp add: digits_value_append) (simp add: digits_value_def)
    have "\<forall>c \<in> set ?f. is_digit c" using zero show_nat_all_digits by auto
    then have "parse_decimal U (decimal_str d) = Some (Dec (dec_neg d) (digits_value ([48] @ ?f)) (- int (length ?f)))"
      unfolding f by (intro parse_plain [OF assms]) (use zero in simp_all)
    then show ?thesis unfolding v l by simp
  next
    case plain
    let ?k = "nat (dec_exp d + int ?n)"
    have k: "0 < ?k" "?k \<le> ?n" using plain by auto
    have f: "decimal_str d = sign_text (dec_neg d) @ take ?k ?ds @ (if drop ?k ?ds = [] then [] else 46 # drop ?k ?ds)"
      using plain by (auto simp: decimal_str_def Let_def sign_text_def)
    have l: "- int (length (drop ?k ?ds)) = dec_exp d" using plain by simp
    have "parse_decimal U (decimal_str d) = Some (Dec (dec_neg d) (digits_value (take ?k ?ds @ drop ?k ?ds)) (- int (length (drop ?k ?ds))))"
      unfolding f by (rule parse_plain [OF assms]) (use k set_take_digits in auto)
    then show ?thesis unfolding l by simp
  next
    case sci
    let ?e = "dec_exp d + int ?n - 1"
    have f: "decimal_str d = sign_text (dec_neg d) @ take 1 ?ds @ (if drop 1 ?ds = [] then [] else 46 # drop 1 ?ds) @ exponent_text ?e"
      using sci n by (cases ?ds) (auto simp: decimal_str_def Let_def sign_text_def exponent_text_def)
    have l: "?e - int (length (drop 1 ?ds)) = dec_exp d" using n by (simp add: of_nat_diff Suc_le_eq)
    have "parse_decimal U (decimal_str d) = Some (Dec (dec_neg d) (digits_value (take 1 ?ds @ drop 1 ?ds)) (?e - int (length (drop 1 ?ds))))"
      unfolding f by (rule parse_digits [OF assms]) (use n set_take_digits in auto)
    then show ?thesis unfolding l by simp
  qed
qed

text \<open>
  A score survives being written and read again. The text that a JSON dump stores parses back
  to exactly the decimal it came from, and the fixed-point text that the review service hands to
  the grading contract parses to the same number with an exponent of at most zero.
\<close>

theorem score_text_roundtrip:
  assumes "ascii_digits_ok U"
  shows "parse_decimal U (decimal_str d) = Some d \<and> parse_decimal U (format_f d) = Some (plain_decimal d) \<and>
    dec_units (plain_decimal d) = dec_units d \<and> dec_exp (plain_decimal d) \<le> 0"
proof (intro conjI)
  show "dec_exp (plain_decimal d) \<le> 0" by (simp add: plain_decimal_def)
qed (simp_all add: parse_str [OF assms] parse_format [OF assms])

theorem score_text_roundtrip_witness:
  "decimal_str (Dec False 15 (- 8)) = ustr ''1.5E-7'' \<and>
   parse_decimal ascii_db (decimal_str (Dec False 15 (- 8))) = Some (Dec False 15 (- 8))"
  using score_text_roundtrip [OF ascii_db_digits, of "Dec False 15 (- 8)"] by (auto simp: decimal_str_def show_nat.simps ustr_def)

end
