(* ===== verification/Review_Service.thy ===== *)
theory Review_Service
  imports Domain_Models Grading_Prompt Decimal_Strings
begin

text \<open>
  \<open>backend/app/reviews/service.py\<close>: a teacher's review passes the same contract as a model's answer.
  The target of a review is the repository's snapshot; the stored document is read through
  \<open>storage\<close>, which gives the object's fields, or says that the object cannot be fetched or is no
  JSON of that form. Raised exceptions are \<open>review_exn\<close>.
\<close>

section \<open>Targets\<close>

record attempt_view =
  av_id :: uuid
  av_attempt_number :: nat
  av_scoring_round :: nat
  av_model :: pystr
  av_subtotal :: decimal
  av_deduction_total :: decimal
  av_total_score :: decimal
  av_dimensions :: "dimension_result list"
  av_deductions :: "deduction_result list"
  av_overall_feedback :: pystr

record draft_view = review_draft_data +
  dv_id :: uuid
  dv_revision_number :: nat
  dv_status :: review_status
  dv_confirmed_at :: "time option"

record review_target =
  rt_owner_id :: uuid
  rt_job_id :: uuid
  rt_item_id :: uuid
  rt_item_status :: item_status
  rt_assignment_id :: uuid
  rt_assignment_title :: pystr
  rt_assignment_instructions :: pystr
  rt_rubric_version_id :: uuid
  rt_rubric_version :: int
  rt_rubric :: structured_rubric
  rt_submission_id :: uuid
  rt_submission_status :: submission_status
  rt_extracted_object_key :: "object_key option"
  rt_attempt :: attempt_view
  rt_draft :: "draft_view option"

record regrade_target =
  rg_job_id :: uuid
  rg_item_id :: uuid
  rg_item_status :: item_status
  rg_has_confirmed_review :: bool

record confirmation_ref =
  cr_item_id :: uuid
  cr_review_id :: uuid
  cr_revision_number :: nat

section \<open>Exceptions\<close>

text \<open>
  The named ones are the service's own; \<open>ReviewPydantic\<close>, \<open>ReviewGrade\<close> and \<open>ReviewEncode\<close> are
  exceptions of the called code that the service does not catch.
\<close>

datatype review_exn =
    ReviewNotFound
  | ReviewState
  | ReviewConflict
  | ReviewValidation string
  | ReviewData string
  | ReviewPydantic
  | ReviewGrade grade_exn
  | ReviewEncode
  | ReviewStorage
  | ReviewDatabase
  | ReviewUnassembled

section \<open>Loading the document\<close>

datatype stored_object =
    ObjectUnavailable
  | ObjectMalformed
  | ObjectFields parsed_document

text \<open>\<open>_load_target\<close> after the repository's answer.\<close>

definition open_target ::
    "(object_key \<Rightarrow> stored_object) \<Rightarrow> uuid option \<Rightarrow> review_target option \<Rightarrow> review_exn + review_target \<times> parsed_document" where
  "open_target storage job found =
     (case found of None \<Rightarrow> Inl ReviewNotFound
      | Some t \<Rightarrow>
          if job \<noteq> None \<and> job \<noteq> Some (rt_job_id t) then Inl ReviewNotFound
          else if rt_item_status t \<notin> {ItemNeedsReview, ItemCompleted} then Inl ReviewState
          else case rt_extracted_object_key t of
              None \<Rightarrow> Inl (ReviewData ''review_submission_not_ready'')
            | Some key \<Rightarrow>
                if rt_submission_status t \<noteq> SubReady then Inl (ReviewData ''review_submission_not_ready'')
                else case storage key of
                    ObjectUnavailable \<Rightarrow> Inl ReviewStorage
                  | ObjectMalformed \<Rightarrow> Inl (ReviewData ''review_document_invalid'')
                  | ObjectFields d \<Rightarrow> if validate_document d then Inr (t, d)
                                      else Inl (ReviewData ''review_document_invalid''))"

section \<open>The answer a review stands for\<close>

text \<open>The loop over the evidence: the target of each quotation must be reviewed.\<close>

definition check_target :: "review_draft_input \<Rightarrow> evidence_input \<Rightarrow> review_exn + (target_type \<times> pystr) \<times> evidence_quote" where
  "check_target p e =
     (if (case ei_target_type e of
            TargetDimension \<Rightarrow> ei_target_id e \<notin> set (map ci_dimension_id (dri_criteria p))
          | TargetDeduction \<Rightarrow> ei_target_id e \<notin> set (map di_deduction_id (dri_deductions p)))
      then Inl (ReviewValidation ''review_evidence_target_unknown'')
      else Inr ((ei_target_type e, ei_target_id e), \<lparr>ev_block_id = ei_block_id e, ev_quote = ei_quote e\<rparr>))"

definition grouped :: "((target_type \<times> pystr) \<times> evidence_quote) list \<Rightarrow> target_type \<Rightarrow> pystr \<Rightarrow> evidence_quote list" where
  "grouped es t i = map snd (filter (\<lambda>e. fst e = (t, i)) es)"

text \<open>
  The constructors of \<open>domain/grading.py\<close>, called with values instead of JSON; a nested value that
  already is of its class is not validated again.
\<close>

definition quote_ok :: "evidence_quote \<Rightarrow> bool" where
  "quote_ok e \<longleftrightarrow> is_block_id (ev_block_id e) \<and> encodable (ev_quote e) \<and>
     length_between 1 20000 (ev_quote e) \<and> py_strip (ev_quote e) \<noteq> []"

definition text_ok :: "unicode_db \<Rightarrow> nat \<Rightarrow> pystr \<Rightarrow> bool" where
  "text_ok U hi s \<longleftrightarrow> encodable s \<and> narrative_ok U hi s"

definition dimension_ok :: "unicode_db \<Rightarrow> dimension_result \<Rightarrow> bool" where
  "dimension_ok U d \<longleftrightarrow> is_identifier (dr_dimension_id d) \<and> decimal_field (dr_score d) \<and> text_ok U 10000 (dr_reason d) \<and>
     length_between 1 100 (dr_evidence d) \<and> list_all quote_ok (dr_evidence d) \<and>
     length_between 1 50 (dr_revision_suggestions d) \<and> list_all (text_ok U 4000) (dr_revision_suggestions d)"

definition deduction_ok :: "unicode_db \<Rightarrow> deduction_result \<Rightarrow> bool" where
  "deduction_ok U x \<longleftrightarrow> is_identifier (xr_deduction_id x) \<and> text_ok U 10000 (xr_reason x) \<and>
     length (xr_evidence x) \<le> 100 \<and> list_all quote_ok (xr_evidence x)"

definition result_ok :: "unicode_db \<Rightarrow> 'a grade_result_scheme \<Rightarrow> bool" where
  "result_ok U r \<longleftrightarrow> length_between 1 100 (gr_dimensions r) \<and>
     length (gr_deductions r) \<le> 100 \<and> text_ok U 20000 (gr_overall_feedback r)"

definition make_dimension ::
    "unicode_db \<Rightarrow> ((target_type \<times> pystr) \<times> evidence_quote) list \<Rightarrow> criterion_input \<Rightarrow> review_exn + dimension_result" where
  "make_dimension U es c =
     (case model_decimal U (JStr (format_f (ci_score c))) of None \<Rightarrow> Inl ReviewPydantic
      | Some score \<Rightarrow>
          let d = \<lparr>dr_dimension_id = ci_dimension_id c, dr_score = score, dr_reason = ci_reason c,
                   dr_evidence = grouped es TargetDimension (ci_dimension_id c),
                   dr_revision_suggestions = ci_revision_suggestions c\<rparr>
          in if dimension_ok U d then Inr d else Inl ReviewPydantic)"

definition make_deduction ::
    "unicode_db \<Rightarrow> ((target_type \<times> pystr) \<times> evidence_quote) list \<Rightarrow> deduction_input \<Rightarrow> review_exn + deduction_result" where
  "make_deduction U es d =
     (let x = \<lparr>xr_deduction_id = di_deduction_id d, xr_applied = di_applied d, xr_reason = di_reason d,
               xr_evidence = grouped es TargetDeduction (di_deduction_id d)\<rparr>
      in if deduction_ok U x then Inr x else Inl ReviewPydantic)"

definition review_result :: "unicode_db \<Rightarrow> review_draft_input \<Rightarrow> review_exn + grade_result" where
  "review_result U p =
     bindR (mapR (check_target p) (dri_evidence p)) (\<lambda>es.
     bindR (mapR (make_dimension U es) (dri_criteria p)) (\<lambda>dims.
     bindR (mapR (make_deduction U es) (dri_deductions p)) (\<lambda>deds.
       let r = \<lparr>gr_dimensions = dims, gr_deductions = deds, gr_overall_feedback = dri_overall_feedback p\<rparr>
       in if result_ok U r then Inr r else Inl ReviewPydantic)))"

section \<open>Comparing with the model's result\<close>

definition quote_json :: "evidence_quote \<Rightarrow> json" where
  "quote_json e = JObj [(ustr ''block_id'', JStr (ev_block_id e)), (ustr ''quote'', JStr (ev_quote e))]"

definition dimension_result_json :: "dimension_result \<Rightarrow> json" where
  "dimension_result_json d = JObj [(ustr ''dimension_id'', JStr (dr_dimension_id d)), (ustr ''score'', jdec (dr_score d)),
     (ustr ''reason'', JStr (dr_reason d)), (ustr ''evidence'', JArr (map quote_json (dr_evidence d))),
     (ustr ''revision_suggestions'', JArr (map JStr (dr_revision_suggestions d)))]"

definition deduction_result_json :: "deduction_result \<Rightarrow> json" where
  "deduction_result_json x = JObj [(ustr ''deduction_id'', JStr (xr_deduction_id x)), (ustr ''applied'', JBool (xr_applied x)),
     (ustr ''reason'', JStr (xr_reason x)), (ustr ''evidence'', JArr (map quote_json (xr_evidence x)))]"

definition grade_result_json :: "'a grade_result_scheme \<Rightarrow> json" where
  "grade_result_json r = JObj [(ustr ''schema_version'', JStr result_schema_version),
     (ustr ''dimensions'', JArr (map dimension_result_json (gr_dimensions r))),
     (ustr ''deductions'', JArr (map deduction_result_json (gr_deductions r))),
     (ustr ''overall_feedback'', JStr (gr_overall_feedback r))]"

text \<open>\<open>canonical_json_bytes(a) != canonical_json_bytes(b)\<close>.\<close>

definition json_differs :: "json \<Rightarrow> json \<Rightarrow> review_exn + bool" where
  "json_differs a b = (case (canonical_json a, canonical_json b) of
     (Some s, Some t) \<Rightarrow> Inr (s \<noteq> t) | _ \<Rightarrow> Inl ReviewEncode)"

definition original_result :: "unicode_db \<Rightarrow> attempt_view \<Rightarrow> review_exn + grade_result" where
  "original_result U a =
     (let r = \<lparr>gr_dimensions = av_dimensions a, gr_deductions = av_deductions a, gr_overall_feedback = av_overall_feedback a\<rparr>
      in if result_ok U r then Inr r else Inl ReviewPydantic)"

section \<open>\<open>_validate_payload\<close>\<close>

definition strip_grade_prefix :: "string \<Rightarrow> string" where
  "strip_grade_prefix c = (if is_prefix ''grade_'' c then drop 6 c else c)"

definition review_error :: "grade_exn \<Rightarrow> review_exn" where
  "review_error e = (case e of GradeValidationError c _ \<Rightarrow> ReviewValidation (''review_'' @ strip_grade_prefix c)
     | _ \<Rightarrow> ReviewGrade e)"

definition target_request :: "review_target \<Rightarrow> parsed_document \<Rightarrow> grade_request option" where
  "target_request t d = make_grade_request
     \<lparr>greq_assignment_id = rt_assignment_id t, greq_assignment_title = rt_assignment_title t,
      greq_assignment_instructions = rt_assignment_instructions t, greq_rubric_version_id = rt_rubric_version_id t,
      greq_rubric_version = rt_rubric_version t, greq_rubric = rt_rubric t,
      greq_submission_id = rt_submission_id t, greq_document = d\<rparr>"

definition draft_data :: "review_draft_input \<Rightarrow> validated_grade_result \<Rightarrow> review_draft_data" where
  "draft_data p v = review_draft_input.extend p
     (review_draft_data.fields (vr_subtotal v) (vr_deduction_total v) (vr_total_score v))"

definition validate_payload ::
    "unicode_db \<Rightarrow> bool \<Rightarrow> review_target \<Rightarrow> parsed_document \<Rightarrow> review_draft_input \<Rightarrow> review_exn + review_draft_data" where
  "validate_payload U require_editable t d p =
     (if require_editable \<and> rt_item_status t \<noteq> ItemNeedsReview then Inl ReviewState
      else if \<not> require_editable \<and> rt_item_status t \<notin> {ItemNeedsReview, ItemCompleted} then Inl ReviewState
      else if dri_attempt_id p \<noteq> av_id (rt_attempt t) then Inl ReviewConflict
      else bindR (review_result U p) (\<lambda>result.
        case target_request t d of None \<Rightarrow> Inl ReviewPydantic
        | Some request \<Rightarrow>
          (case check_grade_result result request of
             Inl e \<Rightarrow> Inl (review_error e)
           | Inr v \<Rightarrow>
             bindR (original_result U (rt_attempt t)) (\<lambda>original.
             bindR (json_differs (grade_result_json result) (grade_result_json original)) (\<lambda>changed.
               if changed \<and> dri_change_reason p = None
               then Inl (ReviewValidation ''review_change_reason_required'')
               else Inr (draft_data p v))))))"

end
