(* ===== verification/Job_Contract.thy ===== *)
theory Job_Contract
  imports Grading_Prompt
begin

text \<open>
  The hashes a batch is created with: \<open>GradingJobCreate.request_hash\<close> and
  \<open>GradingProviderSnapshot.snapshot_hash\<close> of \<open>backend/app/workers/models.py\<close>, with the JSON of the
  provider models of \<open>providers/base.py\<close> that they cover.
\<close>

section \<open>The request of a batch\<close>

definition batch_request_json :: "uuid \<Rightarrow> uuid list \<Rightarrow> json" where
  "batch_request_json assignment subs = JObj [(ustr ''assignment_id'', JStr (uuid_text assignment)),
     (ustr ''submission_ids'', JArr (map (JStr \<circ> uuid_text) subs))]"

text \<open>The text is ASCII, so encoding it cannot fail.\<close>

definition batch_request_hash :: "prompt_env \<Rightarrow> uuid \<Rightarrow> uuid list \<Rightarrow> digest" where
  "batch_request_hash E assignment subs = pe_sha E (render_json (sort_keys (batch_request_json assignment subs)))"

lemma batch_request_encodable: "json_encodable (batch_request_json a subs)"
proof -
  have h: "\<forall>c \<in> set (hex_fixed k n). c < 128" for k n
    by (induction k arbitrary: n) (auto simp: hex_digit_def)
  have "encodable (uuid_text i)" for i
    using h [of 32 i] by (auto simp: uuid_text_def Let_def encodable_def dest!: in_set_takeD in_set_dropD) 
  then show ?thesis by (simp add: batch_request_json_def)
qed

section \<open>The provider snapshot\<close>

definition provider_type_text :: "provider_type \<Rightarrow> pystr" where
  "provider_type_text t = (case t of DeepSeek \<Rightarrow> ustr ''deepseek'' | Kimi \<Rightarrow> ustr ''kimi'' | Glm \<Rightarrow> ustr ''glm''
     | OpenAI \<Rightarrow> ustr ''openai'' | Anthropic \<Rightarrow> ustr ''anthropic'' | Gemini \<Rightarrow> ustr ''gemini''
     | OpenAICompatible \<Rightarrow> ustr ''openai_compatible'')"

definition tier_json :: "price_tier \<Rightarrow> json" where
  "tier_json t = JObj [(ustr ''up_to_input_tokens'', case tier_up_to t of None \<Rightarrow> JNull | Some n \<Rightarrow> JInt n),
     (ustr ''input_per_million'', jdec (tier_input t)), (ustr ''cache_read_per_million'', jdec (tier_cache_read t)),
     (ustr ''cache_write_per_million'', jdec (tier_cache_write t)), (ustr ''output_per_million'', jdec (tier_output t))]"

definition pricing_json :: "provider_pricing \<Rightarrow> json" where
  "pricing_json p = JObj [(ustr ''tariff_version'', JStr (pp_tariff_version p)), (ustr ''currency'', JStr (pp_currency p)),
     (ustr ''tiers'', JArr (map tier_json (pp_tiers p)))]"

definition capabilities_json :: "model_capabilities \<Rightarrow> json" where
  "capabilities_json c = JObj [(ustr ''capability_version'', JStr (cap_version c)), (ustr ''model'', JStr (cap_model c)),
     (ustr ''context_window_tokens'', JInt (cap_context_window c)), (ustr ''max_output_tokens'', JInt (cap_max_output c)),
     (ustr ''structured_output'', case cap_structured_output c of JsonSchema \<Rightarrow> jstr ''json_schema'' | JsonObject \<Rightarrow> jstr ''json_object''),
     (ustr ''schema_dialect'', case cap_schema_dialect c of DialectCanonical \<Rightarrow> jstr ''canonical'' | DialectOpenAI \<Rightarrow> jstr ''openai''
        | DialectAnthropic \<Rightarrow> jstr ''anthropic'' | DialectGemini \<Rightarrow> jstr ''gemini''),
     (ustr ''sampling_policy'', case cap_sampling_policy c of TemperatureZero \<Rightarrow> jstr ''temperature_zero''
        | TemperatureFixed06 \<Rightarrow> jstr ''temperature_fixed_0_6'' | DoSampleFalse \<Rightarrow> jstr ''do_sample_false'' | SamplingOmit \<Rightarrow> jstr ''omit''),
     (ustr ''thinking_policy'', case cap_thinking_policy c of ThinkingDisabled \<Rightarrow> jstr ''disabled''
        | ThinkingEnabled \<Rightarrow> jstr ''enabled'' | ThinkingOmit \<Rightarrow> jstr ''omit''),
     (ustr ''output_token_parameter'', case cap_output_parameter c of MaxTokens \<Rightarrow> jstr ''max_tokens''
        | MaxCompletionTokens \<Rightarrow> jstr ''max_completion_tokens'' | MaxOutputTokens \<Rightarrow> jstr ''max_output_tokens''),
     (ustr ''supports_model_listing'', JBool (cap_supports_listing c)),
     (ustr ''pricing'', case cap_pricing c of None \<Rightarrow> JNull | Some p \<Rightarrow> pricing_json p)]"

definition profile_json :: "model_profile \<Rightarrow> json" where
  "profile_json p = JObj [(ustr ''capabilities'', capabilities_json (prof_capabilities p)),
     (ustr ''grading_max_output_tokens'', JInt (prof_grading_max_output p))]"

text \<open>The timeout is a decimal of whole milliseconds.\<close>

definition snapshot_json :: "provider_snapshot \<Rightarrow> json" where
  "snapshot_json s = JObj [(ustr ''provider_type'', JStr (provider_type_text (snap_type s))),
     (ustr ''base_url'', JStr (snap_base_url s)), (ustr ''timeout_seconds'', jdec (Dec False (snap_timeout_ms s) (- 3))),
     (ustr ''max_concurrency'', JInt (snap_max_concurrency s)), (ustr ''model_profile'', profile_json (snap_profile s))]"

definition snapshot_hash :: "prompt_env \<Rightarrow> provider_snapshot \<Rightarrow> digest option" where
  "snapshot_hash E s = canonical_sha256 (pe_sha E) (snapshot_json s)"

section \<open>The request hash identifies the request\<close>

lemma hex_fixed_inj: "a < 16 ^ k \<Longrightarrow> b < 16 ^ k \<Longrightarrow> hex_fixed k a = hex_fixed k b \<Longrightarrow> a = b"
proof (induction k arbitrary: a b)
  case (Suc k)
  have "hex_fixed k (a div 16) = hex_fixed k (b div 16)" "hex_digit (a mod 16) = hex_digit (b mod 16)"
    using Suc.prems(3) by auto
  moreover have "a div 16 < 16 ^ k" "b div 16 < 16 ^ k" using Suc.prems(1,2) by (auto simp: less_mult_imp_div_less mult.commute)
  ultimately have "a div 16 = b div 16" "a mod 16 = b mod 16" using Suc.IH hex_digit_inj by auto
  then show ?case by (metis mult_div_mod_eq)
qed simp

lemma length_hex [simp]: "length (hex_fixed k n) = k"
  by (induction k arbitrary: n) auto

text \<open>A UUID is a 128 bit number.\<close>

definition is_uuid :: "uuid \<Rightarrow> bool" where
  "is_uuid i \<longleftrightarrow> i < 16 ^ 32"

lemma uuid_text_inj:
  assumes "is_uuid a" "is_uuid b" "uuid_text a = uuid_text b"
  shows "a = b"
proof -
  have parts: "hex_fixed 32 i = filter (\<lambda>c. c \<noteq> 45) (uuid_text i)" for i
  proof -
    let ?h = "hex_fixed 32 i"
    have "\<forall>c \<in> set (hex_fixed k n). c \<noteq> 45" for k n
      by (induction k arbitrary: n) (auto simp: hex_digit_def)
    then have f: "filter (\<lambda>c. c \<noteq> 45) s = s" if "set s \<subseteq> set ?h" for s
      using that by (intro filter_True) blast
    have "set (take n (drop m ?h)) \<subseteq> set ?h" for n m by (meson set_drop_subset set_take_subset subset_trans)
    then have t: "filter (\<lambda>c. c \<noteq> 45) (take n (drop m ?h)) = take n (drop m ?h)" for n m by (rule f)
    have "filter (\<lambda>c. c \<noteq> 45) (uuid_text i) =
        take 8 ?h @ take 4 (drop 8 ?h) @ take 4 (drop 12 ?h) @ take 4 (drop 16 ?h) @ drop 20 ?h"
      using t [of 8 0] t [of 4] f [of "drop 20 ?h"] set_drop_subset [of 20 ?h] by (simp add: uuid_text_def Let_def)
    also have "\<dots> = ?h"
      using append_take_drop_id [of 8 ?h] append_take_drop_id [of 4 "drop 8 ?h"] append_take_drop_id [of 4 "drop 12 ?h"]
        append_take_drop_id [of 4 "drop 16 ?h"] by simp
    finally show ?thesis by simp
  qed
  have "hex_fixed 32 a = hex_fixed 32 b" using parts [of a] parts [of b] assms(3) by simp
  then show ?thesis using hex_fixed_inj [of a 32 b] assms(1,2) unfolding is_uuid_def by blast
qed

lemma batch_request_inj:
  assumes "render_json (sort_keys (batch_request_json a xs)) = render_json (sort_keys (batch_request_json b ys))"
    and "is_uuid a" "is_uuid b" "\<forall>x \<in> set xs \<union> set ys. is_uuid x"
  shows "a = b \<and> xs = ys"
proof -
  have f: "float_free (batch_request_json c zs)" for c zs by (auto simp: batch_request_json_def)
  have "sort_keys (batch_request_json a xs) = sort_keys (batch_request_json b ys)"
    by (rule render_json_inj [OF _ _ assms(1)]) (simp_all add: float_free_sort f)
  moreover have "distinct (map fst [(ustr ''assignment_id'', u), (ustr ''submission_ids'', v :: json)])" for u v
    by (simp add: ustr_def)
  ultimately have get: "map_option sort_keys (map_of [(ustr ''assignment_id'', JStr (uuid_text a)),
      (ustr ''submission_ids'', JArr (map (JStr \<circ> uuid_text) xs))] k) = map_option sort_keys (map_of
      [(ustr ''assignment_id'', JStr (uuid_text b)), (ustr ''submission_ids'', JArr (map (JStr \<circ> uuid_text) ys))] k)" for k
    unfolding batch_request_json_def by (intro sort_keys_get) 
  have "uuid_text a = uuid_text b" using get [of "ustr ''assignment_id''"] by (simp add: ustr_def)
  moreover have "map (\<lambda>x. JStr (uuid_text x)) xs = map (\<lambda>x. JStr (uuid_text x)) ys"
    using get [of "ustr ''submission_ids''"] by (simp add: ustr_def comp_def)
  then have "map uuid_text xs = map uuid_text ys" by (rule map_determines) simp
  then have "xs = ys" by (rule map_inj_on) (use assms(4) uuid_text_inj in \<open>auto simp: inj_on_def\<close>)
  ultimately show ?thesis using uuid_text_inj assms(2,3) by blast
qed

end
