(* ===== verification/Pipeline_Db.thy ===== *)
theory Pipeline_Db
  imports Job_Contract
begin

text \<open>
  The tables of the grading pipeline as one state, and the row writes of PostgreSQL as the
  migrations define them: every update passes the protection triggers (history, snapshot and
  transition rules of migrations 0012, 0014, 0015 and 0016) and the check constraints of
  \<open>domain/models.py\<close>; an insert also passes the unique indexes. A rejected write is an exception
  and leaves no trace, because each transaction of the repository is one function.
\<close>

section \<open>State and exceptions\<close>

record pdb =
  db_active_teachers :: "uuid list"
  db_providers :: "provider_row list"
  db_assignments :: "assignment_row list"
  db_rubrics :: "rubric_row list"
  db_submissions :: "submission_row list"
  db_jobs :: "job_row list"
  db_items :: "item_row list"
  db_attempts :: "attempt_row list"
  db_reviews :: "review_row list"

datatype config_code = JobAssignmentInvalid | JobSubmissionsInvalid | JobProviderInvalid | JobConfigurationInvalid

datatype pipeline_exn =
    HistoryProtected
  | SnapshotImmutable
  | InvalidTransition
  | RetryVersion
  | CheckViolated
  | UniqueViolated
  | ForeignKeyViolated
  | ItemCountMismatch
  | RunningAttemptMissing
  | AttemptMissing
  | LeaseInvalid
  | ConfigurationError config_code
  | IdempotencyConflict
  | QuotaRejected
  | ModelValidation
  | TextEncode

definition find_job :: "uuid \<Rightarrow> pdb \<Rightarrow> job_row option" where
  "find_job i s = find (\<lambda>j. job_id j = i) (db_jobs s)"

definition find_item :: "uuid \<Rightarrow> pdb \<Rightarrow> item_row option" where
  "find_item i s = find (\<lambda>x. item_id x = i) (db_items s)"

definition find_attempt :: "uuid \<Rightarrow> pdb \<Rightarrow> attempt_row option" where
  "find_attempt i s = find (\<lambda>a. att_id a = i) (db_attempts s)"

definition find_provider :: "uuid \<Rightarrow> pdb \<Rightarrow> provider_row option" where
  "find_provider i s = find (\<lambda>p. prov_id p = i) (db_providers s)"

definition items_of :: "uuid \<Rightarrow> pdb \<Rightarrow> item_row list" where
  "items_of j s = filter (\<lambda>i. item_job i = j) (db_items s)"

definition item_active :: "item_row \<Rightarrow> bool" where
  "item_active i \<longleftrightarrow> item_status i = ItemQueued \<or> item_status i = ItemRunning"

section \<open>Papers of a batch\<close>

text \<open>\<open>paper_grading_protect_job_item\<close> in its current form (migration 0015).\<close>

definition item_transition :: "item_status \<Rightarrow> item_status \<Rightarrow> bool" where
  "item_transition a b \<longleftrightarrow>
     a = ItemQueued \<and> b \<in> {ItemRunning, ItemCancelled} \<or>
     a = ItemRunning \<and> b \<in> {ItemQueued, ItemNeedsReview, ItemCompleted, ItemFailed, ItemCancelled} \<or>
     a = ItemNeedsReview \<and> b = ItemCompleted \<or>
     a \<in> {ItemNeedsReview, ItemFailed} \<and> b = ItemQueued"

definition item_identity :: "item_row \<Rightarrow> uuid \<times> uuid \<times> uuid \<times> uuid \<times> uuid \<times> nat" where
  "item_identity i = (item_id i, item_owner i, item_assignment i, item_job i, item_submission i, item_position i)"

definition protect_job_item :: "item_row \<Rightarrow> item_row \<Rightarrow> pipeline_exn + unit" where
  "protect_job_item old new =
     (if item_identity new \<noteq> item_identity old then Inl SnapshotImmutable
      else if \<not> item_transition (item_status old) (item_status new) then Inl InvalidTransition
      else if item_status old \<in> {ItemNeedsReview, ItemFailed} \<and> item_status new = ItemQueued then
        ensure (item_version new = item_version old + 1 \<and> item_retries new = 0) RetryVersion
      else if item_status old = ItemRunning \<and> item_status new = ItemQueued then
        ensure (item_version new = item_version old \<and> item_retries new = item_retries old + 1) RetryVersion
      else ensure (item_version new = item_version old \<and> item_retries new = item_retries old) RetryVersion)"

definition write_item :: "item_row \<Rightarrow> item_row \<Rightarrow> pdb \<Rightarrow> pipeline_exn + pdb" where
  "write_item old new s =
     bindR (protect_job_item old new) (\<lambda>_.
     bindR (ensure (check_item new) CheckViolated) (\<lambda>_.
     Inr (s\<lparr>db_items := replace_row item_id old new (db_items s)\<rparr>)))"

section \<open>Batches\<close>

text \<open>
  \<open>paper_grading_protect_job_snapshot\<close>: the identity and input columns never change and the
  status follows the transition table.
\<close>

definition job_transition :: "job_status \<Rightarrow> job_status \<Rightarrow> bool" where
  "job_transition a b \<longleftrightarrow>
     a = b \<or>
     a = JobQueued \<and> b \<in> {JobRunning, JobPaused, JobCancelled} \<or>
     a = JobRunning \<and> b \<in> {JobPaused, JobNeedsReview, JobCompleted, JobFailed, JobCancelled} \<or>
     a = JobPaused \<and> b \<in> {JobRunning, JobNeedsReview, JobCompleted, JobFailed, JobCancelled} \<or>
     a = JobNeedsReview \<and> b \<in> {JobCompleted, JobFailed, JobCancelled} \<or>
     a \<in> {JobNeedsReview, JobCompleted, JobFailed} \<and> b = JobRunning"

definition job_snapshot :: "job_row \<Rightarrow> job_row" where
  "job_snapshot j = j\<lparr>job_status := JobQueued, job_state_version := 0, job_started := None,
     job_finished := None, job_updated := 0\<rparr>"

definition protect_job_snapshot :: "job_row \<Rightarrow> job_row \<Rightarrow> pipeline_exn + unit" where
  "protect_job_snapshot old new =
     (if job_snapshot new \<noteq> job_snapshot old then Inl SnapshotImmutable
      else ensure (job_transition (job_status old) (job_status new)) InvalidTransition)"

text \<open>
  \<open>paper_grading_preserve_active_job_status\<close> (migration 0016), which runs before the protection
  trigger when the update sets the status.
\<close>

definition preserve_active_status :: "time \<Rightarrow> pdb \<Rightarrow> job_row \<Rightarrow> job_row \<Rightarrow> job_row" where
  "preserve_active_status tx_now s old new =
     (if job_status new = JobNeedsReview \<and>
         (\<exists>i \<in> set (db_items s). item_job i = job_id new \<and> item_owner i = job_owner new \<and> item_active i)
      then (if job_status old = JobPaused then new\<lparr>job_status := JobPaused, job_finished := None\<rparr>
            else new\<lparr>job_status := JobRunning, job_finished := None,
                   job_started := (case job_started new of None \<Rightarrow> Some tx_now | Some t \<Rightarrow> Some t)\<rparr>)
      else new)"

text \<open>\<open>sets_status\<close> tells whether the statement names the column \<open>status\<close>.\<close>

definition write_job :: "time \<Rightarrow> bool \<Rightarrow> job_row \<Rightarrow> job_row \<Rightarrow> pdb \<Rightarrow> pipeline_exn + pdb" where
  "write_job tx_now sets_status old new s =
     (let new' = (if sets_status then preserve_active_status tx_now s old new else new) in
      bindR (protect_job_snapshot old new') (\<lambda>_.
      bindR (ensure (check_job new') CheckViolated) (\<lambda>_.
      Inr (s\<lparr>db_jobs := replace_row job_id old new' (db_jobs s)\<rparr>))))"

section \<open>Calls\<close>

text \<open>\<open>paper_grading_protect_attempt_history\<close>: an attempt leaves \<open>running\<close> once and keeps its input.\<close>

definition attempt_identity :: "attempt_row \<Rightarrow> attempt_row" where
  "attempt_identity a = a\<lparr>att_status := AttRunning, att_call_state := CallStarted, att_subtotal := None,
     att_deduction_total := None, att_total_score := None, att_criteria := None, att_deductions := None,
     att_feedback := None, att_raw_key := None, att_raw_sha256 := None, att_request_id := None,
     att_reported_model := None, att_usage := None, att_cost := None, att_error := None,
     att_details := None, att_finished := None\<rparr>"

definition protect_attempt_history :: "attempt_row \<Rightarrow> attempt_row \<Rightarrow> pipeline_exn + unit" where
  "protect_attempt_history old new =
     (if att_status old \<noteq> AttRunning \<or> att_status new = AttRunning then Inl HistoryProtected
      else ensure (attempt_identity new = attempt_identity old) SnapshotImmutable)"

text \<open>\<open>paper_grading_validate_attempt_score\<close>: the ceiling is the rubric's total.\<close>

definition attempt_score_ok :: "pdb \<Rightarrow> attempt_row \<Rightarrow> bool" where
  "attempt_score_ok s a \<longleftrightarrow>
     (\<exists>i \<in> set (db_items s). item_id i = att_item a \<and> item_owner i = att_owner a \<and>
      (\<exists>j \<in> set (db_jobs s). job_id j = item_job i \<and> job_assignment j = item_assignment i \<and>
         job_owner j = item_owner i \<and>
       (\<exists>v \<in> set (db_rubrics s). rv_id v = job_rubric_version j \<and> rv_assignment v = job_assignment j \<and>
          rv_owner v = job_owner j \<and> dec_eq (att_max_score a) (rv_total_score v))))"

text \<open>
  The unique indexes: primary key, number, call position, idempotency key, stored response, and
  one running attempt per paper.
\<close>

definition attempt_unique :: "attempt_row list \<Rightarrow> attempt_row \<Rightarrow> bool" where
  "attempt_unique others a \<longleftrightarrow>
     (\<forall>b \<in> set others. att_id b \<noteq> att_id a \<and>
        \<not> (att_item b = att_item a \<and> att_number b = att_number a) \<and>
        \<not> (att_item b = att_item a \<and> att_round b = att_round a \<and> att_sequence b = att_sequence a) \<and>
        \<not> (att_owner b = att_owner a \<and> att_key b = att_key a) \<and>
        \<not> (att_raw_key a \<noteq> None \<and> att_raw_key b = att_raw_key a) \<and>
        \<not> (att_status a = AttRunning \<and> att_status b = AttRunning \<and> att_item b = att_item a))"

definition parent_ok :: "pdb \<Rightarrow> attempt_row \<Rightarrow> bool" where
  "parent_ok s a \<longleftrightarrow> (case att_parent a of None \<Rightarrow> True
     | Some p \<Rightarrow> \<exists>b \<in> set (db_attempts s). att_id b = p \<and> att_item b = att_item a \<and> att_owner b = att_owner a)"

definition insert_attempt :: "attempt_row \<Rightarrow> pdb \<Rightarrow> pipeline_exn + pdb" where
  "insert_attempt a s =
     bindR (ensure (att_status a = AttRunning) HistoryProtected) (\<lambda>_.
     bindR (ensure (attempt_score_ok s a) CheckViolated) (\<lambda>_.
     bindR (ensure (check_attempt a) CheckViolated) (\<lambda>_.
     bindR (ensure (attempt_unique (db_attempts s) a) UniqueViolated) (\<lambda>_.
     bindR (ensure (parent_ok s a) ForeignKeyViolated) (\<lambda>_.
     Inr (s\<lparr>db_attempts := db_attempts s @ [a]\<rparr>))))))"

definition write_attempt :: "attempt_row \<Rightarrow> attempt_row \<Rightarrow> pdb \<Rightarrow> pipeline_exn + pdb" where
  "write_attempt old new s =
     bindR (protect_attempt_history old new) (\<lambda>_.
     bindR (ensure (attempt_score_ok s new) CheckViolated) (\<lambda>_.
     bindR (ensure (check_attempt new) CheckViolated) (\<lambda>_.
     bindR (ensure (attempt_unique (filter (\<lambda>b. att_id b \<noteq> att_id old) (db_attempts s)) new) UniqueViolated) (\<lambda>_.
     Inr (s\<lparr>db_attempts := replace_row att_id old new (db_attempts s)\<rparr>)))))"

section \<open>Inserting a batch\<close>

text \<open>\<open>grading_jobs_require_confirmed_rubric\<close> and the uniqueness of the idempotency key.\<close>

definition insert_job :: "job_row \<Rightarrow> pdb \<Rightarrow> pipeline_exn + pdb" where
  "insert_job j s =
     bindR (ensure (\<exists>v \<in> set (db_rubrics s). rv_id v = job_rubric_version j \<and>
        rv_assignment v = job_assignment j \<and> rv_owner v = job_owner j \<and> rv_status v = RubricConfirmed \<and>
        (\<exists>a \<in> set (db_assignments s). asg_id a = rv_assignment v \<and> asg_owner a = rv_owner v \<and>
           asg_status a = AssignmentReady)) CheckViolated) (\<lambda>_.
     bindR (ensure (check_job j) CheckViolated) (\<lambda>_.
     bindR (ensure (\<forall>k \<in> set (db_jobs s). job_id k \<noteq> job_id j \<and>
        \<not> (job_owner k = job_owner j \<and> job_key k = job_key j)) UniqueViolated) (\<lambda>_.
     Inr (s\<lparr>db_jobs := db_jobs s @ [j]\<rparr>))))"

text \<open>\<open>paper_grading_require_ready_job_item\<close> (migration 0013) and the unique positions.\<close>

definition insert_item :: "item_row \<Rightarrow> pdb \<Rightarrow> pipeline_exn + pdb" where
  "insert_item i s =
     bindR (ensure (\<exists>j \<in> set (db_jobs s). job_id j = item_job i \<and> job_assignment j = item_assignment i \<and>
        job_owner j = item_owner i \<and> job_status j = JobQueued \<and> item_position i < job_expected j) CheckViolated) (\<lambda>_.
     bindR (ensure (\<exists>u \<in> set (db_submissions s). sub_id u = item_submission i \<and>
        sub_assignment u = item_assignment i \<and> sub_owner u = item_owner i \<and> sub_status u = SubReady) CheckViolated) (\<lambda>_.
     bindR (ensure (check_item i) CheckViolated) (\<lambda>_.
     bindR (ensure (\<forall>k \<in> set (db_items s). item_id k \<noteq> item_id i \<and>
        \<not> (item_job k = item_job i \<and> (item_submission k = item_submission i \<or> item_position k = item_position i)))
        UniqueViolated) (\<lambda>_.
     Inr (s\<lparr>db_items := db_items s @ [i]\<rparr>)))))"

fun insert_items :: "item_row list \<Rightarrow> pdb \<Rightarrow> pipeline_exn + pdb" where
  "insert_items [] s = Inr s"
| "insert_items (i # is) s = bindR (insert_item i s) (insert_items is)"

text \<open>\<open>paper_grading_validate_job_item_count\<close>, deferred to the commit (migration 0014).\<close>

definition validate_item_count :: "uuid \<Rightarrow> pdb \<Rightarrow> pipeline_exn + unit" where
  "validate_item_count j s = (case find_job j s of None \<Rightarrow> Inl CheckViolated
     | Some r \<Rightarrow> ensure (length (items_of j s) = job_expected r) CheckViolated)"

end
