(* ===== verification/Pipeline_Repo.thy ===== *)
theory Pipeline_Repo
  imports Pipeline_Db
begin

text \<open>
  \<open>backend/app/workers/repository.py\<close> and the contracts of \<open>workers/models.py\<close>: each method of
  \<open>SqlAlchemyGradingJobRepository\<close> is one function on the state, because each runs in one
  transaction under row locks. \<open>now\<close> is the worker's clock (\<open>datetime.now(UTC)\<close>), \<open>db_now\<close>
  PostgreSQL's \<open>now()\<close>; new UUIDs and the hash function are parameters.
  \<open>control_grading_job\<close> is the SQL function of migration 0015 that \<open>control_job\<close> calls.
\<close>

section \<open>Views\<close>

record job_item_view =
  jiv_id :: uuid
  jiv_submission :: uuid
  jiv_position :: nat
  jiv_status :: item_status
  jiv_version :: nat
  jiv_attempts :: nat
  jiv_error :: "call_code option"

record job_view =
  jv_id :: uuid
  jv_status :: job_status
  jv_state_version :: nat
  jv_total :: nat
  jv_queued :: nat
  jv_running :: nat
  jv_needs_review :: nat
  jv_completed :: nat
  jv_failed :: nat
  jv_cancelled :: nat
  jv_items :: "job_item_view list"
  jv_job :: job_row

text \<open>The field constraints of the views and \<open>GradingJobView.validate_counts\<close>.\<close>

definition valid_item_view :: "job_item_view \<Rightarrow> bool" where
  "valid_item_view v \<longleftrightarrow> jiv_position v \<le> 99 \<and> 0 < jiv_version v"

definition valid_job_view :: "job_view \<Rightarrow> bool" where
  "valid_job_view v \<longleftrightarrow>
     0 < jv_state_version v \<and> 1 \<le> jv_total v \<and> jv_total v \<le> 100 \<and>
     length_between 1 100 (jv_items v) \<and> list_all valid_item_view (jv_items v) \<and>
     jv_queued v + jv_running v + jv_needs_review v + jv_completed v + jv_failed v + jv_cancelled v
       = jv_total v \<and>
     length (jv_items v) = jv_total v"

definition count_status :: "item_status \<Rightarrow> item_row list \<Rightarrow> nat" where
  "count_status st is = count_where (\<lambda>i. item_status i = st) is"

definition item_view :: "pdb \<Rightarrow> uuid \<Rightarrow> item_row \<Rightarrow> job_item_view" where
  "item_view s owner i = \<lparr>jiv_id = item_id i, jiv_submission = item_submission i,
     jiv_position = item_position i, jiv_status = item_status i, jiv_version = item_version i,
     jiv_attempts = count_where (\<lambda>a. att_owner a = owner \<and> att_item a = item_id i) (db_attempts s),
     jiv_error = item_error i\<rparr>"

text \<open>\<open>_load_job\<close>: \<open>None\<close> for an invisible batch; a view that fails validation is an exception.\<close>

definition load_job :: "pdb \<Rightarrow> uuid \<Rightarrow> uuid \<Rightarrow> pipeline_exn + job_view option" where
  "load_job s owner jid =
     (case find (\<lambda>j. job_id j = jid \<and> job_owner j = owner) (db_jobs s) of
        None \<Rightarrow> Inr None
      | Some j \<Rightarrow>
          let is = sort_key item_position (filter (\<lambda>i. item_job i = jid \<and> item_owner i = owner) (db_items s));
              v = \<lparr>jv_id = job_id j, jv_status = job_status j, jv_state_version = job_state_version j,
                   jv_total = job_expected j,
                   jv_queued = count_status ItemQueued is, jv_running = count_status ItemRunning is,
                   jv_needs_review = count_status ItemNeedsReview is,
                   jv_completed = count_status ItemCompleted is, jv_failed = count_status ItemFailed is,
                   jv_cancelled = count_status ItemCancelled is,
                   jv_items = map (item_view s owner) is, jv_job = j\<rparr>
          in bindR (ensure (valid_job_view v) ModelValidation) (\<lambda>_. Inr (Some v)))"

definition get_job :: "pdb \<Rightarrow> uuid \<Rightarrow> uuid \<Rightarrow> pipeline_exn + job_view option" where
  "get_job s owner jid = load_job s owner jid"

section \<open>Creating a batch\<close>

text \<open>\<open>GradingJobCreate\<close> with its validators.\<close>

record job_create =
  jc_submissions :: "uuid list"
  jc_key :: pystr

definition validate_job_create :: "job_create \<Rightarrow> job_create option" where
  "validate_job_create p =
     (let key = py_strip (jc_key p) in
      if length_between 1 100 (jc_submissions p) \<and> length_between 1 200 (jc_key p) \<and> key \<noteq> [] \<and>
         distinct (jc_submissions p)
      then Some (p\<lparr>jc_key := key\<rparr>) else None)"

text \<open>
  The parameters of a creation: the hash function and schemas of the prompts, the case table for
  rubric validation, the answer of the quota gate, and the new identifiers and time.
\<close>

record creation_env =
  ce_prompt :: prompt_env
  ce_casefold :: "pystr \<Rightarrow> pystr"
  ce_quota_ok :: "uuid \<Rightarrow> pystr \<Rightarrow> nat \<Rightarrow> bool"
  ce_job_id :: uuid
  ce_item_ids :: "uuid list"
  ce_now :: time

text \<open>A hash whose text cannot be encoded is an exception.\<close>

definition encoded :: "'a option \<Rightarrow> pipeline_exn + 'a" where
  "encoded x = (case x of None \<Rightarrow> Inl TextEncode | Some y \<Rightarrow> Inr y)"

definition reservation_bytes :: "nat \<Rightarrow> nat" where
  "reservation_bytes n = 64 * 1024 + n * (256 * 1024)"

text \<open>The checked provider and its snapshot.\<close>

definition provider_for_job :: "pdb \<Rightarrow> uuid \<Rightarrow> pystr \<Rightarrow> pipeline_exn + (provider_row \<times> provider_snapshot)" where
  "provider_for_job s pid model =
     (case find_provider pid s of
        None \<Rightarrow> Inl (ConfigurationError JobProviderInvalid)
      | Some p \<Rightarrow>
          if prov_status p \<noteq> ProviderEnabled \<or> prov_tested_version p \<noteq> Some (prov_config_version p) \<or>
             prov_default_model p = None \<or> prov_default_model p \<noteq> Some model
          then Inl (ConfigurationError JobProviderInvalid)
          else case map_of (prov_model_profiles p) model of
                 None \<Rightarrow> Inl (ConfigurationError JobProviderInvalid)
               | Some profile \<Rightarrow>
                   let snap = \<lparr>snap_type = prov_type p, snap_base_url = prov_base_url p,
                         snap_timeout_ms = prov_timeout_ms p,
                         snap_max_concurrency = prov_max_concurrency p, snap_profile = profile\<rparr>
                   in bindR (ensure (validate_profile profile) ModelValidation) (\<lambda>_.
                      bindR (ensure (validate_snapshot snap) ModelValidation) (\<lambda>_. Inr (p, snap))))"

definition new_items :: "creation_env \<Rightarrow> uuid \<Rightarrow> uuid \<Rightarrow> uuid list \<Rightarrow> item_row list" where
  "new_items env owner assignment subs =
     map (\<lambda>(n, iid, sid). \<lparr>item_id = iid, item_owner = owner, item_assignment = assignment,
        item_job = ce_job_id env, item_submission = sid, item_position = n, item_status = ItemQueued,
        item_version = 1, item_retries = 0, item_available = ce_now env, item_lease = None,
        item_lease_expires = None, item_started = None, item_finished = None, item_error = None,
        item_updated = ce_now env\<rparr>)
       (zip [0..<length subs] (zip (ce_item_ids env) subs))"

definition ready_submissions :: "pdb \<Rightarrow> uuid \<Rightarrow> uuid \<Rightarrow> uuid list \<Rightarrow> uuid set" where
  "ready_submissions s owner assignment subs =
     set (map sub_id (filter (\<lambda>u. sub_id u \<in> set subs \<and> sub_assignment u = assignment \<and>
        sub_owner u = owner \<and> sub_status u = SubReady) (db_submissions s)))"

text \<open>
  \<open>create_or_get_job\<close>. The branch after \<open>on_conflict_do_nothing\<close> is the first branch again, reached
  when another transaction inserted the same key in between; in a serial history it is the first.
\<close>

definition existing_job :: "pdb \<Rightarrow> uuid \<Rightarrow> pystr \<Rightarrow> job_row option" where
  "existing_job s owner key = find (\<lambda>j. job_owner j = owner \<and> job_key j = key) (db_jobs s)"

definition new_job ::
    "creation_env \<Rightarrow> uuid \<Rightarrow> assignment_row \<Rightarrow> rubric_row \<Rightarrow> contract_snapshot \<Rightarrow> provider_row \<Rightarrow>
     provider_snapshot \<Rightarrow> digest \<Rightarrow> pystr \<Rightarrow> job_create \<Rightarrow> job_row" where
  "new_job env owner a v contract p snap snap_hash model payload = \<lparr>job_id = ce_job_id env, job_owner = owner,
     job_assignment = asg_id a, job_rubric_version = rv_id v, job_provider = prov_id p,
     job_provider_version = prov_config_version p, job_title = asg_title a,
     job_instructions = asg_instructions a, job_expected = length (jc_submissions payload),
     job_request_hash = batch_request_hash (ce_prompt env) (asg_id a) (jc_submissions payload), job_model = model,
     job_parameters = snap, job_parameters_hash = snap_hash,
     job_contract = contract, job_key = jc_key payload, job_status = JobQueued,
     job_state_version = 1, job_started = None, job_finished = None, job_created = ce_now env,
     job_updated = ce_now env\<rparr>"

definition insert_batch ::
    "creation_env \<Rightarrow> uuid \<Rightarrow> job_row \<Rightarrow> uuid list \<Rightarrow> pdb \<Rightarrow> pipeline_exn + (pdb \<times> job_view)" where
  "insert_batch env owner j subs s =
     bindR (insert_job j s) (\<lambda>s1.
     bindR (insert_items (new_items env owner (job_assignment j) subs) s1) (\<lambda>s2.
     bindR (load_job s2 owner (job_id j)) (\<lambda>v. case v of
         None \<Rightarrow> Inl (ConfigurationError JobConfigurationInvalid)
       | Some view \<Rightarrow>
           bindR (validate_item_count (job_id j) s2) (\<lambda>_. Inr (s2, view)))))"

definition create_or_get_job ::
    "creation_env \<Rightarrow> uuid \<Rightarrow> uuid \<Rightarrow> job_create \<Rightarrow> pdb \<Rightarrow> pipeline_exn + (pdb \<times> job_view \<times> bool)" where
  "create_or_get_job env owner assignment payload s =
     (case existing_job s owner (jc_key payload) of
        Some j \<Rightarrow>
          if job_request_hash j \<noteq> batch_request_hash (ce_prompt env) assignment (jc_submissions payload)
          then Inl IdempotencyConflict
          else bindR (load_job s owner (job_id j)) (\<lambda>v. case v of
                 None \<Rightarrow> Inl (ConfigurationError JobConfigurationInvalid)
               | Some view \<Rightarrow> Inr (s, view, False))
      | None \<Rightarrow>
          if \<not> ce_quota_ok env owner (jc_key payload) (reservation_bytes (length (jc_submissions payload)))
          then Inl QuotaRejected
          else (case (find (\<lambda>a. asg_id a = assignment \<and> asg_owner a = owner \<and> asg_status a = AssignmentReady)
                        (db_assignments s),
                      find (\<lambda>v. rv_assignment v = assignment \<and> rv_owner v = owner \<and> rv_status v = RubricConfirmed)
                        (db_rubrics s)) of
              (Some a, Some v) \<Rightarrow>
                (case (rv_structured v, rv_provider v, rv_model v) of
                   (Some raw, Some pid, Some model) \<Rightarrow>
                     if ready_submissions s owner assignment (jc_submissions payload) \<noteq> set (jc_submissions payload)
                     then Inl (ConfigurationError JobSubmissionsInvalid)
                     else (case validate_rubric (ce_casefold env) raw of
                         Inl _ \<Rightarrow> Inl ModelValidation
                       | Inr rubric \<Rightarrow>
                           bindR (encoded (build_contract_snapshot (ce_prompt env) rubric grading_prompt_version)) (\<lambda>contract.
                           bindR (provider_for_job s pid model) (\<lambda>(p, snap).
                           bindR (encoded (snapshot_hash (ce_prompt env) snap)) (\<lambda>snap_hash.
                           bindR (insert_batch env owner (new_job env owner a v contract p snap snap_hash model payload)
                             (jc_submissions payload) s) (\<lambda>(s', view).
                           Inr (s', view, True))))))
                 | _ \<Rightarrow> Inl (ConfigurationError JobAssignmentInvalid))
            | _ \<Rightarrow> Inl (ConfigurationError JobAssignmentInvalid)))"

section \<open>Teacher control\<close>

datatype control_action = ActPause | ActResume | ActCancel | ActRetry

text \<open>
  \<open>paper_grading_private.control_grading_job\<close> (migration 0015): \<open>None\<close> is SQL's \<open>NULL\<close>, an action
  that the state does not allow.
\<close>

definition cancel_item :: "time \<Rightarrow> item_row \<Rightarrow> item_row" where
  "cancel_item db_now i = i\<lparr>item_status := ItemCancelled, item_finished := Some db_now, item_updated := db_now\<rparr>"

fun write_items :: "(item_row \<Rightarrow> item_row) \<Rightarrow> item_row list \<Rightarrow> pdb \<Rightarrow> pipeline_exn + pdb" where
  "write_items f [] s = Inr s"
| "write_items f (i # is) s = bindR (write_item i (f i) s) (write_items f is)"

definition started_or :: "time \<Rightarrow> time option \<Rightarrow> time option" where
  "started_or t x = (case x of None \<Rightarrow> Some t | Some y \<Rightarrow> Some y)"

definition retry_item :: "time \<Rightarrow> item_row \<Rightarrow> item_row" where
  "retry_item db_now i = i\<lparr>item_status := ItemQueued, item_version := item_version i + 1, item_retries := 0,
     item_available := db_now, item_lease := None, item_lease_expires := None, item_started := None,
     item_finished := None, item_error := None, item_updated := db_now\<rparr>"

definition review_confirmed :: "pdb \<Rightarrow> uuid \<Rightarrow> uuid \<Rightarrow> bool" where
  "review_confirmed s owner iid \<longleftrightarrow>
     (\<exists>r \<in> set (db_reviews s). rev_item r = iid \<and> rev_owner r = owner \<and> rev_status r = ReviewConfirmed)"

definition control_grading_job ::
    "time \<Rightarrow> uuid \<Rightarrow> uuid \<Rightarrow> control_action \<Rightarrow> uuid option \<Rightarrow> pdb \<Rightarrow> pipeline_exn + (pdb \<times> uuid option)" where
  "control_grading_job db_now teacher jid action target s =
     (if teacher \<notin> set (db_active_teachers s) then Inr (s, None)
      else case find (\<lambda>j. job_id j = jid \<and> job_owner j = teacher) (db_jobs s) of
        None \<Rightarrow> Inr (s, None)
      | Some j \<Rightarrow>
          if action = ActPause \<and> job_status j \<in> {JobQueued, JobRunning} then
            bindR (write_job db_now True j (j\<lparr>job_status := JobPaused, job_started := started_or db_now (job_started j),
              job_state_version := job_state_version j + 1, job_updated := db_now\<rparr>) s) (\<lambda>s'. Inr (s', Some jid))
          else if action = ActResume \<and> job_status j = JobPaused then
            bindR (write_job db_now True j (j\<lparr>job_status := JobRunning,
              job_state_version := job_state_version j + 1, job_updated := db_now\<rparr>) s) (\<lambda>s'. Inr (s', Some jid))
          else if action = ActCancel \<and> job_status j \<in> {JobQueued, JobRunning, JobPaused} then
            bindR (write_items (cancel_item db_now)
              (filter (\<lambda>i. item_job i = jid \<and> item_owner i = teacher \<and> item_status i = ItemQueued) (db_items s)) s) (\<lambda>s1.
            bindR (write_job db_now True j (j\<lparr>job_status := JobCancelled, job_started := started_or db_now (job_started j),
              job_finished := Some db_now, job_state_version := job_state_version j + 1, job_updated := db_now\<rparr>) s1)
              (\<lambda>s'. Inr (s', Some jid)))
          else (case (action, target) of
              (ActRetry, Some iid) \<Rightarrow>
                if \<not> (\<exists>p \<in> set (db_providers s). prov_id p = job_provider j \<and>
                       prov_config_version p = job_provider_version j)
                then Inr (s, None)
                else (case find (\<lambda>i. item_id i = iid \<and> item_job i = jid \<and> item_owner i = teacher \<and>
                          item_status i \<in> {ItemNeedsReview, ItemFailed} \<and> \<not> review_confirmed s teacher iid)
                        (db_items s) of
                    None \<Rightarrow> Inr (s, None)
                  | Some i \<Rightarrow>
                      bindR (write_item i (retry_item db_now i) s) (\<lambda>s1.
                      bindR (write_job db_now True j (j\<lparr>job_status := JobRunning,
                        job_started := started_or db_now (job_started j), job_finished := None,
                        job_state_version := job_state_version j + 1, job_updated := db_now\<rparr>) s1)
                        (\<lambda>s'. Inr (s', Some jid))))
            | _ \<Rightarrow> Inr (s, None)))"

text \<open>\<open>control_job\<close>: a view that fails validation aborts the transaction.\<close>

definition control_job ::
    "time \<Rightarrow> uuid \<Rightarrow> uuid \<Rightarrow> control_action \<Rightarrow> uuid option \<Rightarrow> pdb \<Rightarrow> pipeline_exn + (pdb \<times> job_view option)" where
  "control_job db_now teacher jid action target s =
     bindR (control_grading_job db_now teacher jid action target s) (\<lambda>(s', r). case r of
         None \<Rightarrow> Inr (s', None)
       | Some i \<Rightarrow> bindR (load_job s' teacher i) (\<lambda>v. Inr (s', v)))"

section \<open>What a worker exchanges with the repository\<close>

text \<open>The models of \<open>workers/tasks.py\<close>.\<close>

record preparation =
  pre_owner :: uuid
  pre_job :: uuid
  pre_item :: uuid
  pre_version :: nat
  pre_submission :: uuid
  pre_document_key :: object_key
  pre_assignment :: uuid
  pre_title :: pystr
  pre_instructions :: pystr
  pre_rubric_version_id :: uuid
  pre_rubric_version :: int
  pre_rubric :: structured_rubric
  pre_provider :: uuid
  pre_provider_version :: int
  pre_encrypted_key :: pystr
  pre_nonce :: pystr
  pre_model :: pystr
  pre_snapshot :: provider_snapshot
  pre_contract :: contract_snapshot
  pre_kind :: attempt_kind
  pre_parent :: "uuid option"
  pre_previous_key :: "object_key option"
  pre_previous_details :: "error_details option"

record claim =
  cl_attempt :: uuid
  cl_number :: nat
  cl_round :: nat
  cl_sequence :: nat
  cl_lease :: uuid
  cl_request_hash :: digest

record completion =
  co_result :: validated_grade_result
  co_provider :: provider_result
  co_key :: object_key
  co_sha256 :: digest

datatype failure_action = FailRetry | FailReview | FailFinal

record failure =
  fa_action :: failure_action
  fa_delay :: nat
  fa_code :: call_code
  fa_details :: error_details
  fa_call_state :: call_state
  fa_provider :: "provider_result option"
  fa_request_id :: "pystr option"
  fa_key :: "object_key option"
  fa_sha256 :: "digest option"

section \<open>Dispatch\<close>

text \<open>\<open>list_dispatchable_items\<close>.\<close>

definition item_dispatchable :: "time \<Rightarrow> pdb \<Rightarrow> item_row \<Rightarrow> bool" where
  "item_dispatchable db_now s i \<longleftrightarrow> item_status i = ItemQueued \<and> item_available i \<le> db_now \<and>
     (\<exists>j \<in> set (db_jobs s). job_id j = item_job i \<and> job_status j \<in> {JobQueued, JobRunning})"

definition job_created_of :: "pdb \<Rightarrow> item_row \<Rightarrow> time" where
  "job_created_of s i = (case find_job (item_job i) s of None \<Rightarrow> 0 | Some j \<Rightarrow> job_created j)"

definition list_dispatchable_items :: "time \<Rightarrow> nat \<Rightarrow> pdb \<Rightarrow> (uuid \<times> nat) list" where
  "list_dispatchable_items db_now limit s =
     take limit (map (\<lambda>i. (item_id i, item_version i))
       (sort_key (job_created_of s) (sort_key item_position (filter (item_dispatchable db_now s) (db_items s)))))"

section \<open>Reconciling a batch\<close>

text \<open>
  \<open>_reconcile_job\<close>: close the batch when no paper is queued or running. The update names the
  status column only when the value changed.
\<close>

definition reconciled_status :: "item_row list \<Rightarrow> time \<Rightarrow> job_row \<Rightarrow> job_row" where
  "reconciled_status is now j =
     (if job_status j \<noteq> JobCancelled \<and> count_status ItemQueued is = 0 \<and> count_status ItemRunning is = 0
      then if count_status ItemNeedsReview is \<noteq> 0 \<or> count_status ItemCompleted is \<noteq> 0
           then j\<lparr>job_status := JobNeedsReview, job_finished := None\<rparr>
           else if count_status ItemFailed is \<noteq> 0
           then j\<lparr>job_status := JobFailed, job_finished := Some now\<rparr>
           else j\<lparr>job_status := JobCancelled, job_finished := Some now\<rparr>
      else j)"

definition reconcile_job :: "time \<Rightarrow> time \<Rightarrow> job_row \<Rightarrow> pdb \<Rightarrow> pipeline_exn + pdb" where
  "reconcile_job now db_now j s =
     (let is = items_of (job_id j) s in
      if length is \<noteq> job_expected j then Inl ItemCountMismatch
      else let new = (reconciled_status is now j)\<lparr>job_state_version := job_state_version j + 1, job_updated := now\<rparr>
           in write_job db_now (job_status new \<noteq> job_status j) j new s)"

section \<open>Expired leases\<close>

definition item_lease_expired :: "time \<Rightarrow> item_row \<Rightarrow> bool" where
  "item_lease_expired db_now i \<longleftrightarrow> item_status i = ItemRunning \<and>
     (case item_lease_expires i of None \<Rightarrow> False | Some t \<Rightarrow> t \<le> db_now)"

definition running_attempt :: "uuid \<Rightarrow> pdb \<Rightarrow> attempt_row option" where
  "running_attempt iid s = find (\<lambda>a. att_item a = iid \<and> att_status a = AttRunning) (db_attempts s)"

definition expired_attempt :: "time \<Rightarrow> attempt_row \<Rightarrow> attempt_row" where
  "expired_attempt now a = a\<lparr>att_status := AttFailed, att_call_state := CallAmbiguous,
     att_error := Some CodeOutcomeUnknown, att_details := Some LeaseExpiredDetails, att_finished := Some now\<rparr>"

definition expired_item :: "time \<Rightarrow> item_row \<Rightarrow> item_row" where
  "expired_item now i = i\<lparr>item_status := ItemNeedsReview, item_finished := Some now, item_lease := None,
     item_lease_expires := None, item_error := Some CodeOutcomeUnknown, item_updated := now\<rparr>"

definition expire_one :: "time \<Rightarrow> time \<Rightarrow> item_row \<Rightarrow> pdb \<Rightarrow> pipeline_exn + (pdb \<times> bool)" where
  "expire_one now db_now c s =
     (case (find_job (item_job c) s,
            find (\<lambda>i. item_id i = item_id c \<and> item_lease_expired db_now i) (db_items s)) of
        (Some j, Some i) \<Rightarrow>
          (case running_attempt (item_id i) s of
             None \<Rightarrow> Inl RunningAttemptMissing
           | Some a \<Rightarrow>
               bindR (write_attempt a (expired_attempt now a) s) (\<lambda>s1.
               bindR (write_item i (expired_item now i) s1) (\<lambda>s2.
               bindR (reconcile_job now db_now j s2) (\<lambda>s3. Inr (s3, True)))))
      | _ \<Rightarrow> Inr (s, False))"

fun expire_each :: "time \<Rightarrow> time \<Rightarrow> item_row list \<Rightarrow> pdb \<Rightarrow> nat \<Rightarrow> pipeline_exn + (pdb \<times> nat)" where
  "expire_each now db_now [] s n = Inr (s, n)"
| "expire_each now db_now (c # cs) s n =
     bindR (expire_one now db_now c s) (\<lambda>(s', hit). expire_each now db_now cs s' (if hit then n + 1 else n))"

definition expire_stale_attempts :: "time \<Rightarrow> time \<Rightarrow> nat \<Rightarrow> pdb \<Rightarrow> pipeline_exn + (pdb \<times> nat)" where
  "expire_stale_attempts now db_now limit s =
     expire_each now db_now
       (take limit (sort_key (\<lambda>i. the (item_lease_expires i)) (sort_key item_id
          (filter (item_lease_expired db_now) (db_items s))))) s 0"

section \<open>Preparing a call\<close>

text \<open>
  The last attempt of a paper, and the last one of its current round that asked for a correction;
  \<open>ORDER BY attempt_number DESC LIMIT 1\<close> is the row with the greatest number.
\<close>

fun greatest_number :: "attempt_row list \<Rightarrow> attempt_row option" where
  "greatest_number [] = None"
| "greatest_number (a # as) = (case greatest_number as of
      None \<Rightarrow> Some a
    | Some b \<Rightarrow> if att_number a < att_number b then Some b else Some a)"

definition last_attempt :: "uuid \<Rightarrow> pdb \<Rightarrow> attempt_row option" where
  "last_attempt iid s = greatest_number (filter (\<lambda>a. att_item a = iid) (db_attempts s))"

definition correction_source :: "uuid \<Rightarrow> nat \<Rightarrow> pdb \<Rightarrow> attempt_row option" where
  "correction_source iid round s = greatest_number (filter (\<lambda>a. att_item a = iid \<and> att_round a = round \<and>
     att_error a = Some CodeCorrectionRequired) (db_attempts s))"

text \<open>The kind, parent, previous response and previous details of the next call.\<close>

definition call_plan ::
    "attempt_row option \<Rightarrow> attempt_row option \<Rightarrow> nat \<Rightarrow>
     attempt_kind \<times> uuid option \<times> object_key option \<times> error_details option" where
  "call_plan latest source version = (case source of
      Some c \<Rightarrow>
        ((case latest of Some l \<Rightarrow> if att_id l = att_id c then Correction else AutomaticRetry
          | None \<Rightarrow> AutomaticRetry),
         (case latest of Some l \<Rightarrow> Some (att_id l) | None \<Rightarrow> Some (att_id c)),
         att_raw_key c, att_details c)
    | None \<Rightarrow>
        if 1 < version \<and> (case latest of None \<Rightarrow> True | Some l \<Rightarrow> att_round l < version)
        then (ManualRetry, map_option att_id latest, None, None)
        else (case latest of Some l \<Rightarrow> (AutomaticRetry, Some (att_id l), None, None)
              | None \<Rightarrow> (Initial, None, None, None)))"

definition prepare_item ::
    "(pystr \<Rightarrow> pystr) \<Rightarrow> prompt_env \<Rightarrow> time \<Rightarrow> uuid \<Rightarrow> nat \<Rightarrow> pdb
       \<Rightarrow> pipeline_exn + preparation option" where
  "prepare_item cf E db_now iid version s =
     (case find (\<lambda>i. item_id i = iid \<and> item_version i = version \<and> item_status i = ItemQueued \<and>
              item_available i \<le> db_now) (db_items s) of
        None \<Rightarrow> Inr None
      | Some i \<Rightarrow>
     (case (find (\<lambda>j. job_id j = item_job i \<and> job_owner j = item_owner i \<and>
              job_status j \<in> {JobQueued, JobRunning}) (db_jobs s),
            find (\<lambda>u. sub_id u = item_submission i \<and> sub_owner u = item_owner i) (db_submissions s)) of
        (Some j, Some u) \<Rightarrow>
     (case (find (\<lambda>v. rv_id v = job_rubric_version j \<and> rv_owner v = job_owner j) (db_rubrics s),
            find_provider (job_provider j) s) of
        (Some v, Some p) \<Rightarrow>
          (case (sub_extracted_key u, rv_structured v, prov_encrypted_key p, prov_nonce p) of
             (Some doc, Some raw, Some k, Some n) \<Rightarrow>
               if sub_status u \<noteq> SubReady \<or> rv_status v \<noteq> RubricConfirmed \<or>
                  prov_config_version p \<noteq> job_provider_version j
               then Inl (ConfigurationError JobConfigurationInvalid)
               else if \<not> validate_snapshot (job_parameters j) then Inl ModelValidation
               else if snapshot_hash E (job_parameters j) = None then Inl TextEncode
               else if snapshot_hash E (job_parameters j) \<noteq> Some (job_parameters_hash j)
               then Inl (ConfigurationError JobConfigurationInvalid)
               else (case validate_rubric cf raw of
                   Inl _ \<Rightarrow> Inl ModelValidation
                 | Inr rubric \<Rightarrow>
                     let (kind, parent, key, details) =
                       call_plan (last_attempt iid s) (correction_source iid (item_version i) s) version
                     in Inr (Some \<lparr>pre_owner = item_owner i, pre_job = job_id j, pre_item = item_id i,
                          pre_version = item_version i, pre_submission = sub_id u, pre_document_key = doc,
                          pre_assignment = job_assignment j, pre_title = job_title j,
                          pre_instructions = job_instructions j, pre_rubric_version_id = rv_id v,
                          pre_rubric_version = rv_version v, pre_rubric = rubric, pre_provider = prov_id p,
                          pre_provider_version = prov_config_version p, pre_encrypted_key = k, pre_nonce = n,
                          pre_model = job_model j, pre_snapshot = job_parameters j,
                          pre_contract = job_contract j, pre_kind = kind, pre_parent = parent,
                          pre_previous_key = key, pre_previous_details = details\<rparr>))
           | _ \<Rightarrow> Inl (ConfigurationError JobConfigurationInvalid))
      | _ \<Rightarrow> Inr None)
      | _ \<Rightarrow> Inr None))"

section \<open>Claiming a call\<close>

text \<open>Under the advisory lock of the provider: the number of its running calls.\<close>

definition attempt_provider :: "pdb \<Rightarrow> attempt_row \<Rightarrow> uuid option" where
  "attempt_provider s a = Option.bind (find_item (att_item a) s) (\<lambda>i.
     map_option job_provider (find_job (item_job i) s))"

definition running_calls :: "uuid \<Rightarrow> pdb \<Rightarrow> nat" where
  "running_calls pid s =
     count_where (\<lambda>a. att_status a = AttRunning \<and> attempt_provider s a = Some pid) (db_attempts s)"

definition max_of :: "nat list \<Rightarrow> nat" where
  "max_of xs = foldr max xs 0"

definition next_number :: "uuid \<Rightarrow> pdb \<Rightarrow> nat" where
  "next_number iid s = max_of (map att_number (filter (\<lambda>a. att_item a = iid) (db_attempts s))) + 1"

definition next_sequence :: "uuid \<Rightarrow> nat \<Rightarrow> pdb \<Rightarrow> nat" where
  "next_sequence iid round s =
     max_of (map att_sequence (filter (\<lambda>a. att_item a = iid \<and> att_round a = round) (db_attempts s))) + 1"

definition new_attempt ::
    "preparation \<Rightarrow> digest \<Rightarrow> uuid \<Rightarrow> time \<Rightarrow> item_row \<Rightarrow> pdb \<Rightarrow> attempt_row" where
  "new_attempt p h aid now i s = \<lparr>att_id = aid, att_owner = item_owner i, att_item = item_id i,
     att_parent = pre_parent p, att_number = next_number (item_id i) s, att_round = item_version i,
     att_sequence = next_sequence (item_id i) (item_version i) s, att_kind = pre_kind p,
     att_status = AttRunning, att_call_started = now, att_call_state = CallStarted,
     att_request_hash = h, att_max_score = rub_total_score (pre_rubric p), att_subtotal = None,
     att_deduction_total = None, att_total_score = None, att_criteria = None, att_deductions = None,
     att_feedback = None, att_raw_key = None, att_raw_sha256 = None, att_request_id = None,
     att_reported_model = None, att_usage = None, att_cost = None, att_error = None,
     att_details = None, att_finished = None\<rparr>"

definition claimed_item :: "preparation \<Rightarrow> uuid \<Rightarrow> time \<Rightarrow> item_row \<Rightarrow> item_row" where
  "claimed_item p lease now i = i\<lparr>item_status := ItemRunning, item_started := started_or now (item_started i),
     item_lease := Some lease, item_lease_expires := Some (now + snap_timeout_ms (pre_snapshot p) + 30000),
     item_updated := now\<rparr>"

definition claimed_job :: "time \<Rightarrow> job_row \<Rightarrow> job_row" where
  "claimed_job now j = (if job_status j = JobQueued
      then j\<lparr>job_status := JobRunning, job_started := started_or now (job_started j)\<rparr> else j)
     \<lparr>job_state_version := job_state_version j + 1, job_updated := now\<rparr>"

definition claim_attempt ::
    "preparation \<Rightarrow> digest \<Rightarrow> uuid \<Rightarrow> uuid \<Rightarrow> time \<Rightarrow> time \<Rightarrow> pdb \<Rightarrow> pipeline_exn + (pdb \<times> claim option)" where
  "claim_attempt p h aid lease now db_now s =
     (if int (running_calls (pre_provider p) s) \<ge> snap_max_concurrency (pre_snapshot p) then Inr (s, None)
      else case find (\<lambda>i. item_id i = pre_item p \<and> item_owner i = pre_owner p) (db_items s) of
        None \<Rightarrow> Inr (s, None)
      | Some pointer \<Rightarrow>
     (case (find (\<lambda>j. job_id j = item_job pointer \<and> job_owner j = pre_owner p \<and>
              job_status j \<in> {JobQueued, JobRunning}) (db_jobs s),
            find (\<lambda>i. item_id i = pre_item p \<and> item_owner i = pre_owner p \<and>
              item_version i = pre_version p \<and> item_status i = ItemQueued \<and> item_available i \<le> db_now)
              (db_items s)) of
        (Some j, Some i) \<Rightarrow>
          let a = new_attempt p h aid now i s in
          bindR (insert_attempt a s) (\<lambda>s1.
          bindR (write_item i (claimed_item p lease now i) s1) (\<lambda>s2.
          bindR (write_job db_now (job_status j = JobQueued) j (claimed_job now j) s2) (\<lambda>s3.
          Inr (s3, Some \<lparr>cl_attempt = aid, cl_number = att_number a, cl_round = att_round a,
                 cl_sequence = att_sequence a, cl_lease = lease, cl_request_hash = h\<rparr>))))
      | _ \<Rightarrow> Inr (s, None)))"

section \<open>Finishing a call\<close>

text \<open>The rows a claim points at, or the exception of a lost lease.\<close>

definition locate_claim :: "claim \<Rightarrow> pdb \<Rightarrow> pipeline_exn + (job_row \<times> item_row \<times> attempt_row)" where
  "locate_claim c s = (case find_attempt (cl_attempt c) s of
      None \<Rightarrow> Inl AttemptMissing
    | Some a \<Rightarrow> (case find (\<lambda>i. item_id i = att_item a \<and> item_owner i = att_owner a) (db_items s) of
        None \<Rightarrow> Inl AttemptMissing
      | Some i \<Rightarrow> (case find_job (item_job i) s of
          None \<Rightarrow> Inl LeaseInvalid
        | Some j \<Rightarrow>
            if att_status a \<noteq> AttRunning \<or> item_status i \<noteq> ItemRunning \<or> item_lease i \<noteq> Some (cl_lease c)
            then Inl LeaseInvalid else Inr (j, i, a))))"

definition with_provider_result :: "provider_result \<Rightarrow> attempt_row \<Rightarrow> attempt_row" where
  "with_provider_result r a = a\<lparr>att_request_id := Some (res_request_id r),
     att_reported_model := Some (res_reported_model r), att_usage := Some (res_usage r),
     att_cost := (case res_cost r of None \<Rightarrow> att_cost a | Some c \<Rightarrow> Some c)\<rparr>"

definition succeeded_attempt :: "completion \<Rightarrow> time \<Rightarrow> attempt_row \<Rightarrow> attempt_row" where
  "succeeded_attempt c now a = (with_provider_result (co_provider c) a)\<lparr>att_status := AttSucceeded,
     att_call_state := CallResponseReceived, att_subtotal := Some (vr_subtotal (co_result c)),
     att_deduction_total := Some (vr_deduction_total (co_result c)),
     att_total_score := Some (vr_total_score (co_result c)),
     att_criteria := Some (gr_dimensions (co_result c)), att_deductions := Some (gr_deductions (co_result c)),
     att_feedback := Some (gr_overall_feedback (co_result c)), att_raw_key := Some (co_key c),
     att_raw_sha256 := Some (co_sha256 c), att_finished := Some now\<rparr>"

definition reviewed_item :: "time \<Rightarrow> item_row \<Rightarrow> item_row" where
  "reviewed_item now i = i\<lparr>item_status := ItemNeedsReview, item_finished := Some now, item_lease := None,
     item_lease_expires := None, item_error := None, item_updated := now\<rparr>"

definition finish_success :: "claim \<Rightarrow> completion \<Rightarrow> time \<Rightarrow> time \<Rightarrow> pdb \<Rightarrow> pipeline_exn + pdb" where
  "finish_success c x now db_now s =
     bindR (locate_claim c s) (\<lambda>(j, i, a).
     bindR (write_attempt a (succeeded_attempt x now a) s) (\<lambda>s1.
     bindR (write_item i (reviewed_item now i) s1) (\<lambda>s2.
     reconcile_job now db_now j s2)))"

definition failed_attempt :: "failure \<Rightarrow> time \<Rightarrow> attempt_row \<Rightarrow> attempt_row" where
  "failed_attempt f now a =
     (case fa_provider f of Some r \<Rightarrow> with_provider_result r a
      | None \<Rightarrow> (case fa_request_id f of None \<Rightarrow> a | Some q \<Rightarrow> a\<lparr>att_request_id := Some q\<rparr>))
     \<lparr>att_status := AttFailed, att_call_state := fa_call_state f, att_error := Some (fa_code f),
      att_details := Some (fa_details f), att_finished := Some now, att_raw_key := fa_key f,
      att_raw_sha256 := fa_sha256 f\<rparr>"

definition failed_item :: "failure \<Rightarrow> time \<Rightarrow> item_row \<Rightarrow> item_row" where
  "failed_item f now i =
     (let b = i\<lparr>item_lease := None, item_lease_expires := None, item_updated := now\<rparr> in
      case fa_action f of
        FailRetry \<Rightarrow> b\<lparr>item_status := ItemQueued, item_retries := item_retries i + 1,
          item_available := now + 1000 * fa_delay f, item_finished := None, item_error := None\<rparr>
      | FailReview \<Rightarrow> b\<lparr>item_status := ItemNeedsReview, item_finished := Some now, item_error := Some (fa_code f)\<rparr>
      | FailFinal \<Rightarrow> b\<lparr>item_status := ItemFailed, item_finished := Some now, item_error := Some (fa_code f)\<rparr>)"

definition finish_failure :: "claim \<Rightarrow> failure \<Rightarrow> time \<Rightarrow> time \<Rightarrow> pdb \<Rightarrow> pipeline_exn + pdb" where
  "finish_failure c f now db_now s =
     bindR (locate_claim c s) (\<lambda>(j, i, a).
     bindR (write_attempt a (failed_attempt f now a) s) (\<lambda>s1.
     bindR (write_item i (failed_item f now i) s1) (\<lambda>s2.
     reconcile_job now db_now j s2)))"

end
