(* ===== verification/Review_Db.thy ===== *)
theory Review_Db
  imports Review_Service Pipeline_Repo
begin

text \<open>
  The database side of a review, migrations 0002 and 0015: the protection triggers of
  \<open>teacher_reviews\<close>, the function that checks a review's content against the rubric and the model's
  result, and the two functions through which alone a teacher writes, \<open>save_teacher_review_draft\<close>
  and \<open>confirm_teacher_reviews\<close>. A raised SQLSTATE is a \<open>review_db_exn\<close>; the calling transaction is
  then rolled back.
\<close>

datatype review_db_exn =
    PgCheck
  | PgConflict
  | PgDivision
  | PgProtected
  | PgWrite pipeline_exn

definition on_write :: "pipeline_exn + 'a \<Rightarrow> review_db_exn + 'a" where
  "on_write m = (case m of Inl e \<Rightarrow> Inl (PgWrite e) | Inr x \<Rightarrow> Inr x)"

lemma on_write_Inr [simp]: "on_write m = Inr x \<longleftrightarrow> m = Inr x"
  by (auto simp: on_write_def split: sum.splits)

section \<open>Exact numbers\<close>

text \<open>PostgreSQL's \<open>numeric\<close>: sums and remainders without rounding.\<close>

definition num_add :: "decimal \<Rightarrow> decimal \<Rightarrow> decimal" where
  "num_add a b = (let e = min (dec_exp a) (dec_exp b); x = dec_at e a + dec_at e b in Dec (x < 0) (nat \<bar>x\<bar>) e)"

definition num_sum :: "decimal list \<Rightarrow> decimal" where
  "num_sum ds = foldl num_add dec_zero ds"

definition num_sub :: "decimal \<Rightarrow> decimal \<Rightarrow> decimal" where
  "num_sub a b = num_add a (dec_minus b)"

definition num_mod_zero :: "decimal \<Rightarrow> decimal \<Rightarrow> review_db_exn + bool" where
  "num_mod_zero a b = (let e = min (dec_exp a) (dec_exp b) in
     if dec_at e b = 0 then Inl PgDivision else Inr (dec_at e a mod dec_at e b = 0))"

text \<open>The pattern \<open>^(0|[1-9][0-9]*)(\.[0-9]{1,4})?$\<close> of a score.\<close>

definition whole_number_text :: "pystr \<Rightarrow> bool" where
  "whole_number_text s \<longleftrightarrow> s = [48] \<or> (s \<noteq> [] \<and> hd s \<noteq> 48 \<and> list_all is_digit s)"

definition score_pattern :: "pystr \<Rightarrow> bool" where
  "score_pattern s = (let w = takeWhile (\<lambda>c. c \<noteq> 46) s; r = dropWhile (\<lambda>c. c \<noteq> 46) s in
     whole_number_text w \<and> (r = [] \<or> length_between 1 4 (tl r) \<and> list_all is_digit (tl r)))"

section \<open>\<open>validate_teacher_review_payload\<close>\<close>

text \<open>The content of a review as the function receives it.\<close>

record review_content =
  rc_criteria :: "criterion_input list"
  rc_deductions :: "deduction_input list"
  rc_evidence :: "evidence_input list"
  rc_feedback :: pystr
  rc_change_reason :: "pystr option"
  rc_subtotal :: decimal
  rc_deduction_total :: decimal
  rc_final_score :: decimal

definition check_criterion :: "structured_rubric \<Rightarrow> criterion_input \<times> rubric_dimension \<Rightarrow> review_db_exn + unit" where
  "check_criterion q cd = (let c = fst cd; d = snd cd in
     if ci_dimension_id c \<noteq> dim_id d \<or> \<not> score_pattern (decimal_str (ci_score c)) \<or> blank (ci_reason c) \<or>
        ci_revision_suggestions c = [] \<or> dec_less (ci_score c) dec_zero \<or> dec_less (dim_max_score d) (ci_score c)
     then Inl PgCheck
     else bindR (num_mod_zero (ci_score c) (rub_score_step q)) (\<lambda>z. ensure z PgCheck))"

definition check_deduction :: "deduction_input \<times> rubric_deduction \<Rightarrow> review_db_exn + unit" where
  "check_deduction xd = ensure (di_deduction_id (fst xd) = ded_id (snd xd) \<and> \<not> blank (di_reason (fst xd))) PgCheck"

definition check_evidence :: "review_content \<Rightarrow> evidence_input \<Rightarrow> bool" where
  "check_evidence c e \<longleftrightarrow> is_block_id (ei_block_id e) \<and> \<not> blank (ei_quote e) \<and>
     (case ei_target_type e of
        TargetDimension \<Rightarrow> ei_target_id e \<in> set (map ci_dimension_id (rc_criteria c))
      | TargetDeduction \<Rightarrow> ei_target_id e \<in> set (map di_deduction_id (rc_deductions c)))"

text \<open>The comparison with the model's result, where scores are compared as text.\<close>

definition model_evidence :: "dimension_result list \<Rightarrow> deduction_result list \<Rightarrow> evidence_input list" where
  "model_evidence ds xs =
     concat (map (\<lambda>d. map (\<lambda>e. \<lparr>ei_target_type = TargetDimension, ei_target_id = dr_dimension_id d,
       ei_block_id = ev_block_id e, ei_quote = ev_quote e\<rparr>) (dr_evidence d)) ds) @
     concat (map (\<lambda>x. map (\<lambda>e. \<lparr>ei_target_type = TargetDeduction, ei_target_id = xr_deduction_id x,
       ei_block_id = ev_block_id e, ei_quote = ev_quote e\<rparr>) (xr_evidence x)) xs)"

definition criterion_text :: "criterion_input \<Rightarrow> pystr \<times> pystr \<times> pystr \<times> pystr list" where
  "criterion_text c = (ci_dimension_id c, decimal_str (ci_score c), ci_reason c, ci_revision_suggestions c)"

definition result_text :: "dimension_result \<Rightarrow> pystr \<times> pystr \<times> pystr \<times> pystr list" where
  "result_text d = (dr_dimension_id d, decimal_str (dr_score d), dr_reason d, dr_revision_suggestions d)"

definition differs_from_model ::
    "review_content \<Rightarrow> dimension_result list \<Rightarrow> deduction_result list \<Rightarrow> pystr option \<Rightarrow> bool" where
  "differs_from_model c ds xs fb \<longleftrightarrow>
     map criterion_text (rc_criteria c) \<noteq> map result_text ds \<or>
     map (\<lambda>x. (di_deduction_id x, di_applied x, di_reason x)) (rc_deductions c) \<noteq>
       map (\<lambda>x. (xr_deduction_id x, xr_applied x, xr_reason x)) xs \<or>
     rc_evidence c \<noteq> model_evidence ds xs \<or> Some (rc_feedback c) \<noteq> fb"

definition validate_review_payload ::
    "review_content \<Rightarrow> structured_rubric \<Rightarrow> dimension_result list \<Rightarrow> deduction_result list \<Rightarrow> pystr option \<Rightarrow> review_db_exn + unit" where
  "validate_review_payload c q ds xs fb =
     (if blank (rc_feedback c) then Inl PgCheck
      else if length (rc_criteria c) \<noteq> length (rub_dimensions q) \<or> length (rc_deductions c) \<noteq> length (rub_deductions q)
      then Inl PgCheck
      else bindR (mapR (check_criterion q) (zip (rc_criteria c) (rub_dimensions q))) (\<lambda>_.
      bindR (mapR check_deduction (zip (rc_deductions c) (rub_deductions q))) (\<lambda>_.
        if \<not> list_all (check_evidence c) (rc_evidence c) then Inl PgCheck
        else
          let subtotal = num_sum (map ci_score (rc_criteria c));
              deduction_total = num_sum (map (ded_points \<circ> snd)
                (filter (di_applied \<circ> fst) (zip (rc_deductions c) (rub_deductions q))))
          in if \<not> (dec_eq (rc_subtotal c) subtotal \<and> dec_eq (rc_deduction_total c) deduction_total \<and>
                   dec_eq (rc_final_score c) (dec_max dec_zero (num_sub subtotal deduction_total)))
             then Inl PgCheck
             else ensure (rc_change_reason c \<noteq> None \<or> \<not> differs_from_model c ds xs fb) PgCheck)))"

section \<open>Writing \<open>teacher_reviews\<close>\<close>

text \<open>\<open>paper_grading_protect_review_history\<close>.\<close>

definition review_identity :: "review_row \<Rightarrow> uuid \<times> uuid \<times> uuid \<times> uuid \<times> decimal" where
  "review_identity r = (rev_id r, rev_owner r, rev_item r, rev_attempt r, rev_max_score r)"

definition protect_review_history :: "review_row \<Rightarrow> review_row \<Rightarrow> review_db_exn + unit" where
  "protect_review_history old new =
     (if rev_status old = ReviewConfirmed then Inl PgProtected
      else if rev_status new = ReviewDraft \<and> rev_revision new \<noteq> rev_revision old + 1 then Inl PgProtected
      else if rev_status new = ReviewConfirmed \<and> rev_revision new \<noteq> rev_revision old then Inl PgProtected
      else ensure (review_identity new = review_identity old) PgProtected)"

text \<open>\<open>paper_grading_validate_review_score\<close>, with the foreign key to the attempt.\<close>

definition validate_review_score :: "pdb \<Rightarrow> review_row \<Rightarrow> bool" where
  "validate_review_score s r \<longleftrightarrow> (\<exists>a \<in> set (db_attempts s). att_id a = rev_attempt r \<and> att_item a = rev_item r \<and>
     att_owner a = rev_owner r \<and> dec_eq (rev_max_score r) (att_max_score a))"

text \<open>Primary key, one review per attempt, unique revisions and one confirmed review per paper.\<close>

definition review_unique :: "review_row list \<Rightarrow> review_row \<Rightarrow> bool" where
  "review_unique others r \<longleftrightarrow> (\<forall>b \<in> set others. rev_id b \<noteq> rev_id r \<and> rev_attempt b \<noteq> rev_attempt r \<and>
     \<not> (rev_item b = rev_item r \<and> rev_revision b = rev_revision r) \<and>
     \<not> (rev_status b = ReviewConfirmed \<and> rev_status r = ReviewConfirmed \<and> rev_item b = rev_item r))"

definition write_review :: "review_row \<Rightarrow> review_row \<Rightarrow> pdb \<Rightarrow> review_db_exn + pdb" where
  "write_review old new s =
     bindR (protect_review_history old new) (\<lambda>_.
     bindR (ensure (validate_review_score s new) PgCheck) (\<lambda>_.
     bindR (ensure (check_review new) PgCheck) (\<lambda>_.
     bindR (ensure (review_unique (filter (\<lambda>b. rev_id b \<noteq> rev_id old) (db_reviews s)) new) (PgWrite UniqueViolated)) (\<lambda>_.
     Inr (s\<lparr>db_reviews := replace_row rev_id old new (db_reviews s)\<rparr>)))))"

definition insert_review :: "review_row \<Rightarrow> pdb \<Rightarrow> review_db_exn + pdb" where
  "insert_review r s =
     bindR (ensure (validate_review_score s r) PgCheck) (\<lambda>_.
     bindR (ensure (check_review r) PgCheck) (\<lambda>_.
     bindR (ensure (review_unique (db_reviews s) r) (PgWrite UniqueViolated)) (\<lambda>_.
     Inr (s\<lparr>db_reviews := db_reviews s @ [r]\<rparr>))))"

section \<open>What a review refers to\<close>

definition succeeded_in_round :: "item_row \<Rightarrow> uuid \<Rightarrow> attempt_row \<Rightarrow> bool" where
  "succeeded_in_round i owner a \<longleftrightarrow> att_item a = item_id i \<and> att_owner a = owner \<and> att_status a = AttSucceeded \<and>
     att_round a = item_version i"

definition latest_success :: "pdb \<Rightarrow> item_row \<Rightarrow> uuid \<Rightarrow> attempt_row option" where
  "latest_success s i owner = greatest_number (filter (succeeded_in_round i owner) (db_attempts s))"

definition submission_of :: "pdb \<Rightarrow> item_row \<Rightarrow> submission_row option" where
  "submission_of s i = find (\<lambda>u. sub_id u = item_submission i \<and> sub_assignment u = item_assignment i \<and>
     sub_owner u = item_owner i) (db_submissions s)"

definition rubric_row_of :: "pdb \<Rightarrow> job_row \<Rightarrow> rubric_row option" where
  "rubric_row_of s j = find (\<lambda>v. rv_id v = job_rubric_version j \<and> rv_assignment v = job_assignment j \<and>
     rv_owner v = job_owner j) (db_rubrics s)"

definition job_of_item :: "pdb \<Rightarrow> item_row \<Rightarrow> job_row option" where
  "job_of_item s i = find (\<lambda>j. job_id j = item_job i \<and> job_owner j = item_owner i) (db_jobs s)"

text \<open>The elements of a result column; a null column has none.\<close>

definition elements :: "'a list option \<Rightarrow> 'a list" where
  "elements c = (case c of None \<Rightarrow> [] | Some xs \<Rightarrow> xs)"

definition check_against ::
    "review_content \<Rightarrow> structured_rubric \<Rightarrow> attempt_row \<Rightarrow> review_db_exn + unit" where
  "check_against c q a = validate_review_payload c q (elements (att_criteria a)) (elements (att_deductions a)) (att_feedback a)"

section \<open>\<open>save_teacher_review_draft\<close>\<close>

definition content_of :: "review_row \<Rightarrow> review_content" where
  "content_of r = \<lparr>rc_criteria = rev_criteria r, rc_deductions = rev_deductions r, rc_evidence = rev_evidence r,
     rc_feedback = rev_feedback r, rc_change_reason = rev_change_reason r, rc_subtotal = rev_subtotal r,
     rc_deduction_total = rev_deduction_total r, rc_final_score = rev_final_score r\<rparr>"

definition set_content :: "review_content \<Rightarrow> review_row \<Rightarrow> review_row" where
  "set_content c r = r\<lparr>rev_criteria := rc_criteria c, rev_deductions := rc_deductions c, rev_evidence := rc_evidence c,
     rev_feedback := rc_feedback c, rev_change_reason := rc_change_reason c, rev_subtotal := rc_subtotal c,
     rev_deduction_total := rc_deduction_total c, rev_final_score := rc_final_score c\<rparr>"

definition new_review :: "uuid \<Rightarrow> uuid \<Rightarrow> uuid \<Rightarrow> attempt_row \<Rightarrow> nat \<Rightarrow> review_content \<Rightarrow> review_row" where
  "new_review rid teacher iid a n c = \<lparr>rev_id = rid, rev_owner = teacher, rev_item = iid, rev_attempt = att_id a,
     rev_revision = n, rev_status = ReviewDraft, rev_max_score = att_max_score a, rev_subtotal = rc_subtotal c,
     rev_deduction_total = rc_deduction_total c, rev_final_score = rc_final_score c, rev_criteria = rc_criteria c,
     rev_deductions = rc_deductions c, rev_feedback = rc_feedback c, rev_evidence = rc_evidence c,
     rev_change_reason = rc_change_reason c, rev_confirmed_at = None\<rparr>"

text \<open>The rows a save works on, \<open>None\<close> where the function returns null.\<close>

definition save_context ::
    "uuid \<Rightarrow> uuid \<Rightarrow> uuid \<Rightarrow> pdb \<Rightarrow> (attempt_row \<times> structured_rubric) option" where
  "save_context teacher iid aid s =
     (if teacher \<notin> set (db_active_teachers s) then None
      else Option.bind (find (\<lambda>i. item_id i = iid \<and> item_owner i = teacher) (db_items s)) (\<lambda>i.
      if item_status i \<noteq> ItemNeedsReview then None
      else Option.bind (latest_success s i teacher) (\<lambda>a.
      if att_id a \<noteq> aid then None
      else Option.bind (job_of_item s i) (\<lambda>j. Option.bind (submission_of s i) (\<lambda>u. Option.bind (rubric_row_of s j) (\<lambda>v.
      if sub_status u \<noteq> SubReady \<or> sub_extracted_key u = None \<or> rv_status v = RubricDraft \<or>
         \<not> dec_eq (att_max_score a) (rv_total_score v)
      then None else map_option (Pair a) (rv_structured v)))))))"

definition next_revision :: "uuid \<Rightarrow> uuid \<Rightarrow> pdb \<Rightarrow> nat" where
  "next_revision teacher iid s = max_of (map rev_revision
     (filter (\<lambda>r. rev_item r = iid \<and> rev_owner r = teacher) (db_reviews s))) + 1"

definition save_teacher_review_draft ::
    "uuid \<Rightarrow> uuid \<Rightarrow> uuid \<Rightarrow> uuid \<Rightarrow> review_content \<Rightarrow> pdb \<Rightarrow> review_db_exn + (pdb \<times> uuid option)" where
  "save_teacher_review_draft new_id teacher iid aid c s =
     (case save_context teacher iid aid s of None \<Rightarrow> Inr (s, None)
      | Some (a, q) \<Rightarrow>
        bindR (check_against c q a) (\<lambda>_.
           case find (\<lambda>r. rev_attempt r = aid \<and> rev_item r = iid \<and> rev_owner r = teacher) (db_reviews s) of
             Some r \<Rightarrow>
               if rev_status r \<noteq> ReviewDraft then Inr (s, None)
               else bindR (write_review r (set_content c r\<lparr>rev_revision := rev_revision r + 1\<rparr>) s) (\<lambda>s'. Inr (s', Some (rev_id r)))
           | None \<Rightarrow>
               bindR (insert_review (new_review new_id teacher iid a (next_revision teacher iid s) c) s)
                 (\<lambda>s'. Inr (s', Some new_id))))"

section \<open>\<open>confirm_teacher_reviews\<close>\<close>

text \<open>A reference with its review; a review of another teacher or revision is not found.\<close>

definition referenced :: "uuid \<Rightarrow> pdb \<Rightarrow> uuid \<times> nat \<Rightarrow> review_row option" where
  "referenced teacher s ref = find (\<lambda>r. rev_id r = fst ref \<and> rev_revision r = snd ref \<and> rev_owner r = teacher) (db_reviews s)"

text \<open>The rows that the loop joins to one review.\<close>

record confirm_row =
  cf_review :: review_row
  cf_item :: item_row
  cf_job :: job_row
  cf_submission :: submission_row
  cf_rubric :: rubric_row
  cf_attempt :: attempt_row

definition confirm_join :: "pdb \<Rightarrow> review_row \<Rightarrow> confirm_row option" where
  "confirm_join s r =
     Option.bind (find (\<lambda>i. item_id i = rev_item r \<and> item_owner i = rev_owner r) (db_items s)) (\<lambda>i.
     Option.bind (job_of_item s i) (\<lambda>j.
     Option.bind (submission_of s i) (\<lambda>u.
     Option.bind (rubric_row_of s j) (\<lambda>v.
     map_option (\<lambda>a. \<lparr>cf_review = r, cf_item = i, cf_job = j, cf_submission = u, cf_rubric = v, cf_attempt = a\<rparr>)
       (find (\<lambda>a. att_id a = rev_attempt r \<and> att_item a = item_id i \<and> att_owner a = item_owner i) (db_attempts s))))))"

definition check_confirm :: "pdb \<Rightarrow> confirm_row \<Rightarrow> review_db_exn + unit" where
  "check_confirm s x =
     (let r = cf_review x; i = cf_item x; a = cf_attempt x in
      if rev_status r \<noteq> ReviewDraft \<or> item_status i \<noteq> ItemNeedsReview \<or> sub_status (cf_submission x) \<noteq> SubReady \<or>
         sub_extracted_key (cf_submission x) = None \<or> rv_status (cf_rubric x) = RubricDraft \<or>
         rv_structured (cf_rubric x) = None \<or> att_status a \<noteq> AttSucceeded \<or> att_round a \<noteq> item_version i \<or>
         \<not> dec_eq (rev_max_score r) (rv_total_score (cf_rubric x)) \<or>
         map_option att_id (latest_success s i (rev_owner r)) \<noteq> Some (rev_attempt r)
      then Inl PgConflict
      else (case rv_structured (cf_rubric x) of None \<Rightarrow> Inl PgConflict
        | Some q \<Rightarrow> check_against (content_of r) q a))"

text \<open>\<open>ORDER BY job.id, item.id, review.id\<close>.\<close>

definition confirm_order :: "confirm_row list \<Rightarrow> confirm_row list" where
  "confirm_order xs = sort_key (job_id \<circ> cf_job) (sort_key (item_id \<circ> cf_item) (sort_key (rev_id \<circ> cf_review) xs))"

definition confirmed_row :: "time \<Rightarrow> review_row \<Rightarrow> review_row" where
  "confirmed_row tx_now r = r\<lparr>rev_status := ReviewConfirmed, rev_confirmed_at := Some tx_now\<rparr>"

definition completed_item :: "time \<Rightarrow> item_row \<Rightarrow> item_row" where
  "completed_item tx_now i = i\<lparr>item_status := ItemCompleted, item_finished := Some tx_now, item_error := None,
     item_updated := tx_now\<rparr>"

fun write_reviews :: "time \<Rightarrow> review_row list \<Rightarrow> pdb \<Rightarrow> review_db_exn + pdb" where
  "write_reviews t [] s = Inr s"
| "write_reviews t (r # rs) s = bindR (write_review r (confirmed_row t r) s) (write_reviews t rs)"

text \<open>The last loop: each batch of a confirmed paper is completed, or needs review again.\<close>

definition settle_job :: "time \<Rightarrow> uuid \<Rightarrow> uuid \<Rightarrow> pdb \<Rightarrow> pipeline_exn + pdb" where
  "settle_job tx_now teacher jid s =
     (case find (\<lambda>j. job_id j = jid \<and> job_owner j = teacher) (db_jobs s) of None \<Rightarrow> Inr s
      | Some j \<Rightarrow>
          let open_item = (\<exists>i \<in> set (db_items s). item_job i = jid \<and> item_owner i = teacher \<and> item_status i \<noteq> ItemCompleted)
          in write_job tx_now True j (j\<lparr>job_status := if open_item then JobNeedsReview else JobCompleted,
               job_finished := if open_item then None else Some tx_now,
               job_state_version := job_state_version j + 1, job_updated := tx_now\<rparr>) s)"

fun settle_jobs :: "time \<Rightarrow> uuid \<Rightarrow> uuid list \<Rightarrow> pdb \<Rightarrow> pipeline_exn + pdb" where
  "settle_jobs t teacher [] s = Inr s"
| "settle_jobs t teacher (j # js) s = bindR (settle_job t teacher j s) (settle_jobs t teacher js)"

definition confirm_writes :: "time \<Rightarrow> uuid \<Rightarrow> review_row list \<Rightarrow> pdb \<Rightarrow> review_db_exn + pdb" where
  "confirm_writes tx_now teacher rs s =
     bindR (write_reviews tx_now rs s) (\<lambda>s1.
     bindR (on_write (write_items (completed_item tx_now)
       (filter (\<lambda>i. item_owner i = teacher \<and> item_id i \<in> set (map rev_item rs)) (db_items s1)) s1)) (\<lambda>s2.
     on_write (settle_jobs tx_now teacher (sort (remdups (map item_job
       (filter (\<lambda>i. item_owner i = teacher \<and> item_id i \<in> set (map rev_item rs)) (db_items s2))))) s2)))"

definition confirm_teacher_reviews ::
    "time \<Rightarrow> uuid \<Rightarrow> (uuid \<times> nat) list \<Rightarrow> pdb \<Rightarrow> review_db_exn + (pdb \<times> uuid list option)" where
  "confirm_teacher_reviews tx_now teacher refs s =
     (if teacher \<notin> set (db_active_teachers s) then Inr (s, None)
      else if \<not> length_between 1 100 refs \<or> \<not> distinct (map fst refs) \<or> (\<exists>r \<in> set refs. snd r = 0) then Inl PgCheck
      else case map_opt (referenced teacher s) refs of None \<Rightarrow> Inr (s, None)
        | Some rs \<Rightarrow>
            if \<forall>r \<in> set rs. rev_status r = ReviewConfirmed then Inr (s, Some (map fst refs))
            else if \<exists>r \<in> set rs. rev_status r = ReviewConfirmed then Inl PgConflict
            else bindR (mapR (check_confirm s) (confirm_order (List.map_filter (confirm_join s) rs))) (\<lambda>_.
                 bindR (confirm_writes tx_now teacher rs s) (\<lambda>s'. Inr (s', Some (map fst refs)))))"

end
