(* ===== verification/Pipeline_Inv.thy ===== *)
theory Pipeline_Inv
  imports Pipeline_Repo
begin

text \<open>
  The invariant of the pipeline tables and its preservation by every transaction of
  \<open>Pipeline_Repo\<close>: keys are unique and owners agree, every row passes its checks, a batch has as
  many papers as announced, a paper is running exactly while it has one running call, the status of
  a batch says whether papers are still to be processed, and the calls of a paper are numbered
  without gaps.
\<close>

section \<open>The invariant\<close>

definition keys_ok :: "pdb \<Rightarrow> bool" where
  "keys_ok s \<longleftrightarrow> distinct (map job_id (db_jobs s)) \<and> distinct (map item_id (db_items s)) \<and>
     distinct (map att_id (db_attempts s))"

definition job_refs :: "pdb \<Rightarrow> (uuid \<times> uuid) list" where
  "job_refs s = map (\<lambda>j. (job_id j, job_owner j)) (db_jobs s)"

definition links_ok :: "pdb \<Rightarrow> bool" where
  "links_ok s \<longleftrightarrow>
     set (map (\<lambda>i. (item_job i, item_owner i)) (db_items s)) \<subseteq> set (job_refs s) \<and>
     set (map (\<lambda>a. (att_item a, att_owner a)) (db_attempts s))
       \<subseteq> set (map (\<lambda>i. (item_id i, item_owner i)) (db_items s))"

definition checks_ok :: "pdb \<Rightarrow> bool" where
  "checks_ok s \<longleftrightarrow> (\<forall>j \<in> set (db_jobs s). check_job j) \<and> (\<forall>i \<in> set (db_items s). check_item i) \<and>
     (\<forall>a \<in> set (db_attempts s). check_attempt a)"

definition counts_ok :: "pdb \<Rightarrow> bool" where
  "counts_ok s \<longleftrightarrow> (\<forall>j \<in> set (db_jobs s). count_where (\<lambda>i. item_job i = job_id j) (db_items s) = job_expected j)"

definition is_running_call :: "uuid \<Rightarrow> attempt_row \<Rightarrow> bool" where
  "is_running_call i a \<longleftrightarrow> att_item a = i \<and> att_status a = AttRunning"

definition leases_ok :: "pdb \<Rightarrow> bool" where
  "leases_ok s \<longleftrightarrow> (\<forall>i \<in> set (db_items s).
     count_where (is_running_call (item_id i)) (db_attempts s) = (if item_status i = ItemRunning then 1 else 0))"

definition active_in :: "pdb \<Rightarrow> uuid \<Rightarrow> bool" where
  "active_in s j \<longleftrightarrow> (\<exists>i \<in> set (db_items s). item_job i = j \<and> item_active i)"

definition status_ok :: "pdb \<Rightarrow> bool" where
  "status_ok s \<longleftrightarrow> (\<forall>j \<in> set (db_jobs s).
     (job_status j \<noteq> JobCancelled \<longrightarrow>
        (job_status j \<in> {JobQueued, JobRunning, JobPaused} \<longleftrightarrow> active_in s (job_id j))) \<and>
     (job_status j = JobQueued \<longrightarrow>
        (\<forall>i \<in> set (db_items s). item_job i = job_id j \<longrightarrow> item_status i = ItemQueued)))"

text \<open>Calls of a paper, and of one of its rounds, are numbered \<open>1, 2, ...\<close> without gap or repetition.\<close>

definition calls_of :: "uuid \<Rightarrow> pdb \<Rightarrow> attempt_row list" where
  "calls_of i s = filter (\<lambda>a. att_item a = i) (db_attempts s)"

definition round_calls :: "uuid \<Rightarrow> nat \<Rightarrow> pdb \<Rightarrow> attempt_row list" where
  "round_calls i r s = filter (\<lambda>a. att_item a = i \<and> att_round a = r) (db_attempts s)"

definition numbers_ok :: "pdb \<Rightarrow> bool" where
  "numbers_ok s \<longleftrightarrow>
     (\<forall>i. map att_number (calls_of i s) = [1..<length (calls_of i s) + 1]) \<and>
     (\<forall>i r. map att_sequence (round_calls i r s) = [1..<length (round_calls i r s) + 1])"

definition rounds_ok :: "pdb \<Rightarrow> bool" where
  "rounds_ok s \<longleftrightarrow> (\<forall>a \<in> set (db_attempts s). \<forall>i \<in> set (db_items s).
     item_id i = att_item a \<longrightarrow> 1 \<le> att_round a \<and> att_round a \<le> item_version i)"

definition pipeline_ok :: "pdb \<Rightarrow> bool" where
  "pipeline_ok s \<longleftrightarrow> keys_ok s \<and> links_ok s \<and> checks_ok s \<and> counts_ok s \<and> leases_ok s \<and>
     status_ok s \<and> numbers_ok s \<and> rounds_ok s"

lemmas pipeline_parts = keys_ok_def links_ok_def checks_ok_def counts_ok_def leases_ok_def status_ok_def
  numbers_ok_def rounds_ok_def

section \<open>What a successful write did\<close>

lemma write_item_Inr: "write_item old new s = Inr s' \<longleftrightarrow>
    protect_job_item old new = Inr () \<and> check_item new \<and>
    s' = s\<lparr>db_items := replace_row item_id old new (db_items s)\<rparr>"
  by (auto simp: write_item_def)

lemma protect_item_identity: "protect_job_item old new = Inr () \<Longrightarrow> item_identity new = item_identity old"
  by (auto simp: protect_job_item_def split: if_splits)

lemma protect_item_transition:
  "protect_job_item old new = Inr () \<Longrightarrow> item_transition (item_status old) (item_status new)"
  by (auto simp: protect_job_item_def split: if_splits)

lemma protect_item_version: "protect_job_item old new = Inr () \<Longrightarrow> item_version old \<le> item_version new"
  by (auto simp: protect_job_item_def split: if_splits)

lemma write_job_Inr: "write_job t f old new s = Inr s' \<longleftrightarrow>
    (let n = (if f then preserve_active_status t s old new else new) in
     protect_job_snapshot old n = Inr () \<and> check_job n \<and>
     s' = s\<lparr>db_jobs := replace_row job_id old n (db_jobs s)\<rparr>)"
  by (auto simp: write_job_def Let_def)

lemma job_snapshot_fields:
  "job_snapshot a = job_snapshot b \<Longrightarrow> job_id a = job_id b \<and> job_owner a = job_owner b \<and>
     job_expected a = job_expected b \<and> job_provider a = job_provider b \<and>
     job_parameters a = job_parameters b \<and> job_assignment a = job_assignment b \<and>
     job_rubric_version a = job_rubric_version b"
  by (cases a; cases b) (simp add: job_snapshot_def)

lemma protect_job_fields:
  "protect_job_snapshot old new = Inr () \<Longrightarrow> job_id new = job_id old \<and> job_owner new = job_owner old \<and>
     job_expected new = job_expected old \<and> job_provider new = job_provider old \<and>
     job_parameters new = job_parameters old \<and> job_assignment new = job_assignment old \<and>
     job_rubric_version new = job_rubric_version old"
  using job_snapshot_fields [of new old] by (auto simp: protect_job_snapshot_def split: if_splits)

lemma write_attempt_Inr: "write_attempt old new s = Inr s' \<Longrightarrow>
    att_status old = AttRunning \<and> att_status new \<noteq> AttRunning \<and>
    attempt_identity new = attempt_identity old \<and> check_attempt new \<and>
    s' = s\<lparr>db_attempts := replace_row att_id old new (db_attempts s)\<rparr>"
  by (auto simp: write_attempt_def protect_attempt_history_def split: if_splits)

lemma attempt_identity_fields:
  "attempt_identity a = attempt_identity b \<Longrightarrow> att_id a = att_id b \<and> att_owner a = att_owner b \<and>
     att_item a = att_item b \<and> att_number a = att_number b \<and> att_round a = att_round b \<and>
     att_sequence a = att_sequence b \<and> att_kind a = att_kind b \<and> att_parent a = att_parent b \<and>
     att_request_hash a = att_request_hash b \<and> att_max_score a = att_max_score b"
  by (cases a; cases b) (simp add: attempt_identity_def)

lemma insert_attempt_Inr: "insert_attempt a s = Inr s' \<longleftrightarrow>
    att_status a = AttRunning \<and> attempt_score_ok s a \<and> check_attempt a \<and>
    attempt_unique (db_attempts s) a \<and> parent_ok s a \<and> s' = s\<lparr>db_attempts := db_attempts s @ [a]\<rparr>"
  by (auto simp: insert_attempt_def)

section \<open>Replacing one row of each table\<close>

lemma map_filter_same:
  assumes "map g xs = map g ys" "\<And>x y. g x = g y \<Longrightarrow> f x = f y \<and> p x = p y"
  shows "map f (filter p xs) = map f (filter p ys)"
proof -
  have "list_all2 (\<lambda>x y. g x = g y) xs ys"
    using assms(1) by (simp add: list_all2_conv_all_nth list_eq_iff_nth_eq)
  then show ?thesis
  proof (induction rule: list_all2_induct)
    case (Cons x xs y ys)
    then show ?case using assms(2) [of x y] by simp
  qed simp
qed

lemma replace_same:
  assumes "distinct (map k rs)" "x \<in> set rs" "f x' = f x"
  shows "map f (replace_row k x x' rs) = map f rs"
  by (rule replace_row_map) (use assms distinct_map_eqD in metis)

definition call_place :: "attempt_row \<Rightarrow> uuid \<times> nat \<times> nat \<times> nat" where
  "call_place a = (att_item a, att_round a, att_number a, att_sequence a)"

lemma numbers_ok_same:
  assumes "numbers_ok s" "map call_place (db_attempts s') = map call_place (db_attempts s)"
  shows "numbers_ok s'"
proof -
  have n: "map att_number (calls_of i s') = map att_number (calls_of i s)" for i
    unfolding calls_of_def by (rule map_filter_same [OF assms(2)]) (simp add: call_place_def)
  have q: "map att_sequence (round_calls i r s') = map att_sequence (round_calls i r s)" for i r
    unfolding round_calls_def by (rule map_filter_same [OF assms(2)]) (simp add: call_place_def)
  have "length (calls_of i s') = length (calls_of i s)" "length (round_calls i r s') = length (round_calls i r s)" for i r
    using arg_cong [OF n, of length] arg_cong [OF q, of length] by simp_all
  then show ?thesis using assms(1) n q by (simp add: numbers_ok_def)
qed

text \<open>
  The state after one item \<open>i\<close>, its batch \<open>j\<close> and possibly one call \<open>a\<close> were replaced: what does not
  depend on statuses is preserved whenever the identities are.
\<close>

definition job_status_ok :: "pdb \<Rightarrow> job_row \<Rightarrow> bool" where
  "job_status_ok s j \<longleftrightarrow>
     (job_status j \<noteq> JobCancelled \<longrightarrow>
        (job_status j \<in> {JobQueued, JobRunning, JobPaused} \<longleftrightarrow> active_in s (job_id j))) \<and>
     (job_status j = JobQueued \<longrightarrow>
        (\<forall>i \<in> set (db_items s). item_job i = job_id j \<longrightarrow> item_status i = ItemQueued))"

lemma status_ok_iff: "status_ok s \<longleftrightarrow> (\<forall>j \<in> set (db_jobs s). job_status_ok s j)"
  by (simp add: status_ok_def job_status_ok_def)

text \<open>The invariant without the status of the batch \<open>x\<close>, which holds between the writes of a transaction.\<close>

definition almost_ok :: "uuid \<Rightarrow> pdb \<Rightarrow> bool" where
  "almost_ok x s \<longleftrightarrow> keys_ok s \<and> links_ok s \<and> checks_ok s \<and> counts_ok s \<and> leases_ok s \<and>
     numbers_ok s \<and> rounds_ok s \<and> (\<forall>j \<in> set (db_jobs s). job_id j \<noteq> x \<longrightarrow> job_status_ok s j)"

lemma pipeline_almost: "pipeline_ok s \<Longrightarrow> almost_ok x s"
  by (simp add: pipeline_ok_def almost_ok_def status_ok_iff)

lemma almost_pipeline:
  assumes "almost_ok (job_id j) s" "j \<in> set (db_jobs s)" "job_status_ok s j"
  shows "pipeline_ok s"
proof -
  have "job_status_ok s k" if "k \<in> set (db_jobs s)" for k
    using assms that by (cases "k = j") (auto simp: almost_ok_def keys_ok_def dest: distinct_map_eqD)
  then show ?thesis using assms(1) by (simp add: pipeline_ok_def almost_ok_def status_ok_iff)
qed

definition row_change ::
    "pdb \<Rightarrow> pdb \<Rightarrow> item_row \<Rightarrow> item_row \<Rightarrow> job_row \<Rightarrow> job_row \<Rightarrow> bool" where
  "row_change s s' i i' j j' \<longleftrightarrow>
     almost_ok (job_id j) s \<and> i \<in> set (db_items s) \<and> j \<in> set (db_jobs s) \<and> item_job i = job_id j \<and>
     db_items s' = replace_row item_id i i' (db_items s) \<and> db_jobs s' = replace_row job_id j j' (db_jobs s) \<and>
     item_identity i' = item_identity i \<and> item_version i \<le> item_version i' \<and>
     check_item i' \<and> check_job j' \<and>
     job_id j' = job_id j \<and> job_owner j' = job_owner j \<and> job_expected j' = job_expected j"

lemma row_changeD:
  assumes "row_change s s' i i' j j'"
  shows "almost_ok (job_id j) s" "i \<in> set (db_items s)" "j \<in> set (db_jobs s)" "item_job i = job_id j"
    "distinct (map job_id (db_jobs s))" "distinct (map item_id (db_items s))"
    "distinct (map att_id (db_attempts s))"
    "item_id i' = item_id i" "item_owner i' = item_owner i" "item_job i' = item_job i"
    "job_id j' = job_id j" "job_owner j' = job_owner j" "job_expected j' = job_expected j"
    "set (db_items s') = insert i' (set (db_items s) - {i})"
    "set (db_jobs s') = insert j' (set (db_jobs s) - {j})"
    "map item_id (db_items s') = map item_id (db_items s)"
    "map job_id (db_jobs s') = map job_id (db_jobs s)"
proof -
  note d = assms [unfolded row_change_def item_identity_def]
  show k: "distinct (map job_id (db_jobs s))" "distinct (map item_id (db_items s))"
    "distinct (map att_id (db_attempts s))" and m: "i \<in> set (db_items s)" "j \<in> set (db_jobs s)"
    using d by (auto simp: almost_ok_def keys_ok_def)
  show "almost_ok (job_id j) s" "item_job i = job_id j"
    "item_id i' = item_id i" "item_owner i' = item_owner i" "item_job i' = item_job i"
    "job_id j' = job_id j" "job_owner j' = job_owner j" "job_expected j' = job_expected j"
    using d by auto
  show "set (db_items s') = insert i' (set (db_items s) - {i})" using d replace_row_set [OF k(2) m(1)] by simp
  show "set (db_jobs s') = insert j' (set (db_jobs s) - {j})" using d replace_row_set [OF k(1) m(2)] by simp
  show "map item_id (db_items s') = map item_id (db_items s)" using d by (simp add: replace_row_keys)
  show "map job_id (db_jobs s') = map job_id (db_jobs s)" using d by (simp add: replace_row_keys)
qed

lemma row_change_links:
  assumes "row_change s s' i i' j j'"
  shows "job_refs s' = job_refs s"
    "map (\<lambda>i. (item_id i, item_owner i)) (db_items s') = map (\<lambda>i. (item_id i, item_owner i)) (db_items s)"
    "map (\<lambda>i. (item_job i, item_owner i)) (db_items s') = map (\<lambda>i. (item_job i, item_owner i)) (db_items s)"
proof -
  note D = row_changeD [OF assms]
  have r: "db_items s' = replace_row item_id i i' (db_items s)" "db_jobs s' = replace_row job_id j j' (db_jobs s)"
    using assms by (auto simp: row_change_def)
  show "job_refs s' = job_refs s"
    unfolding job_refs_def r by (rule replace_same [OF D(5,3)]) (simp add: D)
  show "map (\<lambda>i. (item_id i, item_owner i)) (db_items s') = map (\<lambda>i. (item_id i, item_owner i)) (db_items s)"
    "map (\<lambda>i. (item_job i, item_owner i)) (db_items s') = map (\<lambda>i. (item_job i, item_owner i)) (db_items s)"
    unfolding r by (rule replace_same [OF D(6,2)]; simp add: D)+
qed

lemma row_change_counts:
  assumes "row_change s s' i i' j j'"
  shows "counts_ok s'"
proof -
  note D = row_changeD [OF assms]
  have r: "db_items s' = replace_row item_id i i' (db_items s)" using assms by (auto simp: row_change_def)
  have c: "count_where (\<lambda>i. item_job i = x) (db_items s') = count_where (\<lambda>i. item_job i = x) (db_items s)" for x
    using replace_row_count [OF D(6,2), of "\<lambda>i. item_job i = x" i'] by (simp add: r D)
  have "counts_ok s" using D(1) by (simp add: almost_ok_def)
  then show ?thesis using D(3) unfolding counts_ok_def D(15) c by (auto simp: D)
qed

lemma row_change_other:
  assumes "row_change s s' i i' j j'"
  shows "k \<in> set (db_jobs s) \<Longrightarrow> k \<noteq> j \<Longrightarrow> job_id k \<noteq> job_id j"
    "l \<in> set (db_items s) \<Longrightarrow> l \<noteq> i \<Longrightarrow> item_id l \<noteq> item_id i"
    "x \<noteq> job_id j \<Longrightarrow> active_in s' x = active_in s x"
proof -
  note D = row_changeD [OF assms]
  show "k \<in> set (db_jobs s) \<Longrightarrow> k \<noteq> j \<Longrightarrow> job_id k \<noteq> job_id j"
    using D(3,5) by (auto dest: distinct_map_eqD)
  show "l \<in> set (db_items s) \<Longrightarrow> l \<noteq> i \<Longrightarrow> item_id l \<noteq> item_id i"
    using D(2,6) by (auto dest: distinct_map_eqD)
  show "x \<noteq> job_id j \<Longrightarrow> active_in s' x = active_in s x"
    unfolding active_in_def D(14) using D(2,4,10) by auto
qed

lemma row_change_status:
  assumes "row_change s s' i i' j j'" "job_status_ok s' j'"
  shows "status_ok s'"
  unfolding status_ok_iff
proof
  note D = row_changeD [OF assms(1)] and O = row_change_other [OF assms(1)]
  fix k assume k: "k \<in> set (db_jobs s')"
  show "job_status_ok s' k"
  proof (cases "k = j'")
    case False
    with k have k': "k \<in> set (db_jobs s)" "job_id k \<noteq> job_id j" using O(1) by (auto simp: D(15))
    have "job_status_ok s k" using D(1) k' by (auto simp: almost_ok_def)
    moreover have "(\<forall>i \<in> set (db_items s'). item_job i = job_id k \<longrightarrow> item_status i = ItemQueued) \<longleftrightarrow>
        (\<forall>i \<in> set (db_items s). item_job i = job_id k \<longrightarrow> item_status i = ItemQueued)"
      using k'(2) D(2,4,10) by (auto simp: D(14))
    ultimately show ?thesis using O(3) [OF k'(2)] by (simp add: job_status_ok_def)
  qed (use assms(2) in simp)
qed

lemma row_change_checks:
  assumes "row_change s s' i i' j j'" "\<forall>a \<in> set (db_attempts s'). check_attempt a"
  shows "checks_ok s'"
  using row_changeD(1,14,15) [OF assms(1)] assms by (auto simp: row_change_def almost_ok_def checks_ok_def)

section \<open>Reconciling\<close>

lemma count_status_0: "count_status st is = 0 \<longleftrightarrow> (\<forall>i \<in> set is. item_status i \<noteq> st)"
  by (simp add: count_status_def count_where_0)

lemma inactive_counts:
  "count_status ItemQueued (items_of j s) = 0 \<and> count_status ItemRunning (items_of j s) = 0
     \<longleftrightarrow> \<not> active_in s j"
  by (auto simp: count_status_0 items_of_def active_in_def item_active_def)

lemma reconcile_Inr:
  assumes "reconcile_job now t j s = Inr s'"
  obtains j' where
    "s' = s\<lparr>db_jobs := replace_row job_id j j' (db_jobs s)\<rparr>" "check_job j'"
    "job_id j' = job_id j" "job_owner j' = job_owner j" "job_expected j' = job_expected j"
    "job_provider j' = job_provider j" "job_parameters j' = job_parameters j"
    "active_in s (job_id j) \<or> job_status j = JobCancelled \<longrightarrow> job_status j' = job_status j"
    "\<not> active_in s (job_id j) \<and> job_status j \<noteq> JobCancelled \<longrightarrow>
       job_status j' \<in> {JobNeedsReview, JobFailed, JobCancelled}"
proof -
  define new where "new = (reconciled_status (items_of (job_id j) s) now j)
    \<lparr>job_state_version := job_state_version j + 1, job_updated := now\<rparr>"
  have w: "write_job t (job_status new \<noteq> job_status j) j new s = Inr s'"
    using assms by (auto simp: reconcile_job_def Let_def new_def split: if_splits)
  have st: "active_in s (job_id j) \<or> job_status j = JobCancelled \<longrightarrow> job_status new = job_status j"
    "\<not> active_in s (job_id j) \<and> job_status j \<noteq> JobCancelled \<longrightarrow>
       job_status new \<in> {JobNeedsReview, JobFailed, JobCancelled}"
    using inactive_counts [of "job_id j" s] by (auto simp: new_def reconciled_status_def)
  have idn: "job_id new = job_id j" by (simp add: new_def reconciled_status_def)
  have "job_status new \<noteq> job_status j \<longrightarrow> preserve_active_status t s j new = new"
  proof
    assume "job_status new \<noteq> job_status j"
    then have "\<not> active_in s (job_id new)" using st(1) idn by argo
    then have "\<not> (\<exists>i \<in> set (db_items s). item_job i = job_id new \<and> item_owner i = job_owner new \<and> item_active i)"
      unfolding active_in_def by blast
    then show "preserve_active_status t s j new = new" unfolding preserve_active_status_def by argo
  qed
  then have "(if job_status new \<noteq> job_status j then preserve_active_status t s j new else new) = new" by simp
  note w' = w [unfolded write_job_Inr Let_def this]
  then have "protect_job_snapshot j new = Inr ()" "check_job new"
    "s' = s\<lparr>db_jobs := replace_row job_id j new (db_jobs s)\<rparr>"
    by blast+
  then show ?thesis using that [of new] protect_job_fields [of j new] st by blast
qed

section \<open>Closing a running call\<close>

text \<open>
  The three ways a call ends (success, failure, expiry of its lease) share this shape: the running
  call leaves \<open>running\<close>, so does the paper, and the batch is reconciled.
\<close>

lemma close_call_ok:
  assumes ok: "pipeline_ok s"
    and a: "a \<in> set (db_attempts s)" and i: "i \<in> set (db_items s)" and j: "j \<in> set (db_jobs s)"
    and ai: "att_item a = item_id i" and ij: "item_job i = job_id j" and run: "item_status i = ItemRunning"
    and wa: "write_attempt a a' s = Inr s1" and wi: "write_item i i' s1 = Inr s2"
    and left: "item_status i' \<noteq> ItemRunning" and rec: "reconcile_job now t j s2 = Inr s3"
  shows "pipeline_ok s3"
proof -
  note A = write_attempt_Inr [OF wa] and I = wi [unfolded write_item_Inr]
  note af = attempt_identity_fields [of a' a]
  obtain j' where J: "s3 = s2\<lparr>db_jobs := replace_row job_id j j' (db_jobs s2)\<rparr>" "check_job j'"
    "job_id j' = job_id j" "job_owner j' = job_owner j" "job_expected j' = job_expected j"
    and Jst: "active_in s2 (job_id j) \<or> job_status j = JobCancelled \<longrightarrow> job_status j' = job_status j"
    "\<not> active_in s2 (job_id j) \<and> job_status j \<noteq> JobCancelled \<longrightarrow>
       job_status j' \<in> {JobNeedsReview, JobFailed, JobCancelled}"
    by (rule reconcile_Inr [OF rec]) blast
  have tabs: "db_jobs s3 = replace_row job_id j j' (db_jobs s)" "db_items s3 = replace_row item_id i i' (db_items s)"
    "db_attempts s3 = replace_row att_id a a' (db_attempts s)"
    using J(1) A I by auto
  have R: "row_change s s3 i i' j j'"
    using pipeline_almost [OF ok] i j ij tabs I protect_item_identity protect_item_version J(2-5)
    by (auto simp: row_change_def)
  note D = row_changeD [OF R]
  have att_same: "map f (db_attempts s3) = map f (db_attempts s)" if "f a' = f a" for f :: "attempt_row \<Rightarrow> 'b"
    unfolding tabs by (rule replace_same [OF D(7) a that])
  have set_att: "set (db_attempts s3) = insert a' (set (db_attempts s) - {a})"
    unfolding tabs by (rule replace_row_set [OF D(7) a])
  have keys: "keys_ok s3" using D(5,6,7,16,17) att_same [of att_id] A af by (simp add: keys_ok_def)
  have links: "links_ok s3"
    using ok row_change_links [OF R] att_same [of "\<lambda>a. (att_item a, att_owner a)"] A af
    unfolding links_ok_def pipeline_ok_def by metis
  have chk: "checks_ok s3"
    by (rule row_change_checks [OF R]) (use ok A in \<open>auto simp: set_att pipeline_ok_def checks_ok_def\<close>)
  have num: "numbers_ok s3"
    by (rule numbers_ok_same [of s])
      (use ok att_same [of call_place] A af in \<open>auto simp: pipeline_ok_def call_place_def\<close>)
  have rnd: "rounds_ok s3"
    using ok A af I protect_item_version [of i i'] a i D(8)
    unfolding rounds_ok_def set_att D(14) pipeline_ok_def by (metis Diff_iff insert_iff le_trans)
  have lease: "leases_ok s3"
    unfolding leases_ok_def
  proof
    fix k assume k: "k \<in> set (db_items s3)"
    have cnt: "count_where (is_running_call x) (db_attempts s3) + (if x = item_id i then 1 else 0)
        = count_where (is_running_call x) (db_attempts s)" for x
      using replace_row_count [OF D(7) a, of "is_running_call x" a'] A ai tabs by (auto simp: is_running_call_def)
    have L: "leases_ok s" using ok by (simp add: pipeline_ok_def)
    show "count_where (is_running_call (item_id k)) (db_attempts s3) = (if item_status k = ItemRunning then 1 else 0)"
    proof (cases "k = i'")
      case True
      then show ?thesis using cnt [of "item_id i"] L i run left by (simp add: D(8) leases_ok_def)
    next
      case False
      then have "k \<in> set (db_items s)" "item_id k \<noteq> item_id i" using k row_change_other(2) [OF R] by (auto simp: D(14))
      then show ?thesis using cnt [of "item_id k"] L by (simp add: leases_ok_def)
    qed
  qed
  have act: "active_in s2 (job_id j) = active_in s3 (job_id j)" using J(1) by (simp add: active_in_def)
  have old: "job_status_ok s j" using ok j by (auto simp: pipeline_ok_def status_ok_iff)
  have "active_in s (job_id j)" using i ij run by (auto simp: active_in_def item_active_def)
  then have notq: "job_status j \<noteq> JobQueued" "job_status j \<noteq> JobCancelled \<longrightarrow> job_status j \<in> {JobRunning, JobPaused}"
    using old i ij run by (auto simp: job_status_ok_def)
  have st: "status_ok s3"
    by (rule row_change_status [OF R])
      (use Jst notq act J(3) in \<open>auto simp: job_status_ok_def\<close>)
  show ?thesis
    unfolding pipeline_ok_def using keys links chk row_change_counts [OF R] lease st num rnd by blast
qed

lemma locate_claim_Inr:
  assumes "locate_claim c s = Inr (j, i, a)"
  shows "a \<in> set (db_attempts s)" "i \<in> set (db_items s)" "j \<in> set (db_jobs s)" "att_id a = cl_attempt c"
    "att_item a = item_id i" "att_owner a = item_owner i" "item_job i = job_id j"
    "att_status a = AttRunning" "item_status i = ItemRunning" "item_lease i = Some (cl_lease c)"
  using assms unfolding locate_claim_def find_attempt_def find_job_def
  by (auto split: option.splits if_splits dest!: find_SomeD)

lemma finish_success_keeps:
  assumes "pipeline_ok s" "finish_success c x now t s = Inr s'"
  shows "pipeline_ok s'"
proof -
  from assms(2) obtain j i a s1 s2 where L: "locate_claim c s = Inr (j, i, a)"
    and w: "write_attempt a (succeeded_attempt x now a) s = Inr s1" "write_item i (reviewed_item now i) s1 = Inr s2"
      "reconcile_job now t j s2 = Inr s'"
    by (auto simp: finish_success_def)
  note l = locate_claim_Inr [OF L]
  show ?thesis
    by (rule close_call_ok [OF assms(1) l(1,2,3,5,7,9) w(1,2) _ w(3)]) (simp add: reviewed_item_def)
qed

lemma finish_failure_keeps:
  assumes "pipeline_ok s" "finish_failure c f now t s = Inr s'"
  shows "pipeline_ok s'"
proof -
  from assms(2) obtain j i a s1 s2 where L: "locate_claim c s = Inr (j, i, a)"
    and w: "write_attempt a (failed_attempt f now a) s = Inr s1" "write_item i (failed_item f now i) s1 = Inr s2"
      "reconcile_job now t j s2 = Inr s'"
    by (auto simp: finish_failure_def)
  note l = locate_claim_Inr [OF L]
  show ?thesis
    by (rule close_call_ok [OF assms(1) l(1,2,3,5,7,9) w(1,2) _ w(3)])
      (simp add: failed_item_def Let_def split: failure_action.splits)
qed

lemma expire_one_keeps:
  assumes "pipeline_ok s" "expire_one now t c s = Inr (s', b)"
    and "(item_id c, item_job c) \<in> set (map (\<lambda>i. (item_id i, item_job i)) (db_items s))"
  shows "pipeline_ok s'" "map item_identity (db_items s') = map item_identity (db_items s)"
proof -
  have K: "distinct (map item_id (db_items s))" "distinct (map job_id (db_jobs s))"
    using assms(1) by (auto simp: pipeline_ok_def keys_ok_def)
  consider "s' = s" | (run) j i a s1 s2 where
    "find_job (item_job c) s = Some j" "find (\<lambda>i. item_id i = item_id c \<and> item_lease_expired t i) (db_items s) = Some i"
    "running_attempt (item_id i) s = Some a"
    "write_attempt a (expired_attempt now a) s = Inr s1" "write_item i (expired_item now i) s1 = Inr s2"
    "reconcile_job now t j s2 = Inr s'"
    using assms(2) by (auto simp: expire_one_def split: option.splits)
  then have "pipeline_ok s' \<and> map item_identity (db_items s') = map item_identity (db_items s)"
  proof cases
    case run
    have j: "j \<in> set (db_jobs s)" "job_id j = item_job c" using run(1) by (auto simp: find_job_def dest: find_SomeD)
    have i: "i \<in> set (db_items s)" "item_id i = item_id c" "item_status i = ItemRunning"
      using find_SomeD [OF run(2)] by (auto simp: item_lease_expired_def)
    have ij: "item_job i = job_id j" using assms(3) i(1,2) j(2) K(1) by (auto dest: distinct_map_eqD)
    have a: "a \<in> set (db_attempts s)" "att_item a = item_id i"
      using find_SomeD [OF run(3) [unfolded running_attempt_def]] by auto
    have "pipeline_ok s'"
      by (rule close_call_ok [OF assms(1) a(1) i(1) j(1) a(2) ij i(3) run(4,5) _ run(6)]) (simp add: expired_item_def)
    moreover have "map item_identity (db_items s') = map item_identity (db_items s)"
    proof -
      have "db_items s' = db_items s2" using reconcile_Inr [OF run(6)] by (metis pdb.select_convs(7) pdb.ext_inject pdb.surjective pdb.update_convs(6))
      moreover have "db_items s2 = replace_row item_id i (expired_item now i) (db_items s)"
        using write_attempt_Inr [OF run(4)] run(5) by (auto simp: write_item_Inr)
      ultimately show ?thesis
        using replace_same [OF K(1) i(1), of item_identity "expired_item now i"]
        by (simp add: expired_item_def item_identity_def)
    qed
    ultimately show ?thesis by blast
  qed (use assms in simp)
  then show "pipeline_ok s'" "map item_identity (db_items s') = map item_identity (db_items s)" by auto
qed

lemma identity_links:
  "map item_identity xs = map item_identity ys \<Longrightarrow>
     set (map (\<lambda>i. (item_id i, item_job i)) xs) = set (map (\<lambda>i. (item_id i, item_job i)) ys)"
proof -
  assume "map item_identity xs = map item_identity ys"
  then have "map ((\<lambda>(a, b, c, d, e, f). (a, d)) \<circ> item_identity) xs = map ((\<lambda>(a, b, c, d, e, f). (a, d)) \<circ> item_identity) ys"
    by (simp flip: map_map)
  then show ?thesis by (simp add: item_identity_def comp_def)
qed

lemma expire_each_keeps:
  assumes "pipeline_ok s" "expire_each now t cs s n = Inr (s', m)"
    and "set (map (\<lambda>i. (item_id i, item_job i)) cs) \<subseteq> set (map (\<lambda>i. (item_id i, item_job i)) (db_items s))"
  shows "pipeline_ok s'"
  using assms
proof (induction cs arbitrary: s n)
  case (Cons c cs)
  from Cons.prems(2) obtain s1 b where 1: "expire_one now t c s = Inr (s1, b)"
    "expire_each now t cs s1 (if b then n + 1 else n) = Inr (s', m)" by auto
  have c: "(item_id c, item_job c) \<in> set (map (\<lambda>i. (item_id i, item_job i)) (db_items s))"
    using Cons.prems(3) by auto
  note k = expire_one_keeps [OF Cons.prems(1) 1(1) c]
  show ?case by (rule Cons.IH [OF k(1) 1(2)]) (use Cons.prems(3) identity_links [OF k(2)] in auto)
qed simp

lemma expire_stale_keeps:
  assumes "pipeline_ok s" "expire_stale_attempts now t limit s = Inr (s', n)"
  shows "pipeline_ok s'"
proof -
  let ?cs = "take limit (sort_key (\<lambda>i. the (item_lease_expires i)) (sort_key item_id
      (filter (item_lease_expired t) (db_items s))))"
  have "set ?cs \<subseteq> set (db_items s)" by (auto dest: in_set_takeD)
  then show ?thesis
    using expire_each_keeps [OF assms(1) assms(2) [unfolded expire_stale_attempts_def]] by auto
qed

section \<open>Claiming a call\<close>

lemma max_of_upt: "max_of [1..<n + 1] = n"
proof (induction n)
  case (Suc n)
  have *: "foldr max xs b = max (foldr max xs 0) b" for xs and b :: nat by (induction xs) auto
  have "max_of ([1..<Suc n] @ [Suc n]) = Suc n"
    using Suc * [of "[1..<Suc n]" "Suc n"] by (simp add: max_of_def)
  then show ?case by simp
qed (simp add: max_of_def)

lemma next_number_len: "numbers_ok s \<Longrightarrow> next_number i s = length (calls_of i s) + 1"
  unfolding next_number_def calls_of_def [symmetric] numbers_ok_def using max_of_upt by metis

lemma next_sequence_len: "numbers_ok s \<Longrightarrow> next_sequence i r s = length (round_calls i r s) + 1"
  unfolding next_sequence_def round_calls_def [symmetric] numbers_ok_def using max_of_upt by metis

lemma numbers_ok_append:
  assumes "numbers_ok s" "db_attempts s' = db_attempts s @ [a]"
    and "att_number a = next_number (att_item a) s" "att_sequence a = next_sequence (att_item a) (att_round a) s"
  shows "numbers_ok s'"
  unfolding numbers_ok_def
proof (intro conjI allI)
  fix i
  show "map att_number (calls_of i s') = [1..<length (calls_of i s') + 1]"
    using assms(1) next_number_len [OF assms(1), of "att_item a"]
    by (auto simp: calls_of_def assms(2,3) numbers_ok_def)
next
  fix i r
  show "map att_sequence (round_calls i r s') = [1..<length (round_calls i r s') + 1]"
    using assms(1) next_sequence_len [OF assms(1), of "att_item a" "att_round a"]
    by (auto simp: round_calls_def assms(2,4) numbers_ok_def)
qed

lemma claim_Inr:
  assumes "claim_attempt p h aid lease now t s = Inr (s', Some c)"
  obtains j i s1 s2 where
    "int (running_calls (pre_provider p) s) < snap_max_concurrency (pre_snapshot p)"
    "i \<in> set (db_items s)" "item_id i = pre_item p" "item_owner i = pre_owner p"
    "item_version i = pre_version p" "item_status i = ItemQueued" "item_available i \<le> t"
    "j \<in> set (db_jobs s)" "job_status j \<in> {JobQueued, JobRunning}" "job_owner j = pre_owner p"
    "\<exists>pt \<in> set (db_items s). item_id pt = pre_item p \<and> job_id j = item_job pt"
    "insert_attempt (new_attempt p h aid now i s) s = Inr s1"
    "write_item i (claimed_item p lease now i) s1 = Inr s2"
    "write_job t (job_status j = JobQueued) j (claimed_job now j) s2 = Inr s'"
    "c = \<lparr>cl_attempt = aid, cl_number = att_number (new_attempt p h aid now i s),
       cl_round = att_round (new_attempt p h aid now i s), cl_sequence = att_sequence (new_attempt p h aid now i s),
       cl_lease = lease, cl_request_hash = h\<rparr>"
proof -
  from assms obtain pt j i s1 s2 where
    f: "find (\<lambda>i. item_id i = pre_item p \<and> item_owner i = pre_owner p) (db_items s) = Some pt"
      "find (\<lambda>j. job_id j = item_job pt \<and> job_owner j = pre_owner p \<and> job_status j \<in> {JobQueued, JobRunning})
         (db_jobs s) = Some j"
      "find (\<lambda>i. item_id i = pre_item p \<and> item_owner i = pre_owner p \<and> item_version i = pre_version p \<and>
         item_status i = ItemQueued \<and> item_available i \<le> t) (db_items s) = Some i"
    and w: "insert_attempt (new_attempt p h aid now i s) s = Inr s1"
      "write_item i (claimed_item p lease now i) s1 = Inr s2"
      "write_job t (job_status j = JobQueued) j (claimed_job now j) s2 = Inr s'"
      "c = \<lparr>cl_attempt = aid, cl_number = att_number (new_attempt p h aid now i s),
         cl_round = att_round (new_attempt p h aid now i s), cl_sequence = att_sequence (new_attempt p h aid now i s),
         cl_lease = lease, cl_request_hash = h\<rparr>"
    and cap: "int (running_calls (pre_provider p) s) < snap_max_concurrency (pre_snapshot p)"
    unfolding claim_attempt_def Let_def by (auto split: if_splits option.splits)
  show ?thesis
    by (rule that [OF cap _ _ _ _ _ _ _ _ _ _ w]) (use f [THEN find_SomeD] in auto)
qed

lemma claimed_job_simps [simp]:
  "job_id (claimed_job now j) = job_id j" "job_owner (claimed_job now j) = job_owner j"
  "job_expected (claimed_job now j) = job_expected j" "job_provider (claimed_job now j) = job_provider j"
  "job_parameters (claimed_job now j) = job_parameters j"
  by (simp_all add: claimed_job_def)

lemma claimed_item_simps [simp]:
  "item_identity (claimed_item p lease now i) = item_identity i"
  "item_status (claimed_item p lease now i) = ItemRunning"
  "item_version (claimed_item p lease now i) = item_version i"
  by (simp_all add: claimed_item_def item_identity_def)

lemma new_attempt_simps [simp]:
  "att_id (new_attempt p h aid now i s) = aid" "att_item (new_attempt p h aid now i s) = item_id i"
  "att_owner (new_attempt p h aid now i s) = item_owner i"
  "att_number (new_attempt p h aid now i s) = next_number (item_id i) s"
  "att_round (new_attempt p h aid now i s) = item_version i"
  "att_sequence (new_attempt p h aid now i s) = next_sequence (item_id i) (item_version i) s"
  "att_status (new_attempt p h aid now i s) = AttRunning"
  "att_call_state (new_attempt p h aid now i s) = CallStarted"
  "att_request_hash (new_attempt p h aid now i s) = h"
  "att_max_score (new_attempt p h aid now i s) = rub_total_score (pre_rubric p)"
  by (simp_all add: new_attempt_def)

lemma claim_tables:
  assumes "pipeline_ok s" "claim_attempt p h aid lease now t s = Inr (s', Some c)"
  obtains i j where
    "row_change s s' i (claimed_item p lease now i) j (claimed_job now j)"
    "int (running_calls (pre_provider p) s) < snap_max_concurrency (pre_snapshot p)"
    "item_id i = pre_item p" "item_owner i = pre_owner p" "item_version i = pre_version p"
    "item_status i = ItemQueued" "job_status j \<in> {JobQueued, JobRunning}"
    "db_attempts s' = db_attempts s @ [new_attempt p h aid now i s]"
    "check_attempt (new_attempt p h aid now i s)" "attempt_unique (db_attempts s) (new_attempt p h aid now i s)"
    "attempt_score_ok s (new_attempt p h aid now i s)"
    "c = \<lparr>cl_attempt = aid, cl_number = next_number (item_id i) s, cl_round = item_version i,
       cl_sequence = next_sequence (item_id i) (item_version i) s, cl_lease = lease, cl_request_hash = h\<rparr>"
    "db_providers s' = db_providers s" "db_rubrics s' = db_rubrics s"
proof (rule claim_Inr [OF assms(2)])
  fix j i s1 s2
  assume cap: "int (running_calls (pre_provider p) s) < snap_max_concurrency (pre_snapshot p)"
    and i: "i \<in> set (db_items s)" "item_id i = pre_item p" "item_owner i = pre_owner p"
      "item_version i = pre_version p" "item_status i = ItemQueued" "item_available i \<le> t"
    and j: "j \<in> set (db_jobs s)" "job_status j \<in> {JobQueued, JobRunning}" "job_owner j = pre_owner p"
    and pt: "\<exists>pt \<in> set (db_items s). item_id pt = pre_item p \<and> job_id j = item_job pt"
    and w: "insert_attempt (new_attempt p h aid now i s) s = Inr s1"
      "write_item i (claimed_item p lease now i) s1 = Inr s2"
      "write_job t (job_status j = JobQueued) j (claimed_job now j) s2 = Inr s'"
    and c: "c = \<lparr>cl_attempt = aid, cl_number = att_number (new_attempt p h aid now i s),
       cl_round = att_round (new_attempt p h aid now i s), cl_sequence = att_sequence (new_attempt p h aid now i s),
       cl_lease = lease, cl_request_hash = h\<rparr>"
  have K: "distinct (map item_id (db_items s))" using assms(1) by (simp add: pipeline_ok_def keys_ok_def)
  have ij: "item_job i = job_id j" using pt i K by (auto dest: distinct_map_eqD)
  have "job_status (claimed_job now j) = JobRunning" using j(2) by (auto simp: claimed_job_def)
  then have same: "(if b then preserve_active_status t s2 j (claimed_job now j) else claimed_job now j) = claimed_job now j" for b
    by (simp add: preserve_active_status_def)
  note w1 = w(1) [unfolded insert_attempt_Inr] and w2 = w(2) [unfolded write_item_Inr]
    and w3 = w(3) [unfolded write_job_Inr Let_def same]
  have R: "row_change s s' i (claimed_item p lease now i) j (claimed_job now j)"
    unfolding row_change_def using pipeline_almost [OF assms(1)] i j ij w1 w2 w3 by auto
  show ?thesis
    by (rule that [OF R cap i(2-5) j(2)]) (use w1 w2 w3 c in auto)
qed

lemma claim_keeps:
  assumes "pipeline_ok s" "claim_attempt p h aid lease now t s = Inr (s', Some c)"
  shows "pipeline_ok s'"
proof (rule claim_tables [OF assms])
  fix i j
  let ?i = "claimed_item p lease now i" and ?j = "claimed_job now j" and ?a = "new_attempt p h aid now i s"
  assume R: "row_change s s' i ?i j ?j" and st: "item_status i = ItemQueued" "job_status j \<in> {JobQueued, JobRunning}"
    and A: "db_attempts s' = db_attempts s @ [?a]" "check_attempt ?a" "attempt_unique (db_attempts s) ?a"
  note D = row_changeD [OF R] and L = row_change_links [OF R]
  have i0: "1 \<le> item_version i"
    using assms(1) D(2) by (auto simp: pipeline_ok_def checks_ok_def check_item_def)
  have keys: "keys_ok s'"
    unfolding keys_ok_def using D(5,6,7,16,17) A by (auto simp: attempt_unique_def)
  have "(item_id i, item_owner i) \<in> set (map (\<lambda>i. (item_id i, item_owner i)) (db_items s))" using D(2) by auto
  then have links: "links_ok s'"
    using assms(1) unfolding links_ok_def pipeline_ok_def L A(1) by auto
  have chk: "checks_ok s'"
    by (rule row_change_checks [OF R]) (use assms(1) A in \<open>auto simp: pipeline_ok_def checks_ok_def\<close>)
  have num: "numbers_ok s'"
    by (rule numbers_ok_append [OF _ A(1)]) (use assms(1) in \<open>auto simp: pipeline_ok_def\<close>)
  have rnd: "rounds_ok s'"
    using assms(1) D(2) i0 row_change_other(2) [OF R] unfolding rounds_ok_def D(14) A(1) pipeline_ok_def
    by (auto simp: D(8))
  have lease: "leases_ok s'"
    unfolding leases_ok_def
  proof
    fix k assume k: "k \<in> set (db_items s')"
    have cnt: "count_where (is_running_call x) (db_attempts s')
        = count_where (is_running_call x) (db_attempts s) + (if x = item_id i then 1 else 0)" for x
      by (simp add: A(1) is_running_call_def)
    have Ls: "leases_ok s" using assms(1) by (simp add: pipeline_ok_def)
    show "count_where (is_running_call (item_id k)) (db_attempts s') = (if item_status k = ItemRunning then 1 else 0)"
    proof (cases "k = ?i")
      case True
      then show ?thesis using cnt Ls D(2) st(1) by (simp add: D(8) leases_ok_def)
    next
      case False
      then have "k \<in> set (db_items s)" "item_id k \<noteq> item_id i" using k row_change_other(2) [OF R] by (auto simp: D(14))
      then show ?thesis using cnt [of "item_id k"] Ls by (simp add: leases_ok_def)
    qed
  qed
  have "active_in s' (job_id ?j)"
    unfolding active_in_def D(14) using D(4,10) by (auto simp: item_active_def)
  then have "job_status_ok s' ?j" using st(2) by (auto simp: job_status_ok_def claimed_job_def)
  then have "status_ok s'" by (rule row_change_status [OF R])
  then show ?thesis
    unfolding pipeline_ok_def using keys links chk row_change_counts [OF R] lease num rnd by blast
qed

end
