(* ===== verification/Pipeline_Control.thy ===== *)
theory Pipeline_Control
  imports Pipeline_Inv
begin

text \<open>
  The teacher's transactions keep the pipeline invariant: creating a batch, and the four actions of
  \<open>control_grading_job\<close> (pause, resume, cancel, retry).
\<close>

section \<open>Changes that leave every call alone\<close>

lemma almost_job_change:
  assumes ok: "almost_ok (job_id j) s" and j: "j \<in> set (db_jobs s)"
    and tabs: "db_jobs s' = replace_row job_id j j' (db_jobs s)" "db_items s' = db_items s"
      "db_attempts s' = db_attempts s"
    and same: "job_id j' = job_id j" "job_owner j' = job_owner j" "job_expected j' = job_expected j"
    and chk: "check_job j'"
  shows "almost_ok (job_id j) s'"
proof -
  have K: "distinct (map job_id (db_jobs s))" using ok by (simp add: almost_ok_def keys_ok_def)
  have S: "set (db_jobs s') = insert j' (set (db_jobs s) - {j})" unfolding tabs by (rule replace_row_set [OF K j])
  have refs: "job_refs s' = job_refs s"
    unfolding job_refs_def tabs by (rule replace_same [OF K j]) (simp add: same)
  have keys: "map job_id (db_jobs s') = map job_id (db_jobs s)" by (simp add: tabs replace_row_keys same)
  have num: "numbers_ok s'"
    by (rule numbers_ok_same [of s]) (use ok tabs in \<open>simp_all add: almost_ok_def\<close>)
  have st: "job_status_ok s' k = job_status_ok s k" for k by (simp add: job_status_ok_def active_in_def tabs)
  show ?thesis
    using ok num chk j
    by (auto simp: almost_ok_def keys_ok_def keys links_ok_def refs tabs(2,3) checks_ok_def counts_ok_def
        leases_ok_def rounds_ok_def S st same)
qed

lemma row_change_almost:
  assumes R: "row_change s s' i i' j j'" and att: "db_attempts s' = db_attempts s"
    and idle: "item_status i \<noteq> ItemRunning" "item_status i' \<noteq> ItemRunning"
  shows "almost_ok (job_id j) s'"
proof -
  note D = row_changeD [OF R] and L = row_change_links [OF R] and O = row_change_other [OF R]
  have num: "numbers_ok s'"
    by (rule numbers_ok_same [of s]) (use D(1) att in \<open>simp_all add: almost_ok_def\<close>)
  have lease: "leases_ok s'"
    using D(1,2,8) idle unfolding leases_ok_def att D(14) almost_ok_def by auto
  have chk: "checks_ok s'"
    by (rule row_change_checks [OF R]) (use D(1) att in \<open>auto simp: almost_ok_def checks_ok_def\<close>)
  have rnd: "rounds_ok s'"
    using D(1,2,8) R unfolding rounds_ok_def att D(14) almost_ok_def row_change_def
    by (metis Diff_iff insert_iff le_trans)
  have others: "job_status_ok s' k" if k: "k \<in> set (db_jobs s')" "job_id k \<noteq> job_id j" for k
  proof -
    have k': "k \<in> set (db_jobs s)" using k by (auto simp: D(11,15))
    have "job_status_ok s k" using D(1) k' k(2) by (auto simp: almost_ok_def)
    moreover have "(\<forall>i \<in> set (db_items s'). item_job i = job_id k \<longrightarrow> item_status i = ItemQueued) \<longleftrightarrow>
        (\<forall>i \<in> set (db_items s). item_job i = job_id k \<longrightarrow> item_status i = ItemQueued)"
      using k(2) D(2,4,10) by (auto simp: D(14))
    ultimately show ?thesis using O(3) [OF k(2)] by (simp add: job_status_ok_def)
  qed
  show ?thesis
    using D(1,5-7,16,17) num lease chk rnd others row_change_counts [OF R] L
    unfolding almost_ok_def keys_ok_def links_ok_def att by auto
qed

lemma write_item_almost:
  assumes ok: "almost_ok (job_id j) s" and j: "j \<in> set (db_jobs s)" and i: "i \<in> set (db_items s)" "item_job i = job_id j"
    and w: "write_item i i' s = Inr s'"
    and idle: "item_status i \<noteq> ItemRunning" "item_status i' \<noteq> ItemRunning"
  shows "almost_ok (job_id j) s'" "db_jobs s' = db_jobs s" "db_attempts s' = db_attempts s"
    "set (db_items s') = insert i' (set (db_items s) - {i})" "item_identity i' = item_identity i"
proof -
  have I: "item_identity i' = item_identity i" "item_version i \<le> item_version i'" "check_item i'"
    and s': "s' = s\<lparr>db_items := replace_row item_id i i' (db_items s)\<rparr>"
    using w protect_item_identity protect_item_version by (auto simp: write_item_Inr)
  have K: "distinct (map job_id (db_jobs s))" "distinct (map item_id (db_items s))" "check_job j"
    using ok j by (auto simp: almost_ok_def keys_ok_def checks_ok_def)
  have "replace_row job_id j j (db_jobs s) = db_jobs s"
    using replace_same [OF K(1) j, of id j] by simp
  then have R: "row_change s s' i i' j j" unfolding row_change_def using ok j i I K s' by simp
  show "db_jobs s' = db_jobs s" and a: "db_attempts s' = db_attempts s" by (simp_all add: s')
  show "set (db_items s') = insert i' (set (db_items s) - {i})" "item_identity i' = item_identity i"
    using row_changeD [OF R] I by auto
  show "almost_ok (job_id j) s'" by (rule row_change_almost [OF R a idle])
qed


section \<open>Pause, resume and retry\<close>

text \<open>The last write of each action: the new status is not \<open>needs_review\<close>, so nothing overrides it.\<close>

lemma control_write_ok:
  assumes ok: "almost_ok (job_id j) s" and j: "j \<in> set (db_jobs s)"
    and w: "write_job t True j j' s = Inr s'" and st: "job_status j' \<noteq> JobNeedsReview"
    and good: "job_status_ok s j'"
  shows "pipeline_ok s'"
proof -
  have p: "preserve_active_status t s j j' = j'" using st by (simp add: preserve_active_status_def)
  have W: "protect_job_snapshot j j' = Inr ()" "check_job j'"
    "s' = s\<lparr>db_jobs := replace_row job_id j j' (db_jobs s)\<rparr>"
    using w unfolding write_job_Inr p by auto
  note f = protect_job_fields [OF W(1)]
  have "almost_ok (job_id j) s'"
    by (rule almost_job_change [OF ok j, of _ j']) (use W f in auto)
  moreover have "j' \<in> set (db_jobs s')"
    using replace_row_set [OF _ j, of job_id j'] ok W(3) by (simp add: almost_ok_def keys_ok_def)
  moreover have "job_status_ok s' j'" using good by (simp add: W(3) job_status_ok_def active_in_def)
  ultimately show ?thesis using almost_pipeline [of j' s'] f by simp
qed

lemma pause_keeps:
  assumes ok: "pipeline_ok s" and j: "j \<in> set (db_jobs s)" "job_status j \<in> {JobQueued, JobRunning}"
    and w: "write_job t True j j' s = Inr s'" and j': "job_status j' = JobPaused" "job_id j' = job_id j"
  shows "pipeline_ok s'"
proof (rule control_write_ok [OF pipeline_almost [OF ok] j(1) w])
  have "job_status_ok s j" using ok j(1) by (auto simp: pipeline_ok_def status_ok_iff)
  then show "job_status_ok s j'" using j(2) j' by (auto simp: job_status_ok_def)
qed (use j' in auto)

lemma resume_keeps:
  assumes ok: "pipeline_ok s" and j: "j \<in> set (db_jobs s)" "job_status j = JobPaused"
    and w: "write_job t True j j' s = Inr s'" and j': "job_status j' = JobRunning" "job_id j' = job_id j"
  shows "pipeline_ok s'"
proof (rule control_write_ok [OF pipeline_almost [OF ok] j(1) w])
  have "job_status_ok s j" using ok j(1) by (auto simp: pipeline_ok_def status_ok_iff)
  then show "job_status_ok s j'" using j(2) j' by (auto simp: job_status_ok_def)
qed (use j' in auto)

lemma retry_keeps:
  assumes ok: "pipeline_ok s" and j: "j \<in> set (db_jobs s)" and i: "i \<in> set (db_items s)" "item_job i = job_id j"
    and st: "item_status i \<in> {ItemNeedsReview, ItemFailed}"
    and wi: "write_item i (retry_item t i) s = Inr s1"
    and wj: "write_job t True j j' s1 = Inr s'" and j': "job_status j' = JobRunning" "job_id j' = job_id j"
  shows "pipeline_ok s'"
proof -
  have idle: "item_status i \<noteq> ItemRunning" "item_status (retry_item t i) = ItemQueued"
    using st by (auto simp: retry_item_def)
  have idle': "item_status (retry_item t i) \<noteq> ItemRunning" using idle by simp
  note A = write_item_almost [OF pipeline_almost [OF ok] j i wi idle(1) idle']
  have "item_job (retry_item t i) = job_id j'" using i(2) j' by (simp add: retry_item_def)
  then have "active_in s1 (job_id j')" unfolding active_in_def A(4) using idle(2) by (auto simp: item_active_def)
  then have "job_status_ok s1 j'" using j' by (simp add: job_status_ok_def)
  then show ?thesis
    by (intro control_write_ok [OF A(1) _ wj]) (use A(2) j j' in auto)
qed

section \<open>Cancel\<close>

lemma cancel_item_simps [simp]:
  "item_status (cancel_item t i) = ItemCancelled" "item_identity (cancel_item t i) = item_identity i"
  by (simp_all add: cancel_item_def item_identity_def)

lemma write_items_almost:
  assumes "almost_ok (job_id j) s" "j \<in> set (db_jobs s)" "distinct is" "set is \<subseteq> set (db_items s)"
    and "\<forall>i \<in> set is. item_job i = job_id j \<and> item_status i = ItemQueued"
    and "write_items (cancel_item t) is s = Inr s'"
  shows "almost_ok (job_id j) s' \<and> db_jobs s' = db_jobs s \<and> db_attempts s' = db_attempts s \<and>
    (\<forall>i \<in> set (db_items s'). i \<in> set (db_items s) - set is \<or> item_status i = ItemCancelled)"
  using assms
proof (induction "is" arbitrary: s)
  case (Cons i "is")
  from Cons.prems obtain s1 where w: "write_item i (cancel_item t i) s = Inr s1"
    "write_items (cancel_item t) is s1 = Inr s'" by auto
  have i: "i \<in> set (db_items s)" "item_job i = job_id j" "item_status i \<noteq> ItemRunning"
    "item_status (cancel_item t i) \<noteq> ItemRunning"
    using Cons.prems(4,5) by auto
  note A = write_item_almost [OF Cons.prems(1,2) i(1,2) w(1) i(3,4)]
  have "almost_ok (job_id j) s' \<and> db_jobs s' = db_jobs s1 \<and> db_attempts s' = db_attempts s1 \<and>
    (\<forall>i \<in> set (db_items s'). i \<in> set (db_items s1) - set is \<or> item_status i = ItemCancelled)"
    by (rule Cons.IH [OF A(1) _ _ _ _ w(2)]) (use Cons.prems A in auto)
  then show ?case using A(2-4) cancel_item_simps(1) by (metis Diff_iff insert_iff list.set(2) singletonD)
qed simp

lemma cancel_keeps:
  assumes ok: "pipeline_ok s" and j: "j \<in> set (db_jobs s)"
    and wi: "write_items (cancel_item t)
        (filter (\<lambda>i. item_job i = job_id j \<and> item_owner i = job_owner j \<and> item_status i = ItemQueued) (db_items s)) s = Inr s1"
    and wj: "write_job t True j j' s1 = Inr s'" and j': "job_status j' = JobCancelled" "job_id j' = job_id j"
  shows "pipeline_ok s'"
proof -
  let ?is = "filter (\<lambda>i. item_job i = job_id j \<and> item_owner i = job_owner j \<and> item_status i = ItemQueued) (db_items s)"
  have "distinct (map item_id (db_items s))" using ok by (simp add: pipeline_ok_def keys_ok_def)
  then have d: "distinct ?is" by (intro distinct_filter) (simp only: distinct_map)
  have q: "\<forall>i \<in> set ?is. item_job i = job_id j \<and> item_status i = ItemQueued" by simp
  note W = write_items_almost [OF pipeline_almost [OF ok] j d filter_is_subset q wi]
  have A: "almost_ok (job_id j) s1" "db_jobs s1 = db_jobs s" by (rule W [THEN conjunct1], rule W [THEN conjunct2, THEN conjunct1])
  have "job_status_ok s1 j'" using j' by (simp add: job_status_ok_def)
  then show ?thesis
    by (intro control_write_ok [OF A(1) _ wj]) (use A(2) j j' in auto)
qed

lemma control_grading_keeps:
  assumes ok: "pipeline_ok s" and c: "control_grading_job t teacher jid act target s = Inr (s', r)"
  shows "pipeline_ok s'"
proof (cases "s' = s")
  case False
  then obtain j where f: "find (\<lambda>j. job_id j = jid \<and> job_owner j = teacher) (db_jobs s) = Some j"
    using c by (auto simp: control_grading_job_def split: if_splits option.splits)
  have j: "j \<in> set (db_jobs s)" "job_id j = jid" "job_owner j = teacher" using find_SomeD [OF f] by auto
  note c' = c [unfolded control_grading_job_def f option.case]
  consider (pause) j' where "job_status j \<in> {JobQueued, JobRunning}" "write_job t True j j' s = Inr s'"
      "job_status j' = JobPaused" "job_id j' = job_id j"
    | (resume) j' where "job_status j = JobPaused" "write_job t True j j' s = Inr s'"
      "job_status j' = JobRunning" "job_id j' = job_id j"
    | (cancel) s1 j' where "write_items (cancel_item t)
        (filter (\<lambda>i. item_job i = job_id j \<and> item_owner i = job_owner j \<and> item_status i = ItemQueued) (db_items s)) s = Inr s1"
      "write_job t True j j' s1 = Inr s'" "job_status j' = JobCancelled" "job_id j' = job_id j"
    | (retry) i s1 j' where "i \<in> set (db_items s)" "item_job i = job_id j"
      "item_status i \<in> {ItemNeedsReview, ItemFailed}" "write_item i (retry_item t i) s = Inr s1"
      "write_job t True j j' s1 = Inr s'" "job_status j' = JobRunning" "job_id j' = job_id j"
    using c' False j(2,3)
    by (auto split: if_splits option.splits control_action.splits dest!: find_SomeD) 
  then show ?thesis
  proof cases
    case pause then show ?thesis by (rule pause_keeps [OF ok j(1)])
  next
    case resume then show ?thesis by (rule resume_keeps [OF ok j(1)])
  next
    case cancel then show ?thesis by (rule cancel_keeps [OF ok j(1)])
  next
    case retry then show ?thesis by (rule retry_keeps [OF ok j(1)])
  qed
qed (use ok in simp)

lemma control_keeps:
  assumes "pipeline_ok s" "control_job t teacher jid act target s = Inr (s', v)"
  shows "pipeline_ok s'"
  using assms(2) control_grading_keeps [OF assms(1)]
  by (auto simp: control_job_def split: option.splits)

section \<open>Creating a batch\<close>

lemma insert_items_Inr:
  assumes "insert_items is s = Inr s'"
  shows "s' = s\<lparr>db_items := db_items s @ is\<rparr> \<and> list_all check_item is \<and> distinct (map item_id is) \<and>
    set (map item_id is) \<inter> set (map item_id (db_items s)) = {}"
  using assms
proof (induction "is" arbitrary: s)
  case (Cons i "is")
  from Cons.prems obtain s1 where w: "insert_item i s = Inr s1" "insert_items is s1 = Inr s'" by auto
  have s1: "s1 = s\<lparr>db_items := db_items s @ [i]\<rparr>" "check_item i" "\<forall>k \<in> set (db_items s). item_id k \<noteq> item_id i"
    using w(1) by (auto simp: insert_item_def)
  show ?case using Cons.IH [OF w(2)] s1 by auto
qed simp

lemma insert_job_Inr:
  assumes "insert_job j s = Inr s'"
  shows "s' = s\<lparr>db_jobs := db_jobs s @ [j]\<rparr> \<and> check_job j \<and> (\<forall>k \<in> set (db_jobs s). job_id k \<noteq> job_id j)"
  using assms by (auto simp: insert_job_def)

lemma find_append: "find P (xs @ ys) = (case find P xs of None \<Rightarrow> find P ys | Some x \<Rightarrow> Some x)"
  by (induction xs) auto

lemma load_job_total:
  assumes "load_job s owner jid = Inr (Some v)"
  shows "1 \<le> jv_total v \<and> (\<exists>j \<in> set (db_jobs s). job_id j = jid \<and> job_owner j = owner \<and> jv_total v = job_expected j)"
  using assms
  by (auto simp: load_job_def Let_def valid_job_view_def split: option.splits dest!: find_SomeD)

lemma insert_rows_ok:
  assumes ok: "pipeline_ok s"
    and j: "\<forall>k \<in> set (db_jobs s). job_id k \<noteq> job_id j" "check_job j" "job_status j = JobQueued"
    and new: "list_all check_item is" "distinct (map item_id is)"
      "set (map item_id is) \<inter> set (map item_id (db_items s)) = {}"
      "\<forall>i \<in> set is. item_job i = job_id j \<and> item_owner i = job_owner j \<and> item_status i = ItemQueued"
    and n: "count_where (\<lambda>i. item_job i = job_id j) (db_items s @ is) = job_expected j" "1 \<le> job_expected j"
    and s': "s' = s\<lparr>db_jobs := db_jobs s @ [j], db_items := db_items s @ is\<rparr>"
  shows "pipeline_ok s'"
proof -
  note P = ok [unfolded pipeline_ok_def]
  have links: "set (map (\<lambda>i. (item_job i, item_owner i)) (db_items s)) \<subseteq> set (job_refs s)"
    "set (map (\<lambda>a. (att_item a, att_owner a)) (db_attempts s)) \<subseteq> set (map (\<lambda>i. (item_id i, item_owner i)) (db_items s))"
    using P by (auto simp: links_ok_def)
  have old_items: "item_job i \<noteq> job_id j" if "i \<in> set (db_items s)" for i
  proof -
    have "(item_job i, item_owner i) \<in> set (job_refs s)" using links(1) that by auto
    then show ?thesis using j(1) by (auto simp: job_refs_def)
  qed
  have old_calls: "att_item a \<notin> set (map item_id is)" if "a \<in> set (db_attempts s)" for a
  proof -
    have "(att_item a, att_owner a) \<in> set (map (\<lambda>i. (item_id i, item_owner i)) (db_items s))" using links(2) that by auto
    then show ?thesis using new(3) by auto
  qed
  have "keys_ok s'" using P j(1) new(2,3) by (auto simp: keys_ok_def s')
  moreover have "links_ok s'" using links new(4) by (auto simp: links_ok_def s' job_refs_def)
  moreover have "checks_ok s'" using P j(2) new(1) by (auto simp: checks_ok_def s' list_all_iff)
  moreover have "counts_ok s'"
  proof -
    have "count_where (\<lambda>i. item_job i = job_id k) is = 0" if "k \<in> set (db_jobs s)" for k
      using j(1) new(4) that by (auto simp: count_where_0)
    then show ?thesis using P n(1) by (auto simp: counts_ok_def s')
  qed
  moreover have "leases_ok s'"
  proof -
    have "count_where (is_running_call (item_id i)) (db_attempts s) = 0" if "i \<in> set is" for i
      using old_calls that by (auto simp: count_where_0 is_running_call_def)
    then show ?thesis using P new(4) by (auto simp: leases_ok_def s')
  qed
  moreover have "status_ok s'"
  proof -
    have "active_in s' (job_id k) = active_in s (job_id k)" if "k \<in> set (db_jobs s)" for k
      using j(1) new(4) that by (auto simp: active_in_def s')
    moreover have "count_where (\<lambda>i. item_job i = job_id j) (db_items s) = 0" using old_items by (auto simp: count_where_0)
    then have "is \<noteq> []" using n by auto
    then have "active_in s' (job_id j)"
      using new(4) by (cases "is") (auto simp: active_in_def s' item_active_def)
    ultimately show ?thesis
      using P j new(4) old_items by (auto simp: status_ok_def s')
  qed
  moreover have "numbers_ok s'" using P numbers_ok_same [of s s'] by (simp add: s')
  moreover have "rounds_ok s'" using P old_calls unfolding rounds_ok_def s' by simp (metis Un_iff image_eqI)
  ultimately show ?thesis by (simp add: pipeline_ok_def)
qed

lemma new_items_fields:
  assumes "i \<in> set (new_items env owner assignment subs)"
  shows "item_job i = ce_job_id env" "item_owner i = owner" "item_status i = ItemQueued"
  using assms by (auto simp: new_items_def)

lemma insert_batch_keeps:
  assumes ok: "pipeline_ok s" and w: "insert_batch env (job_owner j) j subs s = Inr (s', v)"
    and j: "job_id j = ce_job_id env" "job_status j = JobQueued"
  shows "pipeline_ok s'"
proof -
  let ?is = "new_items env (job_owner j) (job_assignment j) subs"
  from w obtain s1 where 1: "insert_job j s = Inr s1" and 2: "insert_items ?is s1 = Inr s'"
    and 3: "load_job s' (job_owner j) (job_id j) = Inr (Some v)" and 4: "validate_item_count (job_id j) s' = Inr ()"
    by (auto simp: insert_batch_def split: option.splits)
  note J = insert_job_Inr [OF 1] and I = insert_items_Inr [OF 2]
  have s': "s' = s\<lparr>db_jobs := db_jobs s @ [j], db_items := db_items s @ ?is\<rparr>" using I J by simp
  have f: "find_job (job_id j) s' = Some j"
    using J by (auto simp: find_job_def s' find_append find_None_iff split: option.splits dest!: find_SomeD)
  have n: "count_where (\<lambda>i. item_job i = job_id j) (db_items s @ ?is) = job_expected j"
    using 4 [unfolded validate_item_count_def f] by (simp add: items_of_def count_where_def s')
  have "1 \<le> job_expected j" using load_job_total [OF 3] J by (auto simp: s')
  then show ?thesis
    using insert_rows_ok [OF ok _ _ j(2) _ _ _ _ n _ s'] J I new_items_fields [of _ env "job_owner j"] j(1)
    by simp
qed

lemma create_keeps:
  assumes "pipeline_ok s" "create_or_get_job env owner assignment payload s = Inr (s', v, b)"
  shows "pipeline_ok s'"
proof (cases "existing_job s owner (jc_key payload)")
  case None
  from assms(2) None obtain a r con p snap h m where
    "insert_batch env owner (new_job env owner a r con p snap h m payload) (jc_submissions payload) s = Inr (s', v)"
    by (auto simp: create_or_get_job_def split: if_splits option.splits sum.splits prod.splits)
  then show ?thesis
    using insert_batch_keeps [OF assms(1), of env "new_job env owner a r con p snap h m payload"]
    by (simp add: new_job_def)
qed (use assms in \<open>auto simp: create_or_get_job_def split: if_splits option.splits\<close>)

end
