(* ===== verification/Pipeline_History.thy ===== *)
theory Pipeline_History
  imports Pipeline_Control
begin

text \<open>
  What no transaction of the pipeline ever undoes: rows are never deleted, the inputs of a batch and
  the identity of a paper never change, versions only grow, and a finished call or a completed paper
  is never touched again. \<open>evolves s s'\<close> is this relation; every operation of \<open>Pipeline_Repo\<close> stays within it.
\<close>

definition evolves :: "pdb \<Rightarrow> pdb \<Rightarrow> bool" where
  "evolves s s' \<longleftrightarrow>
     (\<forall>j \<in> set (db_jobs s). \<exists>j' \<in> set (db_jobs s'). job_snapshot j' = job_snapshot j) \<and>
     (\<forall>i \<in> set (db_items s). \<exists>i' \<in> set (db_items s').
        item_identity i' = item_identity i \<and> item_version i \<le> item_version i' \<and>
        (item_status i = ItemCompleted \<longrightarrow> i' = i)) \<and>
     (\<forall>a \<in> set (db_attempts s). \<exists>a' \<in> set (db_attempts s').
        attempt_identity a' = attempt_identity a \<and> (att_status a \<noteq> AttRunning \<longrightarrow> a' = a))"

text \<open>The tables the pipeline only reads.\<close>

definition same_inputs :: "pdb \<Rightarrow> pdb \<Rightarrow> bool" where
  "same_inputs s s' \<longleftrightarrow> db_active_teachers s' = db_active_teachers s \<and> db_providers s' = db_providers s \<and>
     db_assignments s' = db_assignments s \<and> db_rubrics s' = db_rubrics s \<and>
     db_submissions s' = db_submissions s \<and> db_reviews s' = db_reviews s"

definition grows :: "pdb \<Rightarrow> pdb \<Rightarrow> bool" where
  "grows s s' \<longleftrightarrow> evolves s s' \<and> same_inputs s s' \<and> keys_ok s'"

lemma evolves_refl [simp]: "evolves s s"
  by (auto simp: evolves_def)

lemma evolves_trans:
  assumes "evolves s t" "evolves t r"
  shows "evolves s r"
  unfolding evolves_def
proof (intro conjI ballI)
  fix j assume "j \<in> set (db_jobs s)"
  then obtain j' where "j' \<in> set (db_jobs t)" "job_snapshot j' = job_snapshot j" using assms(1) by (auto simp: evolves_def)
  then show "\<exists>j' \<in> set (db_jobs r). job_snapshot j' = job_snapshot j" using assms(2) by (fastforce simp: evolves_def)
next
  fix i assume "i \<in> set (db_items s)"
  then obtain i' where "i' \<in> set (db_items t)" "item_identity i' = item_identity i" "item_version i \<le> item_version i'"
    "item_status i = ItemCompleted \<longrightarrow> i' = i"
    using assms(1) unfolding evolves_def by blast
  moreover then obtain k where "k \<in> set (db_items r)" "item_identity k = item_identity i'" "item_version i' \<le> item_version k"
    "item_status i' = ItemCompleted \<longrightarrow> k = i'" using assms(2) unfolding evolves_def by blast
  ultimately show "\<exists>i' \<in> set (db_items r). item_identity i' = item_identity i \<and> item_version i \<le> item_version i' \<and>
      (item_status i = ItemCompleted \<longrightarrow> i' = i)"
    by (metis le_trans)
next
  fix a assume "a \<in> set (db_attempts s)"
  then obtain a' where "a' \<in> set (db_attempts t)" "attempt_identity a' = attempt_identity a"
    "att_status a \<noteq> AttRunning \<longrightarrow> a' = a" using assms(1) unfolding evolves_def by blast
  moreover then obtain b where "b \<in> set (db_attempts r)" "attempt_identity b = attempt_identity a'"
    "att_status a' \<noteq> AttRunning \<longrightarrow> b = a'" using assms(2) unfolding evolves_def by blast
  ultimately show "\<exists>a' \<in> set (db_attempts r). attempt_identity a' = attempt_identity a \<and>
      (att_status a \<noteq> AttRunning \<longrightarrow> a' = a)" by metis
qed

lemma grows_refl: "keys_ok s \<Longrightarrow> grows s s"
  by (simp add: grows_def same_inputs_def)

lemma grows_trans: "grows s t \<Longrightarrow> grows t r \<Longrightarrow> grows s r"
  unfolding grows_def same_inputs_def using evolves_trans by auto

section \<open>Row writes\<close>

lemma replaced_row:
  assumes "distinct (map k rs)" "x \<in> set rs" "y \<in> set rs" "P x x'" "\<And>z. P z z"
  shows "\<exists>y' \<in> set (replace_row k x x' rs). P y y'"
  using assms by (cases "y = x") (auto simp: replace_row_set)

lemma write_item_grows:
  assumes "keys_ok s" "i \<in> set (db_items s)" "write_item i i' s = Inr s'"
  shows "grows s s'"
proof -
  have K: "distinct (map item_id (db_items s))" using assms(1) by (simp add: keys_ok_def)
  have I: "item_identity i' = item_identity i" "item_version i \<le> item_version i'"
    "s' = s\<lparr>db_items := replace_row item_id i i' (db_items s)\<rparr>"
    using assms(3) protect_item_identity protect_item_version by (auto simp: write_item_Inr)
  have id: "item_id i' = item_id i" using I(1) by (simp add: item_identity_def)
  have nc: "item_status i \<noteq> ItemCompleted"
    using assms(3) protect_item_transition by (fastforce simp: write_item_Inr item_transition_def)
  have "\<exists>y' \<in> set (replace_row item_id i i' (db_items s)). item_identity y' = item_identity y \<and> item_version y \<le> item_version y' \<and>
      (item_status y = ItemCompleted \<longrightarrow> y' = y)"
    if "y \<in> set (db_items s)" for y
    using replaced_row [OF K assms(2) that, of "\<lambda>x y. item_identity y = item_identity x \<and> item_version x \<le> item_version y \<and>
      (item_status x = ItemCompleted \<longrightarrow> y = x)"] I nc by simp
  then show ?thesis
    using assms(1) by (auto simp: grows_def evolves_def same_inputs_def I(3) keys_ok_def replace_row_keys id)
qed

lemma write_job_grows:
  assumes "keys_ok s" "j \<in> set (db_jobs s)" "write_job t f j j' s = Inr s'"
  shows "grows s s'"
proof -
  have K: "distinct (map job_id (db_jobs s))" using assms(1) by (simp add: keys_ok_def)
  obtain n where n: "protect_job_snapshot j n = Inr ()" "s' = s\<lparr>db_jobs := replace_row job_id j n (db_jobs s)\<rparr>"
    using assms(3) by (auto simp: write_job_Inr Let_def)
  have S: "job_snapshot n = job_snapshot j" using n(1) by (auto simp: protect_job_snapshot_def split: if_splits)
  have id: "job_id n = job_id j" using protect_job_fields [OF n(1)] by simp
  have "\<exists>y' \<in> set (replace_row job_id j n (db_jobs s)). job_snapshot y' = job_snapshot y" if "y \<in> set (db_jobs s)" for y
    using replaced_row [OF K assms(2) that, of "\<lambda>x y. job_snapshot y = job_snapshot x"] S by simp
  then show ?thesis
    using assms(1) by (auto simp: grows_def evolves_def same_inputs_def n(2) keys_ok_def replace_row_keys id)
qed

lemma write_attempt_grows:
  assumes "keys_ok s" "a \<in> set (db_attempts s)" "write_attempt a a' s = Inr s'"
  shows "grows s s'"
proof -
  have K: "distinct (map att_id (db_attempts s))" using assms(1) by (simp add: keys_ok_def)
  note A = write_attempt_Inr [OF assms(3)]
  have id: "att_id a' = att_id a" using attempt_identity_fields [of a' a] A by simp
  have s': "s' = s\<lparr>db_attempts := replace_row att_id a a' (db_attempts s)\<rparr>" using A by simp
  have "\<exists>y' \<in> set (replace_row att_id a a' (db_attempts s)). attempt_identity y' = attempt_identity y \<and>
      (att_status y \<noteq> AttRunning \<longrightarrow> y' = y)" if "y \<in> set (db_attempts s)" for y
    using replaced_row [OF K assms(2) that, of "\<lambda>x y. attempt_identity y = attempt_identity x \<and> (att_status x \<noteq> AttRunning \<longrightarrow> y = x)"] A by simp
  then show ?thesis
    using assms(1) by (auto simp: grows_def evolves_def same_inputs_def s' keys_ok_def replace_row_keys id)
qed

lemma insert_attempt_grows:
  assumes "keys_ok s" "insert_attempt a s = Inr s'"
  shows "grows s s'"
  using assms
  by (auto simp: insert_attempt_Inr grows_def evolves_def same_inputs_def keys_ok_def attempt_unique_def)

section \<open>Operations\<close>

lemma close_call_grows:
  assumes "keys_ok s" "a \<in> set (db_attempts s)" "i \<in> set (db_items s)" "j \<in> set (db_jobs s)"
    and "write_attempt a a' s = Inr s1" "write_item i i' s1 = Inr s2" "reconcile_job now t j s2 = Inr s3"
  shows "grows s s3"
proof -
  have 1: "grows s s1" by (rule write_attempt_grows [OF assms(1,2,5)])
  have t1: "db_items s1 = db_items s" "db_jobs s1 = db_jobs s" using write_attempt_Inr [OF assms(5)] by auto
  have 2: "grows s1 s2"
    by (rule write_item_grows [OF _ _ assms(6)]) (use 1 assms(3) t1 in \<open>auto simp: grows_def\<close>)
  have "db_jobs s2 = db_jobs s" using assms(6) t1 by (auto simp: write_item_Inr)
  then have "grows s2 s3"
    using assms(4,7) 2 write_job_grows by (auto simp: reconcile_job_def Let_def grows_def split: if_splits)
  then show ?thesis using 1 2 grows_trans by blast
qed

lemma finish_success_grows:
  assumes "keys_ok s" "finish_success c x now t s = Inr s'"
  shows "grows s s'"
proof -
  from assms(2) obtain j i a s1 s2 where L: "locate_claim c s = Inr (j, i, a)"
    and w: "write_attempt a (succeeded_attempt x now a) s = Inr s1" "write_item i (reviewed_item now i) s1 = Inr s2"
      "reconcile_job now t j s2 = Inr s'" by (auto simp: finish_success_def)
  note l = locate_claim_Inr [OF L]
  show ?thesis by (rule close_call_grows [OF assms(1) l(1-3) w])
qed

lemma finish_failure_grows:
  assumes "keys_ok s" "finish_failure c f now t s = Inr s'"
  shows "grows s s'"
proof -
  from assms(2) obtain j i a s1 s2 where L: "locate_claim c s = Inr (j, i, a)"
    and w: "write_attempt a (failed_attempt f now a) s = Inr s1" "write_item i (failed_item f now i) s1 = Inr s2"
      "reconcile_job now t j s2 = Inr s'" by (auto simp: finish_failure_def)
  note l = locate_claim_Inr [OF L]
  show ?thesis by (rule close_call_grows [OF assms(1) l(1-3) w])
qed

lemma expire_one_grows:
  assumes "keys_ok s" "expire_one now t c s = Inr (s', b)"
  shows "grows s s'"
proof -
  consider "s' = s" | (run) j i a s1 s2 where
    "find_job (item_job c) s = Some j" "find (\<lambda>i. item_id i = item_id c \<and> item_lease_expired t i) (db_items s) = Some i"
    "running_attempt (item_id i) s = Some a"
    "write_attempt a (expired_attempt now a) s = Inr s1" "write_item i (expired_item now i) s1 = Inr s2"
    "reconcile_job now t j s2 = Inr s'"
    using assms(2) by (auto simp: expire_one_def split: option.splits)
  then show ?thesis
  proof cases
    case run
    have "j \<in> set (db_jobs s)" "i \<in> set (db_items s)" "a \<in> set (db_attempts s)"
      using run(1-3) find_SomeD by (fastforce simp: find_job_def running_attempt_def)+
    then show ?thesis using close_call_grows [OF assms(1) _ _ _ run(4-6)] by blast
  qed (use assms(1) grows_refl in simp)
qed

lemma expire_each_grows: "keys_ok s \<Longrightarrow> expire_each now t cs s n = Inr (s', m) \<Longrightarrow> grows s s'"
proof (induction cs arbitrary: s n)
  case (Cons c cs)
  from Cons.prems(2) obtain s1 b where 1: "expire_one now t c s = Inr (s1, b)"
    "expire_each now t cs s1 (if b then n + 1 else n) = Inr (s', m)" by auto
  have g: "grows s s1" by (rule expire_one_grows [OF Cons.prems(1) 1(1)])
  then have "grows s1 s'" using Cons.IH [OF _ 1(2)] by (simp add: grows_def)
  then show ?case using g grows_trans by blast
qed (simp add: grows_refl)

lemma expire_stale_grows: "keys_ok s \<Longrightarrow> expire_stale_attempts now t limit s = Inr (s', n) \<Longrightarrow> grows s s'"
  unfolding expire_stale_attempts_def by (rule expire_each_grows)

lemma claim_grows:
  assumes "keys_ok s" "claim_attempt p h aid lease now t s = Inr (s', Some c)"
  shows "grows s s'"
proof (rule claim_Inr [OF assms(2)])
  fix j i s1 s2
  assume i: "i \<in> set (db_items s)" and j: "j \<in> set (db_jobs s)"
    and w: "insert_attempt (new_attempt p h aid now i s) s = Inr s1" "write_item i (claimed_item p lease now i) s1 = Inr s2"
      "write_job t (job_status j = JobQueued) j (claimed_job now j) s2 = Inr s'"
  have 1: "grows s s1" by (rule insert_attempt_grows [OF assms(1) w(1)])
  have t1: "db_items s1 = db_items s" "db_jobs s1 = db_jobs s" using w(1) by (auto simp: insert_attempt_Inr)
  have 2: "grows s1 s2"
    by (rule write_item_grows [OF _ _ w(2)]) (use 1 i t1 in \<open>auto simp: grows_def\<close>)
  have "db_jobs s2 = db_jobs s" using w(2) t1 by (auto simp: write_item_Inr)
  then have "grows s2 s'" by (intro write_job_grows [OF _ _ w(3)]) (use 2 j in \<open>auto simp: grows_def\<close>)
  then show ?thesis using 1 2 grows_trans by blast
qed

lemma write_items_grows:
  assumes "keys_ok s" "set is \<subseteq> set (db_items s)" "distinct is" "write_items f is s = Inr s'"
  shows "grows s s' \<and> db_jobs s' = db_jobs s"
  using assms
proof (induction "is" arbitrary: s)
  case (Cons i "is")
  from Cons.prems obtain s1 where w: "write_item i (f i) s = Inr s1" "write_items f is s1 = Inr s'" by auto
  have i: "i \<in> set (db_items s)" using Cons.prems by simp
  have 1: "grows s s1" by (rule write_item_grows [OF Cons.prems(1) i w(1)])
  have K: "distinct (map item_id (db_items s))" using Cons.prems(1) by (simp add: keys_ok_def)
  have "set (db_items s1) = insert (f i) (set (db_items s) - {i})"
    using w(1) replace_row_set [OF K i] by (auto simp: write_item_Inr)
  then have "set is \<subseteq> set (db_items s1)" using Cons.prems by auto
  then have "grows s1 s' \<and> db_jobs s' = db_jobs s1"
    by (intro Cons.IH) (use 1 Cons.prems w in \<open>auto simp: grows_def\<close>)
  moreover have "db_jobs s1 = db_jobs s" using w(1) by (auto simp: write_item_Inr)
  ultimately show ?case using 1 grows_trans by metis
qed (simp add: grows_refl)

end
