(* ===== verification/Review_Inv.thy ===== *)
theory Review_Inv
  imports Review_Db Pipeline_History
begin

text \<open>
  What saving and confirming reviews do to the database. Saving writes one draft. Confirming turns
  the referenced drafts into confirmed reviews, completes their papers and settles their batches;
  it keeps the pipeline invariant, and touches no call.
\<close>

section \<open>Completing a paper\<close>

lemma completed_item_simps [simp]:
  "item_status (completed_item t i) = ItemCompleted" "item_identity (completed_item t i) = item_identity i"
  "item_id (completed_item t i) = item_id i" "item_owner (completed_item t i) = item_owner i"
  "item_job (completed_item t i) = item_job i" "item_version (completed_item t i) = item_version i"
  by (simp_all add: completed_item_def item_identity_def)

text \<open>The transition table and the check constraint leave only papers that wait for a review.\<close>

lemma complete_from_review:
  assumes "write_item i (completed_item t i) s = Inr s'" "check_item i"
  shows "item_status i = ItemNeedsReview"
proof -
  have "item_transition (item_status i) ItemCompleted" "check_item (completed_item t i)"
    using assms(1) protect_item_transition by (fastforce simp: write_item_Inr)+
  then show ?thesis using assms(2) by (auto simp: item_transition_def check_item_def completed_item_def)
qed

lemma complete_keeps:
  assumes ok: "pipeline_ok s" and i: "i \<in> set (db_items s)" and w: "write_item i (completed_item t i) s = Inr s'"
  shows "pipeline_ok s'" "db_jobs s' = db_jobs s" "db_attempts s' = db_attempts s"
    "set (db_items s') = insert (completed_item t i) (set (db_items s) - {i})" "item_status i = ItemNeedsReview"
proof -
  have st: "item_status i = ItemNeedsReview"
    by (rule complete_from_review [OF w]) (use ok i in \<open>auto simp: pipeline_ok_def checks_ok_def\<close>)
  have "(item_job i, item_owner i) \<in> set (job_refs s)" using ok i by (auto simp: pipeline_ok_def links_ok_def)
  then obtain j where j: "j \<in> set (db_jobs s)" "item_job i = job_id j" by (auto simp: job_refs_def)
  have idle: "item_status i \<noteq> ItemRunning" "item_status (completed_item t i) \<noteq> ItemRunning" using st by simp_all
  note A = write_item_almost [OF pipeline_almost [OF ok] j(1) i j(2) w idle]
  show "db_jobs s' = db_jobs s" "db_attempts s' = db_attempts s"
    "set (db_items s') = insert (completed_item t i) (set (db_items s) - {i})" "item_status i = ItemNeedsReview"
    using A st by auto
  have act: "active_in s' k \<longleftrightarrow> active_in s k" for k
    using i st unfolding active_in_def A(4) by (auto simp: item_active_def)
  have js: "job_status_ok s j" using ok j by (auto simp: pipeline_ok_def status_ok_iff)
  then have "job_status j \<noteq> JobQueued" using i j st unfolding job_status_ok_def by auto
  then have "job_status_ok s' j" using js act by (simp add: job_status_ok_def)
  then show "pipeline_ok s'" using almost_pipeline [OF A(1)] A(2) j by simp
qed

lemma write_item_reviews: "write_item i i' s = Inr s' \<Longrightarrow> db_reviews s' = db_reviews s"
  by (auto simp: write_item_Inr)

lemma complete_items:
  assumes "pipeline_ok s" "distinct is" "set is \<subseteq> set (db_items s)" "write_items (completed_item t) is s = Inr s'"
  shows "pipeline_ok s' \<and> grows s s' \<and> db_jobs s' = db_jobs s \<and> db_attempts s' = db_attempts s \<and>
    set (db_items s') = completed_item t ` set is \<union> (set (db_items s) - set is) \<and>
    (\<forall>i \<in> set is. item_status i = ItemNeedsReview)"
  using assms
proof (induction "is" arbitrary: s)
  case Nil
  then show ?case by (auto simp: pipeline_ok_def intro: grows_refl)
next
  case (Cons i "is")
  from Cons.prems obtain q where w: "write_item i (completed_item t i) s = Inr q" "write_items (completed_item t) is q = Inr s'"
    by auto
  have i: "i \<in> set (db_items s)" using Cons.prems by simp
  have K: "keys_ok s" using Cons.prems(1) by (simp add: pipeline_ok_def)
  note C = complete_keeps [OF Cons.prems(1) i w(1)]
  note g = write_item_grows [OF K i w(1)]
  have sub: "set is \<subseteq> set (db_items q)" unfolding C(4) using Cons.prems(2,3) by auto
  have d: "distinct is" using Cons.prems by simp
  note IH = Cons.IH [OF C(1) d sub w(2)]
  have ne: "completed_item t i \<notin> set is"
  proof
    assume "completed_item t i \<in> set is"
    then have "completed_item t i = i"
      using Cons.prems(3) i K completed_item_simps(3) [of t i] unfolding keys_ok_def
      by (metis distinct_map_eqD list.set_intros(2) subsetD)
    then have "item_status i = ItemCompleted" using completed_item_simps(1) [of t i] by simp
    then show False using C(5) by simp
  qed
  have "grows s s'" using IH g grows_trans by blast
  then show ?case using IH C ne Cons.prems(2) by auto
qed

section \<open>Settling a batch\<close>

lemma settle_job_keeps:
  assumes ok: "pipeline_ok s" and w: "settle_job t teacher jid s = Inr s'"
  shows "pipeline_ok s' \<and> grows s s' \<and> db_items s' = db_items s \<and> db_attempts s' = db_attempts s \<and>
    job_snapshot ` set (db_jobs s') \<subseteq> job_snapshot ` set (db_jobs s)"
proof (cases "find (\<lambda>j. job_id j = jid \<and> job_owner j = teacher) (db_jobs s)")
  case None
  then show ?thesis using assms by (auto simp: settle_job_def pipeline_ok_def intro: grows_refl)
next
  case (Some j)
  have j: "j \<in> set (db_jobs s)" "job_id j = jid" "job_owner j = teacher" using find_SomeD [OF Some] by auto
  have K: "keys_ok s" using ok by (simp add: pipeline_ok_def)
  define op where "op = (\<exists>i \<in> set (db_items s). item_job i = jid \<and> item_owner i = teacher \<and> item_status i \<noteq> ItemCompleted)"
  define j' where "j' = j\<lparr>job_status := if op then JobNeedsReview else JobCompleted,
    job_finished := if op then None else Some t, job_state_version := job_state_version j + 1, job_updated := t\<rparr>"
  have wj: "write_job t True j j' s = Inr s'" using w Some by (simp add: settle_job_def op_def j'_def Let_def)
  define n where "n = preserve_active_status t s j j'"
  have W: "protect_job_snapshot j n = Inr ()" "check_job n" "s' = s\<lparr>db_jobs := replace_row job_id j n (db_jobs s)\<rparr>"
    using wj by (auto simp: write_job_Inr n_def Let_def)
  note f = protect_job_fields [OF W(1)]
  have "almost_ok (job_id j) s'"
    by (rule almost_job_change [OF pipeline_almost [OF ok] j(1), of _ n]) (use W f in auto)
  moreover have "n \<in> set (db_jobs s')"
    using replace_row_set [OF _ j(1), of job_id n] K W(3) by (simp add: keys_ok_def)
  moreover have "job_status_ok s' n"
  proof -
    have own: "item_owner i = teacher" if "i \<in> set (db_items s)" "item_job i = jid" for i
    proof -
      have "(jid, item_owner i) \<in> set (job_refs s)" using ok that by (auto simp: pipeline_ok_def links_ok_def)
      then obtain k where "k \<in> set (db_jobs s)" "job_id k = jid" "job_owner k = item_owner i" by (auto simp: job_refs_def)
      then show ?thesis using j K by (auto simp: keys_ok_def dest: distinct_map_eqD)
    qed
    have act: "(\<exists>i \<in> set (db_items s). item_job i = job_id j' \<and> item_owner i = job_owner j' \<and> item_active i) \<longleftrightarrow> active_in s jid"
      using own j by (auto simp: j'_def active_in_def)
    have op: "active_in s jid \<Longrightarrow> op" using own by (auto simp: op_def active_in_def item_active_def)
    have "job_status n \<in> {JobQueued, JobRunning, JobPaused} \<longleftrightarrow> active_in s jid" "job_status n \<noteq> JobQueued"
      unfolding n_def preserve_active_status_def act
      by (cases "active_in s jid"; use op in \<open>simp add: j'_def\<close>)+
    then show ?thesis using f j by (simp add: job_status_ok_def W(3) active_in_def)
  qed
  ultimately have p: "pipeline_ok s'" using almost_pipeline [of n s'] f by simp
  have "job_snapshot n = job_snapshot j" using W(1) by (auto simp: protect_job_snapshot_def split: if_splits)
  then have "job_snapshot ` set (db_jobs s') \<subseteq> job_snapshot ` set (db_jobs s)"
    using W(3) j(1) by (auto dest!: replace_row_subset)
  then show ?thesis using p write_job_grows [OF K j(1) wj] W(3) by simp
qed

lemma settle_jobs_keeps:
  assumes "pipeline_ok s" "settle_jobs t teacher js s = Inr s'"
  shows "pipeline_ok s' \<and> grows s s' \<and> db_items s' = db_items s \<and> db_attempts s' = db_attempts s \<and>
    job_snapshot ` set (db_jobs s') \<subseteq> job_snapshot ` set (db_jobs s)"
  using assms
proof (induction js arbitrary: s)
  case Nil
  then show ?case by (auto simp: pipeline_ok_def intro: grows_refl)
next
  case (Cons j js)
  from Cons.prems obtain q where w: "settle_job t teacher j s = Inr q" "settle_jobs t teacher js q = Inr s'" by auto
  note S = settle_job_keeps [OF Cons.prems(1) w(1)]
  then have "pipeline_ok q" by simp
  note IH = Cons.IH [OF this w(2)]
  have "grows s s'" using S IH grows_trans by blast
  moreover have "job_snapshot ` set (db_jobs s') \<subseteq> job_snapshot ` set (db_jobs s)"
    by (rule subset_trans [of _ "job_snapshot ` set (db_jobs q)"]) (use S IH in simp_all)
  ultimately show ?case using S IH by simp
qed

section \<open>Writing reviews\<close>

lemma write_review_Inr:
  "write_review old new s = Inr s' \<Longrightarrow> protect_review_history old new = Inr () \<and> validate_review_score s new \<and>
     check_review new \<and> review_unique (filter (\<lambda>b. rev_id b \<noteq> rev_id old) (db_reviews s)) new \<and>
     s' = s\<lparr>db_reviews := replace_row rev_id old new (db_reviews s)\<rparr>"
  by (auto simp: write_review_def)

lemma confirmed_row_simps [simp]:
  "rev_status (confirmed_row t r) = ReviewConfirmed" "rev_id (confirmed_row t r) = rev_id r"
  "rev_item (confirmed_row t r) = rev_item r" "rev_attempt (confirmed_row t r) = rev_attempt r"
  "rev_owner (confirmed_row t r) = rev_owner r" "rev_revision (confirmed_row t r) = rev_revision r"
  "content_of (confirmed_row t r) = content_of r"
  by (simp_all add: confirmed_row_def content_of_def)

lemma write_reviews_rows:
  assumes "distinct (map rev_id (db_reviews s))" "distinct (map rev_id rs)" "set rs \<subseteq> set (db_reviews s)"
    and "write_reviews t rs s = Inr s'"
  shows "set (db_reviews s') = confirmed_row t ` set rs \<union> (set (db_reviews s) - set rs) \<and>
    map rev_id (db_reviews s') = map rev_id (db_reviews s) \<and> s' = s\<lparr>db_reviews := db_reviews s'\<rparr> \<and>
    (\<forall>r \<in> set rs. rev_status r = ReviewDraft) \<and>
    (\<forall>r \<in> set rs. \<forall>b \<in> set (db_reviews s'). rev_item b = rev_item r \<longrightarrow> rev_status b = ReviewConfirmed \<longrightarrow> rev_id b = rev_id r)"
  using assms
proof (induction rs arbitrary: s)
  case (Cons r rs)
  from Cons.prems obtain q where w: "write_review r (confirmed_row t r) s = Inr q" "write_reviews t rs q = Inr s'" by auto
  have r: "r \<in> set (db_reviews s)" using Cons.prems by simp
  note W = write_review_Inr [OF w(1)]
  have dr: "rev_status r = ReviewDraft"
    using W by (cases "rev_status r") (auto simp: protect_review_history_def)
  have q: "q = s\<lparr>db_reviews := replace_row rev_id r (confirmed_row t r) (db_reviews s)\<rparr>" using W by simp
  have Q: "set (db_reviews q) = insert (confirmed_row t r) (set (db_reviews s) - {r})"
    unfolding q using replace_row_set [OF Cons.prems(1) r] by simp
  have Qk: "map rev_id (db_reviews q) = map rev_id (db_reviews s)" unfolding q by (simp add: replace_row_keys)
  have sub: "set rs \<subseteq> set (db_reviews q)" unfolding Q using Cons.prems(2,3) by auto
  have "distinct (map rev_id (db_reviews q))" "distinct (map rev_id rs)" using Cons.prems(1,2) Qk by simp_all
  note IH = Cons.IH [OF this sub w(2)]
  have IHu: "\<forall>r \<in> set rs. \<forall>b \<in> set (db_reviews s'). rev_item b = rev_item r \<longrightarrow> rev_status b = ReviewConfirmed \<longrightarrow> rev_id b = rev_id r"
    using IH by (elim conjE)
  have nr: "confirmed_row t r \<notin> set rs" using Cons.prems(2) confirmed_row_simps(2) [of t r] by (metis distinct.simps(2) image_eqI list.set_map list.simps(9))
  have set: "set (db_reviews s') = confirmed_row t ` set (r # rs) \<union> (set (db_reviews s) - set (r # rs))"
    using IH nr Q by auto
  have one: "\<forall>b \<in> set (db_reviews s). rev_id b \<noteq> rev_id r \<longrightarrow> rev_item b = rev_item r \<longrightarrow> rev_status b \<noteq> ReviewConfirmed"
    using W by (auto simp: review_unique_def)
  have uniq: "rev_id b = rev_id r" if b: "b \<in> set (db_reviews s')" "rev_item b = rev_item r" "rev_status b = ReviewConfirmed" for b
  proof (rule ccontr)
    assume ne: "rev_id b \<noteq> rev_id r"
    from b(1) consider x where "x \<in> set rs" "b = confirmed_row t x" | "b = confirmed_row t r" | "b \<in> set (db_reviews s)"
      unfolding set by auto
    then show False
    proof cases
      case (1 x)
      have "confirmed_row t r \<in> set (db_reviews s')" unfolding set by simp
      then have "rev_id (confirmed_row t r) = rev_id x" using bspec [OF bspec [OF IHu 1(1)], of "confirmed_row t r"] 1(2) b(2) by simp
      then show False using ne 1(2) by simp
    qed (use one ne b in auto)
  qed
  note IHk = conjunct1 [OF conjunct2 [OF IH]] and IHs = conjunct1 [OF conjunct2 [OF conjunct2 [OF IH]]]
    and IHd = conjunct1 [OF conjunct2 [OF conjunct2 [OF conjunct2 [OF IH]]]]
  have "s' = s\<lparr>db_reviews := db_reviews s'\<rparr>" by (subst IHs) (simp add: q)
  moreover have "map rev_id (db_reviews s') = map rev_id (db_reviews s)" using IHk Qk by simp
  moreover have "\<forall>x \<in> set (r # rs). \<forall>b \<in> set (db_reviews s'). rev_item b = rev_item x \<longrightarrow> rev_status b = ReviewConfirmed \<longrightarrow> rev_id b = rev_id x"
    using IHu uniq by auto
  moreover have "\<forall>x \<in> set (r # rs). rev_status x = ReviewDraft" using IHd dr by simp
  ultimately show ?case using set by (intro conjI)
qed auto

section \<open>The two transactions\<close>

lemma referenced_rows:
  assumes "map_opt (referenced teacher s) refs = Some rs"
  shows "set rs \<subseteq> set (db_reviews s)" "map rev_id rs = map fst refs" "\<forall>r \<in> set rs. rev_owner r = teacher"
    "map (\<lambda>r. (rev_id r, rev_revision r)) rs = refs"
proof -
  have l: "list_all2 (\<lambda>x y. referenced teacher s x = Some y) refs rs" using assms by (simp add: map_opt_Some)
  have P: "y \<in> set (db_reviews s) \<and> rev_id y = fst x \<and> rev_revision y = snd x \<and> rev_owner y = teacher"
    if "referenced teacher s x = Some y" for x y
    using find_SomeD [OF that [unfolded referenced_def]] by simp
  from l show "set rs \<subseteq> set (db_reviews s)" "map rev_id rs = map fst refs" "\<forall>r \<in> set rs. rev_owner r = teacher"
    "map (\<lambda>r. (rev_id r, rev_revision r)) rs = refs"
    by (induction rule: list_all2_induct) (auto dest!: P)
qed

text \<open>What a confirmation that wrote anything did.\<close>

definition confirmed_items :: "uuid \<Rightarrow> review_row list \<Rightarrow> pdb \<Rightarrow> item_row list" where
  "confirmed_items teacher rs s = filter (\<lambda>i. item_owner i = teacher \<and> item_id i \<in> set (map rev_item rs)) (db_items s)"

lemma write_reviews_tables: "write_reviews t rs s = Inr s' \<Longrightarrow> s' = s\<lparr>db_reviews := db_reviews s'\<rparr>"
proof (induction rs arbitrary: s)
  case (Cons r rs)
  from Cons.prems obtain q where w: "write_review r (confirmed_row t r) s = Inr q" "write_reviews t rs q = Inr s'" by auto
  have q: "q = s\<lparr>db_reviews := replace_row rev_id r (confirmed_row t r) (db_reviews s)\<rparr>" using write_review_Inr [OF w(1)] by simp
  have "s' = q\<lparr>db_reviews := db_reviews s'\<rparr>" by (rule Cons.IH [OF w(2)])
  then show ?case unfolding q by simp
qed simp

lemma confirm_core:
  assumes ok: "pipeline_ok s" and c: "confirm_teacher_reviews t teacher refs s = Inr (s', v)" and ch: "s' \<noteq> s"
  obtains rs s1 where "map_opt (referenced teacher s) refs = Some rs" "distinct (map fst refs)"
    "\<forall>x \<in> set (List.map_filter (confirm_join s) rs). check_confirm s x = Inr ()"
    "pipeline_ok s'" "evolves s s'" "keys_ok s'" "db_attempts s' = db_attempts s"
    "job_snapshot ` set (db_jobs s') \<subseteq> job_snapshot ` set (db_jobs s)"
    "set (db_items s') = completed_item t ` set (confirmed_items teacher rs s) \<union> (set (db_items s) - set (confirmed_items teacher rs s))"
    "\<forall>i \<in> set (confirmed_items teacher rs s). item_status i = ItemNeedsReview"
    "write_reviews t rs s = Inr s1" "db_reviews s' = db_reviews s1"
    "same_inputs (s\<lparr>db_reviews := db_reviews s'\<rparr>) s'" "v = Some (map fst refs)"
proof -
  from c ch obtain rs u where rs: "map_opt (referenced teacher s) refs = Some rs" and dist: "distinct (map fst refs)"
    and chk: "mapR (check_confirm s) (confirm_order (List.map_filter (confirm_join s) rs)) = Inr u"
    and cw: "confirm_writes t teacher rs s = Inr s'" and v: "v = Some (map fst refs)"
    by (auto simp: confirm_teacher_reviews_def split: if_splits option.splits)
  from cw obtain s1 s2 js where w: "write_reviews t rs s = Inr s1"
    "write_items (completed_item t) (filter (\<lambda>i. item_owner i = teacher \<and> item_id i \<in> set (map rev_item rs)) (db_items s1)) s1 = Inr s2"
    "settle_jobs t teacher js s2 = Inr s'"
    by (auto simp: confirm_writes_def)
  note e1 = write_reviews_tables [OF w(1)]
  have s1: "db_items s1 = db_items s" "db_jobs s1 = db_jobs s" "db_attempts s1 = db_attempts s"
    using arg_cong [OF e1, of db_items] arg_cong [OF e1, of db_jobs] arg_cong [OF e1, of db_attempts] by simp_all
  have s1i: "same_inputs (s\<lparr>db_reviews := db_reviews s1\<rparr>) s1" by (subst (2) e1) (simp add: same_inputs_def)
  have p1: "pipeline_ok s1"
    using ok s1 by (simp add: pipeline_ok_def pipeline_parts calls_of_def round_calls_def job_refs_def active_in_def)
  have ci: "filter (\<lambda>i. item_owner i = teacher \<and> item_id i \<in> set (map rev_item rs)) (db_items s1) = confirmed_items teacher rs s"
    by (simp add: confirmed_items_def s1)
  have "distinct (map item_id (db_items s))" using ok by (simp add: pipeline_ok_def keys_ok_def)
  then have dc: "distinct (confirmed_items teacher rs s)" unfolding confirmed_items_def by (intro distinct_filter) (simp only: distinct_map)
  have sc: "set (confirmed_items teacher rs s) \<subseteq> set (db_items s1)" by (auto simp: confirmed_items_def s1)
  note I = complete_items [OF p1 dc sc w(2) [unfolded ci]]
  then have p2: "pipeline_ok s2" by simp
  note J = settle_jobs_keeps [OF p2 w(3)]
  have g: "grows s1 s'" by (rule grows_trans [OF conjunct1 [OF conjunct2 [OF I]] conjunct1 [OF conjunct2 [OF J]]])
  have e: "evolves s s1" using s1 by (auto simp: evolves_def)
  have rv: "db_reviews s' = db_reviews s1" using g by (simp add: grows_def same_inputs_def)
  show thesis
  proof (rule that [OF rs dist])
    show "\<forall>x \<in> set (List.map_filter (confirm_join s) rs). check_confirm s x = Inr ()"
      using mapR_all [OF chk] by (auto simp: confirm_order_def)
    show "pipeline_ok s'" "keys_ok s'" using J g by (auto simp: grows_def)
    show "evolves s s'" using e g evolves_trans by (auto simp: grows_def)
    show "db_attempts s' = db_attempts s" using I J s1 by simp
    show "job_snapshot ` set (db_jobs s') \<subseteq> job_snapshot ` set (db_jobs s)" using I J s1 by simp
    show "set (db_items s') = completed_item t ` set (confirmed_items teacher rs s) \<union> (set (db_items s) - set (confirmed_items teacher rs s))"
      using I J s1 by simp
    show "\<forall>i \<in> set (confirmed_items teacher rs s). item_status i = ItemNeedsReview" using I by blast
    show "same_inputs (s\<lparr>db_reviews := db_reviews s'\<rparr>) s'" using g s1i by (simp add: grows_def same_inputs_def)
  qed (fact w(1), fact rv, fact v)
qed

lemma confirm_keeps:
  assumes "pipeline_ok s" "confirm_teacher_reviews t teacher refs s = Inr (s', v)"
  shows "pipeline_ok s'" "evolves s s'"
  using assms by (cases "s' = s"; auto elim: confirm_core)+

lemma save_tables:
  assumes "save_teacher_review_draft rid teacher iid aid c s = Inr (s', v)"
  obtains rv where "s' = s\<lparr>db_reviews := rv\<rparr>"
proof (cases "s' = s")
  case True
  then show thesis using that [of "db_reviews s"] by simp
next
  case False
  then show thesis using assms that
    by (auto simp: save_teacher_review_draft_def write_review_def insert_review_def split: option.splits if_splits)
qed

lemma save_keeps:
  assumes "save_teacher_review_draft rid teacher iid aid c s = Inr (s', v)"
  shows "pipeline_ok s \<Longrightarrow> pipeline_ok s'" "evolves s s'"
  by (rule save_tables [OF assms];
      simp add: pipeline_ok_def pipeline_parts calls_of_def round_calls_def job_refs_def active_in_def evolves_def; blast)+

lemma save_effect:
  assumes "save_teacher_review_draft rid teacher iid aid c s = Inr (s', v)" "distinct (map rev_id (db_reviews s))"
  shows "s' = s\<lparr>db_reviews := db_reviews s'\<rparr> \<and> distinct (map rev_id (db_reviews s')) \<and>
    (\<forall>r. rev_status r = ReviewConfirmed \<longrightarrow> (r \<in> set (db_reviews s') \<longleftrightarrow> r \<in> set (db_reviews s))) \<and>
    (\<forall>r \<in> set (db_reviews s'). r \<in> set (db_reviews s) \<or> (validate_review_score s r \<and> check_review r \<and>
       rev_status r = ReviewDraft \<and> content_of r = c \<and> rev_item r = iid \<and> rev_attempt r = aid))"
proof (cases "s' = s")
  case False
  from assms(1) False consider (upd) r where
      "find (\<lambda>r. rev_attempt r = aid \<and> rev_item r = iid \<and> rev_owner r = teacher) (db_reviews s) = Some r"
      "rev_status r = ReviewDraft" "write_review r (set_content c r\<lparr>rev_revision := rev_revision r + 1\<rparr>) s = Inr s'"
    | (ins) a where "insert_review (new_review rid teacher iid a (next_revision teacher iid s) c) s = Inr s'" "att_id a = aid"
    by (auto simp: save_teacher_review_draft_def save_context_def bind_eq_Some_conv split: option.splits if_splits)
  then show ?thesis
  proof cases
    case upd
    let ?n = "set_content c r\<lparr>rev_revision := rev_revision r + 1\<rparr>"
    have r: "r \<in> set (db_reviews s)" "rev_attempt r = aid" "rev_item r = iid" using find_SomeD [OF upd(1)] by auto
    note W = write_review_Inr [OF upd(3)]
    have s': "s' = s\<lparr>db_reviews := replace_row rev_id r ?n (db_reviews s)\<rparr>" using W by simp
    have id: "rev_id ?n = rev_id r" "rev_status ?n = ReviewDraft" "content_of ?n = c" "rev_item ?n = iid" "rev_attempt ?n = aid"
      using upd(2) r by (simp_all add: set_content_def content_of_def)
    have S: "set (db_reviews s') = insert ?n (set (db_reviews s) - {r})"
      unfolding s' using replace_row_set [OF assms(2) r(1)] by simp
    have k: "map rev_id (db_reviews s') = map rev_id (db_reviews s)"
      unfolding s' using replace_row_keys [where k = rev_id and x' = ?n, OF id(1)] by simp
    have "s' = s\<lparr>db_reviews := db_reviews s'\<rparr>" unfolding s' by simp
    moreover have "distinct (map rev_id (db_reviews s'))" using k assms(2) by simp
    moreover have "r' \<in> set (db_reviews s') \<longleftrightarrow> r' \<in> set (db_reviews s)" if "rev_status r' = ReviewConfirmed" for r'
      using that upd(2) id(2) unfolding S by auto
    moreover have "r' \<in> set (db_reviews s) \<or> (validate_review_score s r' \<and> check_review r' \<and>
       rev_status r' = ReviewDraft \<and> content_of r' = c \<and> rev_item r' = iid \<and> rev_attempt r' = aid)"
      if "r' \<in> set (db_reviews s')" for r'
      using that W id unfolding S by auto
    ultimately show ?thesis by blast
  next
    case ins
    let ?n = "new_review rid teacher iid a (next_revision teacher iid s) c"
    have s': "s' = s\<lparr>db_reviews := db_reviews s @ [?n]\<rparr>" "validate_review_score s ?n" "check_review ?n" "review_unique (db_reviews s) ?n"
      using ins by (auto simp: insert_review_def)
    have "content_of ?n = c" "rev_status ?n = ReviewDraft" "rev_item ?n = iid" "rev_attempt ?n = aid" "rev_id ?n = rid"
      using ins(2) by (simp_all add: new_review_def content_of_def)
    moreover have "s' = s\<lparr>db_reviews := db_reviews s'\<rparr>" unfolding s'(1) by simp
    moreover have "db_reviews s' = db_reviews s @ [?n]" unfolding s'(1) by simp
    ultimately show ?thesis using s'(2-4) assms(2) by (auto simp: review_unique_def)
  qed
qed (use assms in auto)

end
