(* ===== verification/Provider_Request.thy ===== *)
theory Provider_Request
  imports Job_Contract
begin

text \<open>
  \<open>ProviderGradeRequest\<close> of \<open>backend/app/providers/base.py\<close>: what an adapter receives. The result
  schema travels as the bytes of its canonical JSON; the runner always builds them from a schema
  value, so the schema is kept as that value.
\<close>

record provider_grade_request =
  pgr_provider :: uuid
  pgr_config_version :: int
  pgr_type :: provider_type
  pgr_base_url :: pystr
  pgr_api_key :: pystr
  pgr_model :: pystr
  pgr_timeout_ms :: nat
  pgr_max_output :: int
  pgr_capabilities :: model_capabilities
  pgr_schema :: json
  pgr_prompt :: grading_prompt

fun is_object :: "json \<Rightarrow> bool" where
  "is_object (JObj kvs) = True"
| "is_object _ = False"

text \<open>The field constraints and \<open>validate_snapshot\<close>, check by check.\<close>

definition valid_grade_request :: "prompt_env \<Rightarrow> provider_grade_request \<Rightarrow> bool" where
  "valid_grade_request E r \<longleftrightarrow>
     0 < pgr_config_version r \<and> length_between 1 2048 (pgr_base_url r) \<and> length_between 1 4096 (pgr_api_key r) \<and>
     length_between 1 255 (pgr_model r) \<and> 0 < pgr_timeout_ms r \<and> pgr_timeout_ms r \<le> 300000 \<and>
     0 < pgr_max_output r \<and> pgr_max_output r \<le> 1000000 \<and>
     cap_model (pgr_capabilities r) = pgr_model r \<and>
     pgr_max_output r \<le> cap_max_output (pgr_capabilities r) \<and>
     (case canonical_json (pgr_schema r) of None \<Rightarrow> False
      | Some t \<Rightarrow> 2 \<le> utf8_length t \<and> utf8_length t \<le> 1000000 \<and> pe_sha E t = gp_schema_hash (pgr_prompt r)) \<and>
     is_object (pgr_schema r)"

text \<open>\<open>ProviderGradeRequest.snapshot_hash\<close>: what may not change between a call and its correction.\<close>

definition grade_request_snapshot :: "provider_grade_request \<Rightarrow> json" where
  "grade_request_snapshot r = JObj [(ustr ''provider_config_id'', JStr (uuid_text (pgr_provider r))),
     (ustr ''config_version'', JInt (pgr_config_version r)), (ustr ''provider_type'', JStr (provider_type_text (pgr_type r))),
     (ustr ''base_url'', JStr (pgr_base_url r)), (ustr ''model'', JStr (pgr_model r)),
     (ustr ''timeout_seconds'', jdec (Dec False (pgr_timeout_ms r) (- 3))), (ustr ''max_output_tokens'', JInt (pgr_max_output r)),
     (ustr ''capabilities'', capabilities_json (pgr_capabilities r)),
     (ustr ''prompt_version'', JStr (version_text (gp_version (pgr_prompt r)))),
     (ustr ''prompt_hash'', JStr (digest_hex (gp_prompt_hash (pgr_prompt r)))),
     (ustr ''result_schema_hash'', JStr (digest_hex (gp_schema_hash (pgr_prompt r)))),
     (ustr ''rubric_hash'', JStr (digest_hex (gp_rubric_hash (pgr_prompt r)))),
     (ustr ''base_request_hash'', JStr (digest_hex (gp_base_request_hash (pgr_prompt r))))]"

definition grade_request_snapshot_hash :: "prompt_env \<Rightarrow> provider_grade_request \<Rightarrow> digest option" where
  "grade_request_snapshot_hash E r = canonical_sha256 (pe_sha E) (grade_request_snapshot r)"

text \<open>
  How a call ends: with a result, with the URL policy refusing the address before anything is sent,
  with a classified provider error, or with an exception the runner does not catch.
\<close>

datatype call_result =
    CallOk provider_result
  | CallUrlRejected
  | CallFailed provider_error
  | CallRaised

end
