(* ===== verification/Json_Reader.thy ===== *)
theory Json_Reader
  imports Canonical_Json Decimal_Strings
begin

text \<open>
  \<open>json.loads\<close>, which reads the answers of models and providers and the objects kept in storage. The
  scanner of CPython is followed branch by branch: white space, literals including \<open>NaN\<close> and the
  infinities, strings with escapes and surrogate pairs, numbers, arrays, and objects whose repeated
  keys keep the last value. Not every failure is a \<open>JSONDecodeError\<close>: an integer of more than 4300
  digits raises a plain \<open>ValueError\<close> and deep nesting a \<open>RecursionError\<close>.
\<close>

section \<open>Strings\<close>

datatype loads_exn = LoadsDecode | LoadsIntTooLong | LoadsTooDeep

text \<open>
  The environment: how many containers may be nested before the recursion limit, and the float
  nearest to a decimal text (an infinity when it overflows).
\<close>

record loads_env =
  ld_depth :: nat
  ld_float :: "decimal \<Rightarrow> json"

definition json_ws :: "nat \<Rightarrow> bool" where
  "json_ws c \<longleftrightarrow> c = 32 \<or> c = 9 \<or> c = 10 \<or> c = 13"

definition skip_ws :: "pystr \<Rightarrow> pystr" where
  "skip_ws s = dropWhile json_ws s"

definition hex_value :: "nat \<Rightarrow> nat option" where
  "hex_value c = (if 48 \<le> c \<and> c \<le> 57 then Some (c - 48) else if 97 \<le> c \<and> c \<le> 102 then Some (c - 87)
     else if 65 \<le> c \<and> c \<le> 70 then Some (c - 55) else None)"

fun hex4 :: "pystr \<Rightarrow> (nat \<times> pystr) option" where
  "hex4 (a # b # c # d # s) = (case (hex_value a, hex_value b, hex_value c, hex_value d) of
      (Some w, Some x, Some y, Some z) \<Rightarrow> Some (((w * 16 + x) * 16 + y) * 16 + z, s)
    | _ \<Rightarrow> None)"
| "hex4 s = None"

definition unescape :: "nat \<Rightarrow> nat option" where
  "unescape e = (if e = 34 \<or> e = 92 \<or> e = 47 then Some e else if e = 98 then Some 8 else if e = 102 then Some 12
     else if e = 110 then Some 10 else if e = 114 then Some 13 else if e = 116 then Some 9 else None)"

text \<open>A low surrogate escaped right after a high one.\<close>

definition low_escape :: "pystr \<Rightarrow> (nat \<times> pystr) option" where
  "low_escape s = (case s of a # b # r \<Rightarrow> if a = 92 \<and> b = 117 then
       (case hex4 r of Some (w, u) \<Rightarrow> if 56320 \<le> w \<and> w \<le> 57343 then Some (w, u) else None | None \<Rightarrow> None)
       else None
     | _ \<Rightarrow> None)"

text \<open>One escape after its backslash: the code point and the rest.\<close>

definition read_escape :: "pystr \<Rightarrow> (nat \<times> pystr) option" where
  "read_escape s = (case s of [] \<Rightarrow> None
     | e # r \<Rightarrow>
         if e \<noteq> 117 then map_option (\<lambda>x. (x, r)) (unescape e)
         else (case hex4 r of None \<Rightarrow> None
           | Some (v, u) \<Rightarrow>
               if 55296 \<le> v \<and> v \<le> 56319 then
                 (case low_escape u of Some (w, u') \<Rightarrow> Some (65536 + (v - 55296) * 1024 + (w - 56320), u')
                  | None \<Rightarrow> Some (v, u))
               else Some (v, u)))"

lemma hex4_shorter: "hex4 s = Some (v, r) \<Longrightarrow> length r < length s"
  by (induction s rule: hex4.induct) (auto split: option.splits)

lemma low_escape_shorter: "low_escape s = Some (v, r) \<Longrightarrow> length r < length s"
  by (auto simp: low_escape_def split: list.splits if_splits option.splits dest: hex4_shorter)

lemma read_escape_shorter: "read_escape s = Some (v, r) \<Longrightarrow> length r < length s"
  by (auto simp: read_escape_def split: list.splits if_splits option.splits dest!: hex4_shorter low_escape_shorter)

text \<open>The body of a string up to its closing quote.\<close>

function scan_string :: "pystr \<Rightarrow> (pystr \<times> pystr) option" where
  "scan_string [] = None"
| "scan_string (c # s) =
     (if c = 34 then Some ([], s)
      else if c < 32 then None
      else if c \<noteq> 92 then map_option (\<lambda>(t, r). (c # t, r)) (scan_string s)
      else (case read_escape s of None \<Rightarrow> None
        | Some (x, u) \<Rightarrow> map_option (\<lambda>(t, r). (x # t, r)) (scan_string u)))"
  by pat_completeness auto
termination by (relation "measure length") (auto dest: read_escape_shorter)

lemma scan_string_shorter: "scan_string s = Some (t, r) \<Longrightarrow> length r < length s"
proof (induction s arbitrary: t rule: scan_string.induct)
  case (2 c s)
  then show ?case by (fastforce split: if_splits option.splits prod.splits dest: read_escape_shorter)
qed simp

section \<open>Numbers\<close>

definition span_digits :: "pystr \<Rightarrow> pystr \<times> pystr" where
  "span_digits s = (takeWhile is_digit s, dropWhile is_digit s)"

text \<open>The integer part: a single zero, or digits that do not start with one.\<close>

definition int_part :: "pystr \<Rightarrow> (pystr \<times> pystr) option" where
  "int_part s = (case s of [] \<Rightarrow> None
     | c # r \<Rightarrow> if c = 48 then Some ([48], r) else if is_digit c then Some (span_digits s) else None)"

definition frac_part :: "pystr \<Rightarrow> pystr \<times> pystr" where
  "frac_part s = (case s of [] \<Rightarrow> ([], s)
     | c # r \<Rightarrow> if c = 46 \<and> takeWhile is_digit r \<noteq> [] then span_digits r else ([], s))"

text \<open>The exponent, \<open>None\<close> when there is none.\<close>

definition exp_part :: "pystr \<Rightarrow> int option \<times> pystr" where
  "exp_part s = (case s of [] \<Rightarrow> (None, s)
     | e # r \<Rightarrow> if e \<noteq> 101 \<and> e \<noteq> 69 then (None, s)
         else let neg = (case r of x # _ \<Rightarrow> x = 45 | [] \<Rightarrow> False);
                  u = (case r of x # u \<Rightarrow> if x = 45 \<or> x = 43 then u else r | [] \<Rightarrow> r);
                  ds = takeWhile is_digit u
              in if ds = [] then (None, s)
                 else (Some (if neg then - int (digits_value ds) else int (digits_value ds)), dropWhile is_digit u))"

definition max_int_digits :: nat where
  "max_int_digits = 4300"

definition scan_number :: "loads_env \<Rightarrow> pystr \<Rightarrow> loads_exn + (json \<times> pystr)" where
  "scan_number E s =
     (let neg = (case s of c # _ \<Rightarrow> c = 45 | [] \<Rightarrow> False); u = (if neg then tl s else s) in
      case int_part u of None \<Rightarrow> Inl LoadsDecode
      | Some (ds, r) \<Rightarrow>
          let (fs, r1) = frac_part r; (e, r2) = exp_part r1 in
          if fs = [] \<and> e = None then
            (if max_int_digits < length ds then Inl LoadsIntTooLong
             else Inr (JInt (if neg then - int (digits_value ds) else int (digits_value ds)), r2))
          else Inr (ld_float E (Dec neg (digits_value (ds @ fs))
                 ((case e of None \<Rightarrow> 0 | Some x \<Rightarrow> x) - int (length fs))), r2))"

lemma drop_digits_length: "length (dropWhile is_digit s) \<le> length s"
  by (rule length_dropWhile_le)

lemma int_part_shorter: "int_part s = Some (ds, r) \<Longrightarrow> length r < length s"
  by (auto simp: int_part_def span_digits_def le_imp_less_Suc drop_digits_length split: list.splits if_splits)

lemma frac_part_length: "length (snd (frac_part s)) \<le> length s"
proof -
  have "length (dropWhile is_digit r) \<le> Suc (length r)" for r using drop_digits_length [of r] by simp
  then show ?thesis by (auto simp: frac_part_def span_digits_def split: list.splits)
qed

lemma exp_part_length: "length (snd (exp_part s)) \<le> length s"
proof -
  have "length (dropWhile is_digit r) \<le> Suc (length r)" "length (dropWhile is_digit r) \<le> Suc (Suc (length r))" for r
    using drop_digits_length [of r] by simp_all
  then show ?thesis by (auto simp: exp_part_def Let_def split: list.splits)
qed

lemma scan_number_shorter: "scan_number E s = Inr (v, r) \<Longrightarrow> length r < length s"
proof -
  assume a: "scan_number E s = Inr (v, r)"
  define u where "u = (if (case s of c # _ \<Rightarrow> c = 45 | [] \<Rightarrow> False) then tl s else s)"
  obtain ds r0 where i: "int_part u = Some (ds, r0)" and r: "r = snd (exp_part (snd (frac_part r0)))"
    using a by (auto simp: scan_number_def Let_def u_def split: option.splits prod.splits if_splits)
  have "length r \<le> length r0" unfolding r by (rule order_trans [OF exp_part_length frac_part_length])
  also have "length r0 < length u" using i by (rule int_part_shorter)
  also have "length u \<le> length s" by (simp add: u_def)
  finally show ?thesis .
qed

section \<open>Values\<close>

text \<open>\<open>PyDict_SetItem\<close>: a repeated key keeps its place and takes the later value.\<close>

fun dict_set :: "pystr \<Rightarrow> 'a \<Rightarrow> (pystr \<times> 'a) list \<Rightarrow> (pystr \<times> 'a) list" where
  "dict_set k v [] = [(k, v)]"
| "dict_set k v ((k', v') # kvs) = (if k' = k then (k, v) # kvs else (k', v') # dict_set k v kvs)"

definition dict_of :: "(pystr \<times> 'a) list \<Rightarrow> (pystr \<times> 'a) list" where
  "dict_of kvs = foldl (\<lambda>m (k, v). dict_set k v m) [] kvs"

text \<open>The literals that are not numbers.\<close>

definition literals :: "(pystr \<times> json) list" where
  "literals = [(ustr ''null'', JNull), (ustr ''true'', JBool True), (ustr ''false'', JBool False),
     (ustr ''NaN'', JNonFinite NotANumber), (ustr ''Infinity'', JNonFinite PosInfinity),
     (ustr ''-Infinity'', JNonFinite NegInfinity)]"

definition scan_atom :: "loads_env \<Rightarrow> pystr \<Rightarrow> loads_exn + (json \<times> pystr)" where
  "scan_atom E s = (case find (\<lambda>lj. is_prefix (fst lj) s) literals of
      Some (l, j) \<Rightarrow> Inr (j, drop (length l) s)
    | None \<Rightarrow> scan_number E s)"

lemma is_prefix_drop: "is_prefix p s \<Longrightarrow> s = p @ drop (length p) s"
  by (auto simp: is_prefix_iff)

lemma scan_atom_shorter: "scan_atom E s = Inr (v, r) \<Longrightarrow> length r < length s"
proof (cases "find (\<lambda>lj. is_prefix (fst lj) s) literals")
  case (Some lj)
  assume a: "scan_atom E s = Inr (v, r)"
  obtain l j where lj: "lj = (l, j)" by (cases lj)
  have "(l, j) \<in> set literals" "is_prefix l s" using find_SomeD [OF Some] lj by auto
  then have "l \<noteq> []" "s = l @ drop (length l) s" using is_prefix_drop by (auto simp: literals_def ustr_def)
  then have "length (drop (length l) s) < length s" by (metis length_append length_greater_0_conv less_add_same_cancel2)
  moreover have "r = drop (length l) s" using a Some lj by (simp add: scan_atom_def)
  ultimately show ?thesis by simp
qed (auto simp: scan_atom_def dest: scan_number_shorter)

text \<open>
  \<open>scan_once\<close>: \<open>d\<close> counts the containers that may still be opened. The comparisons of lengths are
  always true (\<open>parse_shorter\<close>); they make the recursion visible to the kernel.
\<close>

function parse_value :: "loads_env \<Rightarrow> nat \<Rightarrow> pystr \<Rightarrow> loads_exn + (json \<times> pystr)"
  and parse_items :: "loads_env \<Rightarrow> nat \<Rightarrow> pystr \<Rightarrow> loads_exn + (json list \<times> pystr)"
  and parse_members :: "loads_env \<Rightarrow> nat \<Rightarrow> pystr \<Rightarrow> loads_exn + ((pystr \<times> json) list \<times> pystr)" where
  "parse_value E d s = (case s of [] \<Rightarrow> Inl LoadsDecode
     | c # r \<Rightarrow>
         if c = 34 then (case scan_string r of None \<Rightarrow> Inl LoadsDecode | Some (t, u) \<Rightarrow> Inr (JStr t, u))
         else if c = 91 \<or> c = 123 then
           (case d of 0 \<Rightarrow> Inl LoadsTooDeep
            | Suc d' \<Rightarrow>
                if c = 91 then
                  (case skip_ws r of [] \<Rightarrow> Inl LoadsDecode
                   | x # u \<Rightarrow> if x = 93 then Inr (JArr [], u)
                       else if length (x # u) < length s then
                         (case parse_items E d' (x # u) of Inl e \<Rightarrow> Inl e | Inr (vs, w) \<Rightarrow> Inr (JArr vs, w))
                       else Inl LoadsDecode)
                else
                  (case skip_ws r of [] \<Rightarrow> Inl LoadsDecode
                   | x # u \<Rightarrow> if x = 125 then Inr (JObj [], u)
                       else if length (x # u) < length s then
                         (case parse_members E d' (x # u) of Inl e \<Rightarrow> Inl e | Inr (kvs, w) \<Rightarrow> Inr (JObj (dict_of kvs), w))
                       else Inl LoadsDecode))
         else scan_atom E s)"
| "parse_items E d s = (case parse_value E d s of Inl e \<Rightarrow> Inl e
     | Inr (v, r) \<Rightarrow> (case skip_ws r of [] \<Rightarrow> Inl LoadsDecode
         | x # u \<Rightarrow> if x = 93 then Inr ([v], u)
             else if x = 44 \<and> length (skip_ws u) < length s then
               (case parse_items E d (skip_ws u) of Inl e \<Rightarrow> Inl e | Inr (vs, w) \<Rightarrow> Inr (v # vs, w))
             else Inl LoadsDecode))"
| "parse_members E d s = (case s of [] \<Rightarrow> Inl LoadsDecode
     | q # t \<Rightarrow> if q \<noteq> 34 then Inl LoadsDecode
         else (case scan_string t of None \<Rightarrow> Inl LoadsDecode
           | Some (k, r) \<Rightarrow> (case skip_ws r of [] \<Rightarrow> Inl LoadsDecode
               | x # u \<Rightarrow> if x = 58 \<and> length (skip_ws u) < length s then
                   (case parse_value E d (skip_ws u) of Inl e \<Rightarrow> Inl e
                    | Inr (v, r') \<Rightarrow> (case skip_ws r' of [] \<Rightarrow> Inl LoadsDecode
                        | y # w \<Rightarrow> if y = 125 then Inr ([(k, v)], w)
                            else if y = 44 \<and> length (skip_ws w) < length s then
                              (case parse_members E d (skip_ws w) of Inl e \<Rightarrow> Inl e
                               | Inr (kvs, z) \<Rightarrow> Inr ((k, v) # kvs, z))
                            else Inl LoadsDecode))
                   else Inl LoadsDecode)))"
  by pat_completeness auto
termination
  by (relation "measure (\<lambda>x. case x of Inl (E, d, s) \<Rightarrow> 2 * length s
        | Inr (Inl (E, d, s)) \<Rightarrow> 2 * length s + 1 | Inr (Inr (E, d, s)) \<Rightarrow> 2 * length s + 1)") auto

declare parse_value.simps [simp del] parse_items.simps [simp del] parse_members.simps [simp del]

text \<open>\<open>json.loads\<close> of a text; a byte order mark is refused.\<close>

definition json_loads :: "loads_env \<Rightarrow> pystr \<Rightarrow> loads_exn + json" where
  "json_loads E s =
     (if is_prefix [65279] s then Inl LoadsDecode
      else case parse_value E (ld_depth E) (skip_ws s) of
        Inl e \<Rightarrow> Inl e
      | Inr (v, r) \<Rightarrow> if skip_ws r = [] then Inr v else Inl LoadsDecode)"

lemma skip_ws_length: "length (skip_ws s) \<le> length s"
  by (simp add: skip_ws_def length_dropWhile_le)

lemma skip_ws_Cons_length: "skip_ws s = x # u \<Longrightarrow> length u < length s"
  using skip_ws_length [of s] by simp

lemma parse_shorter:
  "parse_value E d s = Inr (v, r) \<Longrightarrow> length r < length s"
  "parse_items E d s = Inr (vs, r) \<Longrightarrow> length r < length s"
  "parse_members E d s = Inr (kvs, r) \<Longrightarrow> length r < length s"
proof (induction E d s and E d s and E d s arbitrary: v r and vs r and kvs r rule: parse_value_parse_items_parse_members.induct)
  case (1 E d s)
  note p = "1.prems" [unfolded parse_value.simps [of E d s]]
  from p obtain c t where s: "s = c # t" by (cases s) auto
  have short: "length (skip_ws t) < length s" using skip_ws_length [of t] s by simp
  consider (str) "c = 34" | (arr) d' x u where "c = 91" "d = Suc d'" "skip_ws t = x # u" | (obj) d' x u where "c = 123" "d = Suc d'" "skip_ws t = x # u"
    | (atom) "c \<noteq> 34" "c \<noteq> 91" "c \<noteq> 123"
    using p s by (cases d; cases "skip_ws t"; cases "c = 91"; cases "c = 123") auto
  then show ?case
  proof cases
    case str
    then show ?thesis using p s scan_string_shorter [of t] by (fastforce split: option.splits)
  next
    case arr
    show ?thesis
    proof (cases "x = 93")
      case False
      from p s arr False obtain ws where i: "parse_items E d' (x # u) = Inr (ws, r)" by (auto split: if_splits sum.splits)
      have "length r < length (x # u)" by (rule "1.IH"(1) [OF s _ _ _ _ arr(3) False _ i]) (use arr short in auto)
      then show ?thesis using short arr by simp
    qed (use p s arr short in simp)
  next
    case obj
    show ?thesis
    proof (cases "x = 125")
      case False
      from p s obj False obtain ws where i: "parse_members E d' (x # u) = Inr (ws, r)" by (auto split: if_splits sum.splits)
      have "length r < length (x # u)" by (rule "1.IH"(2) [OF s _ _ _ _ obj(3) False _ i]) (use obj short in auto)
      then show ?thesis using short obj by simp
    qed (use p s obj short in simp)
  next
    case atom
    then show ?thesis using p s scan_atom_shorter [of E s] by simp
  qed
next
  case (2 E d s)
  note p = "2.prems" [unfolded parse_items.simps [of E d s]]
  from p obtain w q where v: "parse_value E d s = Inr (w, q)" by (cases "parse_value E d s") auto
  from p v obtain x u where q: "skip_ws q = x # u" by (cases "skip_ws q") auto
  have "length q < length s" by (rule "2.IH"(1) [OF v])
  then have u: "length u < length s" using skip_ws_Cons_length [OF q] by simp
  show ?case
  proof (cases "x = 93")
    case False
    then obtain ws where i: "parse_items E d (skip_ws u) = Inr (ws, r)" and x: "x = 44 \<and> length (skip_ws u) < length s"
      using p v q by (auto split: if_splits sum.splits)
    have "length r < length (skip_ws u)" by (rule "2.IH"(2) [OF v _ q False x i]) simp
    then show ?thesis using x by simp
  qed (use p v q u in simp)
next
  case (3 E d s)
  note p = "3.prems" [unfolded parse_members.simps [of E d s]]
  from p obtain t where s: "s = 34 # t" by (cases s) (auto split: if_splits)
  from p s obtain k q where k: "scan_string t = Some (k, q)" by (cases "scan_string t") auto
  from p s k obtain x u where q: "skip_ws q = x # u" by (cases "skip_ws q") auto
  from p s k q have x: "x = 58 \<and> length (skip_ws u) < length s" by (auto split: if_splits)
  from p s k q x obtain v' r' where v: "parse_value E d (skip_ws u) = Inr (v', r')"
    by (cases "parse_value E d (skip_ws u)") auto
  have r': "length r' < length (skip_ws u)" by (rule "3.IH"(1) [OF s _ k _ q x v]) simp_all
  from p s k q x v obtain y w where w: "skip_ws r' = y # w" by (cases "skip_ws r'") auto
  have w': "length w < length s" using skip_ws_Cons_length [OF w] r' x by simp
  show ?case
  proof (cases "y = 125")
    case False
    then obtain ws where i: "parse_members E d (skip_ws w) = Inr (ws, r)" and y: "y = 44 \<and> length (skip_ws w) < length s"
      using p s k q x v w by (auto split: if_splits sum.splits)
    have "length r < length (skip_ws w)" by (rule "3.IH"(2) [OF s _ k _ q x v _ w False y i]) simp_all
    then show ?thesis using y by simp
  qed (use p s k q x v w w' in simp)
qed

section \<open>Reading what was written\<close>

text \<open>The texts that may follow a value inside a rendering.\<close>

definition ends :: "pystr \<Rightarrow> bool" where
  "ends s \<longleftrightarrow> (case s of [] \<Rightarrow> True | c # _ \<Rightarrow> c = 44 \<or> c = 93 \<or> c = 125)"

lemma ends_simps [simp]: "ends []" "ends (44 # s)" "ends (93 # s)" "ends (125 # s)"
  by (simp_all add: ends_def)

lemma hex_value_digit: "n < 16 \<Longrightarrow> hex_value (hex_digit n) = Some n"
  by (auto simp: hex_value_def hex_digit_def)

lemma hex4_escape: "n < 256 \<Longrightarrow> hex4 (48 # 48 # hex_digit (n div 16) # hex_digit (n mod 16) # r) = Some (n, r)"
proof -
  assume "n < 256"
  then have "hex_value (hex_digit (n div 16)) = Some (n div 16)" "hex_value (hex_digit (n mod 16)) = Some (n mod 16)"
    by (simp_all add: hex_value_digit)
  moreover have "hex_value 48 = Some 0" by (simp add: hex_value_def)
  ultimately show ?thesis by simp
qed

lemma scan_escape:
  assumes "scan_string r = Some (t, u)"
  shows "scan_string (escape_char c @ r) = Some (c # t, u)"
proof (cases "long_escape c")
  case True
  then have c: "c < 32" by (simp add: long_escape_def)
  have "read_escape (117 # 48 # 48 # hex_digit (c div 16) # hex_digit (c mod 16) # r) = Some (c, r)"
    using hex4_escape [of c r] c by (simp add: read_escape_def)
  then show ?thesis using assms True by (simp add: escape_long)
next
  case False
  then have "32 \<le> c \<or> c \<in> {8, 9, 10, 12, 13}" by (auto simp: long_escape_def)
  then show ?thesis using assms False by (auto simp: escape_short read_escape_def unescape_def)
qed

lemma scan_json_string: "scan_string (concat (map escape_char s) @ 34 # r) = Some (s, r)"
  by (induction s) (simp_all add: scan_escape)

lemma parse_string: "parse_value E d (json_string s @ r) = Inr (JStr s, r)"
  by (subst parse_value.simps) (simp add: json_string_def scan_json_string)

lemma skip_ws_id [simp]: "\<not> json_ws c \<Longrightarrow> skip_ws (c # s) = c # s"
  by (simp add: skip_ws_def)

lemma show_nat_first: "0 < n \<Longrightarrow> \<exists>c s. show_nat n = c # s \<and> is_digit c \<and> c \<noteq> 48"
proof (induction n rule: show_nat.induct)
  case (1 n)
  show ?case
  proof (cases "n < 10")
    case True
    then show ?thesis using 1 by (subst show_nat.simps) (auto simp: is_digit_def)
  next
    case False
    then have "0 < n div 10" by (simp add: div_greater_zero_iff)
    then obtain c s where "show_nat (n div 10) = c # s" "is_digit c" "c \<noteq> 48" using 1(1) [OF False] by auto
    then show ?thesis using False by (subst show_nat.simps) simp
  qed
qed

lemma ends_stops: "ends r \<Longrightarrow> stops r"
  by (auto simp: ends_def stops_def is_digit_def split: list.splits)

lemma span_show_nat: "stops r \<Longrightarrow> takeWhile is_digit (show_nat n @ r) = show_nat n \<and> dropWhile is_digit (show_nat n @ r) = r"
  using show_nat_digits by (auto simp: takeWhile_append dropWhile_append stops_def intro: takeWhile_eq_Nil_iff [THEN iffD2] dropWhile_eq_self_iff [THEN iffD2])

lemma int_part_show: "stops r \<Longrightarrow> int_part (show_nat n @ r) = Some (show_nat n, r)"
proof (cases "n = 0")
  case True
  assume "stops r"
  then show ?thesis using True by (simp add: show_nat.simps [of 0] int_part_def)
next
  case False
  assume "stops r"
  with False show ?thesis using show_nat_first [of n] span_show_nat [of r n] by (auto simp: int_part_def span_digits_def)
qed

lemma no_fraction: "ends r \<Longrightarrow> frac_part r = ([], r) \<and> exp_part r = (None, r)"
  by (auto simp: ends_def frac_part_def exp_part_def split: list.splits)

lemma show_nat_not_sign: "show_nat n = c # s \<Longrightarrow> is_digit c"
  using show_nat_digits [of c n] by simp

lemma scan_show_int:
  assumes "ends r" "length (show_nat (nat \<bar>i\<bar>)) \<le> max_int_digits"
  shows "scan_number E (show_int i @ r) = Inr (JInt i, r)"
proof -
  define t where "t = show_nat (nat \<bar>i\<bar>)"
  have p: "int_part (t @ r) = Some (t, r)" using int_part_show ends_stops assms(1) by (simp add: t_def)
  have v: "int (digits_value t) = \<bar>i\<bar>" by (simp add: t_def)
  have "t \<noteq> []" by (simp add: t_def)
  then obtain c s where h: "t = c # s" by (cases t) auto
  then have "is_digit c" using show_nat_not_sign by (simp add: t_def)
  then have c: "c \<noteq> 45" by (auto simp: is_digit_def)
  have l: "\<not> max_int_digits < length t" using assms(2) by (simp add: t_def)
  have s: "show_int i = (if i < 0 then [45] else []) @ t" by (simp add: show_int_def t_def)
  have neg: "(case t @ r of [] \<Rightarrow> False | x # _ \<Rightarrow> x = 45) = False" using h c by simp
  show ?thesis
    unfolding s scan_number_def by (cases "i < 0") (use p v l neg no_fraction [OF assms(1)] in simp_all)
qed

lemma parse_show_int:
  assumes "ends r" "length (show_nat (nat \<bar>i\<bar>)) \<le> max_int_digits"
  shows "parse_value E d (show_int i @ r) = Inr (JInt i, r)"
proof -
  obtain c s where h: "show_nat (nat \<bar>i\<bar>) = c # s" by (cases "show_nat (nat \<bar>i\<bar>)") auto
  then have c: "48 \<le> c" "c \<le> 57" using show_nat_not_sign [OF h] by (auto simp: is_digit_def)
  have "find (\<lambda>lj. is_prefix (fst lj) (show_int i @ r)) literals = None"
    using c h by (auto simp: find_None_iff literals_def ustr_def show_int_def)
  then have "scan_atom E (show_int i @ r) = Inr (JInt i, r)"
    using scan_show_int [OF assms] by (simp add: scan_atom_def)
  moreover have "\<exists>x y. show_int i @ r = x # y \<and> x \<noteq> 34 \<and> x \<noteq> 91 \<and> x \<noteq> 123"
    using c h by (cases "i < 0") (simp_all add: show_int_def)
  then obtain x y where "show_int i @ r = x # y" "x \<noteq> 34" "x \<noteq> 91" "x \<noteq> 123" by blast
  ultimately show ?thesis by (subst parse_value.simps) simp
qed

text \<open>
  The values whose text is read back: distinct keys, integers within the digit limit, no floats
  (their text is read back by the float conversion of the environment), and their nesting.
\<close>

fun readable :: "json \<Rightarrow> bool" where
  "readable (JFloat d) = False"
| "readable (JNonFinite n) = False"
| "readable (JInt i) = (length (show_nat (nat \<bar>i\<bar>)) \<le> max_int_digits)"
| "readable (JArr xs) = (\<forall>x \<in> set xs. readable x)"
| "readable (JObj kvs) = (distinct (map fst kvs) \<and> (\<forall>kv \<in> set kvs. readable (snd kv)))"
| "readable j = True"

fun nesting :: "json \<Rightarrow> nat" where
  "nesting (JArr xs) = Suc (Max (insert 0 (set (map nesting xs))))"
| "nesting (JObj kvs) = Suc (Max (insert 0 (set (map (\<lambda>kv. nesting (snd kv)) kvs))))"
| "nesting j = 0"

lemma readable_float_free: "readable j \<Longrightarrow> float_free j"
  by (induction j) (auto simp: snds.simps)

lemma render_head: "readable j \<Longrightarrow> \<exists>c r. render_json j = c # r \<and> \<not> json_ws c \<and> c \<noteq> 93 \<and> c \<noteq> 125"
proof -
  assume "readable j"
  then obtain c r where h: "render_json j = c # r" "starts j c" using render_first readable_float_free by blast
  then have "\<not> json_ws c" by (cases j) (auto simp: json_ws_def is_digit_def split: if_splits)
  then show ?thesis using h starts_no_close by blast
qed

lemma render_skip [simp]: "readable j \<Longrightarrow> skip_ws (render_json j @ r) = render_json j @ r"
  using render_head [of j] by auto

lemma dict_set_new: "k \<notin> fst ` set m \<Longrightarrow> dict_set k v m = m @ [(k, v)]"
  by (induction m) auto

lemma dict_of_distinct: "distinct (map fst kvs) \<Longrightarrow> dict_of kvs = kvs"
proof -
  have "distinct (map fst (m @ kvs)) \<Longrightarrow> foldl (\<lambda>m (k, v). dict_set k v m) m kvs = m @ kvs" for m
  proof (induction kvs arbitrary: m)
    case (Cons kv kvs)
    then show ?case using dict_set_new [of "fst kv" m "snd kv"] by (cases kv) (auto simp: image_iff)
  qed simp
  from this [of "[]"] show "distinct (map fst kvs) \<Longrightarrow> dict_of kvs = kvs" by (simp add: dict_of_def)
qed

lemma seq_head: "xs \<noteq> [] \<Longrightarrow> \<forall>x \<in> set xs. \<exists>c t. x = c # t \<and> P c \<Longrightarrow> \<exists>c t. seq_text close xs @ r = c # t \<and> P c"
  by (cases xs) (auto simp: seq_text_Cons)

lemma parse_items_seq:
  assumes "xs \<noteq> []" "\<forall>x \<in> set xs. readable x"
    and "\<And>x r. x \<in> set xs \<Longrightarrow> ends r \<Longrightarrow> parse_value E d (render_json x @ r) = Inr (x, r)"
  shows "parse_items E d (seq_text 93 (map render_json xs) @ r) = Inr (xs, r)"
  using assms
proof (induction xs)
  case (Cons x xs)
  show ?case
  proof (cases "xs = []")
    case True
    have "parse_value E d (render_json x @ 93 # r) = Inr (x, 93 # r)" by (rule Cons.prems(3)) simp_all
    then show ?thesis using True by (subst parse_items.simps) (simp add: json_ws_def)
  next
    case False
    let ?u = "seq_text 93 (map render_json xs) @ r"
    have v: "parse_value E d (render_json x @ 44 # ?u) = Inr (x, 44 # ?u)" by (rule Cons.prems(3)) simp_all
    have i: "parse_items E d ?u = Inr (xs, r)" using Cons.IH False Cons.prems(2,3) by simp
    obtain c t where "?u = c # t" "\<not> json_ws c"
      using seq_head [of "map render_json xs" "\<lambda>c. \<not> json_ws c" 93 r] render_head False Cons.prems(2) by fastforce
    then have w: "skip_ws ?u = ?u" by simp
    show ?thesis using False v i w by (subst parse_items.simps) (simp add: seq_text_Cons json_ws_def)
  qed
qed simp

lemma parse_members_seq:
  assumes "kvs \<noteq> []" "\<forall>kv \<in> set kvs. readable (snd kv)"
    and "\<And>kv r. kv \<in> set kvs \<Longrightarrow> ends r \<Longrightarrow> parse_value E d (render_json (snd kv) @ r) = Inr (snd kv, r)"
  shows "parse_members E d (seq_text 125 (map (\<lambda>kv. json_string (fst kv) @ 58 # render_json (snd kv)) kvs) @ r) = Inr (kvs, r)"
  using assms
proof (induction kvs)
  case (Cons kv kvs)
  let ?f = "\<lambda>kv. json_string (fst kv) @ 58 # render_json (snd kv)"
  have k: "scan_string (concat (map escape_char (fst kv)) @ 34 # u) = Some (fst kv, u)" for u by (rule scan_json_string)
  have h: "json_string (fst kv) @ u = 34 # concat (map escape_char (fst kv)) @ 34 # u" for u by (simp add: json_string_def)
  show ?case
  proof (cases "kvs = []")
    case True
    have "parse_value E d (render_json (snd kv) @ 125 # r) = Inr (snd kv, 125 # r)" by (rule Cons.prems(3)) simp_all
    then show ?thesis using True k Cons.prems(2) by (subst parse_members.simps) (simp add: json_ws_def h)
  next
    case False
    let ?u = "seq_text 125 (map ?f kvs) @ r"
    have v: "parse_value E d (render_json (snd kv) @ 44 # ?u) = Inr (snd kv, 44 # ?u)" by (rule Cons.prems(3)) simp_all
    have i: "parse_members E d ?u = Inr (kvs, r)" using Cons.IH False Cons.prems(2,3) by simp
    obtain c t where "?u = c # t" "\<not> json_ws c"
      using seq_head [of "map ?f kvs" "\<lambda>c. \<not> json_ws c" 125 r] False by (fastforce simp: json_string_def json_ws_def)
    then have w: "skip_ws ?u = ?u" by simp
    show ?thesis using False k v i w Cons.prems(2) by (subst parse_members.simps) (simp add: seq_text_Cons json_ws_def h)
  qed
qed simp

lemma parse_render:
  "readable j \<Longrightarrow> nesting j \<le> d \<Longrightarrow> ends r \<Longrightarrow> parse_value E d (render_json j @ r) = Inr (j, r)"
proof (induction j arbitrary: d r)
  case (JStr s)
  then show ?case by (simp add: parse_string)
next
  case (JInt i)
  then show ?case by (simp add: parse_show_int)
next
  case (JArr xs)
  show ?case
  proof (cases "xs = []")
    case True
    then show ?thesis using JArr.prems(2) by (subst parse_value.simps) (auto simp: json_ws_def split: nat.splits)
  next
    case False
    obtain d' where d: "d = Suc d'" using JArr.prems(2) by (cases d) auto
    have "nesting x \<le> d'" if "x \<in> set xs" for x
      using JArr.prems(2) d that by auto
    then have i: "parse_items E d' (seq_text 93 (map render_json xs) @ r) = Inr (xs, r)"
      by (intro parse_items_seq False JArr.IH) (use JArr.prems(1) in auto)
    obtain c t where h: "seq_text 93 (map render_json xs) @ r = c # t" "\<not> json_ws c" "c \<noteq> 93"
      using seq_head [of "map render_json xs" "\<lambda>c. \<not> json_ws c \<and> c \<noteq> 93" 93 r] render_head False JArr.prems(1) by fastforce
    have "skip_ws (c # t) = c # t" using h(2) by simp
    then show ?thesis using i h(1,3) d by (subst parse_value.simps) simp
  qed
next
  case (JObj kvs)
  let ?f = "\<lambda>kv. json_string (fst kv) @ 58 # render_json (snd kv)"
  show ?case
  proof (cases "kvs = []")
    case True
    then show ?thesis using JObj.prems(2) by (subst parse_value.simps) (auto simp: json_ws_def dict_of_def split: nat.splits)
  next
    case False
    obtain d' where d: "d = Suc d'" using JObj.prems(2) by (cases d) auto
    have n: "nesting (snd kv) \<le> d'" if "kv \<in> set kvs" for kv
      using JObj.prems(2) d that by auto
    have i: "parse_members E d' (seq_text 125 (map ?f kvs) @ r) = Inr (kvs, r)"
    proof (intro parse_members_seq False)
      show "\<forall>kv \<in> set kvs. readable (snd kv)" using JObj.prems(1) by simp
      show "parse_value E d' (render_json (snd kv) @ u) = Inr (snd kv, u)" if "kv \<in> set kvs" "ends u" for kv u
        using JObj.IH [OF that(1), of "snd kv"] JObj.prems(1) n that by (auto simp: snds.simps)
    qed
    obtain c t where h: "seq_text 125 (map ?f kvs) @ r = c # t" "\<not> json_ws c" "c \<noteq> 125"
      using seq_head [of "map ?f kvs" "\<lambda>c. \<not> json_ws c \<and> c \<noteq> 125" 125 r] False by (fastforce simp: json_string_def json_ws_def)
    have "skip_ws (c # t) = c # t" using h(2) by simp
    moreover have "dict_of kvs = kvs" by (rule dict_of_distinct) (use JObj.prems(1) in simp)
    ultimately show ?thesis using i h(1,3) d by (subst parse_value.simps) simp
  qed
next
  case JNull
  show ?case by (subst parse_value.simps) (simp add: scan_atom_def literals_def ustr_def)
next
  case (JBool b)
  show ?case by (subst parse_value.simps) (cases b; simp add: scan_atom_def literals_def ustr_def)
qed simp_all

lemma readable_sort: "readable j \<Longrightarrow> readable (sort_keys j)"
proof (induction j)
  case (JObj kvs)
  let ?g = "\<lambda>kv. (fst kv, sort_keys (snd kv))"
  have "distinct (map fst (map ?g kvs))" using JObj.prems by (simp add: comp_def)
  then have "distinct (map ?g kvs)" "inj_on fst (set (map ?g kvs))" by (simp_all only: distinct_map)
  then have "distinct (map fst (sort_key fst (map ?g kvs)))" by (simp add: distinct_map)
  then show ?case using JObj by (auto simp: snds.simps)
qed auto

lemma nesting_sort: "nesting (sort_keys j) = nesting j"
proof (induction j)
  case (JArr xs)
  have "(\<lambda>x. nesting (sort_keys x)) ` set xs = nesting ` set xs" using JArr.IH by (intro image_cong) auto
  then show ?case by (simp add: image_image)
next
  case (JObj kvs)
  have e: "nesting (sort_keys (snd kv)) = nesting (snd kv)" if "kv \<in> set kvs" for kv
    by (rule JObj.IH [OF that]) (simp add: snds.simps)
  have "(\<lambda>kv. nesting (sort_keys (snd kv))) ` set kvs = (\<lambda>kv. nesting (snd kv)) ` set kvs"
    using e by (intro image_cong) auto
  then show ?case by (simp add: image_image)
qed auto



section \<open>Failures that are not decode errors\<close>

lemma long_integer:
  assumes "\<forall>c \<in> set ds. is_digit c" "ds \<noteq> []" "hd ds \<noteq> 48" "max_int_digits < length ds"
  shows "json_loads E ds = Inl LoadsIntTooLong"
proof -
  obtain c s where ds: "ds = c # s" by (cases ds) (use assms(2) in auto)
  then have c: "is_digit c" "c \<noteq> 48" using assms(1,3) by auto
  then have r: "49 \<le> c" "c \<le> 57" by (auto simp: is_digit_def)
  have w: "skip_ws ds = ds" using ds r by (simp add: json_ws_def)
  have "find (\<lambda>lj. is_prefix (fst lj) ds) literals = None"
    using r ds by (auto simp: find_None_iff literals_def ustr_def)
  moreover have "int_part ds = Some (ds, [])"
    using c ds assms(1) by (simp add: int_part_def span_digits_def)
  then have "scan_number E ds = Inl LoadsIntTooLong"
    using r ds assms(4) by (simp add: scan_number_def frac_part_def exp_part_def)
  ultimately have "scan_atom E ds = Inl LoadsIntTooLong" by (simp add: scan_atom_def)
  then have "parse_value E d ds = Inl LoadsIntTooLong" for d
    using r by (subst parse_value.simps) (simp add: ds)
  moreover have "\<not> is_prefix [65279] ds" using ds r by simp
  ultimately show ?thesis by (simp add: json_loads_def w)
qed

end
