(* ===== verification/Grading_Runner.thy ===== *)
theory Grading_Runner
  imports Pipeline_Repo Provider_Request Json_Reader
begin

text \<open>
  \<open>backend/app/workers/tasks.py\<close>: \<open>GradingAttemptRunner.run\<close>, one delivery of one paper. The method
  is split where it touches the database: everything up to the claim (\<open>build_call\<close>), and everything
  from the provider's answer to the final write (\<open>decide\<close>). Both are functions; \<open>run\<close> composes them
  with the repository and lets other transactions happen in between. Storage, decryption, the
  provider and the clock are the parameter record \<open>runner_env\<close>.
\<close>

section \<open>Environment and results\<close>

datatype run_exn =
    RunStorageFailed
  | RunDocumentInvalid
  | RunRequestInvalid
  | RunPromptUnsupported
  | RunEncodeFailed
  | RunCorrectionInvalid
  | RunContractMismatch
  | RunModelMismatch
  | RunDecryptFailed
  | RunHashMismatch
  | RunAdapterRaised
  | RunLoadsRaised
  | RunValidatorRaised grade_exn
  | RunRepository pipeline_exn

datatype run_result = RunCompleted | RunDuplicate | RunRetryScheduled | RunNeedsReview | RunFailed

text \<open>
  \<open>rn_document\<close> is \<open>get_json\<close> followed by \<open>ParsedDocument.model_validate_json\<close>, \<open>rn_json\<close> is
  \<open>get_json\<close> followed by \<open>json.loads\<close>, \<open>rn_loads\<close> is \<open>json.loads\<close> of a text.
\<close>

record runner_env =
  rn_prompt :: prompt_env
  rn_unicode :: unicode_db
  rn_errors :: "json \<Rightarrow> pydantic_error list"
  rn_document :: "object_key \<Rightarrow> run_exn + parsed_document"
  rn_json :: "object_key \<Rightarrow> run_exn + json"
  rn_loads :: "pystr \<Rightarrow> loads_exn + json"
  rn_decrypt :: "pystr \<Rightarrow> pystr \<Rightarrow> uuid \<Rightarrow> pystr option"
  rn_grade :: "provider_grade_request \<Rightarrow> call_result"
  rn_put_ok :: "object_key \<Rightarrow> json \<Rightarrow> bool"
  rn_now_text :: pystr
  rn_max_retries :: nat

section \<open>Building the call\<close>

text \<open>\<open>GradeRequest(...)\<close>.\<close>

definition request_of :: "preparation \<Rightarrow> parsed_document \<Rightarrow> run_exn + grade_request" where
  "request_of p d = (case make_grade_request
       \<lparr>greq_assignment_id = pre_assignment p, greq_assignment_title = pre_title p,
        greq_assignment_instructions = pre_instructions p, greq_rubric_version_id = pre_rubric_version_id p,
        greq_rubric_version = pre_rubric_version p, greq_rubric = pre_rubric p,
        greq_submission_id = pre_submission p, greq_document = d\<rparr> of
      None \<Rightarrow> Inl RunRequestInvalid | Some g \<Rightarrow> Inr g)"

text \<open>
  The correction branch: the previous envelope must be an object with a text under
  \<open>output_text\<close>, and the previous details must hold the list of issues.
\<close>

definition previous_output :: "json \<Rightarrow> pystr option" where
  "previous_output j = Option.bind (json_get (ustr ''output_text'') j) json_str"

definition correction_outcome :: "grade_issue list \<Rightarrow> grade_exn + grade_outcome" where
  "correction_outcome issues = make_outcome \<lparr>oc_status = CorrectionRequired,
     oc_code = Some correction_code, oc_attempt_count = 1, oc_result = None, oc_issues = issues\<rparr>"

definition call_prompt :: "runner_env \<Rightarrow> preparation \<Rightarrow> grading_prompt \<Rightarrow> run_exn + grading_prompt" where
  "call_prompt E p initial = (case pre_previous_key p of
      None \<Rightarrow> Inr initial
    | Some key \<Rightarrow>
        (case pre_previous_details p of
           None \<Rightarrow> Inl RunCorrectionInvalid
         | Some details \<Rightarrow>
             bindR (rn_json E key) (\<lambda>envelope.
             (case (previous_output envelope, details) of
                (Some output, IssueDetails issues) \<Rightarrow>
                  (case correction_outcome issues of
                     Inl e \<Rightarrow> Inl (RunValidatorRaised e)
                   | Inr oc \<Rightarrow> (case build_correction_prompt (rn_prompt E) initial oc output of
                        Inl CorrectionRefused \<Rightarrow> Inl RunCorrectionInvalid
                      | Inl EncodeError \<Rightarrow> Inl RunEncodeFailed
                      | Inr q \<Rightarrow> Inr q))
              | _ \<Rightarrow> Inl RunCorrectionInvalid))))"

text \<open>The five hashes and versions against the batch's snapshot.\<close>

definition prompt_matches :: "grading_prompt \<Rightarrow> contract_snapshot \<Rightarrow> bool" where
  "prompt_matches q c \<longleftrightarrow> version_text (gp_version q) = con_prompt_version c \<and>
     gp_prompt_hash q = con_prompt_hash c \<and> result_schema_version = con_schema_version c \<and>
     gp_schema_hash q = con_schema_hash c \<and> gp_rubric_hash q = con_rubric_hash c"

definition provider_request_of :: "preparation \<Rightarrow> pystr \<Rightarrow> grading_prompt \<Rightarrow> provider_grade_request" where
  "provider_request_of p api_key q = (let snap = pre_snapshot p; profile = snap_profile snap in
     \<lparr>pgr_provider = pre_provider p, pgr_config_version = pre_provider_version p, pgr_type = snap_type snap,
      pgr_base_url = snap_base_url snap, pgr_api_key = api_key, pgr_model = pre_model p,
      pgr_timeout_ms = snap_timeout_ms snap, pgr_max_output = prof_grading_max_output profile,
      pgr_capabilities = prof_capabilities profile, pgr_schema = con_schema (pre_contract p), pgr_prompt = q\<rparr>)"

definition build_call ::
    "runner_env \<Rightarrow> preparation \<Rightarrow> run_exn + (grade_request \<times> grading_prompt \<times> provider_grade_request)" where
  "build_call E p =
     bindR (rn_document E (pre_document_key p)) (\<lambda>d.
     bindR (request_of p d) (\<lambda>g.
     case parse_prompt_version (con_prompt_version (pre_contract p)) of
       None \<Rightarrow> Inl RunPromptUnsupported
     | Some v \<Rightarrow> (case build_grading_prompt (rn_prompt E) g v of
         None \<Rightarrow> Inl RunEncodeFailed
       | Some initial \<Rightarrow>
           bindR (call_prompt E p initial) (\<lambda>q.
           if \<not> prompt_matches q (pre_contract p) then Inl RunContractMismatch
           else if cap_model (prof_capabilities (snap_profile (pre_snapshot p))) \<noteq> pre_model p then Inl RunModelMismatch
           else (case rn_decrypt E (pre_encrypted_key p) (pre_nonce p) (pre_provider p) of
               None \<Rightarrow> Inl RunDecryptFailed
             | Some key \<Rightarrow> let r = provider_request_of p key q in
                 if valid_grade_request (rn_prompt E) r then Inr (g, q, r) else Inl RunRequestInvalid)))))"

section \<open>What the answer means\<close>

text \<open>\<open>build_provider_response_object_key\<close>.\<close>

definition response_key :: "preparation \<Rightarrow> uuid \<Rightarrow> object_key" where
  "response_key p aid = ProviderResponseKey (pre_owner p) (pre_job p) (pre_item p) aid"

text \<open>\<open>base64.b64encode\<close> of a byte string.\<close>

definition b64_char :: "nat \<Rightarrow> nat" where
  "b64_char n = (if n < 26 then 65 + n else if n < 52 then 71 + n else if n < 62 then n - 4
     else if n = 62 then 43 else 47)"

fun b64encode :: "pystr \<Rightarrow> pystr" where
  "b64encode [] = []"
| "b64encode [a] = [b64_char (a div 4), b64_char ((a mod 4) * 16), 61, 61]"
| "b64encode [a, b] = [b64_char (a div 4), b64_char ((a mod 4) * 16 + b div 16), b64_char ((b mod 16) * 4), 61]"
| "b64encode (a # b # c # s) = [b64_char (a div 4), b64_char ((a mod 4) * 16 + b div 16),
     b64_char ((b mod 16) * 4 + c div 64), b64_char (c mod 64)] @ b64encode s"

text \<open>The audit objects written before the final transaction.\<close>

definition usage_json :: "token_usage \<Rightarrow> json" where
  "usage_json t = JObj [(ustr ''input_tokens'', JInt (use_input t)), (ustr ''cached_input_tokens'', JInt (use_cached_input t)),
     (ustr ''cache_write_input_tokens'', JInt (use_cache_write t)), (ustr ''output_tokens'', JInt (use_output t)),
     (ustr ''reasoning_tokens'', JInt (use_reasoning t)),
     (ustr ''total_tokens'', case use_total t of None \<Rightarrow> JNull | Some n \<Rightarrow> JInt n)]"

definition cost_json :: "cost_estimate option \<Rightarrow> json" where
  "cost_json c = (case c of None \<Rightarrow> JNull | Some e \<Rightarrow> JObj [(ustr ''tariff_version'', JStr (cost_tariff_version e)),
     (ustr ''currency'', JStr (cost_currency e)), (ustr ''amount'', jdec (cost_amount e)), (ustr ''estimated'', JBool True)])"

definition response_envelope :: "runner_env \<Rightarrow> claim \<Rightarrow> provider_result \<Rightarrow> json" where
  "response_envelope E c r = JObj [(ustr ''schema_version'', jstr ''provider-response.v1''),
     (ustr ''attempt_id'', JStr (uuid_text (cl_attempt c))), (ustr ''request_hash'', JStr (digest_hex (cl_request_hash c))),
     (ustr ''received_at'', JStr (rn_now_text E)), (ustr ''provider_type'', JStr (provider_type_text (res_provider r))),
     (ustr ''requested_model'', JStr (res_requested_model r)), (ustr ''reported_model'', JStr (res_reported_model r)),
     (ustr ''request_id'', JStr (res_request_id r)), (ustr ''finish_reason'', jstr ''completed''),
     (ustr ''output_text'', JStr (res_output_text r)), (ustr ''usage'', usage_json (res_usage r)),
     (ustr ''estimated_cost'', cost_json (res_cost r)), (ustr ''raw_response_base64'', JStr (b64encode (res_raw r))),
     (ustr ''raw_response_sha256'', JStr (digest_hex (res_raw_sha256 r))),
     (ustr ''sent_schema_sha256'', JStr (digest_hex (res_schema_sha256 r)))]"

text \<open>The stable strings of \<open>ProviderAdapterError.code\<close>.\<close>

definition provider_code_text :: "provider_code \<Rightarrow> pystr" where
  "provider_code_text c = (case c of PRedirectRejected \<Rightarrow> ustr ''provider_redirect_rejected''
     | PAuthenticationFailed \<Rightarrow> ustr ''provider_authentication_failed'' | PPermissionDenied \<Rightarrow> ustr ''provider_permission_denied''
     | PBalanceUnavailable \<Rightarrow> ustr ''provider_balance_unavailable'' | PRequestInvalid \<Rightarrow> ustr ''provider_request_invalid''
     | PEndpointInvalid \<Rightarrow> ustr ''provider_endpoint_invalid'' | PTimeout \<Rightarrow> ustr ''provider_timeout''
     | PRateLimited \<Rightarrow> ustr ''provider_rate_limited'' | PUnavailable \<Rightarrow> ustr ''provider_unavailable''
     | PRequestFailed \<Rightarrow> ustr ''provider_request_failed'' | PCapabilityUnsupported \<Rightarrow> ustr ''provider_capability_unsupported''
     | PModelUnavailable \<Rightarrow> ustr ''provider_model_unavailable'' | PResponseInvalid \<Rightarrow> ustr ''provider_response_invalid''
     | PContextExceeded \<Rightarrow> ustr ''provider_context_exceeded'' | POutputTruncated \<Rightarrow> ustr ''provider_output_truncated''
     | PContentRefused \<Rightarrow> ustr ''provider_content_refused'' | PQuotaExhausted \<Rightarrow> ustr ''provider_quota_exhausted''
     | PNetworkUnavailable \<Rightarrow> ustr ''provider_network_unavailable'' | PResponseTooLarge \<Rightarrow> ustr ''provider_response_too_large''
     | PAdapterUnavailable \<Rightarrow> ustr ''provider_adapter_unavailable'')"

definition error_envelope :: "runner_env \<Rightarrow> claim \<Rightarrow> provider_error \<Rightarrow> http_response \<Rightarrow> json" where
  "error_envelope E c e h = JObj [(ustr ''schema_version'', jstr ''provider-response.v1''),
     (ustr ''attempt_id'', JStr (uuid_text (cl_attempt c))), (ustr ''request_hash'', JStr (digest_hex (cl_request_hash c))),
     (ustr ''received_at'', JStr (rn_now_text E)), (ustr ''error_code'', JStr (provider_code_text (pr_code e))),
     (ustr ''status_code'', JInt (hr_status h)),
     (ustr ''headers'', JObj (map (\<lambda>kv. (fst kv, JStr (snd kv))) (hr_headers h))),
     (ustr ''raw_response_base64'', JStr (b64encode (hr_raw h))),
     (ustr ''raw_response_sha256'', JStr (digest_hex (pe_sha (rn_prompt E) (hr_raw h))))]"

text \<open>\<open>put_json_once(key, canonical_json_bytes(envelope))\<close>.\<close>

definition put_envelope :: "runner_env \<Rightarrow> object_key \<Rightarrow> json \<Rightarrow> run_exn + unit" where
  "put_envelope E key envelope =
     (if canonical_json envelope = None then Inl RunEncodeFailed
      else if rn_put_ok E key envelope then Inr () else Inl RunStorageFailed)"

definition request_id_header :: "http_response \<Rightarrow> pystr option" where
  "request_id_header h = Option.bind (find (\<lambda>n. map_of (hr_headers h) n \<noteq> None)
     [ustr ''x-request-id'', ustr ''openai-request-id'', ustr ''request-id'']) (map_of (hr_headers h))"

text \<open>The action of a provider error and its delay \<open>min(60, 5 * 2 ** (call_sequence - 1))\<close>.\<close>

definition error_action :: "nat \<Rightarrow> nat \<Rightarrow> provider_error \<Rightarrow> failure_action" where
  "error_action max_retries seq e =
     (if pr_retryable e \<and> pr_retry_safety e = RetrySafe
      then (if seq \<le> max_retries then FailRetry else FailReview)
      else if pr_retry_safety e = RetryUnknown then FailReview else FailFinal)"

definition retry_delay :: "nat \<Rightarrow> nat" where
  "retry_delay seq = min 60 (5 * 2 ^ (seq - 1))"

definition error_call_state :: "provider_error \<Rightarrow> call_state" where
  "error_call_state e = (if pr_response e \<noteq> None then CallResponseReceived
     else if pr_retry_safety e = RetrySafe then CallNotSent else CallAmbiguous)"

datatype decision = Finish failure run_result | Complete completion

definition action_result :: "failure_action \<Rightarrow> run_result" where
  "action_result a = (case a of FailRetry \<Rightarrow> RunRetryScheduled | FailReview \<Rightarrow> RunNeedsReview | FailFinal \<Rightarrow> RunFailed)"

definition decide_error :: "runner_env \<Rightarrow> preparation \<Rightarrow> claim \<Rightarrow> provider_error \<Rightarrow> run_exn + decision" where
  "decide_error E p c e =
     (let act = error_action (rn_max_retries E) (cl_sequence c) e;
          base = \<lparr>fa_action = act, fa_delay = (if act = FailRetry then retry_delay (cl_sequence c) else 0),
            fa_code = CodeProvider (pr_code e), fa_details = ProviderDetails (pr_retryable e) (pr_retry_safety e),
            fa_call_state = error_call_state e, fa_provider = None, fa_request_id = None, fa_key = None, fa_sha256 = None\<rparr>
      in case pr_response e of
           None \<Rightarrow> Inr (Finish base (action_result act))
         | Some h \<Rightarrow>
             let key = response_key p (cl_attempt c) in
             bindR (put_envelope E key (error_envelope E c e h)) (\<lambda>_.
             Inr (Finish (base\<lparr>fa_request_id := request_id_header h, fa_key := Some key,
               fa_sha256 := Some (pe_sha (rn_prompt E) (hr_raw h))\<rparr>) (action_result act))))"

text \<open>
  The answer is graded: the raw result is \<open>None\<close> when the text is not JSON. Only \<open>JSONDecodeError\<close> is
  caught; the other exceptions of \<open>json.loads\<close> leave \<open>run\<close>.
\<close>

definition raw_result :: "runner_env \<Rightarrow> pystr \<Rightarrow> json" where
  "raw_result E s = (case rn_loads E s of Inl _ \<Rightarrow> JNull | Inr j \<Rightarrow> j)"

definition loads_raises :: "runner_env \<Rightarrow> pystr \<Rightarrow> bool" where
  "loads_raises E s \<longleftrightarrow> rn_loads E s \<in> {Inl LoadsIntTooLong, Inl LoadsTooDeep}"

definition prompt_call :: "grading_prompt \<Rightarrow> digest grading_call" where
  "prompt_call q = \<lparr>gc_base_request_hash = gp_base_request_hash q, gc_message_count = length (gp_messages q)\<rparr>"

text \<open>\<open>canonical_sha256\<close> of the request, which the prompt was built with.\<close>

definition request_hash :: "runner_env \<Rightarrow> grade_request \<Rightarrow> digest" where
  "request_hash E g = (case canonical_sha256 (pe_sha (rn_prompt E)) (request_json g) of None \<Rightarrow> 0 | Some h \<Rightarrow> h)"

definition outcome_code :: "string option \<Rightarrow> call_code" where
  "outcome_code c = (if c = Some correction_code then CodeCorrectionRequired
     else if c = Some after_correction_code then CodeInvalidAfterCorrection else CodeOutputInvalid)"

definition decide_outcome ::
    "preparation \<Rightarrow> claim \<Rightarrow> provider_result \<Rightarrow> grade_outcome \<Rightarrow> decision" where
  "decide_outcome p c r oc =
     (let key = response_key p (cl_attempt c) in
      case (oc_status oc, oc_result oc) of
        (Accepted, Some v) \<Rightarrow> Complete \<lparr>co_result = v, co_provider = r, co_key = key, co_sha256 = res_raw_sha256 r\<rparr>
      | _ \<Rightarrow>
          let act = (if oc_status oc = CorrectionRequired then FailRetry else FailReview) in
          Finish \<lparr>fa_action = act, fa_delay = 0, fa_code = outcome_code (oc_code oc),
            fa_details = IssueDetails (oc_issues oc), fa_call_state = CallResponseReceived, fa_provider = Some r,
            fa_request_id = None, fa_key = Some key, fa_sha256 = Some (res_raw_sha256 r)\<rparr> (action_result act))"

definition decide_answer ::
    "runner_env \<Rightarrow> preparation \<Rightarrow> claim \<Rightarrow> grade_request \<Rightarrow> grading_prompt \<Rightarrow> provider_result \<Rightarrow> run_exn + decision" where
  "decide_answer E p c g q r =
     bindR (put_envelope E (response_key p (cl_attempt c)) (response_envelope E c r)) (\<lambda>_.
     if loads_raises E (res_output_text r) then Inl RunLoadsRaised
     else case assess_grade_response (rn_unicode E) (rn_errors E) (request_hash E) (raw_result E (res_output_text r)) g (prompt_call q) of
       Inl e \<Rightarrow> Inl (RunValidatorRaised e)
     | Inr oc \<Rightarrow> Inr (decide_outcome p c r oc))"

definition url_rejected_failure :: failure where
  "url_rejected_failure = \<lparr>fa_action = FailFinal, fa_delay = 0, fa_code = CodeBaseUrlUnavailable,
     fa_details = UrlRejectedDetails, fa_call_state = CallNotSent, fa_provider = None, fa_request_id = None,
     fa_key = None, fa_sha256 = None\<rparr>"

definition decide ::
    "runner_env \<Rightarrow> preparation \<Rightarrow> claim \<Rightarrow> grade_request \<Rightarrow> grading_prompt \<Rightarrow> call_result \<Rightarrow> run_exn + decision" where
  "decide E p c g q result = (case result of
      CallUrlRejected \<Rightarrow> Inr (Finish url_rejected_failure RunFailed)
    | CallFailed e \<Rightarrow> decide_error E p c e
    | CallOk r \<Rightarrow> decide_answer E p c g q r
    | CallRaised \<Rightarrow> Inl RunAdapterRaised)"

section \<open>One delivery\<close>

text \<open>
  The repository as the runner sees it (\<open>GradingAttemptRepository\<close>): each operation is one
  transaction on a state.
\<close>

record 's attempt_repository =
  ar_prepare :: "uuid \<Rightarrow> nat \<Rightarrow> 's \<Rightarrow> pipeline_exn + preparation option"
  ar_claim :: "preparation \<Rightarrow> digest \<Rightarrow> 's \<Rightarrow> pipeline_exn + ('s \<times> claim option)"
  ar_success :: "claim \<Rightarrow> completion \<Rightarrow> 's \<Rightarrow> pipeline_exn + 's"
  ar_failure :: "claim \<Rightarrow> failure \<Rightarrow> 's \<Rightarrow> pipeline_exn + 's"

definition apply_decision :: "'s attempt_repository \<Rightarrow> claim \<Rightarrow> decision \<Rightarrow> 's \<Rightarrow> 's \<times> (run_exn + run_result)" where
  "apply_decision R c d s = (case d of
      Finish f res \<Rightarrow> (case ar_failure R c f s of Inl e \<Rightarrow> (s, Inl (RunRepository e)) | Inr s' \<Rightarrow> (s', Inr res))
    | Complete x \<Rightarrow> (case ar_success R c x s of Inl e \<Rightarrow> (s, Inl (RunRepository e)) | Inr s' \<Rightarrow> (s', Inr RunCompleted)))"

text \<open>
  \<open>before_claim\<close> and \<open>before_finish\<close> are what other transactions do while the runner reads storage
  and waits for the provider. The result also lists the calls made to the provider.
\<close>

record 's run_output =
  ro_state :: 's
  ro_calls :: "(claim \<times> provider_grade_request) list"
  ro_result :: "run_exn + run_result"

definition run ::
    "runner_env \<Rightarrow> 's attempt_repository \<Rightarrow> ('s \<Rightarrow> 's) \<Rightarrow> ('s \<Rightarrow> 's) \<Rightarrow> uuid \<Rightarrow> nat \<Rightarrow> 's \<Rightarrow> 's run_output" where
  "run E R before_claim before_finish iid version s =
     (let stop = (\<lambda>s r. \<lparr>ro_state = s, ro_calls = [], ro_result = r\<rparr>) in
      case ar_prepare R iid version s of
        Inl e \<Rightarrow> stop s (Inl (RunRepository e))
      | Inr None \<Rightarrow> stop s (Inr RunDuplicate)
      | Inr (Some p) \<Rightarrow>
          (let s1 = before_claim s in
           case build_call E p of
             Inl e \<Rightarrow> stop s1 (Inl e)
           | Inr (g, q, r) \<Rightarrow>
               (case ar_claim R p (gp_call_hash q) s1 of
                  Inl e \<Rightarrow> stop s1 (Inl (RunRepository e))
                | Inr (s2, None) \<Rightarrow> stop s2 (Inr RunDuplicate)
                | Inr (s2, Some c) \<Rightarrow>
                    if cl_request_hash c \<noteq> gp_call_hash q then stop s2 (Inl RunHashMismatch)
                    else
                      (let s3 = before_finish s2 in
                       case decide E p c g q (rn_grade E r) of
                         Inl e \<Rightarrow> \<lparr>ro_state = s3, ro_calls = [(c, r)], ro_result = Inl e\<rparr>
                       | Inr d \<Rightarrow> (let (s4, res) = apply_decision R c d s3 in
                           \<lparr>ro_state = s4, ro_calls = [(c, r)], ro_result = res\<rparr>)))))"

section \<open>Facts about outcomes\<close>

lemma make_outcome_Inr: "make_outcome x = Inr y \<longleftrightarrow> y = x \<and> outcome_shape x \<and> oc_attempt_count x \<in> {1, 2} \<and> length (oc_issues x) \<le> 100"
  by (auto simp: make_outcome_def)

lemma assess_cases:
  assumes "assess_grade_response U perr rh raw g pr = Inr oc"
  obtains (accepted) v where "validate_grade_response U perr raw g = Inr v" "oc_status oc = Accepted"
      "oc_result oc = Some v" "gc_base_request_hash pr = rh g"
    | (correct) issue where "gc_message_count pr = 2" "oc_status oc = CorrectionRequired" "oc_code oc = Some correction_code"
      "oc_result oc = None" "oc_issues oc = [issue]"
    | (review) issue where "gc_message_count pr = 3" "oc_status oc = NeedsReview" "oc_code oc = Some after_correction_code"
      "oc_result oc = None" "oc_issues oc = [issue]"
proof -
  have h: "gc_base_request_hash pr = rh g" "gc_message_count pr = 2 \<or> gc_message_count pr = 3"
    using assms by (auto simp: assess_grade_response_def grade_error_def split: if_splits)
  show ?thesis
  proof (cases "validate_grade_response U perr raw g")
    case (Inr v)
    then have "oc_status oc = Accepted" "oc_result oc = Some v"
      using assms h by (auto simp: assess_grade_response_def make_outcome_Inr)
    then show ?thesis using accepted Inr h by blast
  next
    case (Inl e)
    with assms h obtain code path where e: "e = GradeValidationError code path"
      by (cases e) (auto simp: assess_grade_response_def Let_def split: if_splits)
    with assms h Inl obtain issue where i: "make_issue code path = Inr issue"
      by (cases "make_issue code path") (auto simp: assess_grade_response_def)
    show ?thesis
    proof (cases "gc_message_count pr = 2")
      case True
      then show ?thesis using assms h Inl e i correct by (simp add: assess_grade_response_def make_outcome_Inr)
    next
      case False
      then show ?thesis using assms h Inl e i review by (simp add: assess_grade_response_def make_outcome_Inr)
    qed
  qed
qed

end
