(* ===== verification/Pipeline_System.thy ===== *)
theory Pipeline_System
  imports Review_Inv Grading_Runner
begin

text \<open>
  The pipeline as a whole: teachers, dispatchers and any number of workers acting on one database.
  A world is the database, the preparations that workers hold, and the calls they were granted. Each
  transaction is one event; a worker's delivery is three events (prepare, claim, finish) between
  which anything may happen, and a prepared or granted call may be used any number of times, which
  covers duplicate and late deliveries. Properties of reachable worlds follow by rule induction.
\<close>

section \<open>The remaining growth lemmas\<close>

lemma control_grading_grows:
  assumes "keys_ok s" "control_grading_job t teacher jid act target s = Inr (s', r)"
  shows "grows s s'"
proof (cases "s' = s")
  case False
  then obtain j where f: "find (\<lambda>j. job_id j = jid \<and> job_owner j = teacher) (db_jobs s) = Some j"
    using assms(2) by (auto simp: control_grading_job_def split: if_splits option.splits)
  have j: "j \<in> set (db_jobs s)" using find_SomeD [OF f] by auto
  note c' = assms(2) [unfolded control_grading_job_def f option.case]
  have K: "distinct (map item_id (db_items s))" using assms(1) by (simp add: keys_ok_def)
  then have d: "distinct (db_items s)" by (simp only: distinct_map)
  let ?is = "filter (\<lambda>i. item_job i = jid \<and> item_owner i = teacher \<and> item_status i = ItemQueued) (db_items s)"
  consider (job) j' where "write_job t True j j' s = Inr s'"
    | (cancel) s1 j' where "write_items (cancel_item t) ?is s = Inr s1" "write_job t True j j' s1 = Inr s'"
    | (retry) i s1 j' where "i \<in> set (db_items s)" "write_item i (retry_item t i) s = Inr s1" "write_job t True j j' s1 = Inr s'"
    using c' False by (auto split: if_splits option.splits control_action.splits dest!: find_SomeD)
  then show ?thesis
  proof cases
    case job then show ?thesis by (rule write_job_grows [OF assms(1) j])
  next
    case cancel
    have 1: "grows s s1 \<and> db_jobs s1 = db_jobs s"
      by (rule write_items_grows [OF assms(1) filter_is_subset distinct_filter [OF d] cancel(1)])
    then have "grows s1 s'" by (intro write_job_grows [OF _ _ cancel(2)]) (use j in \<open>auto simp: grows_def\<close>)
    then show ?thesis using 1 grows_trans by blast
  next
    case retry
    have 1: "grows s s1" by (rule write_item_grows [OF assms(1) retry(1,2)])
    have "db_jobs s1 = db_jobs s" using retry(2) by (auto simp: write_item_Inr)
    then have "grows s1 s'" by (intro write_job_grows [OF _ _ retry(3)]) (use 1 j in \<open>auto simp: grows_def\<close>)
    then show ?thesis using 1 grows_trans by blast
  qed
qed (use assms(1) grows_refl in simp)

lemma control_grows:
  assumes "keys_ok s" "control_job t teacher jid act target s = Inr (s', v)"
  shows "grows s s'"
  using assms(2) control_grading_grows [OF assms(1)] by (auto simp: control_job_def split: option.splits)

lemma create_grows:
  assumes ok: "pipeline_ok s" and c: "create_or_get_job env owner assignment payload s = Inr (s', v, b)"
  shows "grows s s'"
proof (cases "existing_job s owner (jc_key payload)")
  case None
  from c None obtain a r con p snap h m where
    "insert_batch env owner (new_job env owner a r con p snap h m payload) (jc_submissions payload) s = Inr (s', v)"
    by (auto simp: create_or_get_job_def split: if_splits option.splits sum.splits prod.splits)
  then obtain s1 j "is" where "insert_job j s = Inr s1" "insert_items is s1 = Inr s'"
    by (auto simp: insert_batch_def split: option.splits)
  then have "s' = s\<lparr>db_jobs := db_jobs s @ [j], db_items := db_items s @ is\<rparr>"
    using insert_job_Inr insert_items_Inr by fastforce
  moreover have "keys_ok s'" using create_keeps [OF ok c] by (simp add: pipeline_ok_def)
  ultimately show ?thesis by (auto simp: grows_def evolves_def same_inputs_def)
qed (use c ok grows_refl in \<open>auto simp: create_or_get_job_def pipeline_ok_def split: if_splits option.splits\<close>)

section \<open>Worlds and events\<close>

record granted =
  g_prep :: preparation
  g_claim :: claim
  g_request :: grade_request
  g_prompt :: grading_prompt

record world =
  w_db :: pdb
  w_preps :: "preparation list"
  w_open :: "granted list"

text \<open>
  What everything else may do: change the tables the pipeline reads. A rubric version that left
  \<open>draft\<close> keeps its content (\<open>paper_grading_protect_rubric_history\<close>).
\<close>

definition inputs_change :: "pdb \<Rightarrow> pdb \<Rightarrow> bool" where
  "inputs_change s s' \<longleftrightarrow> distinct (map rv_id (db_rubrics s')) \<and> db_jobs s' = db_jobs s \<and> db_items s' = db_items s \<and> db_attempts s' = db_attempts s \<and>
     db_reviews s' = db_reviews s \<and>
     (\<forall>i \<in> set (db_items s). submission_of s i \<noteq> None \<longrightarrow> submission_of s' i \<noteq> None) \<and>
     (\<forall>v \<in> set (db_rubrics s). rv_status v \<noteq> RubricDraft \<longrightarrow>
        (\<exists>v' \<in> set (db_rubrics s'). rv_id v' = rv_id v \<and> rv_owner v' = rv_owner v \<and>
           rv_assignment v' = rv_assignment v \<and> rv_total_score v' = rv_total_score v \<and> rv_status v' \<noteq> RubricDraft))"

definition empty_pipeline :: "pdb \<Rightarrow> bool" where
  "empty_pipeline s \<longleftrightarrow> db_jobs s = [] \<and> db_items s = [] \<and> db_attempts s = [] \<and>
     db_reviews s = []"

text \<open>
  The retry limit is the default of \<open>GradingAttemptRunner\<close>, which \<open>workers/celery_app.py\<close> uses.
\<close>

inductive wstep :: "world \<Rightarrow> world \<Rightarrow> bool" where
  create: "create_or_get_job env owner assignment payload (w_db w) = Inr (s', v, b) \<Longrightarrow>
     wstep w (w\<lparr>w_db := s'\<rparr>)"
| control: "control_job t teacher jid act target (w_db w) = Inr (s', v) \<Longrightarrow> wstep w (w\<lparr>w_db := s'\<rparr>)"
| prepare: "prepare_item cf E t iid version (w_db w) = Inr (Some p) \<Longrightarrow> wstep w (w\<lparr>w_preps := p # w_preps w\<rparr>)"
| claim: "p \<in> set (w_preps w) \<Longrightarrow> build_call E p = Inr (g, q, r) \<Longrightarrow>
     claim_attempt p (gp_call_hash q) aid lease now t (w_db w) = Inr (s', Some c) \<Longrightarrow>
     wstep w (w\<lparr>w_db := s', w_open := \<lparr>g_prep = p, g_claim = c, g_request = g, g_prompt = q\<rparr> # w_open w\<rparr>)"
| succeed: "x \<in> set (w_open w) \<Longrightarrow> rn_max_retries E = 2 \<Longrightarrow>
     decide E (g_prep x) (g_claim x) (g_request x) (g_prompt x) res = Inr (Complete co) \<Longrightarrow>
     finish_success (g_claim x) co now t (w_db w) = Inr s' \<Longrightarrow> wstep w (w\<lparr>w_db := s'\<rparr>)"
| fail: "x \<in> set (w_open w) \<Longrightarrow> rn_max_retries E = 2 \<Longrightarrow>
     decide E (g_prep x) (g_claim x) (g_request x) (g_prompt x) res = Inr (Finish f out) \<Longrightarrow>
     finish_failure (g_claim x) f now t (w_db w) = Inr s' \<Longrightarrow> wstep w (w\<lparr>w_db := s'\<rparr>)"
| expire: "expire_stale_attempts now t limit (w_db w) = Inr (s', n) \<Longrightarrow> wstep w (w\<lparr>w_db := s'\<rparr>)"
| save: "save_teacher_review_draft rid teacher iid aid c (w_db w) = Inr (s', rv) \<Longrightarrow> wstep w (w\<lparr>w_db := s'\<rparr>)"
| confirm: "confirm_teacher_reviews t teacher refs (w_db w) = Inr (s', rvs) \<Longrightarrow> wstep w (w\<lparr>w_db := s'\<rparr>)"
| inputs: "inputs_change (w_db w) s' \<Longrightarrow> wstep w (w\<lparr>w_db := s'\<rparr>)"

inductive reach :: "world \<Rightarrow> bool" where
  start: "empty_pipeline s \<Longrightarrow> distinct (map rv_id (db_rubrics s)) \<Longrightarrow> reach \<lparr>w_db = s, w_preps = [], w_open = []\<rparr>"
| step: "reach w \<Longrightarrow> wstep w w' \<Longrightarrow> reach w'"

inductive_cases wstepE: "wstep w w'"

section \<open>The invariant of every reachable database\<close>

lemma empty_pipeline_ok: "empty_pipeline s \<Longrightarrow> pipeline_ok s"
  by (simp add: empty_pipeline_def pipeline_ok_def pipeline_parts calls_of_def round_calls_def)

lemma inputs_keep: "pipeline_ok s \<Longrightarrow> inputs_change s s' \<Longrightarrow> pipeline_ok s'"
  by (simp add: inputs_change_def pipeline_ok_def pipeline_parts calls_of_def round_calls_def job_refs_def active_in_def)

lemma wstep_pipeline_ok: "wstep w w' \<Longrightarrow> pipeline_ok (w_db w) \<Longrightarrow> pipeline_ok (w_db w')"
  by (erule wstep.cases)
    (auto dest: create_keeps control_keeps claim_keeps finish_success_keeps finish_failure_keeps
      expire_stale_keeps save_keeps(1) confirm_keeps(1) inputs_keep)

lemma reach_pipeline_ok: "reach w \<Longrightarrow> pipeline_ok (w_db w)"
  by (induction rule: reach.induct) (auto intro: wstep_pipeline_ok empty_pipeline_ok)

lemma inputs_evolve: "inputs_change s s' \<Longrightarrow> evolves s s'"
  by (auto simp: inputs_change_def evolves_def)

lemma wstep_evolves:
  assumes "wstep w w'" "pipeline_ok (w_db w)"
  shows "evolves (w_db w) (w_db w')"
proof -
  have k: "keys_ok (w_db w)" using assms(2) by (simp add: pipeline_ok_def)
  from assms(1) show ?thesis
    by cases (auto simp: grows_def dest: create_grows [OF assms(2)] control_grows [OF k] claim_grows [OF k]
        finish_success_grows [OF k] finish_failure_grows [OF k] expire_stale_grows [OF k] save_keeps(2) confirm_keeps(2) [OF assms(2)] inputs_evolve)
qed

end
