(* ===== verification/Pipeline_Calls.thy ===== *)
theory Pipeline_Calls
  imports Pipeline_System
begin

text \<open>
  The calls of a paper, across all reachable worlds: what a worker holds is consistent with the
  database, a granted call is granted once, retries are counted, and a round ends after a bounded
  number of calls. The invariant \<open>calls_ok\<close> adds to \<open>pipeline_ok\<close> what ties claims and counters to
  the rows.
\<close>

section \<open>What a call can leave behind\<close>

text \<open>A call that may be followed by another one in its round.\<close>

definition retried :: "attempt_row \<Rightarrow> bool" where
  "retried a \<longleftrightarrow> att_error a = Some CodeCorrectionRequired \<or> att_sequence a \<le> 2"

text \<open>The stored response of a call is filed under that call.\<close>

definition own_key :: "attempt_row \<Rightarrow> bool" where
  "own_key a \<longleftrightarrow> (\<forall>k. att_raw_key a = Some k \<longrightarrow> (\<exists>ow j i. k = ProviderResponseKey ow j i (att_id a)))"

text \<open>
  The counter of a paper: while it waits, it has been retried once per call of its round; while it
  runs, the running call comes on top.
\<close>

definition item_calls_ok :: "pdb \<Rightarrow> item_row \<Rightarrow> bool" where
  "item_calls_ok s i \<longleftrightarrow> (let cs = round_calls (item_id i) (item_version i) s in
     (item_status i = ItemQueued \<longrightarrow> length cs = item_retries i \<and> (\<forall>a \<in> set cs. retried a)) \<and>
     (item_status i = ItemRunning \<longrightarrow> length cs = item_retries i + 1 \<and>
        (\<forall>a \<in> set cs. att_status a \<noteq> AttRunning \<longrightarrow> retried a) \<and> (\<exists>a \<in> set cs. att_status a = AttRunning)))"

definition later_ok :: "pdb \<Rightarrow> bool" where
  "later_ok s \<longleftrightarrow> (\<forall>a \<in> set (db_attempts s).
     att_sequence a < length (round_calls (att_item a) (att_round a) s) \<longrightarrow> retried a)"

definition calls_ok :: "pdb \<Rightarrow> bool" where
  "calls_ok s \<longleftrightarrow> (\<forall>i \<in> set (db_items s). item_calls_ok s i) \<and> later_ok s \<and>
     (\<forall>a \<in> set (db_attempts s). own_key a) \<and>
     (\<forall>a \<in> set (db_attempts s). att_status a = AttRunning \<longrightarrow> att_raw_key a = None \<and> att_error a = None)"

lemma round_calls_cong: "db_attempts s' = db_attempts s \<Longrightarrow> round_calls i r s' = round_calls i r s"
  by (simp add: round_calls_def)

lemma in_round_calls: "a \<in> set (round_calls i r s) \<longleftrightarrow> a \<in> set (db_attempts s) \<and> att_item a = i \<and> att_round a = r"
  by (auto simp: round_calls_def)

text \<open>A paper whose version is new has no calls in it yet.\<close>

lemma no_calls_yet:
  assumes "pipeline_ok s" "i \<in> set (db_items s)" "item_version i < r"
  shows "round_calls (item_id i) r s = []"
  using assms by (fastforce simp: round_calls_def filter_empty_conv pipeline_ok_def rounds_ok_def)

lemma calls_of_new_item:
  assumes "pipeline_ok s" "k \<notin> set (map item_id (db_items s))"
  shows "round_calls k r s = []"
proof -
  have "att_item a \<noteq> k" if a: "a \<in> set (db_attempts s)" for a
  proof -
    have "(att_item a, att_owner a) \<in> set (map (\<lambda>i. (item_id i, item_owner i)) (db_items s))"
      using assms(1) a by (auto simp: pipeline_ok_def links_ok_def)
    then show ?thesis using assms(2) by auto
  qed
  then show ?thesis by (simp add: round_calls_def filter_empty_conv)
qed

section \<open>Steps that leave the calls alone\<close>

text \<open>Each paper is an old one, a fresh one, an idle one, or one whose version went up.\<close>

lemma calls_ok_items:
  assumes ok: "pipeline_ok s" "calls_ok s" and att: "db_attempts s' = db_attempts s"
    and items: "\<And>i. i \<in> set (db_items s') \<Longrightarrow> i \<in> set (db_items s) \<or>
      item_status i \<notin> {ItemQueued, ItemRunning} \<or>
      item_status i = ItemQueued \<and> item_retries i = 0 \<and> round_calls (item_id i) (item_version i) s = []"
  shows "calls_ok s'"
proof -
  have rc: "round_calls i r s' = round_calls i r s" for i r by (rule round_calls_cong [OF att])
  have "item_calls_ok s' i" if i: "i \<in> set (db_items s')" for i
    using items [OF i] ok(2) by (auto simp: item_calls_ok_def Let_def rc calls_ok_def)
  then show ?thesis using ok(2) by (auto simp: calls_ok_def later_ok_def rc att)
qed

lemma retried_item_calls:
  assumes "pipeline_ok s" "i \<in> set (db_items s)"
  shows "item_status (retry_item t i) = ItemQueued \<and> item_retries (retry_item t i) = 0 \<and>
    round_calls (item_id (retry_item t i)) (item_version (retry_item t i)) s = []"
  using no_calls_yet [OF assms, of "item_version i + 1"] by (simp add: retry_item_def)

lemma control_rows:
  assumes "keys_ok s" "control_grading_job t teacher jid act target s = Inr (s', r)"
  shows "db_attempts s' = db_attempts s \<and>
    (\<forall>i \<in> set (db_items s'). i \<in> set (db_items s) \<or> item_status i = ItemCancelled \<or>
       (\<exists>k \<in> set (db_items s). i = retry_item t k))"
proof (cases "s' = s")
  case False
  then obtain j where f: "find (\<lambda>j. job_id j = jid \<and> job_owner j = teacher) (db_jobs s) = Some j"
    using assms(2) by (auto simp: control_grading_job_def split: if_splits option.splits)
  note c' = assms(2) [unfolded control_grading_job_def f option.case]
  let ?is = "filter (\<lambda>i. item_job i = jid \<and> item_owner i = teacher \<and> item_status i = ItemQueued) (db_items s)"
  have wj: "db_items r = db_items q \<and> db_attempts r = db_attempts q" if "write_job t True j j' q = Inr r" for j' q r
    using that by (auto simp: write_job_Inr Let_def)
  consider (job) j' where "write_job t True j j' s = Inr s'"
    | (cancel) s1 j' where "write_items (cancel_item t) ?is s = Inr s1" "write_job t True j j' s1 = Inr s'"
    | (retry) i s1 j' where "i \<in> set (db_items s)" "write_item i (retry_item t i) s = Inr s1" "write_job t True j j' s1 = Inr s'"
    using c' False by (auto split: if_splits option.splits control_action.splits dest!: find_SomeD)
  then show ?thesis
  proof cases
    case job then show ?thesis using wj by auto
  next
    case cancel
    have "db_attempts q' = db_attempts q \<and> (\<forall>i \<in> set (db_items q'). i \<in> set (db_items q) \<or> item_status i = ItemCancelled)"
      if "write_items (cancel_item t) xs q = Inr q'" for xs q q'
      using that
    proof (induction xs arbitrary: q)
      case (Cons x xs)
      from Cons.prems obtain q1 where 1: "write_item x (cancel_item t x) q = Inr q1" "write_items (cancel_item t) xs q1 = Inr q'"
        by auto
      have 2: "db_attempts q1 = db_attempts q" "\<forall>i \<in> set (db_items q1). i \<in> set (db_items q) \<or> item_status i = ItemCancelled"
        using 1(1) by (auto simp: write_item_Inr dest!: replace_row_subset)
      then show ?case using Cons.IH [OF 1(2)] by auto
    qed simp
    then show ?thesis using cancel wj by metis
  next
    case retry
    have "db_attempts s1 = db_attempts s" "\<forall>k \<in> set (db_items s1). k \<in> set (db_items s) \<or> k = retry_item t i"
      using retry(2) by (auto simp: write_item_Inr dest!: replace_row_subset)
    then show ?thesis using wj [OF retry(3)] retry(1) by auto
  qed
qed auto

lemma control_calls:
  assumes "pipeline_ok s" "calls_ok s" "control_job t teacher jid act target s = Inr (s', v)"
  shows "calls_ok s'"
proof -
  obtain r where c: "control_grading_job t teacher jid act target s = Inr (s', r)"
    using assms(3) by (auto simp: control_job_def split: option.splits)
  have k: "keys_ok s" using assms(1) by (simp add: pipeline_ok_def)
  note R = control_rows [OF k c]
  have "i \<in> set (db_items s) \<or> item_status i \<notin> {ItemQueued, ItemRunning} \<or>
      item_status i = ItemQueued \<and> item_retries i = 0 \<and> round_calls (item_id i) (item_version i) s = []"
    if "i \<in> set (db_items s')" for i
    using R that retried_item_calls [OF assms(1)] by auto
  then show ?thesis using calls_ok_items [OF assms(1,2)] R by blast
qed

lemma create_calls:
  assumes "pipeline_ok s" "calls_ok s" "create_or_get_job env owner assignment payload s = Inr (s', v, b)"
  shows "calls_ok s'"
proof (cases "existing_job s owner (jc_key payload)")
  case None
  from assms(3) None obtain a r con p snap h m where
    "insert_batch env owner (new_job env owner a r con p snap h m payload) (jc_submissions payload) s = Inr (s', v)"
    by (auto simp: create_or_get_job_def split: if_splits option.splits sum.splits prod.splits)
  then obtain s1 j as subs where ins: "insert_job j s = Inr s1" "insert_items (new_items env owner as subs) s1 = Inr s'"
    by (auto simp: insert_batch_def split: option.splits)
  let ?is = "new_items env owner as subs"
  note J = insert_job_Inr [OF ins(1)] and I = insert_items_Inr [OF ins(2)]
  have s': "db_items s' = db_items s @ ?is" "db_attempts s' = db_attempts s" using J I by simp_all
  have "item_status i = ItemQueued \<and> item_retries i = 0 \<and> round_calls (item_id i) (item_version i) s = []"
    if i: "i \<in> set ?is" for i
  proof -
    have "item_id i \<notin> set (map item_id (db_items s))" using I J i by auto
    then show ?thesis using calls_of_new_item [OF assms(1)] i by (auto simp: new_items_def)
  qed
  then show ?thesis by (intro calls_ok_items [OF assms(1,2) s'(2)]) (auto simp: s'(1))
qed (use assms in \<open>auto simp: create_or_get_job_def split: if_splits option.splits\<close>)

lemma save_calls:
  assumes "calls_ok s" "save_teacher_review_draft rid teacher iid aid c s = Inr (s', v)"
  shows "calls_ok s'"
  by (rule save_tables [OF assms(2)]) (use assms(1) in \<open>simp add: calls_ok_def item_calls_ok_def later_ok_def round_calls_def\<close>)

lemma confirm_calls:
  assumes "pipeline_ok s" "calls_ok s" "confirm_teacher_reviews t teacher refs s = Inr (s', v)"
  shows "calls_ok s'"
proof (cases "s' = s")
  case False
  show ?thesis
  proof (rule confirm_core [OF assms(1,3) False])
    fix rs
    assume "db_attempts s' = db_attempts s"
      "set (db_items s') = completed_item t ` set (confirmed_items teacher rs s) \<union> (set (db_items s) - set (confirmed_items teacher rs s))"
    then show ?thesis by (intro calls_ok_items [OF assms(1,2)]) auto
  qed
qed (use assms(2) in simp)

lemma inputs_calls: "calls_ok s \<Longrightarrow> inputs_change s s' \<Longrightarrow> calls_ok s'"
  by (simp add: calls_ok_def inputs_change_def item_calls_ok_def later_ok_def round_calls_def)

section \<open>Granting a call\<close>

lemma round_calls_len: "numbers_ok s \<Longrightarrow> a \<in> set (round_calls i r s) \<Longrightarrow>
    1 \<le> att_sequence a \<and> att_sequence a \<le> length (round_calls i r s)"
  unfolding numbers_ok_def
proof -
  assume n: "(\<forall>i. map att_number (calls_of i s) = [1..<length (calls_of i s) + 1]) \<and>
     (\<forall>i r. map att_sequence (round_calls i r s) = [1..<length (round_calls i r s) + 1])"
    and a: "a \<in> set (round_calls i r s)"
  have "att_sequence a \<in> set (map att_sequence (round_calls i r s))" using a by simp
  also have "\<dots> = set [1..<length (round_calls i r s) + 1]" using n by simp
  finally show ?thesis by auto
qed

lemma claim_calls:
  assumes ok: "pipeline_ok s" "calls_ok s" and c: "claim_attempt p h aid lease now t s = Inr (s', Some c)"
  shows "calls_ok s'"
proof (rule claim_tables [OF ok(1) c])
  fix i j
  let ?i = "claimed_item p lease now i" and ?j = "claimed_job now j" and ?a = "new_attempt p h aid now i s"
  assume R: "row_change s s' i ?i j ?j" and st: "item_status i = ItemQueued"
    and A: "db_attempts s' = db_attempts s @ [?a]" "attempt_unique (db_attempts s) ?a"
  note D = row_changeD [OF R]
  have num: "numbers_ok s" using ok(1) by (simp add: pipeline_ok_def)
  have q: "item_calls_ok s i" using ok(2) D(2) by (simp add: calls_ok_def)
  have rc: "round_calls k r s' = round_calls k r s @ (if k = item_id i \<and> r = item_version i then [?a] else [])" for k r
    by (simp add: round_calls_def A)
  have "item_calls_ok s' k" if k: "k \<in> set (db_items s')" for k
  proof (cases "k = ?i")
    case True
    have "item_retries ?i = item_retries i" by (simp add: claimed_item_def)
    then show ?thesis using q st True by (auto simp: item_calls_ok_def Let_def rc D(8))
  next
    case False
    then have "k \<in> set (db_items s)" "item_id k \<noteq> item_id i"
      using k row_change_other(2) [OF R] by (auto simp: D(14))
    then show ?thesis using ok(2) by (auto simp: item_calls_ok_def calls_ok_def Let_def rc)
  qed
  moreover have "later_ok s'"
    unfolding later_ok_def
  proof (intro ballI impI)
    fix b assume b: "b \<in> set (db_attempts s')" "att_sequence b < length (round_calls (att_item b) (att_round b) s')"
    show "retried b"
    proof (cases "b = ?a")
      case True
      then show ?thesis using b(2) next_sequence_len [OF num] by (simp add: rc)
    next
      case False
      then have "b \<in> set (db_attempts s)" using b(1) A(1) by simp
      then show ?thesis
        using b(2) ok(2) q st unfolding rc
        by (cases "att_item b = item_id i \<and> att_round b = item_version i")
          (auto simp: calls_ok_def later_ok_def item_calls_ok_def Let_def in_round_calls)
    qed
  qed
  moreover have "att_raw_key ?a = None" "att_error ?a = None" by (simp_all add: new_attempt_def)
  ultimately show ?thesis using ok(2) by (auto simp: calls_ok_def A(1) own_key_def)
qed

section \<open>Ending a call\<close>

lemma close_tables:
  assumes "write_attempt a a' s = Inr s1" "write_item i i' s1 = Inr s2" "reconcile_job now t j s2 = Inr s3"
  shows "db_items s3 = replace_row item_id i i' (db_items s)"
    "db_attempts s3 = replace_row att_id a a' (db_attempts s)"
proof -
  have "db_items s3 = db_items s2 \<and> db_attempts s3 = db_attempts s2"
    by (rule reconcile_Inr [OF assms(3)]) simp
  then show "db_items s3 = replace_row item_id i i' (db_items s)"
    "db_attempts s3 = replace_row att_id a a' (db_attempts s)"
    using write_attempt_Inr [OF assms(1)] assms(2) by (auto simp: write_item_Inr)
qed

lemma close_calls:
  assumes ok: "pipeline_ok s" "calls_ok s"
    and a: "a \<in> set (db_attempts s)" and i: "i \<in> set (db_items s)" and ai: "att_item a = item_id i"
    and run: "item_status i = ItemRunning"
    and w: "write_attempt a a' s = Inr s1" "write_item i i' s1 = Inr s2" "reconcile_job now t j s2 = Inr s3"
    and key: "own_key a'"
    and requeue: "item_status i' = ItemQueued \<Longrightarrow> item_retries i' = item_retries i + 1 \<and>
      item_version i' = item_version i \<and> retried a'"
    and left: "item_status i' \<noteq> ItemRunning"
  shows "calls_ok s3"
proof -
  note T = close_tables [OF w] and A = write_attempt_Inr [OF w(1)]
  note af = attempt_identity_fields [of a' a]
  have K: "distinct (map att_id (db_attempts s))" "distinct (map item_id (db_items s))"
    using ok(1) by (auto simp: pipeline_ok_def keys_ok_def)
  have I: "item_id i' = item_id i" using w(2) protect_item_identity by (auto simp: write_item_Inr item_identity_def)
  have same: "att_item a' = att_item a" "att_round a' = att_round a" "att_sequence a' = att_sequence a"
    using A af by auto
  have sa: "set (db_attempts s3) = insert a' (set (db_attempts s) - {a})" unfolding T by (rule replace_row_set [OF K(1) a])
  have si: "set (db_items s3) = insert i' (set (db_items s) - {i})" unfolding T by (rule replace_row_set [OF K(2) i])
  have place: "map call_place (db_attempts s3) = map call_place (db_attempts s)"
    unfolding T by (rule replace_same [OF K(1) a]) (use A af in \<open>simp add: call_place_def\<close>)
  have len: "length (round_calls k r s3) = length (round_calls k r s)" for k r
  proof -
    have "map call_place (round_calls k r s3) = map call_place (round_calls k r s)"
      unfolding round_calls_def by (rule map_filter_same [OF place]) (simp add: call_place_def)
    then show ?thesis by (metis length_map)
  qed
  have mem: "b \<in> set (round_calls k r s3) \<Longrightarrow> b = a' \<or> b \<in> set (round_calls k r s) \<and> b \<noteq> a" for b k r
    by (auto simp: in_round_calls sa)
  have one: "b = a" if "b \<in> set (db_attempts s)" "att_item b = item_id i" "att_status b = AttRunning" for b
  proof -
    have "count_where (is_running_call (item_id i)) (db_attempts s) = 1"
      using ok(1) i run by (simp add: pipeline_ok_def leases_ok_def)
    then show ?thesis
      using that a ai A K(1) by (intro count_where_unique [of "is_running_call (item_id i)" "db_attempts s"]) (auto simp: is_running_call_def)
  qed
  have items: "item_calls_ok s3 k" if k: "k \<in> set (db_items s3)" for k
  proof (cases "k = i'")
    case True
    show ?thesis
    proof (cases "item_status i' = ItemQueued")
      case True2: True
      have q: "item_calls_ok s i" using ok(2) i by (simp add: calls_ok_def)
      have "retried b" if "b \<in> set (round_calls (item_id i) (item_version i) s3)" for b
        using mem [OF that] requeue [OF True2] one [of b] q run
        by (cases "att_status b = AttRunning") (auto simp: item_calls_ok_def Let_def in_round_calls)
      then show ?thesis
        using True True2 q run requeue [OF True2] by (simp add: item_calls_ok_def Let_def len I)
    qed (use True left in \<open>simp add: item_calls_ok_def\<close>)
  next
    case False
    then have k': "k \<in> set (db_items s)" "item_id k \<noteq> item_id i"
      using k i K(2) by (auto simp: si dest: distinct_map_eqD)
    then have q: "item_calls_ok s k" using ok(2) by (simp add: calls_ok_def)
    have "set (round_calls (item_id k) (item_version k) s3) = set (round_calls (item_id k) (item_version k) s)"
      using k'(2) ai same by (auto simp: in_round_calls sa)
    then show ?thesis using q by (simp add: item_calls_ok_def Let_def len)
  qed
  have "later_ok s3"
    unfolding later_ok_def len
  proof (intro ballI impI)
    fix b assume b: "b \<in> set (db_attempts s3)" "att_sequence b < length (round_calls (att_item b) (att_round b) s)"
    show "retried b"
    proof (cases "b = a'")
      case True
      then have "retried a" using b(2) same a ok(2) by (auto simp: calls_ok_def later_ok_def)
      moreover have "att_error a = None" using a ok(2) A by (auto simp: calls_ok_def)
      ultimately show ?thesis using True same by (simp add: retried_def)
    qed (use b ok(2) sa in \<open>auto simp: calls_ok_def later_ok_def\<close>)
  qed
  then show ?thesis
    using items ok(2) key A by (auto simp: calls_ok_def sa)
qed

text \<open>The three ways a call ends.\<close>

lemma running_key:
  assumes "calls_ok s" "a \<in> set (db_attempts s)" "att_status a = AttRunning"
  shows "att_raw_key a = None"
  using assms by (simp add: calls_ok_def)

lemma success_calls:
  assumes ok: "pipeline_ok s" "calls_ok s" and f: "finish_success c x now t s = Inr s'"
    and key: "\<exists>ow j i. co_key x = ProviderResponseKey ow j i (cl_attempt c)"
  shows "calls_ok s'"
proof -
  from f obtain j i a s1 s2 where L: "locate_claim c s = Inr (j, i, a)"
    and w: "write_attempt a (succeeded_attempt x now a) s = Inr s1" "write_item i (reviewed_item now i) s1 = Inr s2"
      "reconcile_job now t j s2 = Inr s'" by (auto simp: finish_success_def)
  note l = locate_claim_Inr [OF L]
  have "own_key (succeeded_attempt x now a)"
    using key l(4) by (auto simp: own_key_def succeeded_attempt_def with_provider_result_def split: option.split)
  then show ?thesis
    by (intro close_calls [OF ok l(1,2,5,9) w]) (simp_all add: reviewed_item_def)
qed

lemma failed_attempt_simps [simp]:
  "att_error (failed_attempt f now a) = Some (fa_code f)" "att_raw_key (failed_attempt f now a) = fa_key f"
  "att_id (failed_attempt f now a) = att_id a" "att_sequence (failed_attempt f now a) = att_sequence a"
  "att_status (failed_attempt f now a) = AttFailed"
  by (simp_all add: failed_attempt_def with_provider_result_def split: option.split)

lemma failed_item_queued:
  "item_status (failed_item f now i) = ItemQueued \<longleftrightarrow> fa_action f = FailRetry"
  "item_status (failed_item f now i) \<noteq> ItemRunning"
  "fa_action f = FailRetry \<Longrightarrow> item_retries (failed_item f now i) = item_retries i + 1 \<and>
     item_version (failed_item f now i) = item_version i"
  by (simp_all add: failed_item_def Let_def split: failure_action.split)

lemma failure_calls:
  assumes ok: "pipeline_ok s" "calls_ok s" and f: "finish_failure c x now t s = Inr s'"
    and key: "\<forall>k. fa_key x = Some k \<longrightarrow> (\<exists>ow j i. k = ProviderResponseKey ow j i (cl_attempt c))"
    and retry: "\<And>a. a \<in> set (db_attempts s) \<Longrightarrow> att_id a = cl_attempt c \<Longrightarrow> fa_action x = FailRetry \<Longrightarrow>
      fa_code x = CodeCorrectionRequired \<or> att_sequence a \<le> 2"
  shows "calls_ok s'"
proof -
  from f obtain j i a s1 s2 where L: "locate_claim c s = Inr (j, i, a)"
    and w: "write_attempt a (failed_attempt x now a) s = Inr s1" "write_item i (failed_item x now i) s1 = Inr s2"
      "reconcile_job now t j s2 = Inr s'" by (auto simp: finish_failure_def)
  note l = locate_claim_Inr [OF L]
  have "own_key (failed_attempt x now a)" using key l(4) by (simp add: own_key_def)
  moreover have "fa_action x = FailRetry \<Longrightarrow> retried (failed_attempt x now a)"
    using retry [OF l(1,4)] by (auto simp: retried_def)
  ultimately show ?thesis
    by (intro close_calls [OF ok l(1,2,5,9) w]) (use failed_item_queued [of x now i] in simp_all)
qed

lemma expire_one_calls:
  assumes ok: "pipeline_ok s" "calls_ok s" and e: "expire_one now t c s = Inr (s', b)"
  shows "calls_ok s'"
proof -
  consider "s' = s" | (run) j i a s1 s2 where
    "find (\<lambda>i. item_id i = item_id c \<and> item_lease_expired t i) (db_items s) = Some i"
    "running_attempt (item_id i) s = Some a"
    "write_attempt a (expired_attempt now a) s = Inr s1" "write_item i (expired_item now i) s1 = Inr s2"
    "reconcile_job now t j s2 = Inr s'"
    using e by (auto simp: expire_one_def split: option.splits)
  then show ?thesis
  proof cases
    case run
    have i: "i \<in> set (db_items s)" "item_status i = ItemRunning"
      using find_SomeD [OF run(1)] by (auto simp: item_lease_expired_def)
    have a: "a \<in> set (db_attempts s)" "att_item a = item_id i" "att_status a = AttRunning"
      using find_SomeD [OF run(2) [unfolded running_attempt_def]] by auto
    have "own_key (expired_attempt now a)"
      using running_key [OF ok(2) a(1,3)] by (simp add: own_key_def expired_attempt_def)
    then show ?thesis
      by (intro close_calls [OF ok a(1) i(1) a(2) i(2) run(3-5)]) (simp_all add: expired_item_def)
  qed (use ok in simp)
qed

lemma expire_each_calls:
  assumes "pipeline_ok s" "calls_ok s" "expire_each now t cs s n = Inr (s', m)"
    and "set (map (\<lambda>i. (item_id i, item_job i)) cs) \<subseteq> set (map (\<lambda>i. (item_id i, item_job i)) (db_items s))"
  shows "calls_ok s'"
  using assms
proof (induction cs arbitrary: s n)
  case (Cons c cs)
  from Cons.prems(3) obtain s1 b where 1: "expire_one now t c s = Inr (s1, b)"
    "expire_each now t cs s1 (if b then n + 1 else n) = Inr (s', m)" by auto
  have c: "(item_id c, item_job c) \<in> set (map (\<lambda>i. (item_id i, item_job i)) (db_items s))"
    using Cons.prems(4) by auto
  note k = expire_one_keeps [OF Cons.prems(1) 1(1) c]
  show ?case
    by (rule Cons.IH [OF k(1) expire_one_calls [OF Cons.prems(1,2) 1(1)] 1(2)])
      (use Cons.prems(4) identity_links [OF k(2)] in auto)
qed simp

lemma expire_stale_calls:
  assumes "pipeline_ok s" "calls_ok s" "expire_stale_attempts now t limit s = Inr (s', n)"
  shows "calls_ok s'"
proof -
  let ?cs = "take limit (sort_key (\<lambda>i. the (item_lease_expires i)) (sort_key item_id
      (filter (item_lease_expired t) (db_items s))))"
  have "set ?cs \<subseteq> set (db_items s)" by (auto dest: in_set_takeD)
  then show ?thesis
    using expire_each_calls [OF assms(1,2) assms(3) [unfolded expire_stale_attempts_def]] by auto
qed

section \<open>What a decision can be\<close>

lemma decide_key:
  assumes "decide E p c g q res = Inr (Complete x)"
  shows "co_key x = response_key p (cl_attempt c)"
  using assms
  by (auto simp: decide_def decide_error_def decide_answer_def decide_outcome_def Let_def
      split: call_result.splits option.splits sum.splits outcome_status.splits if_splits)

lemma decide_failure:
  assumes "decide E p c g q res = Inr (Finish f out)"
  shows "fa_key f = None \<or> fa_key f = Some (response_key p (cl_attempt c))"
    "fa_action f = FailRetry \<Longrightarrow> fa_code f = CodeCorrectionRequired \<or> cl_sequence c \<le> rn_max_retries E"
    "out = action_result (fa_action f)"
proof -
  consider (err) e where "decide_error E p c e = Inr (Finish f out)" | (url) "f = url_rejected_failure" "out = RunFailed"
    | (ans) r oc where "assess_grade_response (rn_unicode E) (rn_errors E) (request_hash E) (raw_result E (res_output_text r)) g (prompt_call q) = Inr oc"
      "decide_outcome p c r oc = Finish f out"
  proof (cases res)
    case (CallOk r)
    then obtain oc where "assess_grade_response (rn_unicode E) (rn_errors E) (request_hash E) (raw_result E (res_output_text r)) g (prompt_call q) = Inr oc"
      "decide_outcome p c r oc = Finish f out"
      using assms by (cases "assess_grade_response (rn_unicode E) (rn_errors E) (request_hash E) (raw_result E (res_output_text r)) g (prompt_call q)")
        (auto simp: decide_def decide_answer_def split: if_splits)
    then show ?thesis by (rule that(3))
  next
    case (CallFailed e)
    then show ?thesis using assms by (intro that(1)) (simp add: decide_def)
  qed (use assms that(2) in \<open>simp_all add: decide_def\<close>)
  then have "(fa_key f = None \<or> fa_key f = Some (response_key p (cl_attempt c))) \<and>
    (fa_action f = FailRetry \<longrightarrow> fa_code f = CodeCorrectionRequired \<or> cl_sequence c \<le> rn_max_retries E) \<and>
    out = action_result (fa_action f)"
  proof cases
    case err
    then show ?thesis by (auto simp: decide_error_def Let_def error_action_def split: option.splits if_splits)
  next
    case url then show ?thesis by (simp add: url_rejected_failure_def action_result_def)
  next
    case ans
    from ans(1) show ?thesis
      by (cases rule: assess_cases)
        (use ans(2) in \<open>auto simp: decide_outcome_def Let_def outcome_code_def\<close>)
  qed
  then show "fa_key f = None \<or> fa_key f = Some (response_key p (cl_attempt c))"
    "fa_action f = FailRetry \<Longrightarrow> fa_code f = CodeCorrectionRequired \<or> cl_sequence c \<le> rn_max_retries E"
    "out = action_result (fa_action f)" by blast+
qed

end
