(* ===== verification/Pipeline_World.thy ===== *)
theory Pipeline_World
  imports Pipeline_Calls
begin

text \<open>
  The invariant of every reachable world, and the guarantees of the pipeline that rest on it: every
  call is granted once and under a fresh number, a granted call belongs to the prompt that was
  hashed, retries and provider concurrency are bounded, finished calls are immutable, and the
  database never refuses the result of a call whose lease is still valid.
\<close>

section \<open>What workers hold\<close>

definition prep_ok :: "pdb \<Rightarrow> preparation \<Rightarrow> bool" where
  "prep_ok s p \<longleftrightarrow> (\<exists>i \<in> set (db_items s). \<exists>j \<in> set (db_jobs s).
     item_id i = pre_item p \<and> item_owner i = pre_owner p \<and> item_job i = job_id j \<and> job_id j = pre_job p \<and>
     job_owner j = pre_owner p \<and> item_submission i = pre_submission p \<and> pre_version p \<le> item_version i \<and>
     job_provider j = pre_provider p \<and> job_provider_version j = pre_provider_version p \<and>
     job_parameters j = pre_snapshot p \<and> job_contract j = pre_contract p \<and> job_model j = pre_model p \<and>
     job_title j = pre_title p \<and> job_instructions j = pre_instructions p \<and>
     job_rubric_version j = pre_rubric_version_id p) \<and>
   (\<exists>cf raw. validate_rubric cf raw = Inr (pre_rubric p))"

definition grant_ok :: "pdb \<Rightarrow> granted \<Rightarrow> bool" where
  "grant_ok s x \<longleftrightarrow> (let p = g_prep x; c = g_claim x in
     prep_ok s p \<and> greq_rubric (g_request x) = pre_rubric p \<and>
     cl_request_hash c = gp_call_hash (g_prompt x) \<and> cl_round c = pre_version p \<and>
     (\<exists>E r. build_call E p = Inr (g_request x, g_prompt x, r)) \<and>
     (\<exists>a \<in> set (db_attempts s). att_id a = cl_attempt c \<and> att_item a = pre_item p \<and> att_owner a = pre_owner p \<and>
        att_number a = cl_number c \<and> att_round a = cl_round c \<and> att_sequence a = cl_sequence c \<and>
        att_request_hash a = cl_request_hash c \<and> att_max_score a = rub_total_score (pre_rubric p)))"

lemma snapshot_eq_fields:
  assumes "job_snapshot j' = job_snapshot j"
  shows "job_id j' = job_id j" "job_owner j' = job_owner j" "job_provider j' = job_provider j"
    "job_provider_version j' = job_provider_version j" "job_parameters j' = job_parameters j"
    "job_contract j' = job_contract j" "job_model j' = job_model j" "job_title j' = job_title j"
    "job_instructions j' = job_instructions j" "job_rubric_version j' = job_rubric_version j"
    "job_expected j' = job_expected j" "job_assignment j' = job_assignment j"
  using assms by (cases j; cases j'; simp add: job_snapshot_def)+

lemma prep_ok_evolves:
  assumes "prep_ok s p" "evolves s s'"
  shows "prep_ok s' p"
proof -
  from assms(1) obtain i j where ij: "i \<in> set (db_items s)" "j \<in> set (db_jobs s)"
    "item_id i = pre_item p" "item_owner i = pre_owner p" "item_job i = job_id j" "job_id j = pre_job p"
    "job_owner j = pre_owner p" "item_submission i = pre_submission p" "pre_version p \<le> item_version i"
    "job_provider j = pre_provider p" "job_provider_version j = pre_provider_version p"
    "job_parameters j = pre_snapshot p" "job_contract j = pre_contract p" "job_model j = pre_model p"
    "job_title j = pre_title p" "job_instructions j = pre_instructions p"
    "job_rubric_version j = pre_rubric_version_id p" "\<exists>cf raw. validate_rubric cf raw = Inr (pre_rubric p)"
    unfolding prep_ok_def by blast
  obtain i' where i': "i' \<in> set (db_items s')" "item_identity i' = item_identity i" "item_version i \<le> item_version i'"
    using assms(2) ij(1) unfolding evolves_def by blast
  obtain j' where j': "j' \<in> set (db_jobs s')" "job_snapshot j' = job_snapshot j"
    using assms(2) ij(2) unfolding evolves_def by blast
  show ?thesis
    unfolding prep_ok_def
    by (intro conjI bexI [OF _ i'(1)] bexI [OF _ j'(1)])
      (use ij(3-18) i'(2,3) snapshot_eq_fields [OF j'(2)] in \<open>simp_all add: item_identity_def\<close>)
qed

lemma grant_ok_evolves:
  assumes "grant_ok s x" "evolves s s'"
  shows "grant_ok s' x"
proof -
  from assms(1) obtain a where a: "a \<in> set (db_attempts s)" "att_id a = cl_attempt (g_claim x)"
    "att_item a = pre_item (g_prep x)" "att_owner a = pre_owner (g_prep x)" "att_number a = cl_number (g_claim x)"
    "att_round a = cl_round (g_claim x)" "att_sequence a = cl_sequence (g_claim x)"
    "att_request_hash a = cl_request_hash (g_claim x)" "att_max_score a = rub_total_score (pre_rubric (g_prep x))"
    by (auto simp: grant_ok_def Let_def)
  obtain b where b: "b \<in> set (db_attempts s')" "attempt_identity b = attempt_identity a"
    using assms(2) a(1) unfolding evolves_def by blast
  note f = attempt_identity_fields [OF b(2)]
  show ?thesis
    using assms(1) prep_ok_evolves [OF _ assms(2)] b(1) f a(2-9) unfolding grant_ok_def Let_def by metis
qed

lemma prepare_prep_ok:
  assumes "prepare_item cf E t iid version s = Inr (Some p)" "keys_ok s"
  shows "prep_ok s p \<and> pre_version p = version \<and> pre_item p = iid"
proof -
  from assms(1) obtain i where fi: "find (\<lambda>i. item_id i = iid \<and> item_version i = version \<and> item_status i = ItemQueued \<and>
      item_available i \<le> t) (db_items s) = Some i"
    by (auto simp: prepare_item_def split: option.splits)
  obtain j u where fj: "find (\<lambda>j. job_id j = item_job i \<and> job_owner j = item_owner i \<and>
      job_status j \<in> {JobQueued, JobRunning}) (db_jobs s) = Some j"
    and fu: "find (\<lambda>u. sub_id u = item_submission i \<and> sub_owner u = item_owner i) (db_submissions s) = Some u"
    using assms(1) fi by (auto simp: prepare_item_def split: option.splits)
  obtain v pr where fv: "find (\<lambda>v. rv_id v = job_rubric_version j \<and> rv_owner v = job_owner j) (db_rubrics s) = Some v"
    and fp: "find_provider (job_provider j) s = Some pr"
    using assms(1) fi fj fu by (auto simp: prepare_item_def split: option.splits)
  obtain raw rub where r: "rv_structured v = Some raw" "validate_rubric cf raw = Inr rub"
    and pv: "prov_config_version pr = job_provider_version j"
    and p: "pre_owner p = item_owner i" "pre_job p = job_id j" "pre_item p = item_id i" "pre_version p = version"
      "pre_submission p = sub_id u" "pre_title p = job_title j" "pre_instructions p = job_instructions j"
      "pre_rubric_version_id p = rv_id v" "pre_rubric p = rub" "pre_provider p = prov_id pr"
      "pre_provider_version p = prov_config_version pr" "pre_model p = job_model j"
      "pre_snapshot p = job_parameters j" "pre_contract p = job_contract j"
    using assms(1) fi fj fu fv fp find_SomeD [OF fi]
    by (auto simp: prepare_item_def Let_def split: option.splits if_splits sum.splits prod.splits)
  have i: "i \<in> set (db_items s)" "item_id i = iid" "item_version i = version" using find_SomeD [OF fi] by auto
  have j: "j \<in> set (db_jobs s)" "job_id j = item_job i" "job_owner j = item_owner i" using find_SomeD [OF fj] by auto
  have "sub_id u = item_submission i" "rv_id v = job_rubric_version j" "prov_id pr = job_provider j"
    using find_SomeD [OF fu] find_SomeD [OF fv] find_SomeD [OF fp [unfolded find_provider_def]] by auto
  then have "prep_ok s p"
    unfolding prep_ok_def using r(2)
    by (intro conjI bexI [OF _ i(1)] bexI [OF _ j(1)]) (use p pv i j in auto)
  then show ?thesis using p i by simp
qed

lemma call_prompt_correction:
  assumes "call_prompt E p q0 = Inr q" "pre_previous_key p = Some k"
  shows "\<exists>oc ot. build_correction_prompt (rn_prompt E) q0 oc ot = Inr q"
proof (cases "pre_previous_details p")
  case (Some details)
  with assms obtain j where j: "rn_json E k = Inr j" by (auto simp: call_prompt_def)
  then obtain ot issues where o: "previous_output j = Some ot" "details = IssueDetails issues"
    using assms Some by (cases "previous_output j"; cases details) (simp_all add: call_prompt_def)
  then obtain oc where oc: "correction_outcome issues = Inr oc"
    using assms Some j by (cases "correction_outcome issues") (simp_all add: call_prompt_def)
  then have "build_correction_prompt (rn_prompt E) q0 oc ot = Inr q"
    using assms Some j o by (auto simp: call_prompt_def split: sum.splits prompt_exn.splits)
  then show ?thesis by blast
qed (use assms in \<open>simp add: call_prompt_def\<close>)

lemma build_call_parts:
  assumes "build_call E p = Inr (g, q, r)"
  shows "greq_rubric g = pre_rubric p" "length (gp_messages q) = (if pre_previous_key p = None then 2 else 3)"
    "prompt_matches q (pre_contract p)" "pgr_prompt r = q"
proof -
  from assms [unfolded build_call_def bindR_Inr_iff] obtain d g' where
    d': "rn_document E (pre_document_key p) = Inr d" "request_of p d = Inr g'" and
    c1: "(case parse_prompt_version (con_prompt_version (pre_contract p)) of
       None \<Rightarrow> Inl RunPromptUnsupported
     | Some v \<Rightarrow> (case build_grading_prompt (rn_prompt E) g' v of
         None \<Rightarrow> Inl RunEncodeFailed
       | Some initial \<Rightarrow>
           bindR (call_prompt E p initial) (\<lambda>q.
           if \<not> prompt_matches q (pre_contract p) then Inl RunContractMismatch
           else if cap_model (prof_capabilities (snap_profile (pre_snapshot p))) \<noteq> pre_model p then Inl RunModelMismatch
           else (case rn_decrypt E (pre_encrypted_key p) (pre_nonce p) (pre_provider p) of
               None \<Rightarrow> Inl RunDecryptFailed
             | Some key \<Rightarrow> let r = provider_request_of p key q in
                 if valid_grade_request (rn_prompt E) r then Inr (g', q, r) else Inl RunRequestInvalid)))) = Inr (g, q, r)"
    by blast
  then obtain v where v: "parse_prompt_version (con_prompt_version (pre_contract p)) = Some v" by (auto split: option.splits)
  with c1 obtain q0 where q0': "build_grading_prompt (rn_prompt E) g' v = Some q0" by (auto split: option.splits)
  from c1 obtain q1 key where q1: "call_prompt E p q0 = Inr q1" "prompt_matches q1 (pre_contract p)"
    "r = provider_request_of p key q1" "g = g'" "q = q1"
    unfolding v q0' option.case bindR_Inr_iff by (auto simp: Let_def split: if_splits option.splits)
  have d: "request_of p d = Inr g" and q0: "build_grading_prompt (rn_prompt E) g v = Some q0" and q: "call_prompt E p q0 = Inr q"
    and m: "prompt_matches q (pre_contract p)" and r: "pgr_prompt r = q"
    using d' q0' q1 by (simp_all add: provider_request_of_def Let_def)
  show "greq_rubric g = pre_rubric p"
    using d by (auto simp: request_of_def make_grade_request_def Let_def split: option.splits)
  have l: "length (gp_messages q0) = 2" by (rule build_prompt_Some [OF q0]) simp
  show "length (gp_messages q) = (if pre_previous_key p = None then 2 else 3)"
  proof (cases "pre_previous_key p")
    case None
    then show ?thesis using q l by (simp add: call_prompt_def)
  next
    case (Some k)
    then obtain oc o' where "build_correction_prompt (rn_prompt E) q0 oc o' = Inr q"
      using call_prompt_correction [OF q] by blast
    then have "length (gp_messages q) = 3"
      using l by (auto simp: build_correction_prompt_def Let_def split: if_splits option.splits)
    then show ?thesis using Some by simp
  qed
  show "prompt_matches q (pre_contract p)" "pgr_prompt r = q" by (fact m, fact r)
qed

section \<open>Rubrics of running batches\<close>

text \<open>
  The rubric of a batch is frozen, and the ceiling of every call is that rubric's total. Only
  \<open>create_or_get_job\<close> adds batches and only \<open>claim_attempt\<close> adds calls.
\<close>

definition stays :: "pdb \<Rightarrow> pdb \<Rightarrow> bool" where
  "stays s s' \<longleftrightarrow> job_snapshot ` set (db_jobs s') \<subseteq> job_snapshot ` set (db_jobs s) \<and>
     attempt_identity ` set (db_attempts s') \<subseteq> attempt_identity ` set (db_attempts s) \<and>
     item_identity ` set (db_items s') \<subseteq> item_identity ` set (db_items s) \<and>
     (\<forall>i \<in> set (db_items s'). item_status i = ItemCompleted \<longrightarrow> i \<in> set (db_items s))"

definition frozen_rubrics :: "pdb \<Rightarrow> pdb \<Rightarrow> bool" where
  "frozen_rubrics s s' \<longleftrightarrow> (\<forall>v \<in> set (db_rubrics s). rv_status v \<noteq> RubricDraft \<longrightarrow>
     (\<exists>v' \<in> set (db_rubrics s'). rv_id v' = rv_id v \<and> rv_owner v' = rv_owner v \<and>
        rv_assignment v' = rv_assignment v \<and> rv_total_score v' = rv_total_score v \<and> rv_status v' \<noteq> RubricDraft))"

definition rubric_of :: "job_row \<Rightarrow> rubric_row \<Rightarrow> bool" where
  "rubric_of j v \<longleftrightarrow> rv_id v = job_rubric_version j \<and> rv_assignment v = job_assignment j \<and>
     rv_owner v = job_owner j \<and> rv_status v \<noteq> RubricDraft"

definition rubrics_ok :: "pdb \<Rightarrow> bool" where
  "rubrics_ok s \<longleftrightarrow> distinct (map rv_id (db_rubrics s)) \<and>
     (\<forall>j \<in> set (db_jobs s). \<exists>v \<in> set (db_rubrics s). rubric_of j v) \<and>
     (\<forall>a \<in> set (db_attempts s). attempt_score_ok s a)"

lemma stays_refl [simp]: "stays s s"
  by (simp add: stays_def)

lemma stays_trans:
  assumes "stays s t" "stays t r"
  shows "stays s r"
proof -
  have "\<forall>i \<in> set (db_items r). item_status i = ItemCompleted \<longrightarrow> i \<in> set (db_items s)"
    using assms by (simp add: stays_def)
  then show ?thesis using assms unfolding stays_def by (meson subset_trans)
qed

lemma write_item_stays:
  assumes "write_item i i' s = Inr s'" "i \<in> set (db_items s)" "item_status i' \<noteq> ItemCompleted"
  shows "stays s s'"
proof -
  have "item_identity i' = item_identity i" "s' = s\<lparr>db_items := replace_row item_id i i' (db_items s)\<rparr>"
    using assms(1) protect_item_identity by (auto simp: write_item_Inr)
  then show ?thesis using assms(2,3) by (auto simp: stays_def dest!: replace_row_subset)
qed

lemma cancel_items_stays:
  assumes "write_items (cancel_item t) xs s = Inr s'" "distinct (map item_id xs)" "set xs \<subseteq> set (db_items s)"
    and "distinct (map item_id (db_items s))"
  shows "stays s s'"
  using assms
proof (induction xs arbitrary: s)
  case (Cons x xs)
  from Cons.prems(1) obtain q where w: "write_item x (cancel_item t x) s = Inr q" "write_items (cancel_item t) xs q = Inr s'" by auto
  have x: "x \<in> set (db_items s)" using Cons.prems by simp
  have q: "db_items q = replace_row item_id x (cancel_item t x) (db_items s)" using w(1) by (simp add: write_item_Inr)
  have id: "item_id (cancel_item t x) = item_id x" by (simp add: cancel_item_def)
  have "set xs \<subseteq> set (db_items q)" unfolding q replace_row_set [OF Cons.prems(4) x] using Cons.prems(2,3) by auto
  moreover have "distinct (map item_id (db_items q))" using Cons.prems(4) unfolding q by (simp add: replace_row_keys id)
  ultimately have "stays q s'" by (intro Cons.IH [OF w(2)]) (use Cons.prems in auto)
  moreover have "stays s q" by (rule write_item_stays [OF w(1) x]) simp
  ultimately show ?case using stays_trans by blast
qed simp

lemma write_job_stays:
  assumes "j \<in> set (db_jobs s)" "write_job t b j j' s = Inr s'"
  shows "stays s s'"
proof -
  obtain n where n: "protect_job_snapshot j n = Inr ()" "s' = s\<lparr>db_jobs := replace_row job_id j n (db_jobs s)\<rparr>"
    using assms(2) by (auto simp: write_job_Inr Let_def)
  have "job_snapshot n = job_snapshot j" using n(1) by (auto simp: protect_job_snapshot_def split: if_splits)
  then show ?thesis using assms(1) by (auto simp: stays_def n(2) dest!: replace_row_subset)
qed

lemma close_stays:
  assumes "a \<in> set (db_attempts s)" "j \<in> set (db_jobs s)" "write_attempt a a' s = Inr s1"
    and "write_item i i' s1 = Inr s2" "reconcile_job now t j s2 = Inr s3"
    and "i \<in> set (db_items s)" "item_status i' \<noteq> ItemCompleted"
  shows "stays s s3"
proof -
  note A = write_attempt_Inr [OF assms(3)]
  have "attempt_identity ` set (replace_row att_id a a' (db_attempts s)) \<subseteq> attempt_identity ` set (db_attempts s)"
    using A assms(1) by (auto dest!: replace_row_subset)
  then have 1: "stays s s1" using A by (auto simp: stays_def)
  have "db_jobs s2 = db_jobs s" using A assms(4) by (auto simp: write_item_Inr)
  then have "stays s2 s3"
    using assms(2,5) write_job_stays by (auto simp: reconcile_job_def Let_def split: if_splits)
  moreover have "stays s1 s2" by (rule write_item_stays [OF assms(4)]) (use A assms(6,7) in simp_all)
  ultimately show ?thesis using 1 stays_trans by blast
qed

lemma finish_success_stays:
  assumes "finish_success c x now t s = Inr s'"
  shows "stays s s'"
proof -
  from assms obtain j i a s1 s2 where L: "locate_claim c s = Inr (j, i, a)"
    and w: "write_attempt a (succeeded_attempt x now a) s = Inr s1" "write_item i (reviewed_item now i) s1 = Inr s2"
      "reconcile_job now t j s2 = Inr s'" by (auto simp: finish_success_def)
  show ?thesis
    by (rule close_stays [OF locate_claim_Inr(1,3) [OF L] w locate_claim_Inr(2) [OF L]]) (simp add: reviewed_item_def)
qed

lemma finish_failure_stays:
  assumes "finish_failure c f now t s = Inr s'"
  shows "stays s s'"
proof -
  from assms obtain j i a s1 s2 where L: "locate_claim c s = Inr (j, i, a)"
    and w: "write_attempt a (failed_attempt f now a) s = Inr s1" "write_item i (failed_item f now i) s1 = Inr s2"
      "reconcile_job now t j s2 = Inr s'" by (auto simp: finish_failure_def)
  show ?thesis
    by (rule close_stays [OF locate_claim_Inr(1,3) [OF L] w locate_claim_Inr(2) [OF L]])
      (simp add: failed_item_def Let_def split: failure_action.splits)
qed

lemma expire_one_stays:
  assumes "expire_one now t c s = Inr (s', b)"
  shows "stays s s'"
proof -
  consider "s' = s" | (run) j i a s1 s2 where
    "find_job (item_job c) s = Some j" "running_attempt (item_id i) s = Some a"
    "write_attempt a (expired_attempt now a) s = Inr s1" "write_item i (expired_item now i) s1 = Inr s2"
    "reconcile_job now t j s2 = Inr s'" "find (\<lambda>i. item_id i = item_id c \<and> item_lease_expired t i) (db_items s) = Some i"
    using assms by (auto simp: expire_one_def split: option.splits)
  then show ?thesis
  proof cases
    case run
    have "a \<in> set (db_attempts s)" "j \<in> set (db_jobs s)" "i \<in> set (db_items s)"
      using run(1,2,6) find_SomeD by (fastforce simp: find_job_def running_attempt_def)+
    then show ?thesis by (intro close_stays [OF _ _ run(3-5)]) (simp_all add: expired_item_def)
  qed simp
qed

lemma expire_each_stays: "expire_each now t cs s n = Inr (s', m) \<Longrightarrow> stays s s'"
  by (induction cs arbitrary: s n) (auto dest!: expire_one_stays intro: stays_trans)

lemma control_stays:
  assumes "control_job t teacher jid act target s = Inr (s', v)" "keys_ok s"
  shows "stays s s'"
proof (cases "s' = s")
  case False
  obtain r where c: "control_grading_job t teacher jid act target s = Inr (s', r)"
    using assms(1) by (auto simp: control_job_def split: option.splits)
  then obtain j where f: "find (\<lambda>j. job_id j = jid \<and> job_owner j = teacher) (db_jobs s) = Some j"
    using False by (auto simp: control_grading_job_def split: if_splits option.splits)
  have j: "j \<in> set (db_jobs s)" using find_SomeD [OF f] by auto
  note c' = c [unfolded control_grading_job_def f option.case]
  have items: "db_jobs q' = db_jobs q" if "write_items g xs q = Inr q'" for g xs q q'
    using that by (induction xs arbitrary: q) (auto simp: write_item_Inr)
  consider (job) j' where "write_job t True j j' s = Inr s'"
    | (cancel) P s1 j' where "write_items (cancel_item t) (filter P (db_items s)) s = Inr s1" "write_job t True j j' s1 = Inr s'"
    | (retry) i s1 j' where "i \<in> set (db_items s)" "write_item i (retry_item t i) s = Inr s1" "write_job t True j j' s1 = Inr s'"
    using c' False by (auto split: if_splits option.splits control_action.splits dest!: find_SomeD)
  then show ?thesis
  proof cases
    case job then show ?thesis by (rule write_job_stays [OF j])
  next
    case cancel
    then have "stays s1 s'" using write_job_stays items j by simp
    moreover have "stays s s1"
      by (rule cancel_items_stays [OF cancel(1)]) (use assms(2) in \<open>auto simp: keys_ok_def distinct_map_filter\<close>)
    ultimately show ?thesis using stays_trans by blast
  next
    case retry
    then have "stays s1 s'" using write_job_stays j by (auto simp: write_item_Inr)
    moreover have "stays s s1" by (rule write_item_stays [OF retry(2,1)]) (simp add: retry_item_def)
    ultimately show ?thesis using stays_trans by blast
  qed
qed simp

lemma snapshot_rubric_of: "job_snapshot k = job_snapshot j \<Longrightarrow> rubric_of j v \<Longrightarrow> rubric_of k v"
  using snapshot_eq_fields [of k j] by (simp add: rubric_of_def)

lemma score_ok_kept:
  assumes "attempt_score_ok s a" "rubrics_ok s" "evolves s s'" "frozen_rubrics s s'"
    and "att_item b = att_item a" "att_owner b = att_owner a" "att_max_score b = att_max_score a"
  shows "attempt_score_ok s' b"
proof -
  obtain i j v where i: "i \<in> set (db_items s)" "item_id i = att_item a" "item_owner i = att_owner a"
    and j: "j \<in> set (db_jobs s)" "job_id j = item_job i" "job_assignment j = item_assignment i" "job_owner j = item_owner i"
    and v: "v \<in> set (db_rubrics s)" "rv_id v = job_rubric_version j" "rv_assignment v = job_assignment j"
      "rv_owner v = job_owner j" "dec_eq (att_max_score a) (rv_total_score v)"
    using assms(1) unfolding attempt_score_ok_def by blast
  obtain u where u: "u \<in> set (db_rubrics s)" "rubric_of j u" using assms(2) j(1) by (auto simp: rubrics_ok_def)
  have "u = v"
    using u v assms(2) by (auto simp: rubric_of_def rubrics_ok_def dest: distinct_map_eqD)
  then obtain v' where v': "v' \<in> set (db_rubrics s')" "rv_id v' = rv_id v" "rv_owner v' = rv_owner v"
    "rv_assignment v' = rv_assignment v" "rv_total_score v' = rv_total_score v"
    using assms(4) u v(1) unfolding frozen_rubrics_def rubric_of_def by blast
  obtain i' where i': "i' \<in> set (db_items s')" "item_identity i' = item_identity i"
    using assms(3) i(1) unfolding evolves_def by blast
  obtain j' where j': "j' \<in> set (db_jobs s')" "job_snapshot j' = job_snapshot j"
    using assms(3) j(1) unfolding evolves_def by blast
  show ?thesis
    unfolding attempt_score_ok_def
    by (rule bexI [OF _ i'(1)], intro conjI bexI [OF _ j'(1)] bexI [OF _ v'(1)])
      (use i j v i'(2) v'(2-5) snapshot_eq_fields [OF j'(2)] assms(5-7) in \<open>simp_all add: item_identity_def\<close>)
qed

lemma rubrics_ok_step:
  assumes "rubrics_ok s" "evolves s s'" "frozen_rubrics s s'" "distinct (map rv_id (db_rubrics s'))"
    and jobs: "\<And>j. j \<in> set (db_jobs s') \<Longrightarrow> job_snapshot j \<in> job_snapshot ` set (db_jobs s) \<or>
      (\<exists>v \<in> set (db_rubrics s'). rubric_of j v)"
    and calls: "\<And>a. a \<in> set (db_attempts s') \<Longrightarrow> attempt_identity a \<in> attempt_identity ` set (db_attempts s) \<or>
      attempt_score_ok s a"
  shows "rubrics_ok s'"
proof -
  have "\<exists>v \<in> set (db_rubrics s'). rubric_of j v" if "j \<in> set (db_jobs s')" for j
  proof (cases "job_snapshot j \<in> job_snapshot ` set (db_jobs s)")
    case True
    then obtain k where k: "k \<in> set (db_jobs s)" "job_snapshot j = job_snapshot k" by blast
    then obtain v where "v \<in> set (db_rubrics s)" "rubric_of j v"
      using assms(1) snapshot_rubric_of [OF k(2)] by (auto simp: rubrics_ok_def)
    then show ?thesis using assms(3) unfolding frozen_rubrics_def rubric_of_def by metis
  qed (use jobs [OF that] in blast)
  moreover have "attempt_score_ok s' a" if "a \<in> set (db_attempts s')" for a
    using calls [OF that]
  proof
    assume "attempt_identity a \<in> attempt_identity ` set (db_attempts s)"
    then obtain b where b: "b \<in> set (db_attempts s)" "attempt_identity a = attempt_identity b" by blast
    then show ?thesis
      using assms(1) attempt_identity_fields [OF b(2)]
      by (intro score_ok_kept [OF _ assms(1-3), of b]) (auto simp: rubrics_ok_def)
  qed (rule score_ok_kept [OF _ assms(1-3)], simp_all)
  ultimately show ?thesis using assms(4) by (simp add: rubrics_ok_def)
qed

lemma same_inputs_frozen: "same_inputs s s' \<Longrightarrow> frozen_rubrics s s'"
  unfolding same_inputs_def frozen_rubrics_def by auto

lemma rubrics_ok_stays:
  assumes "rubrics_ok s" "grows s s'" "stays s s'"
  shows "rubrics_ok s'"
  by (rule rubrics_ok_step [OF assms(1)])
    (use assms same_inputs_frozen in \<open>auto simp: grows_def stays_def rubrics_ok_def same_inputs_def\<close>)

lemma claim_rubrics:
  assumes "rubrics_ok s" "keys_ok s" "claim_attempt p h aid lease now t s = Inr (s', Some c)"
  shows "rubrics_ok s'"
proof -
  note g = claim_grows [OF assms(2,3)]
  show ?thesis
  proof (rule claim_Inr [OF assms(3)])
    fix j i s1 s2
    assume i: "i \<in> set (db_items s)" and j: "j \<in> set (db_jobs s)" and w: "insert_attempt (new_attempt p h aid now i s) s = Inr s1"
      "write_item i (claimed_item p lease now i) s1 = Inr s2"
      "write_job t (job_status j = JobQueued) j (claimed_job now j) s2 = Inr s'"
    have t: "db_attempts s1 = db_attempts s @ [new_attempt p h aid now i s]" "db_jobs s1 = db_jobs s"
      and sc: "attempt_score_ok s (new_attempt p h aid now i s)" using w(1) by (auto simp: insert_attempt_Inr)
    have "db_jobs s2 = db_jobs s1" using w(2) by (auto simp: write_item_Inr)
    then have "stays s2 s'" by (intro write_job_stays [OF _ w(3)]) (use j t in simp)
    moreover have "stays s1 s2" by (rule write_item_stays [OF w(2)]) (use w(1) i in \<open>simp_all add: insert_attempt_Inr\<close>)
    ultimately have st: "stays s1 s'" using stays_trans by blast
    have calls: "attempt_identity a \<in> attempt_identity ` set (db_attempts s) \<or> attempt_score_ok s a"
      if a: "a \<in> set (db_attempts s')" for a
    proof -
      have "attempt_identity a \<in> attempt_identity ` set (db_attempts s1)" using st a by (auto simp: stays_def)
      then obtain b where b: "attempt_identity a = attempt_identity b" "b \<in> set (db_attempts s) \<or> b = new_attempt p h aid now i s"
        using t by auto
      then show ?thesis using sc attempt_identity_fields [OF b(1)] by (auto simp: attempt_score_ok_def)
    qed
    show ?thesis
      by (rule rubrics_ok_step [OF assms(1) _ _ _ _ calls])
        (use g st t assms(1) same_inputs_frozen in \<open>auto simp: grows_def stays_def rubrics_ok_def same_inputs_def\<close>)
  qed
qed

lemma create_rubrics:
  assumes "rubrics_ok s" "pipeline_ok s" "create_or_get_job env owner assignment payload s = Inr (s', v, b)"
  shows "rubrics_ok s'"
proof (cases "existing_job s owner (jc_key payload)")
  case None
  note g = create_grows [OF assms(2,3)]
  from assms(3) None obtain a r con p snap h m where
    "insert_batch env owner (new_job env owner a r con p snap h m payload) (jc_submissions payload) s = Inr (s', v)"
    by (auto simp: create_or_get_job_def split: if_splits option.splits sum.splits prod.splits)
  then obtain s1 j "is" where w: "insert_job j s = Inr s1" "insert_items is s1 = Inr s'"
    by (auto simp: insert_batch_def split: option.splits)
  have "\<exists>r \<in> set (db_rubrics s). rubric_of j r"
    using w(1) by (fastforce simp: insert_job_def rubric_of_def split: if_splits)
  moreover have t: "db_jobs s' = db_jobs s @ [j]" "db_attempts s' = db_attempts s" "db_rubrics s' = db_rubrics s"
    using insert_job_Inr [OF w(1)] insert_items_Inr [OF w(2)] by simp_all
  ultimately show ?thesis
    by (intro rubrics_ok_step [OF assms(1)])
      (use g assms(1) same_inputs_frozen in \<open>auto simp: grows_def rubrics_ok_def\<close>)
qed (use assms in \<open>auto simp: create_or_get_job_def split: if_splits option.splits\<close>)

lemma save_rubrics:
  assumes "rubrics_ok s" "save_teacher_review_draft rid teacher iid aid c s = Inr (s', v)"
  shows "rubrics_ok s'"
  by (rule save_tables [OF assms(2)]) (use assms(1) in \<open>simp add: rubrics_ok_def attempt_score_ok_def\<close>)

lemma confirm_rubrics:
  assumes "rubrics_ok s" "pipeline_ok s" "confirm_teacher_reviews t teacher refs s = Inr (s', v)"
  shows "rubrics_ok s'"
proof (cases "s' = s")
  case False
  show ?thesis
  proof (rule confirm_core [OF assms(2,3) False])
    assume e: "evolves s s'" and a: "db_attempts s' = db_attempts s"
      and j: "job_snapshot ` set (db_jobs s') \<subseteq> job_snapshot ` set (db_jobs s)"
      and "same_inputs (s\<lparr>db_reviews := db_reviews s'\<rparr>) s'"
    then have r: "db_rubrics s' = db_rubrics s" by (simp add: same_inputs_def)
    show ?thesis
      by (rule rubrics_ok_step [OF assms(1) e]) (use assms(1) r a j in \<open>auto simp: frozen_rubrics_def rubrics_ok_def\<close>)
  qed
qed (use assms(1) in simp)

lemma inputs_rubrics:
  assumes "rubrics_ok s" "inputs_change s s'"
  shows "rubrics_ok s'"
  by (rule rubrics_ok_step [OF assms(1) inputs_evolve [OF assms(2)]])
    (use assms(2) in \<open>auto simp: inputs_change_def frozen_rubrics_def\<close>)

section \<open>The invariant of reachable worlds\<close>

definition world_ok :: "world \<Rightarrow> bool" where
  "world_ok w \<longleftrightarrow> pipeline_ok (w_db w) \<and> calls_ok (w_db w) \<and> rubrics_ok (w_db w) \<and>
     (\<forall>p \<in> set (w_preps w). prep_ok (w_db w) p) \<and> (\<forall>x \<in> set (w_open w). grant_ok (w_db w) x) \<and>
     distinct (map (\<lambda>x. cl_attempt (g_claim x)) (w_open w))"

text \<open>A step that only changes the database.\<close>

lemma world_ok_db:
  assumes "world_ok w" "evolves (w_db w) s" "pipeline_ok s" "calls_ok s" "rubrics_ok s"
  shows "world_ok (w\<lparr>w_db := s\<rparr>)"
  using assms prep_ok_evolves grant_ok_evolves by (auto simp: world_ok_def)

lemma granted_sequence:
  assumes "keys_ok s" "grant_ok s x" "a \<in> set (db_attempts s)" "att_id a = cl_attempt (g_claim x)"
  shows "att_sequence a = cl_sequence (g_claim x)" "att_item a = pre_item (g_prep x)"
    "att_round a = cl_round (g_claim x)" "att_number a = cl_number (g_claim x)"
    "att_request_hash a = cl_request_hash (g_claim x)"
    "att_max_score a = rub_total_score (pre_rubric (g_prep x))"
proof -
  obtain b where b: "b \<in> set (db_attempts s)" "att_id b = cl_attempt (g_claim x)"
    "att_item b = pre_item (g_prep x)" "att_sequence b = cl_sequence (g_claim x)"
    "att_round b = cl_round (g_claim x)" "att_number b = cl_number (g_claim x)"
    "att_request_hash b = cl_request_hash (g_claim x)" "att_max_score b = rub_total_score (pre_rubric (g_prep x))"
    using assms(2) unfolding grant_ok_def Let_def by blast
  have "a = b" using assms(1,3,4) b(1,2) by (auto simp: keys_ok_def dest: distinct_map_eqD)
  then show "att_sequence a = cl_sequence (g_claim x)" "att_item a = pre_item (g_prep x)"
    "att_round a = cl_round (g_claim x)" "att_number a = cl_number (g_claim x)"
    "att_request_hash a = cl_request_hash (g_claim x)"
    "att_max_score a = rub_total_score (pre_rubric (g_prep x))" using b by simp_all
qed

lemma claim_grant_ok:
  assumes "pipeline_ok s" "prep_ok s p" "build_call E p = Inr (g, q, r)"
    and "claim_attempt p (gp_call_hash q) aid lease now t s = Inr (s', Some c)"
  shows "grant_ok s' \<lparr>g_prep = p, g_claim = c, g_request = g, g_prompt = q\<rparr>" "cl_attempt c = aid"
    "aid \<notin> att_id ` set (db_attempts s)"
proof -
  have k: "keys_ok s" using assms(1) by (simp add: pipeline_ok_def)
  have p': "prep_ok s' p" using prep_ok_evolves [OF assms(2)] claim_grows [OF k assms(4)] by (simp add: grows_def)
  show "grant_ok s' \<lparr>g_prep = p, g_claim = c, g_request = g, g_prompt = q\<rparr>" "cl_attempt c = aid"
    "aid \<notin> att_id ` set (db_attempts s)"
    by (rule claim_tables [OF assms(1,4)];
      use p' assms(3) build_call_parts(1) [OF assms(3)] in
        \<open>fastforce simp: grant_ok_def Let_def attempt_unique_def\<close>)+
qed

lemma fail_calls:
  assumes ok: "world_ok w" and x: "x \<in> set (w_open w)" "rn_max_retries E = 2"
    and d: "decide E (g_prep x) (g_claim x) (g_request x) (g_prompt x) res = Inr (Finish f out)"
    and f: "finish_failure (g_claim x) f now t (w_db w) = Inr s'"
  shows "calls_ok s'"
proof (rule failure_calls [OF _ _ f])
  show "pipeline_ok (w_db w)" "calls_ok (w_db w)" using ok by (auto simp: world_ok_def)
  show "\<forall>k. fa_key f = Some k \<longrightarrow> (\<exists>ow j i. k = ProviderResponseKey ow j i (cl_attempt (g_claim x)))"
    using decide_failure(1) [OF d] by (auto simp: response_key_def)
next
  fix a assume "a \<in> set (db_attempts (w_db w))" "att_id a = cl_attempt (g_claim x)" "fa_action f = FailRetry"
  then show "fa_code f = CodeCorrectionRequired \<or> att_sequence a \<le> 2"
    using decide_failure(2) [OF d] granted_sequence(1) [of "w_db w" x a] ok x
    by (auto simp: world_ok_def pipeline_ok_def)
qed

lemma wstep_world_ok:
  assumes st: "wstep w w'" and ok: "world_ok w"
  shows "world_ok w'"
proof -
  have p: "pipeline_ok (w_db w)" and c: "calls_ok (w_db w)" and r: "rubrics_ok (w_db w)"
    and k: "keys_ok (w_db w)" using ok by (auto simp: world_ok_def pipeline_ok_def)
  have p': "pipeline_ok (w_db w')" and e: "evolves (w_db w) (w_db w')"
    using wstep_pipeline_ok [OF st p] wstep_evolves [OF st p] by auto
  from st show ?thesis
  proof cases
    case (create env owner assignment payload s' v b)
    then show ?thesis
      using world_ok_db [OF ok e p'] create_calls [OF p c create(2)] create_rubrics [OF r p create(2)] by simp
  next
    case (control t teacher jid act target s' v)
    then show ?thesis
      using world_ok_db [OF ok e p'] control_calls [OF p c control(2)]
        rubrics_ok_stays [OF r control_grows [OF k control(2)] control_stays [OF control(2) k]] by simp
  next
    case (prepare cf E t iid version q)
    then show ?thesis using ok prepare_prep_ok [OF prepare(2) k] by (simp add: world_ok_def)
  next
    case (claim q E g pr rq aid lease now t s' cl)
    have q: "prep_ok (w_db w) q" using ok claim(2) by (simp add: world_ok_def)
    note G = claim_grant_ok [OF p q claim(3,4)]
    have fresh: "aid \<notin> (\<lambda>x. cl_attempt (g_claim x)) ` set (w_open w)"
    proof
      assume "aid \<in> (\<lambda>x. cl_attempt (g_claim x)) ` set (w_open w)"
      then obtain x where "x \<in> set (w_open w)" "cl_attempt (g_claim x) = aid" by blast
      then obtain a where "a \<in> set (db_attempts (w_db w))" "att_id a = aid"
        using ok unfolding world_ok_def grant_ok_def Let_def by blast
      then show False using G(3) by blast
    qed
    have d: "world_ok (w\<lparr>w_db := s'\<rparr>)"
      by (rule world_ok_db [OF ok]) (use e p' claim claim_calls [OF p c claim(4)] claim_rubrics [OF r k claim(4)] in simp_all)
    show ?thesis using d G fresh by (simp add: world_ok_def claim(1))
  next
    case (succeed x E res co now t s')
    have "\<exists>ow j i. co_key co = ProviderResponseKey ow j i (cl_attempt (g_claim x))"
      using decide_key [OF succeed(4)] by (simp add: response_key_def)
    then show ?thesis
      using succeed world_ok_db [OF ok e p'] success_calls [OF p c succeed(5)]
        rubrics_ok_stays [OF r finish_success_grows [OF k succeed(5)] finish_success_stays [OF succeed(5)]] by simp
  next
    case (fail x E res f out now t s')
    then show ?thesis
      using world_ok_db [OF ok e p'] fail_calls [OF ok fail(2-5)]
        rubrics_ok_stays [OF r finish_failure_grows [OF k fail(5)] finish_failure_stays [OF fail(5)]] by simp
  next
    case (expire now t limit s' n)
    have "stays (w_db w) s'" using expire(2) expire_each_stays unfolding expire_stale_attempts_def by blast
    then show ?thesis
      using expire world_ok_db [OF ok e p'] expire_stale_calls [OF p c expire(2)]
        rubrics_ok_stays [OF r expire_stale_grows [OF k expire(2)]] by simp
  next
    case (save rid teacher iid aid x s' rv)
    then show ?thesis using world_ok_db [OF ok e p'] save_calls [OF c save(2)] save_rubrics [OF r save(2)] by simp
  next
    case (confirm t teacher refs s' rvs)
    then show ?thesis
      using world_ok_db [OF ok e p'] confirm_calls [OF p c confirm(2)] confirm_rubrics [OF r p confirm(2)] by simp
  next
    case (inputs s')
    then show ?thesis using world_ok_db [OF ok e p'] inputs_calls [OF c] inputs_rubrics [OF r] by simp
  qed
qed

lemma reach_world_ok: "reach w \<Longrightarrow> world_ok w"
proof (induction rule: reach.induct)
  case (start s)
  then show ?case
    using empty_pipeline_ok [OF start(1)]
    by (simp add: world_ok_def empty_pipeline_def calls_ok_def later_ok_def rubrics_ok_def)
qed (rule wstep_world_ok)

end
