(* ===== verification/Pipeline_Finish.thy ===== *)
theory Pipeline_Finish
  imports Pipeline_World
begin

text \<open>
  The end of a call: while a worker's lease is valid, the triggers and constraints of the database
  accept whatever the runner decided, so that a paid answer is never lost to a rejected write.
\<close>

section \<open>The three writes\<close>

lemma numbers_distinct:
  assumes "numbers_ok s"
  shows "distinct (map att_number (calls_of i s))" "distinct (map att_sequence (round_calls i r s))"
  using assms unfolding numbers_ok_def by (metis distinct_upt)+

lemma same_number:
  assumes "numbers_ok s" "a \<in> set (db_attempts s)" "b \<in> set (db_attempts s)" "att_item b = att_item a"
  shows "att_number b = att_number a \<Longrightarrow> b = a"
    "att_round b = att_round a \<Longrightarrow> att_sequence b = att_sequence a \<Longrightarrow> b = a"
proof -
  assume r: "att_number b = att_number a"
  show "b = a"
    by (rule distinct_map_eqD [OF numbers_distinct(1) [OF assms(1), of "att_item a"]])
      (use assms r in \<open>auto simp: calls_of_def\<close>)
next
  assume r: "att_round b = att_round a" "att_sequence b = att_sequence a"
  show "b = a"
    by (rule distinct_map_eqD [OF numbers_distinct(2) [OF assms(1), of "att_item a" "att_round a"]])
      (use assms r in \<open>auto simp: in_round_calls\<close>)
qed

lemma finished_attempt_unique:
  assumes ok: "pipeline_ok s" "calls_ok s" and a: "a \<in> set (db_attempts s)"
    and a': "attempt_identity a' = attempt_identity a" "att_status a' \<noteq> AttRunning" "own_key a'"
  shows "attempt_unique (filter (\<lambda>b. att_id b \<noteq> att_id a) (db_attempts s)) a'"
proof -
  have n: "numbers_ok s" using ok(1) by (simp add: pipeline_ok_def)
  note f = attempt_identity_fields [OF a'(1)]
  have "\<not> (att_raw_key a' \<noteq> None \<and> att_raw_key b = att_raw_key a')"
    if b: "b \<in> set (db_attempts s)" "att_id b \<noteq> att_id a" for b
  proof
    assume k: "att_raw_key a' \<noteq> None \<and> att_raw_key b = att_raw_key a'"
    have "own_key b" using ok(2) b(1) by (simp add: calls_ok_def)
    then show False using k a'(3) f b(2) by (auto simp: own_key_def)
  qed
  then show ?thesis
    using same_number [OF n a] a'(2) f by (fastforce simp: attempt_unique_def att_key_def)
qed

lemma reconcile_defined:
  assumes n: "length (items_of (job_id j) s) = job_expected j" and j: "check_job j" "job_status j \<in> {JobRunning, JobPaused, JobCancelled}"
  shows "\<exists>s'. reconcile_job now t j s = Inr s'"
proof -
  let ?is = "items_of (job_id j) s"
  define new where "new = (reconciled_status ?is now j)\<lparr>job_state_version := job_state_version j + 1, job_updated := now\<rparr>"
  have snap: "job_snapshot new = job_snapshot j"
    by (cases j) (simp add: new_def reconciled_status_def job_snapshot_def)
  have st: "job_status new = job_status j \<or> job_status j \<in> {JobRunning, JobPaused} \<and>
      job_status new \<in> {JobNeedsReview, JobFailed, JobCancelled}"
    using j(2) by (auto simp: new_def reconciled_status_def)
  have idle: "\<not> (\<exists>i \<in> set (db_items s). item_job i = job_id new \<and> item_owner i = job_owner new \<and> item_active i)"
    if "job_status new = JobNeedsReview"
  proof -
    have "count_status ItemQueued ?is = 0 \<and> count_status ItemRunning ?is = 0"
      using that j(2) by (auto simp: new_def reconciled_status_def split: if_splits)
    then show ?thesis
      using snapshot_eq_fields(1) [OF snap] by (auto simp: count_status_def count_where_0 items_of_def item_active_def)
  qed
  have p: "preserve_active_status t s j new = new"
    unfolding preserve_active_status_def using idle by (metis (no_types, lifting))
  have chk: "check_job new"
    using j by (auto simp: check_job_def new_def reconciled_status_def)
  have "write_job t (job_status new \<noteq> job_status j) j new s = Inr (s\<lparr>db_jobs := replace_row job_id j new (db_jobs s)\<rparr>)"
    using st snap chk by (auto simp: write_job_def p protect_job_snapshot_def job_transition_def Let_def)
  then show ?thesis using n by (simp add: reconcile_job_def Let_def new_def)
qed

lemma running_job_status:
  assumes "pipeline_ok s" "i \<in> set (db_items s)" "j \<in> set (db_jobs s)" "item_job i = job_id j" "item_status i = ItemRunning"
  shows "job_status j \<in> {JobRunning, JobPaused, JobCancelled}"
proof -
  have "active_in s (job_id j)" using assms(2,4,5) by (auto simp: active_in_def item_active_def)
  then show ?thesis
    using assms by (cases "job_status j") (auto simp: pipeline_ok_def status_ok_def)
qed

lemma close_defined:
  assumes ok: "pipeline_ok s" "calls_ok s" "rubrics_ok s"
    and a: "a \<in> set (db_attempts s)" and i: "i \<in> set (db_items s)" and j: "j \<in> set (db_jobs s)"
    and ij: "item_job i = job_id j" "item_status i = ItemRunning" "att_status a = AttRunning"
    and a': "attempt_identity a' = attempt_identity a" "att_status a' \<noteq> AttRunning" "own_key a'" "check_attempt a'"
    and i': "protect_job_item i i' = Inr ()" "check_item i'"
  shows "\<exists>s1 s2 s3. write_attempt a a' s = Inr s1 \<and> write_item i i' s1 = Inr s2 \<and> reconcile_job now t j s2 = Inr s3"
proof -
  note f = attempt_identity_fields [OF a'(1)]
  have sc: "attempt_score_ok s a'"
    using ok(3) a f by (auto simp: rubrics_ok_def attempt_score_ok_def)
  have w1: "write_attempt a a' s = Inr (s\<lparr>db_attempts := replace_row att_id a a' (db_attempts s)\<rparr>)"
    using ij(3) a' sc finished_attempt_unique [OF ok(1,2) a a'(1-3)]
    by (simp add: write_attempt_def protect_attempt_history_def)
  let ?s1 = "s\<lparr>db_attempts := replace_row att_id a a' (db_attempts s)\<rparr>"
  let ?s2 = "?s1\<lparr>db_items := replace_row item_id i i' (db_items s)\<rparr>"
  have w2: "write_item i i' ?s1 = Inr ?s2" using i' by (simp add: write_item_def)
  have K: "distinct (map item_id (db_items s))" using ok(1) by (simp add: pipeline_ok_def keys_ok_def)
  have "map item_job (replace_row item_id i i' (db_items s)) = map item_job (db_items s)"
    by (rule replace_same [OF K i]) (use protect_item_identity [OF i'(1)] in \<open>simp add: item_identity_def\<close>)
  then have "map item_job (items_of (job_id j) ?s2) = map item_job (items_of (job_id j) s)"
    unfolding items_of_def by simp (rule map_filter_same, assumption, simp)
  then have "length (items_of (job_id j) ?s2) = length (items_of (job_id j) s)" by (metis length_map)
  also have "\<dots> = job_expected j"
    using ok(1) j by (simp add: items_of_def pipeline_ok_def counts_ok_def count_where_def)
  finally have "\<exists>s3. reconcile_job now t j ?s2 = Inr s3"
    by (rule reconcile_defined)
      (use ok(1) j running_job_status [OF ok(1) i j ij(1,2)] in \<open>auto simp: pipeline_ok_def checks_ok_def\<close>)
  then show ?thesis using w1 w2 by blast
qed

section \<open>What the runner decides fits the rows\<close>

text \<open>
  A provider's result as the adapters build it: the usage passed its validator, and the cost, when
  present, was computed from a price table with a named tariff.
\<close>

definition valid_provider_result :: "provider_result \<Rightarrow> bool" where
  "valid_provider_result r \<longleftrightarrow> validate_usage (res_usage r) \<and>
     (case res_cost r of None \<Rightarrow> True | Some c \<Rightarrow> dec_le dec_zero (cost_amount c) \<and> is_currency (cost_currency c) \<and>
        \<not> blank (cost_tariff_version c))"

definition valid_answer :: "call_result \<Rightarrow> bool" where
  "valid_answer res \<longleftrightarrow> (case res of CallOk r \<Rightarrow> valid_provider_result r | _ \<Rightarrow> True)"

lemma running_attempt_fields:
  assumes "calls_ok s" "pipeline_ok s" "a \<in> set (db_attempts s)" "att_status a = AttRunning"
  shows "check_attempt a" "att_finished a = None" "att_raw_key a = None" "att_raw_sha256 a = None"
proof -
  show "check_attempt a" using assms(2,3) by (simp add: pipeline_ok_def checks_ok_def)
  then show "att_finished a = None" "att_raw_key a = None" "att_raw_sha256 a = None"
    using assms(1,3,4) by (auto simp: check_attempt_def calls_ok_def)
qed

lemma succeeded_identity: "attempt_identity (succeeded_attempt x now a) = attempt_identity a"
  by (cases a) (auto simp: attempt_identity_def succeeded_attempt_def with_provider_result_def split: option.split)

lemma failed_identity: "attempt_identity (failed_attempt f now a) = attempt_identity a"
  by (cases a) (auto simp: attempt_identity_def failed_attempt_def with_provider_result_def split: option.split)

lemma succeeded_check:
  assumes "check_attempt a" "valid_provider_result (co_provider x)"
    and "dec_le dec_zero (vr_total_score (co_result x))" "dec_le (vr_total_score (co_result x)) (att_max_score a)"
    and "vr_total_score (co_result x) = dec_max dec_zero (dec_sub (vr_subtotal (co_result x)) (vr_deduction_total (co_result x)))"
  shows "check_attempt (succeeded_attempt x now a)"
proof -
  have "dec_eq d d" for d by (simp add: dec_eq_def)
  then show ?thesis
    using assms(1-4) assms(5) [symmetric]
    by (simp add: check_attempt_def succeeded_attempt_def with_provider_result_def valid_provider_result_def
        split: option.splits)
qed

lemma failed_check:
  assumes "check_attempt a" "att_finished a = None"
    and "fa_key f = None \<longleftrightarrow> fa_sha256 f = None" "\<And>r. fa_provider f = Some r \<Longrightarrow> valid_provider_result r"
  shows "check_attempt (failed_attempt f now a)"
  using assms
  by (cases "fa_provider f")
    (auto simp: check_attempt_def failed_attempt_def with_provider_result_def valid_provider_result_def split: option.splits)

lemma reviewed_item_ok:
  assumes "check_item i" "item_status i = ItemRunning"
  shows "protect_job_item i (reviewed_item now i) = Inr ()" "check_item (reviewed_item now i)"
  using assms by (simp_all add: protect_job_item_def reviewed_item_def item_identity_def item_transition_def check_item_def)

lemma failed_item_ok:
  assumes "check_item i" "item_status i = ItemRunning"
  shows "protect_job_item i (failed_item f now i) = Inr ()" "check_item (failed_item f now i)"
  using assms
  by (auto simp: protect_job_item_def failed_item_def item_identity_def item_transition_def check_item_def Let_def
      split: failure_action.split)

lemma decide_finish_fields:
  assumes "decide E p c g q res = Inr (Finish f out)" "valid_answer res"
  shows "fa_key f = None \<longleftrightarrow> fa_sha256 f = None" "fa_provider f = Some r \<Longrightarrow> valid_provider_result r"
proof -
  have "(fa_key f = None \<longleftrightarrow> fa_sha256 f = None) \<and> (\<forall>r. fa_provider f = Some r \<longrightarrow> valid_provider_result r)"
  proof (cases res)
    case (CallOk r)
    then obtain oc where "assess_grade_response (rn_unicode E) (rn_errors E) (request_hash E) (raw_result E (res_output_text r)) g (prompt_call q) = Inr oc"
      "decide_outcome p c r oc = Finish f out"
      using assms by (cases "assess_grade_response (rn_unicode E) (rn_errors E) (request_hash E) (raw_result E (res_output_text r)) g (prompt_call q)")
        (auto simp: decide_def decide_answer_def split: if_splits)
    then show ?thesis
      using assms(2) CallOk
      by (auto simp: decide_outcome_def Let_def valid_answer_def split: outcome_status.splits option.splits)
  next
    case (CallFailed e)
    then show ?thesis using assms(1) by (auto simp: decide_def decide_error_def Let_def split: option.splits)
  qed (use assms in \<open>auto simp: decide_def url_rejected_failure_def\<close>)
  then show "fa_key f = None \<longleftrightarrow> fa_sha256 f = None" "fa_provider f = Some r \<Longrightarrow> valid_provider_result r" by blast+
qed

lemma decide_complete_fields:
  assumes "decide E p c g q res = Inr (Complete x)" "valid_answer res"
  obtains r where "res = CallOk r" "co_provider x = r" "valid_provider_result r" "co_sha256 x = res_raw_sha256 r"
    "validate_grade_response (rn_unicode E) (rn_errors E) (raw_result E (res_output_text r)) g = Inr (co_result x)"
    "gp_base_request_hash q = request_hash E g"
proof (cases res)
  case (CallOk r)
  then obtain oc where oc: "assess_grade_response (rn_unicode E) (rn_errors E) (request_hash E) (raw_result E (res_output_text r)) g (prompt_call q) = Inr oc"
    and d: "decide_outcome p c r oc = Complete x"
    using assms by (cases "assess_grade_response (rn_unicode E) (rn_errors E) (request_hash E) (raw_result E (res_output_text r)) g (prompt_call q)")
      (auto simp: decide_def decide_answer_def split: if_splits)
  from oc show ?thesis
  proof (cases rule: assess_cases)
    case (accepted v)
    then show ?thesis
      using CallOk d assms(2) by (intro that) (auto simp: decide_outcome_def Let_def valid_answer_def prompt_call_def)
  qed (use d in \<open>simp_all add: decide_outcome_def Let_def\<close>)
qed (use assms in \<open>auto simp: decide_def decide_error_def Let_def split: option.splits\<close>)

lemma finish_success_defined:
  assumes ok: "world_ok w" and x: "x \<in> set (w_open w)" and L: "locate_claim (g_claim x) (w_db w) = Inr loc"
    and d: "decide E (g_prep x) (g_claim x) (g_request x) (g_prompt x) res = Inr (Complete co)" "valid_answer res"
  shows "\<exists>s'. finish_success (g_claim x) co now t (w_db w) = Inr s'"
proof -
  let ?s = "w_db w"
  obtain j i a where loc: "loc = (j, i, a)" by (cases loc)
  note l = locate_claim_Inr [OF L [unfolded loc]]
  have S: "pipeline_ok ?s" "calls_ok ?s" "rubrics_ok ?s" "grant_ok ?s x" "keys_ok ?s"
    using ok x by (auto simp: world_ok_def pipeline_ok_def)
  obtain r where r: "co_provider co = r" "valid_provider_result r"
    and v: "validate_grade_response (rn_unicode E) (rn_errors E) (raw_result E (res_output_text r)) (g_request x) = Inr (co_result co)"
    by (rule decide_complete_fields [OF d])
  have q: "greq_rubric (g_request x) = pre_rubric (g_prep x)" "prep_ok ?s (g_prep x)"
    using S(4) by (auto simp: grant_ok_def Let_def)
  then obtain cf raw where "validate_rubric cf raw = Inr (greq_rubric (g_request x))" by (auto simp: prep_ok_def)
  note row = accepted_row [OF this v]
  have m: "att_max_score a = rub_total_score (greq_rubric (g_request x))"
    using granted_sequence(6) [OF S(5,4) l(1,4)] q(1) by simp
  have "own_key (succeeded_attempt co now a)"
    using decide_key [OF d(1)] l(4)
    by (auto simp: own_key_def succeeded_attempt_def with_provider_result_def response_key_def split: option.split)
  moreover have "check_attempt (succeeded_attempt co now a)"
    by (rule succeeded_check [OF running_attempt_fields(1) [OF S(2,1) l(1,8)]])
      (use r m row [THEN conjunct1] row [THEN conjunct2, THEN conjunct1] row [THEN conjunct2, THEN conjunct2] in \<open>simp_all only:\<close>)
  moreover have "check_item i" using S(1) l(2) by (simp add: pipeline_ok_def checks_ok_def)
  ultimately obtain s1 s2 s3 where "write_attempt a (succeeded_attempt co now a) ?s = Inr s1"
    "write_item i (reviewed_item now i) s1 = Inr s2" "reconcile_job now t j s2 = Inr s3"
    using close_defined [OF S(1-3) l(1-3,7,9,8) succeeded_identity _ _ _ reviewed_item_ok [OF _ l(9)], of co now]
    by (fastforce simp: succeeded_attempt_def)
  then show ?thesis by (simp add: finish_success_def L loc)
qed

lemma finish_failure_defined:
  assumes ok: "world_ok w" and x: "x \<in> set (w_open w)" and L: "locate_claim (g_claim x) (w_db w) = Inr loc"
    and d: "decide E (g_prep x) (g_claim x) (g_request x) (g_prompt x) res = Inr (Finish f out)" "valid_answer res"
  shows "\<exists>s'. finish_failure (g_claim x) f now t (w_db w) = Inr s'"
proof -
  let ?s = "w_db w"
  obtain j i a where loc: "loc = (j, i, a)" by (cases loc)
  note l = locate_claim_Inr [OF L [unfolded loc]]
  have S: "pipeline_ok ?s" "calls_ok ?s" "rubrics_ok ?s" "grant_ok ?s x" "keys_ok ?s"
    using ok x by (auto simp: world_ok_def pipeline_ok_def)
  note rf = running_attempt_fields [OF S(2,1) l(1,8)]
  have "own_key (failed_attempt f now a)"
    using decide_failure(1) [OF d(1)] l(4) by (auto simp: own_key_def response_key_def)
  moreover have "check_attempt (failed_attempt f now a)"
    by (rule failed_check [OF rf(1,2)]) (use decide_finish_fields [OF d] in auto)
  moreover have "check_item i" using S(1) l(2) by (simp add: pipeline_ok_def checks_ok_def)
  ultimately obtain s1 s2 s3 where "write_attempt a (failed_attempt f now a) ?s = Inr s1"
    "write_item i (failed_item f now i) s1 = Inr s2" "reconcile_job now t j s2 = Inr s3"
    using close_defined [OF S(1-3) l(1-3,7,9,8) failed_identity _ _ _ failed_item_ok [OF _ l(9)], of f now]
    by fastforce
  then show ?thesis by (simp add: finish_failure_def L loc)
qed

section \<open>Recovery\<close>

lemma expired_rows:
  assumes "calls_ok s" "pipeline_ok s" "a \<in> set (db_attempts s)" "att_status a = AttRunning"
    and "i \<in> set (db_items s)" "item_status i = ItemRunning"
  shows "attempt_identity (expired_attempt now a) = attempt_identity a" "own_key (expired_attempt now a)"
    "check_attempt (expired_attempt now a)" "protect_job_item i (expired_item now i) = Inr ()" "check_item (expired_item now i)"
proof -
  note f = running_attempt_fields [OF assms(1-4)]
  show "attempt_identity (expired_attempt now a) = attempt_identity a"
    by (cases a) (simp add: attempt_identity_def expired_attempt_def)
  show "own_key (expired_attempt now a)" using f(3) by (simp add: own_key_def expired_attempt_def)
  show "check_attempt (expired_attempt now a)" using f by (auto simp: check_attempt_def expired_attempt_def split: option.splits)
  have "check_item i" using assms(2,5) by (simp add: pipeline_ok_def checks_ok_def)
  then show "protect_job_item i (expired_item now i) = Inr ()" "check_item (expired_item now i)"
    using assms(6) by (simp_all add: protect_job_item_def expired_item_def item_identity_def item_transition_def check_item_def)
qed

text \<open>What recovery does to the tables, for the papers named by \<open>ids\<close>.\<close>

definition expire_row :: "time \<Rightarrow> time \<Rightarrow> uuid set \<Rightarrow> item_row \<Rightarrow> item_row" where
  "expire_row now t ids k = (if item_id k \<in> ids \<and> item_lease_expired t k then expired_item now k else k)"

definition expire_call :: "time \<Rightarrow> time \<Rightarrow> uuid set \<Rightarrow> item_row list \<Rightarrow> attempt_row \<Rightarrow> attempt_row" where
  "expire_call now t ids items a = (if att_status a = AttRunning \<and>
     (\<exists>i \<in> set items. item_id i = att_item a \<and> item_id i \<in> ids \<and> item_lease_expired t i)
   then expired_attempt now a else a)"

lemma expired_item_simps [simp]:
  "item_id (expired_item now i) = item_id i" "\<not> item_lease_expired t (expired_item now i)"
  by (simp_all add: expired_item_def item_lease_expired_def)

lemma expire_row_twice: "expire_row now t B (expire_row now t A k) = expire_row now t (A \<union> B) k"
  by (auto simp: expire_row_def)

lemma expire_call_twice:
  "expire_call now t B (map (expire_row now t A) is) (expire_call now t A is a) = expire_call now t (A \<union> B) is a"
proof (cases "att_status a = AttRunning \<and> (\<exists>i \<in> set is. item_id i = att_item a \<and> item_id i \<in> A \<and> item_lease_expired t i)")
  case True
  then have "expire_call now t A is a = expired_attempt now a" "expire_call now t (A \<union> B) is a = expired_attempt now a"
    by (auto simp: expire_call_def)
  then show ?thesis by (simp add: expire_call_def expired_attempt_def)
next
  case False
  then have a: "expire_call now t A is a = a" by (auto simp: expire_call_def)
  have "(\<exists>i \<in> set (map (expire_row now t A) is). item_id i = att_item a \<and> item_id i \<in> B \<and> item_lease_expired t i) \<longleftrightarrow>
      (\<exists>i \<in> set is. item_id i = att_item a \<and> item_id i \<in> A \<union> B \<and> item_lease_expired t i)"
    if "att_status a = AttRunning"
    using False that by (auto simp: expire_row_def split: if_splits)
  then show ?thesis unfolding a by (auto simp: expire_call_def)
qed

lemma expire_one_defined:
  assumes ok: "pipeline_ok s" "calls_ok s" "rubrics_ok s"
    and c: "(item_id c, item_job c) \<in> set (map (\<lambda>i. (item_id i, item_job i)) (db_items s))"
  shows "\<exists>s' b. expire_one now t c s = Inr (s', b) \<and> db_items s' = map (expire_row now t {item_id c}) (db_items s) \<and>
    db_attempts s' = map (expire_call now t {item_id c} (db_items s)) (db_attempts s)"
proof -
  have K: "distinct (map item_id (db_items s))" "distinct (map att_id (db_attempts s))"
    using ok(1) by (auto simp: pipeline_ok_def keys_ok_def)
  obtain n where n: "n \<in> set (db_items s)" "item_id n = item_id c" "item_job n = item_job c" using c by auto
  have "(item_job n, item_owner n) \<in> set (job_refs s)" using ok(1) n(1) by (auto simp: pipeline_ok_def links_ok_def)
  then obtain j where fj: "find_job (item_job c) s = Some j"
    using n(3) by (cases "find_job (item_job c) s") (auto simp: find_job_def find_None_iff job_refs_def)
  then have j: "j \<in> set (db_jobs s)" "job_id j = item_job c" by (auto simp: find_job_def dest: find_SomeD)
  show ?thesis
  proof (cases "find (\<lambda>i. item_id i = item_id c \<and> item_lease_expired t i) (db_items s)")
    case None
    then have none: "\<not> (item_id i = item_id c \<and> item_lease_expired t i)" if "i \<in> set (db_items s)" for i
      using that by (auto simp: find_None_iff)
    have "expire_one now t c s = Inr (s, False)" by (simp add: expire_one_def fj None)
    moreover have "map (expire_row now t {item_id c}) (db_items s) = db_items s"
      by (rule map_idI) (use none in \<open>auto simp: expire_row_def\<close>)
    moreover have "map (expire_call now t {item_id c} (db_items s)) (db_attempts s) = db_attempts s"
      by (rule map_idI) (use none in \<open>auto simp: expire_call_def\<close>)
    ultimately show ?thesis by auto
  next
    case (Some i)
    then have i: "i \<in> set (db_items s)" "item_id i = item_id c" "item_status i = ItemRunning" "item_lease_expired t i"
      by (auto dest: find_SomeD simp: item_lease_expired_def)
    have ij: "item_job i = job_id j" using distinct_map_eqD [OF K(1) i(1) n(1)] i(2) n(2,3) j(2) by simp
    have one: "count_where (is_running_call (item_id i)) (db_attempts s) = 1"
      using ok(1) i(1,3) by (simp only: pipeline_ok_def leases_ok_def if_True simp_thms)
    then have "0 < count_where (is_running_call (item_id i)) (db_attempts s)" by simp
    then obtain b where b: "b \<in> set (db_attempts s)" "att_item b = item_id i" "att_status b = AttRunning"
      by (auto simp: count_where_pos is_running_call_def)
    then obtain a where fa: "running_attempt (item_id i) s = Some a"
      by (cases "running_attempt (item_id i) s") (auto simp: running_attempt_def find_None_iff)
    then have a: "a \<in> set (db_attempts s)" "att_status a = AttRunning" "att_item a = item_id i"
      by (auto simp: running_attempt_def dest: find_SomeD)
    note x = expired_rows [OF ok(2,1) a(1,2) i(1,3), of now]
    obtain s1 s2 s3 where w: "write_attempt a (expired_attempt now a) s = Inr s1"
      "write_item i (expired_item now i) s1 = Inr s2" "reconcile_job now t j s2 = Inr s3"
      using close_defined [OF ok a(1) i(1) j(1) ij i(3) a(2) x(1) _ x(2-5), of now t] by (auto simp: expired_attempt_def)
    have e: "expire_one now t c s = Inr (s3, True)" by (simp add: expire_one_def fj Some fa w)
    have same: "k = i" if "k \<in> set (db_items s)" "item_id k = item_id c" for k
      using distinct_map_eqD [OF K(1) that(1) i(1)] that(2) i(2) by simp
    have only: "k = a" if "k \<in> set (db_attempts s)" "att_status k = AttRunning" "att_item k = item_id c" for k
      by (rule count_where_unique [OF one that(1) a(1)]) (use that a i(2) in \<open>simp_all add: is_running_call_def\<close>)
    have eq: "k = a" if "k \<in> set (db_attempts s)" "att_id k = att_id a" for k
      by (rule distinct_map_eqD [OF K(2) that(1) a(1) that(2)])
    have "db_items s3 = map (expire_row now t {item_id c}) (db_items s)"
      unfolding close_tables(1) [OF w] replace_row_def update_where_def
    proof (rule map_cong [OF refl])
      fix k assume k: "k \<in> set (db_items s)"
      show "(if item_id k = item_id i then expired_item now i else k) = expire_row now t {item_id c} k"
      proof (cases "item_id k = item_id c")
        case True
        then have "k = i" by (rule same [OF k])
        then show ?thesis using i by (simp add: expire_row_def)
      qed (use i(2) in \<open>simp add: expire_row_def\<close>)
    qed
    moreover have "db_attempts s3 = map (expire_call now t {item_id c} (db_items s)) (db_attempts s)"
      unfolding close_tables(2) [OF w] replace_row_def update_where_def
    proof (rule map_cong [OF refl])
      fix k assume k: "k \<in> set (db_attempts s)"
      show "(if att_id k = att_id a then expired_attempt now a else k) = expire_call now t {item_id c} (db_items s) k"
      proof (cases "k = a")
        case True
        then show ?thesis using a i by (auto simp: expire_call_def)
      next
        case False
        then have "att_id k \<noteq> att_id a" "\<not> (att_status k = AttRunning \<and> att_item k = item_id c)"
          using only [OF k] eq [OF k] by blast+
        then show ?thesis by (auto simp: expire_call_def)
      qed
    qed
    ultimately show ?thesis using e by blast
  qed
qed

lemma expire_each_defined:
  assumes "pipeline_ok s" "calls_ok s" "rubrics_ok s"
    and "set (map (\<lambda>i. (item_id i, item_job i)) cs) \<subseteq> set (map (\<lambda>i. (item_id i, item_job i)) (db_items s))"
  shows "\<exists>s' m. expire_each now t cs s n = Inr (s', m) \<and>
    db_items s' = map (expire_row now t (item_id ` set cs)) (db_items s) \<and>
    db_attempts s' = map (expire_call now t (item_id ` set cs) (db_items s)) (db_attempts s)"
  using assms
proof (induction cs arbitrary: s n)
  case Nil
  show ?case by (auto simp: expire_row_def expire_call_def intro!: map_idI [symmetric])
next
  case (Cons c cs)
  have c: "(item_id c, item_job c) \<in> set (map (\<lambda>i. (item_id i, item_job i)) (db_items s))"
    using Cons.prems(4) by auto
  obtain s1 b where 1: "expire_one now t c s = Inr (s1, b)"
    "db_items s1 = map (expire_row now t {item_id c}) (db_items s)"
    "db_attempts s1 = map (expire_call now t {item_id c} (db_items s)) (db_attempts s)"
    using expire_one_defined [OF Cons.prems(1-3) c] by blast
  note k = expire_one_keeps [OF Cons.prems(1) 1(1) c] and g = expire_one_grows [OF _ 1(1)]
  have r: "rubrics_ok s1"
    by (rule rubrics_ok_stays [OF Cons.prems(3) g expire_one_stays [OF 1(1)]])
      (use Cons.prems(1) in \<open>simp add: pipeline_ok_def\<close>)
  have m: "set (map (\<lambda>i. (item_id i, item_job i)) cs) \<subseteq> set (map (\<lambda>i. (item_id i, item_job i)) (db_items s1))"
    using Cons.prems(4) identity_links [OF k(2)] by auto
  obtain s' q where 2: "expire_each now t cs s1 (if b then n + 1 else n) = Inr (s', q)"
    "db_items s' = map (expire_row now t (item_id ` set cs)) (db_items s1)"
    "db_attempts s' = map (expire_call now t (item_id ` set cs) (db_items s1)) (db_attempts s1)"
    using Cons.IH [OF k(1) expire_one_calls [OF Cons.prems(1,2) 1(1)] r m, of "if b then n + 1 else n"] by blast
  have "expire_each now t (c # cs) s n = Inr (s', q)" using 1(1) 2(1) by simp
  moreover have "db_items s' = map (expire_row now t (item_id ` set (c # cs))) (db_items s)"
    unfolding 2(2) 1(2) by (simp add: expire_row_twice comp_def)
  moreover have "db_attempts s' = map (expire_call now t (item_id ` set (c # cs)) (db_items s)) (db_attempts s)"
    unfolding 2(3) 1(2,3) by (simp add: expire_call_twice comp_def)
  ultimately show ?case by blast
qed

lemma expire_stale_defined:
  assumes "pipeline_ok s" "calls_ok s" "rubrics_ok s" "length (filter (item_lease_expired t) (db_items s)) \<le> limit"
  shows "\<exists>s' n. expire_stale_attempts now t limit s = Inr (s', n) \<and>
    db_items s' = map (\<lambda>i. if item_lease_expired t i then expired_item now i else i) (db_items s) \<and>
    db_attempts s' = map (\<lambda>a. if att_status a = AttRunning \<and>
        (\<exists>i \<in> set (db_items s). item_id i = att_item a \<and> item_lease_expired t i)
      then expired_attempt now a else a) (db_attempts s)"
proof -
  let ?cs = "sort_key (\<lambda>i. the (item_lease_expires i)) (sort_key item_id (filter (item_lease_expired t) (db_items s)))"
  have t: "take limit ?cs = ?cs" using assms(4) by simp
  have "set (map (\<lambda>i. (item_id i, item_job i)) ?cs) \<subseteq> set (map (\<lambda>i. (item_id i, item_job i)) (db_items s))" by auto
  from expire_each_defined [OF assms(1-3) this, of now t 0]
  obtain s' n where e: "expire_each now t ?cs s 0 = Inr (s', n)"
    "db_items s' = map (expire_row now t (item_id ` set ?cs)) (db_items s)"
    "db_attempts s' = map (expire_call now t (item_id ` set ?cs) (db_items s)) (db_attempts s)" by blast
  have "db_items s' = map (\<lambda>i. if item_lease_expired t i then expired_item now i else i) (db_items s)"
    unfolding e(2) by (rule map_cong) (auto simp: expire_row_def)
  moreover have "db_attempts s' = map (\<lambda>a. if att_status a = AttRunning \<and>
      (\<exists>i \<in> set (db_items s). item_id i = att_item a \<and> item_lease_expired t i)
    then expired_attempt now a else a) (db_attempts s)"
    unfolding e(3) by (rule map_cong) (auto simp: expire_call_def)
  ultimately show ?thesis using e(1) t by (simp add: expire_stale_attempts_def)
qed

end
