(* ===== verification/Pipeline_Concurrency.thy ===== *)
theory Pipeline_Concurrency
  imports Pipeline_World
begin

text \<open>
  How many calls run at once: a claim counts the running calls of the provider under an advisory
  lock, and no other transaction starts one, so the limit of the batch snapshots holds in every
  reachable world.
\<close>

lemma find_by_key:
  assumes "distinct (map k rs)" "r \<in> set rs" "k r = x"
  shows "find (\<lambda>y. k y = x) rs = Some r"
  using find_key [OF assms(1,2)] assms(3) by simp

text \<open>The provider of a call never changes.\<close>

lemma attempt_provider_kept:
  assumes ok: "pipeline_ok s" "pipeline_ok s'" "evolves s s'" and i: "i \<in> set (db_items s)" "item_id i = att_item a"
    and same: "att_item b = att_item a"
  shows "attempt_provider s' b = attempt_provider s a"
proof -
  have K: "distinct (map item_id (db_items s))" "distinct (map job_id (db_jobs s))"
    "distinct (map item_id (db_items s'))" "distinct (map job_id (db_jobs s'))"
    using ok(1,2) by (auto simp: pipeline_ok_def keys_ok_def)
  have "(item_job i, item_owner i) \<in> set (job_refs s)" using ok(1) i(1) by (auto simp: pipeline_ok_def links_ok_def)
  then obtain j where j: "j \<in> set (db_jobs s)" "job_id j = item_job i" by (auto simp: job_refs_def)
  obtain i' where i': "i' \<in> set (db_items s')" "item_identity i' = item_identity i"
    using ok(3) i(1) unfolding evolves_def by blast
  obtain j' where j': "j' \<in> set (db_jobs s')" "job_snapshot j' = job_snapshot j"
    using ok(3) j(1) unfolding evolves_def by blast
  have e: "item_id i' = att_item b" "item_job i' = item_job i" using i' i(2) same by (auto simp: item_identity_def)
  have f: "job_id j' = item_job i" "job_provider j' = job_provider j" using snapshot_eq_fields [OF j'(2)] j(2) by auto
  show ?thesis
    using find_by_key [OF K(1) i] find_by_key [OF K(2) j] find_by_key [OF K(3) i'(1) e(1)] find_by_key [OF K(4) j'(1) f(1)] e f
    by (simp add: attempt_provider_def find_item_def find_job_def)
qed

definition running_ids :: "uuid \<Rightarrow> pdb \<Rightarrow> uuid set" where
  "running_ids pid s = att_id ` {a \<in> set (db_attempts s). att_status a = AttRunning \<and> attempt_provider s a = Some pid}"

lemma running_calls_card:
  assumes "distinct (map att_id (db_attempts s))"
  shows "running_calls pid s = card (running_ids pid s)"
proof -
  let ?P = "\<lambda>a. att_status a = AttRunning \<and> attempt_provider s a = Some pid"
  have d: "distinct (map att_id (filter ?P (db_attempts s)))" using assms by (rule distinct_map_filter)
  have "running_ids pid s = set (map att_id (filter ?P (db_attempts s)))" by (auto simp: running_ids_def)
  then show ?thesis using distinct_card [OF d] by (simp add: running_calls_def count_where_def)
qed

lemma attempt_item_exists:
  assumes "pipeline_ok s" "a \<in> set (db_attempts s)"
  obtains i where "i \<in> set (db_items s)" "item_id i = att_item a"
proof -
  have "(att_item a, att_owner a) \<in> set (map (\<lambda>i. (item_id i, item_owner i)) (db_items s))"
    using assms by (auto simp: pipeline_ok_def links_ok_def)
  then show ?thesis using that by auto
qed

lemma running_calls_le:
  assumes ok: "pipeline_ok s" "pipeline_ok s'" "evolves s s'"
    and old: "attempt_identity ` set (db_attempts s') \<subseteq> attempt_identity ` set (db_attempts s)"
  shows "running_calls pid s' \<le> running_calls pid s"
proof -
  have K: "distinct (map att_id (db_attempts s))" "distinct (map att_id (db_attempts s'))"
    using ok(1,2) by (auto simp: pipeline_ok_def keys_ok_def)
  have "running_ids pid s' \<subseteq> running_ids pid s"
  proof
    fix k assume "k \<in> running_ids pid s'"
    then obtain b where b: "b \<in> set (db_attempts s')" "att_status b = AttRunning" "attempt_provider s' b = Some pid" "att_id b = k"
      by (auto simp: running_ids_def)
    then obtain a where a: "a \<in> set (db_attempts s)" "attempt_identity b = attempt_identity a" using old by blast
    note f = attempt_identity_fields [OF a(2)]
    obtain c where c: "c \<in> set (db_attempts s')" "attempt_identity c = attempt_identity a" "att_status a \<noteq> AttRunning \<longrightarrow> c = a"
      using ok(3) a(1) unfolding evolves_def by blast
    have "c = b" by (rule distinct_map_eqD [OF K(2) c(1) b(1)]) (use attempt_identity_fields [OF c(2)] f in simp)
    then have r: "att_status a = AttRunning" using c(3) b(2) by auto
    obtain i where i: "i \<in> set (db_items s)" "item_id i = att_item a" by (rule attempt_item_exists [OF ok(1) a(1)])
    have "attempt_provider s' b = attempt_provider s a" by (rule attempt_provider_kept [OF ok i]) (use f in simp)
    then show "k \<in> running_ids pid s" using a(1) r b(3,4) f by (auto simp: running_ids_def)
  qed
  then show ?thesis
    unfolding running_calls_card [OF K(1)] running_calls_card [OF K(2)]
    by (intro card_mono) (auto simp: running_ids_def)
qed

section \<open>The limit\<close>

definition conc_ok :: "pdb \<Rightarrow> bool" where
  "conc_ok s \<longleftrightarrow> (\<forall>pid. running_calls pid s = 0 \<or> (\<exists>j \<in> set (db_jobs s). job_provider j = pid \<and>
     int (running_calls pid s) \<le> snap_max_concurrency (job_parameters j)))"

lemma conc_okD:
  assumes "conc_ok s" "running_calls pid s \<noteq> 0"
  obtains j where "j \<in> set (db_jobs s)" "job_provider j = pid" "int (running_calls pid s) \<le> snap_max_concurrency (job_parameters j)"
proof -
  have "\<exists>j \<in> set (db_jobs s). job_provider j = pid \<and> int (running_calls pid s) \<le> snap_max_concurrency (job_parameters j)"
    using assms(1) [unfolded conc_ok_def, rule_format, of pid] assms(2) by simp
  then show ?thesis using that by (elim bexE conjE)
qed

lemma conc_ok_kept:
  assumes "conc_ok s" "pipeline_ok s" "pipeline_ok s'" "evolves s s'"
    and "attempt_identity ` set (db_attempts s') \<subseteq> attempt_identity ` set (db_attempts s)"
  shows "conc_ok s'"
  unfolding conc_ok_def
proof
  fix pid
  note le = running_calls_le [OF assms(2-5), of pid]
  show "running_calls pid s' = 0 \<or> (\<exists>j \<in> set (db_jobs s'). job_provider j = pid \<and>
     int (running_calls pid s') \<le> snap_max_concurrency (job_parameters j))"
  proof (cases "running_calls pid s = 0")
    case False
    obtain j where j: "j \<in> set (db_jobs s)" "job_provider j = pid"
      "int (running_calls pid s) \<le> snap_max_concurrency (job_parameters j)" by (rule conc_okD [OF assms(1) False])
    obtain k where k: "k \<in> set (db_jobs s')" "job_snapshot k = job_snapshot j" using assms(4) j(1) unfolding evolves_def by blast
    then show ?thesis using snapshot_eq_fields [OF k(2)] j le by (intro disjI2 bexI [OF _ k(1)]) simp
  qed (use le in simp)
qed

lemma claim_conc:
  assumes ok: "pipeline_ok s" "conc_ok s" "prep_ok s p" and c: "claim_attempt p h aid lease now t s = Inr (s', Some c)"
  shows "conc_ok s'" "int (running_calls (pre_provider p) s') \<le> snap_max_concurrency (pre_snapshot p)"
proof -
  have k: "keys_ok s" using ok(1) by (simp add: pipeline_ok_def)
  have p': "pipeline_ok s'" and e: "evolves s s'" using claim_keeps [OF ok(1) c] claim_grows [OF k c] by (auto simp: grows_def)
  obtain i0 j0 where ij: "i0 \<in> set (db_items s)" "j0 \<in> set (db_jobs s)" "item_id i0 = pre_item p" "item_job i0 = job_id j0"
    "job_provider j0 = pre_provider p" "job_parameters j0 = pre_snapshot p"
    using ok(3) unfolding prep_ok_def by blast
  have K: "distinct (map item_id (db_items s))" "distinct (map job_id (db_jobs s))"
    using ok(1) by (auto simp: pipeline_ok_def keys_ok_def)
  have main: "int (running_calls (pre_provider p) s) < snap_max_concurrency (pre_snapshot p) \<and>
      (\<forall>pid. running_calls pid s' = running_calls pid s + (if pid = pre_provider p then 1 else 0))"
  proof (rule claim_tables [OF ok(1) c])
    fix i j
    assume cap: "int (running_calls (pre_provider p) s) < snap_max_concurrency (pre_snapshot p)"
      and i: "item_id i = pre_item p" and A: "db_attempts s' = db_attempts s @ [new_attempt p h aid now i s]"
    have new: "attempt_provider s' (new_attempt p h aid now i s) = Some (pre_provider p)"
    proof -
      have "attempt_provider s' (new_attempt p h aid now i s) = attempt_provider s (new_attempt p h aid now i s)"
        by (rule attempt_provider_kept [OF ok(1) p' e ij(1)]) (use i ij in simp_all)
      also have "\<dots> = Some (pre_provider p)"
        using find_by_key [OF K(1) ij(1), of "item_id i"] find_by_key [OF K(2) ij(2), of "item_job i0"] i ij
        by (simp add: attempt_provider_def find_item_def find_job_def)
      finally show ?thesis .
    qed
    have old: "attempt_provider s' a = attempt_provider s a" if a: "a \<in> set (db_attempts s)" for a
    proof (rule attempt_item_exists [OF ok(1) a])
      fix k assume "k \<in> set (db_items s)" "item_id k = att_item a"
      then show ?thesis by (rule attempt_provider_kept [OF ok(1) p' e]) simp
    qed
    have "running_calls pid s' = running_calls pid s + (if pid = pre_provider p then 1 else 0)" for pid
    proof -
      have "count_where (\<lambda>a. att_status a = AttRunning \<and> attempt_provider s' a = Some pid) (db_attempts s) = running_calls pid s"
        unfolding running_calls_def by (rule count_where_cong) (simp add: old)
      then show ?thesis unfolding running_calls_def [of pid s'] A by (auto simp: new)
    qed
    then show ?thesis using cap by blast
  qed
  then show lim: "int (running_calls (pre_provider p) s') \<le> snap_max_concurrency (pre_snapshot p)" by simp
  obtain j1 where j1: "j1 \<in> set (db_jobs s')" "job_snapshot j1 = job_snapshot j0" using e ij(2) unfolding evolves_def by blast
  note f1 = snapshot_eq_fields [OF j1(2)]
  show "conc_ok s'"
    unfolding conc_ok_def
  proof
    fix pid
    show "running_calls pid s' = 0 \<or> (\<exists>j \<in> set (db_jobs s'). job_provider j = pid \<and>
       int (running_calls pid s') \<le> snap_max_concurrency (job_parameters j))"
    proof (cases "pid = pre_provider p")
      case True
      then show ?thesis using lim f1 ij by (intro disjI2 bexI [OF _ j1(1)]) simp
    next
      case False
      then have same: "running_calls pid s' = running_calls pid s" using main by simp
      show ?thesis
      proof (cases "running_calls pid s = 0")
        case False
        obtain j where j: "j \<in> set (db_jobs s)" "job_provider j = pid"
          "int (running_calls pid s) \<le> snap_max_concurrency (job_parameters j)" by (rule conc_okD [OF ok(2) False])
        obtain k where k: "k \<in> set (db_jobs s')" "job_snapshot k = job_snapshot j" using e j(1) unfolding evolves_def by blast
        then show ?thesis using snapshot_eq_fields [OF k(2)] j same by (intro disjI2 bexI [OF _ k(1)]) simp
      qed (use same in simp)
    qed
  qed
qed

lemma create_attempts:
  assumes "create_or_get_job env owner assignment payload s = Inr (s', v, b)"
  shows "db_attempts s' = db_attempts s"
proof (cases "existing_job s owner (jc_key payload)")
  case None
  from assms None obtain a r con p snap h m where
    "insert_batch env owner (new_job env owner a r con p snap h m payload) (jc_submissions payload) s = Inr (s', v)"
    by (auto simp: create_or_get_job_def split: if_splits option.splits sum.splits prod.splits)
  then obtain s1 j "is" where w: "insert_job j s = Inr s1" "insert_items is s1 = Inr s'"
    by (auto simp: insert_batch_def split: option.splits)
  then show ?thesis using insert_job_Inr [OF w(1)] insert_items_Inr [OF w(2)] by simp
qed (use assms in \<open>auto simp: create_or_get_job_def split: if_splits option.splits\<close>)

lemma wstep_conc:
  assumes st: "wstep w w'" and ok: "world_ok w" "conc_ok (w_db w)"
  shows "conc_ok (w_db w')"
proof -
  have p: "pipeline_ok (w_db w)" using ok by (simp add: world_ok_def)
  have p': "pipeline_ok (w_db w')" and e: "evolves (w_db w) (w_db w')"
    using wstep_pipeline_ok [OF st p] wstep_evolves [OF st p] by auto
  note kept = conc_ok_kept [OF ok(2) p p' e]
  from st show ?thesis
  proof cases
    case create then show ?thesis using kept create_attempts by fastforce
  next
    case control
    then show ?thesis using kept control_stays p unfolding stays_def pipeline_ok_def by fastforce
  next
    case prepare then show ?thesis using ok by simp
  next
    case (claim q E g pr rq aid lease now t s' cl)
    have "prep_ok (w_db w) q" using ok(1) claim(2) by (simp add: world_ok_def)
    then show ?thesis using claim_conc(1) [OF p ok(2) _ claim(4)] claim(1) by simp
  next
    case succeed then show ?thesis using kept finish_success_stays unfolding stays_def by fastforce
  next
    case fail then show ?thesis using kept finish_failure_stays unfolding stays_def by fastforce
  next
    case expire then show ?thesis using kept expire_each_stays unfolding expire_stale_attempts_def stays_def by fastforce
  next
    case save then show ?thesis using kept by (auto elim: save_tables)
  next
    case (confirm t teacher refs s' rvs)
    have "db_attempts s' = db_attempts (w_db w)"
      by (cases "s' = w_db w") (auto elim: confirm_core [OF p confirm(2)])
    then show ?thesis using kept confirm(1) by simp
  next
    case inputs then show ?thesis using kept by (simp add: inputs_change_def)
  qed
qed

lemma reach_conc: "reach w \<Longrightarrow> conc_ok (w_db w)"
proof (induction rule: reach.induct)
  case (start s)
  then show ?case by (simp add: conc_ok_def running_calls_def empty_pipeline_def)
next
  case (step w w')
  then show ?case using wstep_conc reach_world_ok by blast
qed

end
