(* ===== verification/Pipeline_Example.thy ===== *)
theory Pipeline_Example
  imports Pipeline_Finish Pipeline_Concurrency
begin

text \<open>
  A concrete history, which shows that the properties of reachable worlds speak of something: one
  teacher, one batch with one paper, prepared, claimed and graded. The hash function is constant,
  so that the contract's hashes need no evaluation.
\<close>

section \<open>The inputs\<close>

definition ex_prompts :: prompt_env where
  "ex_prompts = example_env\<lparr>pe_sha := (\<lambda>_. 0)\<rparr>"

definition ex_profile :: model_profile where
  "ex_profile = \<lparr>prof_capabilities = \<lparr>cap_version = ustr ''c1'', cap_model = ustr ''m'', cap_context_window = 1000,
     cap_max_output = 500, cap_structured_output = JsonObject, cap_schema_dialect = DialectCanonical,
     cap_sampling_policy = TemperatureZero, cap_thinking_policy = ThinkingDisabled, cap_output_parameter = MaxTokens,
     cap_supports_listing = True, cap_pricing = None\<rparr>, prof_grading_max_output = 500\<rparr>"

definition ex_db :: pdb where
  "ex_db = \<lparr>db_active_teachers = [9],
     db_providers = [\<lparr>prov_id = 4, prov_type = DeepSeek, prov_name = ustr ''p'', prov_base_url = ustr ''https://api'',
       prov_encrypted_key = Some (ustr ''0123456789abcdefg''), prov_nonce = Some (ustr ''0123456789ab''),
       prov_allowed_models = [ustr ''m''], prov_default_model = Some (ustr ''m''), prov_timeout_ms = 60000,
       prov_max_concurrency = 1, prov_model_profiles = [(ustr ''m'', ex_profile)], prov_status = ProviderEnabled,
       prov_config_version = 1, prov_tested_version = Some 1, prov_tested_at = Some 0\<rparr>],
     db_assignments = [\<lparr>asg_id = 1, asg_owner = 9, asg_title = ustr ''Essay'', asg_instructions = ustr ''Write'',
       asg_status = AssignmentReady\<rparr>],
     db_rubrics = [\<lparr>rv_id = 2, rv_owner = 9, rv_assignment = 1, rv_provider = Some 4, rv_model = Some (ustr ''m''),
       rv_version = 1, rv_status = RubricConfirmed, rv_original = ustr ''text'', rv_structured = Some example_rubric,
       rv_total_score = dec_of_int 10, rv_score_step = dec_of_int 1, rv_confirmed_at = Some 0\<rparr>],
     db_submissions = [\<lparr>sub_id = 3, sub_owner = 9, sub_assignment = 1, sub_filename = ustr ''a.docx'',
       sub_media = MediaDocx, sub_size = 9, sub_sha256 = 0, sub_source_key = SourceKey 9 1 3 MediaDocx,
       sub_extracted_key = Some (DocumentBlocksKey 9 1 3), sub_status = SubReady, sub_error = None, sub_created = 0\<rparr>],
     db_jobs = [], db_items = [], db_attempts = [], db_reviews = []\<rparr>"

definition ex_creation :: creation_env where
  "ex_creation = \<lparr>ce_prompt = ex_prompts, ce_casefold = id, ce_quota_ok = (\<lambda>_ _ _. True), ce_job_id = 10,
     ce_item_ids = [11], ce_now = 100\<rparr>"

definition ex_payload :: job_create where
  "ex_payload = \<lparr>jc_submissions = [3], jc_key = ustr ''k''\<rparr>"

definition ex_runner :: runner_env where
  "ex_runner = \<lparr>rn_prompt = ex_prompts, rn_unicode = ascii_db, rn_errors = (\<lambda>_. []),
     rn_document = (\<lambda>_. Inr (greq_document example_request)), rn_json = (\<lambda>_. Inl RunStorageFailed),
     rn_loads = (\<lambda>s. if s = ustr ''answer'' then Inr (example_answer ''text'') else Inl LoadsDecode),
     rn_decrypt = (\<lambda>_ _ _. Some (ustr ''key'')), rn_grade = (\<lambda>_. CallRaised), rn_put_ok = (\<lambda>_ _. True),
     rn_now_text = ustr ''t'', rn_max_retries = 2\<rparr>"

section \<open>The steps\<close>

definition ex_contract :: contract_snapshot where
  "ex_contract = \<lparr>con_prompt_version = version_text PromptV3, con_prompt_hash = 0,
     con_schema_version = result_schema_version, con_schema = pe_result_schema ex_prompts, con_schema_hash = 0,
     con_rubric_hash = 0\<rparr>"

definition ex_snapshot :: provider_snapshot where
  "ex_snapshot = \<lparr>snap_type = DeepSeek, snap_base_url = ustr ''https://api'', snap_timeout_ms = 60000,
     snap_max_concurrency = 1, snap_profile = ex_profile\<rparr>"

lemma ex_schemas: "schemas_encodable ex_prompts"
  using example_schemas by (simp add: schemas_encodable_def ex_prompts_def)

lemma ex_sha: "canonical_sha256 (pe_sha ex_prompts) j = (if canonical_json j = None then None else Some 0)"
  by (simp add: canonical_sha256_def ex_prompts_def split: option.split)

lemma ex_request_encodable: "json_encodable (request_json example_request)"
  by code_simp

lemma ex_prompt:
  obtains q where "build_grading_prompt ex_prompts example_request PromptV3 = Some q" "gp_version q = PromptV3"
    "gp_prompt_hash q = 0" "gp_schema_hash q = 0" "gp_rubric_hash q = 0" "gp_base_request_hash q = 0"
    "gp_call_hash q = 0" "length (gp_messages q) = 2"
proof (rule prompt_exists [OF ex_schemas ex_request_encodable])
  fix q assume q: "build_grading_prompt ex_prompts example_request PromptV3 = Some q"
  have "call_hash ex_prompts ms v = Some h \<Longrightarrow> h = 0" "prompt_template_hash ex_prompts t v = Some h \<Longrightarrow> h = 0" for ms v t h
    by (auto simp: call_hash_def prompt_template_hash_def ex_sha split: if_splits)
  with q show ?thesis
    by (intro that [OF q]) (auto simp: build_grading_prompt_def Let_def ex_sha bind_eq_Some_conv split: if_splits)
qed

lemma ex_contract_built: "build_contract_snapshot ex_prompts example_rubric PromptV3 = Some ex_contract"
proof (rule ex_prompt)
  fix q assume "build_grading_prompt ex_prompts example_request PromptV3 = Some q"
    and "gp_prompt_hash q = 0"
  then show ?thesis
    by (auto simp: build_grading_prompt_def build_contract_snapshot_def Let_def ex_sha bind_eq_Some_conv ex_contract_def
        example_request_def split: if_splits)
qed

definition ex_db1 :: pdb where
  "ex_db1 = ex_db\<lparr>db_jobs := [new_job ex_creation 9 (hd (db_assignments ex_db)) (hd (db_rubrics ex_db)) ex_contract
       (hd (db_providers ex_db)) ex_snapshot 0 (ustr ''m'') ex_payload],
     db_items := new_items ex_creation 9 1 [3]\<rparr>"

lemma ex_snapshot_hash: "snapshot_hash ex_prompts ex_snapshot = Some 0"
proof -
  have "canonical_json (snapshot_json ex_snapshot) \<noteq> None" by code_simp
  then show ?thesis by (simp add: snapshot_hash_def ex_sha)
qed

lemma ex_provider: "provider_for_job ex_db 4 (ustr ''m'') = Inr (hd (db_providers ex_db), ex_snapshot)"
  by code_simp

lemma ex_insert: "\<exists>v. insert_batch ex_creation 9 (hd (db_jobs ex_db1)) [3] ex_db = Inr (ex_db1, v)"
  by (simp add: insert_batch_def insert_job_def insert_item_def new_items_def ex_db1_def ex_db_def
      ex_creation_def new_job_def ex_payload_def ex_contract_def ex_snapshot_def check_job_def check_item_def
      load_job_def valid_job_view_def valid_item_view_def item_view_def count_status_def length_between_def blank_def
      version_text_def result_schema_version_def validate_item_count_def items_of_def find_job_def ustr_def count_where_def)

lemma ex_created: "\<exists>v. create_or_get_job ex_creation 9 1 ex_payload ex_db = Inr (ex_db1, v, True)"
proof -
  obtain v where v: "insert_batch ex_creation 9 (hd (db_jobs ex_db1)) [3] ex_db = Inr (ex_db1, v)"
    using ex_insert by blast
  have a: "ready_submissions ex_db 9 1 [3] = {3}" by (simp add: ready_submissions_def ex_db_def)
  have e: "existing_job ex_db 9 (ustr ''k'') = None" by (simp add: existing_job_def ex_db_def)
  have fa: "find (\<lambda>a. asg_id a = 1 \<and> asg_owner a = 9 \<and> asg_status a = AssignmentReady) (db_assignments ex_db)
      = Some (hd (db_assignments ex_db))"
    "find (\<lambda>v. rv_assignment v = 1 \<and> rv_owner v = 9 \<and> rv_status v = RubricConfirmed) (db_rubrics ex_db)
      = Some (hd (db_rubrics ex_db))"
    "rv_structured (hd (db_rubrics ex_db)) = Some example_rubric" "rv_provider (hd (db_rubrics ex_db)) = Some 4"
    "rv_model (hd (db_rubrics ex_db)) = Some (ustr ''m'')"
    by (simp_all add: ex_db_def)
  have j: "new_job ex_creation 9 (hd (db_assignments ex_db)) (hd (db_rubrics ex_db)) ex_contract
      (hd (db_providers ex_db)) ex_snapshot 0 (ustr ''m'') ex_payload = hd (db_jobs ex_db1)"
    by (simp add: ex_db1_def)
  show ?thesis
    using v e a fa example_rubric_valid ex_contract_built ex_provider ex_snapshot_hash
    by (simp add: create_or_get_job_def ex_payload_def ex_creation_def encoded_def grading_prompt_version_def
        j [unfolded ex_payload_def ex_creation_def])
qed

definition ex_prep :: preparation where
  "ex_prep = \<lparr>pre_owner = 9, pre_job = 10, pre_item = 11, pre_version = 1, pre_submission = 3,
     pre_document_key = DocumentBlocksKey 9 1 3, pre_assignment = 1, pre_title = ustr ''Essay'',
     pre_instructions = ustr ''Write'', pre_rubric_version_id = 2, pre_rubric_version = 1, pre_rubric = example_rubric,
     pre_provider = 4, pre_provider_version = 1, pre_encrypted_key = ustr ''0123456789abcdefg'',
     pre_nonce = ustr ''0123456789ab'', pre_model = ustr ''m'', pre_snapshot = ex_snapshot, pre_contract = ex_contract,
     pre_kind = Initial, pre_parent = None, pre_previous_key = None, pre_previous_details = None\<rparr>"

lemma ex_snapshot_valid: "validate_snapshot ex_snapshot"
  by code_simp

lemma ex_prepared: "prepare_item id ex_prompts 100 11 1 ex_db1 = Inr (Some ex_prep)"
  by (simp add: prepare_item_def ex_db1_def ex_db_def ex_creation_def new_items_def new_job_def ex_payload_def
      find_provider_def ex_snapshot_valid ex_snapshot_hash example_rubric_valid call_plan_def last_attempt_def
      correction_source_def ex_prep_def Let_def)

definition ex_db2 :: pdb where
  "ex_db2 = ex_db1\<lparr>db_attempts := [new_attempt ex_prep 0 12 110 (hd (db_items ex_db1)) ex_db1],
     db_items := [claimed_item ex_prep 13 110 (hd (db_items ex_db1))],
     db_jobs := [claimed_job 110 (hd (db_jobs ex_db1))]\<rparr>"

definition ex_claim :: claim where
  "ex_claim = \<lparr>cl_attempt = 12, cl_number = 1, cl_round = 1, cl_sequence = 1, cl_lease = 13, cl_request_hash = 0\<rparr>"

lemma ex_total: "rub_total_score example_rubric = dec_of_int 10" "dec_less dec_zero (dec_of_int 10)"
  "dec_eq (dec_of_int 10) (dec_of_int 10)"
  by (code_simp+)

lemmas ex_rows = ex_db1_def ex_db_def ex_creation_def new_items_def new_job_def ex_payload_def ex_prep_def
  ex_snapshot_def ex_contract_def new_attempt_def claimed_item_def claimed_job_def

lemma ex_claimed: "claim_attempt ex_prep 0 12 13 110 110 ex_db1 = Inr (ex_db2, Some ex_claim)"
  by (simp add: claim_attempt_def ex_db2_def ex_claim_def ex_rows running_calls_def count_where_def insert_attempt_def
      attempt_score_ok_def ex_total Let_def next_number_def next_sequence_def max_of_def check_attempt_def
      attempt_unique_def parent_ok_def write_item_def protect_job_item_def item_identity_def item_transition_def
      check_item_def write_job_def preserve_active_status_def protect_job_snapshot_def job_snapshot_def
      job_transition_def check_job_def replace_row_def started_or_def blank_def ustr_def version_text_def
      result_schema_version_def)

lemma ex_schema_text:
  "case canonical_json (pe_result_schema ex_prompts) of None \<Rightarrow> False
   | Some t \<Rightarrow> 2 \<le> utf8_length t \<and> utf8_length t \<le> 1000000 \<and> pe_sha ex_prompts t = 0"
  "is_object (pe_result_schema ex_prompts)"
  by code_simp+

lemma ex_call:
  obtains q r where "build_call ex_runner ex_prep = Inr (example_request, q, r)" "gp_call_hash q = 0"
    "prompt_call q = \<lparr>gc_base_request_hash = 0, gc_message_count = 2\<rparr>"
proof (rule ex_prompt)
  fix q assume q: "build_grading_prompt ex_prompts example_request PromptV3 = Some q" "gp_version q = PromptV3"
    "gp_prompt_hash q = 0" "gp_schema_hash q = 0" "gp_rubric_hash q = 0" "gp_base_request_hash q = 0"
    "gp_call_hash q = 0" "length (gp_messages q) = 2"
  have d: "request_of ex_prep (greq_document example_request) = Inr example_request" by code_simp
  have v: "parse_prompt_version (con_prompt_version (pre_contract ex_prep)) = Some PromptV3" by code_simp
  have c: "con_prompt_version (pre_contract ex_prep) = version_text PromptV3" by (simp add: ex_prep_def ex_contract_def)
  have m: "cap_model (prof_capabilities (snap_profile (pre_snapshot ex_prep))) = pre_model ex_prep" by code_simp
  have k: "pre_previous_key ex_prep = None" by (simp add: ex_prep_def)
  have g: "valid_grade_request ex_prompts (provider_request_of ex_prep (ustr ''key'') q)"
    using q(4) ex_schema_text
    by (simp add: valid_grade_request_def provider_request_of_def ex_prep_def ex_snapshot_def ex_profile_def
        ex_contract_def Let_def length_between_def ustr_def split: option.splits)
  have p: "prompt_matches q (pre_contract ex_prep)"
    using q by (simp add: prompt_matches_def ex_prep_def ex_contract_def)
  have "build_call ex_runner ex_prep = Inr (example_request, q, provider_request_of ex_prep (ustr ''key'') q)"
    using q d v m g p by (simp add: build_call_def ex_runner_def call_prompt_def Let_def k)
  then show ?thesis using q by (intro that) (simp_all add: prompt_call_def)
qed

section \<open>The worlds\<close>

definition ex_world :: "grading_prompt \<Rightarrow> world" where
  "ex_world q = \<lparr>w_db = ex_db2, w_preps = [ex_prep],
     w_open = [\<lparr>g_prep = ex_prep, g_claim = ex_claim, g_request = example_request, g_prompt = q\<rparr>]\<rparr>"

lemma ex_reach1: "reach \<lparr>w_db = ex_db1, w_preps = [ex_prep], w_open = []\<rparr>"
proof -
  obtain v where c: "create_or_get_job ex_creation 9 1 ex_payload ex_db = Inr (ex_db1, v, True)"
    using ex_created by blast
  have "reach \<lparr>w_db = ex_db, w_preps = [], w_open = []\<rparr>"
    by (rule reach.start) (simp_all add: empty_pipeline_def ex_db_def)
  then have "reach \<lparr>w_db = ex_db1, w_preps = [], w_open = []\<rparr>"
    using wstep.create [of ex_creation 9 1 ex_payload "\<lparr>w_db = ex_db, w_preps = [], w_open = []\<rparr>"] c
    by (auto intro: reach.step)
  then show ?thesis
    using wstep.prepare [of id ex_prompts 100 11 1 "\<lparr>w_db = ex_db1, w_preps = [], w_open = []\<rparr>"] ex_prepared
    by (auto intro: reach.step)
qed

lemma ex_reach2:
  assumes "build_call ex_runner ex_prep = Inr (example_request, q, r)" "gp_call_hash q = 0"
  shows "wstep \<lparr>w_db = ex_db1, w_preps = [ex_prep], w_open = []\<rparr> (ex_world q)" "reach (ex_world q)"
proof -
  show w: "wstep \<lparr>w_db = ex_db1, w_preps = [ex_prep], w_open = []\<rparr> (ex_world q)"
    using wstep.claim [of ex_prep "\<lparr>w_db = ex_db1, w_preps = [ex_prep], w_open = []\<rparr>" ex_runner example_request q r 12 13 110 110]
      assms ex_claimed by (simp add: ex_world_def)
  show "reach (ex_world q)" by (rule reach.step [OF ex_reach1 w])
qed

text \<open>The answer arrives and is accepted.\<close>

definition ex_result :: provider_result where
  "ex_result = \<lparr>res_provider = DeepSeek, res_requested_model = ustr ''m'', res_reported_model = ustr ''m'',
     res_request_id = ustr ''r'', res_output_text = ustr ''answer'', res_usage = example_usage, res_cost = None,
     res_raw = ustr ''{}'', res_raw_sha256 = 0, res_schema_sha256 = 0\<rparr>"

lemma ex_envelope: "canonical_json (response_envelope ex_runner ex_claim ex_result) \<noteq> None"
proof -
  have "json_encodable (response_envelope ex_runner ex_claim ex_result)" by code_simp
  then show ?thesis using canonical_json_encodable by (metis option.distinct(1))
qed

lemma ex_assessed:
  assumes "prompt_call q = \<lparr>gc_base_request_hash = 0, gc_message_count = 2\<rparr>"
  obtains co where "decide ex_runner ex_prep ex_claim example_request q (CallOk ex_result) = Inr (Complete co)"
proof -
  obtain v where v: "validate_grade_response ascii_db (\<lambda>_. []) (example_answer ''text'') example_request = Inr v"
    using example_accepted by (auto split: sum.splits)
  have h: "request_hash ex_runner example_request = 0"
    using ex_sha by (simp add: request_hash_def ex_runner_def)
  have raw: "raw_result ex_runner (res_output_text ex_result) = example_answer ''text''"
      "\<not> loads_raises ex_runner (res_output_text ex_result)"
    by (simp_all add: raw_result_def loads_raises_def ex_runner_def ex_result_def)
  have "assess_grade_response (rn_unicode ex_runner) (rn_errors ex_runner) (request_hash ex_runner)
      (raw_result ex_runner (res_output_text ex_result)) example_request (prompt_call q)
      = Inr \<lparr>oc_status = Accepted, oc_code = None, oc_attempt_count = 1, oc_result = Some v, oc_issues = []\<rparr>"
    unfolding raw(1) using v h assms
    by (simp add: assess_grade_response_def ex_runner_def make_outcome_def outcome_shape_def)
  then show ?thesis
    using ex_envelope raw(2) by (intro that) (simp add: decide_def decide_answer_def put_envelope_def decide_outcome_def ex_runner_def)
qed

lemma ex_lease: "\<exists>loc. locate_claim ex_claim ex_db2 = Inr loc"
  by (simp add: locate_claim_def find_attempt_def find_job_def ex_claim_def ex_db2_def ex_rows)

end
