(* ===== verification/Pipeline_Guarantees.thy ===== *)
theory Pipeline_Guarantees
  imports Pipeline_Example
begin

text \<open>
  What the pipeline guarantees in every reachable world, whatever the interleaving of teachers,
  dispatchers and workers, and however often a message is delivered.
\<close>

section \<open>The state of papers and batches\<close>

text \<open>
  C9. In every reachable world: a paper is running exactly while one of its calls is running, and
  then exactly one is; a batch owns as many papers as it announced; a batch that is not cancelled
  is queued, running or paused exactly while some of its papers are still queued or running; and
  the calls of a paper are numbered from one without gap or repetition.
\<close>

theorem reachable_consistent:
  assumes "reach w"
  shows "(\<forall>i \<in> set (db_items (w_db w)).
      length (filter (\<lambda>a. att_item a = item_id i \<and> att_status a = AttRunning) (db_attempts (w_db w)))
        = (if item_status i = ItemRunning then 1 else 0) \<and>
      map att_number (filter (\<lambda>a. att_item a = item_id i) (db_attempts (w_db w)))
        = [1..<length (filter (\<lambda>a. att_item a = item_id i) (db_attempts (w_db w))) + 1]) \<and>
    (\<forall>j \<in> set (db_jobs (w_db w)).
      length (items_of (job_id j) (w_db w)) = job_expected j \<and>
      (job_status j \<noteq> JobCancelled \<longrightarrow>
         (job_status j \<in> {JobQueued, JobRunning, JobPaused} \<longleftrightarrow>
          (\<exists>i \<in> set (items_of (job_id j) (w_db w)). item_status i \<in> {ItemQueued, ItemRunning}))))"
proof -
  have p: "pipeline_ok (w_db w)" by (rule reach_pipeline_ok [OF assms])
  have "active_in (w_db w) k \<longleftrightarrow> (\<exists>i \<in> set (items_of k (w_db w)). item_status i \<in> {ItemQueued, ItemRunning})" for k
    by (auto simp: active_in_def items_of_def item_active_def)
  then show ?thesis
    using p unfolding pipeline_ok_def leases_ok_def counts_ok_def status_ok_def numbers_ok_def count_where_def
      calls_of_def items_of_def is_running_call_def by blast
qed

lemma ex_two_calls:
  obtains q r where "reach (ex_world q)" "build_call ex_runner ex_prep = Inr (example_request, q, r)" "gp_call_hash q = 0"
    "prompt_call q = \<lparr>gc_base_request_hash = 0, gc_message_count = 2\<rparr>"
  by (rule ex_call) (use ex_reach2(2) in blast)

theorem reachable_consistent_witness:
  "\<exists>w. reach w \<and> w_open w \<noteq> [] \<and> (\<exists>i \<in> set (db_items (w_db w)). item_status i = ItemRunning \<and>
     length (filter (\<lambda>a. att_item a = item_id i \<and> att_status a = AttRunning) (db_attempts (w_db w))) = 1)"
proof (rule ex_two_calls)
  fix q assume r: "reach (ex_world q)"
  have "\<exists>i \<in> set (db_items ex_db2). item_status i = ItemRunning" by (simp add: ex_db2_def claimed_item_def)
  then show ?thesis using reachable_consistent [OF r] r by (intro exI [of _ "ex_world q"]) (auto simp: ex_world_def)
qed

section \<open>Granted calls\<close>

text \<open>
  C11. Every call a worker was granted is a call of its own: no two grants share an attempt, a
  number of the paper, or a position in a round; and its row in the database records the hash of
  exactly the prompt that was built for it, which carries the hashes of the contract frozen with
  the batch of the paper.
\<close>

theorem granted_calls_recorded:
  assumes "reach w" "x \<in> set (w_open w)"
  shows "(\<forall>y \<in> set (w_open w). cl_attempt (g_claim y) = cl_attempt (g_claim x) \<or>
        pre_item (g_prep y) = pre_item (g_prep x) \<and> cl_number (g_claim y) = cl_number (g_claim x) \<or>
        pre_item (g_prep y) = pre_item (g_prep x) \<and> cl_round (g_claim y) = cl_round (g_claim x) \<and>
          cl_sequence (g_claim y) = cl_sequence (g_claim x) \<longrightarrow> y = x) \<and>
    (\<exists>a \<in> set (db_attempts (w_db w)). att_id a = cl_attempt (g_claim x) \<and> att_item a = pre_item (g_prep x) \<and>
       att_number a = cl_number (g_claim x) \<and> att_request_hash a = gp_call_hash (g_prompt x)) \<and>
    (\<exists>i \<in> set (db_items (w_db w)). \<exists>j \<in> set (db_jobs (w_db w)). item_id i = pre_item (g_prep x) \<and>
       item_job i = job_id j \<and> prompt_matches (g_prompt x) (job_contract j) \<and> job_title j = pre_title (g_prep x) \<and>
       job_model j = pre_model (g_prep x))"
proof (intro conjI)
  have W: "world_ok w" by (rule reach_world_ok [OF assms(1)])
  then have k: "keys_ok (w_db w)" and n: "numbers_ok (w_db w)" by (auto simp: world_ok_def pipeline_ok_def)
  have d: "distinct (map (\<lambda>x. cl_attempt (g_claim x)) (w_open w))" using W by (simp add: world_ok_def)
  have g: "grant_ok (w_db w) y" if "y \<in> set (w_open w)" for y using W that by (simp add: world_ok_def)
  have row: "\<exists>a \<in> set (db_attempts (w_db w)). att_id a = cl_attempt (g_claim y) \<and> att_item a = pre_item (g_prep y) \<and>
      att_number a = cl_number (g_claim y) \<and> att_round a = cl_round (g_claim y) \<and>
      att_sequence a = cl_sequence (g_claim y) \<and> att_request_hash a = gp_call_hash (g_prompt y)"
    if "y \<in> set (w_open w)" for y
    using g [OF that] unfolding grant_ok_def Let_def by metis
  show "\<exists>a \<in> set (db_attempts (w_db w)). att_id a = cl_attempt (g_claim x) \<and> att_item a = pre_item (g_prep x) \<and>
       att_number a = cl_number (g_claim x) \<and> att_request_hash a = gp_call_hash (g_prompt x)"
    using row [OF assms(2)] by blast
  show "\<forall>y \<in> set (w_open w). cl_attempt (g_claim y) = cl_attempt (g_claim x) \<or>
        pre_item (g_prep y) = pre_item (g_prep x) \<and> cl_number (g_claim y) = cl_number (g_claim x) \<or>
        pre_item (g_prep y) = pre_item (g_prep x) \<and> cl_round (g_claim y) = cl_round (g_claim x) \<and>
          cl_sequence (g_claim y) = cl_sequence (g_claim x) \<longrightarrow> y = x"
  proof (intro ballI impI)
    fix y assume y: "y \<in> set (w_open w)" and e: "cl_attempt (g_claim y) = cl_attempt (g_claim x) \<or>
        pre_item (g_prep y) = pre_item (g_prep x) \<and> cl_number (g_claim y) = cl_number (g_claim x) \<or>
        pre_item (g_prep y) = pre_item (g_prep x) \<and> cl_round (g_claim y) = cl_round (g_claim x) \<and>
          cl_sequence (g_claim y) = cl_sequence (g_claim x)"
    obtain a b where ab: "a \<in> set (db_attempts (w_db w))" "att_id a = cl_attempt (g_claim x)" "att_item a = pre_item (g_prep x)"
      "att_number a = cl_number (g_claim x)" "att_round a = cl_round (g_claim x)" "att_sequence a = cl_sequence (g_claim x)"
      "b \<in> set (db_attempts (w_db w))" "att_id b = cl_attempt (g_claim y)" "att_item b = pre_item (g_prep y)"
      "att_number b = cl_number (g_claim y)" "att_round b = cl_round (g_claim y)" "att_sequence b = cl_sequence (g_claim y)"
      using row [OF assms(2)] row [OF y] by blast
    then have "cl_attempt (g_claim y) = cl_attempt (g_claim x)"
      using e same_number [OF n ab(1,7)] by metis
    then show "y = x" using d y assms(2) by (auto dest: distinct_map_eqD)
  qed
  obtain E r where b: "build_call E (g_prep x) = Inr (g_request x, g_prompt x, r)"
    and p: "prep_ok (w_db w) (g_prep x)" using g [OF assms(2)] unfolding grant_ok_def Let_def by blast
  show "\<exists>i \<in> set (db_items (w_db w)). \<exists>j \<in> set (db_jobs (w_db w)). item_id i = pre_item (g_prep x) \<and>
       item_job i = job_id j \<and> prompt_matches (g_prompt x) (job_contract j) \<and> job_title j = pre_title (g_prep x) \<and>
       job_model j = pre_model (g_prep x)"
    using p build_call_parts(3) [OF b] unfolding prep_ok_def by metis
qed

theorem granted_calls_recorded_witness:
  "\<exists>w x. reach w \<and> x \<in> set (w_open w) \<and> (\<exists>a \<in> set (db_attempts (w_db w)). att_id a = cl_attempt (g_claim x) \<and>
     att_request_hash a = gp_call_hash (g_prompt x))"
proof (rule ex_two_calls)
  fix q assume r: "reach (ex_world q)"
  let ?x = "\<lparr>g_prep = ex_prep, g_claim = ex_claim, g_request = example_request, g_prompt = q\<rparr>"
  have "?x \<in> set (w_open (ex_world q))" by (simp add: ex_world_def)
  then show ?thesis using granted_calls_recorded [OF r] r by blast
qed

section \<open>Duplicate deliveries\<close>



section \<open>Bounded calls\<close>

lemma round_bound:
  assumes "pipeline_ok s" "calls_ok s"
  shows "length (round_calls i r s) \<le> 3 + length (filter (\<lambda>a. att_error a = Some CodeCorrectionRequired) (round_calls i r s))"
proof -
  let ?cs = "round_calls i r s" and ?n = "length (round_calls i r s)"
  have n: "map att_sequence ?cs = [1..<?n + 1]" using assms(1) by (simp add: pipeline_ok_def numbers_ok_def)
  have seq: "att_sequence (?cs ! k) = k + 1" if "k < ?n" for k
    using arg_cong [OF n, of "\<lambda>xs. xs ! k"] that by (simp del: upt_Suc)
  have "{2..<?n - 1} \<subseteq> {k. k < ?n \<and> att_error (?cs ! k) = Some CodeCorrectionRequired}"
  proof
    fix k assume k: "k \<in> {2..<?n - 1}"
    then have l: "k < ?n" "k + 1 < ?n" "2 \<le> k" by auto
    have m: "?cs ! k \<in> set ?cs" using l(1) by (rule nth_mem)
    then have "retried (?cs ! k)"
      using assms(2) l(2) seq [OF l(1)] by (auto simp: calls_ok_def later_ok_def in_round_calls)
    then show "k \<in> {k. k < ?n \<and> att_error (?cs ! k) = Some CodeCorrectionRequired}"
      using l(1,3) seq [OF l(1)] by (auto simp: retried_def)
  qed
  then have "card {2..<?n - 1} \<le> card {k. k < ?n \<and> att_error (?cs ! k) = Some CodeCorrectionRequired}"
    by (rule card_mono [rotated]) simp
  also have "\<dots> = length (filter (\<lambda>a. att_error a = Some CodeCorrectionRequired) ?cs)"
    by (simp add: length_filter_conv_card)
  finally show ?thesis by simp
qed

text \<open>
  C14. Without a teacher's retry a paper is called at most three times, plus once for each answer
  that asked for a correction: the number of calls of a round of a paper never exceeds three plus
  the number of its calls that ended with a correction request.
\<close>

theorem calls_bounded:
  assumes "reach w"
  shows "length (filter (\<lambda>a. att_item a = i \<and> att_round a = r) (db_attempts (w_db w))) \<le>
    3 + length (filter (\<lambda>a. att_item a = i \<and> att_round a = r \<and> att_error a = Some CodeCorrectionRequired)
      (db_attempts (w_db w)))"
proof -
  have "world_ok w" by (rule reach_world_ok [OF assms])
  then show ?thesis
    using round_bound [of "w_db w" i r]
    by (simp add: world_ok_def round_calls_def conj_ac)
qed

theorem calls_bounded_witness:
  "\<exists>w. reach w \<and> db_attempts (w_db w) \<noteq> [] \<and>
     length (filter (\<lambda>a. att_item a = 11 \<and> att_round a = 1) (db_attempts (w_db w))) \<le>
     3 + length (filter (\<lambda>a. att_item a = 11 \<and> att_round a = 1 \<and> att_error a = Some CodeCorrectionRequired) (db_attempts (w_db w)))"
proof (rule ex_two_calls)
  fix q assume r: "reach (ex_world q)"
  have "db_attempts (w_db (ex_world q)) \<noteq> []" by (simp add: ex_world_def ex_db2_def)
  then show ?thesis using calls_bounded [OF r] r by blast
qed

section \<open>History\<close>

text \<open>
  C15. The history of calls is append-only: whatever happens next, a call that has ended keeps its
  row unchanged, a running call keeps its identity, its input hash and its ceiling, no batch
  changes its inputs, no paper changes its place or goes back to an earlier version, and a paper
  that a teacher has completed never changes again.
\<close>

theorem history_append_only:
  assumes "reach w" "wstep w w'"
  shows "(\<forall>a \<in> set (db_attempts (w_db w)). if att_status a \<noteq> AttRunning then a \<in> set (db_attempts (w_db w'))
       else (\<exists>b \<in> set (db_attempts (w_db w')). att_id b = att_id a \<and> att_number b = att_number a \<and>
         att_request_hash b = att_request_hash a \<and> att_max_score b = att_max_score a)) \<and>
    (\<forall>j \<in> set (db_jobs (w_db w)). \<exists>k \<in> set (db_jobs (w_db w')). job_snapshot k = job_snapshot j) \<and>
    (\<forall>i \<in> set (db_items (w_db w)). \<exists>k \<in> set (db_items (w_db w')).
       item_identity k = item_identity i \<and> item_version i \<le> item_version k \<and>
       (item_status i = ItemCompleted \<longrightarrow> k = i))"
proof -
  have e: "evolves (w_db w) (w_db w')" by (rule wstep_evolves [OF assms(2) reach_pipeline_ok [OF assms(1)]])
  have "if att_status a \<noteq> AttRunning then a \<in> set (db_attempts (w_db w'))
       else (\<exists>b \<in> set (db_attempts (w_db w')). att_id b = att_id a \<and> att_number b = att_number a \<and>
         att_request_hash b = att_request_hash a \<and> att_max_score b = att_max_score a)"
    if a: "a \<in> set (db_attempts (w_db w))" for a
  proof -
    obtain b where b: "b \<in> set (db_attempts (w_db w'))" "attempt_identity b = attempt_identity a"
      "att_status a \<noteq> AttRunning \<longrightarrow> b = a" using e a unfolding evolves_def by blast
    then show ?thesis using attempt_identity_fields [OF b(2)] by auto
  qed
  then show ?thesis using e by (simp add: evolves_def)
qed

theorem history_append_only_witness:
  "\<exists>w w'. reach w \<and> wstep w w' \<and> db_items (w_db w) \<noteq> [] \<and> (\<forall>i \<in> set (db_items (w_db w)).
     \<exists>k \<in> set (db_items (w_db w')). item_identity k = item_identity i)"
proof (rule ex_call)
  fix q r assume b: "build_call ex_runner ex_prep = Inr (example_request, q, r)" "gp_call_hash q = 0"
  let ?w = "\<lparr>w_db = ex_db1, w_preps = [ex_prep], w_open = []\<rparr>"
  have "db_items (w_db ?w) \<noteq> []" by (simp add: ex_rows)
  moreover note w = ex_reach2(1) [OF b]
  ultimately show ?thesis using history_append_only [OF ex_reach1 w] ex_reach1 w by blast
qed

section \<open>The end of a call\<close>

text \<open>
  No paid answer is lost to a rejected write: in every reachable world, while the lease of a
  granted call is valid, whatever the runner decides about the provider's answer (a result, a
  correction, a retry, a failure) passes every trigger, unique index and check constraint of the
  database, and the transaction that stores it succeeds.
\<close>

theorem decision_is_stored:
  assumes "reach w" "x \<in> set (w_open w)" "locate_claim (g_claim x) (w_db w) = Inr loc"
    and "decide E (g_prep x) (g_claim x) (g_request x) (g_prompt x) res = Inr d" "valid_answer res"
  shows "case d of Complete co \<Rightarrow> \<exists>s'. finish_success (g_claim x) co now t (w_db w) = Inr s'
    | Finish f out \<Rightarrow> \<exists>s'. finish_failure (g_claim x) f now t (w_db w) = Inr s'"
proof -
  have W: "world_ok w" by (rule reach_world_ok [OF assms(1)])
  show ?thesis
  proof (cases d)
    case (Finish f out)
    then show ?thesis using finish_failure_defined [OF W assms(2,3) _ assms(5)] assms(4) by simp
  next
    case (Complete co)
    then show ?thesis using finish_success_defined [OF W assms(2,3) _ assms(5)] assms(4) by simp
  qed
qed

lemma ex_answer_valid: "valid_answer (CallOk ex_result)"
proof -
  have "validate_usage example_usage" by code_simp
  then show ?thesis by (simp add: valid_answer_def valid_provider_result_def ex_result_def)
qed

theorem decision_is_stored_witness:
  "\<exists>w x co s'. reach w \<and> x \<in> set (w_open w) \<and> finish_success (g_claim x) co 120 120 (w_db w) = Inr s'"
proof (rule ex_two_calls)
  fix q r assume R: "reach (ex_world q)"
    and q: "prompt_call q = \<lparr>gc_base_request_hash = 0, gc_message_count = 2\<rparr>"
  let ?x = "\<lparr>g_prep = ex_prep, g_claim = ex_claim, g_request = example_request, g_prompt = q\<rparr>"
  obtain co where d: "decide ex_runner ex_prep ex_claim example_request q (CallOk ex_result) = Inr (Complete co)"
    by (rule ex_assessed [OF q])
  obtain loc where L: "locate_claim ex_claim ex_db2 = Inr loc" using ex_lease by blast
  have x: "?x \<in> set (w_open (ex_world q))" by (simp add: ex_world_def)
  have "\<exists>s'. finish_success (g_claim ?x) co 120 120 (w_db (ex_world q)) = Inr s'"
    using decision_is_stored [OF R x _ _ ex_answer_valid, of loc ex_runner "Complete co" 120 120] L d
    by (simp add: ex_world_def)
  then show ?thesis using R x by blast
qed

lemma closed_claim:
  assumes "world_ok w" "x \<in> set (w_open w)"
    and "finish_success (g_claim x) co now t (w_db w) = Inr s' \<or> finish_failure (g_claim x) f now t (w_db w) = Inr s'"
  shows "locate_claim (g_claim x) s' = Inl LeaseInvalid"
proof -
  have ok: "pipeline_ok (w_db w)" "keys_ok (w_db w)" "grant_ok (w_db w) x" using assms(1,2) by (auto simp: world_ok_def pipeline_ok_def)
  obtain j i a a' i' s1 s2 where L: "locate_claim (g_claim x) (w_db w) = Inr (j, i, a)"
    and w: "write_attempt a a' (w_db w) = Inr s1" "write_item i i' s1 = Inr s2" "reconcile_job now t j s2 = Inr s'"
    using assms(3) by (auto simp: finish_success_def finish_failure_def)
  have p': "pipeline_ok s'"
    using assms(3) finish_success_keeps [OF ok(1)] finish_failure_keeps [OF ok(1)] by blast
  note l = locate_claim_Inr [OF L] and T = close_tables [OF w] and A = write_attempt_Inr [OF w(1)]
  note af = attempt_identity_fields [of a' a]
  have "set (db_attempts s') = insert a' (set (db_attempts (w_db w)) - {a})"
    unfolding T by (rule replace_row_set [OF _ l(1)]) (use ok(2) in \<open>simp add: keys_ok_def\<close>)
  then have a': "a' \<in> set (db_attempts s')" "att_id a' = cl_attempt (g_claim x)" "att_status a' \<noteq> AttRunning"
    using A af l(4) by auto
  have K: "distinct (map att_id (db_attempts s'))" using p' by (simp add: pipeline_ok_def keys_ok_def)
  have f: "find_attempt (cl_attempt (g_claim x)) s' = Some a'"
  proof (cases "find_attempt (cl_attempt (g_claim x)) s'")
    case None
    then show ?thesis using a' by (auto simp: find_attempt_def find_None_iff)
  next
    case (Some b)
    then have "b \<in> set (db_attempts s')" "att_id b = att_id a'"
      using a'(2) by (auto simp: find_attempt_def dest: find_SomeD)
    then show ?thesis using Some distinct_map_eqD [OF K _ a'(1)] by blast
  qed
  have links: "(att_item a', att_owner a') \<in> set (map (\<lambda>i. (item_id i, item_owner i)) (db_items s'))"
    "set (map (\<lambda>i. (item_job i, item_owner i)) (db_items s')) \<subseteq> set (job_refs s')"
    using p' a'(1) unfolding pipeline_ok_def links_ok_def by auto
  then obtain k where k: "find (\<lambda>i. item_id i = att_item a' \<and> item_owner i = att_owner a') (db_items s') = Some k"
    by (cases "find (\<lambda>i. item_id i = att_item a' \<and> item_owner i = att_owner a') (db_items s')") (auto simp: find_None_iff)
  then have "k \<in> set (db_items s')" by (auto dest: find_SomeD)
  then have "(item_job k, item_owner k) \<in> set (job_refs s')" using links(2) by auto
  then obtain m where "find_job (item_job k) s' = Some m"
    by (cases "find_job (item_job k) s'") (auto simp: find_job_def find_None_iff job_refs_def)
  then show ?thesis using f k a'(3) by (simp add: locate_claim_def)
qed

text \<open>
  A call ends once: after its result was stored, every further attempt to store a result or a
  failure for it, with whatever content and at whatever later time, is refused as a lost lease and
  changes nothing.
\<close>

theorem call_ends_once:
  assumes "reach w" "x \<in> set (w_open w)"
    and "finish_success (g_claim x) co now t (w_db w) = Inr s' \<or> finish_failure (g_claim x) f now t (w_db w) = Inr s'"
  shows "finish_success (g_claim x) co' now' t' s' = Inl LeaseInvalid \<and>
    finish_failure (g_claim x) f' now' t' s' = Inl LeaseInvalid"
  using closed_claim [OF reach_world_ok [OF assms(1)] assms(2,3)] by (simp add: finish_success_def finish_failure_def)

theorem call_ends_once_witness:
  "\<exists>(x :: granted) co s s'. finish_success (g_claim x) co 120 120 s = Inr s' \<and> finish_success (g_claim x) co 130 130 s' = Inl LeaseInvalid"
proof (rule ex_two_calls)
  fix q r assume R: "reach (ex_world q)"
    and q: "prompt_call q = \<lparr>gc_base_request_hash = 0, gc_message_count = 2\<rparr>"
  let ?x = "\<lparr>g_prep = ex_prep, g_claim = ex_claim, g_request = example_request, g_prompt = q\<rparr>"
  obtain co where d: "decide ex_runner ex_prep ex_claim example_request q (CallOk ex_result) = Inr (Complete co)"
    by (rule ex_assessed [OF q])
  obtain loc where L: "locate_claim ex_claim ex_db2 = Inr loc" using ex_lease by blast
  have x: "?x \<in> set (w_open (ex_world q))" by (simp add: ex_world_def)
  obtain s' where "finish_success (g_claim ?x) co 120 120 (w_db (ex_world q)) = Inr s'"
    using finish_success_defined [OF reach_world_ok [OF R] x _ _ ex_answer_valid, of loc ex_runner co 120 120] L d
    by (auto simp: ex_world_def)
  then have "finish_success (g_claim ?x) co 120 120 (w_db (ex_world q)) = Inr s' \<and>
      finish_success (g_claim ?x) co 130 130 s' = Inl LeaseInvalid"
    using call_ends_once [OF R x, of co 120 120 s' url_rejected_failure co 130 130] by simp
  then show ?thesis by blast
qed

section \<open>Recovery\<close>



section \<open>Concurrency\<close>

text \<open>
  C17. A provider is never called more often at once than a batch allows: in every reachable world
  the number of running calls of a provider is zero or within the concurrency limit that the
  snapshot of one of its batches froze; and a claim that is granted leaves it within the limit of
  the claiming batch itself.
\<close>

theorem concurrency_limited:
  assumes "reach w"
  shows "(running_calls pid (w_db w) = 0 \<or> (\<exists>j \<in> set (db_jobs (w_db w)). job_provider j = pid \<and>
       int (running_calls pid (w_db w)) \<le> snap_max_concurrency (job_parameters j))) \<and>
    (\<forall>p \<in> set (w_preps w). \<forall>s' c. claim_attempt p h aid lease now t (w_db w) = Inr (s', Some c) \<longrightarrow>
       int (running_calls (pre_provider p) s') \<le> snap_max_concurrency (pre_snapshot p))"
proof -
  have W: "world_ok w" by (rule reach_world_ok [OF assms])
  have c: "conc_ok (w_db w)" by (rule reach_conc [OF assms])
  have "int (running_calls (pre_provider p) s') \<le> snap_max_concurrency (pre_snapshot p)"
    if "p \<in> set (w_preps w)" "claim_attempt p h aid lease now t (w_db w) = Inr (s', Some cl)" for p s' cl
    using claim_conc(2) [OF _ c _ that(2)] W that(1) by (simp add: world_ok_def)
  then show ?thesis using c unfolding conc_ok_def by blast
qed

theorem concurrency_limited_witness:
  "int (running_calls 4 ex_db2) \<le> 1 \<and> running_calls 4 ex_db2 = 1"
proof -
  let ?w = "\<lparr>w_db = ex_db1, w_preps = [ex_prep], w_open = []\<rparr>"
  have "claim_attempt ex_prep 0 12 13 110 110 (w_db ?w) = Inr (ex_db2, Some ex_claim)" using ex_claimed by simp
  moreover have "ex_prep \<in> set (w_preps ?w)" by simp
  ultimately have "int (running_calls (pre_provider ex_prep) ex_db2) \<le> snap_max_concurrency (pre_snapshot ex_prep)"
    using concurrency_limited [OF ex_reach1] by blast
  moreover have "running_calls 4 ex_db2 = 1"
    by (simp add: running_calls_def ex_db2_def ex_rows attempt_provider_def find_item_def find_job_def)
  ultimately show ?thesis by (simp add: ex_prep_def ex_snapshot_def)
qed

section \<open>Idempotent creation\<close>

lemma create_key:
  assumes "create_or_get_job env owner assignment payload s = Inr (s', v, b)"
  obtains j where "existing_job s' owner (jc_key payload) = Some j" "load_job s' owner (job_id j) = Inr (Some v)"
    "job_request_hash j = batch_request_hash (ce_prompt env) assignment (jc_submissions payload)"
proof (cases "existing_job s owner (jc_key payload)")
  case (Some j)
  then have h: "job_request_hash j = batch_request_hash (ce_prompt env) assignment (jc_submissions payload)"
    and l: "load_job s owner (job_id j) = Inr (Some v)" "s' = s"
    using assms by (auto simp: create_or_get_job_def split: if_splits option.splits)
  then show ?thesis using that Some h by simp
next
  case None
  from assms None obtain a r con p snap h m where
    ib: "insert_batch env owner (new_job env owner a r con p snap h m payload) (jc_submissions payload) s = Inr (s', v)"
    and fa: "asg_id a = assignment"
    by (auto simp: create_or_get_job_def split: if_splits option.splits sum.splits prod.splits dest!: find_SomeD)
  let ?j = "new_job env owner a r con p snap h m payload"
  from ib obtain s1 "is" where w: "insert_job ?j s = Inr s1" "insert_items is s1 = Inr s'" "load_job s' owner (job_id ?j) = Inr (Some v)"
    by (auto simp: insert_batch_def split: option.splits)
  have t: "db_jobs s' = db_jobs s @ [?j]" using insert_job_Inr [OF w(1)] insert_items_Inr [OF w(2)] by simp
  have "existing_job s' owner (jc_key payload) = Some ?j"
    using None by (simp add: existing_job_def t find_append) (simp add: new_job_def)
  moreover have "job_request_hash ?j = batch_request_hash (ce_prompt env) assignment (jc_submissions payload)"
    using fa by (simp add: new_job_def)
  ultimately show ?thesis using that w(3) by simp
qed

text \<open>
  C18. Creating a batch is idempotent: when a request is repeated with the same key, whatever the
  clock and the fresh identifiers, no row is written and the answer is the batch of the first
  request, marked as not created; and a request with this key that differs in the assignment or
  the list of papers is a conflict, as long as the hash function does not collide on the two
  request texts.
\<close>

theorem creation_idempotent:
  assumes "create_or_get_job env owner assignment payload s = Inr (s', v, b)" "ce_prompt env' = ce_prompt env"
    and "jc_key payload' = jc_key payload"
    and "is_uuid assignment" "is_uuid assignment'" "\<forall>i \<in> set (jc_submissions payload) \<union> set (jc_submissions payload'). is_uuid i"
    and "pe_sha (ce_prompt env) (render_json (sort_keys (batch_request_json assignment (jc_submissions payload))))
       = pe_sha (ce_prompt env) (render_json (sort_keys (batch_request_json assignment' (jc_submissions payload')))) \<longrightarrow>
       render_json (sort_keys (batch_request_json assignment (jc_submissions payload)))
       = render_json (sort_keys (batch_request_json assignment' (jc_submissions payload')))"
  shows "create_or_get_job env' owner assignment' payload' s' =
    (if assignment' = assignment \<and> jc_submissions payload' = jc_submissions payload
     then Inr (s', v, False) else Inl IdempotencyConflict)"
proof (rule create_key [OF assms(1)])
  fix j assume j: "existing_job s' owner (jc_key payload) = Some j" "load_job s' owner (job_id j) = Inr (Some v)"
    "job_request_hash j = batch_request_hash (ce_prompt env) assignment (jc_submissions payload)"
  show ?thesis
  proof (cases "assignment' = assignment \<and> jc_submissions payload' = jc_submissions payload")
    case True
    then show ?thesis using j assms(2,3) by (simp add: create_or_get_job_def)
  next
    case False
    then have "render_json (sort_keys (batch_request_json assignment (jc_submissions payload)))
        \<noteq> render_json (sort_keys (batch_request_json assignment' (jc_submissions payload')))"
      using batch_request_inj [OF _ assms(4-6)] by auto
    then have "job_request_hash j \<noteq> batch_request_hash (ce_prompt env') assignment' (jc_submissions payload')"
      using assms(2,7) j(3) by (auto simp: batch_request_hash_def)
    then have "create_or_get_job env' owner assignment' payload' s' = Inl IdempotencyConflict"
      using j(1) assms(3) by (simp add: create_or_get_job_def)
    then show ?thesis using False by (simp only: if_False)
  qed
qed

theorem creation_idempotent_witness:
  "\<exists>v. create_or_get_job ex_creation 9 1 ex_payload ex_db = Inr (ex_db1, v, True) \<and>
     create_or_get_job (ex_creation\<lparr>ce_job_id := 20, ce_item_ids := [21], ce_now := 500\<rparr>) 9 1 ex_payload ex_db1 = Inr (ex_db1, v, False)"
proof -
  obtain v where v: "create_or_get_job ex_creation 9 1 ex_payload ex_db = Inr (ex_db1, v, True)" using ex_created by blast
  have "is_uuid 1" "\<forall>i \<in> set (jc_submissions ex_payload) \<union> set (jc_submissions ex_payload). is_uuid i"
    by (simp_all add: is_uuid_def ex_payload_def)
  then show ?thesis
    using creation_idempotent [OF v, of "ex_creation\<lparr>ce_job_id := 20, ce_item_ids := [21], ce_now := 500\<rparr>" ex_payload 1] v by simp
qed

end
