(* ===== verification/Pipeline_Stuck.thy ===== *)
theory Pipeline_Stuck
  imports Pipeline_Guarantees
begin

text \<open>
  A paper that no operation can move: when a teacher cancels a batch while one of its papers is
  being graded and the call then ends with a retry, the paper returns to the queue of a cancelled
  batch.
\<close>

lemma retry_on_cancelled:
  assumes "pipeline_ok s" "j \<in> set (db_jobs s)" "job_status j = JobCancelled"
  shows "control_job t teacher (job_id j) act target s \<in> {Inr (s, None), Inl InvalidTransition}"
proof -
  have K: "distinct (map job_id (db_jobs s))" using assms(1) by (simp add: pipeline_ok_def keys_ok_def)
  have f: "k = j" if "find (\<lambda>k. job_id k = job_id j \<and> job_owner k = teacher) (db_jobs s) = Some k" for k
    by (rule distinct_map_eqD [OF K _ assms(2)]) (use find_SomeD [OF that] in auto)
  have w: "bindR (write_item i (retry_item t i) s) (\<lambda>s1. bindR (write_job t True j j' s1) g) = Inl InvalidTransition"
    if i: "i \<in> set (db_items s)" "item_status i \<in> {ItemNeedsReview, ItemFailed}"
      "job_status j' = JobRunning" "job_snapshot j' = job_snapshot j" for i g j'
  proof -
    have "check_item i" using assms(1) i(1) by (simp add: pipeline_ok_def checks_ok_def)
    then have "protect_job_item i (retry_item t i) = Inr ()" "check_item (retry_item t i)"
      using i(2) by (auto simp: protect_job_item_def retry_item_def item_identity_def item_transition_def check_item_def)
    then show ?thesis
      using assms(3) i(3,4) by (simp add: write_item_def write_job_def preserve_active_status_def protect_job_snapshot_def
          job_transition_def Let_def)
  qed
  have "control_grading_job t teacher (job_id j) act target s \<in> {Inr (s, None), Inl InvalidTransition}"
  proof (cases "find (\<lambda>k. job_id k = job_id j \<and> job_owner k = teacher) (db_jobs s)")
    case None
    then show ?thesis by (simp add: control_grading_job_def)
  next
    case (Some k)
    note k = Some [unfolded f [OF Some]]
    show ?thesis
    proof (cases "act = ActRetry \<and> target \<noteq> None")
      case True
      then obtain iid where a: "act = ActRetry" "target = Some iid" by auto
      show ?thesis
      proof (cases "find (\<lambda>i. item_id i = iid \<and> item_job i = job_id j \<and> item_owner i = teacher \<and>
          item_status i \<in> {ItemNeedsReview, ItemFailed} \<and> \<not> review_confirmed s teacher iid) (db_items s)")
        case None
        then show ?thesis using k a by (simp add: control_grading_job_def)
      next
        case (Some i)
        then have "i \<in> set (db_items s)" "item_status i \<in> {ItemNeedsReview, ItemFailed}" by (auto dest: find_SomeD)
        then show ?thesis using Some k a by (simp add: control_grading_job_def w job_snapshot_def)
      qed
    next
      case False
      then show ?thesis using k assms(3)
        by (cases act; cases target) (simp_all add: control_grading_job_def)
    qed
  qed
  then show ?thesis by (auto simp: control_job_def)
qed

lemma queued_in_cancelled_stuck:
  assumes ok: "pipeline_ok s" and i: "i \<in> set (db_items s)" and j: "j \<in> set (db_jobs s)" "item_job i = job_id j"
    and st: "job_status j = JobCancelled"
  shows "prepare_item cf E t (item_id i) v s = Inr None"
    "pre_item p = item_id i \<Longrightarrow> claim_attempt p h aid lease now t s = Inr (s, None)"
    "(item_id i, v) \<notin> set (list_dispatchable_items t limit s)"
proof -
  have K: "distinct (map item_id (db_items s))" "distinct (map job_id (db_jobs s))"
    using ok by (auto simp: pipeline_ok_def keys_ok_def)
  have same: "k = i" if "k \<in> set (db_items s)" "item_id k = item_id i" for k
    by (rule distinct_map_eqD [OF K(1) that(1) i that(2)])
  have job: "job_status k = JobCancelled" if "k \<in> set (db_jobs s)" "job_id k = item_job i" for k
    using distinct_map_eqD [OF K(2) that(1) j(1)] that(2) j(2) st by simp
  have nj: "find (\<lambda>j. job_id j = item_job i \<and> job_owner j = ow \<and> job_status j \<in> {JobQueued, JobRunning}) (db_jobs s) = None" for ow
    using job by (auto simp: find_None_iff)
  show "prepare_item cf E t (item_id i) v s = Inr None"
  proof (cases "find (\<lambda>k. item_id k = item_id i \<and> item_version k = v \<and> item_status k = ItemQueued \<and> item_available k \<le> t) (db_items s)")
    case (Some k)
    then have "k = i" using same find_SomeD [OF Some] by blast
    then show ?thesis using Some nj by (simp add: prepare_item_def)
  qed (simp add: prepare_item_def)
  show "claim_attempt p h aid lease now t s = Inr (s, None)" if p: "pre_item p = item_id i"
  proof (cases "find (\<lambda>k. item_id k = pre_item p \<and> item_owner k = pre_owner p) (db_items s)")
    case (Some k)
    then have "k = i" using same find_SomeD [OF Some] p by auto
    then show ?thesis using Some nj by (simp add: claim_attempt_def)
  qed (simp add: claim_attempt_def)
  have "\<not> item_dispatchable t s i" using job by (auto simp: item_dispatchable_def)
  then show "(item_id i, v) \<notin> set (list_dispatchable_items t limit s)"
    using same by (auto simp: list_dispatchable_items_def dest!: in_set_takeD)
qed

definition ex_unavailable :: provider_error where
  "ex_unavailable = safe_error PUnavailable None"

lemma stuck_reachable:
  "\<exists>w i j. reach w \<and> i \<in> set (db_items (w_db w)) \<and> j \<in> set (db_jobs (w_db w)) \<and> item_job i = job_id j \<and>
     item_status i = ItemQueued \<and> job_status j = JobCancelled"
proof (rule ex_two_calls)
  fix q assume R: "reach (ex_world q)"
  let ?x = "\<lparr>g_prep = ex_prep, g_claim = ex_claim, g_request = example_request, g_prompt = q\<rparr>"
  let ?j = "(hd (db_jobs ex_db2))\<lparr>job_status := JobCancelled, job_finished := Some 115, job_state_version := 3, job_updated := 115\<rparr>"
  let ?s = "ex_db2\<lparr>db_jobs := [?j]\<rparr>"
  have "\<exists>v. control_job 115 9 10 ActCancel None ex_db2 = Inr (?s, v)"
    by (simp add: control_job_def control_grading_job_def ex_db2_def ex_rows write_job_def preserve_active_status_def
        protect_job_snapshot_def job_snapshot_def job_transition_def check_job_def replace_row_def started_or_def blank_def
        ustr_def version_text_def result_schema_version_def load_job_def valid_job_view_def valid_item_view_def item_view_def
        count_status_def length_between_def Let_def)
  then obtain v where c: "control_job 115 9 10 ActCancel None (w_db (ex_world q)) = Inr (?s, v)" by (auto simp: ex_world_def)
  have R1: "reach ((ex_world q)\<lparr>w_db := ?s\<rparr>)" by (rule reach.step [OF R wstep.control [OF c]])
  let ?f = "\<lparr>fa_action = FailRetry, fa_delay = 5, fa_code = CodeProvider PUnavailable,
    fa_details = ProviderDetails True RetrySafe, fa_call_state = CallNotSent, fa_provider = None, fa_request_id = None,
    fa_key = None, fa_sha256 = None\<rparr>"
  have d: "decide ex_runner ex_prep ex_claim example_request q (CallFailed ex_unavailable) = Inr (Finish ?f RunRetryScheduled)"
    by (simp add: decide_def decide_error_def ex_unavailable_def safe_error_def error_action_def ex_runner_def ex_claim_def
        retry_delay_def error_call_state_def action_result_def)
  have x: "?x \<in> set (w_open ((ex_world q)\<lparr>w_db := ?s\<rparr>))" by (simp add: ex_world_def)
  have L: "\<exists>loc. locate_claim ex_claim ?s = Inr loc"
    by (simp add: locate_claim_def find_attempt_def find_job_def ex_claim_def ex_db2_def ex_rows)
  obtain s' where s': "finish_failure ex_claim ?f 120 120 ?s = Inr s'"
    using finish_failure_defined [OF reach_world_ok [OF R1] x, of _ ex_runner "CallFailed ex_unavailable" ?f RunRetryScheduled 120 120] L d
    by (auto simp: valid_answer_def)
  have n: "rn_max_retries ex_runner = 2" by (simp add: ex_runner_def)
  have "wstep ((ex_world q)\<lparr>w_db := ?s\<rparr>) ((ex_world q)\<lparr>w_db := s'\<rparr>)"
    using wstep.fail [OF x n, of "CallFailed ex_unavailable" ?f RunRetryScheduled 120 120 s'] d s' by simp
  then have R2: "reach ((ex_world q)\<lparr>w_db := s'\<rparr>)" by (rule reach.step [OF R1])
  obtain j i a s1 s2 where L2: "locate_claim ex_claim ?s = Inr (j, i, a)"
    and w: "write_attempt a (failed_attempt ?f 120 a) ?s = Inr s1" "write_item i (failed_item ?f 120 i) s1 = Inr s2"
      "reconcile_job 120 120 j s2 = Inr s'" using s' by (auto simp: finish_failure_def)
  note l = locate_claim_Inr [OF L2] and T = close_tables [OF w]
  have j: "j = ?j" using l(3) by simp
  have i: "failed_item ?f 120 i \<in> set (db_items s')"
    unfolding T using replace_row_set [OF _ l(2), of item_id] reach_pipeline_ok [OF R1] by (simp add: pipeline_ok_def keys_ok_def)
  have "\<exists>k \<in> set (db_jobs s'). job_id k = job_id j \<and> job_status k = JobCancelled"
  proof (rule reconcile_Inr [OF w(3)])
    fix j' assume J: "s' = s2\<lparr>db_jobs := replace_row job_id j j' (db_jobs s2)\<rparr>" "job_id j' = job_id j"
      "active_in s2 (job_id j) \<or> job_status j = JobCancelled \<longrightarrow> job_status j' = job_status j"
    have "db_jobs s2 = [j]" using write_attempt_Inr [OF w(1)] w(2) j by (auto simp: write_item_Inr)
    then show ?thesis using J j by (simp add: replace_row_def)
  qed
  then obtain k where "k \<in> set (db_jobs s')" "job_id k = job_id j" "job_status k = JobCancelled" by blast
  moreover have "item_status (failed_item ?f 120 i) = ItemQueued" "item_job (failed_item ?f 120 i) = job_id j"
    using l(7) by (simp_all add: failed_item_def)
  ultimately show ?thesis
    using R2 i by (intro exI [of _ "(ex_world q)\<lparr>w_db := s'\<rparr>"] exI [of _ "failed_item ?f 120 i"] exI [of _ k]) simp
qed


end
