(* ===== verification/Provider_Schema.thy ===== *)
theory Provider_Schema
  imports Json_Reader Provider_Request
begin

text \<open>
  \<open>backend/app/providers/schema.py\<close>: the result schema is projected to the subset of JSON Schema that
  a provider accepts. Local references are replaced by the definitions they name, keywords of
  pydantic or unknown to the dialect are dropped, constants become one-element enumerations, and for
  two dialects every object is closed. A \<open>ValueError\<close> is \<open>None\<close>. The recursion follows references, so
  its termination rests on the stack of references; the depth of the Python recursion is bounded.
\<close>

section \<open>Projection\<close>

datatype provider_dialect = OpenAISchema | AnthropicSchema | GeminiSchema

definition pydantic_only_keys :: "pystr list" where
  "pydantic_only_keys = [ustr ''decimal_places'', ustr ''max_digits'']"

definition gemini_unsupported_keys :: "pystr list" where
  "gemini_unsupported_keys = [ustr ''pattern'', ustr ''minLength'', ustr ''maxLength'', ustr ''minItems'', ustr ''maxItems'']"

definition defs_prefix :: pystr where
  "defs_prefix = ustr ''#/$defs/''"

definition resolve_reference :: "pystr \<Rightarrow> (pystr \<times> json) list \<Rightarrow> json option" where
  "resolve_reference ref defs =
     (if \<not> is_prefix defs_prefix ref then None
      else let name = drop (length defs_prefix) ref in
        if name = [] \<or> 47 \<in> set name then None else map_of defs name)"

definition dropped_key :: "provider_dialect \<Rightarrow> pystr \<Rightarrow> bool" where
  "dropped_key D k \<longleftrightarrow> k = ustr ''$defs'' \<or> k \<in> set pydantic_only_keys \<or>
     D = GeminiSchema \<and> k \<in> set gemini_unsupported_keys"

text \<open>What one member of an object becomes, given its projected value.\<close>

definition member_pair :: "pystr \<Rightarrow> json \<Rightarrow> pystr \<times> json" where
  "member_pair k v = (if k = ustr ''const'' then (ustr ''enum'', JArr [v]) else (k, v))"

text \<open>The closing of objects with properties.\<close>

definition close_object :: "provider_dialect \<Rightarrow> (pystr \<times> json) list \<Rightarrow> json" where
  "close_object D kvs = (case map_of kvs (ustr ''properties'') of
      Some (JObj ps) \<Rightarrow>
        if D = GeminiSchema then JObj kvs
        else JObj (dict_set (ustr ''additionalProperties'') (JBool False)
               (dict_set (ustr ''required'') (JArr (map (JStr \<circ> fst) ps)) kvs))
    | _ \<Rightarrow> JObj kvs)"

text \<open>The references that are defined and not on the stack.\<close>

definition open_refs :: "(pystr \<times> json) list \<Rightarrow> pystr list \<Rightarrow> pystr set" where
  "open_refs defs stack = ((@) defs_prefix ` fst ` set defs) - set stack"

lemma finite_open_refs [simp]: "finite (open_refs defs stack)"
  by (simp add: open_refs_def)

lemma resolved_open:
  assumes "resolve_reference r defs = Some v" "r \<notin> set stack"
  shows "r \<in> open_refs defs stack" "v \<in> snd ` set defs"
proof -
  obtain name where n: "r = defs_prefix @ name" "map_of defs name = Some v"
    using assms(1) is_prefix_drop [of defs_prefix r] by (auto simp: resolve_reference_def Let_def split: if_splits)
  from map_of_SomeD [OF n(2)] have "(name, v) \<in> set defs" .
  then show "r \<in> open_refs defs stack" "v \<in> snd ` set defs" using n(1) assms(2) by (force simp: open_refs_def)+
qed

lemma open_refs_push: "open_refs defs (stack @ [r]) = open_refs defs stack - {r}"
  by (auto simp: open_refs_def)

lemma resolved_fewer:
  assumes "resolve_reference r defs = Some v" "r \<notin> set stack"
  shows "card (open_refs defs (stack @ [r])) < card (open_refs defs stack)"
  unfolding open_refs_push by (rule card_Diff1_less) (use resolved_open [OF assms] in auto)

lemma map_opt_cong [fundef_cong]: "xs = ys \<Longrightarrow> (\<And>x. x \<in> set ys \<Longrightarrow> f x = g x) \<Longrightarrow> map_opt f xs = map_opt g ys"
  by (induction xs arbitrary: ys) (auto split: option.splits)

lemma size_member: "kv \<in> set kvs \<Longrightarrow> size (snd kv) < size (JObj kvs)"
proof (induction kvs)
  case (Cons x kvs)
  then show ?case by (cases x) auto
qed simp

lemma size_item: "x \<in> set xs \<Longrightarrow> size x < size (JArr xs)"
  by (induction xs) auto

text \<open>\<open>_project_node\<close>, with the members of an object projected in order.\<close>

function project_node :: "provider_dialect \<Rightarrow> (pystr \<times> json) list \<Rightarrow> pystr list \<Rightarrow> json \<Rightarrow> json option" where
  "project_node D defs stack v = (case v of
      JArr xs \<Rightarrow> map_option JArr (map_opt (project_node D defs stack) xs)
    | JObj kvs \<Rightarrow>
        (case map_of kvs (ustr ''$ref'') of
           Some ref \<Rightarrow>
             (case ref of JStr r \<Rightarrow>
                if r \<in> set stack then None
                else (case resolve_reference r defs of None \<Rightarrow> None
                  | Some w \<Rightarrow> project_node D defs (stack @ [r]) w)
              | _ \<Rightarrow> None)
         | None \<Rightarrow> map_option (\<lambda>ps. close_object D (dict_of ps))
             (map_opt (\<lambda>kv. map_option (member_pair (fst kv)) (project_node D defs stack (snd kv)))
               (filter (\<lambda>kv. \<not> dropped_key D (fst kv)) kvs)))
    | _ \<Rightarrow> Some v)"
  by pat_completeness auto

termination
  by (relation "measures [\<lambda>(D, defs, stack, v). card (open_refs defs stack), \<lambda>(D, defs, stack, v). size v]")
    (use size_member size_item in \<open>auto simp: resolved_fewer simp del: json.size\<close>)

declare project_node.simps [simp del]

section \<open>The shape of a projected schema\<close>

definition object_closed :: "provider_dialect \<Rightarrow> (pystr \<times> json) list \<Rightarrow> bool" where
  "object_closed D kvs \<longleftrightarrow> (case map_of kvs (ustr ''properties'') of
      Some (JObj ps) \<Rightarrow> D = GeminiSchema \<or>
        map_of kvs (ustr ''required'') = Some (JArr (map (JStr \<circ> fst) ps)) \<and>
        map_of kvs (ustr ''additionalProperties'') = Some (JBool False)
    | _ \<Rightarrow> True)"

definition schema_key :: "provider_dialect \<Rightarrow> pystr \<Rightarrow> bool" where
  "schema_key D k \<longleftrightarrow> \<not> dropped_key D k \<and> k \<noteq> ustr ''$ref'' \<and> k \<noteq> ustr ''const''"

fun provider_schema_ok :: "provider_dialect \<Rightarrow> json \<Rightarrow> bool" where
  "provider_schema_ok D (JArr xs) = (\<forall>x \<in> set xs. provider_schema_ok D x)"
| "provider_schema_ok D (JObj kvs) = (object_closed D kvs \<and>
     (\<forall>kv \<in> set kvs. schema_key D (fst kv) \<and> provider_schema_ok D (snd kv)))"
| "provider_schema_ok D v = True"

lemma dict_set_map_of [simp]: "map_of (dict_set k v m) = (map_of m)(k \<mapsto> v)"
  by (induction m) (auto simp: fun_eq_iff)

lemma dict_set_subset: "kv \<in> set (dict_set k v m) \<Longrightarrow> kv = (k, v) \<or> kv \<in> set m"
  by (induction m) (auto split: if_splits)

lemma dict_of_subset: "set (dict_of kvs) \<subseteq> set kvs"
proof -
  have "set (foldl (\<lambda>m (k, v). dict_set k v m) m kvs) \<subseteq> set m \<union> set kvs" for m
    by (induction kvs arbitrary: m) (use dict_set_subset in fastforce)+
  then show ?thesis by (fastforce simp: dict_of_def)
qed

lemma closing_keys [simp]: "schema_key D (ustr ''required'')" "schema_key D (ustr ''additionalProperties'')" "schema_key D (ustr ''enum'')"
  by (simp_all add: schema_key_def dropped_key_def pydantic_only_keys_def gemini_unsupported_keys_def ustr_def)

lemma distinct_keys [simp]: "ustr ''properties'' \<noteq> ustr ''required''" "ustr ''properties'' \<noteq> ustr ''additionalProperties''"
    "ustr ''required'' \<noteq> ustr ''additionalProperties''" "ustr ''required'' \<noteq> ustr ''properties''"
    "ustr ''additionalProperties'' \<noteq> ustr ''properties''" "ustr ''additionalProperties'' \<noteq> ustr ''required''"
  by (simp_all add: ustr_def)

lemma close_object_ok:
  assumes "\<forall>kv \<in> set kvs. schema_key D (fst kv) \<and> provider_schema_ok D (snd kv)"
  shows "provider_schema_ok D (close_object D kvs)"
proof (cases "\<exists>ps. map_of kvs (ustr ''properties'') = Some (JObj ps) \<and> D \<noteq> GeminiSchema")
  case False
  then have "close_object D kvs = JObj kvs" "object_closed D kvs"
    by (auto simp: close_object_def object_closed_def split: option.splits json.splits)
  then show ?thesis using assms by simp
next
  case True
  then obtain ps where ps: "map_of kvs (ustr ''properties'') = Some (JObj ps)" "D \<noteq> GeminiSchema" by blast
  define kvs' where "kvs' = dict_set (ustr ''additionalProperties'') (JBool False)
    (dict_set (ustr ''required'') (JArr (map (JStr \<circ> fst) ps)) kvs)"
  have "close_object D kvs = JObj kvs'" using ps by (simp add: close_object_def kvs'_def)
  moreover have "object_closed D kvs'" using ps by (simp add: object_closed_def kvs'_def)
  moreover have "schema_key D (fst kv) \<and> provider_schema_ok D (snd kv)" if "kv \<in> set kvs'" for kv
  proof -
    consider "kv = (ustr ''additionalProperties'', JBool False)" | "kv = (ustr ''required'', JArr (map (JStr \<circ> fst) ps))" | "kv \<in> set kvs"
      using \<open>kv \<in> set kvs'\<close> dict_set_subset unfolding kvs'_def by metis
    then show ?thesis using assms by cases auto
  qed
  ultimately show ?thesis by simp
qed

lemma project_node_ok: "project_node D defs stack v = Some w \<Longrightarrow> provider_schema_ok D w"
proof (induction D defs stack v arbitrary: w rule: project_node.induct)
  case (1 D defs stack v)
  note p = "1.prems" [unfolded project_node.simps [of D defs stack v]]
  show ?case
  proof (cases v)
    case (JArr xs)
    then obtain ys where ys: "map_opt (project_node D defs stack) xs = Some ys" "w = JArr ys" using p by auto
    then show ?thesis using "1.IH"(1) [OF JArr] by (auto dest!: map_opt_mem [OF ys(1)])
  next
    case (JObj kvs)
    show ?thesis
    proof (cases "map_of kvs (ustr ''$ref'')")
      case None
      let ?f = "\<lambda>kv. map_option (member_pair (fst kv)) (project_node D defs stack (snd kv))"
      obtain ps where ps: "map_opt ?f (filter (\<lambda>kv. \<not> dropped_key D (fst kv)) kvs) = Some ps" and w: "w = close_object D (dict_of ps)"
        using p JObj None by auto
      have "schema_key D (fst q) \<and> provider_schema_ok D (snd q)" if q: "q \<in> set ps" for q
      proof -
        obtain kv u where kv: "kv \<in> set kvs" "\<not> dropped_key D (fst kv)" "project_node D defs stack (snd kv) = Some u" "q = member_pair (fst kv) u"
          using map_opt_mem [OF ps q] by auto
        have "provider_schema_ok D u" using "1.IH"(2) [OF JObj None] kv by auto
        moreover have "fst kv \<noteq> ustr ''$ref''" using None kv(1) by (force simp: map_of_eq_None_iff)
        ultimately show ?thesis using kv(2,4) by (auto simp: member_pair_def schema_key_def [of D "fst kv"])
      qed
      then show ?thesis unfolding w using close_object_ok dict_of_subset by (metis subsetD)
    next
      case (Some ref)
      then obtain r u where "ref = JStr r" "r \<notin> set stack" "resolve_reference r defs = Some u" "project_node D defs (stack @ [r]) u = Some w"
        using p JObj by (auto split: json.splits if_splits option.splits)
      then show ?thesis using "1.IH"(3) JObj Some by blast
    qed
  qed (use p in auto)
qed

section \<open>The depth of the recursion\<close>

datatype schema_exn = SchemaValueError | SchemaRecursion

text \<open>The same function when Python may still enter \<open>n\<close> calls of \<open>_project_node\<close>.\<close>

fun project_limited :: "nat \<Rightarrow> provider_dialect \<Rightarrow> (pystr \<times> json) list \<Rightarrow> pystr list \<Rightarrow> json \<Rightarrow> schema_exn + json" where
  "project_limited 0 D defs stack v = Inl SchemaRecursion"
| "project_limited (Suc n) D defs stack v = (case v of
      JArr xs \<Rightarrow> bindR (mapR (project_limited n D defs stack) xs) (\<lambda>ys. Inr (JArr ys))
    | JObj kvs \<Rightarrow>
        (case map_of kvs (ustr ''$ref'') of
           Some ref \<Rightarrow>
             (case ref of JStr r \<Rightarrow>
                if r \<in> set stack then Inl SchemaValueError
                else (case resolve_reference r defs of None \<Rightarrow> Inl SchemaValueError
                  | Some w \<Rightarrow> project_limited n D defs (stack @ [r]) w)
              | _ \<Rightarrow> Inl SchemaValueError)
         | None \<Rightarrow> bindR (mapR (\<lambda>kv. bindR (project_limited n D defs stack (snd kv)) (\<lambda>w. Inr (member_pair (fst kv) w)))
               (filter (\<lambda>kv. \<not> dropped_key D (fst kv)) kvs)) (\<lambda>ps. Inr (close_object D (dict_of ps))))
    | _ \<Rightarrow> Inr v)"

definition raised :: "json option \<Rightarrow> schema_exn + json" where
  "raised m = (case m of None \<Rightarrow> Inl SchemaValueError | Some w \<Rightarrow> Inr w)"

text \<open>The deepest nesting of a definition, and the number of calls that are enough.\<close>

definition defs_nesting :: "(pystr \<times> json) list \<Rightarrow> nat" where
  "defs_nesting defs = Max (insert 0 (set (map (nesting \<circ> snd) defs)))"

definition schema_calls :: "(pystr \<times> json) list \<Rightarrow> pystr list \<Rightarrow> json \<Rightarrow> nat" where
  "schema_calls defs stack v = Suc (nesting v) + card (open_refs defs stack) * Suc (defs_nesting defs)"

lemma mapR_map_opt:
  assumes "\<And>x. x \<in> set xs \<Longrightarrow> f x = (case g x of None \<Rightarrow> Inl e | Some w \<Rightarrow> Inr w)"
  shows "mapR f xs = (case map_opt g xs of None \<Rightarrow> Inl e | Some ys \<Rightarrow> Inr ys)"
  using assms by (induction xs) (auto split: option.splits)

lemma nesting_le: "x \<in> set xs \<Longrightarrow> Suc (f x) \<le> Suc (Max (insert (0 :: nat) (f ` set xs)))"
  by (simp add: Max_ge)

lemma enough_calls: "schema_calls defs stack v \<le> n \<Longrightarrow> project_limited n D defs stack v = raised (project_node D defs stack v)"
proof (induction D defs stack v arbitrary: n rule: project_node.induct)
  case (1 D defs stack v)
  from "1.prems" obtain m where n: "n = Suc m" and m: "nesting v + card (open_refs defs stack) * Suc (defs_nesting defs) \<le> m"
    by (cases n) (auto simp: schema_calls_def)
  show ?case
  proof (cases v)
    case (JArr xs)
    have "project_limited m D defs stack x = raised (project_node D defs stack x)" if "x \<in> set xs" for x
      by (rule "1.IH"(1) [OF JArr that]) (use m JArr nesting_le [OF that, of nesting] in \<open>simp add: schema_calls_def\<close>)
    then have "mapR (project_limited m D defs stack) xs =
        (case map_opt (project_node D defs stack) xs of None \<Rightarrow> Inl SchemaValueError | Some ys \<Rightarrow> Inr ys)"
      by (intro mapR_map_opt) (simp add: raised_def)
    then show ?thesis using JArr n by (subst project_node.simps) (auto simp: raised_def split: option.splits)
  next
    case (JObj kvs)
    show ?thesis
    proof (cases "map_of kvs (ustr ''$ref'')")
      case None
      let ?f = "\<lambda>kv. map_option (member_pair (fst kv)) (project_node D defs stack (snd kv))"
      let ?xs = "filter (\<lambda>kv. \<not> dropped_key D (fst kv)) kvs"
      have "project_limited m D defs stack (snd kv) = raised (project_node D defs stack (snd kv))" if "kv \<in> set ?xs" for kv
        by (rule "1.IH"(2) [OF JObj None that])
          (use m JObj nesting_le [OF subsetD [OF filter_is_subset that], of "\<lambda>kv. nesting (snd kv)"] in \<open>simp add: schema_calls_def\<close>)
      then have "mapR (\<lambda>kv. bindR (project_limited m D defs stack (snd kv)) (\<lambda>w. Inr (member_pair (fst kv) w))) ?xs =
          (case map_opt ?f ?xs of None \<Rightarrow> Inl SchemaValueError | Some ps \<Rightarrow> Inr ps)"
        by (intro mapR_map_opt) (simp add: raised_def split: option.splits)
      then show ?thesis using JObj None n by (subst project_node.simps) (auto simp: raised_def split: option.splits)
    next
      case (Some ref)
      show ?thesis
      proof (cases "\<exists>r w. ref = JStr r \<and> r \<notin> set stack \<and> resolve_reference r defs = Some w")
        case True
        then obtain r w where r: "ref = JStr r" "r \<notin> set stack" "resolve_reference r defs = Some w" by blast
        have "nesting w \<le> defs_nesting defs"
          using resolved_open(2) [OF r(3,2)] by (auto simp: defs_nesting_def intro!: Max_ge)
        moreover have "Suc (card (open_refs defs (stack @ [r]))) \<le> card (open_refs defs stack)"
          using resolved_fewer [OF r(3,2)] by simp
        then have "Suc (card (open_refs defs (stack @ [r]))) * Suc (defs_nesting defs) \<le> card (open_refs defs stack) * Suc (defs_nesting defs)"
          by (rule mult_le_mono1)
        ultimately have "schema_calls defs (stack @ [r]) w \<le> m" using m by (simp add: schema_calls_def)
        from "1.IH"(3) [OF JObj Some r(1,2,3) this] show ?thesis
          using JObj Some r n by (subst project_node.simps) simp
      next
        case False
        then show ?thesis using JObj Some n
          by (subst project_node.simps) (auto simp: raised_def split: json.splits option.splits)
      qed
    qed
  qed (use n in \<open>simp_all add: project_node.simps raised_def\<close>)
qed

section \<open>Compilation\<close>

record 'h compiled_schema =
  cs_dialect :: provider_dialect
  cs_body :: json
  cs_json :: pystr
  cs_sha :: 'h

text \<open>\<open>str(key)\<close> is the key itself: the keys of a decoded object are strings.\<close>

definition raw_definitions :: "(pystr \<times> json) list \<Rightarrow> (pystr \<times> json) list option" where
  "raw_definitions kvs = (case map_of kvs (ustr ''$defs'') of None \<Rightarrow> Some []
     | Some (JObj defs) \<Rightarrow> Some defs
     | Some _ \<Rightarrow> None)"

text \<open>
  \<open>compile_provider_schema\<close>: \<open>None\<close> when an exception leaves it. The length constraints are those of
  \<open>CompiledProviderSchema\<close>.
\<close>

definition compile_provider_schema :: "loads_env \<Rightarrow> (pystr \<Rightarrow> 'h) \<Rightarrow> pystr \<Rightarrow> provider_dialect \<Rightarrow> 'h compiled_schema option" where
  "compile_provider_schema E sha text D = (case json_loads E text of
      Inr (JObj kvs) \<Rightarrow>
        Option.bind (raw_definitions kvs) (\<lambda>defs.
        Option.bind (project_node D defs [] (JObj kvs)) (\<lambda>w.
          if \<not> is_object w then None
          else Option.bind (canonical_json w) (\<lambda>t.
            guard_opt (2 \<le> utf8_length t \<and> utf8_length t \<le> 1000000)
              \<lparr>cs_dialect = D, cs_body = w, cs_json = t, cs_sha = sha t\<rparr>)))
    | _ \<Rightarrow> None)"

lemma compiled_shape:
  assumes "compile_provider_schema E sha text D = Some c"
  shows "provider_schema_ok D (cs_body c) \<and> is_object (cs_body c) \<and> canonical_json (cs_body c) = Some (cs_json c) \<and>
    cs_sha c = sha (cs_json c)"
  using assms
  by (auto simp: compile_provider_schema_def bind_eq_Some_conv split: sum.splits json.splits if_splits dest: project_node_ok)

section \<open>Properties\<close>

lemma open_refs_length: "card (open_refs defs []) \<le> length defs"
proof -
  have "open_refs defs [] = set (map (\<lambda>kv. defs_prefix @ fst kv) defs)" by (simp add: open_refs_def image_image)
  then show ?thesis using card_length [of "map (\<lambda>kv. defs_prefix @ fst kv) defs"] by simp
qed

text \<open>
  C28. The projection terminates on every schema, also one whose definitions refer to each other: the
  stack of references forbids a cycle, so the Python recursion is never deeper than the nesting of the
  schema plus that of one definition for each definition there is. With that many calls the limited
  recursion returns exactly the projected schema or the \<open>ValueError\<close>.
\<close>

theorem schema_projection_terminates:
  assumes "Suc (nesting v) + length defs * Suc (defs_nesting defs) \<le> n"
  shows "project_limited n D defs [] v = (case project_node D defs [] v of None \<Rightarrow> Inl SchemaValueError | Some w \<Rightarrow> Inr w)"
proof -
  have "schema_calls defs [] v \<le> n"
    using mult_le_mono1 [OF open_refs_length, of defs "Suc (defs_nesting defs)"] assms by (simp add: schema_calls_def)
  then show ?thesis by (simp add: enough_calls raised_def)
qed

definition example_schema :: pystr where
  "example_schema = concat (map (\<lambda>w. if w = ''Q'' then [34] else ustr w)
     [''{'', ''Q'', ''$defs'', ''Q'', '':{'', ''Q'', ''A'', ''Q'', '':{'', ''Q'', ''properties'', ''Q'', '':{'', ''Q'', ''x'', ''Q'',
      '':{'', ''Q'', ''const'', ''Q'', '': 1, '', ''Q'', ''pattern'', ''Q'', '': null}}}},'',
      ''Q'', ''properties'', ''Q'', '':{'', ''Q'', ''a'', ''Q'', '':{'', ''Q'', ''$ref'', ''Q'', '':'', ''Q'', ''#/$defs/A'', ''Q'', ''}}}''])"

definition cyclic_defs :: "(pystr \<times> json) list" where
  "cyclic_defs = [(ustr ''A'', JObj [(ustr ''items'', JObj [(ustr ''$ref'', JStr (ustr ''#/$defs/B''))])]),
     (ustr ''B'', JArr [JObj [(ustr ''$ref'', JStr (ustr ''#/$defs/A''))]])]"

theorem schema_projection_terminates_witness:
  "project_limited 8 OpenAISchema cyclic_defs [] (JObj [(ustr ''$ref'', JStr (ustr ''#/$defs/A''))]) = Inl SchemaValueError"
proof -
  have "defs_nesting cyclic_defs = 2" by (simp add: defs_nesting_def cyclic_defs_def)
  then have n: "Suc (nesting (JObj [(ustr ''$ref'', JStr (ustr ''#/$defs/A''))])) + length cyclic_defs * Suc (defs_nesting cyclic_defs) \<le> 8"
    by (simp add: cyclic_defs_def)
  have "project_node OpenAISchema cyclic_defs [] (JObj [(ustr ''$ref'', JStr (ustr ''#/$defs/A''))]) = None" by code_simp
  then show ?thesis using schema_projection_terminates [OF n, of OpenAISchema] by simp
qed



end
