(* ===== verification/Provider_Http.thy ===== *)
theory Provider_Http
  imports Provider_Schema
begin

text \<open>
  \<open>backend/app/providers/http.py\<close>: the transport every adapter shares. A request body is encoded before
  anything is sent, the response is read in chunks under a hard limit, decoded as JSON when it is
  JSON, and only a few headers are kept. The HTTP library is the parameter \<open>he_send\<close>; what it may do is
  a value of \<open>transport_result\<close>.
\<close>

section \<open>Bytes and text\<close>

definition utf8_char :: "nat \<Rightarrow> pystr" where
  "utf8_char c = (if c < 128 then [c] else if c < 2048 then [192 + c div 64, 128 + c mod 64]
     else if c < 65536 then [224 + c div 4096, 128 + c div 64 mod 64, 128 + c mod 64]
     else [240 + c div 262144, 128 + c div 4096 mod 64, 128 + c div 64 mod 64, 128 + c mod 64])"

definition utf8_encode :: "pystr \<Rightarrow> pystr" where
  "utf8_encode s = concat (map utf8_char s)"

definition continuation :: "nat \<Rightarrow> bool" where
  "continuation b \<longleftrightarrow> 128 \<le> b \<and> b < 192"

text \<open>
  The decoder of \<open>json.loads\<close> with \<open>surrogatepass\<close>: overlong forms and values beyond the code space
  are refused, the three byte forms of surrogates are not.
\<close>

fun utf8_decode :: "pystr \<Rightarrow> pystr option" where
  "utf8_decode [] = Some []"
| "utf8_decode (a # s) =
     (if a < 128 then map_option ((#) a) (utf8_decode s)
      else case s of [] \<Rightarrow> None
      | b # t \<Rightarrow>
          if 194 \<le> a \<and> a < 224 \<and> continuation b
          then map_option ((#) ((a - 192) * 64 + (b - 128))) (utf8_decode t)
          else (case t of [] \<Rightarrow> None
          | c # u \<Rightarrow>
              if (a = 224 \<and> 160 \<le> b \<or> 225 \<le> a \<and> a < 240) \<and> continuation b \<and> continuation c
              then map_option ((#) ((a - 224) * 4096 + (b - 128) * 64 + (c - 128))) (utf8_decode u)
              else (case u of [] \<Rightarrow> None
              | d # v \<Rightarrow>
                  if (a = 240 \<and> 144 \<le> b \<or> 241 \<le> a \<and> a < 244 \<or> a = 244 \<and> b < 144) \<and>
                    continuation b \<and> continuation c \<and> continuation d
                  then map_option ((#) ((a - 240) * 262144 + (b - 128) * 4096 + (c - 128) * 64 + (d - 128))) (utf8_decode v)
                  else None)))"

lemma utf8_length_bytes: "utf8_length s = length (utf8_encode s)"
  by (induction s) (simp_all add: utf8_length_def utf8_encode_def utf8_char_def)

lemma decode_char:
  assumes "c < 1114112"
  shows "utf8_decode (utf8_char c @ s) = map_option ((#) c) (utf8_decode s)"
proof -
  consider "c < 128" | "128 \<le> c" "c < 2048" | "2048 \<le> c" "c < 65536" | "65536 \<le> c" by linarith
  then show ?thesis
  proof cases
    case 2
    have b: "2 \<le> c div 64" "c div 64 < 32" using 2 by (simp_all add: div_less_iff_less_mult less_eq_div_iff_mult_less_eq)
    have "c div 64 * 64 + c mod 64 = c" by simp
    then show ?thesis using 2 b by (simp add: utf8_char_def continuation_def)
  next
    case 3
    have b: "c div 4096 < 16" "c div 4096 = 0 \<Longrightarrow> 32 \<le> c div 64 mod 64"
    proof -
      show "c div 4096 < 16" using 3 by (simp add: div_less_iff_less_mult)
      assume "c div 4096 = 0"
      then have "c div 64 < 64" "32 \<le> c div 64" using 3 by (simp_all add: div_less_iff_less_mult less_eq_div_iff_mult_less_eq div_eq_0_iff)
      then show "32 \<le> c div 64 mod 64" by simp
    qed
    have "c div 4096 = c div 64 div 64" by (simp add: div_mult2_eq [of c 64 64, simplified])
    then have "c div 4096 * 4096 + c div 64 mod 64 * 64 + c mod 64 = c"
      using mult_div_mod_eq [of 64 "c div 64"] mult_div_mod_eq [of 64 c] by linarith
    then show ?thesis using 3 b by (auto simp: utf8_char_def continuation_def)
  next
    case 4
    have b: "c div 262144 < 5" "c div 262144 = 0 \<Longrightarrow> 16 \<le> c div 4096 mod 64" "c div 262144 = 4 \<Longrightarrow> c div 4096 mod 64 < 16"
    proof -
      show "c div 262144 < 5" using assms by (simp add: div_less_iff_less_mult)
      have q: "c div 262144 = c div 4096 div 64" by (simp add: div_mult2_eq [of c 4096 64, simplified])
      have r: "16 \<le> c div 4096" "c div 4096 < 272" using 4 assms by (simp_all add: div_less_iff_less_mult less_eq_div_iff_mult_less_eq)
      note m = mult_div_mod_eq [of 64 "c div 4096"]
      show "16 \<le> c div 4096 mod 64" if "c div 262144 = 0" using m q r that by linarith
      show "c div 4096 mod 64 < 16" if "c div 262144 = 4" using m q r that by linarith
    qed
    have "c div 4096 = c div 64 div 64" "c div 262144 = c div 4096 div 64"
      by (simp_all add: div_mult2_eq [of c 64 64, simplified] div_mult2_eq [of c 4096 64, simplified])
    then have "c div 262144 * 262144 + c div 4096 mod 64 * 4096 + c div 64 mod 64 * 64 + c mod 64 = c"
      using mult_div_mod_eq [of 64 "c div 4096"] mult_div_mod_eq [of 64 "c div 64"] mult_div_mod_eq [of 64 c] by linarith
    moreover have "c div 262144 \<in> {0, 1, 2, 3, 4}" using b(1) by auto
    ultimately show ?thesis using 4 b(2,3) by (auto simp: utf8_char_def continuation_def)
  qed (simp add: utf8_char_def)
qed

lemma utf8_roundtrip: "\<forall>c \<in> set s. c < 1114112 \<Longrightarrow> utf8_decode (utf8_encode s) = Some s"
  by (induction s) (simp_all add: utf8_encode_def decode_char)

text \<open>
  \<open>json.detect_encoding\<close>: the UTF-16 and UTF-32 forms and their byte order marks, whose decoding is a
  parameter, are told from UTF-8 by their zero bytes.
\<close>

definition wide_form :: "pystr \<Rightarrow> bool" where
  "wide_form b \<longleftrightarrow> is_prefix [255, 254] b \<or> is_prefix [254, 255] b \<or> is_prefix [0, 0, 254, 255] b \<or>
     (4 \<le> length b \<or> length b = 2) \<and> (b ! 0 = 0 \<or> b ! 1 = 0)"

definition decode_body :: "(pystr \<Rightarrow> pystr option) \<Rightarrow> pystr \<Rightarrow> pystr option" where
  "decode_body wide b = (if wide_form b then wide b
     else utf8_decode (if is_prefix [239, 187, 191] b then drop 3 b else b))"

text \<open>\<open>json.loads\<close> of bytes; a \<open>UnicodeDecodeError\<close> is caught like a decode error.\<close>

definition loads_body :: "loads_env \<Rightarrow> (pystr \<Rightarrow> pystr option) \<Rightarrow> pystr \<Rightarrow> loads_exn + json" where
  "loads_body L wide b = (case decode_body wide b of None \<Rightarrow> Inl LoadsDecode | Some t \<Rightarrow> json_loads L t)"

lemma utf8_char_first: "c < 128 \<Longrightarrow> utf8_encode (c # s) = c # utf8_encode s"
  by (simp add: utf8_encode_def utf8_char_def)

lemma utf8_char_pos: "0 < c \<Longrightarrow> \<exists>b t. utf8_char c = b # t \<and> 0 < b"
  by (simp add: utf8_char_def)

lemma encoded_body:
  assumes "s = c # t" "0 < c" "c < 128" "\<forall>x \<in> set s. 0 < x \<and> x < 1114112"
  shows "decode_body wide (utf8_encode s) = Some s"
proof -
  have e: "utf8_encode s = c # utf8_encode t" using assms(1,3) by (simp add: utf8_char_first)
  have "b \<noteq> 0" if "utf8_encode t = b # u" for b u
  proof (cases t)
    case (Cons x r)
    then have "0 < x" using assms(1,4) by simp
    from utf8_char_pos [OF this] show ?thesis using that Cons by (auto simp: utf8_encode_def)
  qed (use that in \<open>simp add: utf8_encode_def\<close>)
  then have "\<not> wide_form (utf8_encode s)" using assms(2,3) e by (cases "utf8_encode t") (auto simp: wide_form_def)
  moreover have "\<not> is_prefix [239, 187, 191] (utf8_encode s)" using e assms(3) by auto
  ultimately show ?thesis using assms(4) by (simp add: decode_body_def utf8_roundtrip)
qed

section \<open>The transport\<close>

record http_request =
  rq_method :: pystr
  rq_target :: pystr
  rq_url :: pystr
  rq_headers :: "(pystr \<times> pystr) list"
  rq_content :: "pystr option"

text \<open>
  How the exchange ends: the stream is complete, \<open>httpcore\<close> reports a timeout or a network or
  protocol error, the deadline of the adapter cancels it, or another exception escapes.
\<close>

datatype stream_end = StreamDone | StreamTimeout | StreamBroken | StreamDeadline | StreamRaised

datatype transport_result =
    NoReply stream_end
  | Reply int "(pystr \<times> pystr) list" "pystr list" stream_end

record http_env =
  he_loads :: loads_env
  he_wide :: "pystr \<Rightarrow> pystr option"
  he_send :: "http_request \<Rightarrow> transport_result"

datatype http_exn = HttpError provider_error | HttpDeadline | HttpRaised

definition max_response_bytes :: nat where
  "max_response_bytes = 1000000"

text \<open>The chunk loop: \<open>None\<close> once the limit is exceeded.\<close>

fun read_chunks :: "nat \<Rightarrow> pystr list \<Rightarrow> pystr option" where
  "read_chunks n [] = Some []"
| "read_chunks n (c # cs) =
     (let n' = n + length c in
      if max_response_bytes < n' then None else map_option ((@) c) (read_chunks n' cs))"

definition stream_exn :: "stream_end \<Rightarrow> http_exn option" where
  "stream_exn e = (case e of StreamDone \<Rightarrow> None
     | StreamTimeout \<Rightarrow> Some (HttpError (unknown_error PTimeout None))
     | StreamBroken \<Rightarrow> Some (HttpError (unknown_error PNetworkUnavailable None))
     | StreamDeadline \<Rightarrow> Some HttpDeadline
     | StreamRaised \<Rightarrow> Some HttpRaised)"

definition lower_ascii :: "pystr \<Rightarrow> pystr" where
  "lower_ascii s = map (\<lambda>c. if 65 \<le> c \<and> c \<le> 90 then c + 32 else c) s"

definition safe_response_headers :: "pystr list" where
  "safe_response_headers = [ustr ''content-type'', ustr ''openai-request-id'', ustr ''request-id'', ustr ''retry-after'', ustr ''x-request-id'']"

definition safe_headers :: "(pystr \<times> pystr) list \<Rightarrow> (pystr \<times> pystr) list" where
  "safe_headers hs = dict_of (map (\<lambda>h. (lower_ascii (fst h), snd h))
     (filter (\<lambda>h. lower_ascii (fst h) \<in> set safe_response_headers) hs))"

text \<open>\<open>_request_json\<close>.\<close>

definition request_json_body :: "http_env \<Rightarrow> http_request \<Rightarrow> http_exn + http_response" where
  "request_json_body H rq = (case he_send H rq of
      NoReply e \<Rightarrow> Inl (case stream_exn e of Some x \<Rightarrow> x | None \<Rightarrow> HttpRaised)
    | Reply status headers chunks e \<Rightarrow>
        (case read_chunks 0 chunks of
           None \<Rightarrow> Inl (HttpError (plain_error PResponseTooLarge None))
         | Some raw \<Rightarrow>
             (case stream_exn e of Some x \<Rightarrow> Inl x
              | None \<Rightarrow>
                  (case loads_body (he_loads H) (he_wide H) raw of
                     Inl LoadsDecode \<Rightarrow> Inr \<lparr>hr_status = status, hr_json = JNull, hr_raw = raw, hr_headers = safe_headers headers\<rparr>
                   | Inl _ \<Rightarrow> Inl HttpRaised
                   | Inr j \<Rightarrow> Inr \<lparr>hr_status = status, hr_json = j, hr_raw = raw, hr_headers = safe_headers headers\<rparr>))))"

text \<open>\<open>post_json\<close>: \<open>json.dumps\<close> without sorting; both its \<open>ValueError\<close> and that of \<open>encode\<close> are classified.\<close>

definition post_json :: "http_env \<Rightarrow> pystr \<Rightarrow> pystr \<Rightarrow> (pystr \<times> pystr) list \<Rightarrow> json \<Rightarrow> http_exn + http_response" where
  "post_json H target url headers body =
     (if \<not> json_encodable body then Inl (HttpError (plain_error PRequestInvalid None))
      else request_json_body H \<lparr>rq_method = ustr ''POST'', rq_target = target, rq_url = url, rq_headers = headers,
        rq_content = Some (utf8_encode (render_json body))\<rparr>)"

definition get_json :: "http_env \<Rightarrow> pystr \<Rightarrow> pystr \<Rightarrow> (pystr \<times> pystr) list \<Rightarrow> http_exn + http_response" where
  "get_json H target url headers = request_json_body H \<lparr>rq_method = ustr ''GET'', rq_target = target, rq_url = url,
     rq_headers = headers, rq_content = None\<rparr>"

lemma read_chunks_bound: "read_chunks n cs = Some raw \<Longrightarrow> n \<le> max_response_bytes \<Longrightarrow> n + length raw \<le> max_response_bytes \<and> raw = concat cs"
proof (induction n cs arbitrary: raw rule: read_chunks.induct)
  case (2 n c cs)
  then obtain r where r: "raw = c @ r" "read_chunks (n + length c) cs = Some r" "n + length c \<le> max_response_bytes"
    by (auto simp: Let_def not_less split: if_splits)
  have "n + length c + length r \<le> max_response_bytes \<and> r = concat cs"
    by (rule "2.IH" [OF refl _ r(2,3)]) (use r(3) in simp)
  then have "n + length c + length r \<le> max_response_bytes" "r = concat cs" by blast+
  then show ?case using r(1) by (simp only: length_append concat.simps add.assoc)
qed simp

lemma response_bounds:
  assumes "request_json_body H rq = Inr h"
  shows "length (hr_raw h) \<le> max_response_bytes \<and> fst ` set (hr_headers h) \<subseteq> set safe_response_headers"
proof -
  obtain status hs cs e raw where r: "he_send H rq = Reply status hs cs e" "read_chunks 0 cs = Some raw" "hr_raw h = raw"
    "hr_headers h = safe_headers hs"
    using assms by (auto simp: request_json_body_def split: transport_result.splits option.splits sum.splits loads_exn.splits)
  have "set (safe_headers hs) \<subseteq> set (map (\<lambda>h. (lower_ascii (fst h), snd h)) (filter (\<lambda>h. lower_ascii (fst h) \<in> set safe_response_headers) hs))"
    unfolding safe_headers_def by (rule dict_of_subset)
  then have "fst ` set (safe_headers hs) \<subseteq> set safe_response_headers" by auto
  moreover have "length raw \<le> max_response_bytes" using read_chunks_bound [OF r(2)] by linarith
  ultimately show ?thesis by (simp only: r(3,4))
qed

lemma http_errors:
  assumes "request_json_body H rq = Inl (HttpError e)"
  shows "pr_response e = None \<and> pr_retry_safety e \<noteq> RetrySafe"
  using assms
  by (auto simp: request_json_body_def stream_exn_def plain_error_def unknown_error_def
      split: transport_result.splits option.splits sum.splits loads_exn.splits stream_end.splits)

end
