(* ===== verification/Provider_Adapters.thy ===== *)
theory Provider_Adapters
  imports Provider_Http
begin

text \<open>
  The seven adapters of \<open>backend/app/providers\<close>: each checks that the frozen capabilities are the ones
  it supports, builds one request body, sends it once, classifies the status and reads the answer
  field by field. Inside the \<open>try\<close> block of an adapter a missing key or a wrong type becomes an
  invalid response (\<open>AdInvalid\<close> until the \<open>except\<close>); an exception that is not a \<open>ProviderAdapterError\<close>
  is \<open>AdRaised\<close>. The URL policy and the HTTP library are parameters.
\<close>

section \<open>Environment and errors\<close>

datatype url_check = UrlRejected | UrlDeadline | UrlRaised | UrlOk pystr

record adapter_env =
  ad_http :: http_env
  ad_url :: "provider_type \<Rightarrow> pystr \<Rightarrow> url_check"
  ad_sha :: "pystr \<Rightarrow> digest"

datatype adapter_exn = AdUrl | AdError provider_error | AdInvalid | AdRaised

definition fail_with :: "provider_code \<Rightarrow> http_response option \<Rightarrow> adapter_exn + 'a" where
  "fail_with code resp = Inl (AdError (plain_error code resp))"

definition must :: "bool \<Rightarrow> adapter_exn + unit" where
  "must c = ensure c AdInvalid"

text \<open>\<open>async with asyncio.timeout(...)\<close> around the URL check and the request.\<close>

definition send_request ::
    "adapter_env \<Rightarrow> provider_type \<Rightarrow> pystr \<Rightarrow> pystr \<Rightarrow> (pystr \<times> pystr) list \<Rightarrow> json \<Rightarrow> adapter_exn + http_response" where
  "send_request A p base path headers body = (case ad_url A p base of
      UrlRejected \<Rightarrow> Inl AdUrl
    | UrlDeadline \<Rightarrow> Inl (AdError (unknown_error PTimeout None))
    | UrlRaised \<Rightarrow> Inl AdRaised
    | UrlOk target \<Rightarrow> (case post_json (ad_http A) target (target @ path) headers body of
        Inl (HttpError e) \<Rightarrow> Inl (AdError e)
      | Inl HttpDeadline \<Rightarrow> Inl (AdError (unknown_error PTimeout None))
      | Inl HttpRaised \<Rightarrow> Inl AdRaised
      | Inr h \<Rightarrow> Inr h))"

definition check_status :: "provider_type \<Rightarrow> http_response \<Rightarrow> adapter_exn + unit" where
  "check_status p h = (case raise_for_provider_status h p of Inl e \<Rightarrow> Inl (AdError e) | Inr u \<Rightarrow> Inr u)"

text \<open>\<open>except (KeyError, TypeError)\<close>.\<close>

definition or_invalid :: "http_response option \<Rightarrow> adapter_exn + 'a \<Rightarrow> adapter_exn + 'a" where
  "or_invalid resp m = (case m of Inl AdInvalid \<Rightarrow> fail_with PResponseInvalid resp | _ \<Rightarrow> m)"

section \<open>Reading JSON\<close>

type_synonym fields = "(pystr \<times> json) list"

definition as_object :: "json \<Rightarrow> adapter_exn + fields" where
  "as_object j = (case j of JObj kvs \<Rightarrow> Inr kvs | _ \<Rightarrow> Inl AdInvalid)"

definition field :: "fields \<Rightarrow> string \<Rightarrow> json option" where
  "field kvs k = map_of kvs (ustr k)"

definition member :: "fields \<Rightarrow> string \<Rightarrow> adapter_exn + json" where
  "member kvs k = (case field kvs k of None \<Rightarrow> Inl AdInvalid | Some v \<Rightarrow> Inr v)"

definition field_is :: "fields \<Rightarrow> string \<Rightarrow> string \<Rightarrow> bool" where
  "field_is kvs k s \<longleftrightarrow> field kvs k = Some (JStr (ustr s))"

definition field_in :: "fields \<Rightarrow> string \<Rightarrow> string list \<Rightarrow> bool" where
  "field_in kvs k ss \<longleftrightarrow> (\<exists>s \<in> set ss. field_is kvs k s)"

definition as_text :: "json \<Rightarrow> adapter_exn + pystr" where
  "as_text j = (case j of JStr s \<Rightarrow> if s = [] then Inl AdInvalid else Inr s | _ \<Rightarrow> Inl AdInvalid)"

definition as_output :: "json \<Rightarrow> adapter_exn + pystr" where
  "as_output j = (case j of JStr s \<Rightarrow> if py_strip s = [] then Inl AdInvalid else Inr s | _ \<Rightarrow> Inl AdInvalid)"

definition as_single :: "json \<Rightarrow> adapter_exn + json" where
  "as_single j = (case j of JArr [x] \<Rightarrow> Inr x | _ \<Rightarrow> Inl AdInvalid)"

text \<open>\<open>type(value) is not int or value < 0\<close>: a boolean is not a count.\<close>

definition as_count :: "json \<Rightarrow> adapter_exn + int" where
  "as_count j = (case j of JInt i \<Rightarrow> if i < 0 then Inl AdInvalid else Inr i | _ \<Rightarrow> Inl AdInvalid)"

definition count_at :: "fields \<Rightarrow> string \<Rightarrow> adapter_exn + int" where
  "count_at kvs k = bindR (member kvs k) as_count"

definition count_or :: "json \<Rightarrow> fields \<Rightarrow> string \<Rightarrow> adapter_exn + int" where
  "count_or d kvs k = as_count (case field kvs k of None \<Rightarrow> d | Some v \<Rightarrow> v)"

text \<open>\<open>value == 0\<close>, which also holds of \<open>False\<close> and of a float zero.\<close>

definition equals_zero :: "json \<Rightarrow> bool" where
  "equals_zero j = (case j of JInt i \<Rightarrow> i = 0 | JBool b \<Rightarrow> \<not> b | JFloat d \<Rightarrow> dec_coef d = 0 | _ \<Rightarrow> False)"

definition index_zero :: "fields \<Rightarrow> bool" where
  "index_zero kvs = (case field kvs ''index'' of Some v \<Rightarrow> equals_zero v | None \<Rightarrow> False)"

definition truthy :: "json \<Rightarrow> bool" where
  "truthy j = (case j of JNull \<Rightarrow> False | JBool b \<Rightarrow> b | JInt i \<Rightarrow> i \<noteq> 0 | JFloat d \<Rightarrow> dec_coef d \<noteq> 0
     | JStr s \<Rightarrow> s \<noteq> [] | JArr xs \<Rightarrow> xs \<noteq> [] | JObj kvs \<Rightarrow> kvs \<noteq> [] | JNonFinite n \<Rightarrow> True)"

text \<open>\<open>payload.get("error")\<close> and its \<open>code\<close>, when both are objects.\<close>

definition error_code_of :: "http_response \<Rightarrow> json option" where
  "error_code_of h = (case hr_json h of
      JObj p \<Rightarrow> (case field p ''error'' of Some (JObj e) \<Rightarrow> field e ''code'' | _ \<Rightarrow> None)
    | _ \<Rightarrow> None)"

section \<open>The result\<close>

record answer =
  an_request_id :: pystr
  an_model :: pystr
  an_text :: pystr
  an_usage :: token_usage

text \<open>The field constraints of \<open>ProviderGradeResult\<close> and \<open>ProviderCostEstimate\<close>.\<close>

definition text_between :: "nat \<Rightarrow> nat \<Rightarrow> pystr \<Rightarrow> bool" where
  "text_between lo hi s \<longleftrightarrow> length_between lo hi s \<and> encodable s"

definition cost_fields_ok :: "cost_estimate option \<Rightarrow> bool" where
  "cost_fields_ok c \<longleftrightarrow> (case c of None \<Rightarrow> True | Some x \<Rightarrow> dec_le dec_zero (cost_amount x) \<and> is_currency (cost_currency x))"

definition result_fields_ok :: "provider_result \<Rightarrow> bool" where
  "result_fields_ok r \<longleftrightarrow> text_between 1 255 (res_requested_model r) \<and> text_between 1 255 (res_reported_model r) \<and>
     text_between 1 500 (res_request_id r) \<and> text_between 1 1000000 (res_output_text r) \<and>
     cost_fields_ok (res_cost r) \<and> length (res_raw r) \<le> 1000000"

definition make_result ::
    "adapter_env \<Rightarrow> provider_grade_request \<Rightarrow> provider_type \<Rightarrow> digest \<Rightarrow> http_response \<Rightarrow> answer \<Rightarrow> adapter_exn + provider_result" where
  "make_result A r p schema_sha h a =
     (if \<not> validate_usage (an_usage a) then Inl AdRaised
      else case estimate_cost (an_usage a) (cap_pricing (pgr_capabilities r)) of
        Inl _ \<Rightarrow> Inl AdRaised
      | Inr cost \<Rightarrow>
          let x = \<lparr>res_provider = p, res_requested_model = pgr_model r, res_reported_model = an_model a,
                res_request_id = an_request_id a, res_output_text = an_text a, res_usage = an_usage a, res_cost = cost,
                res_raw = hr_raw h, res_raw_sha256 = ad_sha A (hr_raw h), res_schema_sha256 = schema_sha\<rparr>
          in if result_fields_ok x then Inr x else Inl AdRaised)"

text \<open>What every adapter does after the status was accepted.\<close>

definition finish_call ::
    "adapter_env \<Rightarrow> provider_grade_request \<Rightarrow> provider_type \<Rightarrow> digest \<Rightarrow> http_response option \<Rightarrow>
     (http_response \<Rightarrow> adapter_exn + answer) \<Rightarrow> http_response \<Rightarrow> adapter_exn + provider_result" where
  "finish_call A r p schema_sha invalid read h = bindR (or_invalid invalid (read h)) (make_result A r p schema_sha h)"

section \<open>Requests\<close>

fun role_text :: "message_role \<Rightarrow> pystr" where
  "role_text RoleSystem = ustr ''system''"
| "role_text RoleUser = ustr ''user''"

definition message_json :: "prompt_message \<Rightarrow> json" where
  "message_json m = JObj [(ustr ''role'', JStr (role_text (pm_role m))), (ustr ''content'', JStr (pm_content m))]"

definition obj :: "(string \<times> json) list \<Rightarrow> json" where
  "obj kvs = JObj (map (\<lambda>(k, v). (ustr k, v)) kvs)"

definition bearer_headers :: "pystr \<Rightarrow> (pystr \<times> pystr) list" where
  "bearer_headers key = [(ustr ''Accept'', ustr ''application/json''), (ustr ''Content-Type'', ustr ''application/json''),
     (ustr ''Authorization'', ustr ''Bearer '' @ key)]"

text \<open>\<open>compile_provider_schema(request.result_schema_json, ...)\<close>; the bytes are the canonical text of the schema.\<close>

definition compiled_for :: "adapter_env \<Rightarrow> provider_grade_request \<Rightarrow> provider_dialect \<Rightarrow> adapter_exn + digest compiled_schema" where
  "compiled_for A r D = (case Option.bind (canonical_json (pgr_schema r))
       (\<lambda>t. compile_provider_schema (he_loads (ad_http A)) (ad_sha A) t D) of
     None \<Rightarrow> Inl AdRaised | Some c \<Rightarrow> Inr c)"

definition supports ::
    "provider_grade_request \<Rightarrow> structured_output \<Rightarrow> schema_dialect \<Rightarrow> sampling_policy set \<Rightarrow> thinking_policy set \<Rightarrow>
     output_token_parameter \<Rightarrow> bool" where
  "supports r out dialect sampling thinking param \<longleftrightarrow> (let c = pgr_capabilities r in
     cap_structured_output c = out \<and> cap_schema_dialect c = dialect \<and> cap_sampling_policy c \<in> sampling \<and>
     cap_thinking_policy c \<in> thinking \<and> cap_output_parameter c = param)"

section \<open>Chat completions: DeepSeek and the compatible providers\<close>

text \<open>The part of the reading both share: identity, the single choice and its index.\<close>

definition read_chat_head :: "fields \<Rightarrow> adapter_exn + pystr \<times> pystr \<times> fields" where
  "read_chat_head p =
     bindR (must (field_is p ''object'' ''chat.completion'')) (\<lambda>_.
     bindR (bindR (member p ''id'') as_text) (\<lambda>i.
     bindR (bindR (member p ''model'') as_text) (\<lambda>m.
     bindR (bindR (bindR (member p ''choices'') as_single) as_object) (\<lambda>choice.
     bindR (must (index_zero choice)) (\<lambda>_. Inr (i, m, choice))))))"

definition deepseek_usage :: "fields \<Rightarrow> adapter_exn + token_usage" where
  "deepseek_usage u =
     bindR (count_at u ''prompt_tokens'') (\<lambda>pt.
     bindR (count_at u ''completion_tokens'') (\<lambda>ct.
     bindR (count_at u ''total_tokens'') (\<lambda>tt.
     bindR (count_or (JInt 0) u ''prompt_cache_hit_tokens'') (\<lambda>hit.
     bindR (count_or (JInt pt) u ''prompt_cache_miss_tokens'') (\<lambda>miss.
     bindR (must (tt = pt + ct \<and> hit + miss = pt)) (\<lambda>_.
     Inr \<lparr>use_input = pt, use_cached_input = hit, use_cache_write = 0, use_output = ct, use_reasoning = 0, use_total = Some tt\<rparr>))))))"

definition read_deepseek :: "http_response \<Rightarrow> adapter_exn + answer" where
  "read_deepseek h =
     bindR (as_object (hr_json h)) (\<lambda>p.
     bindR (read_chat_head p) (\<lambda>(i, m, choice).
       if field_is choice ''finish_reason'' ''length'' then fail_with POutputTruncated (Some h)
       else if field_is choice ''finish_reason'' ''content_filter'' then fail_with PContentRefused (Some h)
       else bindR (must (field_is choice ''finish_reason'' ''stop'')) (\<lambda>_.
         bindR (bindR (member choice ''message'') as_object) (\<lambda>msg.
         bindR (must (field_is msg ''role'' ''assistant'' \<and>
           field msg ''reasoning_content'' \<in> {None, Some JNull, Some (JStr [])})) (\<lambda>_.
         bindR (bindR (member msg ''content'') as_output) (\<lambda>text.
         bindR (bindR (bindR (member p ''usage'') as_object) deepseek_usage) (\<lambda>u.
         Inr \<lparr>an_request_id = i, an_model = m, an_text = text, an_usage = u\<rparr>)))))))"

definition deepseek_body :: "provider_grade_request \<Rightarrow> json" where
  "deepseek_body r = obj [(''model'', JStr (pgr_model r)), (''messages'', JArr (map message_json (gp_messages (pgr_prompt r)))),
     (''response_format'', obj [(''type'', jstr ''json_object'')]), (''temperature'', JInt 0),
     (''max_tokens'', JInt (pgr_max_output r)), (''stream'', JBool False), (''thinking'', obj [(''type'', jstr ''disabled'')])]"

definition deepseek_grade :: "adapter_env \<Rightarrow> provider_grade_request \<Rightarrow> adapter_exn + provider_result" where
  "deepseek_grade A r =
     (if pgr_type r \<noteq> DeepSeek then fail_with PCapabilityUnsupported None
      else if \<not> supports r JsonObject DialectCanonical {TemperatureZero} {ThinkingDisabled} MaxTokens
      then fail_with PCapabilityUnsupported None
      else bindR (send_request A DeepSeek (pgr_base_url r) (ustr ''/chat/completions'') (bearer_headers (pgr_api_key r)) (deepseek_body r)) (\<lambda>h.
           bindR (check_status DeepSeek h) (\<lambda>_.
           finish_call A r DeepSeek (gp_schema_hash (pgr_prompt r)) None read_deepseek h)))"

text \<open>\<open>OpenAICompatibleAdapter\<close> and its subclasses.\<close>

definition compatible_usage :: "fields \<Rightarrow> adapter_exn + token_usage" where
  "compatible_usage u =
     bindR (member u ''prompt_tokens'') (\<lambda>pt.
     bindR (member u ''completion_tokens'') (\<lambda>ct.
     bindR (member u ''total_tokens'') (\<lambda>tt.
     bindR (as_object (case field u ''prompt_tokens_details'' of None \<Rightarrow> JObj [] | Some v \<Rightarrow> v)) (\<lambda>ind.
     bindR (as_object (case field u ''completion_tokens_details'' of None \<Rightarrow> JObj [] | Some v \<Rightarrow> v)) (\<lambda>outd.
     bindR (as_count pt) (\<lambda>pt. bindR (as_count ct) (\<lambda>ct. bindR (as_count tt) (\<lambda>tt.
     bindR (count_or (JInt 0) ind ''cached_tokens'') (\<lambda>cached.
     bindR (count_or (JInt 0) outd ''reasoning_tokens'') (\<lambda>reasoning.
     bindR (must (tt = pt + ct)) (\<lambda>_.
     Inr \<lparr>use_input = pt, use_cached_input = cached, use_cache_write = 0, use_output = ct, use_reasoning = reasoning,
          use_total = Some tt\<rparr>)))))))))))"

definition read_compatible :: "http_response \<Rightarrow> adapter_exn + answer" where
  "read_compatible h =
     bindR (as_object (hr_json h)) (\<lambda>p.
     bindR (read_chat_head p) (\<lambda>(i, m, choice).
       if field_is choice ''finish_reason'' ''length'' then fail_with POutputTruncated (Some h)
       else if field_in choice ''finish_reason'' [''content_filter'', ''sensitive''] then fail_with PContentRefused (Some h)
       else if field_is choice ''finish_reason'' ''model_context_window_exceeded'' then fail_with PContextExceeded (Some h)
       else bindR (must (field_is choice ''finish_reason'' ''stop'')) (\<lambda>_.
         bindR (bindR (member choice ''message'') as_object) (\<lambda>msg.
         bindR (must (field_is msg ''role'' ''assistant'')) (\<lambda>_.
         bindR (bindR (member msg ''content'') as_output) (\<lambda>text.
         bindR (bindR (bindR (member p ''usage'') as_object) compatible_usage) (\<lambda>u.
         Inr \<lparr>an_request_id = i, an_model = m, an_text = text, an_usage = u\<rparr>)))))))"

fun output_parameter_text :: "output_token_parameter \<Rightarrow> string" where
  "output_parameter_text MaxTokens = ''max_tokens''"
| "output_parameter_text MaxCompletionTokens = ''max_completion_tokens''"
| "output_parameter_text MaxOutputTokens = ''max_output_tokens''"

fun sampling_parameters :: "sampling_policy \<Rightarrow> (string \<times> json) list" where
  "sampling_parameters TemperatureZero = [(''temperature'', JInt 0)]"
| "sampling_parameters TemperatureFixed06 = [(''temperature'', JFloat (Dec False 6 (- 1)))]"
| "sampling_parameters DoSampleFalse = [(''do_sample'', JBool False)]"
| "sampling_parameters SamplingOmit = []"

fun thinking_parameters :: "thinking_policy \<Rightarrow> (string \<times> json) list" where
  "thinking_parameters ThinkingDisabled = [(''thinking'', obj [(''type'', jstr ''disabled'')])]"
| "thinking_parameters ThinkingEnabled = [(''thinking'', obj [(''type'', jstr ''enabled'')])]"
| "thinking_parameters ThinkingOmit = []"

definition response_format :: "adapter_env \<Rightarrow> provider_grade_request \<Rightarrow> adapter_exn + json \<times> digest" where
  "response_format A r =
     (if cap_structured_output (pgr_capabilities r) = JsonObject
      then Inr (obj [(''type'', jstr ''json_object'')], gp_schema_hash (pgr_prompt r))
      else bindR (compiled_for A r OpenAISchema) (\<lambda>c. Inr (obj [(''type'', jstr ''json_schema''),
        (''json_schema'', obj [(''name'', jstr ''grade_result''), (''strict'', JBool True), (''schema'', cs_body c)])], cs_sha c)))"

definition compatible_body :: "provider_grade_request \<Rightarrow> json \<Rightarrow> json" where
  "compatible_body r format = (let c = pgr_capabilities r in
     obj ([(''model'', JStr (pgr_model r)), (''messages'', JArr (map message_json (gp_messages (pgr_prompt r)))),
        (''response_format'', format), (output_parameter_text (cap_output_parameter c), JInt (pgr_max_output r)),
        (''stream'', JBool False)] @ sampling_parameters (cap_sampling_policy c) @ thinking_parameters (cap_thinking_policy c)))"

definition compatible_capable :: "provider_type \<Rightarrow> provider_grade_request \<Rightarrow> bool" where
  "compatible_capable p r \<longleftrightarrow> pgr_type r = p \<and>
     (cap_structured_output (pgr_capabilities r), cap_schema_dialect (pgr_capabilities r))
       \<in> {(JsonObject, DialectCanonical), (JsonSchema, DialectOpenAI)}"

definition kimi_capable :: "provider_grade_request \<Rightarrow> bool" where
  "kimi_capable r \<longleftrightarrow> compatible_capable Kimi r \<and>
     supports r JsonObject DialectCanonical {SamplingOmit, TemperatureFixed06} {ThinkingDisabled, ThinkingOmit} MaxCompletionTokens"

definition glm_capable :: "provider_grade_request \<Rightarrow> bool" where
  "glm_capable r \<longleftrightarrow> compatible_capable Glm r \<and>
     supports r JsonObject DialectCanonical {DoSampleFalse} {ThinkingDisabled} MaxTokens \<and>
     \<not> cap_supports_listing (pgr_capabilities r)"

definition code_is :: "http_response \<Rightarrow> string \<Rightarrow> bool" where
  "code_is h s \<longleftrightarrow> error_code_of h = Some (JStr (ustr s))"

definition kimi_status :: "http_response \<Rightarrow> adapter_exn + unit" where
  "kimi_status h =
     (if code_is h ''exceeded_current_quota_error'' then fail_with PQuotaExhausted (Some h)
      else if code_is h ''engine_overloaded_error'' then Inl (AdError (unknown_error PUnavailable (Some h)))
      else if code_is h ''content_filter'' then fail_with PContentRefused (Some h)
      else check_status Kimi h)"

text \<open>
  \<open>str(error_code)\<close> for texts and integers; the text of any other value is none of the codes the
  adapter looks for.
\<close>

definition glm_code :: "http_response \<Rightarrow> pystr" where
  "glm_code h = (case error_code_of h of Some (JStr s) \<Rightarrow> s | Some (JInt i) \<Rightarrow> show_int i | _ \<Rightarrow> [])"

definition glm_code_in :: "http_response \<Rightarrow> string list \<Rightarrow> bool" where
  "glm_code_in h ss \<longleftrightarrow> glm_code h \<in> set (map ustr ss)"

definition glm_status :: "http_response \<Rightarrow> adapter_exn + unit" where
  "glm_status h =
     (if glm_code_in h [''1000'', ''1001'', ''1003''] then fail_with PAuthenticationFailed (Some h)
      else if glm_code_in h [''1113'', ''1308''] then fail_with PQuotaExhausted (Some h)
      else if glm_code_in h [''1301''] then fail_with PContentRefused (Some h)
      else if glm_code_in h [''1200'', ''1230'', ''1234'', ''1305''] then Inl (AdError (unknown_error PUnavailable (Some h)))
      else check_status Glm h)"

definition compatible_grade ::
    "provider_type \<Rightarrow> (provider_grade_request \<Rightarrow> bool) \<Rightarrow> (http_response \<Rightarrow> adapter_exn + unit) \<Rightarrow>
     adapter_env \<Rightarrow> provider_grade_request \<Rightarrow> adapter_exn + provider_result" where
  "compatible_grade p capable status A r =
     (if \<not> capable r then fail_with PCapabilityUnsupported None
      else bindR (response_format A r) (\<lambda>(format, schema_sha).
           bindR (send_request A p (pgr_base_url r) (ustr ''/chat/completions'') (bearer_headers (pgr_api_key r)) (compatible_body r format)) (\<lambda>h.
           bindR (status h) (\<lambda>_.
           finish_call A r p schema_sha (Some h) read_compatible h))))"

definition openai_compatible_grade :: "adapter_env \<Rightarrow> provider_grade_request \<Rightarrow> adapter_exn + provider_result" where
  "openai_compatible_grade = compatible_grade OpenAICompatible (compatible_capable OpenAICompatible) (check_status OpenAICompatible)"

definition kimi_grade :: "adapter_env \<Rightarrow> provider_grade_request \<Rightarrow> adapter_exn + provider_result" where
  "kimi_grade = compatible_grade Kimi kimi_capable kimi_status"

definition glm_grade :: "adapter_env \<Rightarrow> provider_grade_request \<Rightarrow> adapter_exn + provider_result" where
  "glm_grade = compatible_grade Glm glm_capable glm_status"

section \<open>OpenAI\<close>

definition openai_usage :: "fields \<Rightarrow> adapter_exn + token_usage" where
  "openai_usage u =
     bindR (member u ''input_tokens'') (\<lambda>it.
     bindR (member u ''output_tokens'') (\<lambda>ot.
     bindR (member u ''total_tokens'') (\<lambda>tt.
     bindR (bindR (member u ''input_tokens_details'') as_object) (\<lambda>ind.
     bindR (bindR (member u ''output_tokens_details'') as_object) (\<lambda>outd.
     bindR (as_count it) (\<lambda>it. bindR (as_count ot) (\<lambda>ot. bindR (as_count tt) (\<lambda>tt.
     bindR (count_at ind ''cached_tokens'') (\<lambda>cached.
     bindR (count_at outd ''reasoning_tokens'') (\<lambda>reasoning.
     bindR (must (tt = it + ot)) (\<lambda>_.
     Inr \<lparr>use_input = it, use_cached_input = cached, use_cache_write = 0, use_output = ot, use_reasoning = reasoning,
          use_total = Some tt\<rparr>)))))))))))"

definition openai_incomplete :: "http_response \<Rightarrow> fields \<Rightarrow> adapter_exn + 'a" where
  "openai_incomplete h p = (case field p ''incomplete_details'' of
      Some (JObj d) \<Rightarrow>
        if field_is d ''reason'' ''max_output_tokens'' then fail_with POutputTruncated (Some h)
        else if field_is d ''reason'' ''content_filter'' then fail_with PContentRefused (Some h)
        else Inl AdInvalid
    | _ \<Rightarrow> Inl AdInvalid)"

definition read_openai :: "http_response \<Rightarrow> adapter_exn + answer" where
  "read_openai h =
     bindR (as_object (hr_json h)) (\<lambda>p.
     bindR (must (field_is p ''object'' ''response'')) (\<lambda>_.
       if field_is p ''status'' ''incomplete'' then openai_incomplete h p
       else bindR (must (field_is p ''status'' ''completed'')) (\<lambda>_.
         bindR (bindR (member p ''id'') as_text) (\<lambda>i.
         bindR (bindR (member p ''model'') as_text) (\<lambda>m.
         bindR (bindR (bindR (member p ''output'') as_single) as_object) (\<lambda>msg.
         bindR (must (field_is msg ''type'' ''message'' \<and> field_is msg ''role'' ''assistant'' \<and> field_is msg ''status'' ''completed'')) (\<lambda>_.
         bindR (bindR (bindR (member msg ''content'') as_single) as_object) (\<lambda>block.
           if field_is block ''type'' ''refusal'' then fail_with PContentRefused (Some h)
           else bindR (must (field_is block ''type'' ''output_text'')) (\<lambda>_.
             bindR (bindR (member block ''text'') as_output) (\<lambda>text.
             bindR (bindR (bindR (member p ''usage'') as_object) openai_usage) (\<lambda>u.
             Inr \<lparr>an_request_id = i, an_model = m, an_text = text, an_usage = u\<rparr>)))))))))))"

text \<open>
  \<open>error_code in {...}\<close> before the status check and outside the \<open>try\<close> block: an array or object is not
  hashable, so the membership test raises \<open>TypeError\<close>.
\<close>

definition openai_status :: "http_response \<Rightarrow> adapter_exn + unit" where
  "openai_status h = (case error_code_of h of
      Some (JArr _) \<Rightarrow> Inl AdRaised
    | Some (JObj _) \<Rightarrow> Inl AdRaised
    | c \<Rightarrow> if c \<in> {Some (JStr (ustr ''insufficient_quota'')), Some (JStr (ustr ''billing_hard_limit_reached''))}
        then fail_with PQuotaExhausted (Some h) else check_status OpenAI h)"

definition openai_body :: "provider_grade_request \<Rightarrow> json \<Rightarrow> json" where
  "openai_body r schema = obj [(''model'', JStr (pgr_model r)),
     (''input'', JArr (map (\<lambda>m. obj [(''role'', JStr (role_text (pm_role m))),
        (''content'', JArr [obj [(''type'', jstr ''input_text''), (''text'', JStr (pm_content m))]])]) (gp_messages (pgr_prompt r)))),
     (''text'', obj [(''format'', obj [(''type'', jstr ''json_schema''), (''name'', jstr ''grade_result''), (''strict'', JBool True),
        (''schema'', schema)])]),
     (''max_output_tokens'', JInt (pgr_max_output r)), (''store'', JBool False), (''stream'', JBool False)]"

definition openai_grade :: "adapter_env \<Rightarrow> provider_grade_request \<Rightarrow> adapter_exn + provider_result" where
  "openai_grade A r =
     (if pgr_type r \<noteq> OpenAI \<or> \<not> supports r JsonSchema DialectOpenAI {SamplingOmit} {ThinkingOmit} MaxOutputTokens
      then fail_with PCapabilityUnsupported None
      else bindR (compiled_for A r OpenAISchema) (\<lambda>c.
           bindR (send_request A OpenAI (pgr_base_url r) (ustr ''/responses'') (bearer_headers (pgr_api_key r)) (openai_body r (cs_body c))) (\<lambda>h.
           bindR (openai_status h) (\<lambda>_.
           finish_call A r OpenAI (cs_sha c) (Some h) read_openai h))))"

section \<open>Anthropic\<close>

text \<open>A system message first, then only messages of the user.\<close>

definition system_then_user :: "prompt_message list \<Rightarrow> bool" where
  "system_then_user ms \<longleftrightarrow> (case ms of [] \<Rightarrow> False | m # rest \<Rightarrow> pm_role m = RoleSystem \<and> list_all (\<lambda>x. pm_role x = RoleUser) rest)"

definition anthropic_usage :: "fields \<Rightarrow> adapter_exn + token_usage" where
  "anthropic_usage u =
     bindR (count_at u ''input_tokens'') (\<lambda>it.
     bindR (count_or (JInt 0) u ''cache_creation_input_tokens'') (\<lambda>cw.
     bindR (count_or (JInt 0) u ''cache_read_input_tokens'') (\<lambda>cr.
     bindR (count_at u ''output_tokens'') (\<lambda>ot.
     Inr \<lparr>use_input = it + cw + cr, use_cached_input = cr, use_cache_write = cw, use_output = ot, use_reasoning = 0,
          use_total = None\<rparr>))))"

definition read_anthropic :: "http_response \<Rightarrow> adapter_exn + answer" where
  "read_anthropic h =
     bindR (as_object (hr_json h)) (\<lambda>p.
     bindR (must (field_is p ''type'' ''message'' \<and> field_is p ''role'' ''assistant'')) (\<lambda>_.
       if field_is p ''stop_reason'' ''max_tokens'' then fail_with POutputTruncated (Some h)
       else if field_is p ''stop_reason'' ''model_context_window_exceeded'' then fail_with PContextExceeded (Some h)
       else if field_is p ''stop_reason'' ''refusal'' then fail_with PContentRefused (Some h)
       else bindR (must (field_is p ''stop_reason'' ''end_turn'')) (\<lambda>_.
         bindR (bindR (member p ''id'') as_text) (\<lambda>i.
         bindR (bindR (member p ''model'') as_text) (\<lambda>m.
         bindR (bindR (bindR (member p ''content'') as_single) as_object) (\<lambda>block.
         bindR (must (field_is block ''type'' ''text'')) (\<lambda>_.
         bindR (bindR (member block ''text'') as_output) (\<lambda>text.
         bindR (bindR (bindR (member p ''usage'') as_object) anthropic_usage) (\<lambda>u.
         Inr \<lparr>an_request_id = i, an_model = m, an_text = text, an_usage = u\<rparr>)))))))))"

definition anthropic_body :: "provider_grade_request \<Rightarrow> json \<Rightarrow> json" where
  "anthropic_body r schema = (let ms = gp_messages (pgr_prompt r) in
     obj [(''model'', JStr (pgr_model r)), (''system'', JStr (pm_content (hd ms))), (''messages'', JArr (map message_json (tl ms))),
       (''output_config'', obj [(''format'', obj [(''type'', jstr ''json_schema''), (''schema'', schema)])]),
       (''max_tokens'', JInt (pgr_max_output r)), (''stream'', JBool False)])"

definition anthropic_headers :: "pystr \<Rightarrow> (pystr \<times> pystr) list" where
  "anthropic_headers key = [(ustr ''Accept'', ustr ''application/json''), (ustr ''Content-Type'', ustr ''application/json''),
     (ustr ''anthropic-version'', ustr ''2023-06-01''), (ustr ''x-api-key'', key)]"

definition anthropic_grade :: "adapter_env \<Rightarrow> provider_grade_request \<Rightarrow> adapter_exn + provider_result" where
  "anthropic_grade A r =
     (if pgr_type r \<noteq> Anthropic \<or> \<not> supports r JsonSchema DialectAnthropic {SamplingOmit} {ThinkingOmit} MaxTokens
      then fail_with PCapabilityUnsupported None
      else if \<not> system_then_user (gp_messages (pgr_prompt r)) then fail_with PRequestInvalid None
      else bindR (compiled_for A r AnthropicSchema) (\<lambda>c.
           bindR (send_request A Anthropic (pgr_base_url r) (ustr ''/v1/messages'') (anthropic_headers (pgr_api_key r)) (anthropic_body r (cs_body c))) (\<lambda>h.
           bindR (check_status Anthropic h) (\<lambda>_.
           finish_call A r Anthropic (cs_sha c) (Some h) read_anthropic h))))"

section \<open>Gemini\<close>

text \<open>\<open>urllib.parse.quote(model, safe="")\<close>; a lone surrogate cannot be encoded.\<close>

definition hex_upper :: "nat \<Rightarrow> nat" where
  "hex_upper n = (if n < 10 then 48 + n else 55 + n)"

definition unreserved :: "nat \<Rightarrow> bool" where
  "unreserved b \<longleftrightarrow> ascii_letter b \<or> is_digit b \<or> b \<in> {95, 46, 45, 126}"

definition quote_segment :: "pystr \<Rightarrow> pystr option" where
  "quote_segment s = (if encodable s
     then Some (concat (map (\<lambda>b. if unreserved b then [b] else [37, hex_upper (b div 16), hex_upper (b mod 16)]) (utf8_encode s)))
     else None)"

definition gemini_usage :: "fields \<Rightarrow> adapter_exn + token_usage" where
  "gemini_usage u =
     bindR (count_at u ''promptTokenCount'') (\<lambda>it.
     bindR (count_or (JInt 0) u ''cachedContentTokenCount'') (\<lambda>cached.
     bindR (count_at u ''candidatesTokenCount'') (\<lambda>cand.
     bindR (count_or (JInt 0) u ''thoughtsTokenCount'') (\<lambda>reasoning.
     bindR (count_at u ''totalTokenCount'') (\<lambda>tt.
     bindR (must (tt = it + (cand + reasoning))) (\<lambda>_.
     Inr \<lparr>use_input = it, use_cached_input = cached, use_cache_write = 0, use_output = cand + reasoning,
          use_reasoning = reasoning, use_total = Some tt\<rparr>))))))"

definition gemini_refusals :: "string list" where
  "gemini_refusals = [''SAFETY'', ''RECITATION'', ''BLOCKLIST'', ''PROHIBITED_CONTENT'', ''SPII'', ''IMAGE_SAFETY'', ''IMAGE_PROHIBITED_CONTENT'']"

definition gemini_blocked :: "fields \<Rightarrow> bool" where
  "gemini_blocked p \<longleftrightarrow> (case field p ''promptFeedback'' of
      Some (JObj d) \<Rightarrow> (case field d ''blockReason'' of Some v \<Rightarrow> truthy v | None \<Rightarrow> False)
    | _ \<Rightarrow> False)"

definition read_gemini :: "http_response \<Rightarrow> adapter_exn + answer" where
  "read_gemini h =
     bindR (as_object (hr_json h)) (\<lambda>p.
       if gemini_blocked p then fail_with PContentRefused (Some h)
       else
         bindR (bindR (member p ''responseId'') as_text) (\<lambda>i.
         bindR (bindR (member p ''modelVersion'') as_text) (\<lambda>m.
         bindR (bindR (bindR (member p ''candidates'') as_single) as_object) (\<lambda>cand.
         bindR (must (index_zero cand)) (\<lambda>_.
           if field_is cand ''finishReason'' ''MAX_TOKENS'' then fail_with POutputTruncated (Some h)
           else if field_in cand ''finishReason'' gemini_refusals then fail_with PContentRefused (Some h)
           else bindR (must (field_is cand ''finishReason'' ''STOP'')) (\<lambda>_.
             bindR (bindR (member cand ''content'') as_object) (\<lambda>content.
             bindR (must (field_is content ''role'' ''model'')) (\<lambda>_.
             bindR (bindR (bindR (member content ''parts'') as_single) as_object) (\<lambda>part.
             bindR (bindR (member part ''text'') as_output) (\<lambda>text.
             bindR (bindR (bindR (member p ''usageMetadata'') as_object) gemini_usage) (\<lambda>u.
             Inr \<lparr>an_request_id = i, an_model = m, an_text = text, an_usage = u\<rparr>)))))))))))"

definition gemini_body :: "provider_grade_request \<Rightarrow> json \<Rightarrow> json" where
  "gemini_body r schema = (let ms = gp_messages (pgr_prompt r); part = (\<lambda>m. obj [(''text'', JStr (pm_content m))]) in
     obj [(''systemInstruction'', obj [(''parts'', JArr [part (hd ms)])]),
       (''contents'', JArr (map (\<lambda>m. obj [(''role'', jstr ''user''), (''parts'', JArr [part m])]) (tl ms))),
       (''generationConfig'', obj [(''responseFormat'', obj [(''text'', obj [(''mimeType'', jstr ''application/json''), (''schema'', schema)])]),
          (''maxOutputTokens'', JInt (pgr_max_output r))])])"

definition gemini_headers :: "pystr \<Rightarrow> (pystr \<times> pystr) list" where
  "gemini_headers key = [(ustr ''Accept'', ustr ''application/json''), (ustr ''Content-Type'', ustr ''application/json''),
     (ustr ''x-goog-api-key'', key)]"

definition gemini_grade :: "adapter_env \<Rightarrow> provider_grade_request \<Rightarrow> adapter_exn + provider_result" where
  "gemini_grade A r =
     (if pgr_type r \<noteq> Gemini \<or> \<not> supports r JsonSchema DialectGemini {SamplingOmit} {ThinkingOmit} MaxOutputTokens
      then fail_with PCapabilityUnsupported None
      else if \<not> system_then_user (gp_messages (pgr_prompt r)) then fail_with PRequestInvalid None
      else bindR (compiled_for A r GeminiSchema) (\<lambda>c.
           case quote_segment (pgr_model r) of None \<Rightarrow> Inl AdRaised
           | Some segment \<Rightarrow>
             bindR (send_request A Gemini (pgr_base_url r) (ustr ''/v1beta/models/'' @ segment @ ustr '':generateContent'')
               (gemini_headers (pgr_api_key r)) (gemini_body r (cs_body c))) (\<lambda>h.
             bindR (check_status Gemini h) (\<lambda>_.
             finish_call A r Gemini (cs_sha c) (Some h) read_gemini h))))"

section \<open>The registry\<close>

text \<open>\<open>build_provider_adapter_registry\<close>: one adapter for each type.\<close>

fun adapter_for :: "provider_type \<Rightarrow> adapter_env \<Rightarrow> provider_grade_request \<Rightarrow> adapter_exn + provider_result" where
  "adapter_for DeepSeek = deepseek_grade"
| "adapter_for Kimi = kimi_grade"
| "adapter_for Glm = glm_grade"
| "adapter_for OpenAI = openai_grade"
| "adapter_for Anthropic = anthropic_grade"
| "adapter_for Gemini = gemini_grade"
| "adapter_for OpenAICompatible = openai_compatible_grade"

text \<open>How the runner sees the outcome.\<close>

definition call_outcome :: "adapter_exn + provider_result \<Rightarrow> call_result" where
  "call_outcome m = (case m of Inr x \<Rightarrow> CallOk x | Inl AdUrl \<Rightarrow> CallUrlRejected | Inl (AdError e) \<Rightarrow> CallFailed e
     | Inl _ \<Rightarrow> CallRaised)"

definition registry_grade :: "adapter_env \<Rightarrow> provider_grade_request \<Rightarrow> call_result" where
  "registry_grade A r = call_outcome (adapter_for (pgr_type r) A r)"

end
