(* ===== verification/Provider_Contract.thy ===== *)
theory Provider_Contract
  imports Provider_Adapters
begin

text \<open>
  What the runner may rely on whatever provider is configured: the locale \<open>provider_adapter\<close> states
  the contract of one adapter, and it is interpreted on each of the seven. Its lemmas say that an
  answer is complete and audited, and that only the status of a received response makes a call safe
  to repeat.
\<close>

section \<open>The contract\<close>

definition received :: "adapter_env \<Rightarrow> http_response \<Rightarrow> bool" where
  "received A h \<longleftrightarrow> (\<exists>rq. request_json_body (ad_http A) rq = Inr h)"

definition transient_status :: "int \<Rightarrow> bool" where
  "transient_status s \<longleftrightarrow> s \<in> {408, 429, 500, 502, 503, 504, 529}"

text \<open>The three clauses of the contract, on the outcome of one call.\<close>

definition answered :: "adapter_env \<Rightarrow> provider_grade_request \<Rightarrow> provider_type \<Rightarrow> provider_result \<Rightarrow> bool" where
  "answered A r p x \<longleftrightarrow> (\<exists>h a s. received A h \<and> hr_status h = 200 \<and> py_strip (an_text a) \<noteq> [] \<and>
     make_result A r p s h a = Inr x)"

definition classified :: "adapter_env \<Rightarrow> provider_error \<Rightarrow> bool" where
  "classified A e \<longleftrightarrow> (\<forall>h. pr_response e = Some h \<longrightarrow> received A h) \<and>
     (pr_retry_safety e = RetrySafe \<longrightarrow> (\<exists>h. pr_response e = Some h \<and> transient_status (hr_status h)))"

locale provider_adapter =
  fixes ptype :: provider_type
    and grade :: "adapter_env \<Rightarrow> provider_grade_request \<Rightarrow> adapter_exn + provider_result"
  assumes answer: "grade A r = Inr x \<Longrightarrow> pgr_type r = ptype \<and> answered A r ptype x"
    and failure: "grade A r = Inl (AdError e) \<Longrightarrow> classified A e"
    and handled: "grade A r \<noteq> Inl AdInvalid"
begin

lemma result_sound:
  assumes "grade A r = Inr x"
  shows "res_provider x = pgr_type r \<and> res_requested_model x = pgr_model r \<and> validate_usage (res_usage x) \<and>
    result_fields_ok x \<and> py_strip (res_output_text x) \<noteq> [] \<and> res_raw_sha256 x = ad_sha A (res_raw x) \<and>
    estimate_cost (res_usage x) (cap_pricing (pgr_capabilities r)) = Inr (res_cost x) \<and>
    (\<exists>h. received A h \<and> hr_status h = 200 \<and> res_raw x = hr_raw h)"
proof -
  from answer [OF assms] obtain h a s where "pgr_type r = ptype" "received A h" "hr_status h = 200" "py_strip (an_text a) \<noteq> []"
    "make_result A r ptype s h a = Inr x"
    by (auto simp: answered_def)
  then show ?thesis by (auto simp: make_result_def Let_def split: if_splits sum.splits)
qed

lemma outcome_cases:
  obtains (result) x where "grade A r = Inr x" "call_outcome (grade A r) = CallOk x"
    | (url) "call_outcome (grade A r) = CallUrlRejected"
    | (error) e where "call_outcome (grade A r) = CallFailed e" "classified A e"
    | (raised) "call_outcome (grade A r) = CallRaised"
proof (cases "grade A r")
  case (Inl b)
  then show ?thesis using that failure [of A r] by (cases b) (auto simp: call_outcome_def)
qed (use that in \<open>auto simp: call_outcome_def\<close>)

end

section \<open>The steps of an adapter\<close>

definition step_sound :: "adapter_env \<Rightarrow> provider_grade_request \<Rightarrow> provider_type \<Rightarrow> adapter_exn + provider_result \<Rightarrow> bool" where
  "step_sound A r p m \<longleftrightarrow> (case m of Inr x \<Rightarrow> answered A r p x | Inl (AdError e) \<Rightarrow> classified A e
     | Inl AdInvalid \<Rightarrow> False | Inl _ \<Rightarrow> True)"

definition status_sound :: "(http_response \<Rightarrow> adapter_exn + unit) \<Rightarrow> bool" where
  "status_sound f \<longleftrightarrow> (\<forall>h. case f h of Inr _ \<Rightarrow> hr_status h = 200
     | Inl (AdError e) \<Rightarrow> pr_response e = Some h \<and> (pr_retry_safety e = RetrySafe \<longrightarrow> transient_status (hr_status h))
     | Inl AdInvalid \<Rightarrow> False | Inl _ \<Rightarrow> True)"

definition read_sound :: "(http_response \<Rightarrow> adapter_exn + answer) \<Rightarrow> bool" where
  "read_sound f \<longleftrightarrow> (\<forall>h. case f h of Inr a \<Rightarrow> py_strip (an_text a) \<noteq> []
     | Inl (AdError e) \<Rightarrow> pr_response e = Some h \<and> pr_retry_safety e = RetryNever | Inl _ \<Rightarrow> True)"

lemma send_sound:
  "send_request A p base path hs body = Inr h \<Longrightarrow> received A h"
  "send_request A p base path hs body = Inl (AdError e) \<Longrightarrow> classified A e"
  "send_request A p base path hs body \<noteq> Inl AdInvalid"
proof -
  show "send_request A p base path hs body = Inr h \<Longrightarrow> received A h"
    by (auto simp: send_request_def post_json_def received_def split: url_check.splits sum.splits http_exn.splits if_splits)
  show "send_request A p base path hs body = Inl (AdError e) \<Longrightarrow> classified A e"
    by (auto simp: send_request_def post_json_def classified_def unknown_error_def plain_error_def dest: http_errors
        split: url_check.splits sum.splits http_exn.splits if_splits)
  show "send_request A p base path hs body \<noteq> Inl AdInvalid"
    by (auto simp: send_request_def split: url_check.splits sum.splits http_exn.splits)
qed

lemma make_result_errors: "make_result A r p s h a = Inl e \<Longrightarrow> e = AdRaised"
  by (auto simp: make_result_def Let_def split: if_splits sum.splits)

lemma finish_sound:
  assumes "read_sound read" "received A h" "hr_status h = 200" "invalid \<in> {None, Some h}"
  shows "step_sound A r p (finish_call A r p s invalid read h)"
proof (cases "read h")
  case (Inr a)
  then have "py_strip (an_text a) \<noteq> []" using assms(1) by (auto simp: read_sound_def dest: spec [of _ h])
  then show ?thesis using Inr assms(2,3)
    by (cases "make_result A r p s h a") (auto simp: finish_call_def or_invalid_def step_sound_def answered_def dest!: make_result_errors)
next
  case (Inl x)
  show ?thesis
  proof (cases x)
    case (AdError e)
    then have "pr_response e = Some h" "pr_retry_safety e = RetryNever"
      using assms(1) Inl by (auto simp: read_sound_def dest: spec [of _ h])
    then show ?thesis using Inl AdError assms(2) by (simp add: finish_call_def or_invalid_def step_sound_def classified_def)
  qed (use Inl assms(2,4) in \<open>auto simp: finish_call_def or_invalid_def step_sound_def fail_with_def classified_def plain_error_def\<close>)
qed

lemma call_sound:
  assumes "status_sound status" "read_sound read" "\<And>h. invalid h \<in> {None, Some h}"
  shows "step_sound A r p (bindR (send_request A p base path hs body) (\<lambda>h. bindR (status h) (\<lambda>_.
     finish_call A r p s (invalid h) read h)))"
proof (cases "send_request A p base path hs body")
  case (Inr h)
  then have h: "received A h" by (rule send_sound)
  have st: "case status h of Inr _ \<Rightarrow> hr_status h = 200
     | Inl (AdError e) \<Rightarrow> pr_response e = Some h \<and> (pr_retry_safety e = RetrySafe \<longrightarrow> transient_status (hr_status h))
     | Inl AdInvalid \<Rightarrow> False | Inl _ \<Rightarrow> True"
    using assms(1) unfolding status_sound_def by blast
  show ?thesis
  proof (cases "status h")
    case (Inl x)
    then show ?thesis using Inr st h by (cases x) (auto simp: step_sound_def classified_def)
  next
    case (Inr u)
    then show ?thesis using \<open>send_request A p base path hs body = Inr h\<close> st
      finish_sound [OF assms(2) h _ assms(3)] by simp
  qed
next
  case (Inl x)
  then show ?thesis using send_sound(2,3) [of A p base path hs body] by (cases x) (auto simp: step_sound_def)
qed

lemma step_sound_trivial [simp]:
  "step_sound A r p (fail_with c None)" "step_sound A r p (Inl AdRaised)"
  by (simp_all add: step_sound_def fail_with_def classified_def plain_error_def)

lemma compiled_errors: "compiled_for A r D = Inl e \<Longrightarrow> e = AdRaised"
  by (auto simp: compiled_for_def split: option.splits)

lemma step_sound_compiled:
  "(\<And>c. step_sound A r p (f c)) \<Longrightarrow> step_sound A r p (bindR (compiled_for A r D) f)"
  by (cases "compiled_for A r D") (auto dest!: compiled_errors)

section \<open>Status checks and readers\<close>

lemma check_status_sound: "status_sound (check_status p)"
  by (auto simp: status_sound_def check_status_def raise_for_provider_status_def Let_def plain_error_def safe_error_def
      transient_status_def split: if_splits)

lemma fail_with_status: "status_sound f \<Longrightarrow> status_sound (\<lambda>h. if P h then fail_with c (Some h) else f h)"
  by (simp add: status_sound_def fail_with_def plain_error_def)

lemma unknown_status: "status_sound f \<Longrightarrow> status_sound (\<lambda>h. if P h then Inl (AdError (unknown_error c (Some h))) else f h)"
  by (simp add: status_sound_def unknown_error_def)

lemma kimi_status_sound: "status_sound kimi_status"
  unfolding kimi_status_def by (intro fail_with_status unknown_status check_status_sound)

lemma glm_status_sound: "status_sound glm_status"
  unfolding glm_status_def by (intro fail_with_status unknown_status check_status_sound)

lemma openai_status_sound: "status_sound openai_status"
  using check_status_sound [of OpenAI]
  by (auto simp: status_sound_def openai_status_def fail_with_def plain_error_def split: option.splits json.splits if_splits)

text \<open>The field readers only ever say that the answer is invalid.\<close>

lemma field_errors [simp]:
  "must c \<noteq> Inl (AdError e)" "as_object j \<noteq> Inl (AdError e)" "member kvs k \<noteq> Inl (AdError e)" "as_text j \<noteq> Inl (AdError e)"
  "as_output j \<noteq> Inl (AdError e)" "as_single j \<noteq> Inl (AdError e)" "as_count j \<noteq> Inl (AdError e)"
  by (auto simp: must_def ensure_def as_object_def member_def as_text_def as_output_def as_single_def as_count_def
      split: json.splits option.splits list.splits if_splits)

lemma count_errors [simp]: "count_at kvs k \<noteq> Inl (AdError e)" "count_or d kvs k \<noteq> Inl (AdError e)"
  by (auto simp: count_at_def count_or_def bindR_Inl_iff)

lemma usage_errors [simp]:
  "deepseek_usage u \<noteq> Inl (AdError e)" "compatible_usage u \<noteq> Inl (AdError e)" "openai_usage u \<noteq> Inl (AdError e)"
  "anthropic_usage u \<noteq> Inl (AdError e)" "gemini_usage u \<noteq> Inl (AdError e)"
  by (auto simp: deepseek_usage_def compatible_usage_def openai_usage_def anthropic_usage_def gemini_usage_def bindR_Inl_iff)

lemma head_errors [simp]: "read_chat_head p \<noteq> Inl (AdError e)"
  by (auto simp: read_chat_head_def bindR_Inl_iff)

lemma as_output_Inr: "as_output j = Inr s \<Longrightarrow> py_strip s \<noteq> []"
  by (auto simp: as_output_def split: json.splits if_splits)

lemma fail_with_iff [simp]: "fail_with c h = Inl x \<longleftrightarrow> x = AdError (plain_error c h)" "fail_with c h \<noteq> Inr y"
  by (auto simp: fail_with_def)

text \<open>Kinds of failures and answers of a reader.\<close>

definition reads_ok :: "http_response \<Rightarrow> adapter_exn + answer \<Rightarrow> bool" where
  "reads_ok h m \<longleftrightarrow> (\<forall>a. m = Inr a \<longrightarrow> py_strip (an_text a) \<noteq> []) \<and>
     (\<forall>e. m = Inl (AdError e) \<longrightarrow> (\<exists>c. e = plain_error c (Some h)))"

lemma reads_ok_sound: "(\<And>h. reads_ok h (f h)) \<Longrightarrow> read_sound f"
proof -
  assume a: "\<And>h. reads_ok h (f h)"
  have "case f h of Inr a \<Rightarrow> py_strip (an_text a) \<noteq> []
     | Inl (AdError e) \<Rightarrow> pr_response e = Some h \<and> pr_retry_safety e = RetryNever | Inl _ \<Rightarrow> True" for h
    using a [of h] by (auto simp: reads_ok_def plain_error_def split: sum.splits adapter_exn.splits)
  then show "read_sound f" by (simp add: read_sound_def)
qed

lemma reads_ok_bind: "(\<And>e. m \<noteq> Inl (AdError e)) \<Longrightarrow> (\<And>x. m = Inr x \<Longrightarrow> reads_ok h (f x)) \<Longrightarrow> reads_ok h (bindR m f)"
  by (cases m) (auto simp: reads_ok_def)

lemma reads_ok_fail [simp]: "reads_ok h (fail_with c (Some h))" "reads_ok h (Inl AdInvalid)"
  by (auto simp: reads_ok_def)

lemma reads_ok_if: "(c \<Longrightarrow> reads_ok h x) \<Longrightarrow> (\<not> c \<Longrightarrow> reads_ok h y) \<Longrightarrow> reads_ok h (if c then x else y)"
  by simp

lemma reads_ok_answer: "py_strip t \<noteq> [] \<Longrightarrow> reads_ok h (Inr \<lparr>an_request_id = i, an_model = m, an_text = t, an_usage = u\<rparr>)"
  by (simp add: reads_ok_def)

lemma bind_errors [simp]: "(\<And>e. m \<noteq> Inl (AdError e)) \<Longrightarrow> (\<And>x e. f x \<noteq> Inl (AdError e)) \<Longrightarrow> bindR m f \<noteq> Inl (AdError e)"
  by (cases m) auto

lemmas reader_rules = reads_ok_sound reads_ok_bind reads_ok_if reads_ok_answer

lemma incomplete_ok: "reads_ok h (openai_incomplete h p)"
  by (auto simp: openai_incomplete_def split: option.splits json.splits)

lemma read_deepseek_sound: "read_sound read_deepseek"
  unfolding read_deepseek_def by (intro reader_rules) (auto intro!: reader_rules dest: as_output_Inr split: prod.splits)

lemma read_compatible_sound: "read_sound read_compatible"
  unfolding read_compatible_def by (intro reader_rules) (auto intro!: reader_rules dest: as_output_Inr split: prod.splits)

lemma read_openai_sound: "read_sound read_openai"
  unfolding read_openai_def by (intro reader_rules) (auto intro!: reader_rules incomplete_ok dest: as_output_Inr)

lemma read_anthropic_sound: "read_sound read_anthropic"
  unfolding read_anthropic_def by (intro reader_rules) (auto intro!: reader_rules dest: as_output_Inr)

lemma read_gemini_sound: "read_sound read_gemini"
  unfolding read_gemini_def by (intro reader_rules) (auto intro!: reader_rules dest: as_output_Inr)

section \<open>The seven adapters\<close>

lemma adapterI:
  assumes "\<And>A r. step_sound A r p (g A r)" "\<And>A r x. g A r = Inr x \<Longrightarrow> pgr_type r = p"
  shows "provider_adapter p g"
proof
  show "g A r = Inr x \<Longrightarrow> pgr_type r = p \<and> answered A r p x" "g A r = Inl (AdError e) \<Longrightarrow> classified A e"
    "g A r \<noteq> Inl AdInvalid" for A r x e
    using assms(1) [of A r] assms(2) [of A r x] by (auto simp: step_sound_def)
qed

lemma deepseek_step: "step_sound A r DeepSeek (deepseek_grade A r)"
  unfolding deepseek_grade_def
  using call_sound [OF check_status_sound read_deepseek_sound, of "\<lambda>_. None"] by simp

lemma compatible_step:
  assumes "status_sound status"
  shows "step_sound A r p (compatible_grade p capable status A r)"
proof -
  have c: "step_sound A r p (bindR (send_request A p base path hs body) (\<lambda>h. bindR (status h) (\<lambda>_.
     finish_call A r p s (Some h) read_compatible h)))" for base path hs body s
    by (rule call_sound [OF assms read_compatible_sound]) simp
  show ?thesis
    by (cases "response_format A r")
      (use c in \<open>auto simp: compatible_grade_def response_format_def bindR_Inl_iff split: if_splits dest!: compiled_errors\<close>)
qed

lemma compatible_capability: "compatible_grade p capable status A r = Inr x \<Longrightarrow> capable r"
  by (auto simp: compatible_grade_def split: if_splits)

lemma openai_step: "step_sound A r OpenAI (openai_grade A r)"
  unfolding openai_grade_def
  using call_sound [OF openai_status_sound read_openai_sound, of Some] by (auto intro!: step_sound_compiled)

lemma anthropic_step: "step_sound A r Anthropic (anthropic_grade A r)"
  unfolding anthropic_grade_def
  using call_sound [OF check_status_sound read_anthropic_sound, of Some] by (auto intro!: step_sound_compiled)

lemma gemini_step: "step_sound A r Gemini (gemini_grade A r)"
  unfolding gemini_grade_def
  using call_sound [OF check_status_sound read_gemini_sound, of Some] by (auto intro!: step_sound_compiled split: option.splits)

interpretation deepseek: provider_adapter DeepSeek deepseek_grade
  by (rule adapterI [OF deepseek_step]) (auto simp: deepseek_grade_def split: if_splits)

interpretation kimi: provider_adapter Kimi kimi_grade
  unfolding kimi_grade_def
  by (rule adapterI [OF compatible_step [OF kimi_status_sound]])
    (auto simp: kimi_capable_def compatible_capable_def dest: compatible_capability)

interpretation glm: provider_adapter Glm glm_grade
  unfolding glm_grade_def
  by (rule adapterI [OF compatible_step [OF glm_status_sound]])
    (auto simp: glm_capable_def compatible_capable_def dest: compatible_capability)

interpretation openai: provider_adapter OpenAI openai_grade
  by (rule adapterI [OF openai_step]) (auto simp: openai_grade_def split: if_splits)

interpretation anthropic: provider_adapter Anthropic anthropic_grade
  by (rule adapterI [OF anthropic_step]) (auto simp: anthropic_grade_def split: if_splits)

interpretation gemini: provider_adapter Gemini gemini_grade
  by (rule adapterI [OF gemini_step]) (auto simp: gemini_grade_def split: if_splits)

interpretation openai_compatible: provider_adapter OpenAICompatible openai_compatible_grade
  unfolding openai_compatible_grade_def
  by (rule adapterI [OF compatible_step [OF check_status_sound]])
    (auto simp: compatible_capable_def dest: compatible_capability)

section \<open>The registry\<close>

text \<open>Whatever type a request names, the registry answers under the contract.\<close>

lemma registry_result:
  assumes "registry_grade A r = CallOk x"
  shows "res_provider x = pgr_type r \<and> res_requested_model x = pgr_model r \<and> validate_usage (res_usage x) \<and>
    result_fields_ok x \<and> py_strip (res_output_text x) \<noteq> [] \<and> res_raw_sha256 x = ad_sha A (res_raw x) \<and>
    estimate_cost (res_usage x) (cap_pricing (pgr_capabilities r)) = Inr (res_cost x) \<and>
    (\<exists>h. received A h \<and> hr_status h = 200 \<and> res_raw x = hr_raw h)"
proof -
  have "adapter_for (pgr_type r) A r = Inr x"
    using assms by (auto simp: registry_grade_def call_outcome_def split: sum.splits adapter_exn.splits)
  then show ?thesis
    using deepseek.result_sound kimi.result_sound glm.result_sound openai.result_sound anthropic.result_sound
      gemini.result_sound openai_compatible.result_sound
    by (cases "pgr_type r") simp_all
qed

lemma registry_failure:
  assumes "registry_grade A r = CallFailed e"
  shows "classified A e"
proof -
  have "adapter_for (pgr_type r) A r = Inl (AdError e)"
    using assms by (auto simp: registry_grade_def call_outcome_def split: sum.splits adapter_exn.splits)
  then show ?thesis
    using deepseek.failure kimi.failure glm.failure openai.failure anthropic.failure gemini.failure openai_compatible.failure
    by (cases "pgr_type r") simp_all
qed

end
