(* ===== verification/Runner_Contract.thy ===== *)
theory Runner_Contract
  imports Pipeline_Guarantees
begin

text \<open>
  The runner against its repository. The contract of \<open>GradingAttemptRepository\<close> is a locale: a
  refused claim changes nothing, and a granted claim records the call with the hash it was claimed
  for. What the runner does on any repository with these laws is proved once; the SQL repository of
  \<open>workers/repository.py\<close> is an instance.
\<close>

section \<open>The contract\<close>

locale attempt_store =
  fixes R :: "'s attempt_repository"
    and valid :: "'s \<Rightarrow> bool"
    and recorded :: "'s \<Rightarrow> uuid \<Rightarrow> digest \<Rightarrow> bool"
  assumes claim_refused: "ar_claim R p h s = Inr (s', None) \<Longrightarrow> s' = s"
    and claim_granted: "valid s \<Longrightarrow> ar_claim R p h s = Inr (s', Some c) \<Longrightarrow>
      valid s' \<and> cl_request_hash c = h \<and> recorded s' (cl_attempt c) h"
begin

text \<open>How a delivery can go: it stops before any call, or it makes exactly one recorded call.\<close>

lemma run_shape:
  assumes "valid (before s)"
  shows "(ro_calls (run E R before after iid v s) = [] \<and>
      (ro_state (run E R before after iid v s) = s \<or> ro_state (run E R before after iid v s) = before s)) \<or>
    (\<exists>p g q r s2 c. ar_prepare R iid v s = Inr (Some p) \<and> build_call E p = Inr (g, q, r) \<and>
       ar_claim R p (gp_call_hash q) (before s) = Inr (s2, Some c) \<and>
       recorded s2 (cl_attempt c) (gp_call_hash q) \<and>
       ro_calls (run E R before after iid v s) = [(c, r)] \<and>
       (case decide E p c g q (rn_grade E r) of
          Inl e \<Rightarrow> ro_state (run E R before after iid v s) = after s2 \<and> ro_result (run E R before after iid v s) = Inl e
        | Inr d \<Rightarrow> (ro_state (run E R before after iid v s), ro_result (run E R before after iid v s))
            = apply_decision R c d (after s2)))"
proof (cases "ar_prepare R iid v s")
  case (Inr po)
  show ?thesis
  proof (cases po)
    case (Some p)
    note p = Inr [unfolded Some]
    show ?thesis
    proof (cases "build_call E p")
      case (Inr b)
      obtain g q r where b: "build_call E p = Inr (g, q, r)" using Inr by (cases b) auto
      show ?thesis
      proof (cases "ar_claim R p (gp_call_hash q) (before s)")
        case (Inr o')
        obtain s2 co where c: "ar_claim R p (gp_call_hash q) (before s) = Inr (s2, co)" using Inr by (cases o') auto
        show ?thesis
        proof (cases co)
          case None
          then have "s2 = before s" using claim_refused c by simp
          then show ?thesis using p b c None by (simp add: run_def Let_def)
        next
          case (Some cl)
          note g' = claim_granted [OF assms c [unfolded Some]]
          show ?thesis
            using p b c Some g'
            by (cases "decide E p cl g q (rn_grade E r)") (auto simp: run_def Let_def split: prod.splits)
        qed
      qed (simp add: run_def Let_def p b)
    qed (simp add: run_def Let_def p)
  qed (simp add: run_def Let_def Inr)
qed (simp add: run_def Let_def)

text \<open>A lost race costs nothing.\<close>

lemma refused_run:
  assumes "ar_prepare R iid v s = Inr (Some p)" "build_call E p = Inr (g, q, r)"
    and "ar_claim R p (gp_call_hash q) (before s) = Inr (s2, None)"
  shows "run E R before after iid v s = \<lparr>ro_state = before s, ro_calls = [], ro_result = Inr RunDuplicate\<rparr>"
  using assms claim_refused [OF assms(3)] by (simp add: run_def Let_def)

end

section \<open>The SQL repository\<close>

definition sql_repository ::
    "(pystr \<Rightarrow> pystr) \<Rightarrow> prompt_env \<Rightarrow> time \<Rightarrow> time \<Rightarrow> uuid \<Rightarrow> uuid \<Rightarrow> pdb attempt_repository" where
  "sql_repository cf E now db_now aid lease = \<lparr>ar_prepare = (\<lambda>iid v s. prepare_item cf E db_now iid v s),
     ar_claim = (\<lambda>p h s. claim_attempt p h aid lease now db_now s),
     ar_success = (\<lambda>c x s. finish_success c x now db_now s),
     ar_failure = (\<lambda>c f s. finish_failure c f now db_now s)\<rparr>"

definition call_recorded :: "pdb \<Rightarrow> uuid \<Rightarrow> digest \<Rightarrow> bool" where
  "call_recorded s aid h \<longleftrightarrow> (\<exists>a \<in> set (db_attempts s). att_id a = aid \<and> att_request_hash a = h \<and>
     att_status a = AttRunning \<and> att_call_state a = CallStarted)"

lemma claim_refused_same: "claim_attempt p h aid lease now t s = Inr (s', None) \<Longrightarrow> s' = s"
  by (auto simp: claim_attempt_def Let_def split: if_splits option.splits)

interpretation sql: attempt_store "sql_repository cf E now db_now aid lease" pipeline_ok call_recorded
proof
  fix p h s s'
  assume "ar_claim (sql_repository cf E now db_now aid lease) p h s = Inr (s', None)"
  then show "s' = s" using claim_refused_same by (simp add: sql_repository_def)
next
  fix s p h s' c
  assume ok: "pipeline_ok s" and "ar_claim (sql_repository cf E now db_now aid lease) p h s = Inr (s', Some c)"
  then have c: "claim_attempt p h aid lease now db_now s = Inr (s', Some c)" by (simp add: sql_repository_def)
  have "pipeline_ok s'" by (rule claim_keeps [OF ok c])
  moreover have "cl_request_hash c = h \<and> call_recorded s' (cl_attempt c) h"
    by (rule claim_tables [OF ok c]) (auto simp: call_recorded_def)
  ultimately show "pipeline_ok s' \<and> cl_request_hash c = h \<and> call_recorded s' (cl_attempt c) h" by blast
qed

text \<open>
  C12. One delivery makes at most one provider call, and never an unrecorded one: against the SQL
  repository, whatever other transactions do in between, a delivery that makes no call leaves the
  database as it found it; and a call is only made after the transaction that recorded it as
  started under the hash of exactly the prompt it sends committed, for the paper and version the
  message named, and with a prompt that matches the batch's frozen contract.
\<close>

theorem delivery_calls_once:
  assumes "pipeline_ok (before s)"
  shows "let out = run E (sql_repository cf P now db_now aid lease) before after iid v s in
    (ro_calls out = [] \<and> (ro_state out = s \<or> ro_state out = before s)) \<or>
    (\<exists>p c r s2. ro_calls out = [(c, r)] \<and> prepare_item cf P db_now iid v s = Inr (Some p) \<and>
       claim_attempt p (gp_call_hash (pgr_prompt r)) aid lease now db_now (before s) = Inr (s2, Some c) \<and>
       (\<exists>a \<in> set (db_attempts s2). att_id a = cl_attempt c \<and> att_request_hash a = gp_call_hash (pgr_prompt r) \<and>
          att_status a = AttRunning) \<and>
       prompt_matches (pgr_prompt r) (pre_contract p))"
proof -
  let ?out = "run E (sql_repository cf P now db_now aid lease) before after iid v s"
  consider "ro_calls ?out = []" "ro_state ?out = s \<or> ro_state ?out = before s"
    | (call) p g q r s2 c where "ar_prepare (sql_repository cf P now db_now aid lease) iid v s = Inr (Some p)"
      "build_call E p = Inr (g, q, r)"
      "ar_claim (sql_repository cf P now db_now aid lease) p (gp_call_hash q) (before s) = Inr (s2, Some c)"
      "call_recorded s2 (cl_attempt c) (gp_call_hash q)" "ro_calls ?out = [(c, r)]"
    using sql.run_shape [where before = before and after = after and s = s and iid = iid and v = v and E = E and cf = cf
        and Ea = P and now = now and db_now = db_now and aid = aid and lease = lease] assms by blast
  then show ?thesis
  proof cases
    case call
    have "pgr_prompt r = q" "prompt_matches q (pre_contract p)" using build_call_parts(3,4) [OF call(2)] by auto
    then show ?thesis using call(1,3-5) by (auto simp: Let_def sql_repository_def call_recorded_def)
  qed (simp add: Let_def)
qed

theorem delivery_calls_once_witness:
  "\<exists>c r. ro_calls (run ex_runner (sql_repository id ex_prompts 110 110 12 13) id id 11 1 ex_db1) = [(c, r)] \<and>
     gp_call_hash (pgr_prompt r) = 0"
proof (rule ex_call)
  fix q r assume b: "build_call ex_runner ex_prep = Inr (example_request, q, r)" "gp_call_hash q = 0"
  let ?out = "run ex_runner (sql_repository id ex_prompts 110 110 12 13) id id 11 1 ex_db1"
  have p: "prepare_item id ex_prompts 110 11 1 ex_db1 = Inr (Some ex_prep)"
    by (simp add: prepare_item_def ex_db1_def ex_db_def ex_creation_def new_items_def new_job_def ex_payload_def
      find_provider_def ex_snapshot_valid ex_snapshot_hash example_rubric_valid call_plan_def last_attempt_def
      correction_source_def ex_prep_def Let_def)
  have d: "decide ex_runner ex_prep ex_claim example_request q (rn_grade ex_runner r) = Inl RunAdapterRaised"
    by (simp add: decide_def ex_runner_def)
  have c: "ro_calls ?out = [(ex_claim, r)]"
    using b p ex_claimed d by (simp add: run_def sql_repository_def Let_def) (simp add: ex_claim_def)
  have "pipeline_ok (id ex_db1)" using reach_pipeline_ok [OF ex_reach1] by simp
  from delivery_calls_once [of id ex_db1, OF this, of ex_runner id ex_prompts 110 110 12 13 id 11 1]
  have "\<exists>p s2 c r. ro_calls ?out = [(c, r)] \<and>
      claim_attempt p (gp_call_hash (pgr_prompt r)) 12 13 110 110 ex_db1 = Inr (s2, Some c)"
    using c by (auto simp: Let_def)
  moreover have "pgr_prompt r = q" by (rule build_call_parts(4) [OF b(1)])
  ultimately show ?thesis using c b(2) by auto
qed

end
