(* ===== verification/Runner_Adapters.thy ===== *)
theory Runner_Adapters
  imports Provider_Contract Pipeline_Guarantees Runner_Contract
begin

text \<open>
  The runner with the real adapters: what the batch pipeline assumes of a provider's answer is what the
  adapters guarantee, only an answer of the provider makes a call repeat, and the exceptions that no
  layer classifies are shown to leave a call running.
\<close>

section \<open>Answers that can be stored\<close>

text \<open>The price table of a profile was validated when the batch was frozen; its tariff has a name.\<close>

definition priced :: "provider_grade_request \<Rightarrow> bool" where
  "priced r \<longleftrightarrow> (case cap_pricing (pgr_capabilities r) of None \<Rightarrow> True | Some p \<Rightarrow> \<not> blank (pp_tariff_version p))"

lemma estimate_tariff:
  "estimate_cost u pricing = Inr (Some c) \<Longrightarrow> \<exists>p. pricing = Some p \<and> cost_tariff_version c = pp_tariff_version p"
  by (auto simp: estimate_cost_def Let_def split: option.splits)

lemma adapter_answer_valid:
  assumes "priced r"
  shows "valid_answer (registry_grade A r)"
proof (cases "registry_grade A r")
  case (CallOk x)
  have u: "validate_usage (res_usage x)" and f: "result_fields_ok x"
    and e: "estimate_cost (res_usage x) (cap_pricing (pgr_capabilities r)) = Inr (res_cost x)"
    using registry_result [OF CallOk] by auto
  have "case res_cost x of None \<Rightarrow> True | Some c \<Rightarrow> dec_le dec_zero (cost_amount c) \<and> is_currency (cost_currency c) \<and>
      \<not> blank (cost_tariff_version c)"
    using f e assms estimate_tariff
    by (fastforce simp: result_fields_ok_def cost_fields_ok_def priced_def split: option.splits)
  then show ?thesis using CallOk u by (simp add: valid_answer_def valid_provider_result_def)
qed (simp_all add: valid_answer_def)


definition late_env :: adapter_env where
  "late_env = \<lparr>ad_http = \<lparr>he_loads = \<lparr>ld_depth = 100, ld_float = JFloat\<rparr>, he_wide = (\<lambda>_. None), he_send = (\<lambda>_. NoReply StreamDone)\<rparr>,
     ad_url = (\<lambda>_ _. UrlDeadline), ad_sha = (\<lambda>_. 0)\<rparr>"

definition plain_prompt :: grading_prompt where
  "plain_prompt = \<lparr>gp_version = PromptV3, gp_prompt_hash = 0, gp_schema_hash = 0, gp_rubric_hash = 0, gp_base_request_hash = 0,
     gp_call_hash = 0, gp_messages = [\<lparr>pm_role = RoleSystem, pm_content = ustr ''rules''\<rparr>, \<lparr>pm_role = RoleUser, pm_content = ustr ''paper''\<rparr>]\<rparr>"

definition plain_request :: provider_grade_request where
  "plain_request = provider_request_of ex_prep (ustr ''key'') plain_prompt"

lemma plain_priced: "priced plain_request"
  by (simp add: priced_def plain_request_def provider_request_of_def ex_prep_def ex_snapshot_def ex_profile_def Let_def)

lemma late_outcome: "registry_grade late_env plain_request = CallFailed (unknown_error PTimeout None)"
  by (simp add: registry_grade_def call_outcome_def deepseek_grade_def send_request_def late_env_def plain_request_def
      provider_request_of_def ex_prep_def ex_snapshot_def ex_profile_def supports_def Let_def)


section \<open>Repeated calls\<close>

lemma decided_retry:
  assumes "decide E p c g q (registry_grade A r) = Inr (Finish f out)" "fa_action f = FailRetry"
  shows "fa_code f = CodeCorrectionRequired \<or>
    fa_call_state f = CallResponseReceived \<and> (\<exists>h. received A h \<and> transient_status (hr_status h))"
proof (cases "registry_grade A r")
  case (CallFailed e)
  then have d: "decide_error E p c e = Inr (Finish f out)" using assms(1) by (simp add: decide_def)
  then have "error_action (rn_max_retries E) (cl_sequence c) e = FailRetry" and st: "fa_call_state f = error_call_state e"
    using assms(2) by (auto simp: decide_error_def Let_def split: option.splits)
  then have "pr_retry_safety e = RetrySafe" by (auto simp: error_action_def split: if_splits)
  then obtain h where "pr_response e = Some h" "received A h" "transient_status (hr_status h)"
    using registry_failure [OF CallFailed] by (auto simp: classified_def)
  then show ?thesis using st by (auto simp: error_call_state_def)
next
  case (CallOk x)
  then obtain oc where "assess_grade_response (rn_unicode E) (rn_errors E) (request_hash E) (raw_result E (res_output_text x)) g (prompt_call q) = Inr oc"
    and d: "decide_outcome p c x oc = Finish f out"
    using assms(1) by (auto simp: decide_def decide_answer_def split: if_splits sum.splits)
  then show ?thesis
    by (cases rule: assess_cases) (use assms(2) d in \<open>auto simp: decide_outcome_def Let_def outcome_code_def\<close>)
qed (use assms in \<open>auto simp: decide_def url_rejected_failure_def\<close>)

text \<open>
  A call is only repeated automatically when nothing can be charged twice for the same answer:
  whatever provider is configured, the runner schedules a retry only to correct a complete answer,
  or because the provider itself answered with one of the transient statuses; after a timeout, a
  broken connection or a cancelled request it never does.
\<close>

theorem retry_needs_answer:
  assumes "decide E p c g q (registry_grade A r) = Inr (Finish f out)" "fa_action f = FailRetry"
  shows "fa_code f = CodeCorrectionRequired \<or>
    fa_call_state f = CallResponseReceived \<and> (\<exists>h. received A h \<and> transient_status (hr_status h))"
  by (rule decided_retry [OF assms])

definition busy_env :: adapter_env where
  "busy_env = late_env\<lparr>ad_http := (ad_http late_env)\<lparr>he_send := (\<lambda>_. Reply 503 [(ustr ''X-Request-Id'', ustr ''r1'')] [ustr ''busy''] StreamDone)\<rparr>,
     ad_url := (\<lambda>_ base. UrlOk base)\<rparr>"

lemma busy_outcome:
  "registry_grade busy_env plain_request = CallFailed (safe_error PUnavailable (Some
     \<lparr>hr_status = 503, hr_json = JNull, hr_raw = ustr ''busy'', hr_headers = [(ustr ''x-request-id'', ustr ''r1'')]\<rparr>))"
  by code_simp

theorem retry_needs_answer_witness:
  "\<exists>f out. decide ex_runner ex_prep ex_claim example_request plain_prompt (registry_grade busy_env plain_request) = Inr (Finish f out) \<and>
     fa_action f = FailRetry \<and> fa_request_id f = Some (ustr ''r1'') \<and> fa_call_state f = CallResponseReceived"
proof -
  let ?e = "safe_error PUnavailable (Some \<lparr>hr_status = 503, hr_json = JNull, hr_raw = ustr ''busy'',
     hr_headers = [(ustr ''x-request-id'', ustr ''r1'')]\<rparr>)"
  have "json_encodable (error_envelope ex_runner ex_claim ?e \<lparr>hr_status = 503, hr_json = JNull, hr_raw = ustr ''busy'',
     hr_headers = [(ustr ''x-request-id'', ustr ''r1'')]\<rparr>)" by code_simp
  then have put: "put_envelope ex_runner k (error_envelope ex_runner ex_claim ?e \<lparr>hr_status = 503, hr_json = JNull, hr_raw = ustr ''busy'',
     hr_headers = [(ustr ''x-request-id'', ustr ''r1'')]\<rparr>) = Inr ()" for k
    using canonical_json_None [of "error_envelope ex_runner ex_claim ?e _"] by (simp add: put_envelope_def ex_runner_def)
  have a: "error_action (rn_max_retries ex_runner) (cl_sequence ex_claim) ?e = FailRetry"
    by (simp add: error_action_def ex_runner_def ex_claim_def safe_error_def)
  have "\<exists>f out. decide_error ex_runner ex_prep ex_claim ?e = Inr (Finish f out) \<and> fa_action f = FailRetry \<and>
      fa_request_id f = Some (ustr ''r1'')"
    using put a by (simp add: decide_error_def Let_def safe_error_def request_id_header_def ustr_def)
  then obtain f out where d: "decide ex_runner ex_prep ex_claim example_request plain_prompt (registry_grade busy_env plain_request) = Inr (Finish f out)"
    "fa_action f = FailRetry" "fa_request_id f = Some (ustr ''r1'')"
    by (auto simp: busy_outcome decide_def)
  have "fa_code f \<noteq> CodeCorrectionRequired"
    using d(1) put by (auto simp: busy_outcome decide_def decide_error_def Let_def safe_error_def)
  then show ?thesis using retry_needs_answer [OF d(1,2)] d by blast
qed

section \<open>Answers that \<open>json.loads\<close> does not refuse politely\<close>

lemma run_uncaught:
  assumes "ar_prepare R iid v s = Inr (Some p)" "build_call E p = Inr (g, q, r)"
    and "ar_claim R p (gp_call_hash q) (before s) = Inr (s2, Some c)" "cl_request_hash c = gp_call_hash q"
    and "decide E p c g q (rn_grade E r) = Inl e"
  shows "run E R before after iid v s = \<lparr>ro_state = after s2, ro_calls = [(c, r)], ro_result = Inl e\<rparr>"
  using assms by (simp add: run_def Let_def)

lemma long_integer_decided:
  assumes "rn_loads E = json_loads L" "\<forall>ch \<in> set (res_output_text x). is_digit ch" "hd (res_output_text x) \<noteq> 48"
    and "max_int_digits < length (res_output_text x)"
    and "put_envelope E (response_key p (cl_attempt c)) (response_envelope E c x) = Inr ()"
  shows "decide E p c g q (CallOk x) = Inl RunLoadsRaised"
proof -
  have "rn_loads E (res_output_text x) = Inl LoadsIntTooLong"
    unfolding assms(1) by (rule long_integer) (use assms(2-4) in auto)
  then show ?thesis using assms(5) by (simp add: decide_def decide_answer_def loads_raises_def)
qed

text \<open>
  C26. A model that answers with a long row of digits leaves its call unfinished: \<open>json.loads\<close> raises a
  \<open>ValueError\<close> that is no \<open>JSONDecodeError\<close>, so the delivery ends in an exception although the answer
  was received, paid for and stored; the call stays recorded as running, and only the expiry of its
  lease ends it, as if the outcome were unknown.
\<close>

theorem unreadable_answer_strands_call:
  assumes "pipeline_ok (before s)" "prepare_item cf P db_now iid v s = Inr (Some p)" "build_call E p = Inr (g, q, r)"
    and "claim_attempt p (gp_call_hash q) aid lease now db_now (before s) = Inr (s2, Some c)"
    and "rn_grade E r = CallOk x" "rn_loads E = json_loads L"
    and "\<forall>ch \<in> set (res_output_text x). is_digit ch" "hd (res_output_text x) \<noteq> 48" "max_int_digits < length (res_output_text x)"
    and "put_envelope E (response_key p (cl_attempt c)) (response_envelope E c x) = Inr ()"
  shows "run E (sql_repository cf P now db_now aid lease) before after iid v s =
      \<lparr>ro_state = after s2, ro_calls = [(c, r)], ro_result = Inl RunLoadsRaised\<rparr> \<and>
    (\<exists>a \<in> set (db_attempts s2). att_id a = cl_attempt c \<and> att_status a = AttRunning \<and> att_call_state a = CallStarted)"
proof -
  have cl: "ar_claim (sql_repository cf P now db_now aid lease) p (gp_call_hash q) (before s) = Inr (s2, Some c)"
    using assms(4) by (simp add: sql_repository_def)
  have k: "cl_request_hash c = gp_call_hash q" "call_recorded s2 (cl_attempt c) (gp_call_hash q)"
    using sql.claim_granted [OF assms(1) cl] by simp_all
  have "decide E p c g q (rn_grade E r) = Inl RunLoadsRaised"
    unfolding assms(5) by (rule long_integer_decided [OF assms(6-10)])
  then have "run E (sql_repository cf P now db_now aid lease) before after iid v s =
      \<lparr>ro_state = after s2, ro_calls = [(c, r)], ro_result = Inl RunLoadsRaised\<rparr>"
    by (intro run_uncaught [where before = before and s = s, OF _ assms(3) cl k(1)]) (use assms(2) in \<open>simp_all add: sql_repository_def\<close>)
  then show ?thesis using k(2) by (auto simp: call_recorded_def)
qed

definition digits_result :: provider_result where
  "digits_result = ex_result\<lparr>res_output_text := replicate 4301 49\<rparr>"

definition reading_runner :: runner_env where
  "reading_runner = ex_runner\<lparr>rn_loads := json_loads \<lparr>ld_depth = 100, ld_float = JFloat\<rparr>, rn_grade := \<lambda>_. CallOk digits_result\<rparr>"

lemma reading_build: "build_call reading_runner p = build_call ex_runner p"
proof -
  have e: "rn_document reading_runner = rn_document ex_runner" "rn_prompt reading_runner = rn_prompt ex_runner"
    "rn_json reading_runner = rn_json ex_runner" "rn_decrypt reading_runner = rn_decrypt ex_runner"
    by (simp_all add: reading_runner_def)
  show ?thesis unfolding build_call_def call_prompt_def e by (rule refl)
qed

lemma reading_put: "put_envelope reading_runner k (response_envelope reading_runner ex_claim digits_result) = Inr ()"
proof -
  have "json_encodable (response_envelope ex_runner ex_claim ex_result)" by code_simp
  moreover have "encodable (replicate 4301 49)" by (simp add: encodable_def)
  ultimately have "json_encodable (response_envelope reading_runner ex_claim digits_result)"
    by (simp add: response_envelope_def digits_result_def reading_runner_def)
  then show ?thesis
    using canonical_json_None by (simp add: put_envelope_def) (simp add: reading_runner_def ex_runner_def)
qed

theorem unreadable_answer_strands_call_witness:
  "\<exists>r. run reading_runner (sql_repository id ex_prompts 110 110 12 13) id id 11 1 ex_db1 =
     \<lparr>ro_state = ex_db2, ro_calls = [(ex_claim, r)], ro_result = Inl RunLoadsRaised\<rparr>"
proof (rule ex_call)
  fix q r assume b: "build_call ex_runner ex_prep = Inr (example_request, q, r)" "gp_call_hash q = 0"
  have p: "prepare_item id ex_prompts 110 11 1 ex_db1 = Inr (Some ex_prep)" 
    by (simp add: prepare_item_def ex_db1_def ex_db_def ex_creation_def new_items_def new_job_def ex_payload_def
      find_provider_def ex_snapshot_valid ex_snapshot_hash example_rubric_valid call_plan_def last_attempt_def
      correction_source_def ex_prep_def Let_def)
  have c: "claim_attempt ex_prep (gp_call_hash q) 12 13 110 110 (id ex_db1) = Inr (ex_db2, Some ex_claim)"
    using ex_claimed b(2) by simp
  have "pipeline_ok (id ex_db1)" using reach_pipeline_ok [OF ex_reach1] by simp
  from unreadable_answer_strands_call [where before = id and after = id, OF this p b(1) [folded reading_build] c, of digits_result "\<lparr>ld_depth = 100, ld_float = JFloat\<rparr>"]
  show ?thesis using reading_put by (auto simp: reading_runner_def digits_result_def max_int_digits_def is_digit_def)
qed

end
