(* ===== verification/Review_Repo.thy ===== *)
theory Review_Repo
  imports Review_Db
begin

text \<open>
  \<open>backend/app/reviews/repository.py\<close>: the queries and writes of a review, each method one
  transaction under the teacher's role. Row level security shows a teacher only rows of an active
  account, so the queries of an inactive one find nothing. An exception rolls the transaction back:
  a method returns \<open>Inl\<close> and no state.
\<close>

record review_env =
  ve_casefold :: "pystr \<Rightarrow> pystr"
  ve_unicode :: unicode_db

section \<open>Rows as views\<close>

text \<open>\<open>_draft_view\<close>: the stored content must still satisfy the input contract.\<close>

definition row_view :: "review_row \<Rightarrow> criterion_input list \<Rightarrow> deduction_input list \<Rightarrow> draft_view" where
  "row_view r cs ds = \<lparr>dri_attempt_id = rev_attempt r, dri_criteria = cs, dri_deductions = ds,
     dri_evidence = rev_evidence r, dri_overall_feedback = rev_feedback r, dri_change_reason = rev_change_reason r,
     rdd_subtotal = rev_subtotal r, rdd_deduction_total = rev_deduction_total r, rdd_final_score = rev_final_score r,
     dv_id = rev_id r, dv_revision_number = rev_revision r, dv_status = rev_status r, dv_confirmed_at = rev_confirmed_at r\<rparr>"

definition draft_view_of :: "review_env \<Rightarrow> review_row \<Rightarrow> review_exn + draft_view" where
  "draft_view_of E r =
     (case map_opt (validate_criterion (ve_unicode E)) (rev_criteria r) of
        None \<Rightarrow> Inl (ReviewData ''review_criteria_invalid'')
      | Some cs \<Rightarrow>
          (case map_opt (validate_deduction_input (ve_unicode E)) (rev_deductions r) of
             None \<Rightarrow> Inl (ReviewData ''review_deductions_invalid'')
           | Some ds \<Rightarrow>
               if \<not> list_all validate_evidence_input (rev_evidence r) then Inl (ReviewData ''review_evidence_invalid'')
               else if rev_revision r = 0 then Inl ReviewPydantic
               else Inr (row_view r cs ds)))"

text \<open>The constructor of \<open>ReviewAttemptView\<close>.\<close>

definition attempt_view_ok :: "unicode_db \<Rightarrow> attempt_view \<Rightarrow> bool" where
  "attempt_view_ok U a \<longleftrightarrow> 0 < av_attempt_number a \<and> 0 < av_scoring_round a \<and> encodable (av_model a) \<and>
     length_between 1 300 (av_model a) \<and> decimal_field (av_subtotal a) \<and> decimal_field (av_deduction_total a) \<and>
     decimal_field (av_total_score a) \<and> length_between 1 100 (av_dimensions a) \<and> length (av_deductions a) \<le> 100 \<and>
     encodable (av_overall_feedback a) \<and> length_between 1 20000 (av_overall_feedback a) \<and>
     require_english_narrative U (av_overall_feedback a)"

text \<open>The result columns of a succeeded call.\<close>

definition attempt_result ::
    "attempt_row \<Rightarrow> (decimal \<times> decimal \<times> decimal \<times> dimension_result list \<times> deduction_result list \<times> pystr) option" where
  "attempt_result a =
     (case (att_subtotal a, att_deduction_total a, att_total_score a, att_criteria a, att_deductions a, att_feedback a) of
        (Some x, Some y, Some z, Some ds, Some xs, Some fb) \<Rightarrow> Some (x, y, z, ds, xs, fb)
      | _ \<Rightarrow> None)"

section \<open>\<open>_load_target\<close>\<close>

definition joined_rows :: "pdb \<Rightarrow> uuid \<Rightarrow> uuid \<Rightarrow> (item_row \<times> job_row \<times> submission_row \<times> rubric_row) option" where
  "joined_rows s owner iid =
     Option.bind (find (\<lambda>i. item_id i = iid \<and> item_owner i = owner) (db_items s)) (\<lambda>i.
     Option.bind (job_of_item s i) (\<lambda>j.
     Option.bind (submission_of s i) (\<lambda>u.
     map_option (\<lambda>v. (i, j, u, v)) (rubric_row_of s j))))"

definition review_of_attempt :: "pdb \<Rightarrow> item_row \<Rightarrow> attempt_row \<Rightarrow> uuid \<Rightarrow> review_row option" where
  "review_of_attempt s i a owner = find (\<lambda>r. rev_attempt r = att_id a \<and> rev_item r = item_id i \<and> rev_owner r = owner) (db_reviews s)"

definition make_target ::
    "uuid \<Rightarrow> item_row \<Rightarrow> job_row \<Rightarrow> submission_row \<Rightarrow> rubric_row \<Rightarrow> structured_rubric \<Rightarrow> attempt_view \<Rightarrow> draft_view option \<Rightarrow> review_target" where
  "make_target owner i j u v q av d = \<lparr>rt_owner_id = owner, rt_job_id = job_id j, rt_item_id = item_id i,
     rt_item_status = item_status i, rt_assignment_id = job_assignment j, rt_assignment_title = job_title j,
     rt_assignment_instructions = job_instructions j, rt_rubric_version_id = rv_id v, rt_rubric_version = rv_version v,
     rt_rubric = q, rt_submission_id = sub_id u, rt_submission_status = sub_status u,
     rt_extracted_object_key = sub_extracted_key u, rt_attempt = av, rt_draft = d\<rparr>"

definition checked_rubric :: "review_env \<Rightarrow> rubric_row \<Rightarrow> structured_rubric option" where
  "checked_rubric E v = Option.bind (rv_structured v) (\<lambda>q.
     case validate_rubric (ve_casefold E) q of Inl _ \<Rightarrow> None | Inr q' \<Rightarrow> Some q')"

definition load_review_target :: "review_env \<Rightarrow> pdb \<Rightarrow> uuid \<Rightarrow> uuid \<Rightarrow> review_exn + review_target option" where
  "load_review_target E s owner iid =
     (case joined_rows s owner iid of None \<Rightarrow> Inr None
      | Some (i, j, u, v) \<Rightarrow>
         (case latest_success s i owner of None \<Rightarrow> Inr None
          | Some a \<Rightarrow>
             (case (attempt_result a, checked_rubric E v) of
                (Some (x, y, z, ds, xs, fb), Some q) \<Rightarrow>
                   if \<not> (list_all (dimension_ok (ve_unicode E)) ds \<and> list_all (deduction_ok (ve_unicode E)) xs)
                   then Inl (ReviewData ''review_attempt_invalid'')
                   else let av = \<lparr>av_id = att_id a, av_attempt_number = att_number a, av_scoring_round = att_round a,
                                  av_model = job_model j, av_subtotal = x, av_deduction_total = y, av_total_score = z,
                                  av_dimensions = ds, av_deductions = xs, av_overall_feedback = fb\<rparr>
                   in if \<not> attempt_view_ok (ve_unicode E) av then Inl ReviewPydantic
                      else (case review_of_attempt s i a owner of
                              None \<Rightarrow> Inr (Some (make_target owner i j u v q av None))
                            | Some r \<Rightarrow> bindR (draft_view_of E r) (\<lambda>d. Inr (Some (make_target owner i j u v q av (Some d)))))
              | _ \<Rightarrow> Inl (ReviewData ''review_attempt_invalid''))))"

definition visible :: "pdb \<Rightarrow> uuid \<Rightarrow> bool" where
  "visible s owner \<longleftrightarrow> owner \<in> set (db_active_teachers s)"

definition get_target :: "review_env \<Rightarrow> pdb \<Rightarrow> uuid \<Rightarrow> uuid \<Rightarrow> review_exn + review_target option" where
  "get_target E s owner iid = (if visible s owner then load_review_target E s owner iid else Inr None)"

definition get_regrade_target :: "pdb \<Rightarrow> uuid \<Rightarrow> uuid \<Rightarrow> regrade_target option" where
  "get_regrade_target s owner iid =
     (if \<not> visible s owner then None
      else Option.bind (find (\<lambda>i. item_id i = iid \<and> item_owner i = owner) (db_items s)) (\<lambda>i.
        map_option (\<lambda>j. \<lparr>rg_job_id = job_id j, rg_item_id = item_id i, rg_item_status = item_status i,
            rg_has_confirmed_review = (\<exists>r \<in> set (db_reviews s). rev_item r = item_id i \<and> rev_owner r = owner \<and>
              rev_status r = ReviewConfirmed)\<rparr>)
          (job_of_item s i)))"

section \<open>Writes\<close>

text \<open>
  \<open>_raise_database_error\<close>: a failed check is the teacher's mistake, a unique violation or a
  serialization failure a conflict, everything else an internal error.
\<close>

definition raise_database_error :: "review_db_exn \<Rightarrow> review_exn" where
  "raise_database_error e = (case e of
       PgCheck \<Rightarrow> ReviewValidation ''review_database_validation_failed''
     | PgConflict \<Rightarrow> ReviewConflict
     | PgWrite CheckViolated \<Rightarrow> ReviewValidation ''review_database_validation_failed''
     | PgWrite UniqueViolated \<Rightarrow> ReviewConflict
     | PgWrite ForeignKeyViolated \<Rightarrow> ReviewConflict
     | _ \<Rightarrow> ReviewDatabase)"

definition on_database :: "review_db_exn + 'a \<Rightarrow> review_exn + 'a" where
  "on_database m = (case m of Inl e \<Rightarrow> Inl (raise_database_error e) | Inr x \<Rightarrow> Inr x)"

definition data_content :: "review_draft_data \<Rightarrow> review_content" where
  "data_content d = \<lparr>rc_criteria = dri_criteria d, rc_deductions = dri_deductions d, rc_evidence = dri_evidence d,
     rc_feedback = dri_overall_feedback d, rc_change_reason = dri_change_reason d, rc_subtotal = rdd_subtotal d,
     rc_deduction_total = rdd_deduction_total d, rc_final_score = rdd_final_score d\<rparr>"

definition save_row :: "uuid \<Rightarrow> pdb \<Rightarrow> uuid \<Rightarrow> uuid \<Rightarrow> review_draft_data \<Rightarrow> review_exn + (pdb \<times> uuid option)" where
  "save_row rid s owner iid d = on_database (save_teacher_review_draft rid owner iid (dri_attempt_id d) (data_content d) s)"

definition own_review :: "pdb \<Rightarrow> uuid \<Rightarrow> uuid \<Rightarrow> review_row option" where
  "own_review s owner rid = find (\<lambda>r. rev_id r = rid \<and> rev_owner r = owner) (db_reviews s)"

definition repo_save_draft ::
    "review_env \<Rightarrow> uuid \<Rightarrow> pdb \<Rightarrow> uuid \<Rightarrow> uuid \<Rightarrow> review_draft_data \<Rightarrow> review_exn + (pdb \<times> draft_view)" where
  "repo_save_draft E rid s owner iid d =
     bindR (save_row rid s owner iid d) (\<lambda>(s', saved).
       case saved of None \<Rightarrow> Inl ReviewState
       | Some k \<Rightarrow> (case own_review s' owner k of None \<Rightarrow> Inl ReviewNotFound
                    | Some r \<Rightarrow> bindR (draft_view_of E r) (\<lambda>v. Inr (s', v))))"

text \<open>\<open>_result\<close>: the reviews in the order of the references and the batches that are complete now.\<close>

record confirmation_result =
  cn_reviews :: "draft_view list"
  cn_completed_jobs :: "uuid list"

definition confirm_report :: "review_env \<Rightarrow> pdb \<Rightarrow> uuid \<Rightarrow> confirmation_ref list \<Rightarrow> review_exn + confirmation_result" where
  "confirm_report E s owner refs =
     (case map_opt (\<lambda>x. own_review s owner (cr_review_id x)) refs of None \<Rightarrow> Inl ReviewNotFound
      | Some rs \<Rightarrow>
         if \<not> distinct (map cr_review_id refs) then Inl ReviewNotFound
         else let jobs = map item_job (filter (\<lambda>i. item_owner i = owner \<and> item_id i \<in> set (map rev_item rs) \<and>
                  (case job_of_item s i of None \<Rightarrow> False | Some j \<Rightarrow> job_status j = JobCompleted)) (db_items s))
         in bindR (mapR (draft_view_of E) rs) (\<lambda>vs.
            if \<not> length_between 1 100 vs \<or> 100 < length (remdups jobs) then Inl ReviewPydantic
            else Inr \<lparr>cn_reviews = vs, cn_completed_jobs = sort (remdups jobs)\<rparr>))"

definition confirm_rows_of :: "time \<Rightarrow> pdb \<Rightarrow> uuid \<Rightarrow> confirmation_ref list \<Rightarrow> review_exn + (pdb \<times> uuid list option)" where
  "confirm_rows_of t s owner refs =
     on_database (confirm_teacher_reviews t owner (map (\<lambda>x. (cr_review_id x, cr_revision_number x)) refs) s)"

definition confirm_and_report ::
    "review_env \<Rightarrow> time \<Rightarrow> pdb \<Rightarrow> uuid \<Rightarrow> confirmation_ref list \<Rightarrow> review_exn + (pdb \<times> confirmation_result)" where
  "confirm_and_report E t s owner refs =
     bindR (confirm_rows_of t s owner refs) (\<lambda>(s', ids).
       case ids of None \<Rightarrow> Inl ReviewConflict
       | Some _ \<Rightarrow> bindR (confirm_report E s' owner refs) (\<lambda>x. Inr (s', x)))"

definition repo_save_and_confirm ::
    "review_env \<Rightarrow> uuid \<Rightarrow> time \<Rightarrow> pdb \<Rightarrow> uuid \<Rightarrow> uuid \<Rightarrow> uuid \<Rightarrow> review_draft_data \<Rightarrow> review_exn + (pdb \<times> confirmation_result)" where
  "repo_save_and_confirm E rid t s owner jid iid d =
     bindR (get_target E s owner iid) (\<lambda>found.
       case found of None \<Rightarrow> Inl ReviewNotFound
       | Some target \<Rightarrow>
           if rt_job_id target \<noteq> jid then Inl ReviewNotFound
           else (case (rt_item_status target, rt_draft target) of
               (ItemCompleted, Some v) \<Rightarrow> confirm_and_report E t s owner
                  [\<lparr>cr_item_id = iid, cr_review_id = dv_id v, cr_revision_number = dv_revision_number v\<rparr>]
             | _ \<Rightarrow> bindR (save_row rid s owner iid d) (\<lambda>(s1, saved).
                 case saved of None \<Rightarrow> Inl ReviewConflict
                 | Some k \<Rightarrow> (case own_review s1 owner k of None \<Rightarrow> Inl ReviewNotFound
                     | Some r \<Rightarrow> confirm_and_report E t s1 owner
                         [\<lparr>cr_item_id = iid, cr_review_id = rev_id r, cr_revision_number = rev_revision r\<rparr>]))))"

definition reference_matches :: "uuid \<Rightarrow> confirmation_ref \<Rightarrow> review_target option \<Rightarrow> bool" where
  "reference_matches jid x found = (case found of None \<Rightarrow> False
     | Some target \<Rightarrow> rt_job_id target = jid \<and>
         (case rt_draft target of None \<Rightarrow> False
          | Some v \<Rightarrow> dv_id v = cr_review_id x \<and> dv_revision_number v = cr_revision_number x))"

definition repo_confirm_reviews ::
    "review_env \<Rightarrow> time \<Rightarrow> pdb \<Rightarrow> uuid \<Rightarrow> uuid \<Rightarrow> confirmation_ref list \<Rightarrow> review_exn + (pdb \<times> confirmation_result)" where
  "repo_confirm_reviews E t s owner jid refs =
     bindR (mapR (\<lambda>x. bindR (get_target E s owner (cr_item_id x)) (\<lambda>found.
         ensure (reference_matches jid x found) ReviewNotFound)) refs) (\<lambda>_.
       confirm_and_report E t s owner refs)"

section \<open>The work queue\<close>

text \<open>\<open>list_jobs\<close>: the newest hundred batches with all their papers and the review of each paper's current round.\<close>

record queue_item =
  qi_id :: uuid
  qi_submission :: uuid
  qi_filename :: pystr
  qi_position :: nat
  qi_status :: item_status
  qi_attempt_count :: nat
  qi_error :: "call_code option"
  qi_review_available :: bool
  qi_review :: "(uuid \<times> nat \<times> review_status) option"

record job_summary =
  js_id :: uuid
  js_assignment :: uuid
  js_title :: pystr
  js_model :: pystr
  js_status :: job_status
  js_total :: nat
  js_needs_review :: nat
  js_completed :: nat
  js_failed :: nat
  js_items :: "queue_item list"
  js_created :: time
  js_finished :: "time option"

definition queue_item_ok :: "queue_item \<Rightarrow> bool" where
  "queue_item_ok q \<longleftrightarrow> encodable (qi_filename q) \<and> length_between 1 255 (qi_filename q) \<and> qi_position q \<le> 99 \<and>
     (case qi_review q of None \<Rightarrow> True | Some (_, n, _) \<Rightarrow> 0 < n)"

definition job_summary_ok :: "job_summary \<Rightarrow> bool" where
  "job_summary_ok x \<longleftrightarrow> encodable (js_title x) \<and> length_between 1 300 (js_title x) \<and> encodable (js_model x) \<and>
     length_between 1 300 (js_model x) \<and> 1 \<le> js_total x \<and> js_total x \<le> 100 \<and> length_between 1 100 (js_items x) \<and>
     length (js_items x) = js_total x"

text \<open>The papers of the listed batches with their submissions, in the order of their positions.\<close>

definition queue_rows :: "pdb \<Rightarrow> uuid \<Rightarrow> uuid \<Rightarrow> (item_row \<times> submission_row) list" where
  "queue_rows s owner jid = List.map_filter
     (\<lambda>i. map_option (Pair i) (find (\<lambda>u. sub_id u = item_submission i \<and> sub_owner u = item_owner i) (db_submissions s)))
     (sort_key item_position (filter (\<lambda>i. item_job i = jid \<and> item_owner i = owner) (db_items s)))"

definition round_successes :: "pdb \<Rightarrow> uuid \<Rightarrow> item_row \<Rightarrow> attempt_row list" where
  "round_successes s owner i = filter (\<lambda>a. att_owner a = owner \<and> att_item a = item_id i \<and> att_status a = AttSucceeded \<and>
     att_round a = item_version i) (db_attempts s)"

text \<open>\<open>setdefault\<close> over descending attempt numbers keeps the review of the highest one.\<close>

definition queue_review :: "pdb \<Rightarrow> uuid \<Rightarrow> item_row \<Rightarrow> review_row option" where
  "queue_review s owner i =
     (case concat (map (\<lambda>a. filter (\<lambda>r. rev_attempt r = att_id a) (db_reviews s))
         (rev (sort_key att_number (round_successes s owner i)))) of [] \<Rightarrow> None | r # _ \<Rightarrow> Some r)"

definition make_queue_item :: "pdb \<Rightarrow> uuid \<Rightarrow> item_row \<times> submission_row \<Rightarrow> review_exn + queue_item" where
  "make_queue_item s owner iu = (let i = fst iu; u = snd iu;
      q = \<lparr>qi_id = item_id i, qi_submission = sub_id u, qi_filename = sub_filename u, qi_position = item_position i,
           qi_status = item_status i,
           qi_attempt_count = length (filter (\<lambda>a. att_owner a = owner \<and> att_item a = item_id i) (db_attempts s)),
           qi_error = item_error i, qi_review_available = (round_successes s owner i \<noteq> []),
           qi_review = map_option (\<lambda>r. (rev_id r, rev_revision r, rev_status r)) (queue_review s owner i)\<rparr>
      in if queue_item_ok q then Inr q else Inl ReviewPydantic)"

definition make_summary :: "pdb \<Rightarrow> uuid \<Rightarrow> job_row \<Rightarrow> review_exn + job_summary" where
  "make_summary s owner j =
     (let rows = queue_rows s owner (job_id j); count = (\<lambda>st. length (filter (\<lambda>r. item_status (fst r) = st) rows)) in
      bindR (mapR (make_queue_item s owner) rows) (\<lambda>items.
        let x = \<lparr>js_id = job_id j, js_assignment = job_assignment j, js_title = job_title j, js_model = job_model j,
                 js_status = job_status j, js_total = job_expected j, js_needs_review = count ItemNeedsReview,
                 js_completed = count ItemCompleted, js_failed = count ItemFailed, js_items = items,
                 js_created = job_created j, js_finished = job_finished j\<rparr>
        in if job_summary_ok x then Inr x else Inl ReviewPydantic))"

definition listed_jobs :: "pdb \<Rightarrow> uuid \<Rightarrow> job_row list" where
  "listed_jobs s owner = (if \<not> visible s owner then []
     else take 100 (sort_key (\<lambda>j. - int (job_created j)) (sort_key job_id (filter (\<lambda>j. job_owner j = owner) (db_jobs s)))))"

definition list_jobs :: "pdb \<Rightarrow> uuid \<Rightarrow> review_exn + job_summary list" where
  "list_jobs s owner = mapR (make_summary s owner) (listed_jobs s owner)"

end
