(* ===== verification/Review_World.thy ===== *)
theory Review_World
  imports Pipeline_Concurrency
begin

text \<open>
  Reviews in the reachable worlds of the pipeline: which papers count as completed, and what the
  confirmed review of such a paper is about. Teachers review while batches run, fail, are retried or
  cancelled; the invariant ties papers, calls and reviews together over all of it.
\<close>

section \<open>The invariant\<close>

definition review_refs :: "pdb \<Rightarrow> bool" where
  "review_refs s \<longleftrightarrow> distinct (map rev_id (db_reviews s)) \<and>
     (\<forall>r \<in> set (db_reviews s).
        (\<exists>i \<in> set (db_items s). item_id i = rev_item r \<and> item_owner i = rev_owner r) \<and>
        (\<exists>a \<in> set (db_attempts s). att_id a = rev_attempt r \<and> att_item a = rev_item r \<and> att_owner a = rev_owner r))"

text \<open>The call a confirmed review is about.\<close>

definition reviews_call :: "pdb \<Rightarrow> item_row \<Rightarrow> review_row \<Rightarrow> bool" where
  "reviews_call s i r \<longleftrightarrow> (\<exists>a \<in> set (db_attempts s). att_id a = rev_attempt r \<and> att_item a = item_id i \<and>
     att_status a = AttSucceeded \<and> att_round a = item_version i)"

definition confirmed_ok :: "pdb \<Rightarrow> bool" where
  "confirmed_ok s \<longleftrightarrow>
     (\<forall>r \<in> set (db_reviews s). rev_status r = ReviewConfirmed \<longrightarrow>
        (\<exists>i \<in> set (db_items s). item_id i = rev_item r \<and> item_status i = ItemCompleted \<and> reviews_call s i r)) \<and>
     (\<forall>i \<in> set (db_items s). item_status i = ItemCompleted \<longrightarrow>
        (\<exists>r \<in> set (db_reviews s). rev_item r = item_id i \<and> rev_status r = ReviewConfirmed)) \<and>
     (\<forall>r \<in> set (db_reviews s). \<forall>b \<in> set (db_reviews s). rev_status r = ReviewConfirmed \<longrightarrow>
        rev_status b = ReviewConfirmed \<longrightarrow> rev_item b = rev_item r \<longrightarrow> b = r)"

definition papers_ok :: "pdb \<Rightarrow> bool" where
  "papers_ok s \<longleftrightarrow> (\<forall>i \<in> set (db_items s). submission_of s i \<noteq> None)"

definition reviews_ok :: "pdb \<Rightarrow> bool" where
  "reviews_ok s \<longleftrightarrow> review_refs s \<and> confirmed_ok s \<and> papers_ok s"

section \<open>Steps that leave the reviews alone\<close>

lemma submission_of_cong:
  assumes "item_identity k = item_identity i" "db_submissions s' = db_submissions s"
  shows "submission_of s' k = submission_of s i"
  using assms by (simp add: submission_of_def item_identity_def)

lemma review_refs_kept:
  assumes "review_refs s" "evolves s s'" "db_reviews s' = db_reviews s"
  shows "review_refs s'"
  unfolding review_refs_def assms(3)
proof (intro conjI ballI)
  show "distinct (map rev_id (db_reviews s))" using assms(1) by (simp add: review_refs_def)
  fix r assume r: "r \<in> set (db_reviews s)"
  then obtain i where i: "i \<in> set (db_items s)" "item_id i = rev_item r" "item_owner i = rev_owner r"
    using assms(1) by (auto simp: review_refs_def)
  then obtain k where "k \<in> set (db_items s')" "item_identity k = item_identity i" using assms(2) unfolding evolves_def by blast
  then show "\<exists>i \<in> set (db_items s'). item_id i = rev_item r \<and> item_owner i = rev_owner r"
    using i by (auto simp: item_identity_def)
  from r obtain a where a: "a \<in> set (db_attempts s)" "att_id a = rev_attempt r" "att_item a = rev_item r" "att_owner a = rev_owner r"
    using assms(1) by (auto simp: review_refs_def)
  then obtain b where b: "b \<in> set (db_attempts s')" "attempt_identity b = attempt_identity a" using assms(2) unfolding evolves_def by blast
  then show "\<exists>a \<in> set (db_attempts s'). att_id a = rev_attempt r \<and> att_item a = rev_item r \<and> att_owner a = rev_owner r"
    using a attempt_identity_fields [OF b(2)] by auto
qed

lemma reviews_call_kept:
  assumes "reviews_call s i r" "evolves s s'"
  shows "reviews_call s' i r"
proof -
  obtain a where a: "a \<in> set (db_attempts s)" "att_id a = rev_attempt r" "att_item a = item_id i"
    "att_status a = AttSucceeded" "att_round a = item_version i" using assms(1) by (auto simp: reviews_call_def)
  then obtain b where "b \<in> set (db_attempts s')" "att_status a \<noteq> AttRunning \<longrightarrow> b = a" using assms(2) unfolding evolves_def by blast
  then show ?thesis using a by (auto simp: reviews_call_def)
qed

lemma confirmed_ok_kept:
  assumes ok: "confirmed_ok s" and e: "evolves s s'" and rv: "db_reviews s' = db_reviews s"
    and new: "\<And>i. i \<in> set (db_items s') \<Longrightarrow> item_status i = ItemCompleted \<Longrightarrow> i \<in> set (db_items s)"
  shows "confirmed_ok s'"
proof -
  have "\<exists>i \<in> set (db_items s'). item_id i = rev_item r \<and> item_status i = ItemCompleted \<and> reviews_call s' i r"
    if r: "r \<in> set (db_reviews s)" "rev_status r = ReviewConfirmed" for r
  proof -
    from ok r obtain i where i: "i \<in> set (db_items s)" "item_id i = rev_item r" "item_status i = ItemCompleted" "reviews_call s i r"
      unfolding confirmed_ok_def by blast
    then obtain k where "k \<in> set (db_items s')" "item_status i = ItemCompleted \<longrightarrow> k = i" using e unfolding evolves_def by blast
    then show ?thesis using i reviews_call_kept [OF i(4) e] by auto
  qed
  then show ?thesis using ok new unfolding confirmed_ok_def rv by auto
qed

lemma reviews_kept:
  assumes ok: "reviews_ok s" and e: "evolves s s'" and rv: "db_reviews s' = db_reviews s"
    and new: "\<And>i. i \<in> set (db_items s') \<Longrightarrow> item_status i = ItemCompleted \<Longrightarrow> i \<in> set (db_items s)"
    and subs: "\<And>i. i \<in> set (db_items s') \<Longrightarrow> submission_of s' i \<noteq> None"
  shows "reviews_ok s'"
proof -
  have "review_refs s'" by (rule review_refs_kept [OF _ e rv]) (use ok in \<open>simp add: reviews_ok_def\<close>)
  moreover have "confirmed_ok s'" by (rule confirmed_ok_kept [OF _ e rv new]) (use ok in \<open>simp_all add: reviews_ok_def\<close>)
  ultimately show ?thesis using subs by (simp add: reviews_ok_def papers_ok_def)
qed

lemma reviews_stays:
  assumes ok: "reviews_ok s" and g: "grows s s'" and st: "stays s s'"
  shows "reviews_ok s'"
proof (rule reviews_kept [OF ok])
  show "evolves s s'" "db_reviews s' = db_reviews s" using g by (auto simp: grows_def same_inputs_def)
  show "i \<in> set (db_items s)" if "i \<in> set (db_items s')" "item_status i = ItemCompleted" for i
    using st that by (simp add: stays_def)
  fix i assume "i \<in> set (db_items s')"
  then have "item_identity i \<in> item_identity ` set (db_items s)" using st by (auto simp: stays_def)
  then obtain k where k: "k \<in> set (db_items s)" "item_identity i = item_identity k" by blast
  have "submission_of s' i = submission_of s k"
    by (rule submission_of_cong [OF k(2)]) (use g in \<open>simp add: grows_def same_inputs_def\<close>)
  then show "submission_of s' i \<noteq> None" using ok k(1) by (auto simp: reviews_ok_def papers_ok_def)
qed

lemma claim_stays_items:
  assumes "claim_attempt p h aid lease now t s = Inr (s', Some c)"
  shows "item_identity ` set (db_items s') \<subseteq> item_identity ` set (db_items s) \<and>
    (\<forall>i \<in> set (db_items s'). item_status i = ItemCompleted \<longrightarrow> i \<in> set (db_items s))"
proof (rule claim_Inr [OF assms])
  fix j i s1 s2
  assume i: "i \<in> set (db_items s)" and w: "insert_attempt (new_attempt p h aid now i s) s = Inr s1"
    "write_item i (claimed_item p lease now i) s1 = Inr s2"
    "write_job t (job_status j = JobQueued) j (claimed_job now j) s2 = Inr s'"
  have t: "db_items s1 = db_items s" using w(1) by (simp add: insert_attempt_Inr)
  have "stays s1 s2" by (rule write_item_stays [OF w(2)]) (use i t in simp_all)
  moreover have "db_items s' = db_items s2" using w(3) by (auto simp: write_job_Inr Let_def)
  ultimately show ?thesis using t by (simp add: stays_def)
qed

lemma create_new_items:
  assumes "create_or_get_job env owner assignment payload s = Inr (s', v, b)" "papers_ok s"
  shows "(\<forall>i \<in> set (db_items s'). item_status i = ItemCompleted \<longrightarrow> i \<in> set (db_items s)) \<and> papers_ok s'"
proof (cases "existing_job s owner (jc_key payload)")
  case None
  from assms(1) None obtain a r con p snap h m where
    "insert_batch env owner (new_job env owner a r con p snap h m payload) (jc_submissions payload) s = Inr (s', v)"
    by (auto simp: create_or_get_job_def split: if_splits option.splits sum.splits prod.splits)
  then obtain s1 j as subs where ins: "insert_job j s = Inr s1" "insert_items (new_items env owner as subs) s1 = Inr s'"
    by (auto simp: insert_batch_def split: option.splits)
  have sub: "submission_of q' i \<noteq> None" if "insert_items is q = Inr q'" "i \<in> set is" for "is" i q q'
    using that
  proof (induction "is" arbitrary: q)
    case (Cons k ks)
    from Cons.prems obtain q1 where w: "insert_item k q = Inr q1" "insert_items ks q1 = Inr q'" by auto
    have q1: "db_submissions q1 = db_submissions q" using w(1) by (auto simp: insert_item_def)
    have q': "db_submissions q' = db_submissions q1" using insert_items_Inr [OF w(2)] by simp
    have "\<exists>u \<in> set (db_submissions q). sub_id u = item_submission k \<and> sub_assignment u = item_assignment k \<and> sub_owner u = item_owner k"
      using w(1) by (auto simp: insert_item_def)
    then have "submission_of q' k \<noteq> None" using q1 q' by (auto simp: submission_of_def find_None_iff)
    then show ?case using Cons.IH [OF w(2)] Cons.prems(2) by auto
  qed simp
  have I: "db_items s' = db_items s @ new_items env owner as subs" "db_submissions s' = db_submissions s"
    using insert_items_Inr [OF ins(2)] insert_job_Inr [OF ins(1)] by simp_all
  have e: "submission_of s' i = submission_of s i" for i by (rule submission_of_cong) (simp_all add: I)
  have q: "item_status i = ItemQueued" if "i \<in> set (new_items env owner as subs)" for i
    using that by (auto simp: new_items_def)
  have "papers_ok s'"
    unfolding papers_ok_def I(1) using sub [OF ins(2)] assms(2) e by (auto simp: papers_ok_def simp del: not_None_eq)
  then show ?thesis using q unfolding I(1) by auto
qed (use assms in \<open>auto simp: create_or_get_job_def split: if_splits option.splits\<close>)

section \<open>Saving a draft\<close>

lemma save_reviews:
  assumes ok: "reviews_ok s" and c: "save_teacher_review_draft rid teacher iid aid x s = Inr (s', v)"
    and p: "pipeline_ok s"
  shows "reviews_ok s'"
proof -
  have d: "distinct (map rev_id (db_reviews s))" using ok by (simp add: reviews_ok_def review_refs_def)
  note E = save_effect [OF c d]
  have t: "db_items s' = db_items s" "db_attempts s' = db_attempts s" "db_submissions s' = db_submissions s"
    by (rule save_tables [OF c], simp)+
  have refs: "(\<exists>i \<in> set (db_items s). item_id i = rev_item r \<and> item_owner i = rev_owner r) \<and>
      (\<exists>a \<in> set (db_attempts s). att_id a = rev_attempt r \<and> att_item a = rev_item r \<and> att_owner a = rev_owner r)"
    if r: "r \<in> set (db_reviews s')" for r
  proof (cases "r \<in> set (db_reviews s)")
    case False
    then have "validate_review_score s r" using E r by blast
    then obtain a where a: "a \<in> set (db_attempts s)" "att_id a = rev_attempt r" "att_item a = rev_item r" "att_owner a = rev_owner r"
      by (auto simp: validate_review_score_def)
    then have "(rev_item r, rev_owner r) \<in> set (map (\<lambda>i. (item_id i, item_owner i)) (db_items s))"
      using p unfolding pipeline_ok_def links_ok_def by force
    then show ?thesis using a by auto
  qed (use ok in \<open>auto simp: reviews_ok_def review_refs_def\<close>)
  have conf: "r \<in> set (db_reviews s') \<longleftrightarrow> r \<in> set (db_reviews s)" if "rev_status r = ReviewConfirmed" for r
    using E that by blast
  have "review_refs s'" using E refs by (simp add: review_refs_def t)
  moreover have "confirmed_ok s'"
    using ok conf unfolding reviews_ok_def confirmed_ok_def reviews_call_def t by blast
  moreover have "papers_ok s'" using ok by (simp add: reviews_ok_def papers_ok_def submission_of_def t)
  ultimately show ?thesis by (simp add: reviews_ok_def)
qed

section \<open>Confirming\<close>

lemma confirm_join_exists:
  assumes p: "pipeline_ok s" and rb: "rubrics_ok s" and ok: "reviews_ok s" and r: "r \<in> set (db_reviews s)"
    and i: "i \<in> set (db_items s)" "item_id i = rev_item r" "item_owner i = rev_owner r"
  obtains x where "confirm_join s r = Some x" "cf_review x = r" "cf_item x = i" "att_id (cf_attempt x) = rev_attempt r"
    "att_item (cf_attempt x) = item_id i" "cf_attempt x \<in> set (db_attempts s)"
proof -
  have K: "distinct (map item_id (db_items s))" using p by (simp add: pipeline_ok_def keys_ok_def)
  have fi: "find (\<lambda>i. item_id i = rev_item r \<and> item_owner i = rev_owner r) (db_items s) = Some i"
    using find_unique [OF K, of "rev_item r" "\<lambda>i. item_owner i = rev_owner r"] i by simp
  have "(item_job i, item_owner i) \<in> set (job_refs s)" using p i(1) by (auto simp: pipeline_ok_def links_ok_def)
  then have "job_of_item s i \<noteq> None" by (auto simp: job_of_item_def find_None_iff job_refs_def)
  then obtain j where j: "job_of_item s i = Some j" "j \<in> set (db_jobs s)"
    using find_SomeD by (fastforce simp: job_of_item_def)
  obtain u where u: "submission_of s i = Some u" using ok i(1) by (auto simp: reviews_ok_def papers_ok_def)
  obtain v0 where "v0 \<in> set (db_rubrics s)" "rubric_of j v0" using rb j(2) by (auto simp: rubrics_ok_def)
  then have "rubric_row_of s j \<noteq> None" by (auto simp: rubric_row_of_def find_None_iff rubric_of_def)
  then obtain v where v: "rubric_row_of s j = Some v" by blast
  obtain a0 where "a0 \<in> set (db_attempts s)" "att_id a0 = rev_attempt r" "att_item a0 = rev_item r" "att_owner a0 = rev_owner r"
    using ok r by (auto simp: reviews_ok_def review_refs_def)
  then have "find (\<lambda>a. att_id a = rev_attempt r \<and> att_item a = item_id i \<and> att_owner a = item_owner i) (db_attempts s) \<noteq> None"
    using i by (auto simp: find_None_iff)
  then obtain a where a: "find (\<lambda>a. att_id a = rev_attempt r \<and> att_item a = item_id i \<and> att_owner a = item_owner i) (db_attempts s) = Some a"
    by blast
  show thesis
    using that find_SomeD [OF a] fi j(1) u v a by (simp add: confirm_join_def)
qed

lemma check_confirm_facts:
  assumes "check_confirm s x = Inr ()"
  shows "att_status (cf_attempt x) = AttSucceeded" "att_round (cf_attempt x) = item_version (cf_item x)"
    "\<exists>q. rv_structured (cf_rubric x) = Some q \<and> check_against (content_of (cf_review x)) q (cf_attempt x) = Inr ()"
  using assms by (auto simp: check_confirm_def Let_def split: if_splits option.splits)

lemma in_map_filter: "x \<in> set xs \<Longrightarrow> f x = Some y \<Longrightarrow> y \<in> set (List.map_filter f xs)"
  by (force simp: List.map_filter_def)

lemma confirm_reviews:
  assumes p: "pipeline_ok s" and rb: "rubrics_ok s" and ok: "reviews_ok s"
    and c: "confirm_teacher_reviews t teacher refs s = Inr (s', v)" and ch: "s' \<noteq> s"
  shows "reviews_ok s'"
proof -
  have d: "distinct (map rev_id (db_reviews s))" using ok by (simp add: reviews_ok_def review_refs_def)
  obtain rs s1 where rs: "map_opt (referenced teacher s) refs = Some rs" and df: "distinct (map fst refs)"
    and chk: "\<forall>x \<in> set (List.map_filter (confirm_join s) rs). check_confirm s x = Inr ()"
    and e: "evolves s s'" and k: "keys_ok s'" and att: "db_attempts s' = db_attempts s"
    and items: "set (db_items s') = completed_item t ` set (confirmed_items teacher rs s) \<union> (set (db_items s) - set (confirmed_items teacher rs s))"
    and nr: "\<forall>i \<in> set (confirmed_items teacher rs s). item_status i = ItemNeedsReview"
    and w: "write_reviews t rs s = Inr s1" and rv1: "db_reviews s' = db_reviews s1"
    and si: "same_inputs (s\<lparr>db_reviews := db_reviews s'\<rparr>) s'"
    by (rule confirm_core [OF p c ch])
  note R = referenced_rows [OF rs]
  have "distinct (map rev_id rs)" using R(2) df by simp
  note W = write_reviews_rows [OF d this R(1) w, folded rv1]
  have rv: "set (db_reviews s') = confirmed_row t ` set rs \<union> (set (db_reviews s) - set rs)"
    and ids: "map rev_id (db_reviews s') = map rev_id (db_reviews s)" and dr: "\<forall>r \<in> set rs. rev_status r = ReviewDraft"
    and un: "\<forall>r \<in> set rs. \<forall>b \<in> set (db_reviews s'). rev_item b = rev_item r \<longrightarrow> rev_status b = ReviewConfirmed \<longrightarrow> rev_id b = rev_id r"
    using W by blast+
  have call: "reviews_call s' j r' = reviews_call s i r"
    if "item_id j = item_id i" "item_version j = item_version i" "rev_attempt r' = rev_attempt r" for i j r r'
    using that by (simp add: reviews_call_def att)
  have refs: "review_refs s'"
  proof -
    have "\<exists>q \<in> set (db_reviews s). rev_item r = rev_item q \<and> rev_owner r = rev_owner q \<and> rev_attempt r = rev_attempt q"
      if "r \<in> set (db_reviews s')" for r
      using that R(1) unfolding rv by auto
    moreover have "review_refs (s'\<lparr>db_reviews := db_reviews s\<rparr>)"
      by (rule review_refs_kept [of s]) (use ok e in \<open>auto simp: reviews_ok_def evolves_def\<close>)
    ultimately show ?thesis using d ids unfolding review_refs_def by (metis pdb.select_convs(7,8,9) pdb.surjective pdb.update_convs(9))
  qed
  have new: "\<exists>i \<in> set (db_items s'). item_id i = rev_item r \<and> item_status i = ItemCompleted \<and> reviews_call s' i (confirmed_row t r)"
    if r: "r \<in> set rs" for r
  proof -
    have r': "r \<in> set (db_reviews s)" "rev_owner r = teacher" using R r by auto
    then obtain i where i: "i \<in> set (db_items s)" "item_id i = rev_item r" "item_owner i = rev_owner r"
      using ok by (auto simp: reviews_ok_def review_refs_def)
    have ci: "i \<in> set (confirmed_items teacher rs s)" using i r r' by (auto simp: confirmed_items_def)
    obtain x where x: "confirm_join s r = Some x" "cf_review x = r" "cf_item x = i" "att_id (cf_attempt x) = rev_attempt r"
      "att_item (cf_attempt x) = item_id i" "cf_attempt x \<in> set (db_attempts s)"
      by (rule confirm_join_exists [OF p rb ok r'(1) i])
    have "check_confirm s x = Inr ()" using chk in_map_filter [of r rs "confirm_join s" x, OF r x(1)] by blast
    from check_confirm_facts(1,2) [OF this] have "reviews_call s i r" using x by (auto simp: reviews_call_def)
    then have "reviews_call s' (completed_item t i) (confirmed_row t r)" using call [of "completed_item t i" i "confirmed_row t r" r] by simp
    moreover have "completed_item t i \<in> set (db_items s')" unfolding items using ci by simp
    ultimately show ?thesis using i(2) by (intro bexI [of _ "completed_item t i"]) simp_all
  qed
  have old: "\<exists>i \<in> set (db_items s'). item_id i = rev_item r \<and> item_status i = ItemCompleted \<and> reviews_call s' i r"
    if r: "r \<in> set (db_reviews s)" "rev_status r = ReviewConfirmed" for r
  proof -
    obtain i where i: "i \<in> set (db_items s)" "item_id i = rev_item r" "item_status i = ItemCompleted" "reviews_call s i r"
      using ok r unfolding reviews_ok_def confirmed_ok_def by blast
    then have "i \<in> set (db_items s')" using nr unfolding items by auto
    then show ?thesis using i call by blast
  qed
  have comp: "\<exists>r \<in> set (db_reviews s'). rev_item r = item_id i \<and> rev_status r = ReviewConfirmed"
    if i: "i \<in> set (db_items s')" "item_status i = ItemCompleted" for i
  proof -
    consider k where "k \<in> set (confirmed_items teacher rs s)" "i = completed_item t k" | "i \<in> set (db_items s)"
      using i(1) unfolding items by blast
    then show ?thesis
    proof cases
      case 1
      then obtain r where "r \<in> set rs" "rev_item r = item_id i" by (auto simp: confirmed_items_def)
      then show ?thesis unfolding rv by (intro bexI [of _ "confirmed_row t r"]) auto
    next
      case 2
      then obtain r where "r \<in> set (db_reviews s)" "rev_item r = item_id i" "rev_status r = ReviewConfirmed"
        using ok i(2) unfolding reviews_ok_def confirmed_ok_def by blast
      then show ?thesis using dr unfolding rv by (intro bexI [of _ r]) auto
    qed
  qed
  have key: "x = y" if "x \<in> set (db_reviews s')" "y \<in> set (db_reviews s')" "rev_id x = rev_id y" for x y
    using that d ids distinct_map_eqD [of rev_id "db_reviews s'"] by simp
  have uniq: "b = r" if x: "r \<in> set (db_reviews s')" "b \<in> set (db_reviews s')" "rev_status r = ReviewConfirmed"
    "rev_status b = ReviewConfirmed" "rev_item b = rev_item r" for r b
  proof (cases "r \<in> confirmed_row t ` set rs \<or> b \<in> confirmed_row t ` set rs")
    case True
    then have "rev_id b = rev_id r"
    proof
      assume "r \<in> confirmed_row t ` set rs"
      then obtain y where "y \<in> set rs" "r = confirmed_row t y" by blast
      then show ?thesis using bspec [OF bspec [OF un], of y b] x by simp
    next
      assume "b \<in> confirmed_row t ` set rs"
      then obtain y where "y \<in> set rs" "b = confirmed_row t y" by blast
      then show ?thesis using bspec [OF bspec [OF un], of y r] x by simp
    qed
    then show ?thesis using key x by simp
  next
    case False
    then have "r \<in> set (db_reviews s)" "b \<in> set (db_reviews s)" using x(1,2) unfolding rv by auto
    then show ?thesis using ok x(3-5) unfolding reviews_ok_def confirmed_ok_def by blast
  qed
  have "confirmed_ok s'"
    unfolding confirmed_ok_def
  proof (intro conjI ballI impI)
    fix r assume "r \<in> set (db_reviews s')" "rev_status r = ReviewConfirmed"
    then show "\<exists>i \<in> set (db_items s'). item_id i = rev_item r \<and> item_status i = ItemCompleted \<and> reviews_call s' i r"
      using new old unfolding rv by auto
  qed (use comp uniq in blast)+
  moreover have "papers_ok s'"
  proof -
    have "submission_of s' i \<noteq> None" if i: "i \<in> set (db_items s')" for i
    proof -
      obtain k where k: "k \<in> set (db_items s)" "item_identity i = item_identity k"
        using i unfolding items by (auto simp: confirmed_items_def)
      have "submission_of s' i = submission_of s k" by (rule submission_of_cong [OF k(2)]) (use si in \<open>simp add: same_inputs_def\<close>)
      then show ?thesis using ok k(1) by (auto simp: reviews_ok_def papers_ok_def)
    qed
    then show ?thesis by (simp add: papers_ok_def)
  qed
  ultimately show ?thesis using refs by (simp add: reviews_ok_def)
qed

section \<open>Every reachable world\<close>

lemma wstep_reviews:
  assumes st: "wstep w w'" and W: "world_ok w" and ok: "reviews_ok (w_db w)"
  shows "reviews_ok (w_db w')"
proof -
  have p: "pipeline_ok (w_db w)" and r: "rubrics_ok (w_db w)" and k: "keys_ok (w_db w)"
    using W by (auto simp: world_ok_def pipeline_ok_def)
  have e: "evolves (w_db w) (w_db w')" by (rule wstep_evolves [OF st p])
  have sub: "papers_ok (w_db w)" using ok by (simp add: reviews_ok_def)
  from st show ?thesis
  proof cases
    case (create env owner assignment payload s' v b)
    have "db_reviews s' = db_reviews (w_db w)" using create_grows [OF p create(2)] by (simp add: grows_def same_inputs_def)
    then show ?thesis
      using reviews_kept [OF ok e] create_new_items [OF create(2) sub] create(1) by (simp add: papers_ok_def)
  next
    case (control t teacher jid act target s' v)
    then show ?thesis using reviews_stays [OF ok control_grows [OF k control(2)] control_stays [OF control(2) k]] by simp
  next
    case prepare then show ?thesis using ok by simp
  next
    case (claim q E g pr rq aid lease now t s' cl)
    note G = claim_grows [OF k claim(4)] and I = claim_stays_items [OF claim(4)]
    have "submission_of s' i \<noteq> None" if i: "i \<in> set (db_items s')" for i
    proof -
      have "item_identity i \<in> item_identity ` set (db_items (w_db w))" using I i by blast
      then obtain x where x: "x \<in> set (db_items (w_db w))" "item_identity i = item_identity x" by blast
      have "submission_of s' i = submission_of (w_db w) x"
        by (rule submission_of_cong [OF x(2)]) (use G in \<open>simp add: grows_def same_inputs_def\<close>)
      then show ?thesis using sub x(1) by (auto simp: papers_ok_def)
    qed
    then have "reviews_ok s'" by (intro reviews_kept [OF ok]) (use G I in \<open>auto simp: grows_def same_inputs_def\<close>)
    then show ?thesis using claim(1) by simp
  next
    case (succeed x E res co now t s')
    then show ?thesis using reviews_stays [OF ok finish_success_grows [OF k succeed(5)] finish_success_stays [OF succeed(5)]] by simp
  next
    case (fail x E res f out now t s')
    then show ?thesis using reviews_stays [OF ok finish_failure_grows [OF k fail(5)] finish_failure_stays [OF fail(5)]] by simp
  next
    case (expire now t limit s' n)
    have "stays (w_db w) s'" using expire(2) expire_each_stays unfolding expire_stale_attempts_def by blast
    then show ?thesis using reviews_stays [OF ok expire_stale_grows [OF k expire(2)]] expire(1) by simp
  next
    case (save rid teacher iid aid c s' v)
    then show ?thesis using save_reviews [OF ok save(2) p] by simp
  next
    case (confirm t teacher refs s' v)
    then show ?thesis using confirm_reviews [OF p r ok confirm(2)] ok by (cases "s' = w_db w") auto
  next
    case (inputs s')
    then have "reviews_ok s'"
      by (intro reviews_kept [OF ok inputs_evolve]) (use sub in \<open>auto simp: inputs_change_def papers_ok_def\<close>)
    then show ?thesis using inputs(1) by simp
  qed
qed

lemma reach_reviews: "reach w \<Longrightarrow> reviews_ok (w_db w)"
proof (induction rule: reach.induct)
  case (start s)
  then show ?case by (simp add: empty_pipeline_def reviews_ok_def review_refs_def confirmed_ok_def papers_ok_def)
next
  case (step w w')
  then show ?case using wstep_reviews reach_world_ok by blast
qed

end
