(* ===== verification/Review_Example.thy ===== *)
theory Review_Example
  imports Review_World Pipeline_Example
begin

text \<open>
  The concrete history of \<open>Pipeline_Example\<close> continued: the answer is accepted, the teacher saves a
  corrected review and confirms it, which completes the paper and its batch.
\<close>

section \<open>The accepted answer\<close>

definition ex_validated :: validated_grade_result where
  "ex_validated = \<lparr>gr_dimensions = [\<lparr>dr_dimension_id = ustr ''a'', dr_score = Dec False 70 (- 1), dr_reason = ustr ''clear'',
     dr_evidence = [\<lparr>ev_block_id = block_name 1, ev_quote = ustr ''text''\<rparr>], dr_revision_suggestions = [ustr ''shorten'']\<rparr>],
     gr_deductions = [\<lparr>xr_deduction_id = ustr ''b'', xr_applied = True, xr_reason = ustr ''late'', xr_evidence = []\<rparr>],
     gr_overall_feedback = ustr ''good'', vr_subtotal = Dec False 70 (- 1), vr_deduction_total = dec_of_int 2,
     vr_total_score = Dec False 50 (- 1)\<rparr>"

lemma ex_accepted: "validate_grade_response ascii_db (\<lambda>_. []) (example_answer ''text'') example_request = Inr ex_validated"
  by code_simp

definition ex_completion :: completion where
  "ex_completion = \<lparr>co_result = ex_validated, co_provider = ex_result, co_key = response_key ex_prep 12, co_sha256 = 0\<rparr>"

definition ex_content :: review_content where
  "ex_content = \<lparr>rc_criteria = [\<lparr>ci_dimension_id = ustr ''a'', ci_score = dec_of_int 9, ci_reason = ustr ''better'',
       ci_revision_suggestions = [ustr ''shorten'']\<rparr>],
     rc_deductions = [\<lparr>di_deduction_id = ustr ''b'', di_applied = True, di_reason = ustr ''late''\<rparr>],
     rc_evidence = [\<lparr>ei_target_type = TargetDimension, ei_target_id = ustr ''a'', ei_block_id = block_name 1, ei_quote = ustr ''text''\<rparr>],
     rc_feedback = ustr ''good'', rc_change_reason = Some (ustr ''reread''), rc_subtotal = dec_of_int 9,
     rc_deduction_total = dec_of_int 2, rc_final_score = dec_of_int 7\<rparr>"

definition ex_db3 :: pdb where
  "ex_db3 = ex_db2\<lparr>db_attempts := [succeeded_attempt ex_completion 120 (hd (db_attempts ex_db2))],
     db_items := [reviewed_item 120 (hd (db_items ex_db2))],
     db_jobs := [(hd (db_jobs ex_db2))\<lparr>job_status := JobNeedsReview, job_state_version := job_state_version (hd (db_jobs ex_db2)) + 1, job_updated := 120\<rparr>]\<rparr>"
lemmas ex_rows2 = ex_rows ex_db2_def ex_db3_def ex_claim_def succeeded_attempt_def reviewed_item_def with_provider_result_def
  ex_completion_def ex_validated_def ex_result_def example_usage_def

lemma ex_scores: "dec_le dec_zero (Dec False 50 (- 1))" "dec_le (Dec False 50 (- 1)) (dec_of_int 10)"
  "dec_eq (Dec False 50 (- 1)) (dec_max dec_zero (dec_sub (Dec False 70 (- 1)) (dec_of_int 2)))"
  by code_simp+

lemma ex_finished: "finish_success ex_claim ex_completion 120 120 ex_db2 = Inr ex_db3"
  by (simp add: finish_success_def locate_claim_def find_attempt_def find_job_def ex_rows2 write_attempt_def
      protect_attempt_history_def attempt_identity_def attempt_score_ok_def ex_total ex_scores check_attempt_def
      attempt_unique_def parent_ok_def write_item_def protect_job_item_def item_identity_def item_transition_def
      check_item_def write_job_def preserve_active_status_def protect_job_snapshot_def job_snapshot_def
      job_transition_def check_job_def replace_row_def blank_def ustr_def version_text_def reconcile_job_def
      reconciled_status_def items_of_def count_status_def count_where_def Let_def validate_usage_def
      result_schema_version_def started_or_def item_active_def next_number_def next_sequence_def max_of_def)

section \<open>The saved review\<close>

definition ex_saved :: review_row where
  "ex_saved = new_review 14 9 11 (hd (db_attempts ex_db3)) 1 ex_content"

definition ex_db4 :: pdb where
  "ex_db4 = ex_db3\<lparr>db_reviews := [ex_saved]\<rparr>"

definition ex_db5 :: pdb where
  "ex_db5 = ex_db4\<lparr>db_reviews := [confirmed_row 130 ex_saved], db_items := [completed_item 130 (hd (db_items ex_db3))],
     db_jobs := [(hd (db_jobs ex_db3))\<lparr>job_status := JobCompleted, job_finished := Some 130,
       job_state_version := job_state_version (hd (db_jobs ex_db3)) + 1, job_updated := 130\<rparr>]\<rparr>"

lemma ex_payload_ok: "validate_review_payload ex_content example_rubric (gr_dimensions ex_validated)
    (gr_deductions ex_validated) (Some (gr_overall_feedback ex_validated)) = Inr ()"
  by code_simp

lemma ex_check: "check_against ex_content example_rubric (hd (db_attempts ex_db3)) = Inr ()"
  using ex_payload_ok
  by (simp add: check_against_def elements_def ex_rows2)

lemma ex_context: "save_context 9 11 12 ex_db3 = Some (hd (db_attempts ex_db3), example_rubric)"
  by (simp add: save_context_def latest_success_def succeeded_in_round_def job_of_item_def
      submission_of_def rubric_row_of_def ex_rows2 ex_total)

lemma ex_final: "dec_le dec_zero (dec_of_int 7)" "dec_le (dec_of_int 7) (dec_of_int 10)" "dec_le dec_zero (dec_of_int 9)"
  "dec_le dec_zero (dec_of_int 2)" "dec_eq (dec_of_int 7) (dec_max dec_zero (dec_sub (dec_of_int 9) (dec_of_int 2)))"
  by code_simp+

lemma ex_saved_ok: "check_review ex_saved" "check_review (confirmed_row 130 ex_saved)" "validate_review_score ex_db3 ex_saved"
  by (simp_all add: check_review_def ex_saved_def new_review_def ex_content_def confirmed_row_def ex_final ex_total
      validate_review_score_def ex_rows2)

lemma ex_saves: "save_teacher_review_draft 14 9 11 12 ex_content ex_db3 = Inr (ex_db4, Some 14)"
proof -
  have "db_reviews ex_db3 = []" by (simp add: ex_rows2)
  then show ?thesis
    using ex_saved_ok ex_check
    by (simp add: save_teacher_review_draft_def ex_context insert_review_def review_unique_def next_revision_def
        max_of_def ex_db4_def ex_saved_def)
qed

section \<open>The confirmation\<close>

lemma ex_joined: "confirm_join ex_db4 ex_saved = Some \<lparr>cf_review = ex_saved, cf_item = hd (db_items ex_db3),
    cf_job = hd (db_jobs ex_db3), cf_submission = hd (db_submissions ex_db3), cf_rubric = hd (db_rubrics ex_db3),
    cf_attempt = hd (db_attempts ex_db3)\<rparr>"
  by (simp add: confirm_join_def job_of_item_def submission_of_def rubric_row_of_def ex_db4_def ex_rows2 ex_saved_def new_review_def)

lemma ex_confirm_check: "check_confirm ex_db4 \<lparr>cf_review = ex_saved, cf_item = hd (db_items ex_db3),
    cf_job = hd (db_jobs ex_db3), cf_submission = hd (db_submissions ex_db3), cf_rubric = hd (db_rubrics ex_db3),
    cf_attempt = hd (db_attempts ex_db3)\<rparr> = Inr ()"
proof -
  have c: "content_of ex_saved = ex_content" by (simp add: content_of_def ex_saved_def new_review_def)
  have q: "rv_structured (hd (db_rubrics ex_db3)) = Some example_rubric" "rv_status (hd (db_rubrics ex_db3)) \<noteq> RubricDraft"
    "rv_total_score (hd (db_rubrics ex_db3)) = dec_of_int 10" "sub_status (hd (db_submissions ex_db3)) = SubReady"
    "sub_extracted_key (hd (db_submissions ex_db3)) \<noteq> None"
    by (simp_all add: ex_rows2)
  have a: "item_status (hd (db_items ex_db3)) = ItemNeedsReview" "att_status (hd (db_attempts ex_db3)) = AttSucceeded"
    "att_round (hd (db_attempts ex_db3)) = item_version (hd (db_items ex_db3))"
    by (simp_all add: ex_rows2)
  have l: "latest_success ex_db4 (hd (db_items ex_db3)) 9 = Some (hd (db_attempts ex_db3))"
    by (simp add: latest_success_def succeeded_in_round_def ex_db4_def ex_rows2)
  have r: "rev_status ex_saved = ReviewDraft" "rev_owner ex_saved = 9" "rev_max_score ex_saved = dec_of_int 10"
    "rev_attempt ex_saved = att_id (hd (db_attempts ex_db3))"
    by (simp_all add: ex_saved_def new_review_def) (simp add: ex_rows2 ex_total)
  show ?thesis using ex_check by (simp add: check_confirm_def Let_def c q a l r ex_total)
qed

lemma ex_writes: "confirm_writes 130 9 [ex_saved] ex_db4 = Inr ex_db5"
proof -
  let ?r = "confirmed_row 130 ex_saved" and ?i = "hd (db_items ex_db3)" and ?j = "hd (db_jobs ex_db3)"
  let ?s1 = "ex_db4\<lparr>db_reviews := [?r]\<rparr>" and ?s2 = "ex_db4\<lparr>db_reviews := [?r], db_items := [completed_item 130 ?i]\<rparr>"
  have d: "db_items ex_db4 = [?i]" "db_jobs ex_db4 = [?j]" "db_reviews ex_db4 = [ex_saved]" "db_attempts ex_db4 = db_attempts ex_db3"
    by (simp_all add: ex_db4_def ex_rows2)
  have i: "item_id ?i = 11" "item_owner ?i = 9" "item_job ?i = 10" "job_id ?j = 10" "job_owner ?j = 9"
    by (simp_all add: ex_rows2)
  have r: "rev_item ex_saved = 11" "protect_review_history ex_saved ?r = Inr ()"
    by (simp_all add: ex_saved_def new_review_def protect_review_history_def confirmed_row_def review_identity_def)
  have v: "validate_review_score ex_db4 ?r" using ex_saved_ok(3)
    by (simp add: validate_review_score_def confirmed_row_def d)
  have w1: "write_review ex_saved ?r ex_db4 = Inr ?s1"
    using r(2) v ex_saved_ok(2) by (simp add: write_review_def review_unique_def d replace_row_def)
  have w2: "write_item ?i (completed_item 130 ?i) ?s1 = Inr ?s2"
    by (simp add: write_item_def protect_job_item_def item_identity_def item_transition_def check_item_def completed_item_def
        replace_row_def ex_db4_def) (simp add: ex_rows2 started_or_def)
  let ?j' = "?j\<lparr>job_status := JobCompleted, job_finished := Some 130, job_state_version := job_state_version ?j + 1, job_updated := 130\<rparr>"
  have js: "job_status ?j = JobNeedsReview" by (simp add: ex_rows2)
  have jf: "job_provider_version ?j = 1" "job_state_version ?j = 3" "job_expected ?j = 1" "job_model ?j = ustr ''m''"
    "job_contract ?j = ex_contract" "job_key ?j = ustr ''k''" "job_title ?j = ustr ''Essay''" "job_instructions ?j = ustr ''Write''"
    by (simp_all add: ex_rows2)
  have cj: "check_job ?j'"
    by (simp add: check_job_def jf ex_contract_def blank_def ustr_def version_text_def result_schema_version_def)
  have ps: "protect_job_snapshot ?j ?j' = Inr ()"
    by (simp add: protect_job_snapshot_def js job_snapshot_def job_transition_def)
  have pa: "preserve_active_status 130 q ?j ?j' = ?j'" for q by (simp add: preserve_active_status_def)
  have wj: "write_job 130 True ?j ?j' ?s2 = Inr ex_db5"
    unfolding write_job_def if_P [OF TrueI] pa Let_def ps bindR.simps
    using cj by (simp add: replace_row_def d ex_db5_def)
  have fj: "find (\<lambda>j. job_id j = 10 \<and> job_owner j = 9) (db_jobs ?s2) = Some ?j" by (simp add: d i)
  have op: "\<not> (\<exists>i \<in> set (db_items ?s2). item_job i = 10 \<and> item_owner i = 9 \<and> item_status i \<noteq> ItemCompleted)" by simp
  have w3: "settle_job 130 9 10 ?s2 = Inr ex_db5"
    unfolding settle_job_def fj Let_def option.case if_not_P [OF op] by (rule wj)
  show ?thesis
    using w1 w2 w3 by (simp add: confirm_writes_def d i r(1) completed_item_def)
qed

lemma ex_confirms: "confirm_teacher_reviews 130 9 [(14, 1)] ex_db4 = Inr (ex_db5, Some [14])"
proof -
  have d: "db_reviews ex_db4 = [ex_saved]" "db_active_teachers ex_db4 = [9]" by (simp_all add: ex_db4_def ex_rows2)
  have r: "referenced 9 ex_db4 (14, 1) = Some ex_saved"
    by (simp add: referenced_def d ex_saved_def new_review_def ex_rows2)
  have st: "rev_status ex_saved = ReviewDraft" by (simp add: ex_saved_def new_review_def)
  show ?thesis using ex_joined ex_confirm_check ex_writes
    by (simp add: confirm_teacher_reviews_def d length_between_def r [simplified] st List.map_filter_simps confirm_order_def)
qed

section \<open>The worlds\<close>

lemma ex_review_steps:
  obtains q where "reach \<lparr>w_db = ex_db3, w_preps = [ex_prep], w_open = w_open (ex_world q)\<rparr>"
    "wstep \<lparr>w_db = ex_db3, w_preps = [ex_prep], w_open = w_open (ex_world q)\<rparr>
       \<lparr>w_db = ex_db4, w_preps = [ex_prep], w_open = w_open (ex_world q)\<rparr>"
    "reach \<lparr>w_db = ex_db4, w_preps = [ex_prep], w_open = w_open (ex_world q)\<rparr>"
    "wstep \<lparr>w_db = ex_db4, w_preps = [ex_prep], w_open = w_open (ex_world q)\<rparr>
       \<lparr>w_db = ex_db5, w_preps = [ex_prep], w_open = w_open (ex_world q)\<rparr>"
    "reach \<lparr>w_db = ex_db5, w_preps = [ex_prep], w_open = w_open (ex_world q)\<rparr>"
proof -
  obtain q r where b: "build_call ex_runner ex_prep = Inr (example_request, q, r)" "gp_call_hash q = 0"
    "prompt_call q = \<lparr>gc_base_request_hash = 0, gc_message_count = 2\<rparr>" by (rule ex_call)
  note R = ex_reach2 [OF b(1,2)]
  let ?w = "\<lambda>s. \<lparr>w_db = s, w_preps = [ex_prep], w_open = w_open (ex_world q)\<rparr>"
  have w2: "ex_world q = ?w ex_db2" by (simp add: ex_world_def)
  have d: "decide ex_runner ex_prep ex_claim example_request q (CallOk ex_result) = Inr (Complete ex_completion)"
  proof -
    have h: "request_hash ex_runner example_request = 0" using ex_sha by (simp add: request_hash_def ex_runner_def)
    have raw: "raw_result ex_runner (res_output_text ex_result) = example_answer ''text''"
      "\<not> loads_raises ex_runner (res_output_text ex_result)"
      by (simp_all add: raw_result_def loads_raises_def ex_runner_def ex_result_def)
    have "assess_grade_response (rn_unicode ex_runner) (rn_errors ex_runner) (request_hash ex_runner)
        (raw_result ex_runner (res_output_text ex_result)) example_request (prompt_call q)
        = Inr \<lparr>oc_status = Accepted, oc_code = None, oc_attempt_count = 1, oc_result = Some ex_validated, oc_issues = []\<rparr>"
      unfolding raw(1) using ex_accepted h b(3)
      by (simp add: assess_grade_response_def ex_runner_def make_outcome_def outcome_shape_def)
    moreover have "rn_put_ok ex_runner k v" for k v by (simp add: ex_runner_def)
    ultimately show ?thesis
      using ex_envelope raw(2)
      by (simp add: decide_def decide_answer_def put_envelope_def decide_outcome_def ex_completion_def ex_claim_def ex_result_def)
  qed
  have s3: "wstep (?w ex_db2) (?w ex_db3)"
    using wstep.succeed [of "hd (w_open (ex_world q))" "?w ex_db2" ex_runner "CallOk ex_result" ex_completion 120 120 ex_db3]
      d ex_finished by (simp add: ex_world_def ex_runner_def)
  have s4: "wstep (?w ex_db3) (?w ex_db4)" using wstep.save [of 14 9 11 12 ex_content "?w ex_db3"] ex_saves by simp
  have s5: "wstep (?w ex_db4) (?w ex_db5)" using wstep.confirm [of 130 9 "[(14, 1)]" "?w ex_db4"] ex_confirms by simp
  have r3: "reach (?w ex_db3)" using R(2) w2 s3 reach.step by metis
  have r4: "reach (?w ex_db4)" by (rule reach.step [OF r3 s4])
  show thesis by (rule that [OF r3 s4 r4 s5 reach.step [OF r4 s5]])
qed

lemma ex_confirmed:
  "db_reviews ex_db5 = [confirmed_row 130 ex_saved]" "rev_status (confirmed_row 130 ex_saved) = ReviewConfirmed"
  "9 \<in> set (db_active_teachers ex_db5)"
  by (simp_all add: ex_db5_def ex_db4_def ex_rows2)

end
