(* ===== verification/Review_Guarantees.thy ===== *)
theory Review_Guarantees
  imports Review_Example
begin

text \<open>
  What the database guarantees about confirmed reviews in every reachable world: a paper counts as
  completed exactly when a teacher confirmed a review of its current round, such a review never
  changes again, and confirming the same references again has no effect.
\<close>

section \<open>Confirmed reviews stay\<close>

lemma grows_reviews: "grows s s' \<Longrightarrow> db_reviews s' = db_reviews s"
  by (simp add: grows_def same_inputs_def)

lemma write_items_reviews: "write_items f is s = Inr s' \<Longrightarrow> db_reviews s' = db_reviews s"
  by (induction "is" arbitrary: s) (auto dest!: write_item_reviews)

lemma settle_jobs_reviews: "settle_jobs t teacher js s = Inr s' \<Longrightarrow> db_reviews s' = db_reviews s"
proof (induction js arbitrary: s)
  case (Cons j js)
  have "db_reviews q = db_reviews s" if "settle_job t teacher j s = Inr q" for q
    using that by (auto simp: settle_job_def Let_def write_job_Inr split: option.splits)
  then show ?case using Cons by fastforce
qed simp

lemma confirm_writes_reviews:
  "confirm_writes t teacher rs s = Inr s' \<Longrightarrow> \<exists>s1. write_reviews t rs s = Inr s1 \<and> db_reviews s' = db_reviews s1"
  by (auto simp: confirm_writes_def dest!: write_items_reviews settle_jobs_reviews)

text \<open>A confirmation that returns ids leaves every referenced review confirmed.\<close>

lemma confirm_rows:
  assumes w: "reach w" and c: "confirm_teacher_reviews t teacher refs (w_db w) = Inr (s', Some ids)"
  obtains rs where "map_opt (referenced teacher (w_db w)) refs = Some rs" "ids = map fst refs"
    "(\<forall>r \<in> set rs. rev_status r = ReviewConfirmed) \<and> s' = w_db w \<or> (\<forall>r \<in> set rs. rev_status r = ReviewDraft) \<and>
       set (db_reviews s') = confirmed_row t ` set rs \<union> (set (db_reviews (w_db w)) - set rs)"
proof -
  have d: "distinct (map rev_id (db_reviews (w_db w)))" using reach_reviews [OF w] by (simp add: reviews_ok_def review_refs_def)
  obtain rs where rs: "map_opt (referenced teacher (w_db w)) refs = Some rs" "distinct (map fst refs)" "ids = map fst refs"
    and cs: "(\<forall>r \<in> set rs. rev_status r = ReviewConfirmed) \<and> s' = w_db w \<or> confirm_writes t teacher rs (w_db w) = Inr s'"
    using c by (auto simp: confirm_teacher_reviews_def split: if_splits option.splits)
  note R = referenced_rows [OF rs(1)]
  have dr: "distinct (map rev_id rs)" using R(2) rs(2) by simp
  show thesis
  proof (rule that [OF rs(1,3)])
    show "(\<forall>r \<in> set rs. rev_status r = ReviewConfirmed) \<and> s' = w_db w \<or> (\<forall>r \<in> set rs. rev_status r = ReviewDraft) \<and>
       set (db_reviews s') = confirmed_row t ` set rs \<union> (set (db_reviews (w_db w)) - set rs)"
    proof (cases "confirm_writes t teacher rs (w_db w) = Inr s'")
      case True
      then obtain s1 where wr: "write_reviews t rs (w_db w) = Inr s1" "db_reviews s' = db_reviews s1"
        using confirm_writes_reviews by blast
      show ?thesis using write_reviews_rows [OF d dr R(1) wr(1), folded wr(2)] by blast
    qed (use cs in blast)
  qed
qed

lemma confirmed_stays:
  assumes w: "reach w" and st: "wstep w w'" and r: "r \<in> set (db_reviews (w_db w))" "rev_status r = ReviewConfirmed"
  shows "r \<in> set (db_reviews (w_db w'))"
proof -
  have p: "pipeline_ok (w_db w)" by (rule reach_pipeline_ok [OF w])
  then have k: "keys_ok (w_db w)" by (simp add: pipeline_ok_def)
  have d: "distinct (map rev_id (db_reviews (w_db w)))" using reach_reviews [OF w] by (simp add: reviews_ok_def review_refs_def)
  from st show ?thesis
  proof cases
    case (save rid teacher iid aid c s' v)
    then show ?thesis using save_effect [OF save(2) d] r by simp
  next
    case (confirm t teacher refs s' v)
    show ?thesis
    proof (cases v)
      case None
      then show ?thesis using confirm r by (auto simp: confirm_teacher_reviews_def split: if_splits option.splits)
    next
      case (Some ids)
      obtain rs where "(\<forall>r \<in> set rs. rev_status r = ReviewConfirmed) \<and> s' = w_db w \<or> (\<forall>r \<in> set rs. rev_status r = ReviewDraft) \<and>
          set (db_reviews s') = confirmed_row t ` set rs \<union> (set (db_reviews (w_db w)) - set rs)"
        by (rule confirm_rows [OF w confirm(2) [unfolded Some]])
      then show ?thesis using r confirm(1) by auto
    qed
  next
    case (inputs s')
    then show ?thesis using r by (simp add: inputs_change_def)
  qed (use r in \<open>auto dest!: grows_reviews create_grows [OF p] control_grows [OF k] claim_grows [OF k]
        finish_success_grows [OF k] finish_failure_grows [OF k] expire_stale_grows [OF k]\<close>)
qed

lemma steps_reach: "wstep\<^sup>*\<^sup>* w w' \<Longrightarrow> reach w \<Longrightarrow> reach w'"
  by (induction rule: rtranclp_induct) (auto intro: reach.step)

lemma confirmed_forever:
  assumes "wstep\<^sup>*\<^sup>* w w'" "reach w" "r \<in> set (db_reviews (w_db w))" "rev_status r = ReviewConfirmed"
  shows "r \<in> set (db_reviews (w_db w'))"
  using assms by (induction rule: rtranclp_induct) (auto intro: confirmed_stays steps_reach)

section \<open>Completed papers\<close>

lemma completed_iff_confirmed:
  assumes "reach w" "i \<in> set (db_items (w_db w))"
  shows "(item_status i = ItemCompleted \<longleftrightarrow>
      (\<exists>r \<in> set (db_reviews (w_db w)). rev_item r = item_id i \<and> rev_status r = ReviewConfirmed)) \<and>
    (\<forall>r \<in> set (db_reviews (w_db w)). rev_item r = item_id i \<longrightarrow> rev_status r = ReviewConfirmed \<longrightarrow>
      rev_owner r = item_owner i \<and>
      (\<forall>b \<in> set (db_reviews (w_db w)). rev_item b = item_id i \<longrightarrow> rev_status b = ReviewConfirmed \<longrightarrow> b = r) \<and>
      (\<exists>a \<in> set (db_attempts (w_db w)). att_id a = rev_attempt r \<and> att_item a = item_id i \<and>
         att_status a = AttSucceeded \<and> att_round a = item_version i))"
proof -
  have ok: "reviews_ok (w_db w)" by (rule reach_reviews [OF assms(1)])
  have K: "distinct (map item_id (db_items (w_db w)))"
    using reach_pipeline_ok [OF assms(1)] by (simp add: pipeline_ok_def keys_ok_def)
  have same: "k = i" if "k \<in> set (db_items (w_db w))" "item_id k = item_id i" for k
    using that assms(2) K distinct_map_eqD by metis
  have conf: "item_status i = ItemCompleted \<and> reviews_call (w_db w) i r"
    if "r \<in> set (db_reviews (w_db w))" "rev_item r = item_id i" "rev_status r = ReviewConfirmed" for r
    using ok that same unfolding reviews_ok_def confirmed_ok_def by metis
  have own: "rev_owner r = item_owner i" if "r \<in> set (db_reviews (w_db w))" "rev_item r = item_id i" for r
    using ok that same unfolding reviews_ok_def review_refs_def by metis
  have uniq: "b = r" if "r \<in> set (db_reviews (w_db w))" "b \<in> set (db_reviews (w_db w))" "rev_status r = ReviewConfirmed"
    "rev_status b = ReviewConfirmed" "rev_item b = rev_item r" for r b
    using ok that unfolding reviews_ok_def confirmed_ok_def by blast
  have comp: "\<exists>r \<in> set (db_reviews (w_db w)). rev_item r = item_id i \<and> rev_status r = ReviewConfirmed"
    if "item_status i = ItemCompleted"
    using ok that assms(2) unfolding reviews_ok_def confirmed_ok_def by blast
  show ?thesis
    using conf own uniq comp unfolding reviews_call_def by (intro conjI iffI ballI impI) (blast, blast, blast, metis, blast)
qed

text \<open>
  C21. In every reachable world a paper is completed exactly when it has a confirmed review; that
  review is unique, belongs to the paper's owner, and is about a call that succeeded in the paper's
  current scoring round, so retries, corrections and concurrent calls of older rounds can never be
  what the teacher signed off.
\<close>

theorem completed_means_confirmed:
  assumes "reach w" "i \<in> set (db_items (w_db w))"
  shows "(item_status i = ItemCompleted \<longleftrightarrow>
      (\<exists>r \<in> set (db_reviews (w_db w)). rev_item r = item_id i \<and> rev_status r = ReviewConfirmed)) \<and>
    (\<forall>r \<in> set (db_reviews (w_db w)). rev_item r = item_id i \<longrightarrow> rev_status r = ReviewConfirmed \<longrightarrow>
      rev_owner r = item_owner i \<and>
      (\<forall>b \<in> set (db_reviews (w_db w)). rev_item b = item_id i \<longrightarrow> rev_status b = ReviewConfirmed \<longrightarrow> b = r) \<and>
      (\<exists>a \<in> set (db_attempts (w_db w)). att_id a = rev_attempt r \<and> att_item a = item_id i \<and>
         att_status a = AttSucceeded \<and> att_round a = item_version i))"
  by (rule completed_iff_confirmed [OF assms])

theorem completed_means_confirmed_witness:
  "\<exists>w i. reach w \<and> i \<in> set (db_items (w_db w)) \<and> item_status i = ItemCompleted \<and>
     (\<exists>r \<in> set (db_reviews (w_db w)). rev_item r = item_id i \<and> rev_final_score r = dec_of_int 7)"
proof (rule ex_review_steps)
  fix q let ?w = "\<lparr>w_db = ex_db5, w_preps = [ex_prep], w_open = w_open (ex_world q)\<rparr>"
  let ?i = "completed_item 130 (hd (db_items ex_db3))"
  assume r: "reach ?w"
  have i: "?i \<in> set (db_items (w_db ?w))" by (simp add: ex_db5_def)
  have "\<exists>r \<in> set (db_reviews ex_db5). rev_item r = item_id ?i \<and> rev_status r = ReviewConfirmed"
    using completed_means_confirmed [OF r i] by simp
  then have "\<exists>r \<in> set (db_reviews ex_db5). rev_item r = item_id ?i \<and> rev_final_score r = dec_of_int 7"
    by (simp add: ex_confirmed confirmed_row_def ex_saved_def new_review_def ex_content_def)
  then show ?thesis using r i by (intro exI [of _ ?w] exI [of _ ?i]) simp
qed

section \<open>Confirmations are final\<close>

text \<open>
  C22. A confirmed review is final: whatever happens afterwards, retries, cancellations, expiries,
  further saves and confirmations by anyone, the row is still there unchanged, and so is the paper
  it completed.
\<close>

theorem confirmed_review_immutable:
  assumes "reach w" "wstep\<^sup>*\<^sup>* w w'" "r \<in> set (db_reviews (w_db w))" "rev_status r = ReviewConfirmed"
  shows "r \<in> set (db_reviews (w_db w')) \<and>
    (\<exists>i \<in> set (db_items (w_db w)). item_id i = rev_item r \<and> item_status i = ItemCompleted \<and> i \<in> set (db_items (w_db w')))"
proof -
  obtain i where i: "i \<in> set (db_items (w_db w))" "item_id i = rev_item r" "item_status i = ItemCompleted"
    using reach_reviews [OF assms(1)] assms(3,4) unfolding reviews_ok_def confirmed_ok_def by blast
  have "i \<in> set (db_items (w_db w'))"
    using assms(2,1) i(1)
  proof (induction rule: rtranclp_induct)
    case (step y z)
    have "i \<in> set (db_items (w_db y))" using step by simp
    moreover have "evolves (w_db y) (w_db z)"
      by (rule wstep_evolves [OF step(2) reach_pipeline_ok [OF steps_reach [OF step(1) assms(1)]]])
    ultimately show ?case using i(3) unfolding evolves_def by blast
  qed
  then show ?thesis using i confirmed_forever [OF assms(2,1,3,4)] by blast
qed

theorem confirmed_review_immutable_witness:
  "\<exists>w w' r. reach w \<and> wstep\<^sup>*\<^sup>* w w' \<and> rev_status r = ReviewConfirmed \<and> r \<in> set (db_reviews (w_db w'))"
proof (rule ex_review_steps)
  fix q let ?w = "\<lparr>w_db = ex_db5, w_preps = [ex_prep], w_open = w_open (ex_world q)\<rparr>"
  assume r: "reach ?w"
  show ?thesis
    using confirmed_review_immutable [OF r rtranclp.rtrancl_refl, of "confirmed_row 130 ex_saved"] r ex_confirmed
    by (intro exI [of _ ?w] exI [of _ "confirmed_row 130 ex_saved"]) simp
qed

lemma confirm_again:
  assumes w: "reach w" and c: "confirm_teacher_reviews t teacher refs (w_db w) = Inr (s', Some ids)"
    and st: "wstep\<^sup>*\<^sup>* (w\<lparr>w_db := s'\<rparr>) w'" and act: "teacher \<in> set (db_active_teachers (w_db w'))"
  shows "ids = map fst refs \<and> confirm_teacher_reviews t' teacher refs (w_db w') = Inr (w_db w', Some ids)"
proof -
  have r': "reach (w\<lparr>w_db := s'\<rparr>)" by (rule reach.step [OF w wstep.confirm [OF c]])
  have ids: "ids = map fst refs" using c by (auto simp: confirm_teacher_reviews_def split: if_splits option.splits)
  have shape: "length_between 1 100 refs" "distinct (map fst refs)" "\<forall>r \<in> set refs. snd r \<noteq> 0"
    using c by (auto simp: confirm_teacher_reviews_def split: if_splits option.splits)
  have rows: "\<exists>r \<in> set (db_reviews s'). rev_status r = ReviewConfirmed \<and> rev_id r = fst x \<and> rev_revision r = snd x \<and> rev_owner r = teacher"
    if x: "x \<in> set refs" for x
  proof -
    obtain rs where rs: "map_opt (referenced teacher (w_db w)) refs = Some rs"
      and cs: "(\<forall>r \<in> set rs. rev_status r = ReviewConfirmed) \<and> s' = w_db w \<or> (\<forall>r \<in> set rs. rev_status r = ReviewDraft) \<and>
        set (db_reviews s') = confirmed_row t ` set rs \<union> (set (db_reviews (w_db w)) - set rs)"
      by (rule confirm_rows [OF w c])
    note R = referenced_rows [OF rs]
    obtain r where r: "r \<in> set rs" "rev_id r = fst x" "rev_revision r = snd x"
      using x R(4) by (metis (no_types, lifting) fst_conv imageE list.set_map snd_conv)
    have o: "rev_owner r = teacher" using R(3) r(1) by blast
    from cs show ?thesis
    proof (elim disjE conjE)
      assume "\<forall>r \<in> set rs. rev_status r = ReviewConfirmed" "s' = w_db w"
      then show ?thesis using r o R(1) by blast
    next
      assume "set (db_reviews s') = confirmed_row t ` set rs \<union> (set (db_reviews (w_db w)) - set rs)"
      then show ?thesis using r o by (intro bexI [of _ "confirmed_row t r"]) simp_all
    qed
  qed
  have d: "distinct (map rev_id (db_reviews (w_db w')))"
    using reach_reviews [OF steps_reach [OF st r']] by (simp add: reviews_ok_def review_refs_def)
  have "\<exists>r. referenced teacher (w_db w') x = Some r \<and> rev_status r = ReviewConfirmed" if x: "x \<in> set refs" for x
  proof -
    obtain r where r: "r \<in> set (db_reviews s')" "rev_status r = ReviewConfirmed" "rev_id r = fst x" "rev_revision r = snd x"
      "rev_owner r = teacher" using rows [OF x] by blast
    have "r \<in> set (db_reviews (w_db w'))" using confirmed_forever [OF st r'] r by simp
    then show ?thesis
      using r find_unique [OF d, of "fst x" "\<lambda>r. rev_revision r = snd x \<and> rev_owner r = teacher"] by (auto simp: referenced_def)
  qed
  then obtain f where f: "\<forall>x \<in> set refs. referenced teacher (w_db w') x = Some (f x) \<and> rev_status (f x) = ReviewConfirmed" by metis
  have "map_opt (referenced teacher (w_db w')) refs = Some (map f refs)"
    using f by (simp add: map_opt_Some list_all2_conv_all_nth)
  then show ?thesis using f shape act ids by (auto simp: confirm_teacher_reviews_def)
qed

lemma ex_confirm_repeated: "confirm_teacher_reviews t 9 [(14, 1)] ex_db5 = Inr (ex_db5, Some [14])"
proof (rule ex_review_steps)
  fix q let ?w = "\<lparr>w_db = ex_db4, w_preps = [ex_prep], w_open = w_open (ex_world q)\<rparr>"
  assume r: "reach ?w"
  have c: "confirm_teacher_reviews 130 9 [(14, 1)] (w_db ?w) = Inr (ex_db5, Some [14])" using ex_confirms by simp
  show ?thesis using confirm_again [OF r c rtranclp.rtrancl_refl] ex_confirmed(3) by simp
qed

text \<open>
  Confirming is idempotent over any later history. Once a confirmation of some references has
  returned review ids, repeating it at any later time returns the same ids and changes nothing, as
  long as the teacher's account is active.
\<close>

theorem confirm_idempotent:
  assumes w: "reach w" and c: "confirm_teacher_reviews t teacher refs (w_db w) = Inr (s', Some ids)"
    and st: "wstep\<^sup>*\<^sup>* (w\<lparr>w_db := s'\<rparr>) w'" and act: "teacher \<in> set (db_active_teachers (w_db w'))"
  shows "ids = map fst refs \<and> confirm_teacher_reviews t' teacher refs (w_db w') = Inr (w_db w', Some ids)"
  by (rule confirm_again [OF assms])

theorem confirm_idempotent_witness:
  "\<exists>w s'. reach w \<and> confirm_teacher_reviews 130 9 [(14, 1)] (w_db w) = Inr (s', Some [14]) \<and> s' \<noteq> w_db w \<and>
     confirm_teacher_reviews 200 9 [(14, 1)] s' = Inr (s', Some [14])"
proof (rule ex_review_steps)
  fix q let ?w = "\<lambda>s. \<lparr>w_db = s, w_preps = [ex_prep], w_open = w_open (ex_world q)\<rparr>"
  assume r: "reach (?w ex_db4)"
  have c: "confirm_teacher_reviews 130 9 [(14, 1)] (w_db (?w ex_db4)) = Inr (ex_db5, Some [14])" using ex_confirms by simp
  have "db_reviews ex_db4 \<noteq> db_reviews ex_db5" by (simp add: ex_confirmed) (simp add: ex_db4_def ex_saved_def new_review_def confirmed_row_def)
  then have "ex_db5 \<noteq> ex_db4" by auto
  moreover have "confirm_teacher_reviews 200 9 [(14, 1)] ex_db5 = Inr (ex_db5, Some [14])"
    using confirm_idempotent [OF r c rtranclp.rtrancl_refl, of 200] ex_confirmed(3) by simp
  ultimately show ?thesis using r c by (intro exI [of _ "?w ex_db4"] exI [of _ ex_db5]) simp
qed

end
