(* ===== verification/Review_Flow.thy ===== *)
theory Review_Flow
  imports Review_Repo Review_Guarantees
begin

text \<open>
  The operations of \<open>ReviewService\<close> over its \<open>ReviewRepository\<close>. Each operation reads in one
  transaction and writes in a later one; the state may change in between, so an operation takes the
  state of every transaction it makes. The contract of the repository is a locale, and the SQL
  repository on a reachable database is its instance.
\<close>

section \<open>The service\<close>

record 's review_repository =
  rr_target :: "'s \<Rightarrow> uuid \<Rightarrow> uuid \<Rightarrow> review_exn + review_target option"
  rr_regrade_target :: "'s \<Rightarrow> uuid \<Rightarrow> uuid \<Rightarrow> regrade_target option"
  rr_save :: "uuid \<Rightarrow> uuid \<Rightarrow> review_draft_data \<Rightarrow> 's \<Rightarrow> review_exn + ('s \<times> draft_view)"
  rr_save_and_confirm :: "uuid \<Rightarrow> uuid \<Rightarrow> uuid \<Rightarrow> review_draft_data \<Rightarrow> 's \<Rightarrow> review_exn + ('s \<times> confirmation_result)"
  rr_confirm :: "uuid \<Rightarrow> uuid \<Rightarrow> confirmation_ref list \<Rightarrow> 's \<Rightarrow> review_exn + ('s \<times> confirmation_result)"

record review_service =
  sv_unicode :: unicode_db
  sv_storage :: "object_key \<Rightarrow> stored_object"

definition load_target ::
    "'s review_repository \<Rightarrow> review_service \<Rightarrow> uuid option \<Rightarrow> uuid \<Rightarrow> uuid \<Rightarrow> 's \<Rightarrow> review_exn + review_target \<times> parsed_document" where
  "load_target R V job owner iid s = bindR (rr_target R s owner iid) (open_target (sv_storage V) job)"

definition service_save_draft ::
    "'s review_repository \<Rightarrow> review_service \<Rightarrow> uuid option \<Rightarrow> uuid \<Rightarrow> uuid \<Rightarrow> review_draft_input \<Rightarrow> 's \<Rightarrow> 's \<Rightarrow>
     review_exn + ('s \<times> draft_view)" where
  "service_save_draft R V job owner iid payload s1 s2 =
     bindR (load_target R V job owner iid s1) (\<lambda>(t, d).
     bindR (validate_payload (sv_unicode V) True t d payload) (\<lambda>data.
     rr_save R owner iid data s2))"

text \<open>\<open>_matches\<close>: the canonical JSON of a stored draft and of the data is the same.\<close>

fun target_text :: "target_type \<Rightarrow> pystr" where
  "target_text TargetDimension = ustr ''dimension''"
| "target_text TargetDeduction = ustr ''deduction''"

definition criterion_json :: "criterion_input \<Rightarrow> json" where
  "criterion_json c = JObj [(ustr ''dimension_id'', JStr (ci_dimension_id c)), (ustr ''score'', jdec (ci_score c)),
     (ustr ''reason'', JStr (ci_reason c)), (ustr ''revision_suggestions'', JArr (map JStr (ci_revision_suggestions c)))]"

definition deduction_input_json :: "deduction_input \<Rightarrow> json" where
  "deduction_input_json d = JObj [(ustr ''deduction_id'', JStr (di_deduction_id d)), (ustr ''applied'', JBool (di_applied d)),
     (ustr ''reason'', JStr (di_reason d))]"

definition evidence_json :: "evidence_input \<Rightarrow> json" where
  "evidence_json e = JObj [(ustr ''target_type'', JStr (target_text (ei_target_type e))),
     (ustr ''target_id'', JStr (ei_target_id e)), (ustr ''block_id'', JStr (ei_block_id e)), (ustr ''quote'', JStr (ei_quote e))]"

definition draft_json :: "'a review_draft_data_scheme \<Rightarrow> json" where
  "draft_json d = JObj [(ustr ''attempt_id'', JStr (uuid_text (dri_attempt_id d))),
     (ustr ''criteria'', JArr (map criterion_json (dri_criteria d))),
     (ustr ''deductions'', JArr (map deduction_input_json (dri_deductions d))),
     (ustr ''evidence'', JArr (map evidence_json (dri_evidence d))),
     (ustr ''overall_feedback'', JStr (dri_overall_feedback d)),
     (ustr ''change_reason'', (case dri_change_reason d of None \<Rightarrow> JNull | Some r \<Rightarrow> JStr r)),
     (ustr ''subtotal'', jdec (rdd_subtotal d)), (ustr ''deduction_total'', jdec (rdd_deduction_total d)),
     (ustr ''final_score'', jdec (rdd_final_score d))]"

definition require_match :: "draft_view \<Rightarrow> review_draft_data \<Rightarrow> review_exn + unit" where
  "require_match v d = bindR (json_differs (draft_json v) (draft_json d)) (\<lambda>different. ensure (\<not> different) ReviewConflict)"

definition require_confirmed :: "review_target \<Rightarrow> review_draft_data \<Rightarrow> review_exn + unit" where
  "require_confirmed t d =
     (if rt_item_status t \<noteq> ItemCompleted then Inr ()
      else case rt_draft t of None \<Rightarrow> Inl ReviewConflict
        | Some v \<Rightarrow> if dv_status v \<noteq> ReviewConfirmed then Inl ReviewConflict else require_match v d)"

definition service_confirm ::
    "'s review_repository \<Rightarrow> review_service \<Rightarrow> uuid \<Rightarrow> uuid \<Rightarrow> uuid \<Rightarrow> review_draft_input \<Rightarrow> 's \<Rightarrow> 's \<Rightarrow>
     review_exn + ('s \<times> confirmation_result)" where
  "service_confirm R V owner jid iid payload s1 s2 =
     bindR (load_target R V (Some jid) owner iid s1) (\<lambda>(t, d).
     bindR (validate_payload (sv_unicode V) False t d payload) (\<lambda>data.
     bindR (require_confirmed t data) (\<lambda>_.
     rr_save_and_confirm R owner jid iid data s2)))"

text \<open>One reference of a batch: the saved draft is validated like a new payload.\<close>

definition check_reference ::
    "'s review_repository \<Rightarrow> review_service \<Rightarrow> uuid \<Rightarrow> uuid \<Rightarrow> confirmation_ref \<Rightarrow> 's \<Rightarrow> review_exn + unit" where
  "check_reference R V owner jid x s =
     bindR (load_target R V (Some jid) owner (cr_item_id x) s) (\<lambda>(t, d).
       case rt_draft t of None \<Rightarrow> Inl ReviewConflict
       | Some v \<Rightarrow>
           if dv_id v \<noteq> cr_review_id x \<or> dv_revision_number v \<noteq> cr_revision_number x then Inl ReviewConflict
           else (case validate_draft_input (sv_unicode V) (review_draft_input.truncate v) of
                   None \<Rightarrow> Inl ReviewPydantic
                 | Some payload \<Rightarrow>
                     bindR (validate_payload (sv_unicode V) False t d payload) (\<lambda>data. require_match v data)))"

definition service_confirm_batch ::
    "'s review_repository \<Rightarrow> review_service \<Rightarrow> uuid \<Rightarrow> uuid \<Rightarrow> confirmation_ref list \<Rightarrow> (confirmation_ref \<Rightarrow> 's) \<Rightarrow> 's \<Rightarrow>
     review_exn + ('s \<times> confirmation_result)" where
  "service_confirm_batch R V owner jid refs views s2 =
     (if refs = [] then Inl (ReviewValidation ''review_batch_empty'')
      else bindR (mapR (\<lambda>x. check_reference R V owner jid x (views x)) refs) (\<lambda>_.
        rr_confirm R owner jid refs s2))"

definition service_regrade ::
    "'s review_repository \<Rightarrow> (uuid \<Rightarrow> uuid \<Rightarrow> uuid \<Rightarrow> 's \<Rightarrow> review_exn + 's \<times> 'v) option \<Rightarrow> uuid \<Rightarrow> uuid \<Rightarrow> uuid \<Rightarrow> 's \<Rightarrow> 's \<Rightarrow>
     review_exn + 's \<times> 'v" where
  "service_regrade R regrader owner jid iid s1 s2 =
     (case rr_regrade_target R s1 owner iid of None \<Rightarrow> Inl ReviewNotFound
      | Some t \<Rightarrow>
          if rg_job_id t \<noteq> jid then Inl ReviewNotFound
          else if rg_item_status t \<noteq> ItemNeedsReview \<or> rg_has_confirmed_review t then Inl ReviewState
          else (case regrader of None \<Rightarrow> Inl ReviewUnassembled | Some f \<Rightarrow> f owner jid iid s2))"

section \<open>The contract of the repository\<close>

locale review_store =
  fixes R :: "'s review_repository"
    and valid :: "'s \<Rightarrow> bool"
    and signed_off :: "'s \<Rightarrow> uuid \<Rightarrow> uuid \<Rightarrow> review_content \<Rightarrow> bool"
  assumes confirm_new: "valid s \<Longrightarrow> rr_save_and_confirm R owner jid iid d s = Inr (s', x) \<Longrightarrow>
      \<not> (\<exists>c. signed_off s owner iid c) \<Longrightarrow> signed_off s' owner iid (data_content d)"
    and confirm_again: "valid s \<Longrightarrow> rr_save_and_confirm R owner jid iid d s = Inr (s', x) \<Longrightarrow>
      signed_off s owner iid c \<Longrightarrow> s' = s"
begin

lemma confirm_shape:
  assumes "service_confirm R V owner jid iid payload s1 s2 = Inr (s', x)"
  obtains t d data where "load_target R V (Some jid) owner iid s1 = Inr (t, d)"
    "validate_payload (sv_unicode V) False t d payload = Inr data"
    "rr_save_and_confirm R owner jid iid data s2 = Inr (s', x)"
  using assms by (auto simp: service_confirm_def)

text \<open>A successful confirmation signs off the validated content, unless the paper was signed off before.\<close>

lemma confirmed_content:
  assumes "service_confirm R V owner jid iid payload s1 s2 = Inr (s', x)" "valid s2"
  shows "\<exists>t d data. load_target R V (Some jid) owner iid s1 = Inr (t, d) \<and>
     validate_payload (sv_unicode V) False t d payload = Inr data \<and>
     (if \<exists>c. signed_off s2 owner iid c then s' = s2 else signed_off s' owner iid (data_content data))"
proof -
  obtain t d data where c: "load_target R V (Some jid) owner iid s1 = Inr (t, d)"
    "validate_payload (sv_unicode V) False t d payload = Inr data"
    "rr_save_and_confirm R owner jid iid data s2 = Inr (s', x)" by (rule confirm_shape [OF assms(1)])
  then show ?thesis using confirm_new [OF assms(2) c(3)] confirm_again [OF assms(2) c(3)] by auto
qed

end

section \<open>The SQL repository\<close>

definition sql_reviews :: "review_env \<Rightarrow> uuid \<Rightarrow> time \<Rightarrow> pdb review_repository" where
  "sql_reviews E rid t = \<lparr>rr_target = get_target E, rr_regrade_target = get_regrade_target,
     rr_save = (\<lambda>owner iid d s. repo_save_draft E rid s owner iid d),
     rr_save_and_confirm = (\<lambda>owner jid iid d s. repo_save_and_confirm E rid t s owner jid iid d),
     rr_confirm = (\<lambda>owner jid refs s. repo_confirm_reviews E t s owner jid refs)\<rparr>"

definition reachable_db :: "pdb \<Rightarrow> bool" where
  "reachable_db s \<longleftrightarrow> (\<exists>w. reach w \<and> w_db w = s)"

definition db_signed_off :: "pdb \<Rightarrow> uuid \<Rightarrow> uuid \<Rightarrow> review_content \<Rightarrow> bool" where
  "db_signed_off s owner iid c \<longleftrightarrow>
     (\<exists>r \<in> set (db_reviews s). rev_item r = iid \<and> rev_owner r = owner \<and> rev_status r = ReviewConfirmed \<and> content_of r = c) \<and>
     (\<exists>i \<in> set (db_items s). item_id i = iid \<and> item_owner i = owner \<and> item_status i = ItemCompleted)"

lemma draft_view_of_Inr: "draft_view_of E r = Inr v \<Longrightarrow> dv_id v = rev_id r \<and> dv_revision_number v = rev_revision r \<and> dv_status v = rev_status r"
  by (auto simp: draft_view_of_def row_view_def split: option.splits if_splits)

lemma loaded_item:
  assumes "get_target E s owner iid = Inr (Some t)"
  obtains i where "i \<in> set (db_items s)" "item_id i = iid" "item_owner i = owner" "rt_item_status t = item_status i"
    "\<And>v. rt_draft t = Some v \<Longrightarrow> \<exists>r \<in> set (db_reviews s). draft_view_of E r = Inr v \<and> rev_item r = iid \<and> rev_owner r = owner"
proof -
  from assms have l: "load_review_target E s owner iid = Inr (Some t)" by (simp add: get_target_def split: if_splits)
  then obtain i j u v a where j: "joined_rows s owner iid = Some (i, j, u, v)" and a: "latest_success s i owner = Some a"
    by (auto simp: load_review_target_def split: option.splits)
  have i: "i \<in> set (db_items s)" "item_id i = iid" "item_owner i = owner"
    using j find_SomeD by (fastforce simp: joined_rows_def bind_eq_Some_conv)+
  obtain x y z ds xs fb where ar: "attempt_result a = Some (x, y, z, ds, xs, fb)"
    using l j a by (cases "attempt_result a") (auto simp: load_review_target_def)
  obtain q where q: "checked_rubric E v = Some q"
    using l j a ar by (cases "checked_rubric E v") (simp_all add: load_review_target_def)
  have "rt_item_status t = item_status i \<and> (\<forall>v. rt_draft t = Some v \<longrightarrow>
      (\<exists>r. review_of_attempt s i a owner = Some r \<and> draft_view_of E r = Inr v))"
  proof (cases "review_of_attempt s i a owner")
    case None
    then show ?thesis using l
      by (simp add: load_review_target_def j a ar q Let_def split: if_splits) (auto simp: make_target_def)
  next
    case (Some r)
    then show ?thesis using l
      by (simp add: load_review_target_def j a ar q Let_def split: if_splits) (auto simp: make_target_def)
  qed
  then have st: "rt_item_status t = item_status i"
    and dr: "\<And>v. rt_draft t = Some v \<Longrightarrow> \<exists>r. review_of_attempt s i a owner = Some r \<and> draft_view_of E r = Inr v" by blast+
  show thesis
  proof (rule that [OF i st])
    fix v assume "rt_draft t = Some v"
    then obtain r where r: "review_of_attempt s i a owner = Some r" "draft_view_of E r = Inr v" using dr by blast
    then show "\<exists>r \<in> set (db_reviews s). draft_view_of E r = Inr v \<and> rev_item r = iid \<and> rev_owner r = owner"
      using find_SomeD [OF r(1) [unfolded review_of_attempt_def]] i(2) by blast
  qed
qed

lemma saved_row:
  assumes d: "distinct (map rev_id (db_reviews s))" and c: "save_teacher_review_draft rid owner iid aid x s = Inr (s', Some k)"
  obtains r where "r \<in> set (db_reviews s')" "rev_id r = k" "rev_owner r = owner" "rev_item r = iid" "rev_status r = ReviewDraft"
    "content_of r = x"
proof -
  have cs: "content_of (set_content y r) = y" "rev_status (set_content y r) = rev_status r" "rev_id (set_content y r) = rev_id r"
    "rev_item (set_content y r) = rev_item r" "rev_owner (set_content y r) = rev_owner r" for y r
    by (simp_all add: content_of_def set_content_def)
  have cu: "content_of (r\<lparr>rev_revision := n\<rparr>) = content_of r" for r n by (simp add: content_of_def)
  consider (upd) r where
      "find (\<lambda>r. rev_attempt r = aid \<and> rev_item r = iid \<and> rev_owner r = owner) (db_reviews s) = Some r"
      "rev_status r = ReviewDraft" "write_review r (set_content x r\<lparr>rev_revision := rev_revision r + 1\<rparr>) s = Inr s'" "k = rev_id r"
    | (ins) a where "insert_review (new_review rid owner iid a (next_revision owner iid s) x) s = Inr s'" "k = rid"
  proof (cases "save_context owner iid aid s")
    case (Some aq)
    note ctx = Some
    obtain a q where aq: "aq = (a, q)" by (cases aq)
    show thesis
    proof (cases "find (\<lambda>r. rev_attempt r = aid \<and> rev_item r = iid \<and> rev_owner r = owner) (db_reviews s)")
      case None
      then have "insert_review (new_review rid owner iid a (next_revision owner iid s) x) s = Inr s' \<and> k = rid"
        using c by (auto simp: save_teacher_review_draft_def Some aq)
      then show thesis using ins by blast
    next
      case (Some r)
      then have "rev_status r = ReviewDraft \<and> write_review r (set_content x r\<lparr>rev_revision := rev_revision r + 1\<rparr>) s = Inr s' \<and> k = rev_id r"
        using c ctx by (simp add: save_teacher_review_draft_def aq split: if_splits)
      then show thesis using upd [OF Some] by blast
    qed
  qed (use c in \<open>simp add: save_teacher_review_draft_def\<close>)
  then show thesis
  proof cases
    case upd
    have r: "r \<in> set (db_reviews s)" "rev_item r = iid" "rev_owner r = owner" using find_SomeD [OF upd(1)] by auto
    have "set_content x r\<lparr>rev_revision := rev_revision r + 1\<rparr> \<in> set (db_reviews s')"
      using write_review_Inr [OF upd(3)] replace_row_set [OF d r(1)] by simp
    then show thesis by (rule that) (simp_all add: cs cu r upd)
  next
    case ins
    then have "new_review rid owner iid a (next_revision owner iid s) x \<in> set (db_reviews s')" by (auto simp: insert_review_def)
    then show thesis by (rule that) (simp_all add: new_review_def content_of_def ins)
  qed
qed

lemma on_database_Inr [simp]: "on_database m = Inr x \<longleftrightarrow> m = Inr x"
  by (auto simp: on_database_def split: sum.splits)

lemma confirm_single:
  assumes w: "reach w" and c: "confirm_and_report E t (w_db w) owner [\<lparr>cr_item_id = iid, cr_review_id = k, cr_revision_number = n\<rparr>] = Inr (s', x)"
    and r: "r \<in> set (db_reviews (w_db w))" "rev_id r = k"
  obtains "confirm_teacher_reviews t owner [(k, n)] (w_db w) = Inr (s', Some [k])"
    "rev_status r = ReviewConfirmed \<and> s' = w_db w \<or> rev_status r = ReviewDraft \<and>
       set (db_reviews s') = insert (confirmed_row t r) (set (db_reviews (w_db w)) - {r})"
    "map_opt (referenced owner (w_db w)) [(k, n)] = Some [r]"
proof -
  have d: "distinct (map rev_id (db_reviews (w_db w)))" using reach_reviews [OF w] by (simp add: reviews_ok_def review_refs_def)
  from c obtain ids where ci: "confirm_teacher_reviews t owner [(k, n)] (w_db w) = Inr (s', Some ids)"
    by (auto simp: confirm_and_report_def confirm_rows_of_def split: option.splits)
  obtain rs where rs: "map_opt (referenced owner (w_db w)) [(k, n)] = Some rs" "ids = map fst [(k, n)]"
    "(\<forall>r \<in> set rs. rev_status r = ReviewConfirmed) \<and> s' = w_db w \<or> (\<forall>r \<in> set rs. rev_status r = ReviewDraft) \<and>
       set (db_reviews s') = confirmed_row t ` set rs \<union> (set (db_reviews (w_db w)) - set rs)"
    by (rule confirm_rows [OF w ci])
  note R = referenced_rows [OF rs(1)]
  obtain y where y: "rs = [y]" using arg_cong [OF R(2), of length] by (cases rs) auto
  then have "y = r" using R(1,2) r d distinct_map_eqD by (metis fst_conv insert_subset list.inject list.set(2) list.simps(9))
  then show thesis using that ci rs y by auto
qed

lemma confirm_one:
  assumes "reach w" "confirm_and_report E t (w_db w) owner [\<lparr>cr_item_id = iid, cr_review_id = k, cr_revision_number = n\<rparr>] = Inr (s', x)"
    and "r \<in> set (db_reviews (w_db w))" "rev_id r = k" "rev_status r = ReviewDraft"
  shows "confirmed_row t r \<in> set (db_reviews s') \<and> reach (w\<lparr>w_db := s'\<rparr>)"
  by (rule confirm_single [OF assms(1-4)]) (use assms(5) reach.step [OF assms(1) wstep.confirm] in auto)

lemma confirm_completed:
  assumes w: "reach w" and i: "i \<in> set (db_items (w_db w))" "item_status i = ItemCompleted" "item_id i = iid" "item_owner i = owner"
    and c: "confirm_and_report E t (w_db w) owner [\<lparr>cr_item_id = iid, cr_review_id = k, cr_revision_number = n\<rparr>] = Inr (s', x)"
    and r: "r \<in> set (db_reviews (w_db w))" "rev_id r = k" "rev_item r = iid"
  shows "s' = w_db w"
proof (rule confirm_single [OF w c r(1,2)], rule ccontr)
  assume ci: "confirm_teacher_reviews t owner [(k, n)] (w_db w) = Inr (s', Some [k])"
    and m: "map_opt (referenced owner (w_db w)) [(k, n)] = Some [r]" and ne: "s' \<noteq> w_db w"
  show False
  proof (rule confirm_core [OF reach_pipeline_ok [OF w] ci ne])
    fix rs assume "map_opt (referenced owner (w_db w)) [(k, n)] = Some rs"
      "\<forall>i \<in> set (confirmed_items owner rs (w_db w)). item_status i = ItemNeedsReview"
    then show False using m i r(3) by (auto simp: confirmed_items_def)
  qed
qed

lemma signed_off_row:
  assumes "reach w" "r \<in> set (db_reviews (w_db w))" "rev_status r = ReviewConfirmed"
  shows "db_signed_off (w_db w) (rev_owner r) (rev_item r) (content_of r)"
proof -
  have ok: "reviews_ok (w_db w)" by (rule reach_reviews [OF assms(1)])
  have K: "distinct (map item_id (db_items (w_db w)))" using reach_pipeline_ok [OF assms(1)] by (simp add: pipeline_ok_def keys_ok_def)
  obtain i where "i \<in> set (db_items (w_db w))" "item_id i = rev_item r" "item_status i = ItemCompleted"
    using ok assms(2,3) unfolding reviews_ok_def confirmed_ok_def by blast
  moreover obtain j where "j \<in> set (db_items (w_db w))" "item_id j = rev_item r" "item_owner j = rev_owner r"
    using ok assms(2) unfolding reviews_ok_def review_refs_def by blast
  ultimately show ?thesis using K assms(2,3) distinct_map_eqD unfolding db_signed_off_def by metis
qed

text \<open>What a successful \<open>save_and_confirm\<close> did.\<close>

lemma save_and_confirm_shape:
  assumes w: "reach w" and c: "repo_save_and_confirm E rid t (w_db w) owner jid iid d = Inr (s', x)"
  obtains i where "i \<in> set (db_items (w_db w))" "item_id i = iid" "item_owner i = owner"
    "item_status i = ItemCompleted \<and> s' = w_db w \<or> item_status i \<noteq> ItemCompleted \<and> db_signed_off s' owner iid (data_content d)"
proof -
  let ?s = "w_db w"
  have dist: "distinct (map rev_id (db_reviews ?s))" using reach_reviews [OF w] by (simp add: reviews_ok_def review_refs_def)
  from c obtain tg where tg: "get_target E ?s owner iid = Inr (Some tg)"
    by (auto simp: repo_save_and_confirm_def split: option.splits)
  obtain i where i: "i \<in> set (db_items ?s)" "item_id i = iid" "item_owner i = owner" "rt_item_status tg = item_status i"
    and dr: "\<And>v. rt_draft tg = Some v \<Longrightarrow> \<exists>r \<in> set (db_reviews ?s). draft_view_of E r = Inr v \<and> rev_item r = iid \<and> rev_owner r = owner"
    by (rule loaded_item [OF tg]) blast
  show thesis
  proof (rule that [OF i(1-3)], cases "item_status i = ItemCompleted")
    case True
    have none: "save_context owner iid aid ?s = None" for aid
    proof -
      have "distinct (map item_id (db_items ?s))" using reach_pipeline_ok [OF w] by (simp add: pipeline_ok_def keys_ok_def)
      then have "find (\<lambda>i. item_id i = iid \<and> item_owner i = owner) (db_items ?s) = Some i"
        using find_unique [of item_id "db_items ?s" iid "\<lambda>i. item_owner i = owner" i] i by simp
      then show ?thesis using True by (simp add: save_context_def)
    qed
    have "s' = ?s"
    proof (cases "rt_draft tg")
      case None
      then show ?thesis using c tg none True i(4)
        by (auto simp: repo_save_and_confirm_def save_row_def save_teacher_review_draft_def split: if_splits)
    next
      case (Some v)
      from c tg Some True i(4) have cr: "confirm_and_report E t ?s owner [\<lparr>cr_item_id = iid, cr_review_id = dv_id v,
          cr_revision_number = dv_revision_number v\<rparr>] = Inr (s', x)"
        by (auto simp: repo_save_and_confirm_def split: if_splits)
      show ?thesis
        using dr [OF Some] draft_view_of_Inr confirm_completed [OF w i(1) True i(2,3) cr] by metis
    qed
    then show "item_status i = ItemCompleted \<and> s' = w_db w \<or> item_status i \<noteq> ItemCompleted \<and> db_signed_off s' owner iid (data_content d)"
      using True by blast
  next
    case False
    from c tg False i(4) obtain s1 k r where sv: "save_teacher_review_draft rid owner iid (dri_attempt_id d) (data_content d) ?s = Inr (s1, Some k)"
      "own_review s1 owner k = Some r"
      "confirm_and_report E t s1 owner [\<lparr>cr_item_id = iid, cr_review_id = rev_id r, cr_revision_number = rev_revision r\<rparr>] = Inr (s', x)"
      by (auto simp: repo_save_and_confirm_def save_row_def split: if_splits option.splits item_status.splits)
    have w1: "reach (w\<lparr>w_db := s1\<rparr>)" by (rule reach.step [OF w wstep.save [OF sv(1)]])
    obtain y where y: "y \<in> set (db_reviews s1)" "rev_id y = k" "rev_owner y = owner" "rev_item y = iid" "rev_status y = ReviewDraft"
      "content_of y = data_content d" by (rule saved_row [OF dist sv(1)])
    have d1: "distinct (map rev_id (db_reviews s1))" using reach_reviews [OF w1] by (simp add: reviews_ok_def review_refs_def)
    have "r = y" using sv(2) y d1 find_SomeD [OF sv(2) [unfolded own_review_def]] distinct_map_eqD by metis
    then have cf: "confirmed_row t y \<in> set (db_reviews s')" "reach (w\<lparr>w_db := s'\<rparr>)"
      using confirm_one [OF w1, of E t owner iid "rev_id y" "rev_revision y" s' x y] sv(3) y by auto
    have "db_signed_off s' owner iid (data_content d)"
      using signed_off_row [OF cf(2), of "confirmed_row t y"] cf(1) y by simp
    then show "item_status i = ItemCompleted \<and> s' = w_db w \<or> item_status i \<noteq> ItemCompleted \<and> db_signed_off s' owner iid (data_content d)"
      using False by blast
  qed
qed

interpretation sql_store: review_store "sql_reviews E rid t" reachable_db db_signed_off
proof
  fix s owner jid iid d s' x
  assume v: "reachable_db s" and c: "rr_save_and_confirm (sql_reviews E rid t) owner jid iid d s = Inr (s', x)"
  obtain w where w: "reach w" "w_db w = s" using v by (auto simp: reachable_db_def)
  have K: "distinct (map item_id (db_items s))" using reach_pipeline_ok [OF w(1)] w(2) by (simp add: pipeline_ok_def keys_ok_def)
  obtain i where i: "i \<in> set (db_items s)" "item_id i = iid" "item_owner i = owner"
    "item_status i = ItemCompleted \<and> s' = s \<or> item_status i \<noteq> ItemCompleted \<and> db_signed_off s' owner iid (data_content d)"
    using save_and_confirm_shape [OF w(1), of E rid t owner jid iid d s' x] c w(2) by (auto simp: sql_reviews_def)
  show "db_signed_off s' owner iid (data_content d)" if "\<not> (\<exists>c. db_signed_off s owner iid c)"
  proof -
    have "item_status i \<noteq> ItemCompleted"
    proof
      assume st: "item_status i = ItemCompleted"
      then obtain r where "r \<in> set (db_reviews s)" "rev_item r = iid" "rev_status r = ReviewConfirmed" "rev_owner r = owner"
        using completed_iff_confirmed [OF w(1)] i w(2) by blast
      then have "db_signed_off s owner iid (content_of r)" using i st by (auto simp: db_signed_off_def)
      then show False using that by blast
    qed
    then show ?thesis using i(4) by blast
  qed
  show "s' = s" if "db_signed_off s owner iid c" for c
  proof -
    have "item_status i = ItemCompleted" using that i K distinct_map_eqD unfolding db_signed_off_def by metis
    then show ?thesis using i(4) by blast
  qed
qed

section \<open>Confirming through the service\<close>

text \<open>
  C23. A confirmation that the service reports as successful leaves the paper signed off by its owner.
  If the paper was not completed when the writing transaction ran, the confirmed review holds
  exactly the content that passed the service's validation, with the recomputed totals; if it was,
  nothing changed, so no second review can replace the first.
\<close>

theorem confirmed_content_validated:
  assumes "reach w" "service_confirm (sql_reviews E rid t) V owner jid iid payload s1 (w_db w) = Inr (s', x)"
  shows "\<exists>target d data. load_target (sql_reviews E rid t) V (Some jid) owner iid s1 = Inr (target, d) \<and>
     validate_payload (sv_unicode V) False target d payload = Inr data \<and>
     (if \<exists>c. db_signed_off (w_db w) owner iid c then s' = w_db w else db_signed_off s' owner iid (data_content data))"
  by (rule sql_store.confirmed_content [OF assms(2)]) (use assms(1) in \<open>auto simp: reachable_db_def\<close>)

section \<open>An example\<close>

definition ex_review_env :: review_env where
  "ex_review_env = \<lparr>ve_casefold = id, ve_unicode = ascii_db\<rparr>"

definition ex_service :: review_service where
  "ex_service = \<lparr>sv_unicode = ascii_db, sv_storage = (\<lambda>_. ObjectFields (greq_document example_request))\<rparr>"

lemma ex_envs [simp]: "ve_casefold ex_review_env = id" "ve_unicode ex_review_env = ascii_db" "sv_unicode ex_service = ascii_db"
  by (simp_all add: ex_review_env_def ex_service_def)

definition ex_view :: attempt_view where
  "ex_view = \<lparr>av_id = 12, av_attempt_number = 1, av_scoring_round = 1, av_model = ustr ''m'', av_subtotal = vr_subtotal ex_validated,
     av_deduction_total = vr_deduction_total ex_validated, av_total_score = vr_total_score ex_validated,
     av_dimensions = gr_dimensions ex_validated, av_deductions = gr_deductions ex_validated,
     av_overall_feedback = gr_overall_feedback ex_validated\<rparr>"

definition ex_target :: "item_status \<Rightarrow> draft_view option \<Rightarrow> review_target" where
  "ex_target st v = \<lparr>rt_owner_id = 9, rt_job_id = 10, rt_item_id = 11, rt_item_status = st,
     rt_assignment_id = 1, rt_assignment_title = ustr ''Essay'', rt_assignment_instructions = ustr ''Write'',
     rt_rubric_version_id = 2, rt_rubric_version = 1, rt_rubric = example_rubric, rt_submission_id = 3,
     rt_submission_status = SubReady, rt_extracted_object_key = Some (DocumentBlocksKey 9 1 3),
     rt_attempt = ex_view, rt_draft = v\<rparr>"

definition ex_change :: review_draft_input where
  "ex_change = \<lparr>dri_attempt_id = 12, dri_criteria = rc_criteria ex_content, dri_deductions = rc_deductions ex_content,
     dri_evidence = rc_evidence ex_content, dri_overall_feedback = rc_feedback ex_content,
     dri_change_reason = rc_change_reason ex_content\<rparr>"

lemma ex_view_ok: "list_all (dimension_ok ascii_db) (gr_dimensions ex_validated)" "list_all (deduction_ok ascii_db) (gr_deductions ex_validated)"
  "attempt_view_ok ascii_db ex_view" "validate_document (greq_document example_request)"
  by code_simp+

lemma ex_success:
  "attempt_result (hd (db_attempts ex_db3)) = Some (vr_subtotal ex_validated, vr_deduction_total ex_validated,
     vr_total_score ex_validated, gr_dimensions ex_validated, gr_deductions ex_validated, gr_overall_feedback ex_validated)"
  "checked_rubric ex_review_env (hd (db_rubrics ex_db3)) = Some example_rubric"
  "att_id (hd (db_attempts ex_db3)) = 12" "att_number (hd (db_attempts ex_db3)) = 1" "att_round (hd (db_attempts ex_db3)) = 1"
  using example_rubric_valid
  by (simp_all add: attempt_result_def checked_rubric_def) (simp_all add: ex_rows2 next_number_def max_of_def)

lemma ex_loaded: "get_target ex_review_env ex_db3 9 11 = Inr (Some (ex_target ItemNeedsReview None))"
proof -
  have j: "joined_rows ex_db3 9 11 = Some (hd (db_items ex_db3), hd (db_jobs ex_db3), hd (db_submissions ex_db3), hd (db_rubrics ex_db3))"
    by (simp add: joined_rows_def job_of_item_def submission_of_def rubric_row_of_def ex_rows2)
  have l: "latest_success ex_db3 (hd (db_items ex_db3)) 9 = Some (hd (db_attempts ex_db3))"
    by (simp add: latest_success_def succeeded_in_round_def ex_rows2)
  have r: "review_of_attempt ex_db3 i a 9 = None" for i a by (simp add: review_of_attempt_def ex_rows2)
  have f: "job_model (hd (db_jobs ex_db3)) = ustr ''m''" "visible ex_db3 9"
    by (simp_all add: ex_rows2 visible_def)
  have t: "make_target 9 (hd (db_items ex_db3)) (hd (db_jobs ex_db3)) (hd (db_submissions ex_db3)) (hd (db_rubrics ex_db3)) example_rubric
      ex_view None = ex_target ItemNeedsReview None"
    by (simp add: make_target_def ex_target_def) (simp add: ex_rows2)
  show ?thesis
    using ex_view_ok t
    by (simp add: get_target_def load_review_target_def j l ex_success r f Let_def ex_view_def)
qed

lemma ex_opened: "load_target (sql_reviews ex_review_env k u) ex_service (Some 10) 9 11 ex_db3
    = Inr (ex_target ItemNeedsReview None, greq_document example_request)"
  using ex_view_ok(4)
  by (simp add: load_target_def sql_reviews_def ex_loaded open_target_def ex_service_def ex_target_def)

definition ex_data :: review_draft_data where
  "ex_data = review_draft_input.extend ex_change (review_draft_data.fields (dec_of_int 9) (dec_of_int 2) (dec_of_int 7))"

lemma ex_change_valid: "validate_payload ascii_db False (ex_target ItemNeedsReview None) (greq_document example_request) ex_change = Inr ex_data"
  by code_simp

lemma ex_data_content: "data_content ex_data = ex_content" "dri_attempt_id ex_data = 12"
  by (simp_all add: data_content_def ex_data_def ex_change_def ex_content_def review_draft_input.defs review_draft_data.defs)

lemma ex_view_valid: "map_opt (validate_criterion ascii_db) (rc_criteria ex_content) = Some (rc_criteria ex_content)"
  "map_opt (validate_deduction_input ascii_db) (rc_deductions ex_content) = Some (rc_deductions ex_content)"
  "list_all validate_evidence_input (rc_evidence ex_content)"
  by code_simp+

lemma ex_confirmed_view: "\<exists>v. draft_view_of ex_review_env (confirmed_row 130 ex_saved) = Inr v \<and> rdd_final_score v = dec_of_int 7"
  using ex_view_valid
  by (simp add: draft_view_of_def confirmed_row_def ex_saved_def new_review_def row_view_def) (simp add: ex_content_def)

lemma report_single:
  assumes "own_review s owner k = Some r" "draft_view_of E r = Inr v" "length (db_items s) \<le> 100"
  shows "\<exists>x. confirm_report E s owner [\<lparr>cr_item_id = iid, cr_review_id = k, cr_revision_number = n\<rparr>] = Inr x \<and> cn_reviews x = [v]"
proof -
  have "length (remdups (map item_job (filter P (db_items s)))) \<le> 100" for P
    using assms(3) by (metis le_trans length_filter_le length_map length_remdups_leq)
  then show ?thesis using assms(1,2) by (simp add: confirm_report_def length_between_def Let_def not_less)
qed

lemma ex_reported:
  obtains x v where "confirm_and_report ex_review_env 130 ex_db4 9 [\<lparr>cr_item_id = 11, cr_review_id = 14, cr_revision_number = 1\<rparr>] = Inr (ex_db5, x)"
    "cn_reviews x = [v]" "rdd_final_score v = dec_of_int 7"
proof -
  obtain v where v: "draft_view_of ex_review_env (confirmed_row 130 ex_saved) = Inr v" "rdd_final_score v = dec_of_int 7"
    using ex_confirmed_view by blast
  have o: "own_review ex_db5 9 14 = Some (confirmed_row 130 ex_saved)"
    by (simp add: own_review_def ex_confirmed) (simp add: ex_saved_def new_review_def ex_rows2)
  have "length (db_items ex_db5) \<le> 100" by (simp add: ex_db5_def)
  from report_single [OF o v(1) this] obtain x where
    "confirm_report ex_review_env ex_db5 9 [\<lparr>cr_item_id = 11, cr_review_id = 14, cr_revision_number = 1\<rparr>] = Inr x" "cn_reviews x = [v]"
    by blast
  then show thesis using that v(2) ex_confirms by (simp add: confirm_and_report_def confirm_rows_of_def)
qed

lemma ex_service_confirm:
  obtains x where "service_confirm (sql_reviews ex_review_env 14 130) ex_service 9 10 11 ex_change ex_db3 ex_db3 = Inr (ex_db5, x)"
proof -
  obtain x v where x: "confirm_and_report ex_review_env 130 ex_db4 9 [\<lparr>cr_item_id = 11, cr_review_id = 14, cr_revision_number = 1\<rparr>] = Inr (ex_db5, x)"
    by (rule ex_reported)
  have st: "rt_item_status (ex_target ItemNeedsReview None) = ItemNeedsReview" "rt_job_id (ex_target ItemNeedsReview None) = 10"
    by (simp_all add: ex_target_def)
  have o: "own_review ex_db4 9 14 = Some ex_saved" "rev_id ex_saved = 14" "rev_revision ex_saved = 1"
    by (simp_all add: own_review_def ex_db4_def ex_saved_def new_review_def)
  have "repo_save_and_confirm ex_review_env 14 130 ex_db3 9 10 11 ex_data = Inr (ex_db5, x)"
    using x by (simp add: repo_save_and_confirm_def ex_loaded st save_row_def ex_data_content ex_saves on_database_def o)
  then show thesis
    using that by (simp add: service_confirm_def ex_opened ex_change_valid require_confirmed_def st) (simp add: sql_reviews_def)
qed

lemma ex_reach3:
  obtains w where "reach w" "w_db w = ex_db3"
proof (rule ex_review_steps)
  fix q assume r: "reach \<lparr>w_db = ex_db3, w_preps = [ex_prep], w_open = w_open (ex_world q)\<rparr>"
  then show thesis using that by simp
qed

theorem confirmed_content_validated_witness:
  "\<exists>w s' x. reach w \<and> service_confirm (sql_reviews ex_review_env 14 130) ex_service 9 10 11 ex_change (w_db w) (w_db w) = Inr (s', x) \<and>
     db_signed_off s' 9 11 ex_content"
proof (rule ex_reach3, rule ex_service_confirm)
  fix w x assume w: "reach w" "w_db w = ex_db3"
    and c: "service_confirm (sql_reviews ex_review_env 14 130) ex_service 9 10 11 ex_change ex_db3 ex_db3 = Inr (ex_db5, x)"
  have n: "\<not> (\<exists>c. db_signed_off ex_db3 9 11 c)" by (simp add: db_signed_off_def ex_rows2)
  have "db_signed_off ex_db5 9 11 ex_content"
    using confirmed_content_validated [OF w(1) c [folded w(2)]] n w(2) ex_change_valid ex_data_content
    by (auto simp: ex_opened)
  then show ?thesis using w c by (intro exI [of _ w] exI [of _ ex_db5] exI [of _ x]) simp
qed

definition ex_other :: review_draft_input where
  "ex_other = ex_change\<lparr>dri_criteria := [\<lparr>ci_dimension_id = ustr ''a'', ci_score = dec_of_int 8, ci_reason = ustr ''better'',
     ci_revision_suggestions = [ustr ''shorten'']\<rparr>]\<rparr>"

definition ex_other_data :: review_draft_data where
  "ex_other_data = review_draft_input.extend ex_other (review_draft_data.fields (dec_of_int 8) (dec_of_int 2) (dec_of_int 6))"

lemma ex_other_valid: "validate_payload ascii_db False (ex_target ItemNeedsReview None) (greq_document example_request) ex_other = Inr ex_other_data"
  by code_simp

lemma ex_loaded_later:
  assumes "draft_view_of ex_review_env (confirmed_row 130 ex_saved) = Inr v"
  shows "get_target ex_review_env ex_db5 9 11 = Inr (Some (ex_target ItemCompleted (Some v)))"
proof -
  let ?i = "completed_item 130 (hd (db_items ex_db3))"
  have d: "db_items ex_db5 = [?i]" "db_attempts ex_db5 = db_attempts ex_db3" "db_submissions ex_db5 = db_submissions ex_db3"
    "db_rubrics ex_db5 = db_rubrics ex_db3" "db_active_teachers ex_db5 = db_active_teachers ex_db3"
    by (simp_all add: ex_db5_def ex_db4_def)
  have i: "item_identity ?i = item_identity (hd (db_items ex_db3))" "item_id ?i = 11" "item_owner ?i = 9"
    by (simp_all add: ex_rows2)
  have u: "submission_of ex_db5 ?i = Some (hd (db_submissions ex_db3))"
    by (simp add: submission_of_def d completed_item_def) (simp add: ex_rows2)
  obtain j where j: "job_of_item ex_db5 ?i = Some j" "job_id j = 10" "job_assignment j = 1" "job_rubric_version j = 2" "job_owner j = 9"
    "job_title j = ustr ''Essay''" "job_instructions j = ustr ''Write''" "job_model j = ustr ''m''"
    by (simp add: job_of_item_def ex_db5_def completed_item_def) (simp add: ex_rows2)
  have v: "rubric_row_of ex_db5 j = Some (hd (db_rubrics ex_db3))"
    by (simp add: rubric_row_of_def d j) (simp add: ex_rows2)
  have jr: "joined_rows ex_db5 9 11 = Some (?i, j, hd (db_submissions ex_db3), hd (db_rubrics ex_db3))"
    using i(2,3) by (simp add: joined_rows_def d u j v)
  have l: "latest_success ex_db5 ?i 9 = Some (hd (db_attempts ex_db3))"
    by (simp add: latest_success_def succeeded_in_round_def d completed_item_def) (simp add: ex_rows2 succeeded_in_round_def)
  have r: "review_of_attempt ex_db5 ?i (hd (db_attempts ex_db3)) 9 = Some (confirmed_row 130 ex_saved)"
    by (simp add: review_of_attempt_def ex_confirmed) (simp add: ex_saved_def new_review_def ex_rows2)
  have t: "make_target 9 ?i j (hd (db_submissions ex_db3)) (hd (db_rubrics ex_db3)) example_rubric ex_view (Some v)
      = ex_target ItemCompleted (Some v)" for v
    by (simp add: make_target_def ex_target_def j) (simp add: ex_rows2)
  show ?thesis
    using ex_view_ok t assms ex_confirmed(3)
    by (simp add: get_target_def load_review_target_def jr l ex_success r Let_def visible_def j ex_view_def)
qed

text \<open>
  C24. The check that a payload matches the confirmed review is not repeated in the writing
  transaction. If another tab confirms the paper between the two transactions, a confirmation of
  different content is reported as successful instead of as a conflict: here a payload validated to
  one final score is answered with the confirmed review of another.
\<close>

theorem confirm_race_unreported:
  "\<exists>w w' payload data target d x v. reach w \<and> wstep\<^sup>*\<^sup>* w w' \<and>
     load_target (sql_reviews ex_review_env 15 130) ex_service (Some 10) 9 11 (w_db w) = Inr (target, d) \<and>
     validate_payload (sv_unicode ex_service) False target d payload = Inr data \<and>
     service_confirm (sql_reviews ex_review_env 15 130) ex_service 9 10 11 payload (w_db w) (w_db w') = Inr (w_db w', x) \<and>
     cn_reviews x = [v] \<and> \<not> dec_eq (rdd_final_score v) (rdd_final_score data)"
proof (rule ex_review_steps)
  fix q let ?w = "\<lambda>s. \<lparr>w_db = s, w_preps = [ex_prep], w_open = w_open (ex_world q)\<rparr>"
  assume w: "reach (?w ex_db3)" "wstep (?w ex_db3) (?w ex_db4)" "wstep (?w ex_db4) (?w ex_db5)" "reach (?w ex_db5)"
  obtain v where v: "draft_view_of ex_review_env (confirmed_row 130 ex_saved) = Inr v" "rdd_final_score v = dec_of_int 7"
    using ex_confirmed_view by blast
  have st: "rt_item_status (ex_target s d) = s" "rt_job_id (ex_target s d) = 10" "rt_draft (ex_target s d) = d" for s d
    by (simp_all add: ex_target_def)
  have o: "own_review ex_db5 9 14 = Some (confirmed_row 130 ex_saved)"
    by (simp add: own_review_def ex_confirmed) (simp add: ex_saved_def new_review_def ex_rows2)
  have n: "dv_id v = 14" "dv_revision_number v = 1"
    using draft_view_of_Inr [OF v(1)] by (simp_all add: ex_saved_def new_review_def)
  have "length (db_items ex_db5) \<le> 100" by (simp add: ex_db5_def)
  from report_single [OF o v(1) this] obtain x where
    x: "confirm_report ex_review_env ex_db5 9 [\<lparr>cr_item_id = 11, cr_review_id = 14, cr_revision_number = 1\<rparr>] = Inr x" "cn_reviews x = [v]"
    by blast
  have c: "confirm_and_report ex_review_env 130 ex_db5 9 [\<lparr>cr_item_id = 11, cr_review_id = 14, cr_revision_number = 1\<rparr>] = Inr (ex_db5, x)"
    using x ex_confirm_repeated by (simp add: confirm_and_report_def confirm_rows_of_def)
  have "repo_save_and_confirm ex_review_env 15 130 ex_db5 9 10 11 ex_other_data = Inr (ex_db5, x)"
    using c by (simp add: repo_save_and_confirm_def ex_loaded_later [OF v(1)] st n)
  then have "service_confirm (sql_reviews ex_review_env 15 130) ex_service 9 10 11 ex_other ex_db3 ex_db5 = Inr (ex_db5, x)"
    by (simp add: service_confirm_def ex_opened ex_other_valid require_confirmed_def st) (simp add: sql_reviews_def)
  moreover have "\<not> dec_eq (rdd_final_score v) (rdd_final_score ex_other_data)"
    unfolding v(2) by code_simp
  moreover have "wstep\<^sup>*\<^sup>* (?w ex_db3) (?w ex_db5)" using w(2,3) by (meson rtranclp.rtrancl_refl rtranclp.rtrancl_into_rtrancl)
  ultimately show ?thesis using w(1) x(2)
    by (intro exI [of _ "?w ex_db3"] exI [of _ "?w ex_db5"] exI [of _ ex_other] exI [of _ ex_other_data] exI [of _ "ex_target ItemNeedsReview None"]
        exI [of _ "greq_document example_request"] exI [of _ x] exI [of _ v]) (simp add: ex_opened ex_other_valid)
qed

end
