(* ===== verification/Review_Contract.thy ===== *)
theory Review_Contract
  imports Review_Service
begin

text \<open>
  What a review that passes \<open>_validate_payload\<close> satisfies: its totals are the ones the code computes,
  its evidence is in the paper, and without a change reason it is the model's own result.
\<close>

section \<open>The answer built from a review\<close>

definition dimension_of :: "criterion_input \<Rightarrow> dimension_result \<Rightarrow> bool" where
  "dimension_of c d \<longleftrightarrow> dr_dimension_id d = ci_dimension_id c \<and> dr_score d = plain_decimal (ci_score c) \<and>
     decimal_field (dr_score d) \<and> dr_reason d = ci_reason c \<and> dr_revision_suggestions d = ci_revision_suggestions c"

definition deduction_of :: "deduction_input \<Rightarrow> deduction_result \<Rightarrow> bool" where
  "deduction_of i x \<longleftrightarrow> xr_deduction_id x = di_deduction_id i \<and> xr_applied x = di_applied i \<and> xr_reason x = di_reason i"

lemma model_decimal_format:
  assumes "ascii_digits_ok U"
  shows "model_decimal U (JStr (format_f d)) = guard_opt (decimal_field (plain_decimal d)) (plain_decimal d)"
  using parse_format [OF assms] by (simp add: model_decimal_def)

lemma make_dimension_of:
  assumes "ascii_digits_ok U" "make_dimension U es c = Inr d"
  shows "dimension_of c d \<and> dr_evidence d = grouped es TargetDimension (ci_dimension_id c)"
  using assms(2) unfolding make_dimension_def model_decimal_format [OF assms(1)]
  by (auto simp: guard_opt_def Let_def dimension_of_def split: if_splits)

lemma make_deduction_of:
  assumes "make_deduction U es i = Inr x"
  shows "deduction_of i x \<and> xr_evidence x = grouped es TargetDeduction (di_deduction_id i)"
  using assms by (auto simp: make_deduction_def Let_def deduction_of_def split: if_splits)

lemma check_target_Inr:
  "check_target p e = Inr x \<longleftrightarrow>
     (case ei_target_type e of TargetDimension \<Rightarrow> ei_target_id e \<in> set (map ci_dimension_id (dri_criteria p))
      | TargetDeduction \<Rightarrow> ei_target_id e \<in> set (map di_deduction_id (dri_deductions p))) \<and>
     x = ((ei_target_type e, ei_target_id e), \<lparr>ev_block_id = ei_block_id e, ev_quote = ei_quote e\<rparr>)"
  by (auto simp: check_target_def split: target_type.splits)

lemma grouped_mem: "((t, i), q) \<in> set es \<Longrightarrow> q \<in> set (grouped es t i)"
  by (force simp: grouped_def)

lemma list_all2_pick: "list_all2 P xs ys \<Longrightarrow> x \<in> set xs \<Longrightarrow> \<exists>y \<in> set ys. P x y"
  by (metis list_all2_conv_all_nth in_set_conv_nth)

lemma review_result_parts:
  assumes "ascii_digits_ok U" "review_result U p = Inr r"
  shows "list_all2 dimension_of (dri_criteria p) (gr_dimensions r)"
    "list_all2 deduction_of (dri_deductions p) (gr_deductions r)"
    "gr_overall_feedback r = dri_overall_feedback p"
    "\<forall>e \<in> set (dri_evidence p). \<exists>es \<in> dr_evidence ` set (gr_dimensions r) \<union> xr_evidence ` set (gr_deductions r).
       \<lparr>ev_block_id = ei_block_id e, ev_quote = ei_quote e\<rparr> \<in> set es"
    "\<forall>e \<in> set (dri_evidence p). case ei_target_type e of
        TargetDimension \<Rightarrow> ei_target_id e \<in> set (map ci_dimension_id (dri_criteria p))
      | TargetDeduction \<Rightarrow> ei_target_id e \<in> set (map di_deduction_id (dri_deductions p))"
proof -
  from assms(2) obtain es dims deds where
    es: "mapR (check_target p) (dri_evidence p) = Inr es"
    and dims: "mapR (make_dimension U es) (dri_criteria p) = Inr dims"
    and deds: "mapR (make_deduction U es) (dri_deductions p) = Inr deds"
    and r: "gr_dimensions r = dims" "gr_deductions r = deds" "gr_overall_feedback r = dri_overall_feedback p"
    by (auto simp: review_result_def Let_def split: if_splits)
  have d: "list_all2 (\<lambda>c d. dimension_of c d \<and> dr_evidence d = grouped es TargetDimension (ci_dimension_id c)) (dri_criteria p) dims"
    using dims make_dimension_of [OF assms(1)] by (auto simp: mapR_Inr_iff elim!: list_all2_mono)
  have x: "list_all2 (\<lambda>i x. deduction_of i x \<and> xr_evidence x = grouped es TargetDeduction (di_deduction_id i)) (dri_deductions p) deds"
    using deds make_deduction_of by (auto simp: mapR_Inr_iff elim!: list_all2_mono)
  show "list_all2 dimension_of (dri_criteria p) (gr_dimensions r)" "list_all2 deduction_of (dri_deductions p) (gr_deductions r)"
    using d x r by (auto elim!: list_all2_mono)
  show "gr_overall_feedback r = dri_overall_feedback p" using r by simp
  have e: "\<exists>y \<in> set es. check_target p e = Inr y" if "e \<in> set (dri_evidence p)" for e
    using es that by (auto simp: mapR_Inr_iff dest: list_all2_pick)
  show "\<forall>e \<in> set (dri_evidence p). case ei_target_type e of
        TargetDimension \<Rightarrow> ei_target_id e \<in> set (map ci_dimension_id (dri_criteria p))
      | TargetDeduction \<Rightarrow> ei_target_id e \<in> set (map di_deduction_id (dri_deductions p))"
    using e by (auto simp: check_target_Inr)
  show "\<forall>e \<in> set (dri_evidence p). \<exists>es \<in> dr_evidence ` set (gr_dimensions r) \<union> xr_evidence ` set (gr_deductions r).
       \<lparr>ev_block_id = ei_block_id e, ev_quote = ei_quote e\<rparr> \<in> set es"
  proof
    fix e assume e': "e \<in> set (dri_evidence p)"
    let ?q = "\<lparr>ev_block_id = ei_block_id e, ev_quote = ei_quote e\<rparr>"
    from e [OF e'] have mem: "((ei_target_type e, ei_target_id e), ?q) \<in> set es"
      and tgt: "case ei_target_type e of TargetDimension \<Rightarrow> ei_target_id e \<in> set (map ci_dimension_id (dri_criteria p))
        | TargetDeduction \<Rightarrow> ei_target_id e \<in> set (map di_deduction_id (dri_deductions p))"
      by (auto simp: check_target_Inr)
    show "\<exists>es \<in> dr_evidence ` set (gr_dimensions r) \<union> xr_evidence ` set (gr_deductions r). ?q \<in> set es"
    proof (cases "ei_target_type e")
      case TargetDimension
      then obtain c where "c \<in> set (dri_criteria p)" "ci_dimension_id c = ei_target_id e" using tgt by auto
      with list_all2_pick [OF d] obtain y where y: "y \<in> set dims" "dr_evidence y = grouped es TargetDimension (ei_target_id e)"
        by metis
      then have "dr_evidence y \<in> dr_evidence ` set (gr_dimensions r) \<union> xr_evidence ` set (gr_deductions r)" "?q \<in> set (dr_evidence y)"
        using imageI [OF y(1), of dr_evidence] y(2) grouped_mem [OF mem] TargetDimension r by auto
      then show ?thesis by (rule bexI [rotated])
    next
      case TargetDeduction
      then obtain c where "c \<in> set (dri_deductions p)" "di_deduction_id c = ei_target_id e" using tgt by auto
      with list_all2_pick [OF x] obtain y where y: "y \<in> set deds" "xr_evidence y = grouped es TargetDeduction (ei_target_id e)"
        by metis
      then have "xr_evidence y \<in> dr_evidence ` set (gr_dimensions r) \<union> xr_evidence ` set (gr_deductions r)" "?q \<in> set (xr_evidence y)"
        using imageI [OF y(1), of xr_evidence] y(2) grouped_mem [OF mem] TargetDeduction r by auto
      then show ?thesis by (rule bexI [rotated])
    qed
  qed
qed

section \<open>Equal canonical JSON means the same result\<close>

definition same_result :: "'a grade_result_scheme \<Rightarrow> 'b grade_result_scheme \<Rightarrow> bool" where
  "same_result r s \<longleftrightarrow>
     list_all2 (\<lambda>a b. dec_eq (dr_score a) (dr_score b) \<and> a\<lparr>dr_score := dec_zero\<rparr> = b\<lparr>dr_score := dec_zero\<rparr>)
       (gr_dimensions r) (gr_dimensions s) \<and>
     gr_deductions r = gr_deductions s \<and> gr_overall_feedback r = gr_overall_feedback s"

lemma map_eq_list_all2: "map (f \<circ> g) xs = map (f \<circ> g) ys \<longleftrightarrow> list_all2 (\<lambda>a b. f (g a) = f (g b)) xs ys"
  unfolding list.rel_eq [symmetric] list.rel_map comp_def ..

lemma result_keys:
  "distinct (map fst [(ustr ''block_id'', x1), (ustr ''quote'', x2)])"
  "distinct (map fst [(ustr ''dimension_id'', x1), (ustr ''score'', x2), (ustr ''reason'', x3),
     (ustr ''evidence'', x4), (ustr ''revision_suggestions'', x5)])"
  "distinct (map fst [(ustr ''deduction_id'', x1), (ustr ''applied'', x2), (ustr ''reason'', x3), (ustr ''evidence'', x4)])"
  "distinct (map fst [(ustr ''schema_version'', x1), (ustr ''dimensions'', x2), (ustr ''deductions'', x3),
     (ustr ''overall_feedback'', x4)])"
  by (simp_all add: ustr_def)

lemma quote_inj:
  assumes "sort_keys (quote_json a) = sort_keys (quote_json b)"
  shows "a = b"
proof -
  note get = sort_keys_get [OF result_keys(1) result_keys(1) assms [unfolded quote_json_def]]
  show ?thesis using get [of "ustr ''block_id''"] get [of "ustr ''quote''"] by (simp add: ustr_def)
qed

lemma quotes_inj:
  assumes "map (sort_keys \<circ> quote_json) xs = map (sort_keys \<circ> quote_json) ys"
  shows "xs = ys"
  using map_determines [OF assms, of id] quote_inj by simp

lemma strings_inj: "map (sort_keys \<circ> JStr) xs = map (sort_keys \<circ> JStr) ys \<Longrightarrow> xs = ys"
  by (rule map_injective) (auto simp: inj_on_def)

lemma dimension_inj:
  assumes "sort_keys (dimension_result_json a) = sort_keys (dimension_result_json b)"
  shows "dec_eq (dr_score a) (dr_score b) \<and> a\<lparr>dr_score := dec_zero\<rparr> = b\<lparr>dr_score := dec_zero\<rparr>"
proof -
  note get = sort_keys_get [OF result_keys(2) result_keys(2) assms [unfolded dimension_result_json_def]]
  have "dr_dimension_id a = dr_dimension_id b" using get [of "ustr ''dimension_id''"] by (simp add: ustr_def)
  moreover have "dec_eq (dr_score a) (dr_score b)"
    using get [of "ustr ''score''"] by (simp add: ustr_def jdec_def canonical_text_eq)
  moreover have "dr_reason a = dr_reason b" using get [of "ustr ''reason''"] by (simp add: ustr_def)
  moreover have "dr_evidence a = dr_evidence b"
    using get [of "ustr ''evidence''"] by (intro quotes_inj) (simp add: ustr_def)
  moreover have "dr_revision_suggestions a = dr_revision_suggestions b"
    using get [of "ustr ''revision_suggestions''"] by (intro strings_inj) (simp add: ustr_def)
  ultimately show ?thesis by simp
qed

lemma deduction_inj:
  assumes "sort_keys (deduction_result_json a) = sort_keys (deduction_result_json b)"
  shows "a = b"
proof -
  note get = sort_keys_get [OF result_keys(3) result_keys(3) assms [unfolded deduction_result_json_def]]
  have "xr_deduction_id a = xr_deduction_id b" using get [of "ustr ''deduction_id''"] by (simp add: ustr_def)
  moreover have "xr_applied a = xr_applied b" using get [of "ustr ''applied''"] by (simp add: ustr_def)
  moreover have "xr_reason a = xr_reason b" using get [of "ustr ''reason''"] by (simp add: ustr_def)
  moreover have "xr_evidence a = xr_evidence b"
    using get [of "ustr ''evidence''"] by (intro quotes_inj) (simp add: ustr_def)
  ultimately show ?thesis by simp
qed

lemma result_float_free: "float_free (grade_result_json r)"
  by (auto simp: grade_result_json_def dimension_result_json_def deduction_result_json_def quote_json_def jdec_def)

lemma unchanged_same:
  assumes "json_differs (grade_result_json r) (grade_result_json s) = Inr False"
  shows "same_result r s"
proof -
  have "sort_keys (grade_result_json r) = sort_keys (grade_result_json s)"
    by (rule render_json_inj) (use assms result_float_free float_free_sort in
      \<open>auto simp: json_differs_def canonical_json_def Let_def split: if_splits option.splits\<close>)
  note get = sort_keys_get [OF result_keys(4) result_keys(4) this [unfolded grade_result_json_def]]
  have "map (sort_keys \<circ> dimension_result_json) (gr_dimensions r) = map (sort_keys \<circ> dimension_result_json) (gr_dimensions s)"
    using get [of "ustr ''dimensions''"] by (simp add: ustr_def)
  then have "list_all2 (\<lambda>a b. sort_keys (dimension_result_json a) = sort_keys (dimension_result_json b)) (gr_dimensions r) (gr_dimensions s)"
    by (simp add: map_eq_list_all2)
  moreover have "map (sort_keys \<circ> deduction_result_json) (gr_deductions r) = map (sort_keys \<circ> deduction_result_json) (gr_deductions s)"
    using get [of "ustr ''deductions''"] by (simp add: ustr_def)
  then have "map id (gr_deductions r) = map id (gr_deductions s)"
    by (rule map_determines) (unfold comp_def id_def, rule deduction_inj)
  then have "gr_deductions r = gr_deductions s" by simp
  moreover have "gr_overall_feedback r = gr_overall_feedback s" using get [of "ustr ''overall_feedback''"] by (simp add: ustr_def)
  ultimately show ?thesis
    unfolding same_result_def by (intro conjI) (rule list_all2_mono [OF _ dimension_inj], assumption+)
qed

section \<open>What a validated review satisfies\<close>

lemma validate_payload_parts:
  assumes "validate_payload U ed t d p = Inr data"
  obtains r g v o' c where "review_result U p = Inr r" "target_request t d = Some g" "check_grade_result r g = Inr v"
    "original_result U (rt_attempt t) = Inr o'" "json_differs (grade_result_json r) (grade_result_json o') = Inr c"
    "c \<Longrightarrow> dri_change_reason p \<noteq> None" "data = draft_data p v" "dri_attempt_id p = av_id (rt_attempt t)"
    "ed \<Longrightarrow> rt_item_status t = ItemNeedsReview"
proof -
  have g: "ed \<Longrightarrow> rt_item_status t = ItemNeedsReview" "dri_attempt_id p = av_id (rt_attempt t)"
    using assms by (auto simp: validate_payload_def split: if_splits)
  from assms obtain r where r: "review_result U p = Inr r"
    by (auto simp: validate_payload_def split: if_splits)
  from assms r obtain g' where g': "target_request t d = Some g'"
    by (auto simp: validate_payload_def split: if_splits option.splits)
  from assms r g' obtain v where v: "check_grade_result r g' = Inr v"
    by (auto simp: validate_payload_def split: if_splits sum.splits)
  from assms r g' v obtain o' c where "original_result U (rt_attempt t) = Inr o'"
    "json_differs (grade_result_json r) (grade_result_json o') = Inr c"
    "c \<Longrightarrow> dri_change_reason p \<noteq> None" "data = draft_data p v"
    by (auto simp: validate_payload_def split: if_splits)
  then show thesis using that r g' v g by blast
qed

lemma target_request_parts:
  "target_request t d = Some g \<Longrightarrow> greq_rubric g = rt_rubric t \<and> greq_document g = d"
  by (auto simp: target_request_def make_grade_request_def Let_def)

lemma original_parts:
  "original_result U a = Inr r \<Longrightarrow>
     gr_dimensions r = av_dimensions a \<and> gr_deductions r = av_deductions a \<and> gr_overall_feedback r = av_overall_feedback a"
  by (auto simp: original_result_def Let_def split: if_splits)

lemma draft_data_fields [simp]:
  "rdd_subtotal (draft_data p v) = vr_subtotal v" "rdd_deduction_total (draft_data p v) = vr_deduction_total v"
  "rdd_final_score (draft_data p v) = vr_total_score v" "review_draft_input.truncate (draft_data p v) = p"
  "dri_criteria (draft_data p v) = dri_criteria p" "dri_deductions (draft_data p v) = dri_deductions p"
  "dri_evidence (draft_data p v) = dri_evidence p" "dri_overall_feedback (draft_data p v) = dri_overall_feedback p"
  "dri_change_reason (draft_data p v) = dri_change_reason p" "dri_attempt_id (draft_data p v) = dri_attempt_id p"
  by (cases p; simp add: draft_data_def review_draft_input.defs review_draft_data.defs)+

lemma dimension_of_units: "dimension_of c d \<Longrightarrow> dec_units (dr_score d) = dec_units (ci_score c)"
  by (simp add: dimension_of_def)

lemma dimensions_of_map:
  assumes "list_all2 dimension_of cs ds"
  shows "map dr_dimension_id ds = map ci_dimension_id cs" "map (uval \<circ> dr_score) ds = map (uval \<circ> ci_score) cs"
    "\<forall>d \<in> set ds. decimal_field (dr_score d)" "length ds = length cs"
  using assms by (induction rule: list_all2_induct) (auto simp: dimension_of_def uval_def)

lemma deductions_of_map:
  assumes "list_all2 deduction_of is xs"
  shows "map xr_deduction_id xs = map di_deduction_id is"
    "map xr_deduction_id (filter xr_applied xs) = map di_deduction_id (filter di_applied is)"
  using assms by (induction rule: list_all2_induct) (auto simp: deduction_of_def)

definition applied_deductions :: "review_draft_input \<Rightarrow> structured_rubric \<Rightarrow> rubric_deduction list" where
  "applied_deductions p q = filter (\<lambda>d. ded_id d \<in> set (map di_deduction_id (filter di_applied (dri_deductions p)))) (rub_deductions q)"

lemma dec_eq_plain: "dec_eq (plain_decimal d) d"
proof (cases "0 < dec_exp d")
  case True
  then show ?thesis by (simp add: dec_eq_def plain_decimal_def dec_at_def dec_int_def)
qed (simp add: dec_eq_def plain_decimal_def)

lemma dec_eq_trans: "dec_eq a b \<Longrightarrow> dec_eq b c \<Longrightarrow> dec_eq a c"
  by (simp flip: canonical_text_eq)

lemma dec_eq_sym: "dec_eq a b \<Longrightarrow> dec_eq b a"
  by (simp flip: canonical_text_eq)

text \<open>A review without a reason agrees with the model's result.\<close>

definition same_criterion :: "criterion_input \<Rightarrow> dimension_result \<Rightarrow> bool" where
  "same_criterion c a \<longleftrightarrow> ci_dimension_id c = dr_dimension_id a \<and> dec_eq (ci_score c) (dr_score a) \<and>
     ci_reason c = dr_reason a \<and> ci_revision_suggestions c = dr_revision_suggestions a"

lemma same_criteria:
  assumes "list_all2 dimension_of cs ds"
    and "list_all2 (\<lambda>a b. dec_eq (dr_score a) (dr_score b) \<and> a\<lparr>dr_score := dec_zero\<rparr> = b\<lparr>dr_score := dec_zero\<rparr>) ds as"
  shows "list_all2 same_criterion cs as"
proof (rule list_all2_trans [OF _ assms])
  fix c d a
  assume c: "dimension_of c d" and a: "dec_eq (dr_score d) (dr_score a) \<and> d\<lparr>dr_score := dec_zero\<rparr> = a\<lparr>dr_score := dec_zero\<rparr>"
  have "dec_eq (ci_score c) (dr_score a)"
    using c a dec_eq_sym [OF dec_eq_plain, of "ci_score c"] dec_eq_trans by (auto simp: dimension_of_def)
  then show "same_criterion c a" using c a by (cases d; cases a) (simp add: same_criterion_def dimension_of_def)
qed

lemma list_all2_zip_left:
  assumes "list_all2 P xs ys" "(x, m) \<in> set (zip xs ms)"
  shows "\<exists>y. P x y \<and> (y, m) \<in> set (zip ys ms)"
proof -
  from assms(2) obtain i where "i < length xs" "i < length ms" "x = xs ! i" "m = ms ! i" by (auto simp: set_zip)
  moreover have "length xs = length ys" "P (xs ! i) (ys ! i)"
    using assms(1) \<open>i < length xs\<close> by (auto simp: list_all2_conv_all_nth)
  ultimately have "P x (ys ! i)" "(ys ! i, m) \<in> set (zip ys ms)" by (auto simp: set_zip)
  then show ?thesis by blast
qed


section \<open>An untouched result\<close>

text \<open>The draft a teacher's form starts from: the model's result, with the evidence listed apart.\<close>

definition untouched_evidence :: "attempt_view \<Rightarrow> evidence_input list" where
  "untouched_evidence a =
     concat (map (\<lambda>d. map (\<lambda>e. \<lparr>ei_target_type = TargetDimension, ei_target_id = dr_dimension_id d,
       ei_block_id = ev_block_id e, ei_quote = ev_quote e\<rparr>) (dr_evidence d)) (av_dimensions a)) @
     concat (map (\<lambda>x. map (\<lambda>e. \<lparr>ei_target_type = TargetDeduction, ei_target_id = xr_deduction_id x,
       ei_block_id = ev_block_id e, ei_quote = ev_quote e\<rparr>) (xr_evidence x)) (av_deductions a))"

definition untouched_criterion :: "dimension_result \<Rightarrow> criterion_input" where
  "untouched_criterion d = \<lparr>ci_dimension_id = dr_dimension_id d, ci_score = dr_score d, ci_reason = dr_reason d,
     ci_revision_suggestions = dr_revision_suggestions d\<rparr>"

definition untouched_deduction :: "deduction_result \<Rightarrow> deduction_input" where
  "untouched_deduction x = \<lparr>di_deduction_id = xr_deduction_id x, di_applied = xr_applied x, di_reason = xr_reason x\<rparr>"

definition untouched :: "attempt_view \<Rightarrow> review_draft_input" where
  "untouched a = \<lparr>dri_attempt_id = av_id a, dri_criteria = map untouched_criterion (av_dimensions a),
     dri_deductions = map untouched_deduction (av_deductions a), dri_evidence = untouched_evidence a,
     dri_overall_feedback = av_overall_feedback a, dri_change_reason = None\<rparr>"

text \<open>Texts without surrounding white space and scores without a positive exponent.\<close>

definition tidy :: "pystr \<Rightarrow> bool" where
  "tidy s \<longleftrightarrow> py_strip s = s"

definition tidy_attempt :: "unicode_db \<Rightarrow> attempt_view \<Rightarrow> bool" where
  "tidy_attempt U a \<longleftrightarrow> result_ok U \<lparr>gr_dimensions = av_dimensions a, gr_deductions = av_deductions a,
       gr_overall_feedback = av_overall_feedback a\<rparr> \<and>
     list_all (\<lambda>d. dimension_ok U d \<and> dec_exp (dr_score d) \<le> 0 \<and> tidy (dr_reason d) \<and>
       list_all tidy (dr_revision_suggestions d)) (av_dimensions a) \<and>
     list_all (\<lambda>x. deduction_ok U x \<and> tidy (xr_reason x)) (av_deductions a) \<and>
     tidy (av_overall_feedback a) \<and> length (untouched_evidence a) \<le> 10000"

lemma narrative_tidy: "text_ok U hi s \<Longrightarrow> tidy s \<Longrightarrow> narrative_field U hi s = Some s"
  by (simp add: narrative_field_def text_ok_def narrative_ok_def tidy_def)

lemma suggestions_tidy:
  assumes "length_between 1 50 ss" "list_all (text_ok U hi) ss" "list_all tidy ss"
  shows "validate_suggestions U ss = Some ss"
proof -
  have "map py_strip ss = ss" using assms(3) by (auto simp: list_all_iff tidy_def intro: map_idI)
  then show ?thesis using assms by (auto simp: validate_suggestions_def Let_def list_all_iff text_ok_def narrative_ok_def tidy_def)
qed

lemma criterion_tidy:
  assumes "dimension_ok U d" "tidy (dr_reason d)" "list_all tidy (dr_revision_suggestions d)"
  shows "validate_criterion U (untouched_criterion d) = Some (untouched_criterion d)"
  using assms narrative_tidy [of U 10000 "dr_reason d"] suggestions_tidy [of "dr_revision_suggestions d" U 4000]
  by (simp add: validate_criterion_def untouched_criterion_def dimension_ok_def)

lemma deduction_tidy:
  assumes "deduction_ok U x" "tidy (xr_reason x)"
  shows "validate_deduction_input U (untouched_deduction x) = Some (untouched_deduction x)"
  using assms narrative_tidy [of U 10000 "xr_reason x"]
  by (simp add: validate_deduction_input_def untouched_deduction_def deduction_ok_def)

lemma untouched_evidence_mem:
  "e \<in> set (untouched_evidence a) \<longleftrightarrow>
     (\<exists>d \<in> set (av_dimensions a). \<exists>q \<in> set (dr_evidence d). e = \<lparr>ei_target_type = TargetDimension,
        ei_target_id = dr_dimension_id d, ei_block_id = ev_block_id q, ei_quote = ev_quote q\<rparr>) \<or>
     (\<exists>x \<in> set (av_deductions a). \<exists>q \<in> set (xr_evidence x). e = \<lparr>ei_target_type = TargetDeduction,
        ei_target_id = xr_deduction_id x, ei_block_id = ev_block_id q, ei_quote = ev_quote q\<rparr>)"
  by (auto simp: untouched_evidence_def)

lemma map_opt_same: "(\<And>x. x \<in> set xs \<Longrightarrow> f (g x) = Some (g x)) \<Longrightarrow> map_opt f (map g xs) = Some (map g xs)"
  by (induction xs) auto

lemma mapR_same: "(\<And>x. x \<in> set xs \<Longrightarrow> f (g x) = Inr (h x)) \<Longrightarrow> mapR f (map g xs) = Inr (map h xs)"
  by (induction xs) auto

lemma untouched_valid:
  assumes "tidy_attempt U a" "distinct (map dr_dimension_id (av_dimensions a))" "distinct (map xr_deduction_id (av_deductions a))"
  shows "validate_draft_input U (untouched a) = Some (untouched a)"
proof -
  note t = assms(1) [unfolded tidy_attempt_def list_all_iff result_ok_def, simplified]
  have c: "map_opt (validate_criterion U) (map untouched_criterion (av_dimensions a)) = Some (map untouched_criterion (av_dimensions a))"
    by (rule map_opt_same, rule criterion_tidy) (use t in \<open>auto simp: list_all_iff\<close>)
  have d: "map_opt (validate_deduction_input U) (map untouched_deduction (av_deductions a)) = Some (map untouched_deduction (av_deductions a))"
    by (rule map_opt_same, rule deduction_tidy) (use t in auto)
  have e: "list_all validate_evidence_input (untouched_evidence a)"
    unfolding list_all_iff
  proof
    fix e assume "e \<in> set (untouched_evidence a)"
    then show "validate_evidence_input e"
      unfolding untouched_evidence_mem using t
      by (auto simp: validate_evidence_input_def dimension_ok_def deduction_ok_def quote_ok_def list_all_iff)
  qed
  have f: "narrative_field U 20000 (av_overall_feedback a) = Some (av_overall_feedback a)"
    by (rule narrative_tidy) (use t in auto)
  have ids: "distinct (map ci_dimension_id (map untouched_criterion (av_dimensions a)))"
    "distinct (map di_deduction_id (map untouched_deduction (av_deductions a)))"
    using assms(2,3) by (simp_all add: comp_def untouched_criterion_def untouched_deduction_def)
  have len: "length_between 1 100 (map untouched_criterion (av_dimensions a))" "length (av_deductions a) \<le> 100"
    "length (untouched_evidence a) \<le> 10000"
    using t by (auto simp: length_between_def)
  show ?thesis
    by (simp del: One_nat_def add: validate_draft_input_def untouched_def c d e f len normalize_change_reason_def Let_def ids [simplified])
qed

text \<open>Grouping the listed evidence gives each item's own quotations back.\<close>

lemma grouped_append [simp]: "grouped (es @ fs) t i = grouped es t i @ grouped fs t i"
  by (simp add: grouped_def)

lemma grouped_none: "(\<And>e. e \<in> set es \<Longrightarrow> fst e \<noteq> (t, i)) \<Longrightarrow> grouped es t i = []"
  by (auto simp: grouped_def filter_empty_conv)

lemma grouped_concat:
  assumes "distinct (map f xs)" "x \<in> set xs"
  shows "grouped (concat (map (\<lambda>x. map (Pair (t, f x)) (g x)) xs)) t (f x) = g x"
  using assms
proof (induction xs)
  case (Cons y ys)
  have one: "grouped (map (Pair (t, i)) qs) t j = (if i = j then qs else [])" for i j qs
    by (induction qs) (auto simp: grouped_def)
  show ?case
  proof (cases "x = y")
    case True
    have "grouped (concat (map (\<lambda>x. map (Pair (t, f x)) (g x)) ys)) t (f y) = []"
      by (rule grouped_none) (use Cons.prems(1) in force)
    then show ?thesis using True by (simp add: one)
  next
    case False
    then have x: "x \<in> set ys" using Cons.prems(2) by simp
    then have "f y \<noteq> f x" using Cons.prems(1) by auto
    then show ?thesis using Cons.IH x Cons.prems(1) by (simp add: one)
  qed
qed simp

definition listed :: "attempt_view \<Rightarrow> ((target_type \<times> pystr) \<times> evidence_quote) list" where
  "listed a = concat (map (\<lambda>d. map (Pair (TargetDimension, dr_dimension_id d)) (dr_evidence d)) (av_dimensions a)) @
     concat (map (\<lambda>x. map (Pair (TargetDeduction, xr_deduction_id x)) (xr_evidence x)) (av_deductions a))"

lemma mapR_map_Inr: "(\<And>x. x \<in> set xs \<Longrightarrow> f x = Inr (h x)) \<Longrightarrow> mapR f xs = Inr (map h xs)"
  by (induction xs) auto

lemma Pair_quote: "map (Pair k) qs = map (\<lambda>q. (k, \<lparr>ev_block_id = ev_block_id q, ev_quote = ev_quote q\<rparr>)) qs"
  by simp

lemma untouched_targets: "mapR (check_target (untouched a)) (untouched_evidence a) = Inr (listed a)"
proof -
  let ?h = "\<lambda>e. ((ei_target_type e, ei_target_id e), \<lparr>ev_block_id = ei_block_id e, ev_quote = ei_quote e\<rparr>)"
  have "check_target (untouched a) e = Inr (?h e)" if "e \<in> set (untouched_evidence a)" for e
    using that unfolding untouched_evidence_mem check_target_Inr
    by (auto simp: untouched_def untouched_criterion_def untouched_deduction_def)
  then have "mapR (check_target (untouched a)) (untouched_evidence a) = Inr (map ?h (untouched_evidence a))"
    by (rule mapR_map_Inr)
  also have "map ?h (untouched_evidence a) = listed a"
    by (simp add: untouched_evidence_def listed_def map_concat comp_def Pair_quote)
  finally show ?thesis .
qed

lemma untouched_result:
  assumes U: "ascii_digits_ok U" and t: "tidy_attempt U a"
    and "distinct (map dr_dimension_id (av_dimensions a))" "distinct (map xr_deduction_id (av_deductions a))"
  shows "review_result U (untouched a) = Inr \<lparr>gr_dimensions = av_dimensions a, gr_deductions = av_deductions a,
    gr_overall_feedback = av_overall_feedback a\<rparr>"
proof -
  note t = t [unfolded tidy_attempt_def list_all_iff]
  have d: "make_dimension U (listed a) (untouched_criterion d) = Inr d" if d: "d \<in> set (av_dimensions a)" for d
  proof -
    have "grouped (listed a) TargetDimension (dr_dimension_id d) = dr_evidence d"
      unfolding listed_def grouped_append using grouped_concat [OF assms(3) d, where g = dr_evidence]
      by (simp, intro grouped_none) auto
    moreover have "plain_decimal (dr_score d) = dr_score d" "dimension_ok U d" using t d by (auto simp: plain_decimal_def)
    ultimately show ?thesis
      unfolding make_dimension_def by (simp add: model_decimal_format [OF U] untouched_criterion_def dimension_ok_def guard_opt_def)
  qed
  have x: "make_deduction U (listed a) (untouched_deduction x) = Inr x" if x: "x \<in> set (av_deductions a)" for x
  proof -
    have "grouped (listed a) TargetDeduction (xr_deduction_id x) = xr_evidence x"
      unfolding listed_def grouped_append using grouped_concat [OF assms(4) x, where g = xr_evidence]
      by (simp, intro grouped_none) auto
    moreover have "deduction_ok U x" using t x by auto
    ultimately show ?thesis unfolding make_deduction_def by (cases x) (simp add: untouched_deduction_def Let_def)
  qed
  have "mapR (make_dimension U (listed a)) (map untouched_criterion (av_dimensions a)) = Inr (map id (av_dimensions a))"
    "mapR (make_deduction U (listed a)) (map untouched_deduction (av_deductions a)) = Inr (map id (av_deductions a))"
    by (rule mapR_same; simp add: d x)+
  then show ?thesis using untouched_targets [of a] t by (simp add: review_result_def untouched_def)
qed

text \<open>Validated results can always be encoded.\<close>

lemma encodable_parts [simp]:
  "encodable (replicate k 48)" "encodable (take k (show_nat n))" "encodable (drop k (show_nat n))"
  by (auto intro!: encodable_digits simp: is_digit_def set_take_digits [unfolded is_digit_def])

lemma encodable_format [simp]: "encodable (format_f d)"
  by (auto simp: format_f_def Let_def)

lemma encodable_rstrip_char: "encodable s \<Longrightarrow> encodable (py_rstrip_char c s)"
  by (auto simp: py_rstrip_char_def encodable_def dest!: set_dropWhileD)

lemma encodable_canonical [simp]: "encodable (canonical_decimal d)"
  using encodable_format [of d] encodable_rstrip_char by (auto simp: canonical_decimal_def Let_def)

lemma encodable_identifier: "is_identifier s \<Longrightarrow> encodable s"
  by (auto simp: is_identifier_def encodable_def is_lower_def is_digit_def split: list.splits)

lemma encodable_block_id: "is_block_id s \<Longrightarrow> encodable s"
  by (cases s) (auto simp: is_block_id_def encodable_def is_digit_def)

lemma result_encodable:
  assumes "result_ok U r" "list_all (dimension_ok U) (gr_dimensions r)" "list_all (deduction_ok U) (gr_deductions r)"
  shows "json_encodable (grade_result_json r)"
proof -
  have q: "json_encodable (quote_json e)" if "quote_ok e" for e
    using that by (simp add: quote_json_def quote_ok_def encodable_block_id)
  have "json_encodable (dimension_result_json d)" if "dimension_ok U d" for d
    using that q by (auto simp: dimension_result_json_def dimension_ok_def list_all_iff jdec_def text_ok_def encodable_identifier)
  moreover have "json_encodable (deduction_result_json x)" if "deduction_ok U x" for x
    using that q by (auto simp: deduction_result_json_def deduction_ok_def list_all_iff text_ok_def encodable_identifier)
  ultimately show ?thesis
    using assms by (auto simp: grade_result_json_def list_all_iff result_ok_def text_ok_def result_schema_version_def)
qed

text \<open>
  A model's result that the validator accepted and whose texts carry no surrounding white space
  can be confirmed as it is. The form's draft, which repeats it with its evidence listed apart, passes
  the request model unchanged and passes the service without a change reason; the stored totals are
  those the validator computed for the model's answer.
\<close>

theorem untouched_review_accepted:
  assumes "ascii_digits_ok U" "tidy_attempt U (rt_attempt t)" "rt_item_status t = ItemNeedsReview"
    and "target_request t d = Some g"
    and "check_grade_result \<lparr>gr_dimensions = av_dimensions (rt_attempt t), gr_deductions = av_deductions (rt_attempt t),
      gr_overall_feedback = av_overall_feedback (rt_attempt t)\<rparr> g = Inr v"
    and "distinct (map ded_id (rub_deductions (rt_rubric t)))"
  shows "validate_draft_input U (untouched (rt_attempt t)) = Some (untouched (rt_attempt t)) \<and>
    validate_payload U True t d (untouched (rt_attempt t)) = Inr (draft_data (untouched (rt_attempt t)) v)"
proof -
  let ?a = "rt_attempt t"
  let ?r = "\<lparr>gr_dimensions = av_dimensions ?a, gr_deductions = av_deductions ?a, gr_overall_feedback = av_overall_feedback ?a\<rparr>"
  have dist: "distinct (map dr_dimension_id (av_dimensions ?a))" "distinct (map xr_deduction_id (av_deductions ?a))"
    using checked_parts(4,7) [OF assms(5)] assms(6) target_request_parts [OF assms(4)] by auto
  have ok: "result_ok U ?r" using assms(2) by (simp add: tidy_attempt_def)
  then have orig: "original_result U ?a = Inr ?r" by (simp add: original_result_def)
  have "json_encodable (grade_result_json ?r)"
    by (rule result_encodable [OF ok]) (use assms(2) in \<open>auto simp: tidy_attempt_def list_all_iff\<close>)
  then have same: "json_differs (grade_result_json ?r) (grade_result_json ?r) = Inr False"
    using canonical_json_encodable by (fastforce simp: json_differs_def)
  have "dri_attempt_id (untouched ?a) = av_id ?a" by (simp add: untouched_def)
  then have "validate_payload U True t d (untouched ?a) = Inr (draft_data (untouched ?a) v)"
    using untouched_result [OF assms(1,2) dist] assms(3-5) orig same by (simp add: validate_payload_def)
  then show ?thesis using untouched_valid [OF assms(2) dist] by simp
qed

section \<open>An example\<close>

definition example_dimension_result :: dimension_result where
  "example_dimension_result = \<lparr>dr_dimension_id = ustr ''a'', dr_score = Dec False 70 (- 1), dr_reason = ustr ''clear'',
     dr_evidence = [\<lparr>ev_block_id = block_name 1, ev_quote = ustr ''text''\<rparr>], dr_revision_suggestions = [ustr ''shorten'']\<rparr>"

definition example_attempt :: attempt_view where
  "example_attempt = \<lparr>av_id = 9, av_attempt_number = 1, av_scoring_round = 1, av_model = ustr ''m'',
     av_subtotal = Dec False 70 (- 1), av_deduction_total = dec_zero, av_total_score = Dec False 70 (- 1),
     av_dimensions = [example_dimension_result],
     av_deductions = [\<lparr>xr_deduction_id = ustr ''b'', xr_applied = False, xr_reason = ustr ''fine'', xr_evidence = []\<rparr>],
     av_overall_feedback = ustr ''good''\<rparr>"

definition example_target :: review_target where
  "example_target = \<lparr>rt_owner_id = 1, rt_job_id = 2, rt_item_id = 3, rt_item_status = ItemNeedsReview,
     rt_assignment_id = 1, rt_assignment_title = ustr ''Essay'', rt_assignment_instructions = ustr ''Write'',
     rt_rubric_version_id = 2, rt_rubric_version = 1, rt_rubric = example_rubric, rt_submission_id = 3,
     rt_submission_status = SubReady, rt_extracted_object_key = Some (DocumentBlocksKey 1 1 3),
     rt_attempt = example_attempt, rt_draft = None\<rparr>"

definition example_raise :: review_draft_input where
  "example_raise = (untouched example_attempt)\<lparr>dri_criteria := [\<lparr>ci_dimension_id = ustr ''a'', ci_score = dec_of_int 9,
     ci_reason = ustr ''better'', ci_revision_suggestions = [ustr ''shorten'']\<rparr>], dri_change_reason := Some (ustr ''reread'')\<rparr>"

lemma example_raised:
  "case validate_payload ascii_db True example_target (greq_document example_request) example_raise of
     Inl _ \<Rightarrow> False | Inr data \<Rightarrow> dec_units (rdd_final_score data) = Some 90000"
  by code_simp


lemma example_checked:
  "case target_request example_target (greq_document example_request) of None \<Rightarrow> False
   | Some g \<Rightarrow> (case check_grade_result \<lparr>gr_dimensions = av_dimensions example_attempt,
       gr_deductions = av_deductions example_attempt, gr_overall_feedback = av_overall_feedback example_attempt\<rparr> g of
         Inl _ \<Rightarrow> False | Inr v \<Rightarrow> dec_units (vr_total_score v) = Some 70000)"
  by code_simp

theorem untouched_review_accepted_witness:
  "\<exists>data. validate_payload ascii_db True example_target (greq_document example_request) (untouched example_attempt) = Inr data \<and>
     dec_units (rdd_final_score data) = Some 70000"
proof -
  obtain g v where g: "target_request example_target (greq_document example_request) = Some g"
    and v: "check_grade_result \<lparr>gr_dimensions = av_dimensions example_attempt, gr_deductions = av_deductions example_attempt,
      gr_overall_feedback = av_overall_feedback example_attempt\<rparr> g = Inr v" "dec_units (vr_total_score v) = Some 70000"
    using example_checked by (auto split: option.splits sum.splits)
  have a: "rt_attempt example_target = example_attempt" "rt_item_status example_target = ItemNeedsReview"
    by (simp_all add: example_target_def)
  have t: "tidy_attempt ascii_db (rt_attempt example_target)" "distinct (map ded_id (rub_deductions (rt_rubric example_target)))"
    by code_simp+
  show ?thesis
    using untouched_review_accepted [OF ascii_db_digits t(1) a(2) g, unfolded a(1), OF v(1) t(2)] v(2) by auto
qed

end
