(* ===== verification/Review_Bridge.thy ===== *)
theory Review_Bridge
  imports Review_Contract Review_Repo
begin

text \<open>
  The two implementations of the review contract agree: \<open>_validate_payload\<close> in Python and
  \<open>validate_teacher_review_payload\<close> in SQL. The service computes with the 28 digit decimal context,
  the database exactly; on validated scores both give the same totals.
\<close>

section \<open>Exact numbers in units\<close>

lemma num_add_units:
  assumes "dec_units a = Some x" "dec_units b = Some y"
  shows "dec_units (num_add a b) = Some (x + y)"
proof -
  let ?e = "min (dec_exp a) (dec_exp b)"
  define r where "r = dec_at ?e a + dec_at ?e b"
  define d where "d = Dec (r < 0) (nat \<bar>r\<bar>) ?e"
  have i: "dec_int d = r" by (auto simp: d_def dec_int_def)
  have de: "dec_exp d = ?e" by (simp only: d_def decimal.sel)
  have "dec_at (dec_floor a b) d = r * 10 ^ nat (?e - dec_floor a b)" by (simp only: dec_at_def de i)
  also have "\<dots> = dec_at (dec_floor a b) a + dec_at (dec_floor a b) b"
    by (simp only: dec_at_min_floor r_def distrib_right)
  also have "\<dots> = (x + y) * 10 ^ nat (-4 - dec_floor a b)"
    using dec_at_floor_units(1) [of a x b] dec_at_floor_units(2) [of b y a] assms by (simp only: distrib_right)
  finally have "dec_units d = Some (x + y)"
    using dec_units_iff [of "dec_floor a b" d "x + y"] dec_floor_le(1,4) [of a b] de by metis
  then show ?thesis by (simp only: num_add_def Let_def d_def r_def)
qed

lemma num_sum_units:
  assumes "\<forall>d \<in> set ds. dec_units (f d) = Some (uval (f d))"
  shows "dec_units (num_sum (map f ds)) = Some (sum_list (map (uval \<circ> f) ds))"
proof -
  have "dec_units (foldl num_add a (map f ds)) = Some (s + sum_list (map (uval \<circ> f) ds))" if "dec_units a = Some s" for a s
    using assms that
  proof (induction ds arbitrary: a s)
    case (Cons d ds)
    have "dec_units (num_add a (f d)) = Some (s + uval (f d))" using num_add_units Cons.prems by simp
    from Cons.IH [OF _ this] show ?case using Cons.prems(1) by (simp add: add.assoc)
  qed simp
  then show ?thesis by (simp add: num_sum_def)
qed

lemma num_sub_units: "dec_units a = Some x \<Longrightarrow> dec_units b = Some y \<Longrightarrow> dec_units (num_sub a b) = Some (x - y)"
  using num_add_units [of a x "dec_minus b" "- y"] by (simp add: num_sub_def dec_units_minus)

lemma num_mod_zero_units:
  assumes "dec_units a = Some x" "dec_units b = Some y" "y \<noteq> 0" "y dvd x"
  shows "num_mod_zero a b = Inr True"
proof -
  let ?e = "min (dec_exp a) (dec_exp b)"
  let ?p = "10 ^ nat (?e - dec_floor a b) :: int" and ?q = "10 ^ nat (-4 - dec_floor a b) :: int"
  have u: "dec_at ?e a * ?p = x * ?q" and v: "dec_at ?e b * ?p = y * ?q"
    using dec_at_min_floor [of a b] dec_at_floor_units(1) [of a x b] dec_at_floor_units(2) [of b y a] assms(1,2) by metis+
  have "y * ?q dvd x * ?q" using assms(4) by (rule mult_dvd_mono) simp
  then have "dec_at ?e b * ?p dvd dec_at ?e a * ?p" by (simp only: u v)
  then have "dec_at ?e b dvd dec_at ?e a" by simp
  moreover have "dec_at ?e b \<noteq> 0" using v assms(3) by auto
  ultimately show ?thesis by (simp add: num_mod_zero_def Let_def)
qed

section \<open>Texts\<close>

lemma space_strip: "blank s \<Longrightarrow> py_strip s = []"
proof -
  assume b: "blank s"
  have "py_isspace 32" by (simp add: py_isspace_def)
  then have "py_lstrip s = []" using b by (auto simp: py_lstrip_def blank_def)
  then show ?thesis by (simp add: py_strip_def py_rstrip_def)
qed

lemma text_not_blank: "text_ok U hi s \<Longrightarrow> \<not> blank s"
  using space_strip by (auto simp: text_ok_def narrative_ok_def)

lemma quote_not_blank: "quote_ok e \<Longrightarrow> \<not> blank (ev_quote e)"
  using space_strip by (auto simp: quote_ok_def)

lemma made_dimension_texts:
  "make_dimension U es c = Inr d \<Longrightarrow> \<not> blank (ci_reason c) \<and> ci_revision_suggestions c \<noteq> [] \<and>
     (\<forall>e \<in> set (grouped es TargetDimension (ci_dimension_id c)). quote_ok e)"
  by (auto simp: make_dimension_def Let_def dimension_ok_def length_between_def list_all_iff dest!: text_not_blank
      split: option.splits if_splits)

lemma made_deduction_texts:
  "make_deduction U es x = Inr y \<Longrightarrow> \<not> blank (di_reason x) \<and>
     (\<forall>e \<in> set (grouped es TargetDeduction (di_deduction_id x)). quote_ok e)"
  by (auto simp: make_deduction_def Let_def deduction_ok_def list_all_iff dest!: text_not_blank split: if_splits)

lemma mapR_mem: "mapR f xs = Inr ys \<Longrightarrow> x \<in> set xs \<Longrightarrow> \<exists>y. f x = Inr y"
  by (auto simp: mapR_Inr_iff dest: list_all2_pick)

lemma reviewed_texts:
  assumes "review_result U p = Inr r"
  shows "\<forall>c \<in> set (dri_criteria p). \<not> blank (ci_reason c) \<and> ci_revision_suggestions c \<noteq> []"
    "\<forall>x \<in> set (dri_deductions p). \<not> blank (di_reason x)"
    "\<forall>e \<in> set (dri_evidence p). is_block_id (ei_block_id e) \<and> \<not> blank (ei_quote e)"
    "\<not> blank (dri_overall_feedback p)"
proof -
  from assms obtain es dims deds where
    es: "mapR (check_target p) (dri_evidence p) = Inr es"
    and dims: "mapR (make_dimension U es) (dri_criteria p) = Inr dims"
    and deds: "mapR (make_deduction U es) (dri_deductions p) = Inr deds"
    and ok: "result_ok U \<lparr>gr_dimensions = dims, gr_deductions = deds, gr_overall_feedback = dri_overall_feedback p\<rparr>"
    by (auto simp: review_result_def Let_def split: if_splits)
  show "\<forall>c \<in> set (dri_criteria p). \<not> blank (ci_reason c) \<and> ci_revision_suggestions c \<noteq> []"
    using mapR_mem [OF dims] made_dimension_texts by blast
  show "\<forall>x \<in> set (dri_deductions p). \<not> blank (di_reason x)" using mapR_mem [OF deds] made_deduction_texts by blast
  show "\<not> blank (dri_overall_feedback p)" using ok text_not_blank by (auto simp: result_ok_def)
  show "\<forall>e \<in> set (dri_evidence p). is_block_id (ei_block_id e) \<and> \<not> blank (ei_quote e)"
  proof
    fix e assume e: "e \<in> set (dri_evidence p)"
    let ?q = "\<lparr>ev_block_id = ei_block_id e, ev_quote = ei_quote e\<rparr>"
    obtain y where "y \<in> set es" "check_target p e = Inr y"
      using es e by (auto simp: mapR_Inr_iff dest: list_all2_pick)
    then have y: "((ei_target_type e, ei_target_id e), ?q) \<in> set es"
      and tgt: "case ei_target_type e of TargetDimension \<Rightarrow> ei_target_id e \<in> set (map ci_dimension_id (dri_criteria p))
        | TargetDeduction \<Rightarrow> ei_target_id e \<in> set (map di_deduction_id (dri_deductions p))"
      by (auto simp: check_target_Inr)
    have "quote_ok ?q"
    proof (cases "ei_target_type e")
      case TargetDimension
      then obtain c where "c \<in> set (dri_criteria p)" "ci_dimension_id c = ei_target_id e" using tgt by auto
      then show ?thesis using mapR_mem [OF dims] made_dimension_texts grouped_mem [OF y] TargetDimension by metis
    next
      case TargetDeduction
      then obtain c where "c \<in> set (dri_deductions p)" "di_deduction_id c = ei_target_id e" using tgt by auto
      then show ?thesis using mapR_mem [OF deds] made_deduction_texts grouped_mem [OF y] TargetDeduction by metis
    qed
    then show "is_block_id (ei_block_id e) \<and> \<not> blank (ei_quote e)"
      using quote_not_blank [of ?q] by (simp add: quote_ok_def)
  qed
qed

section \<open>Applied deductions by position and by id\<close>

lemma applied_by_position:
  assumes "map di_deduction_id xs = map ded_id ds" "distinct (map ded_id ds)"
  shows "map snd (filter (di_applied \<circ> fst) (zip xs ds)) =
    filter (\<lambda>d. ded_id d \<in> set (map di_deduction_id (filter di_applied xs))) ds"
proof -
  have "list_all2 (\<lambda>x d. di_deduction_id x = ded_id d) xs ds"
    using assms(1) unfolding list.rel_eq [symmetric] list.rel_map .
  then show ?thesis
    using assms(2)
  proof (induction rule: list_all2_induct)
    case (Cons x xs d ds)
    have out: "ded_id d \<notin> di_deduction_id ` set xs"
    proof -
      have "map di_deduction_id xs = map ded_id ds"
        using Cons(2) unfolding list.rel_eq [symmetric] list.rel_map .
      then have "di_deduction_id ` set xs = ded_id ` set ds" by (metis list.set_map)
      then show ?thesis using Cons.prems by simp
    qed
    have "filter (\<lambda>e. ded_id e \<in> set (map di_deduction_id (filter di_applied (x # xs)))) ds
        = filter (\<lambda>e. ded_id e \<in> set (map di_deduction_id (filter di_applied xs))) ds"
    proof (rule filter_cong [OF refl])
      fix e assume "e \<in> set ds"
      then have "ded_id e \<noteq> di_deduction_id x" using Cons.prems Cons(1) by (metis distinct.simps(2) image_eqI list.set_map list.simps(9))
      then show "(ded_id e \<in> set (map di_deduction_id (filter di_applied (x # xs)))) =
        (ded_id e \<in> set (map di_deduction_id (filter di_applied xs)))" by simp
    qed
    then show ?case using Cons out by auto
  qed simp
qed

section \<open>What the service accepts, the database accepts\<close>

lemma zip_same: "map f xs = map g ys \<Longrightarrow> (x, y) \<in> set (zip xs ys) \<Longrightarrow> f x = g y"
  by (metis in_set_zip length_map nth_map fst_conv snd_conv)

lemma mapR_unit: "(\<And>x. x \<in> set xs \<Longrightarrow> f x = Inr ()) \<Longrightarrow> mapR f xs = Inr (map (\<lambda>_. ()) xs)"
  by (induction xs) auto

lemma database_accepts:
  assumes pay: "validate_payload U ed t d p = Inr data"
    and q0: "validate_rubric cf q0 = Inr (rt_rubric t)" and U: "ascii_digits_ok U"
    and sc: "\<forall>c \<in> set (dri_criteria p). score_pattern (decimal_str (ci_score c))" and why: "dri_change_reason p \<noteq> None"
  shows "validate_review_payload (data_content data) (rt_rubric t) ds xs fb = Inr ()"
proof (rule validate_payload_parts [OF pay])
  fix r g v o' c
  assume r: "review_result U p = Inr r" and g: "target_request t d = Some g" and v: "check_grade_result r g = Inr v"
    and data: "data = draft_data p v"
  let ?q = "rt_rubric t"
  note gp = target_request_parts [OF g]
  note rp = review_result_parts [OF U r] and tx = reviewed_texts [OF r]
  note dm = dimensions_of_map [OF rp(1)] and xm = deductions_of_map [OF rp(2)]
  note cp = checked_parts [OF v]
  have vq: "validate_rubric cf q0 = Inr (greq_rubric g)" using q0 gp by simp
  note spec = validated_rubric_spec [OF q0]
  have len: "length (gr_dimensions r) = length (rub_dimensions ?q)" using cp(5) gp map_eq_imp_length_eq by metis
  have cs6: "\<forall>p \<in> set (zip (gr_dimensions r) (rub_dimensions ?q)). check_score (rub_score_step ?q) p = Inr ()"
    using cp(6) gp by simp
  note scr = accepted_scores [OF spec len dm(3) cs6]
  have cu: "dec_units (ci_score c) = Some (uval (ci_score c)) \<and> check_criterion ?q (c, m) = Inr ()"
    if cm: "(c, m) \<in> set (zip (dri_criteria p) (rub_dimensions ?q))" for c m
  proof -
    obtain y where y: "dimension_of c y" "(y, m) \<in> set (zip (gr_dimensions r) (rub_dimensions ?q))"
      using list_all2_zip_left [OF rp(1) cm] by blast
    note S = scr [OF y(2)]
    have u: "dec_units (ci_score c) = Some (uval (ci_score c))" "uval (dr_score y) = uval (ci_score c)"
      using S(1) dimension_of_units [OF y(1)] by (simp_all add: uval_def)
    have m: "m \<in> set (rub_dimensions ?q)" "c \<in> set (dri_criteria p)" using set_zip_rightD [OF cm] set_zip_leftD [OF cm] .
    have mx: "dec_units (dim_max_score m) = Some (uval (dim_max_score m))"
      "dec_units (rub_score_step ?q) = Some (uval (rub_score_step ?q))" "0 < uval (rub_score_step ?q)"
      using spec m(1) by (auto simp: rubric_spec_def score_at_def)
    have id: "ci_dimension_id c = dim_id m"
      by (rule zip_same [OF _ cm]) (use cp(5) gp dm(1) in simp)
    have "num_mod_zero (ci_score c) (rub_score_step ?q) = Inr True"
      by (rule num_mod_zero_units [OF u(1) mx(2)]) (use S(2) u(2) mx(3) in auto)
    then show ?thesis
      using u(1) S(3,4) u(2) id sc m(2) tx(1) dec_compare_units(1) [OF u(1) dec_units_zero] dec_compare_units(1) [OF mx(1) u(1)]
      by (simp add: check_criterion_def)
  qed
  have lc: "length (dri_criteria p) = length (rub_dimensions ?q)" using len dm(4) by simp
  have ids: "map di_deduction_id (dri_deductions p) = map ded_id (rub_deductions ?q)" using cp(7) gp xm(1) by simp
  then have lx: "length (dri_deductions p) = length (rub_deductions ?q)" by (rule map_eq_imp_length_eq)
  have xk: "check_deduction xd = Inr ()" if "xd \<in> set (zip (dri_deductions p) (rub_deductions ?q))" for xd
    using zip_same [OF ids, of "fst xd" "snd xd"] that tx(2) set_zip_leftD [of "fst xd" "snd xd"]
    by (simp add: check_deduction_def)
  have f: "rc_criteria (data_content data) = dri_criteria p" "rc_deductions (data_content data) = dri_deductions p"
    "rc_evidence (data_content data) = dri_evidence p" "rc_feedback (data_content data) = dri_overall_feedback p"
    "rc_change_reason (data_content data) = dri_change_reason p" "rc_subtotal (data_content data) = vr_subtotal v"
    "rc_deduction_total (data_content data) = vr_deduction_total v" "rc_final_score (data_content data) = vr_total_score v"
    by (simp_all add: data_content_def data)
  have ev: "list_all (check_evidence (data_content data)) (dri_evidence p)"
    using tx(3) rp(5) by (auto simp: list_all_iff check_evidence_def f split: target_type.splits)
  define S where "S = sum_list (map (uval \<circ> ci_score) (dri_criteria p))"
  define D where "D = sum_list (map (uval \<circ> ded_points) (filter (\<lambda>d. ded_id d \<in> applied_ids r) (rub_deductions ?q)))"
  have cs: "\<forall>c \<in> set (dri_criteria p). dec_units (ci_score c) = Some (uval (ci_score c))"
    using cu lc by (metis in_set_impl_in_set_zip1)
  have ded: "dec_units (ded_points d) = Some (uval (ded_points d)) \<and> 0 \<le> uval (ded_points d) \<and> uval (ded_points d) < 10 ^ 10"
    if "d \<in> set (rub_deductions ?q)" for d
    using spec that by (auto simp: rubric_spec_def score_at_def)
  have T: "dec_units (vr_subtotal v) = Some S" "dec_units (vr_deduction_total v) = Some D" "dec_units (vr_total_score v) = Some (max 0 (S - D))"
  proof -
    have dimu: "dec_units (dr_score d) = Some (uval (dr_score d)) \<and> 0 \<le> uval (dr_score d) \<and> uval (dr_score d) < 10 ^ 10"
      if "d \<in> set (gr_dimensions r)" for d
      using scr that len by (metis in_set_impl_in_set_zip1)
    have S': "S = sum_list (map (uval \<circ> dr_score) (gr_dimensions r))" by (simp add: S_def dm(2))
    show "dec_units (vr_subtotal v) = Some S" "dec_units (vr_deduction_total v) = Some D" "dec_units (vr_total_score v) = Some (max 0 (S - D))"
      unfolding S' D_def cp(9,10,11) conjunct1 [OF gp]
      by (rule totals_units; use dimu ded spec len in \<open>auto simp: rubric_spec_def\<close>)+
  qed
  have app: "map (ded_points \<circ> snd) (filter (di_applied \<circ> fst) (zip (dri_deductions p) (rub_deductions ?q))) =
      map ded_points (filter (\<lambda>d. ded_id d \<in> applied_ids r) (rub_deductions ?q))"
    using arg_cong [OF applied_by_position [OF ids], of "map ded_points"] spec xm(2)
    by (simp add: rubric_spec_def applied_ids_def del: set_map)
  have nS: "dec_units (num_sum (map ci_score (dri_criteria p))) = Some S" unfolding S_def by (rule num_sum_units [OF cs])
  have nD: "dec_units (num_sum (map (ded_points \<circ> snd) (filter (di_applied \<circ> fst) (zip (dri_deductions p) (rub_deductions ?q))))) = Some D"
    unfolding app D_def by (rule num_sum_units) (use ded in auto)
  note tot = dec_compare_units(3) [OF T(1) nS] dec_compare_units(3) [OF T(2) nD]
    dec_compare_units(3) [OF T(3) dec_units_max [OF dec_units_zero num_sub_units [OF nS nD]]]
  have m1: "mapR (check_criterion ?q) (zip (dri_criteria p) (rub_dimensions ?q)) =
      Inr (map (\<lambda>_. ()) (zip (dri_criteria p) (rub_dimensions ?q)))"
    by (rule mapR_unit) (use cu in auto)
  have m2: "mapR check_deduction (zip (dri_deductions p) (rub_deductions ?q)) =
      Inr (map (\<lambda>_. ()) (zip (dri_deductions p) (rub_deductions ?q)))"
    by (rule mapR_unit [OF xk])
  show ?thesis
    using tot ev tx(4) why by (simp add: validate_review_payload_def f lc lx m1 m2 Let_def)
qed



text \<open>
  Where the two disagree. The service compares a review with the model's result as numbers, the
  function compares the written scores: re-typing \<open>7.0\<close> as \<open>7.00\<close> passes the service without a change
  reason and is refused by the database.
\<close>

theorem retyped_score_refused:
  "\<exists>p data. validate_payload ascii_db True example_target (greq_document example_request) p = Inr data \<and>
     list_all2 same_criterion (dri_criteria p) (av_dimensions (rt_attempt example_target)) \<and> dri_change_reason p = None \<and>
     validate_review_payload (data_content data) (rt_rubric example_target) (av_dimensions (rt_attempt example_target))
       (av_deductions (rt_attempt example_target)) (Some (av_overall_feedback (rt_attempt example_target))) = Inl PgCheck"
proof -
  let ?p = "(untouched example_attempt)\<lparr>dri_criteria := [\<lparr>ci_dimension_id = ustr ''a'', ci_score = Dec False 700 (- 2),
     ci_reason = ustr ''clear'', ci_revision_suggestions = [ustr ''shorten'']\<rparr>]\<rparr>"
  have "case validate_payload ascii_db True example_target (greq_document example_request) ?p of Inl _ \<Rightarrow> False
    | Inr data \<Rightarrow> validate_review_payload (data_content data) (rt_rubric example_target) (av_dimensions (rt_attempt example_target))
       (av_deductions (rt_attempt example_target)) (Some (av_overall_feedback (rt_attempt example_target))) = Inl PgCheck"
    by code_simp
  moreover have "list_all2 same_criterion (dri_criteria ?p) (av_dimensions (rt_attempt example_target)) \<and> dri_change_reason ?p = None"
    by code_simp
  ultimately show ?thesis by (intro exI [of _ ?p]) (auto split: sum.splits)
qed

end
