(* ===== verification/Upload_Staging.thy ===== *)
theory Upload_Staging
  imports Domain_Models Provider_Http
begin

text \<open>
  \<open>backend/app/parsing/normalize.py\<close>: the normal form of texts and file names, and the checks that
  every uploaded file passes before anything is stored. Bytes are code points below 256. The
  stream is the list of the pieces that successive reads return; Unicode normalization, SHA-256,
  the ZIP reader and the reader of encrypted Office files are parameters.
\<close>

section \<open>Texts\<close>

text \<open>\<open>replace\<close> of the two-character line end by its second character: the first one goes.\<close>

fun join_line_ends :: "pystr \<Rightarrow> pystr" where
  "join_line_ends [] = []"
| "join_line_ends (c # s) = (if c = 13 \<and> is_prefix [10] s then join_line_ends s else c # join_line_ends s)"

definition replace_char :: "nat \<Rightarrow> nat \<Rightarrow> pystr \<Rightarrow> pystr" where
  "replace_char a b s = map (\<lambda>c. if c = a then b else c) s"

definition normalize_text :: "(pystr \<Rightarrow> pystr) \<Rightarrow> pystr \<Rightarrow> pystr" where
  "normalize_text nfc s =
     py_strip (filter (\<lambda>c. c \<noteq> 0) (replace_char 160 32 (replace_char 13 10 (join_line_ends (nfc s)))))"

lemma py_strip_subset: "set (py_strip s) \<subseteq> set s"
  unfolding py_strip_def py_rstrip_def py_lstrip_def
  by (auto dest!: set_dropWhileD)

lemma replace_char_set: "x \<in> set (replace_char a b s) \<longleftrightarrow> x = b \<and> a \<in> set s \<or> x \<in> set s \<and> x \<noteq> a"
  by (auto simp: replace_char_def)

lemma normalized_characters:
  assumes "c \<in> set (normalize_text nfc s)"
  shows "c \<noteq> 0" "c \<noteq> 13" "c \<noteq> 160"
  using assms py_strip_subset unfolding normalize_text_def by (fastforce simp: replace_char_set)+

section \<open>File names\<close>

fun split_on :: "nat \<Rightarrow> pystr \<Rightarrow> pystr list" where
  "split_on d [] = [[]]"
| "split_on d (c # s) = (if c = d then [] # split_on d s
     else (case split_on d s of x # xs \<Rightarrow> (c # x) # xs | [] \<Rightarrow> [[c]]))"

text \<open>\<open>PurePosixPath(value).name\<close>: empty parts and single dots are no parts of a path.\<close>

definition path_name :: "pystr \<Rightarrow> pystr" where
  "path_name s = (case filter (\<lambda>p. p \<noteq> [] \<and> p \<noteq> [46]) (split_on 47 s) of [] \<Rightarrow> [] | ps \<Rightarrow> last ps)"

datatype parse_failure = DocumentParseError string

definition normalize_filename :: "pystr \<Rightarrow> parse_failure + pystr" where
  "normalize_filename s = (let f = py_strip (path_name (replace_char 92 47 s)) in
     if f = [] \<or> f = [46] \<or> f = [46, 46] \<or> 255 < length f then Inl (DocumentParseError ''filename_invalid'')
     else if (\<exists>c \<in> set f. c < 32 \<or> c = 127) then Inl (DocumentParseError ''filename_invalid'')
     else Inr f)"

lemma split_on_parts: "p \<in> set (split_on d s) \<Longrightarrow> d \<notin> set p"
  by (induction s arbitrary: p) (auto split: if_splits list.splits)

lemma split_on_chars: "p \<in> set (split_on d s) \<Longrightarrow> set p \<subseteq> set s"
proof (induction s arbitrary: p)
  case (Cons c s)
  then show ?case by (fastforce split: if_splits list.splits)
qed simp

lemma path_name_part: "path_name s = [] \<or> path_name s \<in> set (split_on 47 s)"
proof -
  have "last ps \<in> set (split_on 47 s)" if "filter (\<lambda>p. p \<noteq> [] \<and> p \<noteq> [46]) (split_on 47 s) = ps" "ps \<noteq> []" for ps
    using last_in_set [OF that(2)] that(1) by (metis filter_is_subset subsetD)
  then show ?thesis by (auto simp: path_name_def split: list.splits)
qed

text \<open>A stored file name names no directory, holds no control character and is not blank.\<close>

lemma normalized_filename:
  assumes "normalize_filename s = Inr f"
  shows "length_between 1 255 f" "\<not> blank f" "47 \<notin> set f" "92 \<notin> set f" "c \<in> set f \<Longrightarrow> 32 \<le> c"
proof -
  let ?n = "path_name (replace_char 92 47 s)"
  have f: "f = py_strip ?n" "f \<noteq> []" "length f \<le> 255" "\<forall>c \<in> set f. 32 \<le> c \<and> c \<noteq> 127"
    using assms by (auto simp: normalize_filename_def Let_def split: if_splits)
  show "length_between 1 255 f" using f(2,3) by (simp add: length_between_def Suc_le_eq)
  show "c \<in> set f \<Longrightarrow> 32 \<le> c" using f by blast
  have sub: "set f \<subseteq> set ?n" using f(1) py_strip_subset by blast
  show "47 \<notin> set f" using sub path_name_part [of "replace_char 92 47 s"] split_on_parts by fastforce
  have "92 \<notin> set (replace_char 92 47 s)" by (simp add: replace_char_set)
  then show "92 \<notin> set f"
    using sub path_name_part [of "replace_char 92 47 s"] split_on_chars [of ?n 47 "replace_char 92 47 s"] by fastforce
  have "\<not> py_isspace (last f)"
  proof -
    have "rev f = dropWhile py_isspace (rev (py_lstrip ?n))" using f(1) by (simp add: py_strip_def py_rstrip_def)
    moreover have "rev f \<noteq> []" using f(2) by simp
    ultimately have "\<not> py_isspace (hd (rev f))" by (metis hd_dropWhile)
    then show ?thesis by (simp add: hd_rev)
  qed
  then have "last f \<noteq> 32" by (auto simp: py_isspace_def)
  then show "\<not> blank f" using f(2) by (auto simp: blank_def)
qed

section \<open>The real type of a file\<close>

record file_env =
  fe_sha256 :: "pystr \<Rightarrow> digest"
  fe_zip_names :: "pystr \<Rightarrow> pystr list option"
  fe_encrypted :: "pystr \<Rightarrow> bool option"

definition docx_required_entries :: "pystr list" where
  "docx_required_entries = [ustr ''[Content_Types].xml'', ustr ''_rels/.rels'', ustr ''word/document.xml'']"

definition detect_media_type :: "file_env \<Rightarrow> pystr \<Rightarrow> parse_failure + media_type" where
  "detect_media_type E content = (let header = take 8 content in
     if is_prefix [37, 80, 68, 70, 45] header then Inr MediaPdf
     else if (is_prefix [80, 75, 3, 4] header \<or> is_prefix [80, 75, 5, 6] header \<or> is_prefix [80, 75, 7, 8] header) \<and>
       (case fe_zip_names E content of None \<Rightarrow> False | Some names \<Rightarrow> list_all (\<lambda>e. e \<in> set names) docx_required_entries)
     then Inr MediaDocx
     else if is_prefix [208, 207, 17, 224, 161, 177, 26, 225] header \<and> fe_encrypted E content = Some True
     then Inl (DocumentParseError ''document_encrypted'')
     else Inl (DocumentParseError ''media_type_unsupported''))"

definition media_text :: "media_type \<Rightarrow> pystr" where
  "media_text m = (case m of MediaPdf \<Rightarrow> ustr ''application/pdf''
     | MediaDocx \<Rightarrow> ustr ''application/vnd.openxmlformats-officedocument.wordprocessingml.document'')"

text \<open>
  \<open>Path(name).suffix\<close>: from the last dot, unless it is the first or the last character. Lowering
  the case only matters for the letters of the two extensions, which no other letter lowers to.
\<close>

definition suffix_of :: "pystr \<Rightarrow> pystr" where
  "suffix_of name = (let tail = rev (takeWhile (\<lambda>c. c \<noteq> 46) (rev name)) in
     if 46 \<in> set name \<and> tail \<noteq> [] \<and> length tail + 1 < length name then 46 # tail else [])"

definition validate_media_claims :: "pystr \<Rightarrow> media_type \<Rightarrow> pystr option \<Rightarrow> parse_failure + unit" where
  "validate_media_claims name actual claim =
     (if lower_ascii (suffix_of name) \<noteq> (if actual = MediaPdf then ustr ''.pdf'' else ustr ''.docx'')
      then Inl (DocumentParseError ''extension_mismatch'')
      else case claim of None \<Rightarrow> Inr ()
        | Some c \<Rightarrow> ensure (c = [] \<or> c = media_text actual \<or> c = ustr ''application/octet-stream'')
            (DocumentParseError ''media_type_mismatch''))"

section \<open>Staging\<close>

record parse_limits =
  pl_max_file_bytes :: nat
  pl_max_pdf_pages :: nat
  pl_max_characters :: nat
  pl_max_blocks :: nat
  pl_max_zip_entries :: nat
  pl_max_uncompressed_bytes :: nat
  pl_max_zip_compression_ratio :: nat

definition default_limits :: parse_limits where
  "default_limits = \<lparr>pl_max_file_bytes = 20 * 1024 * 1024, pl_max_pdf_pages = 200, pl_max_characters = 500000,
     pl_max_blocks = 50000, pl_max_zip_entries = 10000, pl_max_uncompressed_bytes = 100 * 1024 * 1024,
     pl_max_zip_compression_ratio = 200\<rparr>"

record staged_document =
  std_content :: pystr
  std_filename :: pystr
  std_media :: media_type
  std_size :: nat
  std_sha256 :: digest

text \<open>The loop over the stream: it ends at the first empty read or beyond the limit.\<close>

fun stage_chunks :: "nat \<Rightarrow> nat \<Rightarrow> pystr list \<Rightarrow> parse_failure + pystr" where
  "stage_chunks limit n [] = Inr []"
| "stage_chunks limit n (chunk # rest) =
     (if chunk = [] then Inr []
      else if limit < n + length chunk then Inl (DocumentParseError ''file_too_large'')
      else bindR (stage_chunks limit (n + length chunk) rest) (\<lambda>s. Inr (chunk @ s)))"

definition stage_upload_file ::
    "file_env \<Rightarrow> parse_limits \<Rightarrow> pystr list \<Rightarrow> pystr \<Rightarrow> pystr option \<Rightarrow> parse_failure + staged_document" where
  "stage_upload_file E L stream original claim =
     bindR (normalize_filename original) (\<lambda>name.
     bindR (stage_chunks (pl_max_file_bytes L) 0 stream) (\<lambda>content.
     if content = [] then Inl (DocumentParseError ''file_empty'')
     else bindR (detect_media_type E content) (\<lambda>media.
     bindR (validate_media_claims name media claim) (\<lambda>_.
     Inr \<lparr>std_content = content, std_filename = name, std_media = media,
          std_size = length content, std_sha256 = fe_sha256 E content\<rparr>))))"

lemma stage_chunks_size: "stage_chunks limit n cs = Inr s \<Longrightarrow> n \<le> limit \<Longrightarrow> n + length s \<le> limit"
  by (induction limit n cs arbitrary: s rule: stage_chunks.induct) (fastforce split: if_splits)+

text \<open>What is staged is the stream up to its end.\<close>

lemma stage_chunks_content:
  "stage_chunks limit n cs = Inr s \<Longrightarrow> s = concat (takeWhile (\<lambda>c. c \<noteq> []) cs)"
  by (induction limit n cs arbitrary: s rule: stage_chunks.induct) (auto split: if_splits)

lemma staged_document:
  assumes "stage_upload_file E L stream original claim = Inr d"
  shows "0 < std_size d" "std_size d \<le> pl_max_file_bytes L" "std_sha256 d = fe_sha256 E (std_content d)"
    "length_between 1 255 (std_filename d)" "\<not> blank (std_filename d)"
  using assms stage_chunks_size [of "pl_max_file_bytes L" 0 stream] normalized_filename [of original]
  by (auto simp: stage_upload_file_def split: if_splits)

text \<open>Every staging either returns a document or one of the documented codes.\<close>

definition staging_codes :: "string list" where
  "staging_codes = [''filename_invalid'', ''file_too_large'', ''file_empty'', ''document_encrypted'',
     ''media_type_unsupported'', ''extension_mismatch'', ''media_type_mismatch'']"

lemma stage_chunks_code: "stage_chunks limit n cs = Inl (DocumentParseError c) \<Longrightarrow> c = ''file_too_large''"
  by (induction limit n cs rule: stage_chunks.induct) (auto simp: bindR_Inl_iff split: if_splits)

lemma staging_failure:
  "stage_upload_file E L stream original claim = Inl (DocumentParseError c) \<Longrightarrow> c \<in> set staging_codes"
  by (auto simp: stage_upload_file_def bindR_Inl_iff normalize_filename_def Let_def detect_media_type_def
      validate_media_claims_def ensure_def staging_codes_def split: if_splits option.splits dest!: stage_chunks_code)

end
