(* ===== verification/Submission_Db.thy ===== *)
theory Submission_Db
  imports Pipeline_Db Upload_Staging
begin

text \<open>
  The table of papers: the row policies of the teacher role, the function
  \<open>paper_grading_private.transition_submission\<close> (migration 0009) and the methods of
  \<open>SqlAlchemySubmissionRepository\<close> (\<open>backend/app/submissions/repository.py\<close>), each as one
  transaction over the tables of the grading pipeline.
\<close>

section \<open>State transitions\<close>

datatype submission_exn =
    TeacherContextRequired
  | SubmissionTransitionInvalid
  | SubmissionCheckViolated
  | SubmissionUniqueViolated
  | SubmissionPolicyViolated
  | HashConflictLost

definition code_blank :: "parse_code \<Rightarrow> bool" where
  "code_blank c = (case c of ParseCode s \<Rightarrow> list_all (\<lambda>x. x = CHR '' '') s)"

text \<open>The four disjuncts of the guard, with the arguments each of them demands.\<close>

definition submission_transition ::
    "submission_status \<Rightarrow> submission_status \<Rightarrow> object_key option \<Rightarrow> parse_code option \<Rightarrow> bool" where
  "submission_transition old new key err \<longleftrightarrow>
     old = SubUploaded \<and> new = SubParsing \<and> key = None \<and> err = None \<or>
     old \<in> {SubUploaded, SubParsing} \<and> new = SubFailed \<and> key = None \<and>
       (case err of None \<Rightarrow> False | Some c \<Rightarrow> \<not> code_blank c) \<or>
     old = SubParsing \<and> new = SubReady \<and> key \<noteq> None \<and> err = None \<or>
     old = SubFailed \<and> new = SubUploaded \<and> key = None \<and> err = None"

definition moved_submission ::
    "submission_status \<Rightarrow> object_key option \<Rightarrow> parse_code option \<Rightarrow> submission_row \<Rightarrow> submission_row" where
  "moved_submission new key err u = u\<lparr>sub_status := new,
     sub_extracted_key := (if new = SubReady then key else None),
     sub_error := (if new = SubFailed then err else None)\<rparr>"

definition transition_submission ::
    "uuid \<Rightarrow> uuid \<Rightarrow> submission_status \<Rightarrow> object_key option \<Rightarrow> parse_code option \<Rightarrow> pdb \<Rightarrow>
     submission_exn + uuid option \<times> pdb" where
  "transition_submission actor target new key err s =
     (if actor \<notin> set (db_active_teachers s) then Inl TeacherContextRequired
      else case find (\<lambda>u. sub_id u = target \<and> sub_owner u = actor) (db_submissions s) of
        None \<Rightarrow> Inr (None, s)
      | Some u \<Rightarrow>
          if \<not> submission_transition (sub_status u) new key err then Inl SubmissionTransitionInvalid
          else (let u' = moved_submission new key err u in
            if \<not> check_submission u' then Inl SubmissionCheckViolated
            else Inr (Some target, s\<lparr>db_submissions := replace_row sub_id u u' (db_submissions s)\<rparr>)))"

section \<open>The repository\<close>

record submission_view =
  sv_id :: uuid
  sv_assignment :: uuid
  sv_filename :: pystr
  sv_media :: media_type
  sv_size :: int
  sv_status :: submission_status
  sv_error :: "parse_code option"
  sv_created :: time

definition to_view :: "submission_row \<Rightarrow> submission_view" where
  "to_view u = \<lparr>sv_id = sub_id u, sv_assignment = sub_assignment u, sv_filename = sub_filename u,
     sv_media = sub_media u, sv_size = sub_size u, sv_status = sub_status u, sv_error = sub_error u,
     sv_created = sub_created u\<rparr>"

text \<open>The rows a teacher sees through the policies of migration 0006.\<close>

definition visible_submissions :: "uuid \<Rightarrow> pdb \<Rightarrow> submission_row list" where
  "visible_submissions owner s =
     (if owner \<in> set (db_active_teachers s) then filter (\<lambda>u. sub_owner u = owner) (db_submissions s) else [])"

definition visible_assignments :: "uuid \<Rightarrow> pdb \<Rightarrow> assignment_row list" where
  "visible_assignments owner s =
     (if owner \<in> set (db_active_teachers s) then filter (\<lambda>a. asg_owner a = owner) (db_assignments s) else [])"

datatype submission_reservation =
    ReservedNew submission_view
  | ReservedDuplicate submission_view
  | AssignmentMissing
  | AssignmentNotReady

record reservation_request =
  rr_id :: uuid
  rr_assignment :: uuid
  rr_filename :: pystr
  rr_media :: media_type
  rr_size :: int
  rr_sha256 :: digest
  rr_source_key :: object_key

definition new_submission :: "uuid \<Rightarrow> time \<Rightarrow> reservation_request \<Rightarrow> submission_row" where
  "new_submission owner now r = \<lparr>sub_id = rr_id r, sub_owner = owner, sub_assignment = rr_assignment r,
     sub_filename = rr_filename r, sub_media = rr_media r, sub_size = rr_size r, sub_sha256 = rr_sha256 r,
     sub_source_key = rr_source_key r, sub_extracted_key = None, sub_status = SubUploaded, sub_error = None,
     sub_created = now\<rparr>"

text \<open>
  \<open>insert ... on conflict (assignment_id, content_sha256) do nothing\<close>: the constraints of the row are
  checked before the conflict is looked for, and a duplicate of any other key is an error.
\<close>

definition insert_submission :: "submission_row \<Rightarrow> pdb \<Rightarrow> submission_exn + submission_row option \<times> pdb" where
  "insert_submission u s =
     (if sub_owner u \<notin> set (db_active_teachers s) then Inl SubmissionPolicyViolated
      else if \<not> check_submission u then Inl SubmissionCheckViolated
      else if (\<exists>v \<in> set (db_submissions s). sub_assignment v = sub_assignment u \<and> sub_sha256 v = sub_sha256 u)
      then Inr (None, s)
      else if (\<exists>v \<in> set (db_submissions s). sub_id v = sub_id u \<or> sub_source_key v = sub_source_key u)
      then Inl SubmissionUniqueViolated
      else Inr (Some u, s\<lparr>db_submissions := db_submissions s @ [u]\<rparr>))"

definition reserve_submission ::
    "uuid \<Rightarrow> time \<Rightarrow> reservation_request \<Rightarrow> pdb \<Rightarrow> submission_exn + submission_reservation \<times> pdb" where
  "reserve_submission owner now r s =
     (case find (\<lambda>a. asg_id a = rr_assignment r) (visible_assignments owner s) of
        None \<Rightarrow> Inr (AssignmentMissing, s)
      | Some a \<Rightarrow>
          if asg_status a \<noteq> AssignmentReady then Inr (AssignmentNotReady, s)
          else bindR (insert_submission (new_submission owner now r) s) (\<lambda>(created, s').
            case created of
              Some u \<Rightarrow> Inr (ReservedNew (to_view u), s')
            | None \<Rightarrow>
                (case find (\<lambda>u. sub_assignment u = rr_assignment r \<and> sub_sha256 u = rr_sha256 r)
                        (visible_submissions owner s') of
                   None \<Rightarrow> Inl HashConflictLost
                 | Some u \<Rightarrow> Inr (ReservedDuplicate (to_view u), s'))))"

definition repo_transition ::
    "uuid \<Rightarrow> uuid \<Rightarrow> submission_status \<Rightarrow> object_key option \<Rightarrow> parse_code option \<Rightarrow> pdb \<Rightarrow>
     submission_exn + submission_view option \<times> pdb" where
  "repo_transition owner target new key err s =
     bindR (transition_submission owner target new key err s) (\<lambda>(moved, s').
     case moved of
       None \<Rightarrow> Inr (None, s')
     | Some i \<Rightarrow> Inr (map_option to_view (find (\<lambda>u. sub_id u = i) (visible_submissions owner s')), s'))"

text \<open>\<open>order_by(created_at.desc(), id.desc())\<close>.\<close>

definition list_submissions :: "uuid \<Rightarrow> uuid \<Rightarrow> pdb \<Rightarrow> submission_view list option" where
  "list_submissions owner assignment s =
     (if \<exists>a \<in> set (visible_assignments owner s). asg_id a = assignment
      then Some (map to_view (rev (sort_key (\<lambda>u. sub_created u) (sort_key (\<lambda>u. sub_id u)
             (filter (\<lambda>u. sub_assignment u = assignment) (visible_submissions owner s))))))
      else None)"

definition get_ready_source_key :: "uuid \<Rightarrow> uuid \<Rightarrow> uuid \<Rightarrow> pdb \<Rightarrow> object_key option" where
  "get_ready_source_key owner assignment target s =
     map_option (\<lambda>u. sub_source_key u) (find (\<lambda>u. sub_id u = target \<and> sub_assignment u = assignment \<and> sub_status u = SubReady)
       (visible_submissions owner s))"

section \<open>The invariant of the table\<close>

definition submissions_ok :: "pdb \<Rightarrow> bool" where
  "submissions_ok s \<longleftrightarrow>
     distinct (map sub_id (db_submissions s)) \<and>
     distinct (map sub_source_key (db_submissions s)) \<and>
     distinct (map (\<lambda>u. (sub_assignment u, sub_sha256 u)) (db_submissions s)) \<and>
     list_all check_submission (db_submissions s)"

lemma moved_fields [simp]:
  "sub_id (moved_submission n k e u) = sub_id u" "sub_owner (moved_submission n k e u) = sub_owner u"
  "sub_assignment (moved_submission n k e u) = sub_assignment u" "sub_sha256 (moved_submission n k e u) = sub_sha256 u"
  "sub_source_key (moved_submission n k e u) = sub_source_key u" "sub_status (moved_submission n k e u) = n"
  "sub_media (moved_submission n k e u) = sub_media u" "sub_filename (moved_submission n k e u) = sub_filename u"
  "sub_size (moved_submission n k e u) = sub_size u"
  by (simp_all add: moved_submission_def)

lemma submission_by_id:
  "submissions_ok s \<Longrightarrow> u \<in> set (db_submissions s) \<Longrightarrow> v \<in> set (db_submissions s) \<Longrightarrow> sub_id u = sub_id v \<Longrightarrow> u = v"
  unfolding submissions_ok_def by (blast dest: distinct_map_eqD)

text \<open>
  A transition with valid arguments succeeds exactly when the row is in a state that allows it. The
  constraints can then only fail on a foreign extracted key.
\<close>

lemma transition_row:
  assumes ok: "submissions_ok s" and u: "u \<in> set (db_submissions s)" "sub_id u = i" "sub_owner u = owner"
    and act: "owner \<in> set (db_active_teachers s)"
  shows "repo_transition owner i new key err s =
    (if \<not> submission_transition (sub_status u) new key err then Inl SubmissionTransitionInvalid
     else if \<not> check_submission (moved_submission new key err u) then Inl SubmissionCheckViolated
     else Inr (Some (to_view (moved_submission new key err u)),
       s\<lparr>db_submissions := replace_row sub_id u (moved_submission new key err u) (db_submissions s)\<rparr>))"
proof -
  let ?u' = "moved_submission new key err u"
  let ?s' = "s\<lparr>db_submissions := replace_row sub_id u ?u' (db_submissions s)\<rparr>"
  have d: "distinct (map sub_id (db_submissions s))" using ok by (simp add: submissions_ok_def)
  have f: "find (\<lambda>v. sub_id v = i \<and> sub_owner v = owner) (db_submissions s) = Some u"
    using u by (simp add: find_unique [OF d])
  have d': "distinct (map sub_id (filter (\<lambda>v. sub_owner v = owner) (db_submissions ?s')))"
    using d by (simp add: replace_row_keys distinct_map_filter)
  have m: "?u' \<in> set (filter (\<lambda>v. sub_owner v = owner) (db_submissions ?s'))"
    using u replace_row_set [OF d u(1)] by simp
  have g: "find (\<lambda>v. sub_id v = i) (visible_submissions owner ?s') = Some ?u'"
    using m u(2) act find_unique_key [OF d'] by (simp add: visible_submissions_def)
  show ?thesis
    using act f g by (simp add: repo_transition_def transition_submission_def Let_def)
qed

end
