(* ===== verification/Submission_Flow.thy ===== *)
theory Submission_Flow
  imports Submission_Db
begin

text \<open>
  \<open>SubmissionService.upload_submission\<close> (\<open>backend/app/submissions/service.py\<close>) over the tables and
  the object store. Every awaited call is a step whose behaviour the environment chooses: it works,
  or it raises, before or after its effect took place. \<open>ProcessDied\<close> is the end of the process,
  which no handler sees; \<open>UploadCancelled\<close> is \<open>asyncio.CancelledError\<close>, which \<open>except Exception\<close>
  does not catch.
\<close>

section \<open>Calls that may raise\<close>

datatype stored_blob = SourceFile pystr | BlocksFile parsed_document

record upload_world =
  uw_db :: pdb
  uw_store :: "object_key \<Rightarrow> stored_blob option"

datatype upload_exn =
    UploadCancelled
  | ProcessDied
  | StorageFailed
  | QuotaFailed string
  | ParseFailed string
  | DatabaseFailed submission_exn
  | TransitionFailed
  | UploadAssignmentMissing
  | UploadAssignmentState
  | SubmissionMissing
  | UnexpectedError

type_synonym 'a upload = "upload_world \<Rightarrow> (upload_exn + 'a) \<times> upload_world"

definition returnU :: "'a \<Rightarrow> 'a upload" where
  "returnU x w = (Inr x, w)"

definition raiseU :: "upload_exn \<Rightarrow> 'a upload" where
  "raiseU e w = (Inl e, w)"

definition bindU :: "'a upload \<Rightarrow> ('a \<Rightarrow> 'b upload) \<Rightarrow> 'b upload" where
  "bindU m f w = (case m w of (Inl e, w') \<Rightarrow> (Inl e, w') | (Inr x, w') \<Rightarrow> f x w')"

definition tryU :: "'a upload \<Rightarrow> (upload_exn \<Rightarrow> 'a upload) \<Rightarrow> 'a upload" where
  "tryU m h w = (case m w of
      (Inl e, w') \<Rightarrow> if e = ProcessDied then (Inl e, w') else h e w'
    | (Inr x, w') \<Rightarrow> (Inr x, w'))"

datatype call_result = Works | Breaks upload_exn bool

definition await :: "call_result \<Rightarrow> 'a upload \<Rightarrow> 'a upload" where
  "await c m w = (case c of Works \<Rightarrow> m w | Breaks e done_before \<Rightarrow> (Inl e, if done_before then snd (m w) else w))"

datatype upload_step =
    StepStage | StepReserve | StepReset | StepPutSource | StepFailSource | StepParsing | StepParse
  | StepFailParse | StepPutText | StepFailText | StepReady | StepDelete | StepFailCancelled

record upload_env =
  ue_call :: "upload_step \<Rightarrow> call_result"
  ue_file :: file_env
  ue_limits :: parse_limits
  ue_parse :: "staged_document \<Rightarrow> upload_exn + parsed_document"
  ue_id :: uuid
  ue_now :: time

record incoming_submission =
  in_stream :: "pystr list"
  in_filename :: pystr
  in_media :: "pystr option"

section \<open>The service\<close>

definition db_call :: "(pdb \<Rightarrow> submission_exn + 'a \<times> pdb) \<Rightarrow> 'a upload" where
  "db_call f w = (case f (uw_db w) of
      Inl x \<Rightarrow> (Inl (DatabaseFailed x), w)
    | Inr (a, s) \<Rightarrow> (Inr a, w\<lparr>uw_db := s\<rparr>))"

definition put_object :: "object_key \<Rightarrow> stored_blob \<Rightarrow> unit upload" where
  "put_object k b w = (Inr (), w\<lparr>uw_store := (uw_store w)(k := Some b)\<rparr>)"

definition delete_object :: "object_key \<Rightarrow> unit upload" where
  "delete_object k w = (Inr (), w\<lparr>uw_store := (uw_store w)(k := None)\<rparr>)"

definition transition_or_raise ::
    "upload_env \<Rightarrow> upload_step \<Rightarrow> uuid \<Rightarrow> uuid \<Rightarrow> submission_status \<Rightarrow> object_key option \<Rightarrow>
     parse_code option \<Rightarrow> submission_view upload" where
  "transition_or_raise E st owner i new key err =
     bindU (await (ue_call E st) (db_call (repo_transition owner i new key err)))
       (\<lambda>v. case v of None \<Rightarrow> raiseU TransitionFailed | Some x \<Rightarrow> returnU x)"

definition mark_failed :: "upload_env \<Rightarrow> upload_step \<Rightarrow> uuid \<Rightarrow> uuid \<Rightarrow> string \<Rightarrow> unit upload" where
  "mark_failed E st owner i code =
     bindU (transition_or_raise E st owner i SubFailed None (Some (ParseCode code))) (\<lambda>_. returnU ())"

text \<open>
  \<open>_put_extracted_object\<close> waits for the remote write when it is cancelled, so the step is over when
  the cancellation is raised. \<open>_delete_after_failure\<close> keeps the original exception unless the
  deletion itself is cancelled.
\<close>

definition put_extracted_object :: "upload_env \<Rightarrow> object_key \<Rightarrow> parsed_document \<Rightarrow> unit upload" where
  "put_extracted_object E key doc = await (ue_call E StepPutText) (put_object key (BlocksFile doc))"

definition delete_after_failure :: "upload_env \<Rightarrow> object_key \<Rightarrow> upload_exn \<Rightarrow> unit upload" where
  "delete_after_failure E key e =
     tryU (await (ue_call E StepDelete) (delete_object key))
       (\<lambda>x. if x = UploadCancelled then raiseU x else raiseU e)"

definition mark_cancelled :: "upload_env \<Rightarrow> uuid \<Rightarrow> uuid \<Rightarrow> unit upload" where
  "mark_cancelled E owner i =
     tryU (mark_failed E StepFailCancelled owner i ''processing_cancelled'')
       (\<lambda>x. raiseU UploadCancelled)"

text \<open>\<open>SubmissionObjectKeys\<close> are the two templates of \<open>build_submission_object_keys\<close>.\<close>

definition source_key :: "uuid \<Rightarrow> uuid \<Rightarrow> uuid \<Rightarrow> media_type \<Rightarrow> object_key" where
  "source_key owner assignment i media = SourceKey owner assignment i media"

definition extracted_key :: "uuid \<Rightarrow> uuid \<Rightarrow> uuid \<Rightarrow> object_key" where
  "extracted_key owner assignment i = DocumentBlocksKey owner assignment i"

definition resolve_reservation ::
    "upload_env \<Rightarrow> uuid \<Rightarrow> submission_reservation \<Rightarrow> (submission_view \<times> bool) upload" where
  "resolve_reservation E owner r = (case r of
      AssignmentMissing \<Rightarrow> raiseU UploadAssignmentMissing
    | AssignmentNotReady \<Rightarrow> raiseU UploadAssignmentState
    | ReservedNew v \<Rightarrow> returnU (v, False)
    | ReservedDuplicate v \<Rightarrow>
        if sv_status v \<noteq> SubFailed then returnU (v, True)
        else bindU (transition_or_raise E StepReset owner (sv_id v) SubUploaded None None)
               (\<lambda>x. returnU (x, False)))"

text \<open>The two writes to the store with their handlers, and the parser.\<close>

definition storing :: "upload_env \<Rightarrow> upload_step \<Rightarrow> uuid \<Rightarrow> uuid \<Rightarrow> string \<Rightarrow> unit upload \<Rightarrow> unit upload" where
  "storing E st owner i code m =
     tryU m (\<lambda>e. case e of
         QuotaFailed c \<Rightarrow> bindU (mark_failed E st owner i c) (\<lambda>_. raiseU e)
       | StorageFailed \<Rightarrow> bindU (mark_failed E st owner i code) (\<lambda>_. raiseU e)
       | _ \<Rightarrow> raiseU e)"

definition store_source :: "upload_env \<Rightarrow> uuid \<Rightarrow> uuid \<Rightarrow> object_key \<Rightarrow> staged_document \<Rightarrow> unit upload" where
  "store_source E owner i key d =
     storing E StepFailSource owner i ''storage_source_failed''
       (await (ue_call E StepPutSource) (put_object key (SourceFile (std_content d))))"

definition parse_staged :: "upload_env \<Rightarrow> uuid \<Rightarrow> uuid \<Rightarrow> staged_document \<Rightarrow> parsed_document upload" where
  "parse_staged E owner i d =
     tryU (await (ue_call E StepParse) (case ue_parse E d of Inl e \<Rightarrow> raiseU e | Inr p \<Rightarrow> returnU p))
       (\<lambda>e. case e of
          ParseFailed c \<Rightarrow> bindU (mark_failed E StepFailParse owner i c) (\<lambda>_. raiseU e)
        | _ \<Rightarrow> raiseU e)"

definition store_text :: "upload_env \<Rightarrow> uuid \<Rightarrow> uuid \<Rightarrow> object_key \<Rightarrow> parsed_document \<Rightarrow> submission_view upload" where
  "store_text E owner i key doc =
     tryU (bindU (storing E StepFailText owner i ''storage_extracted_failed'' (put_extracted_object E key doc)) (\<lambda>_.
           transition_or_raise E StepReady owner i SubReady (Some key) None))
       (\<lambda>e. bindU (delete_after_failure E key e) (\<lambda>_. raiseU e))"

definition process_submission ::
    "upload_env \<Rightarrow> uuid \<Rightarrow> uuid \<Rightarrow> object_key \<Rightarrow> object_key \<Rightarrow> staged_document \<Rightarrow> submission_view upload" where
  "process_submission E owner i source text_key d =
     tryU (bindU (store_source E owner i source d) (\<lambda>_.
           bindU (transition_or_raise E StepParsing owner i SubParsing None None) (\<lambda>_.
           bindU (parse_staged E owner i d) (\<lambda>doc.
           store_text E owner i text_key doc))))
       (\<lambda>e. if e = UploadCancelled then bindU (mark_cancelled E owner i) (\<lambda>_. raiseU e) else raiseU e)"

definition reservation_for :: "upload_env \<Rightarrow> uuid \<Rightarrow> uuid \<Rightarrow> staged_document \<Rightarrow> reservation_request" where
  "reservation_for E owner assignment d = \<lparr>rr_id = ue_id E, rr_assignment = assignment,
     rr_filename = std_filename d, rr_media = std_media d, rr_size = int (std_size d), rr_sha256 = std_sha256 d,
     rr_source_key = source_key owner assignment (ue_id E) (std_media d)\<rparr>"

definition stage_incoming :: "upload_env \<Rightarrow> incoming_submission \<Rightarrow> staged_document upload" where
  "stage_incoming E inc =
     (case stage_upload_file (ue_file E) (ue_limits E) (in_stream inc) (in_filename inc) (in_media inc) of
        Inl (DocumentParseError c) \<Rightarrow> raiseU (ParseFailed c)
      | Inr d \<Rightarrow> returnU d)"

definition upload_submission ::
    "upload_env \<Rightarrow> uuid \<Rightarrow> uuid \<Rightarrow> incoming_submission \<Rightarrow> (bool \<times> submission_view) upload" where
  "upload_submission E owner assignment inc =
     bindU (await (ue_call E StepStage) (stage_incoming E inc)) (\<lambda>d.
     bindU (await (ue_call E StepReserve)
       (db_call (reserve_submission owner (ue_now E) (reservation_for E owner assignment d)))) (\<lambda>r.
     bindU (resolve_reservation E owner r) (\<lambda>(v, duplicate).
       if duplicate then returnU (True, v)
       else bindU (process_submission E owner (sv_id v) (source_key owner assignment (sv_id v) (std_media d))
                (extracted_key owner assignment (sv_id v)) d) (\<lambda>ready. returnU (False, ready)))))"

text \<open>The read operations of the service.\<close>

definition service_list :: "uuid \<Rightarrow> uuid \<Rightarrow> pdb \<Rightarrow> upload_exn + submission_view list" where
  "service_list owner assignment s =
     (case list_submissions owner assignment s of None \<Rightarrow> Inl UploadAssignmentMissing | Some vs \<Rightarrow> Inr vs)"

definition create_download ::
    "(object_key \<Rightarrow> upload_exn + 'url) \<Rightarrow> uuid \<Rightarrow> uuid \<Rightarrow> uuid \<Rightarrow> pdb \<Rightarrow> upload_exn + 'url" where
  "create_download sign owner assignment i s =
     (case get_ready_source_key owner assignment i s of None \<Rightarrow> Inl SubmissionMissing | Some key \<Rightarrow> sign key)"

section \<open>Triples\<close>

text \<open>Validity with one postcondition for results and one for exceptions.\<close>

definition triple ::
    "(upload_world \<Rightarrow> bool) \<Rightarrow> 'a upload \<Rightarrow> ('a \<Rightarrow> upload_world \<Rightarrow> bool) \<Rightarrow>
     (upload_exn \<Rightarrow> upload_world \<Rightarrow> bool) \<Rightarrow> bool" where
  "triple P m Q X \<longleftrightarrow> (\<forall>w. P w \<longrightarrow> (case m w of (Inr x, w') \<Rightarrow> Q x w' | (Inl e, w') \<Rightarrow> X e w'))"

lemma tripleI: "(\<And>w. P w \<Longrightarrow> case m w of (Inr x, w') \<Rightarrow> Q x w' | (Inl e, w') \<Rightarrow> X e w') \<Longrightarrow> triple P m Q X"
  by (simp add: triple_def)

lemma tripleD:
  assumes "triple P m Q X" "P w"
  shows "m w = (Inr x, w') \<Longrightarrow> Q x w'" "m w = (Inl e, w') \<Longrightarrow> X e w'"
  using assms by (auto simp: triple_def)

lemma triple_bind:
  assumes m: "triple P m R X" and f: "\<And>x. triple (R x) (f x) Q X"
  shows "triple P (bindU m f) Q X"
proof (rule tripleI)
  fix w assume w: "P w"
  obtain r w1 where e: "m w = (r, w1)" by fastforce
  show "case bindU m f w of (Inr x, w') \<Rightarrow> Q x w' | (Inl e, w') \<Rightarrow> X e w'"
  proof (cases r)
    case (Inl x)
    then show ?thesis using tripleD(2) [OF m w] e by (simp add: bindU_def)
  next
    case (Inr x)
    then have "R x w1" using tripleD(1) [OF m w] e by simp
    then have "case f x w1 of (Inr x, w') \<Rightarrow> Q x w' | (Inl e, w') \<Rightarrow> X e w'" using f [of x] by (simp add: triple_def)
    then show ?thesis using e Inr by (simp add: bindU_def)
  qed
qed

lemma triple_try:
  assumes m: "triple P m Q R" and h: "\<And>e. e \<noteq> ProcessDied \<Longrightarrow> triple (R e) (h e) Q X"
    and d: "\<And>w. R ProcessDied w \<Longrightarrow> X ProcessDied w"
  shows "triple P (tryU m h) Q X"
proof (rule tripleI)
  fix w assume w: "P w"
  obtain r w1 where e: "m w = (r, w1)" by fastforce
  show "case tryU m h w of (Inr x, w') \<Rightarrow> Q x w' | (Inl e, w') \<Rightarrow> X e w'"
  proof (cases r)
    case (Inr x)
    then show ?thesis using tripleD(1) [OF m w] e by (simp add: tryU_def)
  next
    case (Inl x)
    then have R: "R x w1" using tripleD(2) [OF m w] e by simp
    show ?thesis
    proof (cases "x = ProcessDied")
      case True
      then show ?thesis using d R e Inl by (simp add: tryU_def)
    next
      case False
      have "case h x w1 of (Inr x, w') \<Rightarrow> Q x w' | (Inl e, w') \<Rightarrow> X e w'"
        using h [OF False] R by (simp add: triple_def)
      then show ?thesis using e Inl False by (simp add: tryU_def)
    qed
  qed
qed

lemma triple_weaken:
  assumes m: "triple P' m Q' X'" and p: "\<And>w. P w \<Longrightarrow> P' w"
    and q: "\<And>x w. Q' x w \<Longrightarrow> Q x w" and x: "\<And>e w. X' e w \<Longrightarrow> X e w"
  shows "triple P m Q X"
proof (rule tripleI)
  fix w assume "P w"
  then have w: "P' w" by (rule p)
  obtain r w1 where e: "m w = (r, w1)" by fastforce
  show "case m w of (Inr x, w') \<Rightarrow> Q x w' | (Inl e, w') \<Rightarrow> X e w'"
    using tripleD [OF m w] e q x by (cases r) simp_all
qed

lemma triple_given: "(\<And>w. P w \<Longrightarrow> c \<and> P' w) \<Longrightarrow> (c \<Longrightarrow> triple P' m Q X) \<Longrightarrow> triple P m Q X"
  unfolding triple_def by metis

lemma triple_raise: "(\<And>w. P w \<Longrightarrow> X e w) \<Longrightarrow> triple P (raiseU e) Q X"
  by (simp add: triple_def raiseU_def)

lemma triple_return: "(\<And>w. P w \<Longrightarrow> Q x w) \<Longrightarrow> triple P (returnU x) Q X"
  by (simp add: triple_def returnU_def)

text \<open>A step that may break: with its effect it ends where the call itself ends.\<close>

lemma triple_await:
  assumes "triple P m Q X" "\<And>e w. c = Breaks e False \<Longrightarrow> P w \<Longrightarrow> X e w"
    "\<And>e w. c = Breaks e True \<Longrightarrow> P w \<Longrightarrow> X e (snd (m w))"
  shows "triple P (await c m) Q X"
  using assms unfolding triple_def await_def
  by (cases c) (auto split: if_splits)

end
