(* ===== verification/Storage_Quota.thy ===== *)
theory Storage_Quota
  imports Submission_Flow
begin

text \<open>
  The growth gates of \<open>backend/app/monitoring/repository.py\<close> over the functions
  \<open>check_database_growth\<close>, \<open>reserve_storage_growth\<close> and \<open>finalize_storage_growth\<close> of migration 0018,
  and the reservation that \<open>storage/supabase.py\<close> puts around every write (\<open>_reserve_growth\<close>).
  Ratios are in ten-thousandths, as the column type \<open>numeric(5,4)\<close> keeps them, and times in seconds.
  Byte counts are integers: the sums stay far below the range of \<open>bigint\<close>. The advisory lock makes
  each function one atomic step.
\<close>

section \<open>Tables\<close>

datatype quota_resource = DatabaseResource | StorageResource
datatype quota_state = QuotaOk | QuotaWarning | QuotaBlocked | QuotaUnavailable
datatype reservation_status = ResReserved | ResCommitted | ResReleased | ResUncertain

record quota_config =
  qc_enabled :: bool
  qc_capacity :: int
  qc_warning :: int
  qc_hard :: int
  qc_dedupe :: nat
  qc_reservation :: nat
  qc_last_used :: "int option"
  qc_last_checked :: "time option"
  qc_last_error :: "string option"

definition check_config :: "quota_config \<Rightarrow> bool" where
  "check_config c \<longleftrightarrow> 0 < qc_capacity c \<and> 0 < qc_warning c \<and> qc_warning c < qc_hard c \<and> qc_hard c \<le> 10000 \<and>
     60 \<le> qc_dedupe c \<and> qc_dedupe c \<le> 604800 \<and> 60 \<le> qc_reservation c \<and> qc_reservation c \<le> 3600"

record reservation_row =
  qr_id :: uuid
  qr_operation_key :: pystr
  qr_object_key :: pystr
  qr_sha256 :: digest
  qr_requested :: int
  qr_used_snapshot :: int
  qr_reserved_snapshot :: int
  qr_capacity_snapshot :: int
  qr_status :: reservation_status
  qr_lease :: time

record quota_alert =
  al_resource :: quota_resource
  al_state :: quota_state
  al_error :: "string option"
  al_created :: time

text \<open>\<open>storage.objects\<close> of the configured bucket: names with the sizes of their metadata.\<close>

record quota_db =
  qd_database :: quota_config
  qd_storage :: quota_config
  qd_reservations :: "reservation_row list"
  qd_alerts :: "quota_alert list"
  qd_objects :: "(pystr \<times> int) list"

record quota_row =
  qw_state :: quota_state
  qw_resource :: quota_resource
  qw_reservation :: "uuid option"
  qw_used :: int
  qw_reserved :: int
  qw_requested :: int
  qw_capacity :: "int option"
  qw_error :: "string option"

section \<open>The functions of the database\<close>

definition quota_threshold :: "int \<Rightarrow> int \<Rightarrow> int" where
  "quota_threshold capacity ratio = - ((- (capacity * ratio)) div 10000)"

definition growth_state :: "quota_config \<Rightarrow> int \<Rightarrow> quota_state" where
  "growth_state c projected =
     (if quota_threshold (qc_capacity c) (qc_hard c) \<le> projected then QuotaBlocked
      else if quota_threshold (qc_capacity c) (qc_warning c) \<le> projected then QuotaWarning
      else QuotaOk)"

text \<open>An alert is inserted unless the same one was created within the period of deduplication.\<close>

definition insert_alert ::
    "time \<Rightarrow> nat \<Rightarrow> quota_resource \<Rightarrow> quota_state \<Rightarrow> string option \<Rightarrow> quota_alert list \<Rightarrow> quota_alert list" where
  "insert_alert now dedupe res st err alerts =
     (if \<exists>a \<in> set alerts. al_resource a = res \<and> al_state a = st \<and> now \<le> al_created a + dedupe then alerts
      else alerts @ [\<lparr>al_resource = res, al_state = st, al_error = err, al_created = now\<rparr>])"

definition checked :: "time \<Rightarrow> int \<Rightarrow> quota_config \<Rightarrow> quota_config" where
  "checked now used c = c\<lparr>qc_last_used := Some used, qc_last_checked := Some now, qc_last_error := None\<rparr>"

definition check_failed :: "time \<Rightarrow> string \<Rightarrow> quota_config \<Rightarrow> quota_config" where
  "check_failed now err c = c\<lparr>qc_last_checked := Some now, qc_last_error := Some err\<rparr>"

definition valid_operation_key :: "pystr \<Rightarrow> bool" where
  "valid_operation_key k \<longleftrightarrow> \<not> blank k \<and> length k \<le> 200"

definition unavailable_row :: "quota_resource \<Rightarrow> int \<Rightarrow> int option \<Rightarrow> string \<Rightarrow> quota_row" where
  "unavailable_row res n cap err = \<lparr>qw_state = QuotaUnavailable, qw_resource = res, qw_reservation = None, qw_used = 0,
     qw_reserved = 0, qw_requested = n, qw_capacity = cap, qw_error = Some err\<rparr>"

text \<open>\<open>size\<close> is \<open>pg_database_size\<close>, which may fail.\<close>

definition check_database_growth ::
    "time \<Rightarrow> int option \<Rightarrow> pystr \<Rightarrow> int \<Rightarrow> quota_db \<Rightarrow> quota_row \<times> quota_db" where
  "check_database_growth now db_size op n s = (let c = qd_database s in
     if \<not> valid_operation_key op \<or> n < 0
     then (unavailable_row DatabaseResource (max n 0) None ''quota_request_invalid'', s)
     else if \<not> qc_enabled c
     then (\<lparr>qw_state = QuotaOk, qw_resource = DatabaseResource, qw_reservation = None, qw_used = 0, qw_reserved = 0,
            qw_requested = n, qw_capacity = None, qw_error = None\<rparr>, s)
     else case db_size of
       None \<Rightarrow> (unavailable_row DatabaseResource n (Some (qc_capacity c)) ''database_usage_unavailable'',
          s\<lparr>qd_database := check_failed now ''database_usage_unavailable'' c,
            qd_alerts := insert_alert now (qc_dedupe c) DatabaseResource QuotaUnavailable
              (Some ''database_usage_unavailable'') (qd_alerts s)\<rparr>)
     | Some used \<Rightarrow> (let st = growth_state c (used + n) in
          (\<lparr>qw_state = st, qw_resource = DatabaseResource, qw_reservation = None, qw_used = used, qw_reserved = 0,
             qw_requested = n, qw_capacity = Some (qc_capacity c), qw_error = None\<rparr>,
           s\<lparr>qd_database := checked now used c,
             qd_alerts := (if st = QuotaOk then qd_alerts s
               else insert_alert now (qc_dedupe c) DatabaseResource st None (qd_alerts s))\<rparr>)))"

definition used_bytes :: "quota_db \<Rightarrow> int" where
  "used_bytes s = sum_list (map snd (qd_objects s))"

definition replaced_size :: "pystr \<Rightarrow> quota_db \<Rightarrow> int" where
  "replaced_size key s = foldr max (map (\<lambda>p. if fst p = key then snd p else 0) (qd_objects s)) 0"

definition expire_reservation :: "time \<Rightarrow> reservation_row \<Rightarrow> reservation_row" where
  "expire_reservation now r = (if qr_status r = ResReserved \<and> qr_lease r \<le> now then r\<lparr>qr_status := ResUncertain\<rparr> else r)"

text \<open>The reservations that count against the capacity, besides those of the same object.\<close>

definition counted_reservation :: "time \<Rightarrow> pystr \<Rightarrow> quota_db \<Rightarrow> reservation_row \<Rightarrow> bool" where
  "counted_reservation now key s r \<longleftrightarrow>
     (qr_status r = ResReserved \<and> now < qr_lease r \<or>
      qr_status r \<in> {ResCommitted, ResUncertain} \<and> qr_object_key r \<notin> fst ` set (qd_objects s)) \<and>
     qr_object_key r \<noteq> key"

definition reserved_bytes :: "time \<Rightarrow> pystr \<Rightarrow> quota_db \<Rightarrow> int" where
  "reserved_bytes now key s = sum_list (map qr_requested (filter (counted_reservation now key s) (qd_reservations s)))"

definition reservation_answer :: "reservation_row \<Rightarrow> quota_row" where
  "reservation_answer r = \<lparr>qw_state = QuotaOk, qw_resource = StorageResource, qw_reservation = Some (qr_id r),
     qw_used = qr_used_snapshot r, qw_reserved = qr_reserved_snapshot r, qw_requested = qr_requested r,
     qw_capacity = Some (qr_capacity_snapshot r), qw_error = None\<rparr>"

text \<open>The row that is inserted, or the found row with the columns that the update sets.\<close>

definition granted_row ::
    "time \<Rightarrow> quota_config \<Rightarrow> uuid \<Rightarrow> pystr \<Rightarrow> pystr \<Rightarrow> digest \<Rightarrow> int \<Rightarrow> int \<Rightarrow> int \<Rightarrow> reservation_row option \<Rightarrow> reservation_row" where
  "granted_row now c new_id op key sha n kept res existing = (case existing of
      None \<Rightarrow> \<lparr>qr_id = new_id, qr_operation_key = op, qr_object_key = key, qr_sha256 = sha, qr_requested = n,
         qr_used_snapshot = kept, qr_reserved_snapshot = res, qr_capacity_snapshot = qc_capacity c,
         qr_status = ResReserved, qr_lease = now + qc_reservation c\<rparr>
    | Some r \<Rightarrow> r\<lparr>qr_status := ResReserved, qr_used_snapshot := kept, qr_reserved_snapshot := res,
         qr_capacity_snapshot := qc_capacity c, qr_lease := now + qc_reservation c\<rparr>)"

text \<open>The part after the lookup: sample, expire, project, and reserve unless blocked.\<close>

definition grow_reservation ::
    "time \<Rightarrow> bool \<Rightarrow> uuid \<Rightarrow> pystr \<Rightarrow> pystr \<Rightarrow> digest \<Rightarrow> int \<Rightarrow> reservation_row option \<Rightarrow> quota_db \<Rightarrow> quota_row \<times> quota_db" where
  "grow_reservation now sampled new_id op key sha n existing s = (let c = qd_storage s in
     if \<not> sampled
     then (unavailable_row StorageResource n (Some (qc_capacity c)) ''storage_usage_unavailable'',
        s\<lparr>qd_storage := check_failed now ''storage_usage_unavailable'' c,
          qd_alerts := insert_alert now (qc_dedupe c) StorageResource QuotaUnavailable
            (Some ''storage_usage_unavailable'') (qd_alerts s)\<rparr>)
     else (let s1 = s\<lparr>qd_reservations := map (expire_reservation now) (qd_reservations s)\<rparr>;
        used = used_bytes s1; kept = used - replaced_size key s1; res = reserved_bytes now key s1;
        st = growth_state c (kept + res + n);
        s2 = s1\<lparr>qd_storage := checked now used c,
          qd_alerts := (if st = QuotaOk then qd_alerts s1
            else insert_alert now (qc_dedupe c) StorageResource st None (qd_alerts s1))\<rparr>
      in if st = QuotaBlocked
         then (\<lparr>qw_state = st, qw_resource = StorageResource, qw_reservation = None, qw_used = used, qw_reserved = res,
                qw_requested = n, qw_capacity = Some (qc_capacity c), qw_error = None\<rparr>, s2)
         else (let row = granted_row now c new_id op key sha n kept res existing
           in (\<lparr>qw_state = st, qw_resource = StorageResource, qw_reservation = Some (qr_id row), qw_used = kept,
                qw_reserved = res, qw_requested = n, qw_capacity = Some (qc_capacity c), qw_error = None\<rparr>,
               s2\<lparr>qd_reservations := (case existing of
                   None \<Rightarrow> qd_reservations s2 @ [row]
                 | Some r \<Rightarrow> map (\<lambda>x. if qr_id x = qr_id r then row else x) (qd_reservations s2))\<rparr>))))"

definition reserve_storage_growth ::
    "time \<Rightarrow> bool \<Rightarrow> uuid \<Rightarrow> pystr \<Rightarrow> pystr \<Rightarrow> digest \<Rightarrow> int \<Rightarrow> quota_db \<Rightarrow> quota_row \<times> quota_db" where
  "reserve_storage_growth now sampled new_id op key sha n s =
     (if \<not> valid_operation_key op \<or> blank key \<or> n < 0
      then (unavailable_row StorageResource (max n 0) None ''quota_request_invalid'', s)
      else if \<not> qc_enabled (qd_storage s)
      then (\<lparr>qw_state = QuotaOk, qw_resource = StorageResource, qw_reservation = None, qw_used = 0, qw_reserved = 0,
             qw_requested = n, qw_capacity = None, qw_error = None\<rparr>, s)
      else case find (\<lambda>r. qr_operation_key r = op) (qd_reservations s) of
        None \<Rightarrow> grow_reservation now sampled new_id op key sha n None s
      | Some r \<Rightarrow>
          if qr_object_key r \<noteq> key \<or> qr_sha256 r \<noteq> sha \<or> qr_requested r \<noteq> n
          then ((unavailable_row StorageResource n (Some (qr_capacity_snapshot r)) ''quota_idempotency_conflict'')
                  \<lparr>qw_reservation := Some (qr_id r), qw_used := qr_used_snapshot r, qw_reserved := qr_reserved_snapshot r\<rparr>, s)
          else if qr_status r = ResReserved \<and> now < qr_lease r then (reservation_answer r, s)
          else if qr_status r = ResCommitted then (reservation_answer r, s)
          else grow_reservation now sampled new_id op key sha n (Some r) s)"

definition finalize_storage_growth :: "uuid \<Rightarrow> reservation_status \<Rightarrow> quota_db \<Rightarrow> quota_row \<times> quota_db" where
  "finalize_storage_growth i st s =
     (if st = ResReserved
      then ((unavailable_row StorageResource 0 None ''quota_finalize_invalid'')\<lparr>qw_reservation := Some i\<rparr>, s)
      else case find (\<lambda>r. qr_id r = i) (qd_reservations s) of
        None \<Rightarrow> ((unavailable_row StorageResource 0 None ''quota_reservation_not_found'')\<lparr>qw_reservation := Some i\<rparr>, s)
      | Some r \<Rightarrow>
          if qr_status r \<in> {ResReserved, ResUncertain}
          then (reservation_answer r,
            s\<lparr>qd_reservations := map (\<lambda>x. if qr_id x = i then x\<lparr>qr_status := st\<rparr> else x) (qd_reservations s)\<rparr>)
          else if qr_status r \<noteq> st
          then ((reservation_answer r)\<lparr>qw_state := QuotaUnavailable, qw_error := Some ''quota_finalize_conflict''\<rparr>, s)
          else (reservation_answer r, s))"

section \<open>The repository\<close>

datatype quota_exn =
    QuotaExceededError quota_resource string
  | QuotaUnavailableError quota_resource string
  | QuotaValueError

text \<open>\<open>_parse_result\<close> on the rows that the functions return.\<close>

definition resource_name :: "quota_resource \<Rightarrow> string" where
  "resource_name r = (case r of DatabaseResource \<Rightarrow> ''database'' | StorageResource \<Rightarrow> ''storage'')"

definition parse_quota_row :: "quota_row \<Rightarrow> quota_exn + quota_row" where
  "parse_quota_row w = (let code = (case qw_error w of Some e \<Rightarrow> e
       | None \<Rightarrow> resource_name (qw_resource w) @ ''_quota_'' @
           (if qw_state w = QuotaBlocked then ''exceeded'' else ''unavailable'')) in
     if qw_state w = QuotaBlocked then Inl (QuotaExceededError (qw_resource w) code)
     else if qw_state w = QuotaUnavailable then Inl (QuotaUnavailableError (qw_resource w) code)
     else Inr w)"

text \<open>
  The parse happens inside the transaction of the call, so an exception rolls back what the function
  wrote: the result then holds no new state.
\<close>

definition repo_gate :: "quota_row \<times> quota_db \<Rightarrow> quota_exn + quota_row \<times> quota_db" where
  "repo_gate x = bindR (parse_quota_row (fst x)) (\<lambda>w. Inr (w, snd x))"

definition repo_check_database ::
    "time \<Rightarrow> int option \<Rightarrow> pystr \<Rightarrow> int \<Rightarrow> quota_db \<Rightarrow> quota_exn + quota_row \<times> quota_db" where
  "repo_check_database now db_size op n s =
     (if py_strip op = [] \<or> n < 0 then Inl QuotaValueError else repo_gate (check_database_growth now db_size op n s))"

definition repo_reserve ::
    "time \<Rightarrow> bool \<Rightarrow> uuid \<Rightarrow> pystr \<Rightarrow> pystr \<Rightarrow> digest \<Rightarrow> int \<Rightarrow> quota_db \<Rightarrow> quota_exn + quota_row \<times> quota_db" where
  "repo_reserve now sampled new_id op key sha n s =
     (if py_strip op = [] \<or> n < 0 \<or> py_strip key = [] then Inl QuotaValueError
      else repo_gate (reserve_storage_growth now sampled new_id op key sha n s))"

definition repo_finalize :: "uuid \<Rightarrow> reservation_status \<Rightarrow> quota_db \<Rightarrow> quota_exn + quota_row \<times> quota_db" where
  "repo_finalize i st s = repo_gate (finalize_storage_growth i st s)"

definition commit_storage_growth :: "uuid \<Rightarrow> quota_db \<Rightarrow> quota_exn + quota_row \<times> quota_db" where
  "commit_storage_growth i = repo_finalize i ResCommitted"

definition release_storage_growth :: "uuid \<Rightarrow> quota_db \<Rightarrow> quota_exn + quota_row \<times> quota_db" where
  "release_storage_growth i = repo_finalize i ResReleased"

definition mark_storage_growth_uncertain :: "uuid \<Rightarrow> quota_db \<Rightarrow> quota_exn + quota_row \<times> quota_db" where
  "mark_storage_growth_uncertain i = repo_finalize i ResUncertain"

section \<open>A write under a reservation\<close>

definition write_object :: "pystr \<Rightarrow> int \<Rightarrow> quota_db \<Rightarrow> quota_db" where
  "write_object key n s = s\<lparr>qd_objects := (key, n) # filter (\<lambda>p. fst p \<noteq> key) (qd_objects s)\<rparr>"

definition remove_object :: "pystr \<Rightarrow> quota_db \<Rightarrow> quota_db" where
  "remove_object key s = s\<lparr>qd_objects := filter (\<lambda>p. fst p \<noteq> key) (qd_objects s)\<rparr>"

text \<open>
  \<open>_quota_operation_key\<close> with the hash function as a parameter, and \<open>_reserve_growth\<close> around a write
  that works or breaks, before or after its effect; \<open>settles\<close> tells whether the last call of the
  gate gets through.
\<close>

record growth_env =
  ge_now :: time
  ge_readable :: bool
  ge_id :: uuid
  ge_write :: call_result
  ge_settles :: bool

datatype growth_exn = GateFailed quota_exn | WriteFailed upload_exn | GateLost

definition quota_operation_key :: "(pystr \<Rightarrow> pystr) \<Rightarrow> pystr \<Rightarrow> pystr \<Rightarrow> pystr" where
  "quota_operation_key sha_hex key content_sha =
     ustr ''storage:'' @ sha_hex (ustr ''paper-grading:storage-growth:v1'' @ [0] @ utf8_encode key @ [0] @ content_sha)"

definition write_outcome :: "growth_env \<Rightarrow> pystr \<Rightarrow> int \<Rightarrow> quota_db \<Rightarrow> upload_exn option \<times> quota_db" where
  "write_outcome E key n s = (case ge_write E of
      Works \<Rightarrow> (None, write_object key n s)
    | Breaks e done_before \<Rightarrow> (Some e, if done_before then write_object key n s else s))"

definition reserve_growth ::
    "growth_env \<Rightarrow> pystr \<Rightarrow> pystr \<Rightarrow> digest \<Rightarrow> int \<Rightarrow> quota_db \<Rightarrow> growth_exn option \<times> quota_db" where
  "reserve_growth E op key sha n s =
     (case repo_reserve (ge_now E) (ge_readable E) (ge_id E) op key sha n s of
        Inl e \<Rightarrow> (Some (GateFailed e), s)
      | Inr (w, s1) \<Rightarrow> (let (failure, s2) = write_outcome E key n s1 in
          case qw_reservation w of
            None \<Rightarrow> (map_option WriteFailed failure, s2)
          | Some i \<Rightarrow>
              (case failure of
                 Some e \<Rightarrow> (Some (WriteFailed e),
                    if \<not> ge_settles E then s2
                    else case mark_storage_growth_uncertain i s2 of Inl _ \<Rightarrow> s2 | Inr (_, s3) \<Rightarrow> s3)
               | None \<Rightarrow>
                    if \<not> ge_settles E then (Some GateLost, s2)
                    else case commit_storage_growth i s2 of
                      Inl x \<Rightarrow> (Some (GateFailed x), s2)
                    | Inr (_, s3) \<Rightarrow> (None, s3))))"

end
