(* ===== verification/Quota_Guarantees.thy ===== *)
theory Quota_Guarantees
  imports Storage_Quota
begin

text \<open>
  What the storage gate guarantees: while every object has one size, the stored bytes stay below the
  hard limit whatever writes, failures, deletions and expiries are interleaved. What it loses: bytes
  of deleted objects stay reserved, and a refusal leaves no alert.
\<close>

section \<open>Steps of the quota\<close>

text \<open>\<open>sz\<close> is the size of the object that belongs to a key.\<close>

inductive quota_step :: "(pystr \<Rightarrow> nat) \<Rightarrow> quota_db \<Rightarrow> quota_db \<Rightarrow> bool" for sz where
  growth_reserved: "repo_reserve now sampled i op key sha (int (sz key)) s = Inr (w, s') \<Longrightarrow>
    i \<notin> qr_id ` set (qd_reservations s) \<Longrightarrow> quota_step sz s s'"
| object_written: "r \<in> set (qd_reservations s) \<Longrightarrow> qr_status r \<noteq> ResReleased \<Longrightarrow>
    quota_step sz s (write_object (qr_object_key r) (int (sz (qr_object_key r))) s)"
| growth_finalized: "st \<in> {ResCommitted, ResUncertain} \<Longrightarrow> repo_finalize i st s = Inr (w, s') \<Longrightarrow> quota_step sz s s'"
| object_removed: "quota_step sz s (remove_object key s)"

section \<open>The invariant\<close>

definition hard_limit :: "quota_db \<Rightarrow> int" where
  "hard_limit s = quota_threshold (qc_capacity (qd_storage s)) (qc_hard (qd_storage s))"

text \<open>The keys that are stored, or may still be written under a reservation.\<close>

definition claimed_keys :: "quota_db \<Rightarrow> pystr set" where
  "claimed_keys s = fst ` set (qd_objects s) \<union> qr_object_key ` {r \<in> set (qd_reservations s). qr_status r \<noteq> ResReleased}"

definition quota_inv :: "(pystr \<Rightarrow> nat) \<Rightarrow> quota_db \<Rightarrow> bool" where
  "quota_inv sz s \<longleftrightarrow> qc_enabled (qd_storage s) \<and>
     distinct (map fst (qd_objects s)) \<and> (\<forall>p \<in> set (qd_objects s). snd p = int (sz (fst p))) \<and>
     distinct (map qr_id (qd_reservations s)) \<and>
     (\<forall>r \<in> set (qd_reservations s). qr_requested r = int (sz (qr_object_key r))) \<and>
     int (sum sz (claimed_keys s)) < hard_limit s"

lemma finite_claimed [simp]: "finite (claimed_keys s)"
  by (simp add: claimed_keys_def)

lemma used_sum:
  assumes "distinct (map fst xs)" "\<forall>p \<in> set xs. snd p = int (sz (fst p))"
  shows "sum_list (map snd xs) = int (sum sz (fst ` set xs))"
  using assms by (induction xs) auto

lemma replaced_bound:
  assumes "distinct (map fst (qd_objects s))" "\<forall>p \<in> set (qd_objects s). snd p = int (sz (fst p))"
  shows "used_bytes s - replaced_size key s = int (sum sz (fst ` set (qd_objects s) - {key}))"
proof -
  let ?m = "\<lambda>xs. foldr max (map (\<lambda>p. if fst p = key then snd p else 0) xs) (0 :: int)"
  have "?m xs = (if key \<in> fst ` set xs then int (sz key) else 0)"
    if "distinct (map fst xs)" "\<forall>p \<in> set xs. snd p = int (sz (fst p))" for xs
    using that by (induction xs) (auto simp: image_iff)
  from this [OF assms] have "replaced_size key s = (if key \<in> fst ` set (qd_objects s) then int (sz key) else 0)"
    by (simp add: replaced_size_def)
  moreover have "used_bytes s = int (sum sz (fst ` set (qd_objects s)))"
    using used_sum [OF assms] by (simp add: used_bytes_def)
  ultimately show ?thesis by (auto simp: sum_diff1_nat of_nat_diff member_le_sum)
qed

text \<open>The rows that are summed cover every claimed key that is neither stored nor the requested one.\<close>

lemma reserved_covers:
  assumes "\<forall>r \<in> set rs. qr_requested r = int (sz (qr_object_key r))"
  shows "int (sum sz (qr_object_key ` set (filter p rs))) \<le> sum_list (map qr_requested (filter p rs))"
  using assms
proof (induction rs)
  case (Cons r rs)
  let ?A = "qr_object_key ` set (filter p rs)"
  have "sum sz (insert (qr_object_key r) ?A) \<le> sz (qr_object_key r) + sum sz ?A" by (simp add: sum.insert_if)
  moreover have "int (sum sz ?A) \<le> sum_list (map qr_requested (filter p rs))" using Cons by simp
  ultimately show ?case using Cons.prems by (cases "p r") (simp_all del: of_nat_sum)
qed simp

lemma expire_fields [simp]:
  "qr_id (expire_reservation now r) = qr_id r" "qr_object_key (expire_reservation now r) = qr_object_key r"
  "qr_requested (expire_reservation now r) = qr_requested r"
  "qr_status (expire_reservation now r) = ResReleased \<longleftrightarrow> qr_status r = ResReleased"
  by (simp_all add: expire_reservation_def)

lemma expired_counted:
  "qr_status (expire_reservation now r) \<noteq> ResReleased \<Longrightarrow> qr_object_key r \<noteq> key \<Longrightarrow>
     qr_object_key r \<notin> fst ` set (qd_objects s) \<Longrightarrow> counted_reservation now key s (expire_reservation now r)"
  by (cases "qr_status r") (auto simp: counted_reservation_def expire_reservation_def)

text \<open>After a successful projection the claimed keys, the requested one included, fit below the limit.\<close>

lemma projection_covers:
  assumes I: "quota_inv sz s" and s1: "s1 = s\<lparr>qd_reservations := map (expire_reservation now) (qd_reservations s)\<rparr>"
  shows "int (sum sz (insert key (claimed_keys s))) \<le>
    used_bytes s1 - replaced_size key s1 + reserved_bytes now key s1 + int (sz key)"
proof -
  let ?O = "fst ` set (qd_objects s) - {key}"
  let ?C = "qr_object_key ` set (filter (counted_reservation now key s1) (qd_reservations s1))"
  have o: "qd_objects s1 = qd_objects s" by (simp add: s1)
  have used: "used_bytes s1 - replaced_size key s1 = int (sum sz ?O)"
    using replaced_bound [of s1 sz key] I by (simp add: o quota_inv_def)
  have res: "int (sum sz ?C) \<le> reserved_bytes now key s1"
    unfolding reserved_bytes_def by (rule reserved_covers) (use I in \<open>auto simp: s1 quota_inv_def\<close>)
  have "claimed_keys s - {key} \<subseteq> ?O \<union> ?C"
  proof
    fix k assume k: "k \<in> claimed_keys s - {key}"
    show "k \<in> ?O \<union> ?C"
    proof (cases "k \<in> fst ` set (qd_objects s)")
      case False
      then obtain r where r: "r \<in> set (qd_reservations s)" "qr_status r \<noteq> ResReleased" "qr_object_key r = k"
        using k by (auto simp: claimed_keys_def)
      then have "counted_reservation now key s1 (expire_reservation now r)"
        using k False by (intro expired_counted) (auto simp: o)
      moreover have "expire_reservation now r \<in> set (qd_reservations s1)" using r(1) by (simp add: s1)
      ultimately have "expire_reservation now r \<in> set (filter (counted_reservation now key s1) (qd_reservations s1))" by simp
      then show ?thesis using r(3) by (intro UnI2 image_eqI [of _ _ "expire_reservation now r"]) simp_all
    qed (use k in blast)
  qed
  then have "sum sz (claimed_keys s - {key}) \<le> sum sz (?O \<union> ?C)" by (intro sum_mono2) auto
  also have "\<dots> \<le> sum sz ?O + sum sz ?C" by (metis finite_imageI finite_set finite_Diff List.finite_set sum_Un_nat diff_le_self)
  finally have "int (sum sz (claimed_keys s - {key})) \<le> int (sum sz ?O) + int (sum sz ?C)" by linarith
  moreover have "sum sz (insert key (claimed_keys s)) = sz key + sum sz (claimed_keys s - {key})"
    by (simp add: sum.insert_remove)
  ultimately show ?thesis using used res by simp
qed

lemma growth_allowed: "growth_state c p \<noteq> QuotaBlocked \<Longrightarrow> p < quota_threshold (qc_capacity c) (qc_hard c)"
  by (auto simp: growth_state_def split: if_splits)

lemma checked_fields [simp]:
  "qc_enabled (checked now u c) = qc_enabled c" "qc_capacity (checked now u c) = qc_capacity c" "qc_hard (checked now u c) = qc_hard c"
  by (simp_all add: checked_def)

lemma claimed_mono: "sum sz A \<le> sum sz B" if "A \<subseteq> B" "finite B" for sz :: "pystr \<Rightarrow> nat"
  using that by (intro sum_mono2) auto

lemma grow_inv:
  assumes I: "quota_inv sz s" and g: "grow_reservation now sampled i op key sha (int (sz key)) existing s = (w, s')"
    and ok: "qw_state w \<noteq> QuotaBlocked" "qw_state w \<noteq> QuotaUnavailable" and i: "i \<notin> qr_id ` set (qd_reservations s)"
    and e: "\<And>r. existing = Some r \<Longrightarrow> r \<in> set (qd_reservations s) \<and> qr_object_key r = key \<and> qr_requested r = int (sz key)"
  shows "quota_inv sz s'"
proof -
  let ?s1 = "s\<lparr>qd_reservations := map (expire_reservation now) (qd_reservations s)\<rparr>"
  let ?p = "used_bytes ?s1 - replaced_size key ?s1 + reserved_bytes now key ?s1 + int (sz key)"
  have sampled: "sampled" and st: "growth_state (qd_storage s) ?p \<noteq> QuotaBlocked"
    using g ok by (auto simp: grow_reservation_def Let_def unavailable_row_def split: if_splits)
  have lim: "int (sum sz (insert key (claimed_keys s))) < hard_limit s"
    using projection_covers [OF I refl, of key now] growth_allowed [OF st] by (simp add: hard_limit_def)
  have obj: "qd_objects s' = qd_objects s" and cfg: "qc_enabled (qd_storage s') = qc_enabled (qd_storage s)" "hard_limit s' = hard_limit s"
    using g sampled st by (auto simp: grow_reservation_def Let_def hard_limit_def)
  define row where "row = granted_row now (qd_storage s) i op key sha (int (sz key)) (used_bytes ?s1 - replaced_size key ?s1)
    (reserved_bytes now key ?s1) existing"
  have eq: "qd_reservations s' = (case existing of
        None \<Rightarrow> map (expire_reservation now) (qd_reservations s) @ [row]
      | Some r \<Rightarrow> map (\<lambda>x. if qr_id x = qr_id r then row else x) (map (expire_reservation now) (qd_reservations s)))"
    using g sampled st unfolding grow_reservation_def row_def Let_def by (auto split: option.splits)
  have row: "qr_object_key row = key \<and> qr_requested row = int (sz key) \<and>
      qr_id row = (case existing of None \<Rightarrow> i | Some r \<Rightarrow> qr_id r)"
    using e by (cases existing) (simp_all add: row_def granted_row_def)
  have ids: "distinct (map qr_id (qd_reservations s'))"
    using I i row eq by (cases existing) (auto simp: quota_inv_def comp_def if_distrib cong: if_cong)
  have from_old: "x = row \<or> (\<exists>r \<in> set (qd_reservations s). x = expire_reservation now r)" if "x \<in> set (qd_reservations s')" for x
    using that eq by (cases existing) (auto split: if_splits)
  have "claimed_keys s' \<subseteq> insert key (claimed_keys s)"
    using from_old row by (fastforce simp: claimed_keys_def obj)
  then have "int (sum sz (claimed_keys s')) \<le> int (sum sz (insert key (claimed_keys s)))"
    by (simp add: claimed_mono del: of_nat_sum)
  moreover have "\<forall>x \<in> set (qd_reservations s'). qr_requested x = int (sz (qr_object_key x))"
    using from_old row I by (fastforce simp: quota_inv_def)
  ultimately show ?thesis using I lim ids cfg obj by (simp add: quota_inv_def)
qed

lemma repo_gate_ok:
  "repo_gate x = Inr (w, s) \<Longrightarrow> x = (w, s) \<and> qw_state w \<noteq> QuotaBlocked \<and> qw_state w \<noteq> QuotaUnavailable"
  by (cases x) (auto simp: repo_gate_def parse_quota_row_def Let_def split: if_splits)

lemma reserve_inv:
  assumes I: "quota_inv sz s" and g: "repo_reserve now sampled i op key sha (int (sz key)) s = Inr (w, s')"
    and i: "i \<notin> qr_id ` set (qd_reservations s)"
  shows "quota_inv sz s'"
proof -
  have r: "reserve_storage_growth now sampled i op key sha (int (sz key)) s = (w, s')"
      "qw_state w \<noteq> QuotaBlocked" "qw_state w \<noteq> QuotaUnavailable"
    using g repo_gate_ok by (auto simp: repo_reserve_def split: if_splits)
  have en: "qc_enabled (qd_storage s)" using I by (simp add: quota_inv_def)
  show ?thesis
  proof (cases "find (\<lambda>r. qr_operation_key r = op) (qd_reservations s)")
    case None
    then have "grow_reservation now sampled i op key sha (int (sz key)) None s = (w, s')"
      using r en by (auto simp: reserve_storage_growth_def unavailable_row_def split: if_splits)
    then show ?thesis by (rule grow_inv [OF I _ r(2,3) i]) simp
  next
    case (Some x)
    then have x: "x \<in> set (qd_reservations s)" by (auto dest: find_SomeD)
    have "s' = s \<or> qr_object_key x = key \<and> qr_requested x = int (sz key) \<and>
        grow_reservation now sampled i op key sha (int (sz key)) (Some x) s = (w, s')"
      using r Some en by (auto simp: reserve_storage_growth_def unavailable_row_def split: if_splits)
    then show ?thesis
    proof
      assume "qr_object_key x = key \<and> qr_requested x = int (sz key) \<and>
        grow_reservation now sampled i op key sha (int (sz key)) (Some x) s = (w, s')"
      then show ?thesis using x by (intro grow_inv [OF I _ r(2,3) i]) auto
    qed (use I in simp)
  qed
qed

lemma write_inv:
  assumes I: "quota_inv sz s" and r: "r \<in> set (qd_reservations s)" "qr_status r \<noteq> ResReleased"
  shows "quota_inv sz (write_object (qr_object_key r) (int (sz (qr_object_key r))) s)"
proof -
  have "claimed_keys (write_object (qr_object_key r) (int (sz (qr_object_key r))) s) = claimed_keys s"
    using r by (force simp: claimed_keys_def write_object_def)
  moreover have "distinct (map fst (filter (\<lambda>p. fst p \<noteq> qr_object_key r) (qd_objects s)))"
    using I by (simp add: quota_inv_def distinct_map_filter)
  ultimately show ?thesis using I by (auto simp: quota_inv_def write_object_def hard_limit_def)
qed

lemma fewer_keys_inv:
  assumes "quota_inv sz s" "claimed_keys s' \<subseteq> claimed_keys s" "qd_storage s' = qd_storage s"
    "distinct (map fst (qd_objects s'))" "set (qd_objects s') \<subseteq> set (qd_objects s)"
    "map (\<lambda>r. (qr_id r, qr_object_key r, qr_requested r)) (qd_reservations s') =
       map (\<lambda>r. (qr_id r, qr_object_key r, qr_requested r)) (qd_reservations s)"
  shows "quota_inv sz s'"
proof -
  have ids: "map qr_id (qd_reservations s') = map qr_id (qd_reservations s)"
    using arg_cong [OF assms(6), of "map fst"] by (simp add: comp_def)
  let ?f = "\<lambda>r. (qr_id r, qr_object_key r, qr_requested r)"
  have img: "?f ` set (qd_reservations s') = ?f ` set (qd_reservations s)"
    using arg_cong [OF assms(6), of set] by simp
  have "qr_requested r = int (sz (qr_object_key r))" if r: "r \<in> set (qd_reservations s')" for r
  proof -
    have "?f r \<in> ?f ` set (qd_reservations s)" using r unfolding img [symmetric] by (rule imageI)
    then obtain q where "q \<in> set (qd_reservations s)" "?f r = ?f q" by (rule imageE)
    then show ?thesis using assms(1) by (simp add: quota_inv_def)
  qed
  then have "\<forall>r \<in> set (qd_reservations s'). qr_requested r = int (sz (qr_object_key r))" by blast
  moreover have "int (sum sz (claimed_keys s')) \<le> int (sum sz (claimed_keys s))"
    using assms(2) by (simp add: claimed_mono del: of_nat_sum)
  ultimately show ?thesis using assms(1,3,4,5) ids by (auto simp: quota_inv_def hard_limit_def)
qed

lemma finalize_inv:
  assumes I: "quota_inv sz s" and st: "st \<in> {ResCommitted, ResUncertain}" and f: "repo_finalize i st s = Inr (w, s')"
  shows "quota_inv sz s'"
proof -
  have f': "finalize_storage_growth i st s = (w, s')" "qw_state w \<noteq> QuotaUnavailable"
    using f repo_gate_ok by (auto simp: repo_finalize_def)
  have "s' = s \<or> (\<exists>x \<in> set (qd_reservations s). qr_id x = i \<and> qr_status x \<noteq> ResReleased \<and>
      s' = s\<lparr>qd_reservations := map (\<lambda>x. if qr_id x = i then x\<lparr>qr_status := st\<rparr> else x) (qd_reservations s)\<rparr>)"
  proof (cases "find (\<lambda>r. qr_id r = i) (qd_reservations s)")
    case None
    then show ?thesis using f'(1) by (simp add: finalize_storage_growth_def split: if_splits)
  next
    case (Some x)
    then have x: "x \<in> set (qd_reservations s)" "qr_id x = i" by (auto dest: find_SomeD)
    have "st \<noteq> ResReserved" using st by auto
    show ?thesis
    proof (cases "qr_status x \<in> {ResReserved, ResUncertain}")
      case True
      then have "s' = s\<lparr>qd_reservations := map (\<lambda>x. if qr_id x = i then x\<lparr>qr_status := st\<rparr> else x) (qd_reservations s)\<rparr>"
        using f'(1) Some \<open>st \<noteq> ResReserved\<close> by (simp add: finalize_storage_growth_def)
      moreover have "qr_status x \<noteq> ResReleased" using True by auto
      ultimately show ?thesis by (intro disjI2 bexI [OF _ x(1)] conjI x(2))
    next
      case False
      then have "s' = s" using f'(1) Some \<open>st \<noteq> ResReserved\<close> by (simp add: finalize_storage_growth_def split: if_splits)
      then show ?thesis ..
    qed
  qed
  then consider "s' = s" | x where "x \<in> set (qd_reservations s)" "qr_id x = i" "qr_status x \<noteq> ResReleased"
      "s' = s\<lparr>qd_reservations := map (\<lambda>x. if qr_id x = i then x\<lparr>qr_status := st\<rparr> else x) (qd_reservations s)\<rparr>"
    by blast
  then show ?thesis
  proof cases
    case 2
    have u: "y = x" if "y \<in> set (qd_reservations s)" "qr_id y = i" for y
      by (rule distinct_map_eqD [of qr_id, OF _ that(1) 2(1)]) (use I that(2) 2(2) in \<open>simp_all add: quota_inv_def\<close>)
    have sub: "claimed_keys s' \<subseteq> claimed_keys s"
    proof
      fix k assume "k \<in> claimed_keys s'"
      then consider "k \<in> fst ` set (qd_objects s)"
        | y where "y \<in> set (qd_reservations s)" "qr_object_key y = k" "qr_id y = i \<or> qr_status y \<noteq> ResReleased"
        unfolding 2(4) claimed_keys_def by (auto split: if_splits)
      then show "k \<in> claimed_keys s"
      proof cases
        case 2
        then have "qr_status y \<noteq> ResReleased" using u [of y] \<open>qr_status x \<noteq> ResReleased\<close> by blast
        with 2 show ?thesis by (auto simp: claimed_keys_def)
      qed (simp add: claimed_keys_def)
    qed
    have eq: "map (\<lambda>r. (qr_id r, qr_object_key r, qr_requested r)) (qd_reservations s') =
       map (\<lambda>r. (qr_id r, qr_object_key r, qr_requested r)) (qd_reservations s)"
      unfolding 2(4) by simp
    show ?thesis
      by (rule fewer_keys_inv [OF I sub _ _ _ eq]) (use I in \<open>simp_all add: 2(4) quota_inv_def\<close>)
  qed (use I in simp)
qed

lemma remove_inv:
  assumes "quota_inv sz s" shows "quota_inv sz (remove_object key s)"
  using assms by (intro fewer_keys_inv [OF assms]) (auto simp: remove_object_def claimed_keys_def quota_inv_def distinct_map_filter)

lemma quota_step_inv: "quota_step sz s s' \<Longrightarrow> quota_inv sz s \<Longrightarrow> quota_inv sz s'"
proof (induction rule: quota_step.induct)
  case (growth_reserved now sampled i op key sha s w s')
  then show ?case by (rule_tac reserve_inv)
next
  case (object_written r s)
  then show ?case by (rule_tac write_inv)
next
  case (growth_finalized st i s w s')
  then show ?case by (rule_tac finalize_inv)
next
  case (object_removed s key)
  then show ?case by (rule remove_inv)
qed

lemma quota_steps_inv: "(quota_step sz)\<^sup>*\<^sup>* s s' \<Longrightarrow> quota_inv sz s \<Longrightarrow> quota_inv sz s'"
  by (induction rule: rtranclp_induct) (auto intro: quota_step_inv)

definition fresh_bucket :: "quota_db \<Rightarrow> bool" where
  "fresh_bucket s \<longleftrightarrow> qc_enabled (qd_storage s) \<and> check_config (qd_storage s) \<and> qd_objects s = [] \<and> qd_reservations s = []"

lemma threshold_pos: "0 < c \<Longrightarrow> 0 < r \<Longrightarrow> 0 < quota_threshold c r"
  unfolding quota_threshold_def by (metis int_one_le_iff_zero_less minus_less_iff neg_imp_zdiv_neg_iff zmult_zless_mono2 mult_zero_right neg_less_0_iff_less not_numeral_less_zero zero_less_numeral zero_neq_numeral pos_imp_zdiv_neg_iff mult_pos_pos neg_0_less_iff_less)

lemma fresh_inv: "fresh_bucket s \<Longrightarrow> quota_inv sz s"
  using threshold_pos [of "qc_capacity (qd_storage s)" "qc_hard (qd_storage s)"]
  by (auto simp: fresh_bucket_def quota_inv_def check_config_def claimed_keys_def hard_limit_def)

lemma grow_limit: "grow_reservation now sampled i op key sha n existing s = (w, s') \<Longrightarrow> hard_limit s' = hard_limit s"
  by (auto simp: grow_reservation_def Let_def hard_limit_def check_failed_def split: if_splits)

lemma quota_step_limit: "quota_step sz s s' \<Longrightarrow> hard_limit s' = hard_limit s"
proof (induction rule: quota_step.induct)
  case (growth_reserved now sampled i op key sha s w s')
  then have "reserve_storage_growth now sampled i op key sha (int (sz key)) s = (w, s')"
    using repo_gate_ok by (auto simp: repo_reserve_def split: if_splits)
  then show ?case using grow_limit by (auto simp: reserve_storage_growth_def split: if_splits option.splits)
next
  case (growth_finalized st i s w s')
  then have "finalize_storage_growth i st s = (w, s')" using repo_gate_ok by (auto simp: repo_finalize_def)
  then show ?case by (auto simp: finalize_storage_growth_def hard_limit_def split: if_splits option.splits)
qed (simp_all add: write_object_def remove_object_def hard_limit_def)


section \<open>The client takes such steps\<close>

lemma granted_reservation:
  assumes I: "quota_inv sz s" and g: "repo_reserve now sampled i op key sha n s = Inr (w, s')"
  shows "\<exists>r \<in> set (qd_reservations s'). qw_reservation w = Some (qr_id r) \<and> qr_object_key r = key \<and> qr_status r \<noteq> ResReleased"
proof -
  have r: "reserve_storage_growth now sampled i op key sha n s = (w, s')" "qw_state w \<noteq> QuotaBlocked" "qw_state w \<noteq> QuotaUnavailable"
    using g repo_gate_ok by (auto simp: repo_reserve_def split: if_splits)
  have grow: ?thesis
    if q: "grow_reservation now sampled i op key sha n e s = (w, s')"
      "\<And>x. e = Some x \<Longrightarrow> x \<in> set (qd_reservations s) \<and> qr_object_key x = key" for e
  proof -
    define s1 where "s1 = s\<lparr>qd_reservations := map (expire_reservation now) (qd_reservations s)\<rparr>"
    define row where "row = granted_row now (qd_storage s) i op key sha n (used_bytes s1 - replaced_size key s1) (reserved_bytes now key s1) e"
    have a: "qw_reservation w = Some (qr_id row)" and rs: "qd_reservations s' = (case e of
        None \<Rightarrow> map (expire_reservation now) (qd_reservations s) @ [row]
      | Some r \<Rightarrow> map (\<lambda>x. if qr_id x = qr_id r then row else x) (map (expire_reservation now) (qd_reservations s)))"
      using q(1) r(2,3) unfolding row_def s1_def grow_reservation_def Let_def
      by (auto simp: unavailable_row_def split: option.splits if_splits)
    have b: "qr_object_key row = key" "qr_status row \<noteq> ResReleased"
      using q(2) by (cases e; simp add: row_def granted_row_def)+
    have "row \<in> set (qd_reservations s')"
    proof (cases e)
      case (Some x)
      then have "x \<in> set (qd_reservations s)" using q(2) by simp
      then show ?thesis using rs Some by (auto simp: image_iff intro!: bexI [of _ x])
    qed (simp add: rs)
    then show ?thesis using a b by blast
  qed
  show ?thesis
  proof (cases "find (\<lambda>r. qr_operation_key r = op) (qd_reservations s)")
    case None
    then have "grow_reservation now sampled i op key sha n None s = (w, s')"
      using r I by (auto simp: quota_inv_def reserve_storage_growth_def unavailable_row_def split: if_splits)
    then show ?thesis by (rule grow) simp
  next
    case (Some x)
    then have x: "x \<in> set (qd_reservations s)" by (auto dest: find_SomeD)
    have "qr_object_key x = key" and alt: "w = reservation_answer x \<and> s' = s \<and> qr_status x \<in> {ResReserved, ResCommitted} \<or>
        grow_reservation now sampled i op key sha n (Some x) s = (w, s')"
      using r Some I by (auto simp: quota_inv_def reserve_storage_growth_def unavailable_row_def split: if_splits)
    then show ?thesis
    proof (elim disjE)
      assume "grow_reservation now sampled i op key sha n (Some x) s = (w, s')"
      then show ?thesis by (rule grow) (use x \<open>qr_object_key x = key\<close> in auto)
    qed (use x in \<open>auto simp: reservation_answer_def\<close>)
  qed
qed

lemma write_outcome_steps:
  assumes "r \<in> set (qd_reservations s)" "qr_status r \<noteq> ResReleased" "qr_object_key r = key"
  shows "(quota_step sz)\<^sup>*\<^sup>* s (snd (write_outcome E key (int (sz key)) s))"
  using quota_step.object_written [OF assms(1,2), of sz] assms(3)
  by (auto simp: write_outcome_def split: call_result.splits)

theorem reserve_growth_steps:
  assumes I: "quota_inv sz s" and i: "ge_id E \<notin> qr_id ` set (qd_reservations s)"
  shows "(quota_step sz)\<^sup>*\<^sup>* s (snd (reserve_growth E op key sha (int (sz key)) s))"
proof (cases "repo_reserve (ge_now E) (ge_readable E) (ge_id E) op key sha (int (sz key)) s")
  case (Inr y)
  obtain w s1 where y: "y = (w, s1)" by fastforce
  have g: "repo_reserve (ge_now E) (ge_readable E) (ge_id E) op key sha (int (sz key)) s = Inr (w, s1)" using Inr y by simp
  from granted_reservation [OF I g] obtain r where r: "r \<in> set (qd_reservations s1)" "qw_reservation w = Some (qr_id r)"
      "qr_object_key r = key" "qr_status r \<noteq> ResReleased" by blast
  obtain f s2 where f: "write_outcome E key (int (sz key)) s1 = (f, s2)" by fastforce
  have a: "quota_step sz s s1" by (rule growth_reserved [where sz = sz and key = key, OF g i])
  have b: "(quota_step sz)\<^sup>*\<^sup>* s1 s2" using write_outcome_steps [OF r(1,4,3), of sz E] f by simp
  have c: "quota_step sz s2 s3" if "repo_finalize (qr_id r) st s2 = Inr (v, s3)" "st \<in> {ResCommitted, ResUncertain}" for st v s3
    using growth_finalized [OF that(2,1)] .
  have d: "(quota_step sz)\<^sup>*\<^sup>* s s2" using a b by (rule converse_rtranclp_into_rtranclp)
  have e: "(quota_step sz)\<^sup>*\<^sup>* s s3" if "repo_finalize (qr_id r) st s2 = Inr (v, s3)" "st \<in> {ResCommitted, ResUncertain}" for st v s3
    using d c [OF that] by (rule rtranclp.rtrancl_into_rtrancl)
  show ?thesis
    using g f r(2) d e by (auto simp: reserve_growth_def commit_storage_growth_def mark_storage_growth_uncertain_def
        split: option.splits sum.splits prod.splits)
qed (simp add: reserve_growth_def)

section \<open>What the gate loses\<close>

text \<open>Only warnings are ever recorded: a refusal raises inside its transaction, which is rolled back.\<close>

definition only_warnings :: "quota_db \<Rightarrow> bool" where
  "only_warnings s \<longleftrightarrow> (\<forall>a \<in> set (qd_alerts s). al_state a = QuotaWarning)"

lemma insert_alert_set: "a \<in> set (insert_alert now d res st err xs) \<Longrightarrow> a \<in> set xs \<or> al_state a = st"
  by (auto simp: insert_alert_def split: if_splits)

theorem refusals_leave_no_alert:
  assumes "only_warnings s"
  shows "repo_reserve now sampled i op key sha n s = Inr (w, s') \<Longrightarrow> only_warnings s'"
    "repo_check_database now db_size op n s = Inr (w, s') \<Longrightarrow> only_warnings s'"
proof -
  have g: "only_warnings s'" if q: "grow_reservation now sampled i op key sha n e s = (w, s')"
    "qw_state w \<noteq> QuotaBlocked" "qw_state w \<noteq> QuotaUnavailable" for e
    using q assms by (cases "qw_state w")
      (auto simp: grow_reservation_def Let_def unavailable_row_def only_warnings_def split: if_splits dest!: insert_alert_set)
  show "repo_reserve now sampled i op key sha n s = Inr (w, s') \<Longrightarrow> only_warnings s'"
    using assms g by (auto simp: repo_reserve_def reserve_storage_growth_def unavailable_row_def
        split: if_splits option.splits dest!: repo_gate_ok)
  show "repo_check_database now db_size op n s = Inr (w, s') \<Longrightarrow> only_warnings s'"
    using assms by (cases "qw_state w") (auto simp: repo_check_database_def check_database_growth_def Let_def unavailable_row_def only_warnings_def
        split: if_splits option.splits dest!: repo_gate_ok insert_alert_set)
qed

section \<open>Examples\<close>

definition qx_config :: quota_config where
  "qx_config = \<lparr>qc_enabled = True, qc_capacity = 10, qc_warning = 7000, qc_hard = 8500, qc_dedupe = 3600, qc_reservation = 900,
     qc_last_used = None, qc_last_checked = None, qc_last_error = None\<rparr>"

definition qx_db :: quota_db where
  "qx_db = \<lparr>qd_database = qx_config, qd_storage = qx_config, qd_reservations = [], qd_alerts = [], qd_objects = []\<rparr>"

definition qx_env :: growth_env where
  "qx_env = \<lparr>ge_now = 0, ge_readable = True, ge_id = 1, ge_write = Works, ge_settles = True\<rparr>"

definition qx_sizes :: "pystr \<Rightarrow> nat" where
  "qx_sizes k = (if k = ustr ''a'' then 8 else 0)"

definition qx_stored :: quota_db where
  "qx_stored = snd (reserve_growth qx_env (ustr ''op'') (ustr ''a'') 0 8 qx_db)"

lemma qx_fresh: "fresh_bucket qx_db"
  by (simp add: fresh_bucket_def qx_db_def qx_config_def check_config_def)

lemma qx_steps: "(quota_step qx_sizes)\<^sup>*\<^sup>* qx_db qx_stored"
  using reserve_growth_steps [OF fresh_inv [OF qx_fresh], of qx_env qx_sizes "ustr ''op''" "ustr ''a''" 0]
  by (simp add: qx_stored_def qx_sizes_def qx_db_def)

lemma qx_used: "used_bytes qx_stored = 8" "hard_limit qx_db = 9"
  by code_simp+


text \<open>Eight of nine bytes are written and deleted again: then the empty bucket refuses one byte.\<close>

theorem deleted_bytes_stay_reserved:
  "used_bytes (remove_object (ustr ''a'') qx_stored) = 0 \<and>
   repo_reserve 1000000 True 2 (ustr ''op2'') (ustr ''b'') 1 1 (remove_object (ustr ''a'') qx_stored) =
     Inl (QuotaExceededError StorageResource ''storage_quota_exceeded'')"
proof (intro conjI)
  show "used_bytes (remove_object (ustr ''a'') qx_stored) = 0" by code_simp
  show "repo_reserve 1000000 True 2 (ustr ''op2'') (ustr ''b'') 1 1 (remove_object (ustr ''a'') qx_stored) =
     Inl (QuotaExceededError StorageResource ''storage_quota_exceeded'')" by code_simp
qed

end
