(* ===== verification/Document_Parsers.thy ===== *)
theory Document_Parsers
  imports Submission_Flow
begin

text \<open>
  \<open>backend/app/parsing/docx.py\<close> and \<open>parsing/pdf.py\<close>: the checks and the block extraction of the two
  parsers over what their libraries read. The ZIP directory, the XML trees, the body that python-docx
  iterates over, the object graph of pypdf and the lines of pdfplumber are data of the model; a
  library call may also raise, an exception that the parser turns into \<open>DocumentParseError\<close> or one
  that it does not catch.
\<close>

section \<open>Exceptions and blocks\<close>

datatype library_exn = CaughtException | EscapingException

datatype document_exn = ParseRejected string | ParserCrashed

definition caught_as :: "string \<Rightarrow> library_exn + 'a \<Rightarrow> document_exn + 'a" where
  "caught_as code r = (case r of
      Inl CaughtException \<Rightarrow> Inl (ParseRejected code) | Inl EscapingException \<Rightarrow> Inl ParserCrashed | Inr x \<Rightarrow> Inr x)"

record block_state =
  bs_blocks :: "document_block list"
  bs_characters :: nat

text \<open>\<open>append_block\<close>, shared by both parsers but for the locator; blank text adds nothing.\<close>

definition append_block ::
    "(pystr \<Rightarrow> pystr) \<Rightarrow> parse_limits \<Rightarrow> pystr \<Rightarrow> document_locator \<Rightarrow> block_state \<Rightarrow> document_exn + block_state" where
  "append_block nfc L text loc s = (let t = normalize_text nfc text in
     if t = [] then Inr s
     else if pl_max_characters L < bs_characters s + length t then Inl (ParseRejected ''document_text_too_large'')
     else if pl_max_blocks L \<le> length (bs_blocks s) then Inl (ParseRejected ''document_blocks_too_many'')
     else Inr \<lparr>bs_blocks = bs_blocks s @ [\<lparr>blk_id = block_name (length (bs_blocks s) + 1), blk_text = t, blk_locator = loc\<rparr>],
               bs_characters = bs_characters s + length t\<rparr>)"

definition no_blocks :: block_state where
  "no_blocks = \<lparr>bs_blocks = [], bs_characters = 0\<rparr>"

fun append_all ::
    "(pystr \<Rightarrow> pystr) \<Rightarrow> parse_limits \<Rightarrow> (pystr \<times> document_locator) list \<Rightarrow> block_state \<Rightarrow> document_exn + block_state" where
  "append_all nfc L [] s = Inr s"
| "append_all nfc L ((t, loc) # rest) s = bindR (append_block nfc L t loc s) (append_all nfc L rest)"

section \<open>The archive of a Word file\<close>

record relationship =
  rel_target_mode :: "pystr option"
  rel_type :: "pystr option"
  rel_target :: "pystr option"

record zip_entry =
  ze_name :: pystr
  ze_encrypted :: bool
  ze_size :: nat
  ze_compressed :: nat
  ze_content :: "library_exn + pystr"

record zip_archive =
  za_entries :: "zip_entry list"
  za_damaged :: "library_exn + bool"

text \<open>\<open>str.casefold\<close> and \<open>ElementTree.fromstring\<close> with the two kinds of children that are read.\<close>

record xml_env =
  xe_casefold :: "pystr \<Rightarrow> pystr"
  xe_relationships :: "pystr \<Rightarrow> relationship list option"
  xe_overrides :: "pystr \<Rightarrow> (pystr option \<times> pystr option) list option"

definition ends_with :: "pystr \<Rightarrow> pystr \<Rightarrow> bool" where
  "ends_with suffix s \<longleftrightarrow> is_prefix (rev suffix) (rev s)"

definition upper_ascii :: "pystr \<Rightarrow> pystr" where
  "upper_ascii s = map (\<lambda>c. if 97 \<le> c \<and> c \<le> 122 then c - 32 else c) s"

definition unsafe_entry_prefixes :: "pystr list" where
  "unsafe_entry_prefixes = [ustr ''word/embeddings/'', ustr ''word/activex/'']"

definition unsafe_relationship_types :: "pystr list" where
  "unsafe_relationship_types = map ustr
    [''http://schemas.microsoft.com/office/2006/relationships/activexcontrol'',
     ''http://schemas.microsoft.com/office/2006/relationships/activexcontrolbinary'',
     ''http://schemas.openxmlformats.org/officedocument/2006/relationships/control'',
     ''http://schemas.openxmlformats.org/officedocument/2006/relationships/oleobject'',
     ''http://schemas.openxmlformats.org/officedocument/2006/relationships/package'']"

definition macro_relationship_types :: "pystr list" where
  "macro_relationship_types = map ustr
    [''http://schemas.microsoft.com/office/2006/relationships/vbaproject'',
     ''http://schemas.openxmlformats.org/officedocument/2006/relationships/vbaproject'']"

definition office_document_relationship :: pystr where
  "office_document_relationship = ustr ''http://schemas.openxmlformats.org/officeDocument/2006/relationships/officeDocument''"

definition docx_main_content_type :: pystr where
  "docx_main_content_type = ustr ''application/vnd.openxmlformats-officedocument.wordprocessingml.document.main+xml''"

definition check_relationship :: "xml_env \<Rightarrow> relationship \<Rightarrow> document_exn + unit" where
  "check_relationship X r = (let t = xe_casefold X (case rel_type r of None \<Rightarrow> [] | Some x \<Rightarrow> x) in
     if rel_target_mode r = Some (ustr ''External'') then Inl (ParseRejected ''docx_external_relationship'')
     else if t \<in> set macro_relationship_types then Inl (ParseRejected ''docx_macro_unsupported'')
     else ensure (t \<notin> set unsafe_relationship_types) (ParseRejected ''docx_active_content_unsupported''))"

definition parsed_xml :: "'a option \<Rightarrow> document_exn + 'a" where
  "parsed_xml x = (case x of None \<Rightarrow> Inl (ParseRejected ''docx_archive_invalid'') | Some y \<Rightarrow> Inr y)"

definition check_xml :: "xml_env \<Rightarrow> zip_entry \<Rightarrow> document_exn + unit" where
  "check_xml X e =
     (if ends_with (ustr ''.xml'') (ze_name e) \<or> ends_with (ustr ''.rels'') (ze_name e)
      then bindR (caught_as ''docx_archive_invalid'' (ze_content e)) (\<lambda>xml.
        if is_substring (ustr ''<!DOCTYPE'') (upper_ascii xml) \<or> is_substring (ustr ''<!ENTITY'') (upper_ascii xml)
        then Inl (ParseRejected ''docx_xml_unsafe'')
        else if ends_with (ustr ''.rels'') (ze_name e)
        then bindR (parsed_xml (xe_relationships X xml)) (\<lambda>rels.
             bindR (mapR (check_relationship X) rels) (\<lambda>_. Inr ()))
        else Inr ())
      else Inr ())"

text \<open>
  One round of the loop over the entries, with the bytes counted so far. The ratio is a quotient of
  floats, exact enough for sizes below the limit that was checked before.
\<close>

definition unsafe_path :: "pystr \<Rightarrow> bool" where
  "unsafe_path name \<longleftrightarrow> is_prefix [47] name \<or> [46, 46] \<in> set (split_on 47 name)"

definition check_entry :: "xml_env \<Rightarrow> parse_limits \<Rightarrow> zip_entry \<Rightarrow> nat \<Rightarrow> document_exn + nat" where
  "check_entry X L e used = (let n = xe_casefold X (ze_name e); used' = used + ze_size e in
     if unsafe_path (ze_name e) \<or> ze_encrypted e then Inl (ParseRejected ''docx_archive_invalid'')
     else if n = ustr ''word/vbaproject.bin'' then Inl (ParseRejected ''docx_macro_unsupported'')
     else if \<exists>p \<in> set unsafe_entry_prefixes. is_prefix p n then Inl (ParseRejected ''docx_active_content_unsupported'')
     else if pl_max_uncompressed_bytes L < used' then Inl (ParseRejected ''docx_archive_too_large'')
     else if pl_max_zip_compression_ratio L * max 1 (ze_compressed e) < ze_size e
     then Inl (ParseRejected ''docx_archive_too_large'')
     else bindR (check_xml X e) (\<lambda>_. Inr used'))"

fun check_entries :: "xml_env \<Rightarrow> parse_limits \<Rightarrow> zip_entry list \<Rightarrow> nat \<Rightarrow> document_exn + nat" where
  "check_entries X L [] used = Inr used"
| "check_entries X L (e # es) used = bindR (check_entry X L e used) (check_entries X L es)"

definition lstrip_char :: "nat \<Rightarrow> pystr \<Rightarrow> pystr" where
  "lstrip_char c s = dropWhile (\<lambda>x. x = c) s"

definition main_relationship :: "relationship \<Rightarrow> bool" where
  "main_relationship r \<longleftrightarrow> rel_type r = Some office_document_relationship \<and>
     lstrip_char 47 (case rel_target r of None \<Rightarrow> [] | Some t \<Rightarrow> t) = ustr ''word/document.xml'' \<and>
     rel_target_mode r \<noteq> Some (ustr ''External'')"

definition read_entry :: "zip_archive \<Rightarrow> pystr \<Rightarrow> document_exn + pystr" where
  "read_entry a name = (case find (\<lambda>e. ze_name e = name) (za_entries a) of
      None \<Rightarrow> Inl ParserCrashed | Some e \<Rightarrow> caught_as ''docx_archive_invalid'' (ze_content e))"

definition validate_archive :: "xml_env \<Rightarrow> parse_limits \<Rightarrow> library_exn + zip_archive \<Rightarrow> document_exn + unit" where
  "validate_archive X L opened =
     bindR (caught_as ''docx_archive_invalid'' opened) (\<lambda>a. let names = map ze_name (za_entries a) in
     if pl_max_zip_entries L < length names \<or> \<not> distinct names then Inl (ParseRejected ''docx_archive_invalid'')
     else if \<not> list_all (\<lambda>n. n \<in> set names) docx_required_entries then Inl (ParseRejected ''docx_archive_invalid'')
     else bindR (check_entries X L (za_entries a) 0) (\<lambda>_.
     bindR (read_entry a (ustr ''[Content_Types].xml'')) (\<lambda>types_xml.
     bindR (parsed_xml (xe_overrides X types_xml)) (\<lambda>overrides.
     bindR (read_entry a (ustr ''_rels/.rels'')) (\<lambda>rels_xml.
     bindR (parsed_xml (xe_relationships X rels_xml)) (\<lambda>rels.
     if (Some (ustr ''/word/document.xml''), Some docx_main_content_type) \<notin> set overrides \<or>
        \<not> list_ex main_relationship rels
     then Inl (ParseRejected ''docx_archive_invalid'')
     else bindR (caught_as ''docx_archive_invalid'' (za_damaged a)) (\<lambda>damaged.
       ensure (\<not> damaged) (ParseRejected ''docx_archive_invalid''))))))))"

section \<open>Word documents\<close>

record docx_cell =
  dc_identity :: nat
  dc_nested :: bool
  dc_paragraphs :: "pystr list"

datatype body_item = BodyParagraph pystr | BodyTable "docx_cell list list" | BodyOther

record docx_story =
  dst_paragraphs :: "pystr list"
  dst_cells :: "pystr list"
  dst_text_box :: bool

record docx_source =
  ds_unsupported :: bool
  ds_stories :: "docx_story list"
  ds_body :: "body_item list"

definition story_empty :: "(pystr \<Rightarrow> pystr) \<Rightarrow> docx_story \<Rightarrow> bool" where
  "story_empty nfc st \<longleftrightarrow> list_all (\<lambda>t. normalize_text nfc t = []) (dst_paragraphs st) \<and>
     list_all (\<lambda>t. normalize_text nfc t = []) (dst_cells st) \<and> \<not> dst_text_box st"

text \<open>
  The cells of a row, appended as they are met; a merged cell appears again under the same identity
  and is skipped.
\<close>

definition cell_texts :: "nat \<Rightarrow> nat \<Rightarrow> nat \<Rightarrow> docx_cell \<Rightarrow> (pystr \<times> document_locator) list" where
  "cell_texts t r c cell = map (\<lambda>(p, text). (text, DocxTableParagraph t r c p))
     (zip [1..<length (dc_paragraphs cell) + 1] (dc_paragraphs cell))"

fun table_row ::
    "(pystr \<Rightarrow> pystr) \<Rightarrow> parse_limits \<Rightarrow> nat \<Rightarrow> nat \<Rightarrow> nat \<Rightarrow> docx_cell list \<Rightarrow> nat set \<times> block_state \<Rightarrow>
     document_exn + nat set \<times> block_state" where
  "table_row nfc L t r c [] z = Inr z"
| "table_row nfc L t r c (cell # cells) z =
     (if dc_identity cell \<in> fst z then table_row nfc L t r (c + 1) cells z
      else if dc_nested cell then Inl (ParseRejected ''docx_content_unsupported'')
      else bindR (append_all nfc L (cell_texts t r c cell) (snd z)) (\<lambda>s.
        table_row nfc L t r (c + 1) cells (insert (dc_identity cell) (fst z), s)))"

fun table_rows ::
    "(pystr \<Rightarrow> pystr) \<Rightarrow> parse_limits \<Rightarrow> nat \<Rightarrow> nat \<Rightarrow> docx_cell list list \<Rightarrow> nat set \<times> block_state \<Rightarrow>
     document_exn + nat set \<times> block_state" where
  "table_rows nfc L t r [] z = Inr z"
| "table_rows nfc L t r (row # rows) z = bindR (table_row nfc L t r 1 row z) (table_rows nfc L t (r + 1) rows)"

fun docx_body ::
    "(pystr \<Rightarrow> pystr) \<Rightarrow> parse_limits \<Rightarrow> nat \<Rightarrow> nat \<Rightarrow> body_item list \<Rightarrow> block_state \<Rightarrow> document_exn + block_state" where
  "docx_body nfc L p t [] s = Inr s"
| "docx_body nfc L p t (BodyParagraph text # items) s =
     bindR (append_block nfc L text (DocxParagraph (p + 1)) s) (docx_body nfc L (p + 1) t items)"
| "docx_body nfc L p t (BodyTable rows # items) s =
     bindR (table_rows nfc L (t + 1) 1 rows ({}, s)) (\<lambda>z. docx_body nfc L p (t + 1) items (snd z))"
| "docx_body nfc L p t (BodyOther # items) s = Inl (ParseRejected ''docx_content_unsupported'')"

definition parse_docx ::
    "(pystr \<Rightarrow> pystr) \<Rightarrow> xml_env \<Rightarrow> parse_limits \<Rightarrow> library_exn + zip_archive \<Rightarrow> library_exn + docx_source \<Rightarrow>
     document_exn + parsed_document" where
  "parse_docx nfc X L archive opened =
     bindR (validate_archive X L archive) (\<lambda>_.
     bindR (caught_as ''docx_parse_failed'' opened) (\<lambda>src.
     if ds_unsupported src \<or> \<not> list_all (story_empty nfc) (ds_stories src)
     then Inl (ParseRejected ''docx_content_unsupported'')
     else bindR (docx_body nfc L 0 0 (ds_body src) no_blocks) (\<lambda>s.
       if bs_blocks s = [] then Inl (ParseRejected ''document_empty'')
       else Inr \<lparr>doc_media_type = MediaDocx, doc_page_count = None, doc_character_count = int (bs_characters s),
              doc_blocks = bs_blocks s\<rparr>)))"

section \<open>PDF structure\<close>

text \<open>
  The object graph that pypdf offers: references with their targets, and direct containers with the
  identity of the Python object. \<open>get_object\<close> may raise.
\<close>

datatype pdf_value =
    PdfRef nat nat
  | PdfDict nat "(pystr \<times> pdf_value) list"
  | PdfArray nat "pdf_value list"
  | PdfAtom pystr

definition forbidden_pdf_keys :: "pystr list" where
  "forbidden_pdf_keys = map ustr [''/AA'', ''/AcroForm'', ''/EmbeddedFiles'', ''/JavaScript'', ''/Launch'', ''/OpenAction'',
     ''/RichMedia'', ''/XFA'']"

definition forbidden_pdf_actions :: "pystr list" where
  "forbidden_pdf_actions = map ustr [''/GoToE'', ''/GoToR'', ''/ImportData'', ''/JavaScript'', ''/Launch'', ''/Rendition'',
     ''/SubmitForm'', ''/URI'']"

definition max_pdf_objects :: nat where
  "max_pdf_objects = 100000"

text \<open>\<open>str(current.get("/S"))\<close> of a name or string is its text; of a container it is never an action.\<close>

definition pdf_text :: "pdf_value option \<Rightarrow> pystr" where
  "pdf_text v = (case v of Some (PdfAtom s) \<Rightarrow> s | _ \<Rightarrow> [])"

definition active_dictionary :: "(pystr \<times> pdf_value) list \<Rightarrow> bool" where
  "active_dictionary kvs \<longleftrightarrow> (\<exists>k \<in> set forbidden_pdf_keys. k \<in> fst ` set kvs) \<or>
     pdf_text (map_of kvs (ustr ''/S'')) \<in> set forbidden_pdf_actions"

record pdf_scan =
  ps_refs :: "(nat \<times> nat) set"
  ps_direct :: "nat set"
  ps_inspected :: nat

text \<open>\<open>reject_active_content\<close>: one round of the loop inspects one value or skips a seen one.\<close>

definition pdf_children :: "pdf_value \<Rightarrow> pdf_value list" where
  "pdf_children v = (case v of PdfDict _ kvs \<Rightarrow> map snd kvs | PdfArray _ xs \<Rightarrow> xs | _ \<Rightarrow> [])"

definition inspect_value :: "pdf_value \<Rightarrow> pdf_scan \<Rightarrow> document_exn + pdf_scan" where
  "inspect_value v z =
     (if max_pdf_objects < ps_inspected z + 1 then Inl (ParseRejected ''pdf_structure_too_complex'')
      else case v of
        PdfDict _ kvs \<Rightarrow> if active_dictionary kvs then Inl (ParseRejected ''pdf_active_content_unsupported'')
          else Inr (z\<lparr>ps_inspected := ps_inspected z + 1\<rparr>)
      | _ \<Rightarrow> Inr (z\<lparr>ps_inspected := ps_inspected z + 1\<rparr>))"

datatype scan_round = SkipValue | InspectValue pdf_value pdf_scan | ScanRaises document_exn

definition scan_round :: "(nat \<times> nat \<Rightarrow> library_exn + pdf_value) \<Rightarrow> pdf_value \<Rightarrow> pdf_scan \<Rightarrow> scan_round" where
  "scan_round get v z = (case v of
      PdfRef i g \<Rightarrow>
        if (i, g) \<in> ps_refs z then SkipValue
        else (case caught_as ''pdf_parse_failed'' (get (i, g)) of
            Inl e \<Rightarrow> ScanRaises e
          | Inr w \<Rightarrow> InspectValue w (z\<lparr>ps_refs := insert (i, g) (ps_refs z)\<rparr>))
    | PdfDict i _ \<Rightarrow> if i \<in> ps_direct z then SkipValue else InspectValue v (z\<lparr>ps_direct := insert i (ps_direct z)\<rparr>)
    | PdfArray i _ \<Rightarrow> if i \<in> ps_direct z then SkipValue else InspectValue v (z\<lparr>ps_direct := insert i (ps_direct z)\<rparr>)
    | PdfAtom _ \<Rightarrow> InspectValue v z)"

lemma inspect_counts: "inspect_value v z = Inr z' \<Longrightarrow> ps_inspected z < max_pdf_objects \<and> ps_inspected z' = Suc (ps_inspected z) \<and>
    ps_refs z' = ps_refs z \<and> ps_direct z' = ps_direct z"
  by (auto simp: inspect_value_def split: if_splits pdf_value.splits)

lemma scan_round_counts: "scan_round get v z = InspectValue w z' \<Longrightarrow> ps_inspected z' = ps_inspected z"
  by (auto simp: scan_round_def split: pdf_value.splits if_splits sum.splits)

text \<open>The stack is popped at its end, and the children of a container are pushed in order.\<close>

function scan_objects :: "(nat \<times> nat \<Rightarrow> library_exn + pdf_value) \<Rightarrow> pdf_value list \<Rightarrow> pdf_scan \<Rightarrow> document_exn + pdf_scan" where
  "scan_objects get stack z =
     (if stack = [] then Inr z
      else case scan_round get (last stack) z of
        SkipValue \<Rightarrow> scan_objects get (butlast stack) z
      | ScanRaises e \<Rightarrow> Inl e
      | InspectValue v z1 \<Rightarrow>
          (case inspect_value v z1 of
             Inl e \<Rightarrow> Inl e
           | Inr z2 \<Rightarrow> scan_objects get (butlast stack @ pdf_children v) z2))"
  by pat_completeness auto
termination
  by (relation "measures [\<lambda>(get, stack, z). max_pdf_objects - ps_inspected z, \<lambda>(get, stack, z). length stack]")
    (auto dest!: inspect_counts scan_round_counts)

declare scan_objects.simps [simp del]

definition reject_active_content :: "(nat \<times> nat \<Rightarrow> library_exn + pdf_value) \<Rightarrow> pdf_value \<Rightarrow> document_exn + unit" where
  "reject_active_content get trailer =
     bindR (scan_objects get [trailer] \<lparr>ps_refs = {}, ps_direct = {}, ps_inspected = 0\<rparr>) (\<lambda>_. Inr ())"

section \<open>PDF documents\<close>

record pdf_line =
  pln_text :: pystr
  pln_box :: "decimal \<times> decimal \<times> decimal \<times> decimal"

record pdf_page =
  pp_lines :: "pdf_line list"
  pp_images :: bool
  pp_drawn :: bool

record pdf_source =
  pf_encrypted :: bool
  pf_page_count :: nat
  pf_trailer :: pdf_value
  pf_object :: "nat \<times> nat \<Rightarrow> library_exn + pdf_value"
  pf_pages :: "library_exn + pdf_page list"

fun pdf_lines ::
    "(pystr \<Rightarrow> pystr) \<Rightarrow> parse_limits \<Rightarrow> nat \<Rightarrow> nat \<Rightarrow> pdf_line list \<Rightarrow> block_state \<Rightarrow> document_exn + nat \<times> block_state" where
  "pdf_lines nfc L page n [] s = Inr (n, s)"
| "pdf_lines nfc L page n (l # ls) s =
     (if normalize_text nfc (pln_text l) = [] then pdf_lines nfc L page n ls s
      else bindR (append_block nfc L (pln_text l) (PdfTextBlock page (n + 1) (pln_box l)) s)
             (pdf_lines nfc L page (n + 1) ls))"

record page_state =
  pg_blocks :: block_state
  pg_scanned :: bool
  pg_unextractable :: bool

definition pdf_page_step :: "(pystr \<Rightarrow> pystr) \<Rightarrow> parse_limits \<Rightarrow> nat \<Rightarrow> pdf_page \<Rightarrow> page_state \<Rightarrow> document_exn + page_state" where
  "pdf_page_step nfc L page p z =
     bindR (pdf_lines nfc L page 0 (pp_lines p) (pg_blocks z)) (\<lambda>(n, s).
     Inr (if 0 < n then z\<lparr>pg_blocks := s\<rparr>
          else if pp_images p then z\<lparr>pg_blocks := s, pg_scanned := True\<rparr>
          else if pp_drawn p then z\<lparr>pg_blocks := s, pg_unextractable := True\<rparr>
          else z\<lparr>pg_blocks := s\<rparr>))"

fun pdf_pages :: "(pystr \<Rightarrow> pystr) \<Rightarrow> parse_limits \<Rightarrow> nat \<Rightarrow> pdf_page list \<Rightarrow> page_state \<Rightarrow> document_exn + page_state" where
  "pdf_pages nfc L page [] z = Inr z"
| "pdf_pages nfc L page (p # ps) z = bindR (pdf_page_step nfc L page p z) (pdf_pages nfc L (page + 1) ps)"

text \<open>The verdict after the last page.\<close>

definition pdf_result :: "pdf_source \<Rightarrow> page_state \<Rightarrow> document_exn + parsed_document" where
  "pdf_result src z = (let s = pg_blocks z in
     if pg_scanned z then Inl (ParseRejected (if bs_blocks s = [] then ''pdf_scan_unsupported'' else ''pdf_partial_scan_unsupported''))
     else if pg_unextractable z then Inl (ParseRejected ''pdf_text_unextractable'')
     else if bs_blocks s = [] then Inl (ParseRejected ''document_empty'')
     else Inr \<lparr>doc_media_type = MediaPdf, doc_page_count = Some (int (pf_page_count src)),
            doc_character_count = int (bs_characters s), doc_blocks = bs_blocks s\<rparr>)"

definition parse_pdf :: "(pystr \<Rightarrow> pystr) \<Rightarrow> parse_limits \<Rightarrow> library_exn + pdf_source \<Rightarrow> document_exn + parsed_document" where
  "parse_pdf nfc L opened =
     bindR (caught_as ''pdf_parse_failed'' opened) (\<lambda>src.
     if pf_encrypted src then Inl (ParseRejected ''document_encrypted'')
     else if pf_page_count src = 0 then Inl (ParseRejected ''document_empty'')
     else if pl_max_pdf_pages L < pf_page_count src then Inl (ParseRejected ''pdf_pages_too_many'')
     else bindR (reject_active_content (pf_object src) (pf_trailer src)) (\<lambda>_.
     bindR (caught_as ''pdf_parse_failed'' (pf_pages src)) (\<lambda>pages.
     if length pages \<noteq> pf_page_count src then Inl (ParseRejected ''pdf_parse_failed'')
     else bindR (pdf_pages nfc L 1 pages \<lparr>pg_blocks = no_blocks, pg_scanned = False, pg_unextractable = False\<rparr>) (pdf_result src))))"

section \<open>Dispatch\<close>

text \<open>\<open>parse_document\<close>, with the libraries' views of the staged content as one record.\<close>

record parser_env =
  pe_nfc :: "pystr \<Rightarrow> pystr"
  pe_xml :: xml_env
  pe_limits :: parse_limits
  pe_archive :: "pystr \<Rightarrow> library_exn + zip_archive"
  pe_docx :: "pystr \<Rightarrow> library_exn + docx_source"
  pe_pdf :: "pystr \<Rightarrow> library_exn + pdf_source"

definition parse_document :: "parser_env \<Rightarrow> staged_document \<Rightarrow> document_exn + parsed_document" where
  "parse_document P d =
     (if std_media d = MediaDocx
      then parse_docx (pe_nfc P) (pe_xml P) (pe_limits P) (pe_archive P (std_content d)) (pe_docx P (std_content d))
      else parse_pdf (pe_nfc P) (pe_limits P) (pe_pdf P (std_content d)))"

text \<open>What the upload sees of a parse.\<close>

definition upload_parse :: "parser_env \<Rightarrow> staged_document \<Rightarrow> upload_exn + parsed_document" where
  "upload_parse P d = (case parse_document P d of
      Inl (ParseRejected c) \<Rightarrow> Inl (ParseFailed c) | Inl ParserCrashed \<Rightarrow> Inl UnexpectedError | Inr p \<Rightarrow> Inr p)"

end
