(* ===== verification/Submission_Guarantees.thy ===== *)
theory Submission_Guarantees
  imports Submission_Flow
begin

text \<open>
  What an upload guarantees: which steps may break, and how, without leaving a paper between two
  states; and what is left behind when they break otherwise.
\<close>

section \<open>The row of the upload\<close>

text \<open>
  \<open>owned_row R\<close>: all rows but the one of this upload are rows of \<open>R\<close>, and this one is in one of the
  given states.
\<close>

definition owned_row ::
    "submission_row set \<Rightarrow> uuid \<Rightarrow> uuid \<Rightarrow> uuid \<Rightarrow> media_type \<Rightarrow> submission_status set \<Rightarrow> upload_world \<Rightarrow> bool" where
  "owned_row R owner assignment i media S w \<longleftrightarrow>
     submissions_ok (uw_db w) \<and> owner \<in> set (db_active_teachers (uw_db w)) \<and>
     (\<forall>v \<in> set (db_submissions (uw_db w)). sub_id v = i \<or> v \<in> R) \<and>
     (\<exists>u \<in> set (db_submissions (uw_db w)). sub_id u = i \<and> sub_owner u = owner \<and> sub_assignment u = assignment \<and>
        sub_media u = media \<and> sub_status u \<in> S)"

lemma owned_row_mono: "owned_row R owner a i m S w \<Longrightarrow> S \<subseteq> S' \<Longrightarrow> owned_row R owner a i m S' w"
  unfolding owned_row_def by blast

lemma owned_row_store [simp]: "owned_row R owner a i m S (w\<lparr>uw_store := f\<rparr>) = owned_row R owner a i m S w"
  by (simp add: owned_row_def)

lemma owned_row_cases: "owned_row R owner a i m S w \<Longrightarrow> \<exists>st \<in> S. owned_row R owner a i m {st} w"
  unfolding owned_row_def by blast

lemma moved_check:
  assumes "check_submission u" "submission_transition (sub_status u) new key err"
    "key = None \<or> key = Some (extracted_key (sub_owner u) (sub_assignment u) (sub_id u))"
  shows "check_submission (moved_submission new key err u)"
  using assms by (auto simp: check_submission_def submission_transition_def moved_submission_def extracted_key_def
      code_blank_def list_all_iff split: option.splits parse_code.splits)

lemma replace_submission_ok:
  assumes ok: "submissions_ok s" and u: "u \<in> set (db_submissions s)" and c: "check_submission (moved_submission new key err u)"
  shows "submissions_ok (s\<lparr>db_submissions := replace_row sub_id u (moved_submission new key err u) (db_submissions s)\<rparr>)"
proof -
  let ?rs = "replace_row sub_id u (moved_submission new key err u) (db_submissions s)"
  have d: "distinct (map sub_id (db_submissions s))" using ok by (simp add: submissions_ok_def)
  have same: "map f ?rs = map f (db_submissions s)" if q: "f (moved_submission new key err u) = f u" for f :: "submission_row \<Rightarrow> 'k"
    by (rule replace_row_map) (use q submission_by_id [OF ok _ u] in auto)
  have "list_all check_submission ?rs"
    using ok c by (auto simp: submissions_ok_def list_all_iff dest!: replace_row_subset)
  then show ?thesis using ok same [of sub_id] same [of sub_source_key] same [of "\<lambda>u. (sub_assignment u, sub_sha256 u)"]
    by (simp add: submissions_ok_def)
qed

lemma db_transition_moves:
  assumes w: "owned_row R owner a i m {st} w" and t: "submission_transition st new key err"
    and k: "key = None \<or> key = Some (extracted_key owner a i)"
  shows "\<exists>v w'. db_call (repo_transition owner i new key err) w = (Inr (Some v), w') \<and> sv_status v = new \<and>
    owned_row R owner a i m {new} w' \<and> uw_store w' = uw_store w"
proof -
  from w obtain u where ok: "submissions_ok (uw_db w)" and act: "owner \<in> set (db_active_teachers (uw_db w))"
    and u: "u \<in> set (db_submissions (uw_db w))" "sub_id u = i" "sub_owner u = owner" "sub_assignment u = a"
      "sub_media u = m" "sub_status u = st"
    and oth: "\<forall>v \<in> set (db_submissions (uw_db w)). sub_id v = i \<or> v \<in> R"
    unfolding owned_row_def by blast
  let ?u' = "moved_submission new key err u"
  have c: "check_submission ?u'"
    by (rule moved_check) (use u t k ok in \<open>auto simp: submissions_ok_def list_all_iff\<close>)
  let ?s' = "(uw_db w)\<lparr>db_submissions := replace_row sub_id u ?u' (db_submissions (uw_db w))\<rparr>"
  have d: "distinct (map sub_id (db_submissions (uw_db w)))" using ok by (simp add: submissions_ok_def)
  have r: "repo_transition owner i new key err (uw_db w) = Inr (Some (to_view ?u'), ?s')"
    using transition_row [OF ok u(1-3) act] t c u(6) by simp
  have "owned_row R owner a i m {new} (w\<lparr>uw_db := ?s'\<rparr>)"
    unfolding owned_row_def using replace_submission_ok [OF ok u(1) c] act oth u replace_row_set [OF d u(1), of ?u']
    by auto
  then have "db_call (repo_transition owner i new key err) w = (Inr (Some (to_view ?u')), w\<lparr>uw_db := ?s'\<rparr>) \<and>
      sv_status (to_view ?u') = new \<and> owned_row R owner a i m {new} (w\<lparr>uw_db := ?s'\<rparr>) \<and> uw_store (w\<lparr>uw_db := ?s'\<rparr>) = uw_store w"
    by (simp add: db_call_def r) (simp add: to_view_def)
  then show ?thesis by blast
qed

lemma db_transition_refused:
  assumes w: "owned_row R owner a i m {st} w" and t: "\<not> submission_transition st new key err"
  shows "db_call (repo_transition owner i new key err) w = (Inl (DatabaseFailed SubmissionTransitionInvalid), w)"
proof -
  from w obtain u where "submissions_ok (uw_db w)" "owner \<in> set (db_active_teachers (uw_db w))"
    "u \<in> set (db_submissions (uw_db w))" "sub_id u = i" "sub_owner u = owner" "sub_status u = st"
    unfolding owned_row_def by blast
  with transition_row [of "uw_db w" u i owner new key err] t show ?thesis by (simp add: db_call_def)
qed

section \<open>Environments that leave nothing half done\<close>

definition cancel_only :: "call_result \<Rightarrow> bool" where
  "cancel_only c \<longleftrightarrow> (case c of Works \<Rightarrow> True | Breaks e _ \<Rightarrow> e = UploadCancelled)"

definition cancelled_before :: "call_result \<Rightarrow> bool" where
  "cancelled_before c \<longleftrightarrow> (case c of Works \<Rightarrow> True | Breaks e done_before \<Rightarrow> e = UploadCancelled \<and> \<not> done_before)"

definition breaks_before :: "call_result \<Rightarrow> bool" where
  "breaks_before c \<longleftrightarrow> (case c of Works \<Rightarrow> True | Breaks _ done_before \<Rightarrow> \<not> done_before)"

definition handled_exn :: "upload_exn \<Rightarrow> bool" where
  "handled_exn e \<longleftrightarrow> e = UploadCancelled \<or> e = StorageFailed \<or>
     (case e of QuotaFailed c \<Rightarrow> \<not> code_blank (ParseCode c) | _ \<Rightarrow> False)"

definition storage_call :: "call_result \<Rightarrow> bool" where
  "storage_call c \<longleftrightarrow> (case c of Works \<Rightarrow> True | Breaks e _ \<Rightarrow> handled_exn e)"

definition parser_ok :: "(staged_document \<Rightarrow> upload_exn + parsed_document) \<Rightarrow> bool" where
  "parser_ok f \<longleftrightarrow> (\<forall>d e. f d = Inl e \<longrightarrow> e = UploadCancelled \<or> (\<exists>c. e = ParseFailed c \<and> \<not> code_blank (ParseCode c)))"

definition settling_env :: "upload_env \<Rightarrow> bool" where
  "settling_env E \<longleftrightarrow>
     breaks_before (ue_call E StepReserve) \<and> breaks_before (ue_call E StepReset) \<and>
     storage_call (ue_call E StepPutSource) \<and> storage_call (ue_call E StepPutText) \<and>
     list_all (\<lambda>st. cancel_only (ue_call E st)) [StepFailSource, StepParsing, StepParse, StepFailParse, StepFailText] \<and>
     cancelled_before (ue_call E StepReady) \<and>
     (\<forall>done_before. ue_call E StepDelete \<noteq> Breaks ProcessDied done_before) \<and>
     ue_call E StepFailCancelled = Works \<and> parser_ok (ue_parse E)"

section \<open>The steps\<close>

definition unsettled :: "submission_status set" where
  "unsettled = {SubUploaded, SubParsing}"

definition err_post ::
    "submission_row set \<Rightarrow> uuid \<Rightarrow> uuid \<Rightarrow> uuid \<Rightarrow> media_type \<Rightarrow> upload_exn \<Rightarrow> upload_world \<Rightarrow> bool" where
  "err_post R owner a i m e w \<longleftrightarrow> e \<noteq> ProcessDied \<and>
     (owned_row R owner a i m {SubFailed} w \<or> e = UploadCancelled \<and> owned_row R owner a i m (insert SubFailed unsettled) w)"

lemma err_postI: "e \<noteq> ProcessDied \<Longrightarrow> owned_row R owner a i m {SubFailed} w \<Longrightarrow> err_post R owner a i m e w"
  by (simp add: err_post_def)

lemma err_post_cancelled:
  "owned_row R owner a i m S w \<Longrightarrow> S \<subseteq> insert SubFailed unsettled \<Longrightarrow> err_post R owner a i m UploadCancelled w"
  by (auto simp: err_post_def intro: owned_row_mono)

lemma transition_spec:
  assumes t: "submission_transition st new key err" and k: "key = None \<or> key = Some (extracted_key owner a i)"
    and c: "cancel_only (ue_call E step)"
    and s: "st \<in> unsettled" "new \<in> insert SubFailed unsettled \<or> cancelled_before (ue_call E step)"
  shows "triple (\<lambda>w. owned_row R owner a i m {st} w \<and> G (uw_store w)) (transition_or_raise E step owner i new key err)
    (\<lambda>v w. sv_status v = new \<and> owned_row R owner a i m {new} w \<and> G (uw_store w)) (err_post R owner a i m)"
proof (rule tripleI)
  fix w assume w: "owned_row R owner a i m {st} w \<and> G (uw_store w)"
  from db_transition_moves [OF conjunct1 [OF w] t k] obtain v w'
    where e: "db_call (repo_transition owner i new key err) w = (Inr (Some v), w')" "sv_status v = new"
      "owned_row R owner a i m {new} w'" "uw_store w' = uw_store w"
    by blast
  have "err_post R owner a i m UploadCancelled w" by (rule err_post_cancelled [OF conjunct1 [OF w]]) (use s in auto)
  moreover have "new \<in> insert SubFailed unsettled \<Longrightarrow> err_post R owner a i m UploadCancelled w'"
    by (rule err_post_cancelled [OF e(3)]) auto
  ultimately show "case transition_or_raise E step owner i new key err w of
      (Inr v, w') \<Rightarrow> sv_status v = new \<and> owned_row R owner a i m {new} w' \<and> G (uw_store w')
    | (Inl e, w') \<Rightarrow> err_post R owner a i m e w'"
  proof (cases "ue_call E step")
    case Works
    then show ?thesis using e w by (simp add: transition_or_raise_def bindU_def await_def returnU_def)
  next
    case (Breaks x d)
    then have x: "x = UploadCancelled" "d \<longrightarrow> new \<in> insert SubFailed unsettled"
      using c s(2) by (auto simp: cancel_only_def cancelled_before_def)
    have "transition_or_raise E step owner i new key err w = (Inl x, if d then w' else w)"
      using Breaks e(1) by (simp add: transition_or_raise_def bindU_def await_def)
    then show ?thesis using x \<open>err_post R owner a i m UploadCancelled w\<close>
        \<open>new \<in> insert SubFailed unsettled \<Longrightarrow> err_post R owner a i m UploadCancelled w'\<close>
      by simp
  qed
qed

lemma mark_failed_spec:
  assumes "st \<in> unsettled" "cancel_only (ue_call E step)" "\<not> code_blank (ParseCode c)"
  shows "triple (owned_row R owner a i m {st}) (mark_failed E step owner i c)
    (\<lambda>_. owned_row R owner a i m {SubFailed}) (err_post R owner a i m)"
  unfolding mark_failed_def
proof (rule triple_bind)
  show "triple (owned_row R owner a i m {st})
      (transition_or_raise E step owner i SubFailed None (Some (ParseCode c)))
      (\<lambda>_. owned_row R owner a i m {SubFailed}) (err_post R owner a i m)"
    by (rule triple_weaken [OF transition_spec [where st = st and R = R and a = a and m = m and G = "\<lambda>_. True"]])
      (use assms in \<open>auto simp: submission_transition_def unsettled_def\<close>)
qed (auto intro: triple_return)

text \<open>After a failed write the handler marks the row failed, or the cancellation goes on.\<close>

definition write_post ::
    "submission_row set \<Rightarrow> uuid \<Rightarrow> uuid \<Rightarrow> uuid \<Rightarrow> media_type \<Rightarrow> submission_status \<Rightarrow> upload_exn \<Rightarrow> upload_world \<Rightarrow> bool" where
  "write_post R owner a i m st e w \<longleftrightarrow> handled_exn e \<and> owned_row R owner a i m {st} w"

lemma storing_spec:
  assumes st: "st \<in> unsettled" and c: "cancel_only (ue_call E step)" "\<not> code_blank (ParseCode code)"
    and m: "triple P body Q (write_post R owner a i m st)"
  shows "triple P (storing E step owner i code body) Q (err_post R owner a i m)"
  unfolding storing_def
proof (rule triple_try [OF m])
  have mark: "triple (owned_row R owner a i m {st}) (bindU (mark_failed E step owner i x) (\<lambda>_. raiseU e)) Q (err_post R owner a i m)"
    if "\<not> code_blank (ParseCode x)" "e \<noteq> ProcessDied" for x e
    by (rule triple_bind [OF mark_failed_spec [OF st c(1) that(1)]]) (auto intro!: triple_raise err_postI that)
  have hold: "triple (owned_row R owner a i m {st}) (raiseU UploadCancelled) Q (err_post R owner a i m)"
    by (rule triple_raise) (use st in \<open>auto intro: err_post_cancelled\<close>)
  fix e :: upload_exn assume "e \<noteq> ProcessDied"
  have go: "triple (owned_row R owner a i m {st})
    (case e of QuotaFailed c \<Rightarrow> bindU (mark_failed E step owner i c) (\<lambda>_. raiseU e)
      | StorageFailed \<Rightarrow> bindU (mark_failed E step owner i code) (\<lambda>_. raiseU e) | _ \<Rightarrow> raiseU e) Q (err_post R owner a i m)"
    if "handled_exn e"
    using that mark hold c(2) by (cases e) (auto simp: handled_exn_def)
  show "triple (write_post R owner a i m st e)
    (case e of QuotaFailed c \<Rightarrow> bindU (mark_failed E step owner i c) (\<lambda>_. raiseU e)
      | StorageFailed \<Rightarrow> bindU (mark_failed E step owner i code) (\<lambda>_. raiseU e) | _ \<Rightarrow> raiseU e) Q (err_post R owner a i m)"
    by (rule triple_given [OF _ go]) (simp_all add: write_post_def)
qed (simp add: write_post_def handled_exn_def)

lemma put_spec:
  assumes "storage_call c"
  shows "triple (\<lambda>w. owned_row R owner a i m {st} w \<and> G (uw_store w)) (await c (put_object k b))
    (\<lambda>_ w. owned_row R owner a i m {st} w \<and> (\<exists>f. G f \<and> uw_store w = f(k := Some b))) (write_post R owner a i m st)"
  using assms unfolding triple_def await_def put_object_def write_post_def storage_call_def
  by (cases c) auto

lemma parse_spec:
  assumes c: "list_all (\<lambda>st. cancel_only (ue_call E st)) [StepParse, StepFailParse]" and p: "parser_ok (ue_parse E)"
  shows "triple (\<lambda>w. owned_row R owner a i m {SubParsing} w \<and> G (uw_store w)) (parse_staged E owner i d)
    (\<lambda>doc w. ue_parse E d = Inr doc \<and> owned_row R owner a i m {SubParsing} w \<and> G (uw_store w)) (err_post R owner a i m)"
  unfolding parse_staged_def
proof (rule triple_try)
  let ?raised = "\<lambda>e w. (e = UploadCancelled \<or> (\<exists>c. e = ParseFailed c \<and> \<not> code_blank (ParseCode c))) \<and>
    owned_row R owner a i m {SubParsing} w"
  show "triple (\<lambda>w. owned_row R owner a i m {SubParsing} w \<and> G (uw_store w))
      (await (ue_call E StepParse) (case ue_parse E d of Inl e \<Rightarrow> raiseU e | Inr p \<Rightarrow> returnU p))
      (\<lambda>doc w. ue_parse E d = Inr doc \<and> owned_row R owner a i m {SubParsing} w \<and> G (uw_store w)) ?raised"
  proof (rule triple_await)
    show "triple (\<lambda>w. owned_row R owner a i m {SubParsing} w \<and> G (uw_store w))
      (case ue_parse E d of Inl e \<Rightarrow> raiseU e | Inr p \<Rightarrow> returnU p)
      (\<lambda>doc w. ue_parse E d = Inr doc \<and> owned_row R owner a i m {SubParsing} w \<and> G (uw_store w)) ?raised"
      using p by (cases "ue_parse E d") (auto simp: parser_ok_def intro!: triple_raise triple_return)
  qed (use c in \<open>auto simp: cancel_only_def raiseU_def returnU_def split: sum.splits\<close>)
  fix e :: upload_exn assume "e \<noteq> ProcessDied"
  have mark: "triple (owned_row R owner a i m {SubParsing}) (bindU (mark_failed E StepFailParse owner i x) (\<lambda>_. raiseU e)) Q
      (err_post R owner a i m)" if "\<not> code_blank (ParseCode x)" "e \<noteq> ProcessDied" for x e and Q :: "parsed_document \<Rightarrow> _"
    by (rule triple_bind [OF mark_failed_spec]) (use c that in \<open>auto simp: unsettled_def intro!: triple_raise err_postI\<close>)
  show "triple (?raised e) (case e of ParseFailed c \<Rightarrow> bindU (mark_failed E StepFailParse owner i c) (\<lambda>_. raiseU e) | _ \<Rightarrow> raiseU e)
     (\<lambda>doc w. ue_parse E d = Inr doc \<and> owned_row R owner a i m {SubParsing} w \<and> G (uw_store w)) (err_post R owner a i m)"
  proof (rule triple_given [where P' = "owned_row R owner a i m {SubParsing}"])
    assume q: "e = UploadCancelled \<or> (\<exists>c. e = ParseFailed c \<and> \<not> code_blank (ParseCode c))"
    then show "triple (owned_row R owner a i m {SubParsing})
      (case e of ParseFailed c \<Rightarrow> bindU (mark_failed E StepFailParse owner i c) (\<lambda>_. raiseU e) | _ \<Rightarrow> raiseU e)
      (\<lambda>doc w. ue_parse E d = Inr doc \<and> owned_row R owner a i m {SubParsing} w \<and> G (uw_store w)) (err_post R owner a i m)"
      using mark by (auto simp: unsettled_def intro!: triple_raise err_post_cancelled)
  qed simp
qed simp

lemma delete_spec:
  assumes "\<forall>done_before. ue_call E StepDelete \<noteq> Breaks ProcessDied done_before"
  shows "triple (err_post R owner a i m e) (bindU (delete_after_failure E key e) (\<lambda>_. raiseU e)) Q (err_post R owner a i m)"
proof -
  have c: "err_post R owner a i m e w \<Longrightarrow> err_post R owner a i m UploadCancelled w" for e w
    by (auto simp: err_post_def intro: owned_row_mono)
  have s: "err_post R owner a i m e (w\<lparr>uw_store := f\<rparr>) = err_post R owner a i m e w" for e w f
    by (simp add: err_post_def)
  show ?thesis
    using assms c unfolding triple_def delete_after_failure_def bindU_def tryU_def await_def delete_object_def raiseU_def
    by (cases "ue_call E StepDelete") (auto simp: s)
qed

text \<open>Both objects are stored, and the text is the parse of the file.\<close>

definition objects_stored ::
    "upload_env \<Rightarrow> object_key \<Rightarrow> object_key \<Rightarrow> staged_document \<Rightarrow> (object_key \<Rightarrow> stored_blob option) \<Rightarrow> bool" where
  "objects_stored E source text_key d f \<longleftrightarrow> f source = Some (SourceFile (std_content d)) \<and>
     (case ue_parse E d of Inl _ \<Rightarrow> False | Inr doc \<Rightarrow> f text_key = Some (BlocksFile doc))"

lemma store_text_spec:
  assumes E: "settling_env E" and k: "key = extracted_key owner a i" "source \<noteq> key" and doc: "ue_parse E d = Inr doc"
  shows "triple (\<lambda>w. owned_row R owner a i m {SubParsing} w \<and> uw_store w source = Some (SourceFile (std_content d)))
    (store_text E owner i key doc)
    (\<lambda>v w. sv_status v = SubReady \<and> owned_row R owner a i m {SubReady} w \<and> objects_stored E source key d (uw_store w))
    (err_post R owner a i m)"
  unfolding store_text_def
proof (rule triple_try [OF _ delete_spec])
  show "triple (\<lambda>w. owned_row R owner a i m {SubParsing} w \<and> uw_store w source = Some (SourceFile (std_content d)))
    (bindU (storing E StepFailText owner i ''storage_extracted_failed'' (put_extracted_object E key doc)) (\<lambda>_.
       transition_or_raise E StepReady owner i SubReady (Some key) None))
    (\<lambda>v w. sv_status v = SubReady \<and> owned_row R owner a i m {SubReady} w \<and> objects_stored E source key d (uw_store w))
    (err_post R owner a i m)"
  proof (rule triple_bind)
    have p: "triple (\<lambda>w. owned_row R owner a i m {SubParsing} w \<and> uw_store w source = Some (SourceFile (std_content d)))
      (put_extracted_object E key doc)
      (\<lambda>_ w. owned_row R owner a i m {SubParsing} w \<and> objects_stored E source key d (uw_store w))
      (write_post R owner a i m SubParsing)"
      unfolding put_extracted_object_def
      by (rule triple_weaken [OF put_spec [where G = "\<lambda>f. f source = Some (SourceFile (std_content d))"]])
        (use E k(2) doc in \<open>auto simp: settling_env_def objects_stored_def\<close>)
    show "triple (\<lambda>w. owned_row R owner a i m {SubParsing} w \<and> uw_store w source = Some (SourceFile (std_content d)))
      (storing E StepFailText owner i ''storage_extracted_failed'' (put_extracted_object E key doc))
      (\<lambda>_ w. owned_row R owner a i m {SubParsing} w \<and> objects_stored E source key d (uw_store w)) (err_post R owner a i m)"
      by (rule storing_spec [OF _ _ _ p]) (use E in \<open>auto simp: unsettled_def settling_env_def code_blank_def\<close>)
    show "triple (\<lambda>w. owned_row R owner a i m {SubParsing} w \<and> objects_stored E source key d (uw_store w))
      (transition_or_raise E StepReady owner i SubReady (Some key) None)
      (\<lambda>v w. sv_status v = SubReady \<and> owned_row R owner a i m {SubReady} w \<and> objects_stored E source key d (uw_store w))
      (err_post R owner a i m)" for u :: unit
      by (rule transition_spec)
        (use E k(1) in \<open>auto simp: unsettled_def settling_env_def submission_transition_def cancel_only_def cancelled_before_def split: call_result.splits\<close>)
  qed
qed (use E in \<open>auto simp: settling_env_def err_post_def\<close>)

lemma mark_cancelled_spec:
  assumes "ue_call E StepFailCancelled = Works"
  shows "triple (owned_row R owner a i m (insert SubFailed unsettled)) (mark_cancelled E owner i)
    (\<lambda>_. owned_row R owner a i m {SubFailed}) (\<lambda>e w. e \<noteq> ProcessDied \<and> owned_row R owner a i m {SubFailed} w)"
proof (rule tripleI)
  fix w assume w: "owned_row R owner a i m (insert SubFailed unsettled) w"
  obtain st where st: "st \<in> insert SubFailed unsettled" "owned_row R owner a i m {st} w"
    using owned_row_cases [OF w] ..
  show "case mark_cancelled E owner i w of (Inr x, w') \<Rightarrow> owned_row R owner a i m {SubFailed} w'
    | (Inl e, w') \<Rightarrow> e \<noteq> ProcessDied \<and> owned_row R owner a i m {SubFailed} w'"
  proof (cases "st = SubFailed")
    case True
    then have "db_call (repo_transition owner i SubFailed None (Some (ParseCode ''processing_cancelled''))) w =
        (Inl (DatabaseFailed SubmissionTransitionInvalid), w)"
      by (intro db_transition_refused [OF st(2)]) (simp add: submission_transition_def)
    then show ?thesis using st(2) assms True
      by (simp add: mark_cancelled_def mark_failed_def transition_or_raise_def tryU_def bindU_def
          await_def raiseU_def)
  next
    case False
    then have "submission_transition st SubFailed None (Some (ParseCode ''processing_cancelled''))"
      using st(1) by (auto simp: submission_transition_def unsettled_def code_blank_def)
    from db_transition_moves [OF st(2) this] obtain v w' where
      "db_call (repo_transition owner i SubFailed None (Some (ParseCode ''processing_cancelled''))) w = (Inr (Some v), w')"
      "owned_row R owner a i m {SubFailed} w'"
      by blast
    with assms show ?thesis
      by (simp add: mark_cancelled_def mark_failed_def transition_or_raise_def tryU_def bindU_def await_def returnU_def)
  qed
qed

lemma process_spec:
  assumes E: "settling_env E" and k: "key = extracted_key owner a i" "source \<noteq> key"
  shows "triple (owned_row R owner a i m {SubUploaded}) (process_submission E owner i source key d)
    (\<lambda>v w. sv_status v = SubReady \<and> owned_row R owner a i m {SubReady} w \<and> objects_stored E source key d (uw_store w))
    (\<lambda>_. owned_row R owner a i m {SubFailed})"
  unfolding process_submission_def
proof (rule triple_try)
  let ?in_store = "\<lambda>w. uw_store w source = Some (SourceFile (std_content d))"
  let ?body = "bindU (store_source E owner i source d) (\<lambda>_.
           bindU (transition_or_raise E StepParsing owner i SubParsing None None) (\<lambda>_.
           bindU (parse_staged E owner i d) (\<lambda>doc. store_text E owner i key doc)))"
  have p: "triple (owned_row R owner a i m {SubUploaded}) (await (ue_call E StepPutSource) (put_object source (SourceFile (std_content d))))
      (\<lambda>_ w. owned_row R owner a i m {SubUploaded} w \<and> ?in_store w) (write_post R owner a i m SubUploaded)"
    by (rule triple_weaken [OF put_spec [where G = "\<lambda>_. True"]]) (use E in \<open>auto simp: settling_env_def\<close>)
  have s: "triple (owned_row R owner a i m {SubUploaded}) (store_source E owner i source d)
      (\<lambda>_ w. owned_row R owner a i m {SubUploaded} w \<and> ?in_store w) (err_post R owner a i m)"
    unfolding store_source_def
    by (rule storing_spec [OF _ _ _ p]) (use E in \<open>auto simp: unsettled_def settling_env_def code_blank_def\<close>)
  have t: "triple (\<lambda>w. owned_row R owner a i m {SubUploaded} w \<and> ?in_store w)
      (transition_or_raise E StepParsing owner i SubParsing None None)
      (\<lambda>_ w. owned_row R owner a i m {SubParsing} w \<and> ?in_store w) (err_post R owner a i m)"
    by (rule triple_weaken [OF transition_spec [where st = SubUploaded and a = a and R = R and m = m
          and G = "\<lambda>f. f source = Some (SourceFile (std_content d))"]])
      (use E in \<open>auto simp: unsettled_def settling_env_def submission_transition_def\<close>)
  have q: "triple (\<lambda>w. owned_row R owner a i m {SubParsing} w \<and> ?in_store w) (parse_staged E owner i d)
      (\<lambda>doc w. ue_parse E d = Inr doc \<and> owned_row R owner a i m {SubParsing} w \<and> ?in_store w) (err_post R owner a i m)"
    by (rule parse_spec) (use E in \<open>auto simp: settling_env_def\<close>)
  have z: "triple (\<lambda>w. ue_parse E d = Inr doc \<and> owned_row R owner a i m {SubParsing} w \<and> ?in_store w) (store_text E owner i key doc)
    (\<lambda>v w. sv_status v = SubReady \<and> owned_row R owner a i m {SubReady} w \<and> objects_stored E source key d (uw_store w))
    (err_post R owner a i m)" for doc
    by (rule triple_given [OF _ store_text_spec [OF E k]]) auto
  show "triple (owned_row R owner a i m {SubUploaded}) ?body
    (\<lambda>v w. sv_status v = SubReady \<and> owned_row R owner a i m {SubReady} w \<and> objects_stored E source key d (uw_store w))
    (err_post R owner a i m)"
    by (rule triple_bind [OF s triple_bind [OF t triple_bind [OF q z]]])
next
  fix e :: upload_exn assume "e \<noteq> ProcessDied"
  have c: "triple (err_post R owner a i m UploadCancelled) (bindU (mark_cancelled E owner i) (\<lambda>_. raiseU UploadCancelled)) Q
      (\<lambda>_. owned_row R owner a i m {SubFailed})" for Q :: "submission_view \<Rightarrow> upload_world \<Rightarrow> bool"
  proof (rule triple_bind)
    show "triple (err_post R owner a i m UploadCancelled) (mark_cancelled E owner i)
      (\<lambda>_. owned_row R owner a i m {SubFailed}) (\<lambda>_. owned_row R owner a i m {SubFailed})"
      by (rule triple_weaken [OF mark_cancelled_spec])
        (use E in \<open>auto simp: settling_env_def err_post_def intro: owned_row_mono\<close>)
  qed (auto intro: triple_raise)
  show "triple (err_post R owner a i m e)
     (if e = UploadCancelled then bindU (mark_cancelled E owner i) (\<lambda>_. raiseU e) else raiseU e)
     (\<lambda>(v :: submission_view) w. sv_status v = SubReady \<and> owned_row R owner a i m {SubReady} w \<and> objects_stored E source key d (uw_store w))
     (\<lambda>_. owned_row R owner a i m {SubFailed})"
  proof (cases "e = UploadCancelled")
    case True
    show ?thesis unfolding True if_P [OF refl] by (rule c)
  next
    case False
    then show ?thesis by (auto simp: err_post_def intro: triple_raise)
  qed
qed (simp add: err_post_def)

section \<open>The whole upload\<close>

definition staged_file :: "upload_env \<Rightarrow> incoming_submission \<Rightarrow> parse_failure + staged_document" where
  "staged_file E inc = stage_upload_file (ue_file E) (ue_limits E) (in_stream inc) (in_filename inc) (in_media inc)"

text \<open>Two papers with the same hash have the same type: there is no collision of SHA-256.\<close>

definition same_media :: "upload_env \<Rightarrow> incoming_submission \<Rightarrow> pdb \<Rightarrow> bool" where
  "same_media E inc s \<longleftrightarrow> (case staged_file E inc of Inl _ \<Rightarrow> True
     | Inr d \<Rightarrow> (\<forall>u \<in> set (db_submissions s). sub_sha256 u = std_sha256 d \<longrightarrow> sub_media u = std_media d))"

definition stored_paper :: "upload_env \<Rightarrow> incoming_submission \<Rightarrow> submission_row \<Rightarrow> (object_key \<Rightarrow> stored_blob option) \<Rightarrow> bool" where
  "stored_paper E inc u f \<longleftrightarrow> sub_status u = SubReady \<and>
     (case (staged_file E inc, sub_extracted_key u) of
        (Inr d, Some k) \<Rightarrow> objects_stored E (sub_source_key u) k d f
      | _ \<Rightarrow> False)"

lemma insert_submission_ok:
  assumes "submissions_ok s" "insert_submission u s = Inr (Some v, s')"
  shows "v = u \<and> s' = s\<lparr>db_submissions := db_submissions s @ [u]\<rparr> \<and> submissions_ok s' \<and> sub_owner u \<in> set (db_active_teachers s)"
proof -
  have n: "v = u" "s' = s\<lparr>db_submissions := db_submissions s @ [u]\<rparr>" "sub_owner u \<in> set (db_active_teachers s)"
    "check_submission u"
    "\<forall>v \<in> set (db_submissions s). \<not> (sub_assignment v = sub_assignment u \<and> sub_sha256 v = sub_sha256 u)"
    "\<forall>v \<in> set (db_submissions s). \<not> (sub_id v = sub_id u \<or> sub_source_key v = sub_source_key u)"
    using assms(2) unfolding insert_submission_def by (auto split: if_splits)
  have "submissions_ok s'"
    using assms(1) n(2,4-6) unfolding submissions_ok_def by (auto simp del: ex_simps)
  with n(1-3) show ?thesis by blast
qed

lemma insert_conflict: "insert_submission u s = Inr (None, s') \<Longrightarrow> s' = s"
  by (auto simp: insert_submission_def split: if_splits)

text \<open>What a reservation does: it adds the row it reports, or changes nothing.\<close>

lemma reserve_outcome:
  assumes ok: "submissions_ok s" and r: "reserve_submission owner now q s = Inr (x, s')"
  shows "case x of
      ReservedNew v \<Rightarrow> (let u = new_submission owner now q in v = to_view u \<and>
        s' = s\<lparr>db_submissions := db_submissions s @ [u]\<rparr> \<and> submissions_ok s' \<and> owner \<in> set (db_active_teachers s))
    | ReservedDuplicate v \<Rightarrow> s' = s \<and> owner \<in> set (db_active_teachers s) \<and>
        (\<exists>u \<in> set (db_submissions s). v = to_view u \<and> sub_owner u = owner \<and> sub_assignment u = rr_assignment q \<and>
           sub_sha256 u = rr_sha256 q)
    | _ \<Rightarrow> s' = s"
proof -
  have n: "sub_owner (new_submission owner now q) = owner" by (simp add: new_submission_def)
  show ?thesis
    using r insert_submission_ok [OF ok, of "new_submission owner now q"] insert_conflict [of "new_submission owner now q" s] n
    by (auto simp: reserve_submission_def visible_submissions_def Let_def split: option.splits if_splits prod.splits
        dest!: find_SomeD)
qed

lemma new_row_owned:
  assumes "submissions_ok (s\<lparr>db_submissions := db_submissions s @ [new_submission owner now q]\<rparr>)" "owner \<in> set (db_active_teachers s)"
  shows "owned_row (set (db_submissions s)) owner (rr_assignment q) (rr_id q) (rr_media q) {SubUploaded}
    (w\<lparr>uw_db := s\<lparr>db_submissions := db_submissions s @ [new_submission owner now q]\<rparr>\<rparr>)"
  using assms by (auto simp: owned_row_def new_submission_def)

text \<open>After the row is owned, the outcome of the processing is the outcome of the upload.\<close>

lemma settled_rows:
  assumes o: "owned_row R owner a i m {SubReady} w'" and s: "objects_stored E (source_key owner a i m) (extracted_key owner a i) d (uw_store w')"
    and d: "staged_file E inc = Inr d" and u: "u \<in> set (db_submissions (uw_db w'))"
  shows "u \<in> R \<or> stored_paper E inc u (uw_store w')"
proof (cases "sub_id u = i")
  case True
  obtain v where v: "v \<in> set (db_submissions (uw_db w'))" "sub_id v = i" "sub_owner v = owner" "sub_assignment v = a"
      "sub_media v = m" "sub_status v = SubReady" and ok: "submissions_ok (uw_db w')"
    using o unfolding owned_row_def by blast
  have "u = v" by (rule submission_by_id [OF ok u v(1)]) (simp add: True v(2))
  moreover have "check_submission v" using ok v(1) by (simp add: submissions_ok_def list_all_iff)
  ultimately show ?thesis using s d v
    by (auto simp: stored_paper_def check_submission_def source_key_def extracted_key_def)
qed (use o u in \<open>auto simp: owned_row_def\<close>)

lemma failed_rows:
  assumes "owned_row R owner a i m {SubFailed} w'" "u \<in> set (db_submissions (uw_db w'))"
  shows "u \<in> R \<or> sub_status u = SubFailed"
  using assms unfolding owned_row_def by (metis (no_types, lifting) singletonD submission_by_id)

definition settled_upload ::
    "upload_env \<Rightarrow> incoming_submission \<Rightarrow> upload_world \<Rightarrow> upload_exn + bool \<times> submission_view \<Rightarrow> upload_world \<Rightarrow> bool" where
  "settled_upload E inc w r w' \<longleftrightarrow> submissions_ok (uw_db w') \<and>
     (\<forall>u \<in> set (db_submissions (uw_db w')). u \<in> set (db_submissions (uw_db w)) \<or> sub_status u = SubFailed \<or>
        stored_paper E inc u (uw_store w')) \<and>
     (case r of Inr (False, v) \<Rightarrow> sv_status v = SubReady | _ \<Rightarrow> True)"

lemma unchanged_settled: "submissions_ok (uw_db w) \<Longrightarrow> settled_upload E inc w (Inl e) w"
  by (simp add: settled_upload_def)

lemma process_settles:
  assumes E: "settling_env E" and d: "staged_file E inc = Inr d"
    and o: "owned_row (set (db_submissions (uw_db w))) owner a i (std_media d) {SubUploaded} w1"
    and p: "bindU (process_submission E owner i (source_key owner a i (std_media d)) (extracted_key owner a i) d)
       (\<lambda>v. returnU (False, v)) w1 = (r, w')"
  shows "settled_upload E inc w r w'"
proof -
  have ne: "source_key owner a i (std_media d) \<noteq> extracted_key owner a i" by (simp add: source_key_def extracted_key_def)
  note t = tripleD [OF process_spec [OF E refl ne] o, of d]
  obtain x w2 where x: "process_submission E owner i (source_key owner a i (std_media d)) (extracted_key owner a i) d w1 = (x, w2)"
    by fastforce
  show ?thesis
  proof (cases x)
    case (Inl e)
    have "owned_row (set (db_submissions (uw_db w))) owner a i (std_media d) {SubFailed} w2"
      by (rule t(2)) (use x Inl in simp)
    moreover have "r = Inl e" "w' = w2" using p x Inl by (simp_all add: bindU_def)
    moreover have "u \<in> set (db_submissions (uw_db w)) \<or> sub_status u = SubFailed" if q: "u \<in> set (db_submissions (uw_db w2))" for u
      using failed_rows [OF calculation(1) q] .
    ultimately show ?thesis unfolding settled_upload_def by (auto simp: owned_row_def)
  next
    case (Inr v)
    have q: "sv_status v = SubReady \<and> owned_row (set (db_submissions (uw_db w))) owner a i (std_media d) {SubReady} w2 \<and>
        objects_stored E (source_key owner a i (std_media d)) (extracted_key owner a i) d (uw_store w2)"
      by (rule t(1)) (use x Inr in simp)
    moreover have "r = Inr (False, v)" "w' = w2" using p x Inr by (simp_all add: bindU_def returnU_def)
    ultimately show ?thesis using settled_rows [of _ owner a i _ w2 E d inc] d unfolding settled_upload_def
      by (auto simp: owned_row_def)
  qed
qed

lemma resolved_settles:
  assumes E: "settling_env E" and ok: "submissions_ok (uw_db w)" and d: "staged_file E inc = Inr d"
    and sm: "same_media E inc (uw_db w)"
    and r: "reserve_submission owner (ue_now E) (reservation_for E owner a d) (uw_db w) = Inr (x, s')"
    and p: "bindU (resolve_reservation E owner x) (\<lambda>(v, duplicate).
       if duplicate then returnU (True, v)
       else bindU (process_submission E owner (sv_id v) (source_key owner a (sv_id v) (std_media d))
                (extracted_key owner a (sv_id v)) d) (\<lambda>ready. returnU (False, ready))) (w\<lparr>uw_db := s'\<rparr>) = (res, w')"
  shows "settled_upload E inc w res w'"
proof (cases x)
  case (ReservedNew v)
  let ?u = "new_submission owner (ue_now E) (reservation_for E owner a d)"
  have n': "v = to_view ?u \<and> s' = (uw_db w)\<lparr>db_submissions := db_submissions (uw_db w) @ [?u]\<rparr> \<and> submissions_ok s' \<and>
      owner \<in> set (db_active_teachers (uw_db w))"
    using reserve_outcome [OF ok r] unfolding ReservedNew Let_def submission_reservation.case .
  note n = conjunct1 [OF n'] conjunct1 [OF conjunct2 [OF n']] conjunct1 [OF conjunct2 [OF conjunct2 [OF n']]]
    conjunct2 [OF conjunct2 [OF conjunct2 [OF n']]]
  have o: "owned_row (set (db_submissions (uw_db w))) owner a (ue_id E) (std_media d) {SubUploaded} (w\<lparr>uw_db := s'\<rparr>)"
    using new_row_owned [of "uw_db w" owner "ue_now E" "reservation_for E owner a d" w] n by (simp add: reservation_for_def)
  have i: "sv_id v = ue_id E" using n(1) by (simp add: to_view_def new_submission_def reservation_for_def)
  have "bindU (process_submission E owner (ue_id E) (source_key owner a (ue_id E) (std_media d)) (extracted_key owner a (ue_id E)) d)
       (\<lambda>v. returnU (False, v)) (w\<lparr>uw_db := s'\<rparr>) = (res, w')"
    using p ReservedNew i by (simp add: resolve_reservation_def bindU_def returnU_def)
  then show ?thesis by (rule process_settles [OF E d o])
next
  case (ReservedDuplicate v)
  obtain u where u: "u \<in> set (db_submissions (uw_db w))" "v = to_view u" "sub_owner u = owner" "sub_assignment u = a"
      "sub_sha256 u = std_sha256 d" "s' = uw_db w" "owner \<in> set (db_active_teachers (uw_db w))"
    using reserve_outcome [OF ok r] ReservedDuplicate by (auto simp: reservation_for_def)
  have v: "sv_id v = sub_id u" "sv_status v = sub_status u" using u(2) by (simp_all add: to_view_def)
  have m: "sub_media u = std_media d" using sm u(1,5) d by (simp add: same_media_def)
  show ?thesis
  proof (cases "sub_status u = SubFailed")
    case False
    then show ?thesis using p ReservedDuplicate v u(6) ok
      by (auto simp: resolve_reservation_def bindU_def returnU_def settled_upload_def)
  next
    case True
    have o: "owned_row (set (db_submissions (uw_db w))) owner a (sub_id u) (std_media d) {SubFailed} w"
      using ok u True m by (auto simp: owned_row_def)
    have t: "submission_transition SubFailed SubUploaded None None" by (simp add: submission_transition_def)
    obtain y w1 where y: "db_call (repo_transition owner (sub_id u) SubUploaded None None) w = (Inr (Some y), w1)"
        "owned_row (set (db_submissions (uw_db w))) owner a (sub_id u) (std_media d) {SubUploaded} w1"
      using db_transition_moves [OF o t] by blast
    have same: "w\<lparr>uw_db := s'\<rparr> = w" using u(6) by simp
    show ?thesis
    proof (cases "ue_call E StepReset")
      case (Breaks e b)
      then have "\<not> b" using E by (simp add: settling_env_def breaks_before_def)
      then show ?thesis using p ReservedDuplicate True v Breaks same ok
        by (auto simp: resolve_reservation_def transition_or_raise_def bindU_def await_def settled_upload_def)
    next
      case Works
      have i: "sv_id y = sub_id u"
        using y(1) transition_row [OF ok u(1) refl u(3,7), of SubUploaded None None]
        by (auto simp: db_call_def to_view_def split: if_splits)
      have "bindU (process_submission E owner (sub_id u) (source_key owner a (sub_id u) (std_media d)) (extracted_key owner a (sub_id u)) d)
         (\<lambda>v. returnU (False, v)) w1 = (res, w')"
        using p ReservedDuplicate True v same Works y(1) i
        by (simp add: resolve_reservation_def transition_or_raise_def bindU_def await_def returnU_def)
      then show ?thesis by (rule process_settles [OF E d y(2)])
    qed
  qed
qed (use p r ok reserve_outcome [OF ok r] in \<open>auto simp: resolve_reservation_def bindU_def raiseU_def settled_upload_def\<close>)

lemma stage_incoming_keeps: "snd (stage_incoming E inc w) = w"
  by (simp add: stage_incoming_def raiseU_def returnU_def split: sum.splits parse_failure.splits)


section \<open>What an upload can leave behind\<close>

text \<open>The environment in which every step works, but for the named one.\<close>

definition works_but :: "upload_env \<Rightarrow> upload_step \<Rightarrow> bool" where
  "works_but E bad \<longleftrightarrow> (\<forall>st. st \<noteq> bad \<longrightarrow> ue_call E st = Works)"

lemma process_late_cancel:
  assumes o: "owned_row R owner a i m {SubUploaded} w" and E: "works_but E StepReady"
    and c: "ue_call E StepReady = Breaks UploadCancelled True" and doc: "ue_parse E d = Inr doc"
  shows "\<exists>w'. process_submission E owner i source (extracted_key owner a i) d w = (Inl UploadCancelled, w') \<and>
    owned_row R owner a i m {SubReady} w' \<and> uw_store w' (extracted_key owner a i) = None"
proof -
  have wk: "ue_call E st = Works" if "st \<noteq> StepReady" for st using E that by (simp add: works_but_def)
  let ?w1 = "w\<lparr>uw_store := (uw_store w)(source := Some (SourceFile (std_content d)))\<rparr>"
  have o1: "owned_row R owner a i m {SubUploaded} ?w1" using o by simp
  have t1: "submission_transition SubUploaded SubParsing None None" by (simp add: submission_transition_def)
  from db_transition_moves [OF o1 t1] obtain v2 w2
    where w2: "db_call (repo_transition owner i SubParsing None None) ?w1 = (Inr (Some v2), w2)"
      "owned_row R owner a i m {SubParsing} w2"
    by blast
  let ?w3 = "w2\<lparr>uw_store := (uw_store w2)(extracted_key owner a i := Some (BlocksFile doc))\<rparr>"
  have o3: "owned_row R owner a i m {SubParsing} ?w3" using w2(2) by simp
  have t3: "submission_transition SubParsing SubReady (Some (extracted_key owner a i)) None"
    by (simp add: submission_transition_def)
  from db_transition_moves [OF o3 t3] obtain v4 w4
    where w4: "db_call (repo_transition owner i SubReady (Some (extracted_key owner a i)) None) ?w3 = (Inr (Some v4), w4)"
      "owned_row R owner a i m {SubReady} w4"
    by blast
  let ?w5 = "w4\<lparr>uw_store := (uw_store w4)(extracted_key owner a i := None)\<rparr>"
  have o5: "owned_row R owner a i m {SubReady} ?w5" using w4(2) by simp
  have "\<not> submission_transition SubReady SubFailed None (Some (ParseCode ''processing_cancelled''))"
    by (simp add: submission_transition_def)
  note w5 = db_transition_refused [OF o5 this]
  have s: "store_source E owner i source d w = (Inr (), ?w1)"
    by (simp add: store_source_def storing_def tryU_def await_def wk put_object_def)
  have p: "parse_staged E owner i d w2 = (Inr doc, w2)"
    by (simp add: parse_staged_def tryU_def await_def wk doc returnU_def)
  have z: "store_text E owner i (extracted_key owner a i) doc w2 = (Inl UploadCancelled, ?w5)"
    using w4(1) by (simp add: store_text_def storing_def put_extracted_object_def tryU_def bindU_def await_def wk put_object_def
        transition_or_raise_def c delete_after_failure_def delete_object_def raiseU_def)
  have "process_submission E owner i source (extracted_key owner a i) d w = (Inl UploadCancelled, ?w5)"
    using s p z w2(1) w5 by (simp add: process_submission_def tryU_def bindU_def transition_or_raise_def await_def wk returnU_def
        mark_cancelled_def mark_failed_def raiseU_def)
  then show ?thesis using o5 by simp
qed

text \<open>C31. When the switch to ready is cancelled after its commit, the compensation deletes the text
  of a paper that stays ready: batches accept it and can never load it.\<close>

theorem late_cancellation_loses_text:
  assumes ok: "submissions_ok (uw_db w)" and d: "staged_file E inc = Inr d" "ue_parse E d = Inr doc"
    and E: "works_but E StepReady" "ue_call E StepReady = Breaks UploadCancelled True"
    and r: "reserve_submission owner (ue_now E) (reservation_for E owner a d) (uw_db w) = Inr (ReservedNew v, s')"
  shows "\<exists>w'. upload_submission E owner a inc w = (Inl UploadCancelled, w') \<and>
    (\<exists>u \<in> set (db_submissions (uw_db w')). sub_id u = sv_id v \<and> sub_status u = SubReady \<and>
       (case sub_extracted_key u of None \<Rightarrow> False | Some k \<Rightarrow> uw_store w' k = None))"
proof -
  let ?u = "new_submission owner (ue_now E) (reservation_for E owner a d)"
  have n: "v = to_view ?u" "s' = (uw_db w)\<lparr>db_submissions := db_submissions (uw_db w) @ [?u]\<rparr>"
    "submissions_ok ((uw_db w)\<lparr>db_submissions := db_submissions (uw_db w) @ [?u]\<rparr>)" "owner \<in> set (db_active_teachers (uw_db w))"
    using reserve_outcome [OF ok r] by (auto simp: Let_def)
  have i: "sv_id v = ue_id E" using n(1) by (simp add: to_view_def new_submission_def reservation_for_def)
  have o: "owned_row (set (db_submissions (uw_db w))) owner a (ue_id E) (std_media d) {SubUploaded} (w\<lparr>uw_db := s'\<rparr>)"
    using new_row_owned [OF n(3,4), of w] n(2) by (simp add: reservation_for_def)
  from process_late_cancel [OF o E d(2), of "source_key owner a (ue_id E) (std_media d)"] obtain w'
    where w': "process_submission E owner (ue_id E) (source_key owner a (ue_id E) (std_media d)) (extracted_key owner a (ue_id E)) d
        (w\<lparr>uw_db := s'\<rparr>) = (Inl UploadCancelled, w')"
      "owned_row (set (db_submissions (uw_db w))) owner a (ue_id E) (std_media d) {SubReady} w'"
      "uw_store w' (extracted_key owner a (ue_id E)) = None"
    by blast
  have wk: "ue_call E StepStage = Works" "ue_call E StepReserve = Works" using E(1) by (simp_all add: works_but_def)
  have "upload_submission E owner a inc w = (Inl UploadCancelled, w')"
    using d(1) r w'(1) i by (simp add: upload_submission_def bindU_def await_def wk stage_incoming_def staged_file_def returnU_def
        db_call_def resolve_reservation_def)
  moreover obtain u where u: "u \<in> set (db_submissions (uw_db w'))" "sub_id u = ue_id E" "sub_owner u = owner"
      "sub_assignment u = a" "sub_status u = SubReady" "submissions_ok (uw_db w')"
    using w'(2) unfolding owned_row_def by blast
  moreover have "sub_extracted_key u = Some (extracted_key owner a (ue_id E))"
  proof -
    have "check_submission u" using u(1,6) by (simp add: submissions_ok_def list_all_iff)
    then show ?thesis using u by (auto simp: check_submission_def extracted_key_def)
  qed
  ultimately show ?thesis using w'(3) i by (intro exI conjI bexI) auto
qed

text \<open>
  A row left uploaded or parsing (the process ended, the reservation was cancelled after its commit,
  the parser raised an exception of its own) is a duplicate for every later upload of the file.
\<close>

theorem interrupted_upload_never_repaired:
  assumes ok: "submissions_ok (uw_db w)" and u: "u \<in> set (db_submissions (uw_db w))" "sub_status u \<in> unsettled" "sub_assignment u = a"
    and d: "\<forall>d. staged_file E inc = Inr d \<longrightarrow> std_sha256 d = sub_sha256 u"
  shows "snd (upload_submission E owner a inc w) = w"
proof (cases "fst (await (ue_call E StepStage) (stage_incoming E inc) w)")
  case (Inl e)
  then have "await (ue_call E StepStage) (stage_incoming E inc) w = (Inl e, w)"
    using stage_incoming_keeps [of E inc w] by (cases "ue_call E StepStage") (auto simp: await_def prod_eq_iff)
  then show ?thesis by (simp add: upload_submission_def bindU_def)
next
  case (Inr d')
  have st: "await (ue_call E StepStage) (stage_incoming E inc) w = (Inr d', w)" and d': "staged_file E inc = Inr d'"
    using Inr by (auto simp: await_def stage_incoming_def staged_file_def raiseU_def returnU_def
        split: call_result.splits sum.splits parse_failure.splits)
  let ?res = "reserve_submission owner (ue_now E) (reservation_for E owner a d')"
  have sha: "std_sha256 d' = sub_sha256 u" using d d' by blast
  have same: "x \<noteq> ReservedNew v \<and> s' = uw_db w \<and> (x = ReservedDuplicate v \<longrightarrow> sv_status v \<in> unsettled)"
    if q: "?res (uw_db w) = Inr (x, s')" for x v s'
  proof -
    have "x \<noteq> ReservedNew v" for v
      using q u sha by (auto simp: reserve_submission_def insert_submission_def new_submission_def reservation_for_def
          split: option.splits if_splits)
    then show ?thesis using reserve_outcome [OF ok q] u sha ok
      by (auto simp: reservation_for_def to_view_def submissions_ok_def split: submission_reservation.splits dest: distinct_map_eqD)
  qed
  have w: "w\<lparr>uw_db := uw_db w\<rparr> = w" by simp
  show ?thesis
  proof (cases "?res (uw_db w)")
    case (Inl e)
    then show ?thesis using st by (cases "ue_call E StepReserve") (simp_all add: upload_submission_def bindU_def await_def db_call_def)
  next
    case (Inr y)
    obtain x s' where y: "y = (x, s')" by fastforce
    have x: "\<And>v. x \<noteq> ReservedNew v" "s' = uw_db w" "\<And>v. x = ReservedDuplicate v \<Longrightarrow> sv_status v \<in> unsettled"
      using same [OF Inr [unfolded y]] by blast+
    have "snd (bindU (resolve_reservation E owner x) f w) = w"
      if "\<And>v. f (v, True) = returnU (True, v)" for f :: "_ \<Rightarrow> (bool \<times> submission_view) upload"
      using x that by (cases x) (auto simp: resolve_reservation_def bindU_def raiseU_def returnU_def unsettled_def)
    then show ?thesis using st Inr y x(2)
      by (cases "ue_call E StepReserve") (simp_all add: upload_submission_def bindU_def [of "await _ _"] await_def db_call_def)
  qed
qed

section \<open>Examples\<close>

definition up_db :: pdb where
  "up_db = \<lparr>db_active_teachers = [9], db_providers = [],
     db_assignments = [\<lparr>asg_id = 1, asg_owner = 9, asg_title = ustr ''Essay'', asg_instructions = ustr ''Write'',
       asg_status = AssignmentReady\<rparr>],
     db_rubrics = [], db_submissions = [], db_jobs = [], db_items = [], db_attempts = [], db_reviews = []\<rparr>"

definition up_world :: upload_world where
  "up_world = \<lparr>uw_db = up_db, uw_store = (\<lambda>_. None)\<rparr>"

definition up_document :: parsed_document where
  "up_document = \<lparr>doc_media_type = MediaPdf, doc_page_count = Some 1, doc_character_count = 1,
     doc_blocks = [\<lparr>blk_id = ustr ''b000001'', blk_text = ustr ''x'',
       blk_locator = PdfTextBlock 1 1 (dec_of_int 0, dec_of_int 0, dec_of_int 1, dec_of_int 1)\<rparr>]\<rparr>"

definition up_env :: "call_result \<Rightarrow> upload_env" where
  "up_env ready = \<lparr>ue_call = (\<lambda>st. if st = StepReady then ready else Works),
     ue_file = \<lparr>fe_sha256 = (\<lambda>_. 7), fe_zip_names = (\<lambda>_. None), fe_encrypted = (\<lambda>_. None)\<rparr>,
     ue_limits = default_limits, ue_parse = (\<lambda>_. Inr up_document), ue_id = 5, ue_now = 0\<rparr>"

definition up_file :: incoming_submission where
  "up_file = \<lparr>in_stream = [ustr ''%PDF-1'', ustr ''.7''], in_filename = ustr ''a/b.PDF'', in_media = None\<rparr>"

definition up_staged :: staged_document where
  "up_staged = \<lparr>std_content = ustr ''%PDF-1.7'', std_filename = ustr ''b.PDF'', std_media = MediaPdf, std_size = 8, std_sha256 = 7\<rparr>"

lemma up_staged: "staged_file (up_env c) up_file = Inr up_staged"
  by code_simp

lemma up_reserved:
  "reserve_submission 9 0 (reservation_for (up_env c) 9 1 up_staged) up_db =
     Inr (ReservedNew (to_view (new_submission 9 0 (reservation_for (up_env c) 9 1 up_staged))),
       up_db\<lparr>db_submissions := [new_submission 9 0 (reservation_for (up_env c) 9 1 up_staged)]\<rparr>)"
  by (simp add: reserve_submission_def visible_assignments_def up_db_def reservation_for_def up_env_def up_staged_def
      insert_submission_def new_submission_def check_submission_def length_between_def blank_def ustr_def source_key_def)


theorem late_cancellation_loses_text_witness:
  "\<exists>w'. upload_submission (up_env (Breaks UploadCancelled True)) 9 1 up_file up_world = (Inl UploadCancelled, w') \<and>
    (\<exists>u \<in> set (db_submissions (uw_db w')). sub_id u = 5 \<and> sub_status u = SubReady \<and>
       (case sub_extracted_key u of None \<Rightarrow> False | Some k \<Rightarrow> uw_store w' k = None))"
  using late_cancellation_loses_text [of up_world "up_env (Breaks UploadCancelled True)" up_file up_staged up_document 9 1]
    up_reserved [of "Breaks UploadCancelled True"] up_staged
  by (simp add: up_world_def submissions_ok_def up_db_def works_but_def up_env_def to_view_def new_submission_def reservation_for_def)

end
