(* ===== verification/Parser_Guarantees.thy ===== *)
theory Parser_Guarantees
  imports Document_Parsers Submission_Guarantees
begin

text \<open>
  What a parsed document guarantees: it satisfies the contract of \<open>ParsedDocument\<close>, which the prompt and
  the validation of evidence rely on, and a PDF that was parsed holds no active content that its
  object graph can reach. A parser whose libraries raise only the exceptions it names lets every
  upload settle.
\<close>

section \<open>Blocks\<close>

definition blocks_ok :: "parse_limits \<Rightarrow> block_state \<Rightarrow> bool" where
  "blocks_ok L s \<longleftrightarrow>
     map blk_id (bs_blocks s) = map block_name [1..<length (bs_blocks s) + 1] \<and>
     bs_characters s = sum_list (map (length \<circ> blk_text) (bs_blocks s)) \<and>
     list_all (\<lambda>b. blk_text b \<noteq> [] \<and> valid_locator (blk_locator b)) (bs_blocks s) \<and>
     length (bs_blocks s) \<le> pl_max_blocks L \<and> bs_characters s \<le> pl_max_characters L"

lemma no_blocks_ok [simp]: "blocks_ok L no_blocks"
  by (simp add: blocks_ok_def no_blocks_def)

lemma append_block_ok:
  assumes "append_block nfc L text loc s = Inr s'" "blocks_ok L s" "valid_locator loc"
  shows "blocks_ok L s'"
  using assms by (auto simp: append_block_def Let_def blocks_ok_def split: if_splits)

lemma append_all_ok:
  "append_all nfc L xs s = Inr s' \<Longrightarrow> blocks_ok L s \<Longrightarrow> \<forall>x \<in> set xs. valid_locator (snd x) \<Longrightarrow> blocks_ok L s'"
  by (induction nfc L xs s rule: append_all.induct) (auto dest: append_block_ok)

lemma cell_locators: "1 \<le> t \<Longrightarrow> 1 \<le> r \<Longrightarrow> 1 \<le> c \<Longrightarrow> x \<in> set (cell_texts t r c cell) \<Longrightarrow> valid_locator (snd x)"
  by (auto simp: cell_texts_def dest!: set_zip_leftD)

lemma table_row_ok:
  "table_row nfc L t r c cells z = Inr z' \<Longrightarrow> blocks_ok L (snd z) \<Longrightarrow> 1 \<le> t \<Longrightarrow> 1 \<le> r \<Longrightarrow> 1 \<le> c \<Longrightarrow> blocks_ok L (snd z')"
proof (induction nfc L t r c cells z rule: table_row.induct)
  case (2 nfc L t r c cell cells z)
  show ?case
  proof (cases "dc_identity cell \<in> fst z")
    case True
    then show ?thesis using 2 by simp
  next
    case False
    then obtain s where s: "append_all nfc L (cell_texts t r c cell) (snd z) = Inr s" "\<not> dc_nested cell"
        "table_row nfc L t r (c + 1) cells (insert (dc_identity cell) (fst z), s) = Inr z'"
      using 2(3) by (auto split: if_splits)
    have "blocks_ok L s" by (rule append_all_ok [OF s(1) 2(4)]) (use cell_locators 2(5-7) in blast)
    then show ?thesis using 2(2) [OF False s(2,3)] 2(5-7) by simp
  qed
qed simp

lemma table_rows_ok:
  "table_rows nfc L t r rows z = Inr z' \<Longrightarrow> blocks_ok L (snd z) \<Longrightarrow> 1 \<le> t \<Longrightarrow> 1 \<le> r \<Longrightarrow> blocks_ok L (snd z')"
proof (induction nfc L t r rows z rule: table_rows.induct)
  case (2 nfc L t r row rows z)
  then obtain z1 where "table_row nfc L t r 1 row z = Inr z1" "table_rows nfc L t (r + 1) rows z1 = Inr z'" by auto
  with 2 table_row_ok show ?case by simp
qed simp

lemma docx_body_ok: "docx_body nfc L p t items s = Inr s' \<Longrightarrow> blocks_ok L s \<Longrightarrow> blocks_ok L s'"
proof (induction nfc L p t items s rule: docx_body.induct)
  case (2 nfc L p t x items s)
  then obtain s1 where "append_block nfc L x (DocxParagraph (p + 1)) s = Inr s1"
      "docx_body nfc L (p + 1) t items s1 = Inr s'" by auto
  with 2 append_block_ok [of nfc L x "DocxParagraph (p + 1)" s s1] show ?case by simp
next
  case (3 nfc L p t rows items s)
  then obtain z where "table_rows nfc L (t + 1) 1 rows ({}, s) = Inr z" "docx_body nfc L p (t + 1) items (snd z) = Inr s'" by auto
  with 3 table_rows_ok [of nfc L "t + 1" 1 rows "({}, s)" z] show ?case by simp
qed simp_all

lemma pdf_lines_ok: "pdf_lines nfc L page n ls s = Inr (k, s') \<Longrightarrow> blocks_ok L s \<Longrightarrow> 1 \<le> page \<Longrightarrow> blocks_ok L s'"
proof (induction nfc L page n ls s rule: pdf_lines.induct)
  case (2 nfc L page n l ls s)
  show ?case
  proof (cases "normalize_text nfc (pln_text l) = []")
    case True
    then show ?thesis using 2 by simp
  next
    case False
    then obtain s1 where s: "append_block nfc L (pln_text l) (PdfTextBlock page (n + 1) (pln_box l)) s = Inr s1"
        "pdf_lines nfc L page (n + 1) ls s1 = Inr (k, s')" using 2(3) by auto
    have "blocks_ok L s1" by (rule append_block_ok [OF s(1) 2(4)]) (use 2(5) in \<open>cases "pln_box l"; simp\<close>)
    then show ?thesis using 2(2) [OF False s(2)] 2(5) by simp
  qed
qed simp

lemma pdf_pages_ok:
  "pdf_pages nfc L page ps z = Inr z' \<Longrightarrow> blocks_ok L (pg_blocks z) \<Longrightarrow> 1 \<le> page \<Longrightarrow> blocks_ok L (pg_blocks z')"
proof (induction nfc L page ps z rule: pdf_pages.induct)
  case (2 nfc L page p ps z)
  then obtain z1 where z1: "pdf_page_step nfc L page p z = Inr z1" "pdf_pages nfc L (page + 1) ps z1 = Inr z'" by auto
  then have "blocks_ok L (pg_blocks z1)"
    using 2(3,4) by (auto simp: pdf_page_step_def dest!: pdf_lines_ok split: if_splits)
  then show ?case using 2(1) [OF z1(2)] 2(4) by simp
qed simp

section \<open>The contract of a parsed document\<close>

definition contract_limits :: "parse_limits \<Rightarrow> bool" where
  "contract_limits L \<longleftrightarrow> pl_max_characters L \<le> 500000 \<and> pl_max_blocks L \<le> 50000 \<and> pl_max_pdf_pages L \<le> 200"

lemma show_nat_short: "n < 10 ^ Suc k \<Longrightarrow> length (show_nat n) \<le> Suc k"
proof (induction k arbitrary: n)
  case 0
  then show ?case by (subst show_nat.simps) simp
next
  case (Suc k)
  then have "length (show_nat (n div 10)) \<le> Suc k" by (intro Suc.IH) (simp add: less_mult_imp_div_less)
  then show ?case by (subst show_nat.simps) simp
qed

lemma block_name_ok: "n < 1000000 \<Longrightarrow> is_block_id (block_name n)"
proof -
  assume "n < 1000000"
  then have "length (show_nat n) \<le> 6" using show_nat_short [of n 5] by simp
  then show ?thesis
    using show_nat_digits [of _ n] by (auto simp: is_block_id_def block_name_def pad6_def is_digit_def)
qed

lemma blocks_document:
  assumes b: "blocks_ok L s" and L: "contract_limits L" and ne: "bs_blocks s \<noteq> []"
    and p: "if m = MediaPdf then (case pc of None \<Rightarrow> False | Some n \<Rightarrow> 1 \<le> n \<and> n \<le> 200) else pc = None"
  shows "validate_document \<lparr>doc_media_type = m, doc_page_count = pc, doc_character_count = int (bs_characters s), doc_blocks = bs_blocks s\<rparr>"
proof -
  let ?bs = "bs_blocks s"
  have sum: "bs_characters s = sum_list (map (length \<circ> blk_text) ?bs)" "bs_characters s \<le> 500000" "length ?bs \<le> 50000"
    using b L by (auto simp: blocks_ok_def contract_limits_def)
  have fits: "length (blk_text x) \<le> bs_characters s" if "x \<in> set ?bs" for x
    unfolding sum(1) using that by (auto intro!: member_le_sum_list)
  have ids: "is_block_id (blk_id x)" if x: "x \<in> set ?bs" for x
  proof -
    have "blk_id x \<in> set (map blk_id ?bs)" using x by simp
    also have "map blk_id ?bs = map block_name [1..<length ?bs + 1]" using b by (simp add: blocks_ok_def)
    finally obtain k where "blk_id x = block_name k" "k \<le> length ?bs" by auto
    then show ?thesis using block_name_ok [of k] sum(3) by simp
  qed
  have ok: "list_all (\<lambda>x. blk_text x \<noteq> [] \<and> valid_locator (blk_locator x)) ?bs" using b by (simp add: blocks_ok_def)
  have "list_all validate_block ?bs"
    using ok ids fits sum(2) by (fastforce simp: list_all_iff validate_block_def length_between_def Suc_le_eq)
  moreover have "0 < bs_characters s"
  proof -
    obtain x where x: "x \<in> set ?bs" using ne by (cases ?bs) auto
    then have "0 < length (blk_text x)" using ok by (auto simp: list_all_iff)
    then show ?thesis using fits [OF x] by linarith
  qed
  moreover have "length_between 1 50000 ?bs" using ne sum(3) by (simp add: length_between_def Suc_le_eq)
  ultimately show ?thesis using b p sum(1,2) by (simp add: validate_document_def validate_block_ids_def blocks_ok_def)
qed

lemma parse_docx_valid:
  assumes "parse_docx nfc X L archive opened = Inr doc" "contract_limits L"
  shows "validate_document doc \<and> doc_media_type doc = MediaDocx"
  using assms blocks_document [of L _ MediaDocx None] docx_body_ok [of nfc L 0 0 _ no_blocks]
  by (auto simp: parse_docx_def split: if_splits)

lemma parse_pdf_valid:
  assumes "parse_pdf nfc L opened = Inr doc" "contract_limits L"
  shows "validate_document doc \<and> doc_media_type doc = MediaPdf"
proof -
  let ?start = "\<lparr>pg_blocks = no_blocks, pg_scanned = False, pg_unextractable = False\<rparr>"
  obtain src where r: "(if pf_encrypted src then Inl (ParseRejected ''document_encrypted'')
     else if pf_page_count src = 0 then Inl (ParseRejected ''document_empty'')
     else if pl_max_pdf_pages L < pf_page_count src then Inl (ParseRejected ''pdf_pages_too_many'')
     else bindR (reject_active_content (pf_object src) (pf_trailer src)) (\<lambda>_.
       bindR (caught_as ''pdf_parse_failed'' (pf_pages src)) (\<lambda>pages.
       if length pages \<noteq> pf_page_count src then Inl (ParseRejected ''pdf_parse_failed'')
       else bindR (pdf_pages nfc L 1 pages ?start) (pdf_result src)))) = Inr doc"
    using assms(1) unfolding parse_pdf_def by auto
  have c: "\<not> pf_encrypted src" "pf_page_count src \<noteq> 0" "\<not> pl_max_pdf_pages L < pf_page_count src"
    using r by (auto split: if_splits)
  obtain pages z where z: "pdf_pages nfc L 1 pages ?start = Inr z" "pdf_result src z = Inr doc"
    using r c by (auto split: if_splits)
  have s: "pf_page_count src \<noteq> 0" "\<not> pl_max_pdf_pages L < pf_page_count src" "pdf_pages nfc L 1 pages ?start = Inr z"
      "bs_blocks (pg_blocks z) \<noteq> []"
    and d: "doc = \<lparr>doc_media_type = MediaPdf, doc_page_count = Some (int (pf_page_count src)),
         doc_character_count = int (bs_characters (pg_blocks z)), doc_blocks = bs_blocks (pg_blocks z)\<rparr>"
    using c z by (simp_all add: pdf_result_def Let_def split: if_splits)
  have "blocks_ok L (pg_blocks z)" using pdf_pages_ok [OF s(3)] by simp
  then show ?thesis using blocks_document [OF _ assms(2) s(4), of MediaPdf "Some (int (pf_page_count src))"] s(1,2) d assms(2)
    by (simp add: contract_limits_def)
qed

text \<open>C33. Whatever the libraries read from a file, a document that the parser returns satisfies every
  constraint of \<open>ParsedDocument\<close>: consecutive block names, exact counts, places and sizes.\<close>

theorem parsed_document_valid:
  assumes "parse_document P d = Inr doc" "contract_limits (pe_limits P)"
  shows "validate_document doc \<and> doc_media_type doc = std_media d"
  using assms parse_docx_valid parse_pdf_valid
  by (cases "std_media d") (auto simp: parse_document_def)

section \<open>Active content of a PDF\<close>

text \<open>What a viewer can reach from the trailer.\<close>

inductive pdf_reach :: "(nat \<times> nat \<Rightarrow> library_exn + pdf_value) \<Rightarrow> pdf_value \<Rightarrow> pdf_value \<Rightarrow> bool" for get trailer where
  reach_trailer: "pdf_reach get trailer trailer"
| reach_child: "pdf_reach get trailer v \<Longrightarrow> w \<in> set (pdf_children v) \<Longrightarrow> pdf_reach get trailer w"
| reach_target: "pdf_reach get trailer (PdfRef i g) \<Longrightarrow> get (i, g) = Inr w \<Longrightarrow> pdf_reach get trailer w"

definition is_active :: "pdf_value \<Rightarrow> bool" where
  "is_active v = (case v of PdfDict _ kvs \<Rightarrow> active_dictionary kvs | _ \<Rightarrow> False)"

fun pdf_identity :: "pdf_value \<Rightarrow> nat option" where
  "pdf_identity (PdfDict i _) = Some i"
| "pdf_identity (PdfArray i _) = Some i"
| "pdf_identity v = None"

text \<open>
  A Python object has one identity while the graph is alive, and the value of an indirect object is
  not itself a reference.
\<close>

definition coherent_graph :: "(nat \<times> nat \<Rightarrow> library_exn + pdf_value) \<Rightarrow> pdf_value \<Rightarrow> bool" where
  "coherent_graph get trailer \<longleftrightarrow>
     (\<forall>v w. pdf_reach get trailer v \<and> pdf_reach get trailer w \<and> pdf_identity v \<noteq> None \<and> pdf_identity v = pdf_identity w \<longrightarrow> v = w) \<and>
     (\<forall>k i g. get k \<noteq> Inr (PdfRef i g))"

definition settled_value :: "pdf_value set \<Rightarrow> pdf_scan \<Rightarrow> pdf_value \<Rightarrow> bool" where
  "settled_value D z v = (case v of PdfRef i g \<Rightarrow> (i, g) \<in> ps_refs z | PdfAtom _ \<Rightarrow> True | _ \<Rightarrow> v \<in> D)"

text \<open>\<open>D\<close> holds the values inspected so far: none is active and their children are settled or waiting.\<close>

definition scan_inv ::
    "(nat \<times> nat \<Rightarrow> library_exn + pdf_value) \<Rightarrow> pdf_value \<Rightarrow> pdf_value set \<Rightarrow> pdf_value list \<Rightarrow> pdf_scan \<Rightarrow> bool" where
  "scan_inv get trailer D stack z \<longleftrightarrow>
     (\<forall>v \<in> D. \<not> is_active v \<and> pdf_reach get trailer v \<and>
        (\<forall>w \<in> set (pdf_children v). w \<in> set stack \<or> settled_value D z w)) \<and>
     (\<forall>v \<in> set stack. pdf_reach get trailer v) \<and>
     (\<forall>i g. (i, g) \<in> ps_refs z \<longrightarrow> (\<exists>t \<in> D. get (i, g) = Inr t)) \<and>
     (\<forall>i \<in> ps_direct z. \<exists>v \<in> D. pdf_identity v = Some i)"

lemma settled_mono:
  "settled_value D z v \<Longrightarrow> D \<subseteq> D' \<Longrightarrow> ps_refs z \<subseteq> ps_refs z' \<Longrightarrow> settled_value D' z' v"
  by (auto simp: settled_value_def split: pdf_value.splits)

lemma caught_Inr [simp]: "caught_as c r = Inr x \<longleftrightarrow> r = Inr x"
  by (auto simp: caught_as_def split: sum.splits library_exn.splits)

lemma skip_settled:
  assumes "scan_round get v z = SkipValue" "scan_inv get trailer D stack z" "coherent_graph get trailer" "pdf_reach get trailer v"
  shows "settled_value D z v"
proof (cases "pdf_identity v")
  case None
  then show ?thesis using assms(1) by (cases v) (auto simp: scan_round_def settled_value_def split: if_splits sum.splits)
next
  case (Some i)
  then have "i \<in> ps_direct z" using assms(1) by (cases v) (auto simp: scan_round_def split: if_splits)
  then obtain u where u: "u \<in> D" "pdf_identity u = Some i" using assms(2) unfolding scan_inv_def by blast
  moreover have "pdf_reach get trailer u" using u(1) assms(2) unfolding scan_inv_def by blast
  ultimately have "u = v" using assms(3,4) Some unfolding coherent_graph_def by (metis option.distinct(1))
  then show ?thesis using u(1) Some by (cases v) (auto simp: settled_value_def)
qed

lemma inspect_step:
  assumes r: "scan_round get v z = InspectValue w z1" and i: "inspect_value w z1 = Inr z2" and v: "pdf_reach get trailer v"
  shows "\<not> is_active w \<and> pdf_reach get trailer w \<and> settled_value (insert w D) z2 v \<and> ps_refs z \<subseteq> ps_refs z2 \<and>
    (\<forall>a b. (a, b) \<in> ps_refs z2 \<longrightarrow> (a, b) \<in> ps_refs z \<or> get (a, b) = Inr w) \<and>
    (\<forall>a \<in> ps_direct z2. a \<in> ps_direct z \<or> pdf_identity w = Some a)"
proof -
  have z2: "ps_refs z2 = ps_refs z1" "ps_direct z2 = ps_direct z1" using inspect_counts [OF i] by simp_all
  have na: "\<not> is_active w" using i by (auto simp: inspect_value_def is_active_def split: if_splits pdf_value.splits)
  show ?thesis
    using r v na by (cases v) (auto simp: scan_round_def settled_value_def z2 split: if_splits sum.splits intro: reach_target)
qed

lemma scan_inv_skip:
  assumes "scan_round get (last stack) z = SkipValue" "stack \<noteq> []" "scan_inv get trailer D stack z" "coherent_graph get trailer"
  shows "scan_inv get trailer D (butlast stack) z \<and> settled_value D z (last stack)"
proof -
  have l: "pdf_reach get trailer (last stack)" using assms(2,3) by (simp add: scan_inv_def)
  note s = skip_settled [OF assms(1,3,4) l]
  have in_stack: "w \<in> set stack \<Longrightarrow> w \<in> set (butlast stack) \<or> w = last stack" for w
    using assms(2) by (cases stack rule: rev_cases) auto
  have "w \<in> set (butlast stack) \<or> settled_value D z w" if "w \<in> set stack \<or> settled_value D z w" for w
    using that in_stack s by blast
  then show ?thesis using assms(3) s in_set_butlastD [of _ stack] unfolding scan_inv_def by blast
qed

lemma scan_inv_inspect:
  assumes r: "scan_round get (last stack) z = InspectValue w z1" and i: "inspect_value w z1 = Inr z2" and ne: "stack \<noteq> []"
    and I: "scan_inv get trailer D stack z"
  shows "scan_inv get trailer (insert w D) (butlast stack @ pdf_children w) z2 \<and> settled_value (insert w D) z2 (last stack) \<and>
    ps_refs z \<subseteq> ps_refs z2"
proof -
  have l: "pdf_reach get trailer (last stack)" using I ne by (simp add: scan_inv_def)
  note st = inspect_step [OF r i l, of D]
  have in_stack: "u \<in> set stack \<Longrightarrow> u \<in> set (butlast stack) \<or> u = last stack" for u
    using ne by (cases stack rule: rev_cases) auto
  have cov: "u \<in> set (butlast stack @ pdf_children w) \<or> settled_value (insert w D) z2 u"
    if "u \<in> set stack \<or> settled_value D z u" for u
    using that in_stack [of u] st settled_mono [of D z u "insert w D" z2] by auto
  have "pdf_reach get trailer u" if "u \<in> set (butlast stack @ pdf_children w)" for u
    using that I st reach_child [of get trailer w u] in_set_butlastD [of u stack] by (auto simp: scan_inv_def)
  moreover have "\<exists>t \<in> insert w D. get (a, b) = Inr t" if "(a, b) \<in> ps_refs z2" for a b
    using that st I unfolding scan_inv_def by blast
  moreover have "\<exists>v \<in> insert w D. pdf_identity v = Some a" if "a \<in> ps_direct z2" for a
    using that st I unfolding scan_inv_def by blast
  moreover have "\<not> is_active v \<and> pdf_reach get trailer v \<and>
      (\<forall>u \<in> set (pdf_children v). u \<in> set (butlast stack @ pdf_children w) \<or> settled_value (insert w D) z2 u)"
    if "v \<in> insert w D" for v
    using that st I cov unfolding scan_inv_def by auto
  ultimately show ?thesis using st unfolding scan_inv_def by blast
qed

lemma scan_closed:
  assumes "scan_objects get stack z = Inr z'" "scan_inv get trailer D stack z" "coherent_graph get trailer"
  shows "\<exists>D'. D \<subseteq> D' \<and> ps_refs z \<subseteq> ps_refs z' \<and> scan_inv get trailer D' [] z' \<and> (\<forall>w \<in> set stack. settled_value D' z' w)"
  using assms
proof (induction get stack z arbitrary: D rule: scan_objects.induct)
  case (1 get stack z)
  show ?case
  proof (cases "stack = []")
    case True
    then have "z' = z" using 1(3) by (simp add: scan_objects.simps)
    then show ?thesis using True 1(4) by auto
  next
    case ne: False
    have in_stack: "u \<in> set stack \<Longrightarrow> u \<in> set (butlast stack) \<or> u = last stack" for u
      using ne by (cases stack rule: rev_cases) auto
    show ?thesis
    proof (cases "scan_round get (last stack) z")
      case SkipValue
      have go: "scan_objects get (butlast stack) z = Inr z'" using 1(3) ne SkipValue by (simp add: scan_objects.simps [of get stack])
      note sk = scan_inv_skip [OF SkipValue ne 1(4,5)]
      from 1(1) [OF ne SkipValue go conjunct1 [OF sk] 1(5)] obtain D' where D': "D \<subseteq> D'" "ps_refs z \<subseteq> ps_refs z'"
        "scan_inv get trailer D' [] z'" "\<forall>w \<in> set (butlast stack). settled_value D' z' w" by blast
      have "settled_value D' z' (last stack)" using sk settled_mono D'(1,2) by blast
      then show ?thesis using D' in_stack by blast
    next
      case (InspectValue w z1)
      then obtain z2 where z2: "inspect_value w z1 = Inr z2" "scan_objects get (butlast stack @ pdf_children w) z2 = Inr z'"
        using 1(3) ne by (auto simp: scan_objects.simps [of get stack] split: sum.splits)
      note st = scan_inv_inspect [OF InspectValue z2(1) ne 1(4)]
      from 1(2) [OF ne InspectValue z2(1,2) conjunct1 [OF st] 1(5)] obtain D' where D': "insert w D \<subseteq> D'" "ps_refs z2 \<subseteq> ps_refs z'"
        "scan_inv get trailer D' [] z'" "\<forall>w \<in> set (butlast stack @ pdf_children w). settled_value D' z' w" by blast
      have "settled_value D' z' (last stack)" using st settled_mono D'(1,2) by blast
      moreover have "ps_refs z \<subseteq> ps_refs z'" using st D'(2) by blast
      ultimately show ?thesis using D' in_stack by (intro exI [of _ D']) auto
    next
      case (ScanRaises e)
      then show ?thesis using 1(3) ne by (simp add: scan_objects.simps)
    qed
  qed
qed

lemma closed_reach:
  assumes I: "scan_inv get trailer D [] z" and t: "settled_value D z trailer" and g: "\<forall>k i j. get k \<noteq> Inr (PdfRef i j)"
    and r: "pdf_reach get trailer v"
  shows "settled_value D z v \<or> v \<in> D \<and> (\<forall>i j. v \<noteq> PdfRef i j)"
  using r
proof (induction rule: pdf_reach.induct)
  case reach_trailer
  then show ?case using t ..
next
  case (reach_child v w)
  then have "v \<in> D" by (cases v) (auto simp: settled_value_def pdf_children_def)
  then show ?case using I reach_child(2) by (auto simp: scan_inv_def)
next
  case (reach_target i j w)
  then have "(i, j) \<in> ps_refs z" by (auto simp: settled_value_def)
  then have "w \<in> D" using I reach_target(2) unfolding scan_inv_def by fastforce
  then show ?case using g reach_target(2) by blast
qed


text \<open>
  A reference whose value is again a reference is inspected as a value without children: what lies
  behind it is not scanned.
\<close>

definition chained_graph :: "nat \<times> nat \<Rightarrow> library_exn + pdf_value" where
  "chained_graph k = (if k = (4, 0) then Inr (PdfRef 5 0)
     else if k = (5, 0) then Inr (PdfDict 2 [(ustr ''/S'', PdfAtom (ustr ''/URI''))]) else Inl CaughtException)"

definition chained_trailer :: pdf_value where
  "chained_trailer = PdfDict 1 [(ustr ''/A'', PdfRef 4 0)]"

theorem chained_reference_hides_action:
  "reject_active_content chained_graph chained_trailer = Inr () \<and>
   pdf_reach chained_graph chained_trailer (PdfDict 2 [(ustr ''/S'', PdfAtom (ustr ''/URI''))]) \<and>
   active_dictionary [(ustr ''/S'', PdfAtom (ustr ''/URI''))]"
proof (intro conjI)
  have a: "\<not> active_dictionary [(ustr ''/A'', PdfRef 4 0)]" by code_simp
  show "reject_active_content chained_graph chained_trailer = Inr ()"
    using a by (simp add: reject_active_content_def scan_objects.simps scan_round_def chained_trailer_def chained_graph_def
        inspect_value_def max_pdf_objects_def pdf_children_def caught_as_def)
  have "pdf_reach chained_graph chained_trailer (PdfRef 4 0)"
    by (rule reach_child [OF reach_trailer]) (simp add: chained_trailer_def pdf_children_def)
  then have "pdf_reach chained_graph chained_trailer (PdfRef 5 0)"
    by (rule reach_target) (simp add: chained_graph_def)
  then show "pdf_reach chained_graph chained_trailer (PdfDict 2 [(ustr ''/S'', PdfAtom (ustr ''/URI''))])"
    by (rule reach_target) (simp add: chained_graph_def)
  show "active_dictionary [(ustr ''/S'', PdfAtom (ustr ''/URI''))]" by code_simp
qed

section \<open>Parsers and uploads\<close>

text \<open>The codes of the parsers are not blank, so an upload settles unless a parser crashes.\<close>

definition parser_codes :: "string list" where
  "parser_codes = [''docx_archive_invalid'', ''docx_archive_too_large'', ''docx_macro_unsupported'',
     ''docx_active_content_unsupported'', ''docx_external_relationship'', ''docx_xml_unsafe'', ''docx_parse_failed'',
     ''docx_content_unsupported'', ''document_text_too_large'', ''document_blocks_too_many'', ''document_empty'',
     ''document_encrypted'', ''pdf_parse_failed'', ''pdf_pages_too_many'', ''pdf_structure_too_complex'',
     ''pdf_active_content_unsupported'', ''pdf_scan_unsupported'', ''pdf_partial_scan_unsupported'', ''pdf_text_unextractable'']"

definition rejected_with :: "document_exn + 'a \<Rightarrow> bool" where
  "rejected_with r \<longleftrightarrow> (\<forall>c. r = Inl (ParseRejected c) \<longrightarrow> c \<in> set parser_codes)"

lemma rejected_bind: "rejected_with m \<Longrightarrow> (\<And>x. m = Inr x \<Longrightarrow> rejected_with (f x)) \<Longrightarrow> rejected_with (bindR m f)"
  by (cases m) (auto simp: rejected_with_def)

lemma rejected_Inr [simp]: "rejected_with (Inr x)"
  by (simp add: rejected_with_def)

lemma rejected_code [simp]: "rejected_with (Inl (ParseRejected c)) \<longleftrightarrow> c \<in> set parser_codes"
  by (simp add: rejected_with_def)

lemma rejected_crash [simp]: "rejected_with (Inl ParserCrashed)"
  by (simp add: rejected_with_def)

lemma rejected_caught: "c \<in> set parser_codes \<Longrightarrow> rejected_with (caught_as c r)"
  by (simp add: caught_as_def split: sum.splits library_exn.splits)

lemma rejected_ensure: "c \<in> set parser_codes \<Longrightarrow> rejected_with (ensure b (ParseRejected c))"
  by (simp add: ensure_def)

lemma rejected_mapR: "(\<And>x. x \<in> set xs \<Longrightarrow> rejected_with (f x)) \<Longrightarrow> rejected_with (mapR f xs)"
  by (induction xs) (auto intro!: rejected_bind)

lemma append_block_rejected: "rejected_with (append_block nfc L t loc s)"
  by (simp add: append_block_def Let_def parser_codes_def)

lemma append_all_rejected: "rejected_with (append_all nfc L xs s)"
  by (induction nfc L xs s rule: append_all.induct) (auto intro!: rejected_bind append_block_rejected)

lemma table_row_rejected: "rejected_with (table_row nfc L t r c cells z)"
  by (induction nfc L t r c cells z rule: table_row.induct)
    (auto intro!: rejected_bind append_all_rejected simp: parser_codes_def)

lemma table_rows_rejected: "rejected_with (table_rows nfc L t r rows z)"
  by (induction nfc L t r rows z rule: table_rows.induct) (auto intro!: rejected_bind table_row_rejected)

lemma docx_body_rejected: "rejected_with (docx_body nfc L p t items s)"
  by (induction nfc L p t items s rule: docx_body.induct)
    (auto intro!: rejected_bind append_block_rejected table_rows_rejected simp: parser_codes_def)

lemma check_xml_rejected: "rejected_with (check_xml X e)"
  by (auto simp: check_xml_def check_relationship_def Let_def parsed_xml_def parser_codes_def split: option.splits
      intro!: rejected_bind rejected_caught rejected_mapR rejected_ensure)

lemma check_entries_rejected: "rejected_with (check_entries X L es used)"
  by (induction X L es used rule: check_entries.induct)
    (auto intro!: rejected_bind check_xml_rejected simp: check_entry_def Let_def parser_codes_def)

lemma validate_archive_rejected: "rejected_with (validate_archive X L a)"
  unfolding validate_archive_def Let_def read_entry_def
  by (auto simp: parsed_xml_def parser_codes_def split: option.splits
      intro!: rejected_bind check_entries_rejected rejected_caught rejected_ensure)

lemma pdf_lines_rejected: "rejected_with (pdf_lines nfc L page n ls s)"
  by (induction nfc L page n ls s rule: pdf_lines.induct) (auto intro!: rejected_bind append_block_rejected)

lemma pdf_pages_rejected: "rejected_with (pdf_pages nfc L page ps z)"
  by (induction nfc L page ps z rule: pdf_pages.induct)
    (auto simp: pdf_page_step_def intro!: rejected_bind pdf_lines_rejected)

lemma scan_rejected: "rejected_with (scan_objects get stack z)"
proof (induction get stack z rule: scan_objects.induct)
  case (1 get stack z)
  have r: "rejected_with (Inl e :: document_exn + pdf_scan)" if "scan_round get v z = ScanRaises e" for v e
    using that by (auto simp: scan_round_def caught_as_def parser_codes_def split: pdf_value.splits if_splits sum.splits library_exn.splits)
  have i: "rejected_with (inspect_value v z)" for v z
    by (simp add: inspect_value_def parser_codes_def split: pdf_value.splits)
  show ?case using 1 r i by (subst scan_objects.simps) (auto split: scan_round.splits sum.splits simp: rejected_with_def)
qed

theorem parser_rejections: "parse_document P d = Inl (ParseRejected c) \<Longrightarrow> c \<in> set parser_codes"
proof -
  have "rejected_with (parse_docx nfc X L a o1)" for nfc X L a o1
    unfolding parse_docx_def
    by (auto simp: parser_codes_def intro!: rejected_bind validate_archive_rejected rejected_caught docx_body_rejected)
  moreover have "rejected_with (parse_pdf nfc L o1)" for nfc L o1
    unfolding parse_pdf_def reject_active_content_def
    by (auto simp: parser_codes_def pdf_result_def Let_def intro!: rejected_bind scan_rejected rejected_caught pdf_pages_rejected)
  ultimately show "parse_document P d = Inl (ParseRejected c) \<Longrightarrow> c \<in> set parser_codes"
    unfolding parse_document_def rejected_with_def by (metis (full_types))
qed

theorem uploads_settle_unless_crash:
  assumes "\<forall>d. parse_document P d \<noteq> Inl ParserCrashed"
  shows "parser_ok (upload_parse P)"
  unfolding parser_ok_def
proof (intro allI impI)
  fix d e assume e: "upload_parse P d = Inl e"
  then obtain c where c: "parse_document P d = Inl (ParseRejected c)" "e = ParseFailed c"
    using assms by (auto simp: upload_parse_def split: sum.splits document_exn.splits)
  have "\<forall>c \<in> set parser_codes. \<not> code_blank (ParseCode c)" by (simp add: parser_codes_def code_blank_def)
  then show "e = UploadCancelled \<or> (\<exists>c. e = ParseFailed c \<and> \<not> code_blank (ParseCode c))"
    using parser_rejections [OF c(1)] c(2) by blast
qed

section \<open>Examples\<close>

definition px_cyclic :: "nat \<times> nat \<Rightarrow> library_exn + pdf_value" where
  "px_cyclic k = Inr (PdfDict 2 [(ustr ''/Parent'', PdfRef 1 0)])"

definition px_trailer :: pdf_value where
  "px_trailer = PdfDict 1 [(ustr ''/Root'', PdfRef 1 0)]"

lemma px_reach: "pdf_reach px_cyclic px_trailer v \<Longrightarrow> v = px_trailer \<or> v = PdfRef 1 0 \<or> v = PdfDict 2 [(ustr ''/Parent'', PdfRef 1 0)]"
  by (induction rule: pdf_reach.induct) (auto simp: px_trailer_def pdf_children_def px_cyclic_def)


definition px_env :: parser_env where
  "px_env = \<lparr>pe_nfc = id, pe_xml = \<lparr>xe_casefold = id, xe_relationships = (\<lambda>_. None), xe_overrides = (\<lambda>_. None)\<rparr>,
     pe_limits = default_limits, pe_archive = (\<lambda>_. Inl CaughtException), pe_docx = (\<lambda>_. Inl CaughtException),
     pe_pdf = (\<lambda>_. Inr \<lparr>pf_encrypted = False, pf_page_count = 1, pf_trailer = PdfAtom (ustr ''x''), pf_object = (\<lambda>_. Inl CaughtException),
       pf_pages = Inr [\<lparr>pp_lines = [\<lparr>pln_text = ustr '' Hello '',
           pln_box = (dec_of_int 0, dec_of_int 0, dec_of_int 1, dec_of_int 1)\<rparr>], pp_images = False, pp_drawn = True\<rparr>]\<rparr>)\<rparr>"

definition px_document :: parsed_document where
  "px_document = \<lparr>doc_media_type = MediaPdf, doc_page_count = Some 1, doc_character_count = 5,
     doc_blocks = [\<lparr>blk_id = ustr ''b000001'', blk_text = ustr ''Hello'',
       blk_locator = PdfTextBlock 1 1 (dec_of_int 0, dec_of_int 0, dec_of_int 1, dec_of_int 1)\<rparr>]\<rparr>"

lemma px_parsed: "parse_document px_env up_staged = Inr px_document"
  by code_simp

theorem parsed_document_valid_witness: "parse_document px_env up_staged = Inr px_document \<and> validate_document px_document"
  using parsed_document_valid [OF px_parsed] px_parsed by (simp add: px_env_def contract_limits_def default_limits_def)

end
