(* ===== verification/Rubric_Content.thy ===== *)
theory Rubric_Content
  imports Grading_Prompt Decimal_Strings
begin

text \<open>
  What the database accepts as the content of a rubric: the function
  \<open>paper_grading_valid_structured_rubric\<close> of migration 0008 over JSON, and the JSON that
  \<open>StructuredRubric.model_dump(mode="json")\<close> writes. The main result is that the database accepts
  every rubric that the Python contract accepts. The cast of a text to \<open>numeric\<close>, \<open>lower\<close> and the
  class \<open>[[:space:]]\<close>, which depend on the server's locale, are parameters.
\<close>

section \<open>The JSON that is stored\<close>

definition dump_decimal :: "decimal \<Rightarrow> json" where
  "dump_decimal d = JStr (decimal_str d)"

definition dump_band :: "rubric_band \<Rightarrow> json" where
  "dump_band b = JObj [(ustr ''label'', JStr (band_label b)), (ustr ''min_score'', dump_decimal (band_min_score b)),
     (ustr ''max_score'', dump_decimal (band_max_score b)), (ustr ''description'', JStr (band_description b))]"

definition dump_dimension :: "rubric_dimension \<Rightarrow> json" where
  "dump_dimension d = JObj [(ustr ''id'', JStr (dim_id d)), (ustr ''name'', JStr (dim_name d)),
     (ustr ''description'', JStr (dim_description d)), (ustr ''max_score'', dump_decimal (dim_max_score d)),
     (ustr ''bands'', JArr (map dump_band (dim_bands d))),
     (ustr ''evidence_requirements'', JArr (map JStr (dim_evidence_requirements d)))]"

definition dump_deduction :: "rubric_deduction \<Rightarrow> json" where
  "dump_deduction d = JObj [(ustr ''id'', JStr (ded_id d)), (ustr ''name'', JStr (ded_name d)),
     (ustr ''description'', JStr (ded_description d)), (ustr ''points'', dump_decimal (ded_points d))]"

definition rubric_dump :: "structured_rubric \<Rightarrow> json" where
  "rubric_dump r = JObj [(ustr ''schema_version'', JInt (rub_schema_version r)),
     (ustr ''total_score'', dump_decimal (rub_total_score r)), (ustr ''score_step'', dump_decimal (rub_score_step r)),
     (ustr ''dimensions'', JArr (map dump_dimension (rub_dimensions r))),
     (ustr ''deductions'', JArr (map dump_deduction (rub_deductions r)))]"

section \<open>The functions of the server\<close>

text \<open>
  A text that is not a finite number is \<open>None\<close>: the cast raises, which the function turns into
  \<open>FALSE\<close>, or yields \<open>NaN\<close> or an infinity, which no comparison with \<open>mod\<close> survives.
\<close>

record sql_env =
  sq_numeric :: "pystr \<Rightarrow> decimal option"
  sq_lower :: "nat \<Rightarrow> nat"
  sq_space :: "nat \<Rightarrow> bool"

text \<open>Exact arithmetic of \<open>numeric\<close>; \<open>mod\<close> by zero raises.\<close>

definition sql_add :: "decimal \<Rightarrow> decimal \<Rightarrow> decimal" where
  "sql_add a b = (let e = min (dec_exp a) (dec_exp b); r = dec_at e a + dec_at e b in Dec (r < 0) (nat \<bar>r\<bar>) e)"

definition sql_mod :: "decimal \<Rightarrow> decimal \<Rightarrow> decimal option" where
  "sql_mod a b = (let e = min (dec_exp a) (dec_exp b); y = dec_at e b in
     if y = 0 then None else Some (Dec (dec_neg a) (nat (\<bar>dec_at e a\<bar> mod \<bar>y\<bar>)) e))"

definition on_step :: "decimal \<Rightarrow> decimal \<Rightarrow> bool" where
  "on_step a step \<longleftrightarrow> (case sql_mod a step of None \<Rightarrow> False | Some r \<Rightarrow> dec_coef r = 0)"

definition btrim :: "pystr \<Rightarrow> pystr" where
  "btrim s = rev (dropWhile (\<lambda>c. c = 32) (rev (dropWhile (\<lambda>c. c = 32) s)))"

text \<open>\<open>regexp_replace(s, '[[:space:]]+', ' ', 'g')\<close>.\<close>

function squeeze :: "(nat \<Rightarrow> bool) \<Rightarrow> pystr \<Rightarrow> pystr" where
  "squeeze sp [] = []"
| "squeeze sp (c # s) = (if sp c then 32 # squeeze sp (dropWhile sp s) else c # squeeze sp s)"
  by pat_completeness auto

termination
  by (relation "measure (\<lambda>(sp, s). length s)") (auto simp: le_imp_less_Suc length_dropWhile_le)

definition dimension_key :: "sql_env \<Rightarrow> pystr \<Rightarrow> pystr" where
  "dimension_key E name = map (sq_lower E) (squeeze (sq_space E) (btrim name))"

section \<open>The content check\<close>

text \<open>\<open>payload ?& keys\<close> and \<open>payload - keys = '{}'\<close> on a value of type \<open>object\<close>.\<close>

definition has_keys :: "pystr list \<Rightarrow> json \<Rightarrow> bool" where
  "has_keys ks j \<longleftrightarrow> json_fields_within ks j \<and> list_all (\<lambda>k. json_get k j \<noteq> None) ks"

definition sql_text :: "string \<Rightarrow> json \<Rightarrow> pystr option" where
  "sql_text k j = Option.bind (json_get (ustr k) j) json_str"

definition sql_number :: "sql_env \<Rightarrow> string \<Rightarrow> json \<Rightarrow> decimal option" where
  "sql_number E k j = Option.bind (sql_text k j) (sq_numeric E)"

definition sql_array :: "string \<Rightarrow> json \<Rightarrow> json list option" where
  "sql_array k j = Option.bind (json_get (ustr k) j) json_arr"

definition band_keys :: "pystr list" where
  "band_keys = [ustr ''label'', ustr ''min_score'', ustr ''max_score'', ustr ''description'']"

definition dimension_keys :: "pystr list" where
  "dimension_keys = [ustr ''id'', ustr ''name'', ustr ''description'', ustr ''max_score'', ustr ''bands'',
     ustr ''evidence_requirements'']"

definition deduction_keys :: "pystr list" where
  "deduction_keys = [ustr ''id'', ustr ''name'', ustr ''description'', ustr ''points'']"

definition rubric_keys :: "pystr list" where
  "rubric_keys = [ustr ''schema_version'', ustr ''total_score'', ustr ''score_step'', ustr ''dimensions'',
     ustr ''deductions'']"

text \<open>The loop over the bands with the check after it; \<open>previous_band_max\<close> is its state.\<close>

fun sql_bands :: "sql_env \<Rightarrow> decimal \<Rightarrow> decimal \<Rightarrow> decimal option \<Rightarrow> json list \<Rightarrow> bool" where
  "sql_bands E dim_max step previous [] = (case previous of None \<Rightarrow> True | Some p \<Rightarrow> dec_eq p dim_max)"
| "sql_bands E dim_max step previous (b # bs) =
     (if \<not> has_keys band_keys b then False
      else case (sql_text ''label'' b, sql_text ''description'' b, sql_number E ''min_score'' b, sql_number E ''max_score'' b) of
        (Some label, Some description, Some lo, Some hi) \<Rightarrow>
          if blank label \<or> blank description \<or> dec_less lo dec_zero \<or> dec_less hi lo \<or> dec_less dim_max hi \<or>
             \<not> on_step lo step \<or> \<not> on_step hi step \<or>
             \<not> dec_eq lo (case previous of None \<Rightarrow> dec_zero | Some p \<Rightarrow> sql_add p step)
          then False
          else sql_bands E dim_max step (Some hi) bs
      | _ \<Rightarrow> False)"

definition sql_requirement :: "json \<Rightarrow> bool" where
  "sql_requirement j = (case json_str j of None \<Rightarrow> False | Some s \<Rightarrow> \<not> blank s)"

record dimensions_seen =
  seen_ids :: "pystr list"
  seen_names :: "pystr list"
  seen_total :: decimal

definition sql_dimension :: "sql_env \<Rightarrow> decimal \<Rightarrow> json \<Rightarrow> dimensions_seen \<Rightarrow> dimensions_seen option" where
  "sql_dimension E step d seen =
     (if \<not> has_keys dimension_keys d then None
      else case (sql_text ''id'' d, sql_text ''name'' d, sql_text ''description'' d, sql_number E ''max_score'' d,
                 sql_array ''bands'' d, sql_array ''evidence_requirements'' d) of
        (Some i, Some name, Some description, Some most, Some bands, Some requirements) \<Rightarrow>
          if bands = [] \<or> requirements = [] \<or> \<not> is_identifier i \<or> i \<in> set (seen_ids seen) \<or>
             dimension_key E name = [] \<or> dimension_key E name \<in> set (seen_names seen) \<or>
             blank description \<or> dec_le most dec_zero \<or> \<not> on_step most step \<or>
             \<not> sql_bands E most step None bands \<or> \<not> list_all sql_requirement requirements
          then None
          else Some \<lparr>seen_ids = seen_ids seen @ [i], seen_names = seen_names seen @ [dimension_key E name],
                  seen_total = sql_add (seen_total seen) most\<rparr>
      | _ \<Rightarrow> None)"

fun sql_dimensions :: "sql_env \<Rightarrow> decimal \<Rightarrow> json list \<Rightarrow> dimensions_seen \<Rightarrow> dimensions_seen option" where
  "sql_dimensions E step [] seen = Some seen"
| "sql_dimensions E step (d # ds) seen = Option.bind (sql_dimension E step d seen) (sql_dimensions E step ds)"

definition sql_deduction :: "sql_env \<Rightarrow> decimal \<Rightarrow> decimal \<Rightarrow> json \<Rightarrow> bool" where
  "sql_deduction E ceiling step d \<longleftrightarrow> has_keys deduction_keys d \<and>
     (case (sql_text ''id'' d, sql_text ''name'' d, sql_text ''description'' d, sql_number E ''points'' d) of
        (Some i, Some name, Some description, Some points) \<Rightarrow>
          is_identifier i \<and> \<not> blank name \<and> \<not> blank description \<and>
          \<not> dec_le points dec_zero \<and> \<not> dec_less ceiling points \<and> on_step points step
      | _ \<Rightarrow> False)"

definition valid_structured_rubric :: "sql_env \<Rightarrow> json \<Rightarrow> decimal \<Rightarrow> decimal \<Rightarrow> bool" where
  "valid_structured_rubric E payload ceiling step \<longleftrightarrow>
     has_keys rubric_keys payload \<and> json_get (ustr ''schema_version'') payload = Some (JInt 1) \<and>
     (case (sql_number E ''total_score'' payload, sql_number E ''score_step'' payload,
            sql_array ''dimensions'' payload, sql_array ''deductions'' payload) of
        (Some t, Some s, Some dimensions, Some deductions) \<Rightarrow>
          dec_eq t ceiling \<and> dec_eq s step \<and> \<not> dec_le ceiling dec_zero \<and> \<not> dec_le step dec_zero \<and>
          \<not> dec_less ceiling step \<and> on_step ceiling step \<and> dimensions \<noteq> [] \<and>
          (case sql_dimensions E step dimensions \<lparr>seen_ids = [], seen_names = [], seen_total = dec_zero\<rparr> of
             None \<Rightarrow> False
           | Some seen \<Rightarrow> dec_eq (seen_total seen) ceiling \<and> list_all (sql_deduction E ceiling step) deductions)
      | _ \<Rightarrow> False)"

section \<open>Exact arithmetic on units\<close>

lemma dec_eq_units: "dec_eq a b \<Longrightarrow> dec_units b = Some x \<Longrightarrow> dec_units a = Some x"
proof -
  let ?e = "dec_floor a b"
  assume "dec_eq a b" and b: "dec_units b = Some x"
  then have "dec_at ?e a = dec_at ?e b"
    by (simp add: dec_at_min_floor dec_eq_def Let_def)
  also have "\<dots> = x * 10 ^ nat (- 4 - ?e)" using dec_at_floor_units(2) b by blast
  finally show ?thesis using dec_units_iff [of ?e a x] dec_floor_le by blast
qed

lemma sql_add_units:
  assumes "dec_units a = Some x" "dec_units b = Some y"
  shows "dec_units (sql_add a b) = Some (x + y)"
proof -
  let ?e = "min (dec_exp a) (dec_exp b)" and ?f = "dec_floor a b"
  let ?r = "dec_at ?e a + dec_at ?e b"
  have "dec_at ?f (sql_add a b) = ?r * 10 ^ nat (?e - ?f)"
    by (auto simp: sql_add_def Let_def dec_at_def dec_int_def)
  also have "\<dots> = (x + y) * 10 ^ nat (- 4 - ?f)"
    using dec_at_min_floor [of a b] dec_at_floor_units [of a x b] dec_at_floor_units [of b y a] assms
      dec_at_floor_units(2) [of b y a] by (simp add: distrib_right dec_at_floor_units)
  finally show ?thesis
    using dec_units_iff [of ?f "sql_add a b" "x + y"] dec_floor_le [of a b] by (simp add: sql_add_def Let_def)
qed

lemma on_step_units:
  assumes "dec_units a = Some x" "dec_units b = Some y" "y \<noteq> 0"
  shows "on_step a b \<longleftrightarrow> y dvd x"
proof -
  let ?e = "min (dec_exp a) (dec_exp b)" and ?f = "dec_floor a b"
  let ?p = "10 ^ nat (?e - ?f) :: int" and ?q = "10 ^ nat (- 4 - ?f) :: int"
  have A: "dec_at ?e a * ?p = x * ?q" "dec_at ?e b * ?p = y * ?q"
    using dec_at_min_floor [of a b] dec_at_floor_units assms by simp_all
  then have "dec_at ?e b \<noteq> 0" using assms(3) by auto
  then have "on_step a b \<longleftrightarrow> dec_at ?e b dvd dec_at ?e a"
  proof -
    have "on_step a b \<longleftrightarrow> nat (\<bar>dec_at ?e a\<bar> mod \<bar>dec_at ?e b\<bar>) = 0"
      using \<open>dec_at ?e b \<noteq> 0\<close> by (simp add: on_step_def sql_mod_def Let_def)
    also have "\<dots> \<longleftrightarrow> \<bar>dec_at ?e a\<bar> mod \<bar>dec_at ?e b\<bar> = 0"
      using pos_mod_sign [of "\<bar>dec_at ?e b\<bar>" "\<bar>dec_at ?e a\<bar>"] \<open>dec_at ?e b \<noteq> 0\<close> by linarith
    also have "\<dots> \<longleftrightarrow> dec_at ?e b dvd dec_at ?e a" by (simp add: mod_eq_0_iff_dvd)
    finally show ?thesis .
  qed
  also have "\<dots> \<longleftrightarrow> dec_at ?e b * ?p dvd dec_at ?e a * ?p" by simp
  also have "\<dots> \<longleftrightarrow> y dvd x" unfolding A by simp
  finally show ?thesis .
qed

section \<open>Texts\<close>

lemma stripped_head: "py_strip s = s \<Longrightarrow> s \<noteq> [] \<Longrightarrow> \<not> py_isspace (hd s)"
proof -
  assume "py_strip s = s" and n: "s \<noteq> []"
  then have "py_rstrip (py_lstrip s) = s" by (simp add: py_strip_def)
  then obtain t where t: "py_lstrip s = s @ t" using py_rstrip_prefix [of "py_lstrip s"] by metis
  then show ?thesis using n py_lstrip_head [of s "hd s" "tl s @ t"] by (cases s) simp_all
qed

lemma stripped_last: "py_strip s = s \<Longrightarrow> s \<noteq> [] \<Longrightarrow> \<not> py_isspace (last s)"
  using py_rstrip_last [of "py_lstrip s"] by (simp add: py_strip_def)

lemma stripped_not_blank: "py_strip s = s \<Longrightarrow> s \<noteq> [] \<Longrightarrow> \<not> blank s"
  using stripped_head [of s] by (cases s) (auto simp: blank_def py_isspace_def)

lemma btrim_stripped: "py_strip s = s \<Longrightarrow> btrim s = s"
proof (cases "s = []")
  case False
  assume s: "py_strip s = s"
  have "hd s \<noteq> 32" using stripped_head [OF s False] by (auto simp: py_isspace_def)
  moreover have "last s \<noteq> 32" using stripped_last [OF s False] by (auto simp: py_isspace_def)
  moreover have "dropWhile (\<lambda>c. c = 32) s = s" using False \<open>hd s \<noteq> 32\<close> by (cases s) auto
  moreover have "dropWhile (\<lambda>c. c = 32) (rev s) = rev s"
    using False \<open>last s \<noteq> 32\<close> by (cases s rule: rev_cases) auto
  ultimately show ?thesis by (simp add: btrim_def)
qed (simp add: btrim_def)

text \<open>\<open>split\<close> one character at a time.\<close>

lemma split_Nil [simp]: "py_split [] = []"
  by (subst py_split.simps) (simp add: py_lstrip_def)

lemma split_space: "py_isspace c \<Longrightarrow> py_split (c # s) = py_split s"
  by (simp add: py_split.simps [of "c # s"] py_split.simps [of s] py_lstrip_def)

lemma split_spaces: "(\<And>c. sp c \<Longrightarrow> py_isspace c) \<Longrightarrow> py_split (dropWhile sp s) = py_split s"
  by (induction s) (auto simp: split_space)

lemma split_char:
  assumes "\<not> py_isspace c"
  shows "py_split (c # s) = (if s = [] \<or> py_isspace (hd s) then [c] # py_split s
    else (c # hd (py_split s)) # tl (py_split s))"
proof (cases "s = [] \<or> py_isspace (hd s)")
  case True
  then have "takeWhile (\<lambda>c. \<not> py_isspace c) s = []" "dropWhile (\<lambda>c. \<not> py_isspace c) s = s"
    by (cases s; auto)+
  then show ?thesis using assms True by (subst py_split.simps) (simp add: py_lstrip_def)
next
  case False
  then obtain d t where s: "s = d # t" "\<not> py_isspace d" by (cases s) auto
  show ?thesis using assms s py_split.simps [of "c # d # t"] py_split.simps [of "d # t"] by (simp add: py_lstrip_def)
qed

lemma squeeze_head:
  assumes "\<And>c. sp c \<Longrightarrow> py_isspace c"
  shows "squeeze sp s = [] \<longleftrightarrow> s = []" "s \<noteq> [] \<Longrightarrow> py_isspace (hd (squeeze sp s)) = py_isspace (hd s)"
  using assms by (cases s; simp add: py_isspace_def)+

lemma split_squeeze:
  assumes "\<And>c. sp c \<Longrightarrow> py_isspace c"
  shows "py_split (squeeze sp s) = py_split s"
  using assms
proof (induction sp s rule: squeeze.induct)
  case (2 sp c s)
  note sp = 2(3)
  show ?case
  proof (cases "sp c")
    case True
    have "py_isspace 32" by (simp add: py_isspace_def)
    then show ?thesis using True 2(1) sp by (simp add: split_space split_spaces)
  next
    case False
    then have IH: "py_split (squeeze sp s) = py_split s" using 2(2) sp by blast
    show ?thesis
      using False IH squeeze_head [of sp s] sp
      by (cases "py_isspace c") (auto simp: split_space split_char)
  qed
qed simp

text \<open>Texts that agree character by character after a map that keeps white space.\<close>

lemma split_alike:
  assumes "list_all2 R x y" "\<And>c d. R c d \<Longrightarrow> py_isspace c = py_isspace d"
  shows "list_all2 (list_all2 R) (py_split x) (py_split y)"
  using assms(1)
proof (induction rule: list_all2_induct)
  case (Cons c x d y)
  have h: "x = [] \<longleftrightarrow> y = []" "x \<noteq> [] \<Longrightarrow> py_isspace (hd x) = py_isspace (hd y)"
    using Cons.hyps(2) assms(2) by (auto simp: neq_Nil_conv list_all2_Cons1)
  show ?case
  proof (cases "py_isspace c")
    case True
    then show ?thesis using assms(2) [OF Cons.hyps(1)] Cons.IH by (simp add: split_space)
  next
    case False
    then have d: "\<not> py_isspace d" using assms(2) [OF Cons.hyps(1)] by simp
    show ?thesis
    proof (cases "x = [] \<or> py_isspace (hd x)")
      case True
      then show ?thesis using False d h Cons.IH Cons.hyps(1) by (auto simp: split_char)
    next
      case no: False
      then obtain a u b v where xy: "x = a # u" "y = b # v" "\<not> py_isspace a" "\<not> py_isspace b"
        using h by (cases x; cases y) auto
      have n: "py_split x \<noteq> []" "py_split y \<noteq> []" using xy by (auto simp: split_char)
      then show ?thesis using False d no h Cons.IH Cons.hyps(1)
        by (cases "py_split x"; cases "py_split y") (auto simp: split_char)
    qed
  qed
qed simp

lemma join_alike: "list_all2 (list_all2 R) xs ys \<Longrightarrow> R 32 32 \<Longrightarrow> list_all2 R (join_space xs) (join_space ys)"
proof (induction xs arbitrary: ys rule: join_space.induct)
  case (3 x x' xs)
  then obtain y y' ys' where ys: "ys = y # y' # ys'" "list_all2 R x y" "list_all2 (list_all2 R) (x' # xs) (y' # ys')"
    by (auto simp: list_all2_Cons1)
  have "list_all2 R (join_space (x' # xs)) (join_space (y' # ys'))" by (rule 3(1) [OF ys(3) 3(3)])
  then show ?case using ys(1,2) 3(3) by (simp add: list_all2_appendI)
qed (auto simp: list_all2_Cons1)

text \<open>
  \<open>str.casefold\<close> maps each character on its own; on the characters of the names it identifies
  whatever the server's \<open>lower\<close> identifies, and the server knows no white space that Python does not.
\<close>

definition folds_alike :: "(pystr \<Rightarrow> pystr) \<Rightarrow> sql_env \<Rightarrow> nat set \<Rightarrow> bool" where
  "folds_alike casefold E C \<longleftrightarrow> (\<exists>f. (\<forall>s. casefold s = concat (map f s)) \<and>
     (\<forall>c. f c = [c] \<or> \<not> py_isspace c \<and> (\<forall>d \<in> set (f c). \<not> py_isspace d)) \<and>
     (\<forall>c \<in> C \<union> {32}. \<forall>d \<in> C \<union> {32}. sq_lower E c = sq_lower E d \<longrightarrow> f c = f d)) \<and>
   (\<forall>c. sq_space E c \<longrightarrow> py_isspace c)"

lemma squeeze_chars: "c \<in> set (squeeze sp s) \<Longrightarrow> c \<in> set s \<union> {32}"
proof (induction sp s rule: squeeze.induct)
  case (2 sp a s)
  then show ?case by (auto split: if_splits dest: set_dropWhileD)
qed simp

lemma same_dimension_key:
  assumes fold: "folds_alike casefold E C" and a: "py_strip a = a" "set a \<subseteq> C" and b: "py_strip b = b" "set b \<subseteq> C"
    and k: "dimension_key E a = dimension_key E b"
  shows "name_key casefold a = name_key casefold b"
proof -
  from fold obtain f where f: "\<And>s. casefold s = concat (map f s)"
    "\<And>c. f c = [c] \<or> \<not> py_isspace c \<and> (\<forall>d \<in> set (f c). \<not> py_isspace d)"
    "\<And>c d. c \<in> C \<union> {32} \<Longrightarrow> d \<in> C \<union> {32} \<Longrightarrow> sq_lower E c = sq_lower E d \<Longrightarrow> f c = f d"
    and sp: "\<And>c. sq_space E c \<Longrightarrow> py_isspace c" unfolding folds_alike_def by blast
  let ?a = "squeeze (sq_space E) a" and ?b = "squeeze (sq_space E) b"
  have k': "map (sq_lower E) ?a = map (sq_lower E) ?b" using k a(1) b(1) by (simp add: dimension_key_def btrim_stripped)
  then have l: "length ?a = length ?b" by (metis length_map)
  have "list_all2 (\<lambda>c d. f c = f d) ?a ?b"
    unfolding list_all2_conv_all_nth
  proof (intro conjI allI impI)
    fix i assume i: "i < length ?a"
    show "f (?a ! i) = f (?b ! i)"
    proof (rule f(3))
      show "?a ! i \<in> C \<union> {32}" "?b ! i \<in> C \<union> {32}"
        using squeeze_chars [of "?a ! i" "sq_space E" a] squeeze_chars [of "?b ! i" "sq_space E" b] i l a(2) b(2) by auto
      show "sq_lower E (?a ! i) = sq_lower E (?b ! i)" using arg_cong [OF k', of "\<lambda>xs. xs ! i"] i l by simp
    qed
  qed (rule l)
  moreover have "py_isspace c = py_isspace d" if "f c = f d" for c d
  proof -
    have one: False if "f x = f y" "py_isspace x" "\<not> py_isspace y" for x y
    proof -
      have x: "f x = [x]" using f(2) [of x] that(2) by blast
      then have "f y = [x]" using that(1) by simp
      then show False using f(2) [of y] that(2,3) by auto
    qed
    show ?thesis using one [of c d] one [of d c] that by auto
  qed
  ultimately have "list_all2 (list_all2 (\<lambda>c d. f c = f d)) (py_split ?a) (py_split ?b)" by (rule split_alike)
  then have "list_all2 (\<lambda>c d. f c = f d) (join_space (py_split a)) (join_space (py_split b))"
    using sp by (intro join_alike) (simp_all add: split_squeeze)
  then have "map f (join_space (py_split a)) = map f (join_space (py_split b))"
    by (simp add: list_all2_conv_all_nth list_eq_iff_nth_eq)
  then show ?thesis by (simp add: name_key_def f(1))
qed

section \<open>The database accepts what the contract accepts\<close>

text \<open>\<open>numeric\<close> reads the notation of \<open>str(Decimal)\<close>.\<close>

definition numeric_reads :: "sql_env \<Rightarrow> bool" where
  "numeric_reads E \<longleftrightarrow> (\<forall>d. decimal_field d \<longrightarrow>
     (case sq_numeric E (decimal_str d) of None \<Rightarrow> False | Some d' \<Rightarrow> dec_eq d' d))"

lemma reads_units:
  assumes "numeric_reads E" "score_at S d"
  obtains d' where "sq_numeric E (decimal_str d) = Some d'" "dec_units d' = Some (uval d)"
proof -
  have u: "dec_units d = Some (uval d)" and "decimal_field d"
    using assms(2) decimal_field_units [of d "uval d"] by (auto simp: score_at_def)
  then obtain d' where d': "sq_numeric E (decimal_str d) = Some d'" "dec_eq d' d"
    using assms(1) by (auto simp: numeric_reads_def split: option.splits)
  then show ?thesis using that dec_eq_units u by blast
qed

lemma text_field_ok: "text_field f n x = Inr s \<Longrightarrow> py_strip s = s \<and> s \<noteq> [] \<and> \<not> blank s"
  using stripped_not_blank by (auto simp: text_field_def validate_text_def Let_def split: if_splits)

lemma split_first: "py_split v = w # ws \<Longrightarrow> w \<noteq> [] \<and> \<not> py_isspace (hd w)"
proof -
  assume "py_split v = w # ws"
  then obtain c t where "py_lstrip v = c # t" "w = takeWhile (\<lambda>c. \<not> py_isspace c) (c # t)"
    by (subst (asm) py_split.simps) (auto split: list.splits)
  then show ?thesis using py_lstrip_head by fastforce
qed

lemma joined_not_blank: "join_space (py_split v) \<noteq> [] \<Longrightarrow> \<not> blank (join_space (py_split v))"
proof (cases "py_split v")
  case (Cons w ws)
  then obtain c u where "w = c # u" "c \<noteq> 32" using split_first [OF Cons] by (cases w) (auto simp: py_isspace_def)
  then show ?thesis using Cons by (cases ws) (auto simp: blank_def)
qed simp

definition texts_ok :: "rubric_dimension \<Rightarrow> bool" where
  "texts_ok d \<longleftrightarrow> is_identifier (dim_id d) \<and> py_strip (dim_name d) = dim_name d \<and> dim_name d \<noteq> [] \<and>
     \<not> blank (dim_description d) \<and> dim_bands d \<noteq> [] \<and> dim_evidence_requirements d \<noteq> [] \<and>
     (\<forall>b \<in> set (dim_bands d). \<not> blank (band_label b) \<and> \<not> blank (band_description b)) \<and>
     (\<forall>e \<in> set (dim_evidence_requirements d). \<not> blank e)"

lemma validated_band_texts: "validate_band b = Inr c \<Longrightarrow> \<not> blank (band_label c) \<and> \<not> blank (band_description c)"
  using text_field_ok by (auto simp: validate_band_def)

lemma validated_texts:
  assumes "validate_dimension d = Inr v"
  shows "texts_ok v"
proof -
  from assms obtain name description bands evidence where
    n: "text_field ''name'' 160 (dim_name d) = Inr name" "text_field ''description'' 4000 (dim_description d) = Inr description"
    and b: "mapR validate_band (dim_bands d) = Inr bands" "length_between 1 50 (dim_bands d)"
    and e: "length_between 1 50 (dim_evidence_requirements d)"
      "validate_evidence_requirements (dim_evidence_requirements d) = Inr evidence"
    and i: "is_identifier (dim_id d)"
    and v: "v = d\<lparr>dim_name := name, dim_description := description, dim_bands := bands, dim_evidence_requirements := evidence\<rparr>"
    by (auto simp: validate_dimension_def)
  have "evidence = map (\<lambda>v. join_space (py_split v)) (dim_evidence_requirements d)" "\<forall>x \<in> set evidence. x \<noteq> []"
    using e(2) by (auto simp: validate_evidence_requirements_def Let_def split: if_splits)
  then have "evidence \<noteq> []" "\<forall>x \<in> set evidence. \<not> blank x"
    using e(1) joined_not_blank by (auto simp: length_between_def)
  moreover have "bands \<noteq> []" using b mapR_length [OF b(1)] by (auto simp: length_between_def)
  moreover have "\<forall>c \<in> set bands. \<not> blank (band_label c) \<and> \<not> blank (band_description c)"
    using mapR_set [OF b(1)] validated_band_texts by blast
  ultimately show ?thesis using text_field_ok [OF n(1)] text_field_ok [OF n(2)] i by (simp add: texts_ok_def v)
qed

lemma dump_keys:
  "has_keys band_keys (dump_band b)" "has_keys dimension_keys (dump_dimension d)"
  "has_keys deduction_keys (dump_deduction x)" "has_keys rubric_keys (rubric_dump r)"
  by (simp_all add: has_keys_def band_keys_def dimension_keys_def deduction_keys_def rubric_keys_def
      dump_band_def dump_dimension_def dump_deduction_def rubric_dump_def ustr_def)

lemma dump_band_fields:
  "sql_text ''label'' (dump_band b) = Some (band_label b)"
  "sql_text ''description'' (dump_band b) = Some (band_description b)"
  "sql_number E ''min_score'' (dump_band b) = sq_numeric E (decimal_str (band_min_score b))"
  "sql_number E ''max_score'' (dump_band b) = sq_numeric E (decimal_str (band_max_score b))"
  by (simp_all add: sql_text_def sql_number_def dump_band_def dump_decimal_def ustr_def)

lemma dump_dimension_fields:
  "sql_text ''id'' (dump_dimension d) = Some (dim_id d)"
  "sql_text ''name'' (dump_dimension d) = Some (dim_name d)"
  "sql_text ''description'' (dump_dimension d) = Some (dim_description d)"
  "sql_number E ''max_score'' (dump_dimension d) = sq_numeric E (decimal_str (dim_max_score d))"
  "sql_array ''bands'' (dump_dimension d) = Some (map dump_band (dim_bands d))"
  "sql_array ''evidence_requirements'' (dump_dimension d) = Some (map JStr (dim_evidence_requirements d))"
  by (simp_all add: sql_text_def sql_number_def sql_array_def dump_dimension_def dump_decimal_def ustr_def)

lemma dump_deduction_fields:
  "sql_text ''id'' (dump_deduction d) = Some (ded_id d)"
  "sql_text ''name'' (dump_deduction d) = Some (ded_name d)"
  "sql_text ''description'' (dump_deduction d) = Some (ded_description d)"
  "sql_number E ''points'' (dump_deduction d) = sq_numeric E (decimal_str (ded_points d))"
  by (simp_all add: sql_text_def sql_number_def dump_deduction_def dump_decimal_def ustr_def)

lemma rubric_dump_fields:
  "json_get (ustr ''schema_version'') (rubric_dump r) = Some (JInt (rub_schema_version r))"
  "sql_number E ''total_score'' (rubric_dump r) = sq_numeric E (decimal_str (rub_total_score r))"
  "sql_number E ''score_step'' (rubric_dump r) = sq_numeric E (decimal_str (rub_score_step r))"
  "sql_array ''dimensions'' (rubric_dump r) = Some (map dump_dimension (rub_dimensions r))"
  "sql_array ''deductions'' (rubric_dump r) = Some (map dump_deduction (rub_deductions r))"
  by (simp_all add: sql_text_def sql_number_def sql_array_def rubric_dump_def dump_decimal_def ustr_def)

text \<open>The loops, on numbers with the same units as Python's.\<close>

definition same_units :: "decimal option \<Rightarrow> decimal option \<Rightarrow> bool" where
  "same_units p q \<longleftrightarrow> rel_option (\<lambda>a b. dec_units a = Some (uval a) \<and> dec_units b = Some (uval a) \<and>
     0 \<le> uval a \<and> uval a < 10 ^ 10) p q"

lemma bands_accepted:
  assumes N: "numeric_reads E"
    and st: "dec_units step = Some S" "dec_units step' = Some S" "0 < S" "S < 10 ^ 10"
    and m: "dec_units most = Some M" "dec_units most' = Some M"
  shows "same_units prev prev' \<Longrightarrow> check_bands step most prev bs = Inr () \<Longrightarrow>
    \<forall>b \<in> set bs. score_at S (band_min_score b) \<and> score_at S (band_max_score b) \<and>
      \<not> blank (band_label b) \<and> \<not> blank (band_description b) \<Longrightarrow>
    sql_bands E most' step' prev' (map dump_band bs)"
proof (induction bs arbitrary: prev prev')
  case Nil
  then show ?case using m by (cases prev; cases prev') (auto simp: same_units_def dec_compare_units)
next
  case (Cons b bs)
  have b: "score_at S (band_min_score b)" "score_at S (band_max_score b)" "\<not> blank (band_label b)" "\<not> blank (band_description b)"
    using Cons.prems(3) by simp_all
  obtain lo where lo: "sq_numeric E (decimal_str (band_min_score b)) = Some lo" "dec_units lo = Some (uval (band_min_score b))"
    using reads_units [OF N b(1)] by blast
  obtain hi where hi: "sq_numeric E (decimal_str (band_max_score b)) = Some hi" "dec_units hi = Some (uval (band_max_score b))"
    using reads_units [OF N b(2)] by blast
  have u: "dec_units (band_min_score b) = Some (uval (band_min_score b))" "dec_units (band_max_score b) = Some (uval (band_max_score b))"
    using b by (auto simp: score_at_def)
  define e where "e = (case prev of None \<Rightarrow> dec_zero | Some p \<Rightarrow> dec_add p step)"
  define e' where "e' = (case prev' of None \<Rightarrow> dec_zero | Some p \<Rightarrow> sql_add p step')"
  have ee: "\<exists>x. dec_units e = Some x \<and> dec_units e' = Some x"
  proof (cases prev)
    case None
    then show ?thesis using Cons.prems(1) by (auto simp: e_def e'_def same_units_def)
  next
    case (Some p)
    then obtain q where "prev' = Some q" "dec_units p = Some (uval p)" "dec_units q = Some (uval p)" "0 \<le> uval p" "uval p < 10 ^ 10"
      using Cons.prems(1) by (cases prev') (auto simp: same_units_def)
    then show ?thesis using Some st dec_units_add [of p "uval p" step S] sql_add_units by (auto simp: e_def e'_def)
  qed
  have c: "dec_eq (band_min_score b) e" "\<not> dec_less (band_max_score b) (band_min_score b)"
    "\<not> dec_less most (band_max_score b)" "check_bands step most (Some (band_max_score b)) bs = Inr ()"
    using Cons.prems(2) by (auto simp: Let_def e_def [symmetric] split: if_splits)
  have "same_units (Some (band_max_score b)) (Some hi)" using u(2) hi(2) b(2) by (simp add: same_units_def score_at_def)
  then have rest: "sql_bands E most' step' (Some hi) (map dump_band bs)"
    using Cons.IH c(4) Cons.prems(3) by simp
  have "dec_eq lo e'" using ee c(1) lo(2) u(1) by (auto simp: dec_compare_units)
  moreover have "\<not> dec_less hi lo" "\<not> dec_less most' hi" using c(2,3) u lo hi m by (simp_all add: dec_compare_units)
  moreover have "\<not> dec_less lo dec_zero" using lo(2) b(1) by (simp add: dec_compare_units [OF _ dec_units_zero] score_at_def)
  moreover have "on_step lo step'" "on_step hi step'"
    using on_step_units [OF lo(2) st(2)] on_step_units [OF hi(2) st(2)] st(3) b(1,2) by (simp_all add: score_at_def)
  ultimately show ?case using rest b(3,4) lo(1) hi(1)
    by (simp add: dump_keys dump_band_fields e'_def [symmetric])
qed

lemma dimensions_accepted:
  assumes N: "numeric_reads E"
    and st: "dec_units step = Some S" "dec_units step' = Some S" "0 < S" "S < 10 ^ 10"
  shows "\<forall>d \<in> set ds. texts_ok d \<and> score_at S (dim_max_score d) \<and> 0 < uval (dim_max_score d) \<and>
      (\<forall>b \<in> set (dim_bands d). score_at S (band_min_score b) \<and> score_at S (band_max_score b)) \<and>
      check_bands step (dim_max_score d) None (dim_bands d) = Inr () \<Longrightarrow>
    distinct (seen_ids seen @ map dim_id ds) \<Longrightarrow>
    distinct (seen_names seen @ map (dimension_key E \<circ> dim_name) ds) \<Longrightarrow>
    dec_units (seen_total seen) = Some t \<Longrightarrow>
    \<exists>out. sql_dimensions E step' (map dump_dimension ds) seen = Some out \<and>
      dec_units (seen_total out) = Some (t + sum_list (map (uval \<circ> dim_max_score) ds))"
proof (induction ds arbitrary: seen t)
  case (Cons d ds)
  have d: "texts_ok d" "score_at S (dim_max_score d)" "0 < uval (dim_max_score d)"
    "\<forall>b \<in> set (dim_bands d). score_at S (band_min_score b) \<and> score_at S (band_max_score b)"
    "check_bands step (dim_max_score d) None (dim_bands d) = Inr ()"
    using Cons.prems(1) by simp_all
  obtain m where m: "sq_numeric E (decimal_str (dim_max_score d)) = Some m" "dec_units m = Some (uval (dim_max_score d))"
    using reads_units [OF N d(2)] by blast
  have mu: "dec_units (dim_max_score d) = Some (uval (dim_max_score d))" using d(2) by (simp add: score_at_def)
  have "sql_bands E m step' None (map dump_band (dim_bands d))"
    by (rule bands_accepted [OF N st mu m(2) _ d(5)]) (use d(1,4) in \<open>auto simp: same_units_def texts_ok_def\<close>)
  moreover have "\<not> dec_le m dec_zero" using m(2) d(3) by (simp add: dec_compare_units [OF _ dec_units_zero])
  moreover have "on_step m step'" using on_step_units [OF m(2) st(2)] st(3) d(2) by (simp add: score_at_def)
  moreover have "dimension_key E (dim_name d) \<noteq> []"
    using d(1) squeeze_head(1) by (cases "dim_name d") (auto simp: texts_ok_def dimension_key_def btrim_stripped)
  ultimately have one: "sql_dimension E step' (dump_dimension d) seen =
      Some \<lparr>seen_ids = seen_ids seen @ [dim_id d], seen_names = seen_names seen @ [dimension_key E (dim_name d)],
        seen_total = sql_add (seen_total seen) m\<rparr>" (is "_ = Some ?next")
    using d(1) Cons.prems(2,3) m(1)
    by (simp add: sql_dimension_def dump_keys dump_dimension_fields texts_ok_def sql_requirement_def list_all_iff)
  have u: "dec_units (seen_total ?next) = Some (t + uval (dim_max_score d))"
    using sql_add_units [OF Cons.prems(4) m(2)] by simp
  have "\<exists>out. sql_dimensions E step' (map dump_dimension ds) ?next = Some out \<and>
      dec_units (seen_total out) = Some (t + uval (dim_max_score d) + sum_list (map (uval \<circ> dim_max_score) ds))"
    by (rule Cons.IH [OF _ _ _ u]) (use Cons.prems in simp_all)
  then show ?case using one by (auto simp: algebra_simps o_def)
qed simp

lemma deduction_accepted:
  assumes "numeric_reads E" "validate_deduction x = Inr d" "score_at S (ded_points d)"
    "0 < uval (ded_points d)" "uval (ded_points d) \<le> T" "0 < S"
    "dec_units ceiling = Some T" "dec_units step = Some S"
  shows "sql_deduction E ceiling step (dump_deduction d)"
proof -
  obtain m where m: "sq_numeric E (decimal_str (ded_points d)) = Some m" "dec_units m = Some (uval (ded_points d))"
    using reads_units [OF assms(1,3)] by blast
  have "is_identifier (ded_id d)" "\<not> blank (ded_name d)" "\<not> blank (ded_description d)"
    using assms(2) text_field_ok by (auto simp: validate_deduction_def)
  moreover have "\<not> dec_le m dec_zero" using m(2) assms(4) by (simp add: dec_compare_units [OF _ dec_units_zero])
  moreover have "\<not> dec_less ceiling m" using dec_compare_units(1) [OF assms(7) m(2)] assms(5) by simp
  moreover have "on_step m step" using on_step_units [OF m(2) assms(8)] assms(3,6) by (simp add: score_at_def)
  ultimately show ?thesis using m(1) by (simp add: sql_deduction_def dump_keys dump_deduction_fields)
qed

lemma distinct_dimension_keys:
  assumes fold: "folds_alike casefold E (\<Union>d \<in> set ds. set (dim_name d))"
    and t: "\<forall>d \<in> set ds. texts_ok d" and n: "distinct (map (name_key casefold \<circ> dim_name) ds)"
  shows "distinct (map (dimension_key E \<circ> dim_name) ds)"
proof -
  have "inj_on (dimension_key E \<circ> dim_name) (set ds)"
  proof (rule inj_onI)
    fix a b assume ab: "a \<in> set ds" "b \<in> set ds" and k: "(dimension_key E \<circ> dim_name) a = (dimension_key E \<circ> dim_name) b"
    have s: "py_strip (dim_name a) = dim_name a" "py_strip (dim_name b) = dim_name b"
      using ab t by (simp_all add: texts_ok_def)
    have c: "set (dim_name a) \<subseteq> (\<Union>d \<in> set ds. set (dim_name d))" "set (dim_name b) \<subseteq> (\<Union>d \<in> set ds. set (dim_name d))"
      using ab by blast+
    have "name_key casefold (dim_name a) = name_key casefold (dim_name b)"
      by (rule same_dimension_key [OF fold s(1) c(1) s(2) c(2)]) (use k in simp)
    then show "a = b" using n ab by (simp add: distinct_map inj_on_def)
  qed
  then show ?thesis using n by (simp add: distinct_map)
qed

lemma database_accepts_stored:
  assumes valid: "validate_rubric casefold r = Inr v"
    and reads: "numeric_reads E" and fold: "folds_alike casefold E (\<Union>d \<in> set (rub_dimensions v). set (dim_name d))"
    and row: "dec_eq ceiling (rub_total_score v)" "dec_eq step (rub_score_step v)"
  shows "valid_structured_rubric E (rubric_dump v) ceiling step"
proof -
  let ?S = "uval (rub_score_step v)" and ?T = "uval (rub_total_score v)"
  from valid obtain dm: "mapR validate_dimension (rub_dimensions r) = Inr (rub_dimensions v)"
    and dd: "mapR validate_deduction (rub_deductions r) = Inr (rub_deductions v)"
    and root: "validate_unique_dimension_ids casefold v = Inr v"
    by (rule validated_parts) blast
  have spec: "rubric_spec v" by (rule validated_rubric_spec [OF valid])
  have version: "rub_schema_version v = 1"
    using valid by (auto simp: validate_rubric_def validate_unique_dimension_ids_def)
  have S: "dec_units (rub_score_step v) = Some ?S" "0 < ?S" "?S < 10 ^ 10" "?S \<le> ?T" and T: "score_at ?S (rub_total_score v)"
    using spec by (auto simp: rubric_spec_def score_at_def)
  then have Tu: "dec_units (rub_total_score v) = Some ?T" by (simp add: score_at_def)
  have sS: "score_at ?S (rub_score_step v)" using S by (simp add: score_at_def)
  have cu: "dec_units ceiling = Some ?T" "dec_units step = Some ?S" using dec_eq_units row Tu S(1) by blast+
  obtain t where t: "sq_numeric E (decimal_str (rub_total_score v)) = Some t" "dec_units t = Some ?T"
    using reads_units [OF reads T] by blast
  obtain s where s: "sq_numeric E (decimal_str (rub_score_step v)) = Some s" "dec_units s = Some ?S"
    using reads_units [OF reads sS] by blast
  have texts: "\<forall>d \<in> set (rub_dimensions v). texts_ok d" using mapR_set [OF dm] validated_texts by blast
  have n: "distinct (map (name_key casefold \<circ> dim_name) (rub_dimensions v))"
    using root by (auto simp: validate_unique_dimension_ids_def)
  obtain out where out: "sql_dimensions E step (map dump_dimension (rub_dimensions v))
      \<lparr>seen_ids = [], seen_names = [], seen_total = dec_zero\<rparr> = Some out"
    "dec_units (seen_total out) = Some (0 + sum_list (map (uval \<circ> dim_max_score) (rub_dimensions v)))"
    using dimensions_accepted [OF reads S(1) cu(2) S(2,3), of "rub_dimensions v"
        "\<lparr>seen_ids = [], seen_names = [], seen_total = dec_zero\<rparr>" 0]
      spec texts distinct_dimension_keys [OF fold texts n] by (auto simp: rubric_spec_def)
  have "list_all (sql_deduction E ceiling step) (map dump_deduction (rub_deductions v))"
    unfolding list_all_iff set_map ball_simps
  proof
    fix d assume d: "d \<in> set (rub_deductions v)"
    then obtain x where "validate_deduction x = Inr d" using mapR_set [OF dd] by blast
    then show "sql_deduction E ceiling step (dump_deduction d)"
      using d spec S(2) cu by (intro deduction_accepted [OF reads]) (auto simp: rubric_spec_def)
  qed
  moreover have "dec_eq (seen_total out) ceiling"
    using out(2) cu(1) spec by (simp add: dec_compare_units rubric_spec_def)
  moreover have "rub_dimensions v \<noteq> []" using spec by (auto simp: rubric_spec_def)
  moreover have "dec_eq t ceiling" "dec_eq s step" using t s cu by (simp_all add: dec_compare_units)
  moreover have "\<not> dec_le ceiling dec_zero" "\<not> dec_le step dec_zero" "\<not> dec_less ceiling step"
    using cu S by (simp_all add: dec_compare_units [OF _ dec_units_zero] dec_compare_units)
  moreover have "on_step ceiling step" using on_step_units [OF cu] S(2) T by (simp add: score_at_def)
  ultimately show ?thesis
    using out(1) t(1) s(1) version by (simp add: valid_structured_rubric_def dump_keys rubric_dump_fields)
qed


section \<open>Examples\<close>

definition ascii_lower :: "nat \<Rightarrow> nat" where
  "ascii_lower c = (if 65 \<le> c \<and> c \<le> 90 then c + 32 else c)"

definition ascii_sql :: sql_env where
  "ascii_sql = \<lparr>sq_numeric = parse_decimal ascii_db, sq_lower = ascii_lower, sq_space = (\<lambda>c. 9 \<le> c \<and> c \<le> 13 \<or> c = 32)\<rparr>"

lemma ascii_sql_reads: "numeric_reads ascii_sql"
  by (simp add: numeric_reads_def ascii_sql_def parse_str [OF ascii_db_digits] dec_eq_def)

lemma ascii_sql_folds: "folds_alike (map ascii_lower) ascii_sql C"
  unfolding folds_alike_def
proof (intro conjI exI [of _ "\<lambda>c. [ascii_lower c]"])
  show "\<forall>c. [ascii_lower c] = [c] \<or> \<not> py_isspace c \<and> (\<forall>d \<in> set [ascii_lower c]. \<not> py_isspace d)"
    by (auto simp: ascii_lower_def py_isspace_def)
qed (auto simp: ascii_sql_def py_isspace_def)


text \<open>
  The converse does not hold: the database does not look for repeated deductions. And the condition
  on \<open>lower\<close> is needed: a server that maps the dotted capital i to a plain one refuses a rubric that
  the contract accepts.
\<close>

definition twice_deducted :: structured_rubric where
  "twice_deducted = (let d = \<lparr>ded_id = [97], ded_name = [65], ded_description = [65], ded_points = dec_of_int 1\<rparr> in
     example_rubric\<lparr>rub_deductions := [d, d]\<rparr>)"

lemma database_admits_more:
  "valid_structured_rubric ascii_sql (rubric_dump twice_deducted) (dec_of_int 10) (dec_of_int 1) \<and>
   validate_rubric (map ascii_lower) twice_deducted = Inl DeductionIdDuplicate"
  by (rule conjI; code_simp)

definition two_letters :: structured_rubric where
  "two_letters = example_rubric\<lparr>rub_total_score := dec_of_int 20,
     rub_dimensions := [example_dimension\<lparr>dim_id := [97], dim_name := [304]\<rparr>, example_dimension\<lparr>dim_id := [98], dim_name := [105]\<rparr>]\<rparr>"

lemma database_refuses_folded_names:
  "validate_rubric (\<lambda>s. concat (map (\<lambda>c. if c = 304 then [105, 775] else [c]) s)) two_letters = Inr two_letters \<and>
   \<not> valid_structured_rubric (ascii_sql\<lparr>sq_lower := \<lambda>c. if c = 304 then 105 else c\<rparr>) (rubric_dump two_letters)
       (dec_of_int 20) (dec_of_int 1)"
  by (rule conjI; code_simp)

end
