(* ===== verification/Rubric_Lifecycle.thy ===== *)
theory Rubric_Lifecycle
  imports Submission_Db Rubric_Content
begin

text \<open>
  Assignments and the versions of their rubrics: the triggers and indexes of migration 0008, the
  methods of \<open>SqlAlchemyAssignmentRubricRepository\<close> (\<open>backend/app/rubrics/repository.py\<close>), each as
  one transaction over the tables of the grading pipeline, the payloads of \<open>rubrics/models.py\<close> and
  the guards of \<open>AssignmentRubricService\<close> (\<open>rubrics/service.py\<close>), which reads in one transaction and
  writes in another.
\<close>

section \<open>Payloads\<close>

record assignment_create =
  ac_title :: pystr
  ac_instructions :: pystr
  ac_original :: pystr
  ac_total :: decimal
  ac_step :: decimal

record assignment_update =
  au_title :: pystr
  au_instructions :: pystr

record rubric_draft_create =
  rd_original :: pystr
  rd_total :: decimal
  rd_step :: decimal

datatype assignment_action = ArchiveAction | RestoreAction

datatype payload_exn = PayloadInvalid | PayloadArithmetic

definition stripped_field :: "nat \<Rightarrow> pystr \<Rightarrow> payload_exn + pystr" where
  "stripped_field hi s = (let t = py_strip s in if length_between 1 hi t then Inr t else Inl PayloadInvalid)"

text \<open>\<open>validate_score_range\<close>; \<open>%\<close> may raise \<open>decimal.InvalidOperation\<close>, which pydantic lets through.\<close>

definition validate_score_range :: "decimal \<Rightarrow> decimal \<Rightarrow> payload_exn + unit" where
  "validate_score_range score step =
     (if \<not> score_gt0 score \<or> \<not> score_gt0 step then Inl PayloadInvalid
      else if dec_less score step then Inl PayloadInvalid
      else case dec_rem score step of
        None \<Rightarrow> Inl PayloadArithmetic
      | Some r \<Rightarrow> ensure (dec_coef r = 0) PayloadInvalid)"

definition validate_assignment_create :: "assignment_create \<Rightarrow> payload_exn + assignment_create" where
  "validate_assignment_create p =
     bindR (stripped_field 300 (ac_title p)) (\<lambda>title.
     bindR (stripped_field 100000 (ac_instructions p)) (\<lambda>instructions.
     bindR (stripped_field 100000 (ac_original p)) (\<lambda>original.
     bindR (validate_score_range (ac_total p) (ac_step p)) (\<lambda>_.
     Inr (p\<lparr>ac_title := title, ac_instructions := instructions, ac_original := original\<rparr>)))))"

definition validate_assignment_update :: "assignment_update \<Rightarrow> payload_exn + assignment_update" where
  "validate_assignment_update p =
     bindR (stripped_field 300 (au_title p)) (\<lambda>title.
     bindR (stripped_field 100000 (au_instructions p)) (\<lambda>instructions.
     Inr (p\<lparr>au_title := title, au_instructions := instructions\<rparr>)))"

definition validate_rubric_draft :: "rubric_draft_create \<Rightarrow> payload_exn + rubric_draft_create" where
  "validate_rubric_draft p =
     bindR (stripped_field 100000 (rd_original p)) (\<lambda>original.
     bindR (validate_score_range (rd_total p) (rd_step p)) (\<lambda>_.
     Inr (p\<lparr>rd_original := original\<rparr>)))"

section \<open>Triggers, constraints and indexes\<close>

datatype rubric_exn =
    RubricProtected
  | ReadyNeedsRubric
  | RubricCheckViolated
  | RubricUniqueViolated
  | RubricReferenceViolated
  | RubricPolicyViolated
  | StoredRubricInvalid

definition rubric_identity :: "rubric_row \<Rightarrow> uuid \<times> uuid \<times> uuid \<times> int" where
  "rubric_identity v = (rv_id v, rv_owner v, rv_assignment v, rv_version v)"

definition rubric_content ::
    "rubric_row \<Rightarrow> pystr \<times> structured_rubric option \<times> decimal \<times> decimal \<times> uuid option \<times> pystr option \<times> time option" where
  "rubric_content v = (rv_original v, rv_structured v, rv_total_score v, rv_score_step v, rv_provider v,
     rv_model v, rv_confirmed_at v)"

definition protect_rubric_history :: "pdb \<Rightarrow> rubric_row \<Rightarrow> rubric_row \<Rightarrow> rubric_exn + unit" where
  "protect_rubric_history s old new =
     (if rubric_identity new \<noteq> rubric_identity old then Inl RubricProtected
      else if rv_status old = RubricSuperseded then Inl RubricProtected
      else if rv_status old = RubricConfirmed then
        (if rv_status new \<noteq> RubricSuperseded \<or> rubric_content new \<noteq> rubric_content old then Inl RubricProtected
         else if \<exists>a \<in> set (db_assignments s). asg_id a = rv_assignment old \<and> asg_owner a = rv_owner old \<and>
                   asg_status a = AssignmentReady
         then Inl ReadyNeedsRubric else Inr ())
      else ensure (rv_status new \<in> {RubricDraft, RubricConfirmed}) RubricProtected)"

definition has_confirmed :: "pdb \<Rightarrow> assignment_row \<Rightarrow> bool" where
  "has_confirmed s a \<longleftrightarrow> (\<exists>v \<in> set (db_rubrics s). rv_assignment v = asg_id a \<and> rv_owner v = asg_owner a \<and>
     rv_status v = RubricConfirmed)"

definition require_confirmed_rubric :: "pdb \<Rightarrow> assignment_row \<Rightarrow> rubric_exn + unit" where
  "require_confirmed_rubric s a = ensure (asg_status a = AssignmentReady \<longrightarrow> has_confirmed s a) ReadyNeedsRubric"

text \<open>
  The primary key, \<open>(assignment_id, version)\<close>, and the partial indexes that allow one draft and one
  confirmed version per assignment.
\<close>

definition rubric_unique :: "rubric_row list \<Rightarrow> rubric_row \<Rightarrow> bool" where
  "rubric_unique others v \<longleftrightarrow> (\<forall>w \<in> set others. rv_id w \<noteq> rv_id v \<and>
     (rv_assignment w = rv_assignment v \<longrightarrow> rv_version w \<noteq> rv_version v \<and>
        (rv_status v \<noteq> RubricSuperseded \<longrightarrow> rv_status w \<noteq> rv_status v)))"

definition rubric_row_ok :: "sql_env \<Rightarrow> rubric_row \<Rightarrow> bool" where
  "rubric_row_ok E v \<longleftrightarrow> check_rubric_row (\<lambda>r. valid_structured_rubric E (rubric_dump r)) v"

definition provider_known :: "pdb \<Rightarrow> rubric_row \<Rightarrow> bool" where
  "provider_known s v \<longleftrightarrow> (case rv_provider v of None \<Rightarrow> True | Some i \<Rightarrow> \<exists>p \<in> set (db_providers s). prov_id p = i)"

definition insert_rubric :: "sql_env \<Rightarrow> rubric_row \<Rightarrow> pdb \<Rightarrow> rubric_exn + pdb" where
  "insert_rubric E v s =
     bindR (ensure (rv_owner v \<in> set (db_active_teachers s)) RubricPolicyViolated) (\<lambda>_.
     bindR (ensure (rubric_row_ok E v) RubricCheckViolated) (\<lambda>_.
     bindR (ensure (rubric_unique (db_rubrics s) v) RubricUniqueViolated) (\<lambda>_.
     bindR (ensure (provider_known s v \<and>
       (\<exists>a \<in> set (db_assignments s). asg_id a = rv_assignment v \<and> asg_owner a = rv_owner v)) RubricReferenceViolated) (\<lambda>_.
     Inr (s\<lparr>db_rubrics := db_rubrics s @ [v]\<rparr>)))))"

definition write_rubric :: "sql_env \<Rightarrow> rubric_row \<Rightarrow> rubric_row \<Rightarrow> pdb \<Rightarrow> rubric_exn + pdb" where
  "write_rubric E old new s =
     bindR (protect_rubric_history s old new) (\<lambda>_.
     bindR (ensure (rubric_row_ok E new) RubricCheckViolated) (\<lambda>_.
     bindR (ensure (rubric_unique (filter (\<lambda>w. rv_id w \<noteq> rv_id old) (db_rubrics s)) new) RubricUniqueViolated) (\<lambda>_.
     bindR (ensure (provider_known s new) RubricReferenceViolated) (\<lambda>_.
     Inr (s\<lparr>db_rubrics := replace_row rv_id old new (db_rubrics s)\<rparr>)))))"

definition insert_assignment :: "assignment_row \<Rightarrow> pdb \<Rightarrow> rubric_exn + pdb" where
  "insert_assignment a s =
     bindR (ensure (asg_owner a \<in> set (db_active_teachers s)) RubricPolicyViolated) (\<lambda>_.
     bindR (require_confirmed_rubric s a) (\<lambda>_.
     bindR (ensure (check_assignment a) RubricCheckViolated) (\<lambda>_.
     bindR (ensure (\<forall>b \<in> set (db_assignments s). asg_id b \<noteq> asg_id a) RubricUniqueViolated) (\<lambda>_.
     Inr (s\<lparr>db_assignments := db_assignments s @ [a]\<rparr>)))))"

text \<open>
  \<open>assignments_require_confirmed_rubric\<close> runs when the statement names the column \<open>status\<close>; the
  session writes the columns that changed.
\<close>

definition write_assignment :: "assignment_row \<Rightarrow> assignment_row \<Rightarrow> pdb \<Rightarrow> rubric_exn + pdb" where
  "write_assignment old new s =
     bindR (if asg_status new \<noteq> asg_status old then require_confirmed_rubric s new else Inr ()) (\<lambda>_.
     bindR (ensure (check_assignment new) RubricCheckViolated) (\<lambda>_.
     Inr (s\<lparr>db_assignments := replace_row asg_id old new (db_assignments s)\<rparr>)))"

section \<open>Views\<close>

record rubric_view =
  vw_id :: uuid
  vw_assignment :: uuid
  vw_version :: int
  vw_status :: rubric_status
  vw_original :: pystr
  vw_structured :: "structured_rubric option"
  vw_total :: decimal
  vw_step :: decimal
  vw_provider :: "uuid option"
  vw_model :: "pystr option"
  vw_confirmed_at :: "time option"

record rubric_pointer =
  ptr_id :: uuid
  ptr_version :: int
  ptr_status :: rubric_status

record assignment_summary =
  as_id :: uuid
  as_title :: pystr
  as_status :: assignment_status
  as_current_status :: "rubric_status option"
  as_current_version :: "int option"
  as_draft_version :: "int option"
  as_confirmed_version :: "int option"
  as_draft :: "rubric_pointer option"
  as_confirmed :: "rubric_pointer option"

record assignment_detail = assignment_summary +
  ad_instructions :: pystr
  ad_versions :: "rubric_view list"

definition to_rubric :: "(pystr \<Rightarrow> pystr) \<Rightarrow> rubric_row \<Rightarrow> rubric_exn + rubric_view" where
  "to_rubric casefold v =
     bindR (case rv_structured v of None \<Rightarrow> Inr None
            | Some r \<Rightarrow> (case validate_rubric casefold r of Inl _ \<Rightarrow> Inl StoredRubricInvalid | Inr r' \<Rightarrow> Inr (Some r')))
       (\<lambda>structured. Inr \<lparr>vw_id = rv_id v, vw_assignment = rv_assignment v, vw_version = rv_version v,
          vw_status = rv_status v, vw_original = rv_original v, vw_structured = structured,
          vw_total = rv_total_score v, vw_step = rv_score_step v, vw_provider = rv_provider v,
          vw_model = rv_model v, vw_confirmed_at = rv_confirmed_at v\<rparr>)"

definition pointer_to :: "rubric_view \<Rightarrow> rubric_pointer" where
  "pointer_to v = \<lparr>ptr_id = vw_id v, ptr_version = vw_version v, ptr_status = vw_status v\<rparr>"

definition to_summary :: "(pystr \<Rightarrow> pystr) \<Rightarrow> assignment_row \<Rightarrow> rubric_row list \<Rightarrow> rubric_exn + assignment_summary" where
  "to_summary casefold a rows =
     bindR (mapR (to_rubric casefold) rows) (\<lambda>rubrics.
       let latest = (case rubrics of [] \<Rightarrow> None | v # _ \<Rightarrow> Some v);
           draft = find (\<lambda>v. vw_status v = RubricDraft) rubrics;
           confirmed = find (\<lambda>v. vw_status v = RubricConfirmed) rubrics
       in Inr \<lparr>as_id = asg_id a, as_title = asg_title a, as_status = asg_status a,
            as_current_status = map_option vw_status latest, as_current_version = map_option vw_version latest,
            as_draft_version = map_option vw_version draft, as_confirmed_version = map_option vw_version confirmed,
            as_draft = map_option pointer_to draft, as_confirmed = map_option pointer_to confirmed\<rparr>)"

definition to_detail :: "(pystr \<Rightarrow> pystr) \<Rightarrow> assignment_row \<Rightarrow> rubric_row list \<Rightarrow> rubric_exn + assignment_detail" where
  "to_detail casefold a rows =
     bindR (to_summary casefold a rows) (\<lambda>x.
     bindR (mapR (to_rubric casefold) rows) (\<lambda>rubrics.
       Inr (assignment_summary.extend x (assignment_detail.fields (asg_instructions a) rubrics))))"

section \<open>The repository\<close>

definition visible_rubrics :: "uuid \<Rightarrow> pdb \<Rightarrow> rubric_row list" where
  "visible_rubrics owner s =
     (if owner \<in> set (db_active_teachers s) then filter (\<lambda>v. rv_owner v = owner) (db_rubrics s) else [])"

definition owned_assignment :: "uuid \<Rightarrow> uuid \<Rightarrow> pdb \<Rightarrow> assignment_row option" where
  "owned_assignment owner aid s = find (\<lambda>a. asg_id a = aid) (visible_assignments owner s)"

text \<open>\<open>order_by(RubricVersion.version.desc())\<close>.\<close>

definition versions_of :: "uuid \<Rightarrow> uuid \<Rightarrow> pdb \<Rightarrow> rubric_row list" where
  "versions_of owner aid s = rev (sort_key rv_version (filter (\<lambda>v. rv_assignment v = aid) (visible_rubrics owner s)))"

definition load_detail :: "(pystr \<Rightarrow> pystr) \<Rightarrow> uuid \<Rightarrow> uuid \<Rightarrow> pdb \<Rightarrow> rubric_exn + assignment_detail option" where
  "load_detail casefold owner aid s =
     (case owned_assignment owner aid s of
        None \<Rightarrow> Inr None
      | Some a \<Rightarrow> bindR (to_detail casefold a (versions_of owner aid s)) (\<lambda>d. Inr (Some d)))"

definition draft_row :: "uuid \<Rightarrow> uuid \<Rightarrow> uuid \<Rightarrow> int \<Rightarrow> pystr \<Rightarrow> decimal \<Rightarrow> decimal \<Rightarrow> rubric_row" where
  "draft_row rid owner aid version original score step = \<lparr>rv_id = rid, rv_owner = owner, rv_assignment = aid,
     rv_provider = None, rv_model = None, rv_version = version, rv_status = RubricDraft, rv_original = original,
     rv_structured = None, rv_total_score = score, rv_score_step = step, rv_confirmed_at = None\<rparr>"

definition repo_create_assignment ::
    "sql_env \<Rightarrow> (pystr \<Rightarrow> pystr) \<Rightarrow> uuid \<Rightarrow> uuid \<Rightarrow> uuid \<Rightarrow> assignment_create \<Rightarrow> pdb \<Rightarrow> rubric_exn + assignment_detail \<times> pdb" where
  "repo_create_assignment E casefold aid rid owner p s =
     (let a = \<lparr>asg_id = aid, asg_owner = owner, asg_title = ac_title p, asg_instructions = ac_instructions p,
                asg_status = AssignmentDraft\<rparr>;
          v = draft_row rid owner aid 1 (ac_original p) (ac_total p) (ac_step p) in
      bindR (insert_assignment a s) (\<lambda>s1.
      bindR (insert_rubric E v s1) (\<lambda>s2.
      bindR (to_detail casefold a [v]) (\<lambda>d. Inr (d, s2)))))"

text \<open>\<open>created_at\<close> orders the list.\<close>

definition repo_list_assignments ::
    "(pystr \<Rightarrow> pystr) \<Rightarrow> (uuid \<Rightarrow> time) \<Rightarrow> uuid \<Rightarrow> pdb \<Rightarrow> rubric_exn + assignment_summary list" where
  "repo_list_assignments casefold created owner s =
     mapR (\<lambda>a. to_summary casefold a (versions_of owner (asg_id a) s))
       (rev (sort_key (\<lambda>a. created (asg_id a)) (sort_key asg_id (visible_assignments owner s))))"

definition repo_get_assignment :: "(pystr \<Rightarrow> pystr) \<Rightarrow> uuid \<Rightarrow> uuid \<Rightarrow> pdb \<Rightarrow> rubric_exn + assignment_detail option" where
  "repo_get_assignment casefold owner aid s = load_detail casefold owner aid s"

definition repo_update_assignment ::
    "(pystr \<Rightarrow> pystr) \<Rightarrow> uuid \<Rightarrow> uuid \<Rightarrow> assignment_update \<Rightarrow> pdb \<Rightarrow> rubric_exn + assignment_detail option \<times> pdb" where
  "repo_update_assignment casefold owner aid p s =
     (case find (\<lambda>a. asg_id a = aid \<and> asg_status a = AssignmentDraft) (visible_assignments owner s) of
        None \<Rightarrow> Inr (None, s)
      | Some a \<Rightarrow>
          bindR (write_assignment a (a\<lparr>asg_title := au_title p, asg_instructions := au_instructions p\<rparr>) s) (\<lambda>s1.
          bindR (load_detail casefold owner aid s1) (\<lambda>d. Inr (d, s1))))"

definition repo_update_status ::
    "(pystr \<Rightarrow> pystr) \<Rightarrow> uuid \<Rightarrow> uuid \<Rightarrow> assignment_action \<Rightarrow> pdb \<Rightarrow> rubric_exn + assignment_detail option \<times> pdb" where
  "repo_update_status casefold owner aid action s =
     (case owned_assignment owner aid s of
        None \<Rightarrow> Inr (None, s)
      | Some a \<Rightarrow>
          (let move = (\<lambda>status. bindR (write_assignment a (a\<lparr>asg_status := status\<rparr>) s) (\<lambda>s1.
                 bindR (load_detail casefold owner aid s1) (\<lambda>d. Inr (d, s1)))) in
           case action of
             ArchiveAction \<Rightarrow>
               if asg_status a = AssignmentArchived then bindR (load_detail casefold owner aid s) (\<lambda>d. Inr (d, s))
               else move AssignmentArchived
           | RestoreAction \<Rightarrow>
               if asg_status a \<noteq> AssignmentArchived then Inr (None, s)
               else move (if \<exists>v \<in> set (visible_rubrics owner s). rv_assignment v = aid \<and> rv_status v = RubricConfirmed
                          then AssignmentReady else AssignmentDraft)))"

definition latest_version :: "rubric_row list \<Rightarrow> int" where
  "latest_version vs = fold (\<lambda>v n. max (rv_version v) n) vs 0"

definition repo_create_draft ::
    "sql_env \<Rightarrow> (pystr \<Rightarrow> pystr) \<Rightarrow> uuid \<Rightarrow> uuid \<Rightarrow> uuid \<Rightarrow> rubric_draft_create \<Rightarrow> pdb \<Rightarrow> rubric_exn + rubric_view option \<times> pdb" where
  "repo_create_draft E casefold rid owner aid p s =
     (case owned_assignment owner aid s of
        None \<Rightarrow> Inr (None, s)
      | Some a \<Rightarrow>
          if asg_status a = AssignmentArchived then Inr (None, s)
          else (let vs = filter (\<lambda>v. rv_assignment v = aid) (visible_rubrics owner s) in
            if \<exists>v \<in> set vs. rv_status v = RubricDraft then Inr (None, s)
            else (let v = draft_row rid owner aid (latest_version vs + 1) (rd_original p) (rd_total p) (rd_step p) in
              bindR (insert_rubric E v s) (\<lambda>s1.
              bindR (to_rubric casefold v) (\<lambda>w. Inr (Some w, s1))))))"

definition usable_provider :: "uuid \<Rightarrow> int option \<Rightarrow> pystr \<Rightarrow> provider_row \<Rightarrow> bool" where
  "usable_provider pid version model p \<longleftrightarrow> prov_id p = pid \<and> prov_status p = ProviderEnabled \<and>
     (case version of None \<Rightarrow> True | Some n \<Rightarrow> prov_config_version p = n) \<and> prov_tested_at p \<noteq> None \<and>
     prov_tested_version p = Some (prov_config_version p) \<and> prov_default_model p = Some model"

definition open_assignment :: "uuid \<Rightarrow> uuid \<Rightarrow> pdb \<Rightarrow> assignment_row option" where
  "open_assignment owner aid s =
     find (\<lambda>a. asg_id a = aid \<and> asg_status a \<noteq> AssignmentArchived) (visible_assignments owner s)"

definition open_draft :: "(rubric_row \<Rightarrow> bool) \<Rightarrow> uuid \<Rightarrow> uuid \<Rightarrow> uuid \<Rightarrow> pdb \<Rightarrow> rubric_row option" where
  "open_draft extra owner aid rid s =
     find (\<lambda>v. rv_id v = rid \<and> rv_assignment v = aid \<and> rv_status v = RubricDraft \<and> extra v) (visible_rubrics owner s)"

definition store_rubric ::
    "sql_env \<Rightarrow> (pystr \<Rightarrow> pystr) \<Rightarrow> rubric_row \<Rightarrow> rubric_row \<Rightarrow> pdb \<Rightarrow> rubric_exn + rubric_view option \<times> pdb" where
  "store_rubric E casefold old new s =
     bindR (write_rubric E old new s) (\<lambda>s1. bindR (to_rubric casefold new) (\<lambda>w. Inr (Some w, s1)))"

definition repo_save_generated ::
    "sql_env \<Rightarrow> (pystr \<Rightarrow> pystr) \<Rightarrow> uuid \<Rightarrow> uuid \<Rightarrow> uuid \<Rightarrow> uuid \<Rightarrow> int \<Rightarrow> pystr \<Rightarrow> structured_rubric \<Rightarrow> pdb \<Rightarrow>
     rubric_exn + rubric_view option \<times> pdb" where
  "repo_save_generated E casefold owner aid rid pid version model r s =
     (if find (usable_provider pid (Some version) model) (db_providers s) = None then Inr (None, s)
      else case (open_assignment owner aid s, open_draft (\<lambda>_. True) owner aid rid s) of
        (Some a, Some v) \<Rightarrow>
          store_rubric E casefold v (v\<lparr>rv_provider := Some pid, rv_model := Some model, rv_structured := Some r\<rparr>) s
      | _ \<Rightarrow> Inr (None, s))"

definition repo_update_structured ::
    "sql_env \<Rightarrow> (pystr \<Rightarrow> pystr) \<Rightarrow> uuid \<Rightarrow> uuid \<Rightarrow> uuid \<Rightarrow> structured_rubric \<Rightarrow> pdb \<Rightarrow> rubric_exn + rubric_view option \<times> pdb" where
  "repo_update_structured E casefold owner aid rid r s =
     (case (open_assignment owner aid s, open_draft (\<lambda>v. rv_provider v \<noteq> None \<and> rv_model v \<noteq> None) owner aid rid s) of
        (Some a, Some v) \<Rightarrow> store_rubric E casefold v (v\<lparr>rv_structured := Some r\<rparr>) s
      | _ \<Rightarrow> Inr (None, s))"

text \<open>
  The order of the writes of \<open>confirm_rubric\<close> matters: a ready assignment may not lose its confirmed
  version, so it is a draft while the versions change places.
\<close>

definition publish_version :: "sql_env \<Rightarrow> time \<Rightarrow> uuid \<Rightarrow> assignment_row \<Rightarrow> rubric_row \<Rightarrow> pdb \<Rightarrow> rubric_exn + pdb" where
  "publish_version E now owner a v s =
     (let a1 = a\<lparr>asg_status := AssignmentDraft\<rparr> in
      bindR (if asg_status a = AssignmentReady then write_assignment a a1 s else Inr s) (\<lambda>s1.
      bindR (case find (\<lambda>w. rv_assignment w = asg_id a \<and> rv_status w = RubricConfirmed) (visible_rubrics owner s1) of
               None \<Rightarrow> Inr s1
             | Some w \<Rightarrow> write_rubric E w (w\<lparr>rv_status := RubricSuperseded\<rparr>) s1) (\<lambda>s2.
      bindR (write_rubric E v (v\<lparr>rv_status := RubricConfirmed, rv_confirmed_at := Some now\<rparr>) s2) (\<lambda>s3.
      write_assignment a1 (a\<lparr>asg_status := AssignmentReady\<rparr>) s3))))"

definition repo_confirm_rubric ::
    "sql_env \<Rightarrow> (pystr \<Rightarrow> pystr) \<Rightarrow> time \<Rightarrow> uuid \<Rightarrow> uuid \<Rightarrow> uuid \<Rightarrow> uuid \<Rightarrow> pystr \<Rightarrow> pdb \<Rightarrow>
     rubric_exn + assignment_detail option \<times> pdb" where
  "repo_confirm_rubric E casefold now owner aid rid pid model s =
     (if find (usable_provider pid None model) (db_providers s) = None then Inr (None, s)
      else case (open_assignment owner aid s,
                 open_draft (\<lambda>v. rv_provider v = Some pid \<and> rv_model v = Some model \<and> rv_structured v \<noteq> None) owner aid rid s) of
        (Some a, Some v) \<Rightarrow>
          bindR (publish_version E now owner a v s) (\<lambda>s1.
          bindR (load_detail casefold owner aid s1) (\<lambda>d. Inr (d, s1)))
      | _ \<Rightarrow> Inr (None, s))"

end
