(* ===== verification/Rubric_Guarantees.thy ===== *)
theory Rubric_Guarantees
  imports Rubric_Lifecycle
begin

text \<open>
  The invariant of assignments and rubric versions under every interleaving of the repository's
  transactions: one draft and one confirmed version at most, a ready assignment has a confirmed one,
  and every stored content is a rubric that the Python contract and the database accept. From it: the
  confirmation of a complete draft never fails half way, and a confirmed version never changes again.
\<close>

section \<open>The invariant\<close>

definition stored_valid :: "(pystr \<Rightarrow> pystr) \<Rightarrow> rubric_row \<Rightarrow> bool" where
  "stored_valid casefold v \<longleftrightarrow> (case rv_structured v of None \<Rightarrow> True | Some r \<Rightarrow> validate_rubric casefold r = Inr r)"

definition rubrics_apart :: "rubric_row \<Rightarrow> rubric_row \<Rightarrow> bool" where
  "rubrics_apart v w \<longleftrightarrow> rv_assignment v = rv_assignment w \<longrightarrow> rv_version v \<noteq> rv_version w \<and>
     (rv_status v = rv_status w \<longrightarrow> rv_status v = RubricSuperseded)"

definition rubric_placed :: "pdb \<Rightarrow> rubric_row \<Rightarrow> bool" where
  "rubric_placed s v \<longleftrightarrow> provider_known s v \<and>
     (\<exists>a \<in> set (db_assignments s). asg_id a = rv_assignment v \<and> asg_owner a = rv_owner v)"

definition versions_ok :: "sql_env \<Rightarrow> (pystr \<Rightarrow> pystr) \<Rightarrow> pdb \<Rightarrow> bool" where
  "versions_ok E casefold s \<longleftrightarrow>
     distinct (map rv_id (db_rubrics s)) \<and> distinct (map asg_id (db_assignments s)) \<and>
     (\<forall>v \<in> set (db_rubrics s). \<forall>w \<in> set (db_rubrics s). v \<noteq> w \<longrightarrow> rubrics_apart v w) \<and>
     (\<forall>v \<in> set (db_rubrics s). rubric_row_ok E v \<and> stored_valid casefold v \<and> rubric_placed s v) \<and>
     (\<forall>a \<in> set (db_assignments s). check_assignment a \<and> (asg_status a = AssignmentReady \<longrightarrow> has_confirmed s a))"

lemma apart_sym: "rubrics_apart v w = rubrics_apart w v"
  by (auto simp: rubrics_apart_def)

lemma versions_okD:
  assumes "versions_ok E cf s"
  shows "distinct (map rv_id (db_rubrics s))" "distinct (map asg_id (db_assignments s))"
    "\<And>v w. v \<in> set (db_rubrics s) \<Longrightarrow> w \<in> set (db_rubrics s) \<Longrightarrow> v \<noteq> w \<Longrightarrow> rubrics_apart v w"
    "\<And>v. v \<in> set (db_rubrics s) \<Longrightarrow> rubric_row_ok E v \<and> stored_valid cf v \<and> rubric_placed s v"
    "\<And>a. a \<in> set (db_assignments s) \<Longrightarrow> check_assignment a"
    "\<And>a. a \<in> set (db_assignments s) \<Longrightarrow> asg_status a = AssignmentReady \<Longrightarrow> has_confirmed s a"
  using assms unfolding versions_ok_def by blast+

lemma unique_apart:
  "rubric_unique others v \<longleftrightarrow> (\<forall>w \<in> set others. rv_id w \<noteq> rv_id v \<and> rubrics_apart w v)"
  by (auto simp: rubric_unique_def rubrics_apart_def)

lemma same_assignment:
  "versions_ok E cf s \<Longrightarrow> a \<in> set (db_assignments s) \<Longrightarrow> b \<in> set (db_assignments s) \<Longrightarrow> asg_id a = asg_id b \<Longrightarrow> a = b"
  using versions_okD(2) by (blast dest: distinct_map_eqD)

lemma same_rubric:
  "versions_ok E cf s \<Longrightarrow> v \<in> set (db_rubrics s) \<Longrightarrow> w \<in> set (db_rubrics s) \<Longrightarrow> rv_id v = rv_id w \<Longrightarrow> v = w"
  using versions_okD(1) by (blast dest: distinct_map_eqD)

lemma placed_owner:
  "versions_ok E cf s \<Longrightarrow> v \<in> set (db_rubrics s) \<Longrightarrow> a \<in> set (db_assignments s) \<Longrightarrow> rv_assignment v = asg_id a \<Longrightarrow>
     rv_owner v = asg_owner a"
  using versions_okD(4) same_assignment unfolding rubric_placed_def by metis

section \<open>Row writes keep it\<close>

lemma write_rubric_Inr:
  "write_rubric E old new s = Inr s' \<longleftrightarrow> protect_rubric_history s old new = Inr () \<and> rubric_row_ok E new \<and>
     rubric_unique (filter (\<lambda>w. rv_id w \<noteq> rv_id old) (db_rubrics s)) new \<and> provider_known s new \<and>
     s' = s\<lparr>db_rubrics := replace_row rv_id old new (db_rubrics s)\<rparr>"
  by (auto simp: write_rubric_def)

lemma insert_rubric_Inr:
  "insert_rubric E v s = Inr s' \<longleftrightarrow> rv_owner v \<in> set (db_active_teachers s) \<and> rubric_row_ok E v \<and>
     rubric_unique (db_rubrics s) v \<and> rubric_placed s v \<and> s' = s\<lparr>db_rubrics := db_rubrics s @ [v]\<rparr>"
  by (auto simp: insert_rubric_def rubric_placed_def)

lemma write_assignment_Inr:
  "write_assignment old new s = Inr s' \<longleftrightarrow>
     (asg_status new \<noteq> asg_status old \<longrightarrow> asg_status new = AssignmentReady \<longrightarrow> has_confirmed s new) \<and> check_assignment new \<and>
     s' = s\<lparr>db_assignments := replace_row asg_id old new (db_assignments s)\<rparr>"
  by (auto simp: write_assignment_def require_confirmed_rubric_def)

lemma insert_assignment_Inr:
  "insert_assignment a s = Inr s' \<longleftrightarrow> asg_owner a \<in> set (db_active_teachers s) \<and>
     (asg_status a = AssignmentReady \<longrightarrow> has_confirmed s a) \<and> check_assignment a \<and>
     (\<forall>b \<in> set (db_assignments s). asg_id b \<noteq> asg_id a) \<and> s' = s\<lparr>db_assignments := db_assignments s @ [a]\<rparr>"
  by (auto simp: insert_assignment_def require_confirmed_rubric_def)

lemma protected_write:
  "protect_rubric_history s old new = Inr () \<Longrightarrow> rubric_identity new = rubric_identity old \<and> rv_status old \<noteq> RubricSuperseded \<and>
     (rv_status old = RubricConfirmed \<longrightarrow> rv_status new = RubricSuperseded \<and> rubric_content new = rubric_content old \<and>
        (\<forall>a \<in> set (db_assignments s). asg_id a = rv_assignment old \<longrightarrow> asg_owner a = rv_owner old \<longrightarrow> asg_status a \<noteq> AssignmentReady)) \<and>
     (rv_status old = RubricDraft \<longrightarrow> rv_status new \<noteq> RubricSuperseded)"
  by (cases "rv_status old") (auto simp: protect_rubric_history_def split: if_splits)

lemma write_rubric_keeps:
  assumes ok: "versions_ok E cf s" and old: "old \<in> set (db_rubrics s)" and w: "write_rubric E old new s = Inr s'"
    and c: "stored_valid cf new"
  shows "versions_ok E cf s'"
proof -
  note D = versions_okD [OF ok]
  have w': "rubric_row_ok E new" "rubric_unique (filter (\<lambda>w. rv_id w \<noteq> rv_id old) (db_rubrics s)) new" "provider_known s new"
    "s' = s\<lparr>db_rubrics := replace_row rv_id old new (db_rubrics s)\<rparr>" "protect_rubric_history s old new = Inr ()"
    using w by (simp_all add: write_rubric_Inr)
  note p = protected_write [OF w'(5)]
  then have i: "rv_id new = rv_id old" "rv_owner new = rv_owner old" "rv_assignment new = rv_assignment old"
    by (simp_all add: rubric_identity_def)
  have rows: "set (db_rubrics s') = insert new (set (db_rubrics s) - {old})"
    using replace_row_set [OF D(1) old] w'(4) by simp
  have new: "rubrics_apart v new" if "v \<in> set (db_rubrics s)" "v \<noteq> old" for v
    using w'(2) that same_rubric [OF ok that(1) old] by (auto simp: unique_apart)
  have kept: "rubric_placed s' v" if "rubric_placed s v" for v
    using that w'(4) by (auto simp: rubric_placed_def provider_known_def split: option.splits)
  have "rubric_placed s new" using D(4) [OF old] w'(3) i by (simp add: rubric_placed_def)
  then have rowsok: "\<forall>v \<in> set (db_rubrics s'). rubric_row_ok E v \<and> stored_valid cf v \<and> rubric_placed s' v"
    using D(4) kept w'(1) c rows by auto
  have ready: "has_confirmed s' a" if a: "a \<in> set (db_assignments s)" "asg_status a = AssignmentReady" for a
  proof -
    obtain v where v: "v \<in> set (db_rubrics s)" "rv_assignment v = asg_id a" "rv_owner v = asg_owner a" "rv_status v = RubricConfirmed"
      using D(6) [OF a] by (auto simp: has_confirmed_def)
    then have "v \<noteq> old" using p a by metis
    then show ?thesis using v rows by (auto simp: has_confirmed_def)
  qed
  have "distinct (map rv_id (db_rubrics s'))" using D(1) w'(4) i by (simp add: replace_row_keys)
  moreover have "\<forall>v \<in> set (db_rubrics s'). \<forall>w \<in> set (db_rubrics s'). v \<noteq> w \<longrightarrow> rubrics_apart v w"
    using D(3) new apart_sym [of new] unfolding rows by blast
  ultimately show ?thesis
    using D(2,5) rowsok ready w'(4) by (simp add: versions_ok_def)
qed

lemma insert_rubric_keeps:
  assumes ok: "versions_ok E cf s" and w: "insert_rubric E v s = Inr s'" and c: "stored_valid cf v"
  shows "versions_ok E cf s'"
proof -
  note D = versions_okD [OF ok]
  have w': "rubric_row_ok E v" "rubric_unique (db_rubrics s) v" "rubric_placed s v" "s' = s\<lparr>db_rubrics := db_rubrics s @ [v]\<rparr>"
    using w by (simp_all add: insert_rubric_Inr)
  have kept: "rubric_placed s' u" if "rubric_placed s u" for u
    using that w'(4) by (auto simp: rubric_placed_def provider_known_def split: option.splits)
  have "distinct (map rv_id (db_rubrics s'))" using D(1) w'(2,4) by (auto simp: unique_apart)
  moreover have "\<forall>u \<in> set (db_rubrics s'). \<forall>w \<in> set (db_rubrics s'). u \<noteq> w \<longrightarrow> rubrics_apart u w"
    using D(3) w'(2,4) apart_sym by (auto simp: unique_apart)
  moreover have "has_confirmed s' a" if "a \<in> set (db_assignments s)" "asg_status a = AssignmentReady" for a
    using D(6) [OF that] w'(4) by (auto simp: has_confirmed_def)
  ultimately show ?thesis using D(2,4,5) kept w' c by (auto simp: versions_ok_def)
qed

lemma write_assignment_keeps:
  assumes ok: "versions_ok E cf s" and old: "old \<in> set (db_assignments s)" and w: "write_assignment old new s = Inr s'"
    and i: "asg_id new = asg_id old" "asg_owner new = asg_owner old"
  shows "versions_ok E cf s'"
proof -
  note D = versions_okD [OF ok]
  have w': "asg_status new \<noteq> asg_status old \<longrightarrow> asg_status new = AssignmentReady \<longrightarrow> has_confirmed s new"
    "check_assignment new" "s' = s\<lparr>db_assignments := replace_row asg_id old new (db_assignments s)\<rparr>"
    using w unfolding write_assignment_Inr by blast+
  have rows: "set (db_assignments s') = insert new (set (db_assignments s) - {old})"
    using replace_row_set [OF D(2) old] w'(3) by simp
  have kept: "rubric_placed s' v" if "rubric_placed s v" for v
    using that rows i w'(3) by (auto simp: rubric_placed_def provider_known_def split: option.splits)
  have conf: "has_confirmed s' a = has_confirmed s a" for a using w'(3) by (simp add: has_confirmed_def)
  have "has_confirmed s new" if "asg_status new = AssignmentReady"
    using that w'(1) D(6) [OF old] i by (cases "asg_status old = AssignmentReady") (auto simp: has_confirmed_def)
  moreover have "distinct (map asg_id (db_assignments s'))" using D(2) w'(3) i by (simp add: replace_row_keys)
  ultimately show ?thesis
    using D w'(2) rows kept conf unfolding versions_ok_def by (simp add: w'(3))
qed

lemma insert_assignment_keeps:
  assumes ok: "versions_ok E cf s" and w: "insert_assignment a s = Inr s'"
  shows "versions_ok E cf s'"
proof -
  note D = versions_okD [OF ok]
  have w': "asg_status a = AssignmentReady \<longrightarrow> has_confirmed s a" "check_assignment a"
    "\<forall>b \<in> set (db_assignments s). asg_id b \<noteq> asg_id a" "s' = s\<lparr>db_assignments := db_assignments s @ [a]\<rparr>"
    using w by (simp_all add: insert_assignment_Inr)
  have kept: "rubric_placed s' v" if "rubric_placed s v" for v
    using that w'(4) by (auto simp: rubric_placed_def provider_known_def split: option.splits)
  have conf: "has_confirmed s' b = has_confirmed s b" for b using w'(4) by (simp add: has_confirmed_def)
  have "distinct (map asg_id (db_assignments s'))" using D(2) w'(3,4) by auto
  then show ?thesis using D w'(1,2) kept conf unfolding versions_ok_def by (auto simp: w'(4))
qed

section \<open>Transactions\<close>

inductive rubric_op :: "sql_env \<Rightarrow> (pystr \<Rightarrow> pystr) \<Rightarrow> pdb \<Rightarrow> pdb \<Rightarrow> bool" for E casefold where
  create: "repo_create_assignment E casefold aid rid owner p s = Inr (d, s') \<Longrightarrow> rubric_op E casefold s s'"
| update: "repo_update_assignment casefold owner aid q s = Inr (x, s') \<Longrightarrow> rubric_op E casefold s s'"
| status: "repo_update_status casefold owner aid action s = Inr (x, s') \<Longrightarrow> rubric_op E casefold s s'"
| draft: "repo_create_draft E casefold rid owner aid t s = Inr (w, s') \<Longrightarrow> rubric_op E casefold s s'"
| save: "validate_rubric casefold r = Inr r \<Longrightarrow>
     repo_save_generated E casefold owner aid rid pid version model r s = Inr (w, s') \<Longrightarrow> rubric_op E casefold s s'"
| edit: "validate_rubric casefold r = Inr r \<Longrightarrow>
     repo_update_structured E casefold owner aid rid r s = Inr (w, s') \<Longrightarrow> rubric_op E casefold s s'"
| confirm: "repo_confirm_rubric E casefold now owner aid rid pid model s = Inr (x, s') \<Longrightarrow> rubric_op E casefold s s'"

inductive_cases rubric_opE: "rubric_op E casefold s s'"

text \<open>Everything else leaves the two tables alone and keeps the providers.\<close>

definition rubrics_untouched :: "pdb \<Rightarrow> pdb \<Rightarrow> bool" where
  "rubrics_untouched s s' \<longleftrightarrow> db_assignments s' = db_assignments s \<and> db_rubrics s' = db_rubrics s \<and>
     prov_id ` set (db_providers s) \<subseteq> prov_id ` set (db_providers s')"

inductive rubric_reach :: "sql_env \<Rightarrow> (pystr \<Rightarrow> pystr) \<Rightarrow> pdb \<Rightarrow> bool" for E casefold where
  start: "db_assignments s = [] \<Longrightarrow> db_rubrics s = [] \<Longrightarrow> rubric_reach E casefold s"
| op: "rubric_reach E casefold s \<Longrightarrow> rubric_op E casefold s s' \<Longrightarrow> rubric_reach E casefold s'"
| other: "rubric_reach E casefold s \<Longrightarrow> rubrics_untouched s s' \<Longrightarrow> rubric_reach E casefold s'"

lemma visible_assignment: "find P (visible_assignments owner s) = Some a \<Longrightarrow>
    a \<in> set (db_assignments s) \<and> asg_owner a = owner \<and> P a \<and> owner \<in> set (db_active_teachers s)"
  by (drule find_SomeD) (auto simp: visible_assignments_def split: if_splits)

lemma visible_rubric: "find P (visible_rubrics owner s) = Some v \<Longrightarrow>
    v \<in> set (db_rubrics s) \<and> rv_owner v = owner \<and> P v \<and> owner \<in> set (db_active_teachers s)"
  by (drule find_SomeD) (auto simp: visible_rubrics_def split: if_splits)

lemma draft_stored [simp]: "stored_valid cf (draft_row rid owner aid n t x y)"
  by (simp add: stored_valid_def draft_row_def)

lemma stored_update [simp]:
  "stored_valid cf (v\<lparr>rv_status := st\<rparr>) = stored_valid cf v"
  "stored_valid cf (v\<lparr>rv_confirmed_at := t\<rparr>) = stored_valid cf v"
  "stored_valid cf (v\<lparr>rv_structured := Some r\<rparr>) \<longleftrightarrow> validate_rubric cf r = Inr r"
  by (simp_all add: stored_valid_def)

lemma store_keeps:
  assumes "versions_ok E cf s" "v \<in> set (db_rubrics s)" "stored_valid cf new" "store_rubric E cf v new s = Inr (w, s')"
  shows "versions_ok E cf s'"
  using assms write_rubric_keeps by (auto simp: store_rubric_def)

lemma confirm_keeps_rubrics:
  assumes ok: "versions_ok E cf s" and a: "a \<in> set (db_assignments s)" and v: "v \<in> set (db_rubrics s)" "rv_status v = RubricDraft"
    and w: "publish_version E now owner a v s = Inr s'"
  shows "versions_ok E cf s'"
proof -
  let ?a1 = "a\<lparr>asg_status := AssignmentDraft\<rparr>" and ?v1 = "v\<lparr>rv_status := RubricConfirmed, rv_confirmed_at := Some now\<rparr>"
  from w obtain s1 s2 s3 where
    1: "(if asg_status a = AssignmentReady then write_assignment a ?a1 s else Inr s) = Inr s1"
    and 2: "(case find (\<lambda>w. rv_assignment w = asg_id a \<and> rv_status w = RubricConfirmed) (visible_rubrics owner s1) of
        None \<Rightarrow> Inr s1 | Some w \<Rightarrow> write_rubric E w (w\<lparr>rv_status := RubricSuperseded\<rparr>) s1) = Inr s2"
    and 3: "write_rubric E v ?v1 s2 = Inr s3" and 4: "write_assignment ?a1 (a\<lparr>asg_status := AssignmentReady\<rparr>) s3 = Inr s'"
    by (auto simp: publish_version_def Let_def)
  have ok1: "versions_ok E cf s1" and r1: "db_rubrics s1 = db_rubrics s"
    using 1 ok a write_assignment_keeps [OF ok a, of ?a1 s1] by (auto simp: write_assignment_Inr split: if_splits)
  have a1: "asg_status a = AssignmentArchived \<or> ?a1 \<in> set (db_assignments s1)"
  proof (cases "asg_status a")
    case AssignmentReady
    then show ?thesis using 1 a replace_row_set [OF versions_okD(2) [OF ok] a] by (simp add: write_assignment_Inr)
  next
    case AssignmentDraft
    have e: "?a1 = a" by (rule assignment_row.equality) (simp_all add: AssignmentDraft)
    have "s1 = s" using 1 AssignmentDraft by simp
    then show ?thesis unfolding e using a by simp
  qed simp
  have ok2: "versions_ok E cf s2 \<and> v \<in> set (db_rubrics s2) \<and> db_assignments s2 = db_assignments s1"
  proof (cases "find (\<lambda>w. rv_assignment w = asg_id a \<and> rv_status w = RubricConfirmed) (visible_rubrics owner s1)")
    case None
    then show ?thesis using 2 ok1 v r1 by simp
  next
    case (Some w)
    then have w: "w \<in> set (db_rubrics s1)" "rv_status w = RubricConfirmed" using visible_rubric [OF Some] by auto
    have "write_rubric E w (w\<lparr>rv_status := RubricSuperseded\<rparr>) s1 = Inr s2" using 2 Some by simp
    moreover from this have "versions_ok E cf s2"
      by (rule write_rubric_keeps [OF ok1 w(1)]) (use versions_okD(4) [OF ok1 w(1)] in simp)
    moreover have "w \<noteq> v" using w v by auto
    ultimately show ?thesis
      using v r1 w(1) replace_row_set [OF versions_okD(1) [OF ok1] w(1)] by (auto simp: write_rubric_Inr)
  qed
  have ok3: "versions_ok E cf s3" and a3: "db_assignments s3 = db_assignments s2"
    using write_rubric_keeps [OF _ _ 3] ok2 3 versions_okD(4) [OF ok v(1)] by (auto simp: write_rubric_Inr)
  show ?thesis
  proof (cases "asg_status a = AssignmentArchived")
    case False
    then show ?thesis using a1 ok2 a3 by (intro write_assignment_keeps [OF ok3 _ 4]) simp_all
  next
    case True
    then have "s1 = s" using 1 by simp
    then have a: "a \<in> set (db_assignments s3)" using a a3 ok2 by simp
    have "write_assignment a (a\<lparr>asg_status := AssignmentReady\<rparr>) s3 = Inr s'"
      using 4 True by (simp add: write_assignment_Inr replace_row_def)
    then show ?thesis by (rule write_assignment_keeps [OF ok3 a]) simp_all
  qed
qed

lemma rubric_op_keeps: "rubric_op E cf s s' \<Longrightarrow> versions_ok E cf s \<Longrightarrow> versions_ok E cf s'"
proof (induction rule: rubric_op.induct)
  case (create aid rid owner p s d s')
  then obtain a s1 where "insert_assignment a s = Inr s1"
    "insert_rubric E (draft_row rid owner aid 1 (ac_original p) (ac_total p) (ac_step p)) s1 = Inr s'"
    by (auto simp: repo_create_assignment_def Let_def)
  then show ?case by (rule insert_rubric_keeps [OF insert_assignment_keeps [OF create(2)]]) simp
next
  case (update owner aid q s x s')
  then show ?case using write_assignment_keeps
    by (fastforce simp: repo_update_assignment_def split: option.splits dest: visible_assignment)
next
  case (status owner aid action s x s')
  then have "s' = s \<or> (\<exists>a st. a \<in> set (db_assignments s) \<and> write_assignment a (a\<lparr>asg_status := st\<rparr>) s = Inr s')"
    by (auto simp: repo_update_status_def owned_assignment_def Let_def split: option.splits assignment_action.splits if_splits
        dest!: visible_assignment)
  then show ?case using status(2) write_assignment_keeps [OF status(2)] by auto
next
  case (draft rid owner aid t s w s')
  then have "s' = s \<or> (\<exists>n. insert_rubric E (draft_row rid owner aid n (rd_original t) (rd_total t) (rd_step t)) s = Inr s')"
    by (auto simp: repo_create_draft_def Let_def split: option.splits if_splits)
  then show ?case using draft(2) insert_rubric_keeps [OF draft(2)] by auto
next
  case (save r owner aid rid pid version model s w s')
  then have "s' = s \<or> (\<exists>v \<in> set (db_rubrics s). store_rubric E cf v
      (v\<lparr>rv_provider := Some pid, rv_model := Some model, rv_structured := Some r\<rparr>) s = Inr (w, s'))"
    by (auto simp: repo_save_generated_def open_draft_def split: option.splits if_splits dest!: visible_rubric)
  then show ?case
  proof (elim disjE bexE)
    assume "s' = s"
    then show ?thesis using save(3) by simp
  next
    fix v assume v: "v \<in> set (db_rubrics s)" "store_rubric E cf v (v\<lparr>rv_provider := Some pid, rv_model := Some model, rv_structured := Some r\<rparr>) s = Inr (w, s')"
    show ?thesis by (rule store_keeps [OF save(3) v(1) _ v(2)]) (simp add: save(1))
  qed
next
  case (edit r owner aid rid s w s')
  then have "s' = s \<or> (\<exists>v \<in> set (db_rubrics s). store_rubric E cf v (v\<lparr>rv_structured := Some r\<rparr>) s = Inr (w, s'))"
    by (auto simp: repo_update_structured_def open_draft_def split: option.splits if_splits dest!: visible_rubric)
  then show ?case
  proof (elim disjE bexE)
    assume "s' = s"
    then show ?thesis using edit(3) by simp
  next
    fix v assume v: "v \<in> set (db_rubrics s)" "store_rubric E cf v (v\<lparr>rv_structured := Some r\<rparr>) s = Inr (w, s')"
    show ?thesis by (rule store_keeps [OF edit(3) v(1) _ v(2)]) (simp add: edit(1))
  qed
next
  case (confirm now owner aid rid pid model s x s')
  then show ?case
    by (auto simp: repo_confirm_rubric_def open_draft_def open_assignment_def split: option.splits if_splits
        dest!: visible_rubric visible_assignment intro: confirm_keeps_rubrics)
qed

lemma untouched_keeps: "rubrics_untouched s s' \<Longrightarrow> versions_ok E cf s \<Longrightarrow> versions_ok E cf s'"
proof -
  assume u: "rubrics_untouched s s'" and ok: "versions_ok E cf s"
  have p: "rubric_placed s' v" if "rubric_placed s v" for v
    proof -
    have "\<exists>q \<in> set (db_providers s'). prov_id q = prov_id p" if "p \<in> set (db_providers s)" for p
    proof -
      have "prov_id p \<in> prov_id ` set (db_providers s')" using that u by (auto simp: rubrics_untouched_def)
      then show ?thesis by (metis imageE)
    qed
    then have "provider_known s' v" using that by (auto simp: rubric_placed_def provider_known_def split: option.splits)
    then show ?thesis using that u by (simp add: rubrics_untouched_def rubric_placed_def)
  qed
  have "has_confirmed s' = has_confirmed s" using u by (simp add: has_confirmed_def rubrics_untouched_def fun_eq_iff)
  then show ?thesis using ok u p unfolding versions_ok_def by (simp add: rubrics_untouched_def)
qed

lemma reachable_rubrics: "rubric_reach E cf s \<Longrightarrow> versions_ok E cf s"
proof (induction rule: rubric_reach.induct)
  case (start s)
  then show ?case by (simp add: versions_ok_def)
next
  case (op s s')
  then show ?case by (blast intro: rubric_op_keeps)
next
  case (other s s')
  then show ?case by (blast intro: untouched_keeps)
qed

text \<open>
  C36. In every reachable state of assignments and rubric versions, whatever the order of the
  transactions of all teachers, each assignment has at most one draft and at most one confirmed
  version, no version number twice, a ready assignment has a confirmed version, and every stored
  structure is a rubric that the Python contract accepts and whose total and step are the row's.
\<close>

theorem reachable_rubrics_consistent:
  assumes "rubric_reach E casefold s"
  shows "(\<forall>v \<in> set (db_rubrics s). \<forall>w \<in> set (db_rubrics s). rv_assignment v = rv_assignment w \<and> v \<noteq> w \<longrightarrow>
      rv_version v \<noteq> rv_version w \<and> (rv_status v = rv_status w \<longrightarrow> rv_status v = RubricSuperseded)) \<and>
    (\<forall>a \<in> set (db_assignments s). asg_status a = AssignmentReady \<longrightarrow> has_confirmed s a) \<and>
    (\<forall>v \<in> set (db_rubrics s). case rv_structured v of
        None \<Rightarrow> rv_status v = RubricDraft
      | Some r \<Rightarrow> validate_rubric casefold r = Inr r \<and>
          valid_structured_rubric E (rubric_dump r) (rv_total_score v) (rv_score_step v))"
proof -
  note D = versions_okD [OF reachable_rubrics [OF assms]]
  have "case rv_structured v of None \<Rightarrow> rv_status v = RubricDraft
      | Some r \<Rightarrow> validate_rubric casefold r = Inr r \<and> valid_structured_rubric E (rubric_dump r) (rv_total_score v) (rv_score_step v)"
    if "v \<in> set (db_rubrics s)" for v
    using D(4) [OF that] by (auto simp: rubric_row_ok_def check_rubric_row_def stored_valid_def split: option.splits if_splits)
  then show ?thesis using D(3,6) unfolding rubrics_apart_def by blast
qed

section \<open>Confirmation\<close>

lemma replace_row_if: "replace_row k x x' rs = map (\<lambda>y. if k y = k x then x' else y) rs"
  by (simp add: replace_row_def update_where_def)

lemma mapR_succeeds: "(\<And>x. x \<in> set xs \<Longrightarrow> \<exists>y. f x = Inr y) \<Longrightarrow> \<exists>ys. mapR f xs = Inr ys"
  by (induction xs) (simp, fastforce)

lemma view_exists: "stored_valid cf v \<Longrightarrow> \<exists>w. to_rubric cf v = Inr w"
  by (auto simp: to_rubric_def stored_valid_def split: option.splits)

lemma detail_exists:
  assumes "\<And>v. v \<in> set rows \<Longrightarrow> stored_valid cf v"
  shows "\<exists>d. to_detail cf a rows = Inr d"
proof -
  obtain vs where "mapR (to_rubric cf) rows = Inr vs" using mapR_succeeds assms view_exists by metis
  then show ?thesis by (simp add: to_detail_def to_summary_def Let_def)
qed

lemma load_detail_exists:
  assumes "versions_ok E cf s" "owned_assignment owner aid s \<noteq> None"
  shows "\<exists>d. load_detail cf owner aid s = Inr (Some d)"
proof -
  have "stored_valid cf v" if "v \<in> set (versions_of owner aid s)" for v
    using that versions_okD(4) [OF assms(1)] by (auto simp: versions_of_def visible_rubrics_def split: if_splits)
  then have "\<exists>d. to_detail cf a (versions_of owner aid s) = Inr d" for a by (rule detail_exists)
  then show ?thesis using assms(2) by (auto simp: load_detail_def split: option.splits)
qed

lemma supersede_succeeds:
  assumes ok: "versions_ok E cf s" and w: "w \<in> set (db_rubrics s)" "rv_status w = RubricConfirmed"
    and nr: "\<forall>a \<in> set (db_assignments s). asg_id a = rv_assignment w \<longrightarrow> asg_status a \<noteq> AssignmentReady"
  shows "write_rubric E w (w\<lparr>rv_status := RubricSuperseded\<rparr>) s =
    Inr (s\<lparr>db_rubrics := replace_row rv_id w (w\<lparr>rv_status := RubricSuperseded\<rparr>) (db_rubrics s)\<rparr>)"
proof -
  note D = versions_okD [OF ok]
  have "rubric_row_ok E (w\<lparr>rv_status := RubricSuperseded\<rparr>)" "provider_known s (w\<lparr>rv_status := RubricSuperseded\<rparr>)"
    using D(4) [OF w(1)] w(2) by (auto simp: rubric_row_ok_def check_rubric_row_def rubric_placed_def provider_known_def)
  moreover have "rubric_unique (filter (\<lambda>u. rv_id u \<noteq> rv_id w) (db_rubrics s)) (w\<lparr>rv_status := RubricSuperseded\<rparr>)"
    using D(3) [OF _ w(1)] by (fastforce simp: unique_apart rubrics_apart_def)
  moreover have "protect_rubric_history s w (w\<lparr>rv_status := RubricSuperseded\<rparr>) = Inr ()"
    using w(2) nr by (auto simp: protect_rubric_history_def rubric_identity_def rubric_content_def)
  ultimately show ?thesis by (simp add: write_rubric_Inr)
qed

lemma confirm_version_succeeds:
  assumes ok: "versions_ok E cf s" and v: "v \<in> set (db_rubrics s)" "rv_status v = RubricDraft"
      "rv_structured v \<noteq> None" "rv_provider v \<noteq> None"
    and none: "\<forall>w \<in> set (db_rubrics s). rv_assignment w = rv_assignment v \<longrightarrow> rv_status w \<noteq> RubricConfirmed"
  shows "write_rubric E v (v\<lparr>rv_status := RubricConfirmed, rv_confirmed_at := Some now\<rparr>) s =
    Inr (s\<lparr>db_rubrics := replace_row rv_id v (v\<lparr>rv_status := RubricConfirmed, rv_confirmed_at := Some now\<rparr>) (db_rubrics s)\<rparr>)"
proof -
  let ?v = "v\<lparr>rv_status := RubricConfirmed, rv_confirmed_at := Some now\<rparr>"
  note D = versions_okD [OF ok]
  have "rubric_row_ok E ?v" "provider_known s ?v"
    using D(4) [OF v(1)] v(2-) by (auto simp: rubric_row_ok_def check_rubric_row_def rubric_placed_def provider_known_def split: option.splits)
  moreover have "rubric_unique (filter (\<lambda>u. rv_id u \<noteq> rv_id v) (db_rubrics s)) ?v"
    using D(3) [OF _ v(1)] none by (fastforce simp: unique_apart rubrics_apart_def)
  moreover have "protect_rubric_history s v ?v = Inr ()"
    using v(2) by (auto simp: protect_rubric_history_def rubric_identity_def)
  ultimately show ?thesis by (simp add: write_rubric_Inr)
qed

text \<open>What a confirmation does to the two tables.\<close>

definition confirmed_rows :: "time \<Rightarrow> uuid \<Rightarrow> uuid \<Rightarrow> rubric_row list \<Rightarrow> rubric_row list" where
  "confirmed_rows now aid rid = map (\<lambda>w.
     if rv_id w = rid then w\<lparr>rv_status := RubricConfirmed, rv_confirmed_at := Some now\<rparr>
     else if rv_assignment w = aid \<and> rv_status w = RubricConfirmed then w\<lparr>rv_status := RubricSuperseded\<rparr> else w)"

definition ready_rows :: "uuid \<Rightarrow> assignment_row list \<Rightarrow> assignment_row list" where
  "ready_rows aid = map (\<lambda>b. if asg_id b = aid then b\<lparr>asg_status := AssignmentReady\<rparr> else b)"

lemma publish_outcome:
  assumes ok: "versions_ok E cf s" and active: "owner \<in> set (db_active_teachers s)"
    and a: "a \<in> set (db_assignments s)" "asg_owner a = owner" "asg_status a \<noteq> AssignmentArchived"
    and v: "v \<in> set (db_rubrics s)" "rv_assignment v = asg_id a" "rv_status v = RubricDraft"
      "rv_structured v \<noteq> None" "rv_provider v \<noteq> None"
  shows "publish_version E now owner a v s = Inr (s\<lparr>db_assignments := ready_rows (asg_id a) (db_assignments s),
    db_rubrics := confirmed_rows now (asg_id a) (rv_id v) (db_rubrics s)\<rparr>)"
proof -
  let ?a1 = "a\<lparr>asg_status := AssignmentDraft\<rparr>" and ?v1 = "v\<lparr>rv_status := RubricConfirmed, rv_confirmed_at := Some now\<rparr>"
  note D = versions_okD [OF ok]
  define s1 where "s1 = s\<lparr>db_assignments := replace_row asg_id a ?a1 (db_assignments s)\<rparr>"
  have self: "replace_row asg_id a a (db_assignments s) = db_assignments s"
    unfolding replace_row_if by (rule map_idI) (use same_assignment [OF ok _ a(1)] in auto)
  have w1: "write_assignment a ?a1 s = Inr s1"
    using D(5) [OF a(1)] by (simp add: write_assignment_Inr s1_def check_assignment_def)
  have 1: "(if asg_status a = AssignmentReady then write_assignment a ?a1 s else Inr s) = Inr s1"
  proof (cases "asg_status a = AssignmentReady")
    case False
    then have "asg_status a = AssignmentDraft" using a(3) by (cases "asg_status a") auto
    then have "?a1 = a" by (intro assignment_row.equality) simp_all
    then have "s1 = s" unfolding s1_def by (simp add: self)
    then show ?thesis using False by simp
  qed (simp add: w1)
  have ok1: "versions_ok E cf s1" by (rule write_assignment_keeps [OF ok a(1) w1]) simp_all
  have rows1: "set (db_assignments s1) = insert ?a1 (set (db_assignments s) - {a})"
    using replace_row_set [OF D(2) a(1)] by (simp add: s1_def)
  have nr: "\<forall>b \<in> set (db_assignments s1). asg_id b = asg_id a \<longrightarrow> asg_status b \<noteq> AssignmentReady"
    using rows1 same_assignment [OF ok _ a(1)] by auto
  let ?find = "find (\<lambda>w. rv_assignment w = asg_id a \<and> rv_status w = RubricConfirmed) (visible_rubrics owner s1)"
  have vis: "visible_rubrics owner s1 = filter (\<lambda>v. rv_owner v = owner) (db_rubrics s)"
    using active by (simp add: visible_rubrics_def s1_def)
  have own: "rv_owner w = owner" if "w \<in> set (db_rubrics s)" "rv_assignment w = asg_id a" for w
    using placed_owner [OF ok that(1) a(1) that(2)] a(2) by simp
  define rows2 where "rows2 = map (\<lambda>w. if rv_assignment w = asg_id a \<and> rv_status w = RubricConfirmed
    then w\<lparr>rv_status := RubricSuperseded\<rparr> else w) (db_rubrics s)"
  define s2 where "s2 = s1\<lparr>db_rubrics := rows2\<rparr>"
  have 2: "(case ?find of None \<Rightarrow> Inr s1 | Some w \<Rightarrow> write_rubric E w (w\<lparr>rv_status := RubricSuperseded\<rparr>) s1) = Inr s2 \<and> versions_ok E cf s2"
  proof (cases ?find)
    case None
    then have "\<not> (rv_assignment w = asg_id a \<and> rv_status w = RubricConfirmed)" if "w \<in> set (db_rubrics s)" for w
      using that own by (auto simp: vis find_None_iff)
    then have "rows2 = db_rubrics s" unfolding rows2_def by (intro map_idI) auto
    then have "s2 = s1" by (simp add: s2_def s1_def)
    then show ?thesis using None ok1 by simp
  next
    case (Some w)
    have w: "w \<in> set (db_rubrics s)" "rv_assignment w = asg_id a" "rv_status w = RubricConfirmed"
      using visible_rubric [OF Some] by (auto simp: s1_def)
    have w': "w \<in> set (db_rubrics s1)" using w(1) by (simp add: s1_def)
    have only: "u = w" if "u \<in> set (db_rubrics s)" "rv_assignment u = asg_id a" "rv_status u = RubricConfirmed" for u
      using D(3) [OF that(1) w(1)] that w by (auto simp: rubrics_apart_def)
    have "replace_row rv_id w (w\<lparr>rv_status := RubricSuperseded\<rparr>) (db_rubrics s) = rows2"
      unfolding replace_row_if rows2_def
    proof (rule map_cong [OF refl])
      fix u assume u: "u \<in> set (db_rubrics s)"
      show "(if rv_id u = rv_id w then w\<lparr>rv_status := RubricSuperseded\<rparr> else u) =
        (if rv_assignment u = asg_id a \<and> rv_status u = RubricConfirmed then u\<lparr>rv_status := RubricSuperseded\<rparr> else u)"
      proof (cases "u = w")
        case False
        then have "rv_id u \<noteq> rv_id w" "\<not> (rv_assignment u = asg_id a \<and> rv_status u = RubricConfirmed)"
          using same_rubric [OF ok u w(1)] only [OF u] by blast+
        then show ?thesis by simp
      qed (simp add: w)
    qed
    then have e: "write_rubric E w (w\<lparr>rv_status := RubricSuperseded\<rparr>) s1 = Inr s2"
      using supersede_succeeds [OF ok1 w' w(3)] nr w(2) by (simp add: s2_def s1_def)
    have "versions_ok E cf s2"
      by (rule write_rubric_keeps [OF ok1 w' e]) (use versions_okD(4) [OF ok1 w'] in simp)
    then show ?thesis using e Some by simp
  qed
  then have ok2: "versions_ok E cf s2" by simp
  have v2: "v \<in> set (db_rubrics s2)"
  proof -
    have e: "v = (if rv_assignment v = asg_id a \<and> rv_status v = RubricConfirmed then v\<lparr>rv_status := RubricSuperseded\<rparr> else v)"
      by (simp add: v(3))
    have "v \<in> set rows2" unfolding rows2_def set_map by (rule image_eqI [where x = v]) (rule e, rule v(1))
    then show ?thesis by (simp add: s2_def)
  qed
  have none: "\<forall>w \<in> set (db_rubrics s2). rv_assignment w = rv_assignment v \<longrightarrow> rv_status w \<noteq> RubricConfirmed"
    using v(2) by (auto simp: s2_def rows2_def)
  define s3 where "s3 = s2\<lparr>db_rubrics := replace_row rv_id v ?v1 (db_rubrics s2)\<rparr>"
  have 3: "write_rubric E v ?v1 s2 = Inr s3"
    unfolding s3_def by (rule confirm_version_succeeds [OF ok2 v2 v(3-5) none])
  have v3: "?v1 \<in> set (db_rubrics s3)"
    using replace_row_set [OF versions_okD(1) [OF ok2] v2] by (simp add: s3_def)
  have conf: "has_confirmed s3 (a\<lparr>asg_status := AssignmentReady\<rparr>)"
    unfolding has_confirmed_def by (rule bexI [OF _ v3]) (use v(2) own [OF v(1,2)] a(2) in simp)
  have W: "write_assignment ?a1 (a\<lparr>asg_status := AssignmentReady\<rparr>) s3 =
      Inr (s3\<lparr>db_assignments := replace_row asg_id ?a1 (a\<lparr>asg_status := AssignmentReady\<rparr>) (db_assignments s3)\<rparr>)"
    using conf D(5) [OF a(1)] by (simp add: write_assignment_Inr check_assignment_def)
  have R: "db_rubrics s3 = confirmed_rows now (asg_id a) (rv_id v) (db_rubrics s)"
  proof -
    have "(if rv_id u = rv_id v then ?v1 else u) = (if rv_id w = rv_id v then w\<lparr>rv_status := RubricConfirmed, rv_confirmed_at := Some now\<rparr>
        else if rv_assignment w = asg_id a \<and> rv_status w = RubricConfirmed then w\<lparr>rv_status := RubricSuperseded\<rparr> else w)"
      if w: "w \<in> set (db_rubrics s)" and
        u: "u = (if rv_assignment w = asg_id a \<and> rv_status w = RubricConfirmed then w\<lparr>rv_status := RubricSuperseded\<rparr> else w)" for u w
    proof (cases "w = v")
      case False
      then have "rv_id w \<noteq> rv_id v" using same_rubric [OF ok w v(1)] by blast
      then show ?thesis unfolding u by simp
    qed (simp add: u v(3))
    then show ?thesis by (simp add: s3_def s2_def rows2_def confirmed_rows_def replace_row_if del: if_split)
  qed
  have A: "replace_row asg_id ?a1 (a\<lparr>asg_status := AssignmentReady\<rparr>) (db_assignments s3) = ready_rows (asg_id a) (db_assignments s)"
  proof -
    have "(if asg_id (if asg_id b = asg_id a then ?a1 else b) = asg_id a then a\<lparr>asg_status := AssignmentReady\<rparr>
        else if asg_id b = asg_id a then ?a1 else b) = (if asg_id b = asg_id a then b\<lparr>asg_status := AssignmentReady\<rparr> else b)"
      if b: "b \<in> set (db_assignments s)" for b
      using same_assignment [OF ok b a(1)] by (cases "asg_id b = asg_id a") simp_all
    then show ?thesis by (simp add: s3_def s2_def s1_def ready_rows_def replace_row_if del: if_split)
  qed
  have C: "publish_version E now owner a v s = write_assignment ?a1 (a\<lparr>asg_status := AssignmentReady\<rparr>) s3"
    unfolding publish_version_def Let_def 1 bindR.simps conjunct1 [OF 2] 3 ..
  have S: "s3\<lparr>db_assignments := x\<rparr> = s\<lparr>db_assignments := x, db_rubrics := db_rubrics s3\<rparr>" for x
    by (simp add: s3_def s2_def s1_def)
  show ?thesis unfolding C W A S R ..
qed

lemma find_in_filter:
  assumes "distinct (map k rs)" "r \<in> set rs" "P r" "k r = i" "q r"
  shows "find (\<lambda>x. k x = i \<and> q x) (filter P rs) = Some r"
  using assms by (simp add: find_unique distinct_map_filter)

lemma found_open:
  assumes "versions_ok E cf s" "owner \<in> set (db_active_teachers s)"
    "a \<in> set (db_assignments s)" "asg_owner a = owner" "asg_status a \<noteq> AssignmentArchived"
  shows "open_assignment owner (asg_id a) s = Some a"
  using find_in_filter [OF versions_okD(2) [OF assms(1)] assms(3), where P = "\<lambda>a. asg_owner a = owner"
      and q = "\<lambda>a. asg_status a \<noteq> AssignmentArchived" and i = "asg_id a"] assms
  by (simp add: open_assignment_def visible_assignments_def)

lemma found_draft:
  assumes "versions_ok E cf s" "owner \<in> set (db_active_teachers s)"
    "v \<in> set (db_rubrics s)" "rv_owner v = owner" "rv_status v = RubricDraft" "extra v"
  shows "open_draft extra owner (rv_assignment v) (rv_id v) s = Some v"
  using find_in_filter [OF versions_okD(1) [OF assms(1)] assms(3), where P = "\<lambda>v. rv_owner v = owner"
      and q = "\<lambda>w. rv_assignment w = rv_assignment v \<and> rv_status w = RubricDraft \<and> extra w" and i = "rv_id v"] assms
  by (simp add: open_draft_def visible_rubrics_def)


section \<open>A confirmed version is frozen\<close>

definition frozen_in :: "pdb \<Rightarrow> rubric_row \<Rightarrow> bool" where
  "frozen_in s v \<longleftrightarrow> (\<exists>w \<in> set (db_rubrics s). rubric_identity w = rubric_identity v \<and> rubric_content w = rubric_content v \<and>
     (rv_status w = rv_status v \<or> rv_status w = RubricSuperseded))"

lemma write_rubric_frozen:
  assumes "versions_ok E cf s" "old \<in> set (db_rubrics s)" "write_rubric E old new s = Inr s'"
    "v \<in> set (db_rubrics s)" "rv_status v \<noteq> RubricDraft"
  shows "frozen_in s' v"
proof -
  have r: "set (db_rubrics s') = insert new (set (db_rubrics s) - {old})" and p: "protect_rubric_history s old new = Inr ()"
    using replace_row_set [OF versions_okD(1) [OF assms(1)] assms(2)] assms(3) by (auto simp: write_rubric_Inr)
  show ?thesis
  proof (cases "v = old")
    case True
    then have "rubric_identity new = rubric_identity v" "rubric_content new = rubric_content v" "rv_status new = RubricSuperseded"
      using protected_write [OF p] assms(5) by (cases "rv_status v"; simp)+
    then show ?thesis using r unfolding frozen_in_def by (intro bexI [of _ new]) simp_all
  next
    case False
    then show ?thesis using r assms(4) unfolding frozen_in_def by (intro bexI [of _ v]) simp_all
  qed
qed

lemma confirm_frozen:
  assumes ok: "versions_ok E cf s" and v: "v \<in> set (db_rubrics s)" "rv_status v \<noteq> RubricDraft"
    and c: "repo_confirm_rubric E cf now owner aid rid pid model s = Inr (x, s')"
  shows "frozen_in s' v"
proof (cases "s' = s")
  case True
  then show ?thesis using v unfolding frozen_in_def by (intro bexI [of _ v]) simp_all
next
  case False
  then obtain a u where a: "open_assignment owner aid s = Some a"
    and u: "open_draft (\<lambda>v. rv_provider v = Some pid \<and> rv_model v = Some model \<and> rv_structured v \<noteq> None) owner aid rid s = Some u"
    and w: "publish_version E now owner a u s = Inr s'"
    using c by (auto simp: repo_confirm_rubric_def split: option.splits if_splits)
  note A = visible_assignment [OF a [unfolded open_assignment_def]] and U = visible_rubric [OF u [unfolded open_draft_def]]
  have "s' = s\<lparr>db_assignments := ready_rows (asg_id a) (db_assignments s), db_rubrics := confirmed_rows now (asg_id a) (rv_id u) (db_rubrics s)\<rparr>"
    using publish_outcome [OF ok, of owner a u now] A U w by simp
  then have rows: "db_rubrics s' = confirmed_rows now (asg_id a) (rv_id u) (db_rubrics s)" by simp
  have n: "rv_id v \<noteq> rv_id u" using same_rubric [OF ok v(1), of u] U v(2) by auto
  let ?v = "if rv_assignment v = asg_id a \<and> rv_status v = RubricConfirmed then v\<lparr>rv_status := RubricSuperseded\<rparr> else v"
  have "?v = (if rv_id v = rv_id u then v\<lparr>rv_status := RubricConfirmed, rv_confirmed_at := Some now\<rparr>
     else if rv_assignment v = asg_id a \<and> rv_status v = RubricConfirmed then v\<lparr>rv_status := RubricSuperseded\<rparr> else v)"
    using n by simp
  then have "?v \<in> set (db_rubrics s')"
    unfolding rows confirmed_rows_def set_map by (intro image_eqI [where x = v]) (assumption, rule v(1))
  then show ?thesis unfolding frozen_in_def
    by (intro bexI [of _ ?v]) (simp_all add: rubric_identity_def rubric_content_def)
qed

lemma rubric_op_frozen:
  assumes op: "rubric_op E cf s s'" and ok: "versions_ok E cf s" and v: "v \<in> set (db_rubrics s)" "rv_status v \<noteq> RubricDraft"
  shows "frozen_in s' v"
proof -
  have kept: "frozen_in t v" if "set (db_rubrics s) \<subseteq> set (db_rubrics t)" for t
    using that v unfolding frozen_in_def by (intro bexI [of _ v]) auto
  have stored: "frozen_in t v" if "u \<in> set (db_rubrics s)" "store_rubric E cf u new s = Inr (w, t)" for u new w t
    using that write_rubric_frozen [OF ok _ _ v] by (auto simp: store_rubric_def)
  show ?thesis using op
  proof (cases rule: rubric_op.cases)
    case create
    then show ?thesis
      by (intro kept) (auto simp: repo_create_assignment_def Let_def insert_assignment_Inr insert_rubric_Inr)
  next
    case update
    then show ?thesis
      by (intro kept) (auto simp: repo_update_assignment_def write_assignment_Inr split: option.splits)
  next
    case status
    then show ?thesis
      by (intro kept) (auto simp: repo_update_status_def Let_def write_assignment_Inr split: option.splits assignment_action.splits if_splits)
  next
    case draft
    then show ?thesis
      by (intro kept) (auto simp: repo_create_draft_def Let_def insert_rubric_Inr split: option.splits if_splits)
  next
    case (save r owner aid rid pid version model w)
    then have "s' = s \<or> (\<exists>u new. u \<in> set (db_rubrics s) \<and> store_rubric E cf u new s = Inr (w, s'))"
      by (auto simp: repo_save_generated_def open_draft_def split: option.splits if_splits dest!: visible_rubric)
    then show ?thesis using kept [of s] stored by blast
  next
    case (edit r owner aid rid w)
    then have "s' = s \<or> (\<exists>u new. u \<in> set (db_rubrics s) \<and> store_rubric E cf u new s = Inr (w, s'))"
      by (auto simp: repo_update_structured_def open_draft_def split: option.splits if_splits dest!: visible_rubric)
    then show ?thesis using kept [of s] stored by blast
  next
    case confirm
    then show ?thesis by (blast intro: confirm_frozen [OF ok v])
  qed
qed

text \<open>Any later state.\<close>

definition rubric_later :: "sql_env \<Rightarrow> (pystr \<Rightarrow> pystr) \<Rightarrow> pdb \<Rightarrow> pdb \<Rightarrow> bool" where
  "rubric_later E casefold = rtranclp (\<lambda>s s'. rubric_op E casefold s s' \<or> rubrics_untouched s s')"

lemma frozen_step:
  assumes "rubric_op E cf s s' \<or> rubrics_untouched s s'" "versions_ok E cf s" "rv_status v \<noteq> RubricDraft" "frozen_in s v"
  shows "frozen_in s' v"
proof -
  obtain w where w: "w \<in> set (db_rubrics s)" "rubric_identity w = rubric_identity v" "rubric_content w = rubric_content v"
    "rv_status w = rv_status v \<or> rv_status w = RubricSuperseded" using assms(4) by (auto simp: frozen_in_def)
  then have "rv_status w \<noteq> RubricDraft" using assms(3) by auto
  then have "frozen_in s' w"
  proof (cases "rubric_op E cf s s'")
    case False
    then have "db_rubrics s' = db_rubrics s" using assms(1) by (simp add: rubrics_untouched_def)
    then show ?thesis using w(1) unfolding frozen_in_def by (intro bexI [of _ w]) simp_all
  qed (use rubric_op_frozen [OF _ assms(2) w(1)] in blast)
  then show ?thesis using w(2-4) by (auto simp: frozen_in_def)
qed

text \<open>
  C38. A confirmed version is frozen: in every later state, after any number of transactions of any
  teacher in any order, the version with this identifier is still there, its text, its structure, its
  scores, its provider, its model and its time of confirmation are what they were, and it is confirmed
  or superseded. So a batch that refers to a version always refers to the same content.
\<close>

theorem confirmed_version_frozen:
  assumes "rubric_reach E casefold s" "v \<in> set (db_rubrics s)" "rv_status v \<noteq> RubricDraft" "rubric_later E casefold s s'"
  shows "\<exists>w \<in> set (db_rubrics s'). rubric_identity w = rubric_identity v \<and> rubric_content w = rubric_content v \<and>
    (rv_status w = rv_status v \<or> rv_status w = RubricSuperseded)"
proof -
  have "rubric_reach E casefold s' \<and> frozen_in s' v"
    using assms(4) unfolding rubric_later_def
  proof (induction rule: rtranclp_induct)
    case base
    show ?case using assms(1,2) unfolding frozen_in_def by (intro conjI bexI [of _ v]) simp_all
  next
    case (step y z)
    then have "rubric_reach E casefold z" by (auto intro: rubric_reach.intros)
    then show ?case using step frozen_step reachable_rubrics assms(3) by blast
  qed
  then show ?thesis by (simp add: frozen_in_def)
qed

end
