(* ===== verification/Rubric_Generation.thy ===== *)
theory Rubric_Generation
  imports Provider_Http Rubric_Content
begin

text \<open>
  \<open>backend/app/rubrics/generation.py\<close>: one chat completion turns a teacher's text into a structured
  rubric. The request, the transport with its limit, the checks of the response and the classification
  of every failure. The HTTP library, the URL policy and the conversion of JSON into typed fields,
  which pydantic does, are parameters.
\<close>

section \<open>The request\<close>

record generation_request =
  gq_type :: provider_type
  gq_base_url :: pystr
  gq_api_key :: pystr
  gq_model :: pystr
  gq_timeout_ms :: nat
  gq_title :: pystr
  gq_instructions :: pystr
  gq_original :: pystr
  gq_total :: decimal
  gq_step :: decimal

definition valid_generation_request :: "generation_request \<Rightarrow> bool" where
  "valid_generation_request q \<longleftrightarrow> gq_api_key q \<noteq> [] \<and> gq_model q \<noteq> [] \<and>
     0 < gq_timeout_ms q \<and> gq_timeout_ms q \<le> 300000 \<and> length_between 1 300 (gq_title q) \<and>
     length_between 1 100000 (gq_instructions q) \<and> length_between 1 100000 (gq_original q) \<and>
     score_gt0 (gq_total q) \<and> score_gt0 (gq_step q)"

definition generation_types :: "provider_type list" where
  "generation_types = [DeepSeek, Kimi, Glm, OpenAI, OpenAICompatible]"

definition max_rubric_output_tokens :: int where
  "max_rubric_output_tokens = 16384"

definition example_shape :: json where
  "example_shape = JObj [(ustr ''schema_version'', JInt 1), (ustr ''total_score'', jstr ''1''), (ustr ''score_step'', jstr ''1''),
     (ustr ''dimensions'', JArr [JObj [(ustr ''id'', jstr ''criterion''), (ustr ''name'', jstr ''Criterion''),
        (ustr ''description'', jstr ''What is assessed.''), (ustr ''max_score'', jstr ''1''),
        (ustr ''bands'', JArr [
           JObj [(ustr ''label'', jstr ''Not met''), (ustr ''min_score'', jstr ''0''), (ustr ''max_score'', jstr ''0''),
                 (ustr ''description'', jstr ''The criterion is not met.'')],
           JObj [(ustr ''label'', jstr ''Met''), (ustr ''min_score'', jstr ''1''), (ustr ''max_score'', jstr ''1''),
                 (ustr ''description'', jstr ''The criterion is met.'')]]),
        (ustr ''evidence_requirements'', JArr [jstr ''Quote supporting evidence.''])]]),
     (ustr ''deductions'', JArr [])]"

definition generation_system_prompt :: pystr where
  "generation_system_prompt =
     ustr ''You convert a teacher rubric into one JSON object. Return JSON only. '' @
     ustr ''The object must use schema_version 1 and contain total_score, score_step, '' @
     ustr ''dimensions, and deductions. Dimension ids must be lowercase snake_case and '' @
     ustr ''unique. Dimension names must be unique. Dimension scores must add to the exact '' @
     ustr ''total. Every score must match the exact score step. Each dimension must have '' @
     ustr ''ordered bands that continuously cover 0 through its max score, inclusive, and '' @
     ustr ''must include non-empty evidence requirements. Do not invent a different total '' @
     ustr ''or score step. Every decimal score must be a JSON string. A minimal valid '' @
     ustr ''shape is: '' @ render_json example_shape"

text \<open>\<open>json.dumps(..., ensure_ascii=False)\<close> of a flat object of strings: the default separators.\<close>

fun join_comma :: "pystr list \<Rightarrow> pystr" where
  "join_comma [] = []"
| "join_comma [x] = x"
| "join_comma (x # y # xs) = x @ 44 # 32 # join_comma (y # xs)"

definition loose_object :: "(pystr \<times> pystr) list \<Rightarrow> pystr" where
  "loose_object kvs = 123 # join_comma (map (\<lambda>(k, v). json_string k @ 58 # 32 # json_string v) kvs) @ [125]"

definition generation_user_text :: "generation_request \<Rightarrow> pystr" where
  "generation_user_text q = ustr ''Create the JSON rubric from this input:'' @ 10 #
     loose_object [(ustr ''assignment_title'', gq_title q), (ustr ''assignment_instructions'', gq_instructions q),
       (ustr ''original_rubric'', gq_original q), (ustr ''required_total_score'', decimal_str (gq_total q)),
       (ustr ''required_score_step'', decimal_str (gq_step q))]"

definition generation_messages :: "generation_request \<Rightarrow> json" where
  "generation_messages q = JArr [JObj [(ustr ''role'', jstr ''system''), (ustr ''content'', JStr generation_system_prompt)],
     JObj [(ustr ''role'', jstr ''user''), (ustr ''content'', JStr (generation_user_text q))]]"

definition generation_body :: "generation_request \<Rightarrow> json" where
  "generation_body q = JObj ([(ustr ''model'', JStr (gq_model q)), (ustr ''messages'', generation_messages q),
     (ustr ''response_format'', JObj [(ustr ''type'', jstr ''json_object'')]), (ustr ''temperature'', JInt 0),
     (ustr ''max_tokens'', JInt max_rubric_output_tokens), (ustr ''stream'', JBool False)] @
     (if gq_type q = DeepSeek then [(ustr ''thinking'', JObj [(ustr ''type'', jstr ''disabled'')])] else []))"

section \<open>Failures\<close>

text \<open>
  \<open>GenerationError\<close> is \<open>RubricGenerationError\<close> with its code. \<open>GenerationUrlError\<close> is the URL policy's
  error, and \<open>GenerationRaised\<close> any exception that no handler of the module catches.
\<close>

datatype generation_exn = GenerationError string | GenerationUrlError | GenerationRaised

record generation_env =
  gv_http :: http_env
  gv_url :: "provider_type \<Rightarrow> pystr \<Rightarrow> pystr option"
  gv_decimals :: loads_env
  gv_decode :: "json \<Rightarrow> structured_rubric option"
  gv_casefold :: "pystr \<Rightarrow> pystr"

definition response_invalid :: generation_exn where
  "response_invalid = GenerationError ''rubric_provider_response_invalid''"

definition generation_stream_exn :: "stream_end \<Rightarrow> generation_exn option" where
  "generation_stream_exn e = (case e of StreamDone \<Rightarrow> None
     | StreamTimeout \<Rightarrow> Some (GenerationError ''rubric_provider_timeout'')
     | StreamBroken \<Rightarrow> Some (GenerationError ''rubric_provider_unavailable'')
     | StreamDeadline \<Rightarrow> Some (GenerationError ''rubric_provider_timeout'')
     | StreamRaised \<Rightarrow> Some GenerationRaised)"

section \<open>The transport\<close>

text \<open>\<open>HttpCoreRubricClient.post_json\<close>: a body that is not JSON counts as an empty object.\<close>

definition post_rubric ::
    "http_env \<Rightarrow> pystr \<Rightarrow> pystr \<Rightarrow> (pystr \<times> pystr) list \<Rightarrow> json \<Rightarrow> generation_exn + int \<times> json" where
  "post_rubric H target url headers body =
     (if \<not> encodable (render_json body) then Inl GenerationRaised
      else case he_send H \<lparr>rq_method = ustr ''POST'', rq_target = target, rq_url = url, rq_headers = headers,
             rq_content = Some (utf8_encode (render_json body))\<rparr> of
        NoReply e \<Rightarrow> Inl (case generation_stream_exn e of Some x \<Rightarrow> x | None \<Rightarrow> GenerationRaised)
      | Reply status _ chunks e \<Rightarrow>
          (case read_chunks 0 chunks of
             None \<Rightarrow> Inl (GenerationError ''rubric_provider_response_too_large'')
           | Some raw \<Rightarrow>
               (case generation_stream_exn e of Some x \<Rightarrow> Inl x
                | None \<Rightarrow>
                    (case loads_body (he_loads H) (he_wide H) raw of
                       Inl LoadsDecode \<Rightarrow> Inr (status, JObj [])
                     | Inl _ \<Rightarrow> Inl GenerationRaised
                     | Inr j \<Rightarrow> Inr (status, j)))))"

section \<open>The response\<close>

definition generation_status_code :: "int \<Rightarrow> string option" where
  "generation_status_code st =
     (if st \<in> {401, 403} then Some ''rubric_provider_authentication_failed''
      else if st = 402 then Some ''rubric_provider_balance_unavailable''
      else if st \<in> {400, 422} then Some ''rubric_provider_request_invalid''
      else if st = 429 then Some ''rubric_provider_rate_limited''
      else if 300 \<le> st \<and> st < 400 then Some ''rubric_provider_redirect_rejected''
      else if 500 \<le> st then Some ''rubric_provider_unavailable''
      else if st \<noteq> 200 then Some ''rubric_provider_request_rejected''
      else None)"

definition raise_generation_status :: "int \<Rightarrow> generation_exn + unit" where
  "raise_generation_status st = (case generation_status_code st of None \<Rightarrow> Inr () | Some c \<Rightarrow> Inl (GenerationError c))"

text \<open>\<open>type(value) is int and value >= 0\<close>.\<close>

fun count_value :: "json option \<Rightarrow> int option" where
  "count_value (Some (JInt i)) = (if 0 \<le> i then Some i else None)"
| "count_value _ = None"

definition generation_usage_ok :: "json \<Rightarrow> bool" where
  "generation_usage_ok payload =
     (case json_get (ustr ''usage'') payload of
        None \<Rightarrow> True
      | Some JNull \<Rightarrow> True
      | Some u \<Rightarrow> is_object u \<and>
          (case (count_value (json_get (ustr ''prompt_tokens'') u), count_value (json_get (ustr ''completion_tokens'') u),
                 count_value (json_get (ustr ''total_tokens'') u)) of
             (Some p, Some c, Some t) \<Rightarrow> t = p + c \<and>
               (json_get (ustr ''prompt_cache_hit_tokens'') u = None \<and> json_get (ustr ''prompt_cache_miss_tokens'') u = None \<or>
                (case (count_value (json_get (ustr ''prompt_cache_hit_tokens'') u),
                       count_value (json_get (ustr ''prompt_cache_miss_tokens'') u)) of
                   (Some h, Some m) \<Rightarrow> h + m = p
                 | _ \<Rightarrow> False))
           | _ \<Rightarrow> False))"

text \<open>\<open>value == 0\<close> for a parsed value: \<open>0\<close>, \<open>0.0\<close> and \<open>False\<close>.\<close>

fun zero_value :: "json \<Rightarrow> bool" where
  "zero_value (JInt i) = (i = 0)"
| "zero_value (JFloat d) = (dec_coef d = 0)"
| "zero_value (JBool b) = (\<not> b)"
| "zero_value _ = False"

fun nonempty_text :: "json option \<Rightarrow> bool" where
  "nonempty_text (Some (JStr s)) = (s \<noteq> [])"
| "nonempty_text _ = False"

definition envelope_ok :: "json \<Rightarrow> generation_request \<Rightarrow> bool" where
  "envelope_ok payload q \<longleftrightarrow> is_object payload \<and>
     json_get (ustr ''object'') payload = Some (jstr ''chat.completion'') \<and>
     json_get (ustr ''model'') payload = Some (JStr (gq_model q)) \<and>
     nonempty_text (json_get (ustr ''id'') payload) \<and>
     count_value (json_get (ustr ''created'') payload) \<noteq> None"

text \<open>\<open>choices[0]\<close> when it is the only choice and has index 0.\<close>

definition only_choice :: "json \<Rightarrow> json option" where
  "only_choice payload = (case Option.bind (json_get (ustr ''choices'') payload) json_arr of
      Some [c] \<Rightarrow> (case json_get (ustr ''index'') c of None \<Rightarrow> None | Some i \<Rightarrow> if zero_value i then Some c else None)
    | _ \<Rightarrow> None)"

definition message_content :: "json \<Rightarrow> pystr option" where
  "message_content c = (case json_get (ustr ''message'') c of
      None \<Rightarrow> None
    | Some m \<Rightarrow>
        if json_get (ustr ''role'') m = Some (jstr ''assistant'') \<and>
           json_get (ustr ''reasoning_content'') m \<in> {None, Some JNull, Some (JStr [])}
        then (case json_get (ustr ''content'') m of
            Some (JStr s) \<Rightarrow> if py_strip s = [] then None else Some s
          | _ \<Rightarrow> None)
        else None)"

text \<open>
  The handler catches \<open>JSONDecodeError\<close> and \<open>ValidationError\<close>; the plain \<open>ValueError\<close> of a number with
  too many digits, \<open>RecursionError\<close> and \<open>decimal.InvalidOperation\<close> pass.
\<close>

definition decode_rubric :: "generation_env \<Rightarrow> pystr \<Rightarrow> generation_exn + structured_rubric" where
  "decode_rubric V s =
     (case json_loads (gv_decimals V) s of
        Inl LoadsDecode \<Rightarrow> Inl response_invalid
      | Inl _ \<Rightarrow> Inl GenerationRaised
      | Inr j \<Rightarrow>
          (case gv_decode V j of
             None \<Rightarrow> Inl response_invalid
           | Some r \<Rightarrow>
               (case validate_rubric (gv_casefold V) r of
                  Inl DecimalInvalidOperation \<Rightarrow> Inl GenerationRaised
                | Inl _ \<Rightarrow> Inl response_invalid
                | Inr v \<Rightarrow> Inr v)))"

definition extract_structured_rubric ::
    "generation_env \<Rightarrow> json \<Rightarrow> generation_request \<Rightarrow> generation_exn + structured_rubric" where
  "extract_structured_rubric V payload q =
     (if \<not> envelope_ok payload q \<or> \<not> generation_usage_ok payload then Inl response_invalid
      else case only_choice payload of
        None \<Rightarrow> Inl response_invalid
      | Some c \<Rightarrow>
          (let reason = json_get (ustr ''finish_reason'') c in
           if reason = Some (jstr ''length'') then Inl (GenerationError ''rubric_provider_output_truncated'')
           else if reason = Some (jstr ''content_filter'') then Inl (GenerationError ''rubric_provider_content_filtered'')
           else if reason \<noteq> Some (jstr ''stop'') then Inl response_invalid
           else case message_content c of
             None \<Rightarrow> Inl response_invalid
           | Some s \<Rightarrow>
               bindR (decode_rubric V s) (\<lambda>r.
                 if dec_eq (rub_total_score r) (gq_total q) \<and> dec_eq (rub_score_step r) (gq_step q) then Inr r
                 else Inl response_invalid)))"

section \<open>Generation\<close>

definition generation_headers :: "pystr \<Rightarrow> (pystr \<times> pystr) list" where
  "generation_headers key = [(ustr ''Accept'', ustr ''application/json''), (ustr ''Content-Type'', ustr ''application/json''),
     (ustr ''Authorization'', ustr ''Bearer '' @ key)]"

definition generate_rubric :: "generation_env \<Rightarrow> generation_request \<Rightarrow> generation_exn + structured_rubric" where
  "generate_rubric V q =
     (if gq_type q \<notin> set generation_types then Inl (GenerationError ''rubric_provider_unsupported'')
      else case gv_url V (gq_type q) (gq_base_url q) of
        None \<Rightarrow> Inl GenerationUrlError
      | Some target \<Rightarrow>
          bindR (post_rubric (gv_http V) target (target @ ustr ''/chat/completions'') (generation_headers (gq_api_key q))
                   (generation_body q)) (\<lambda>(status, payload).
          bindR (raise_generation_status status) (\<lambda>_.
          extract_structured_rubric V payload q)))"

section \<open>What a generated rubric is\<close>

lemma decoded_rubric_valid: "decode_rubric V s = Inr r \<Longrightarrow> validate_rubric (gv_casefold V) r = Inr r"
  using validate_rubric_idempotent by (auto simp: decode_rubric_def split: sum.splits loads_exn.splits option.splits rubric_error.splits)

lemma generation_status_ok: "raise_generation_status st = Inr x \<longleftrightarrow> st = 200"
  by (simp add: raise_generation_status_def generation_status_code_def)

lemma extracted_rubric:
  assumes "extract_structured_rubric V payload q = Inr r"
  shows "validate_rubric (gv_casefold V) r = Inr r \<and> dec_eq (rub_total_score r) (gq_total q) \<and>
    dec_eq (rub_score_step r) (gq_step q) \<and> envelope_ok payload q \<and>
    (\<exists>c. only_choice payload = Some c \<and> json_get (ustr ''finish_reason'') c = Some (jstr ''stop''))"
  using assms decoded_rubric_valid
  by (auto simp: extract_structured_rubric_def Let_def split: if_splits option.splits)

end
