(* ===== verification/Rubric_Flow.thy ===== *)
theory Rubric_Flow
  imports Rubric_Guarantees Rubric_Generation Pipeline_System
begin

text \<open>
  \<open>AssignmentRubricService\<close> (\<open>backend/app/rubrics/service.py\<close>) over the repository and the generator. A
  use case reads in one transaction and writes in a later one, so its definition takes the database
  of each: what other transactions did in between is the difference of the two. The lemmas join the
  generator, the content check of the database and the pipeline that reads the confirmed versions.
\<close>

section \<open>The use cases\<close>

datatype rubric_service_exn =
    AssignmentNotFound
  | AssignmentState
  | RubricState
  | RubricNotFound
  | RubricProviderUnavailable
  | GenerationNotConfigured
  | KeyUndecryptable
  | GenerationFailed generation_exn
  | RepositoryRaised rubric_exn

definition from_repo :: "rubric_exn + 'a \<Rightarrow> rubric_service_exn + 'a" where
  "from_repo m = (case m of Inl x \<Rightarrow> Inl (RepositoryRaised x) | Inr y \<Rightarrow> Inr y)"

text \<open>A write that found the row changed returns \<open>None\<close>.\<close>

definition written :: "rubric_service_exn \<Rightarrow> rubric_exn + 'a option \<times> pdb \<Rightarrow> rubric_service_exn + 'a \<times> pdb" where
  "written e m = bindR (from_repo m) (\<lambda>(x, s). case x of None \<Rightarrow> Inl e | Some y \<Rightarrow> Inr (y, s))"

definition svc_get_assignment :: "(pystr \<Rightarrow> pystr) \<Rightarrow> uuid \<Rightarrow> uuid \<Rightarrow> pdb \<Rightarrow> rubric_service_exn + assignment_detail" where
  "svc_get_assignment casefold owner aid s =
     bindR (from_repo (repo_get_assignment casefold owner aid s)) (\<lambda>d.
     case d of None \<Rightarrow> Inl AssignmentNotFound | Some x \<Rightarrow> Inr x)"

definition svc_update_assignment ::
    "(pystr \<Rightarrow> pystr) \<Rightarrow> uuid \<Rightarrow> uuid \<Rightarrow> assignment_update \<Rightarrow> pdb \<Rightarrow> pdb \<Rightarrow> rubric_service_exn + assignment_detail \<times> pdb" where
  "svc_update_assignment casefold owner aid p s s1 =
     bindR (svc_get_assignment casefold owner aid s) (\<lambda>d.
     if as_status d \<noteq> AssignmentDraft then Inl AssignmentState
     else written AssignmentState (repo_update_assignment casefold owner aid p s1))"

definition svc_update_status ::
    "(pystr \<Rightarrow> pystr) \<Rightarrow> uuid \<Rightarrow> uuid \<Rightarrow> assignment_action \<Rightarrow> pdb \<Rightarrow> pdb \<Rightarrow> rubric_service_exn + assignment_detail \<times> pdb" where
  "svc_update_status casefold owner aid action s s1 =
     bindR (svc_get_assignment casefold owner aid s) (\<lambda>d.
     if action = ArchiveAction \<and> as_status d = AssignmentArchived then Inr (d, s1)
     else if action = RestoreAction \<and> as_status d \<noteq> AssignmentArchived then Inl AssignmentState
     else written AssignmentState (repo_update_status casefold owner aid action s1))"

definition svc_create_draft ::
    "sql_env \<Rightarrow> (pystr \<Rightarrow> pystr) \<Rightarrow> uuid \<Rightarrow> uuid \<Rightarrow> uuid \<Rightarrow> rubric_draft_create \<Rightarrow> pdb \<Rightarrow> pdb \<Rightarrow> rubric_service_exn + rubric_view \<times> pdb" where
  "svc_create_draft E casefold rid owner aid p s s1 =
     bindR (svc_get_assignment casefold owner aid s) (\<lambda>d.
     if as_status d = AssignmentArchived then Inl AssignmentState
     else if \<exists>v \<in> set (ad_versions d). vw_status v = RubricDraft then Inl RubricState
     else written RubricState (repo_create_draft E casefold rid owner aid p s1))"

text \<open>The version of an assignment that is not archived; \<open>then\<close> it must be a draft.\<close>

definition open_version :: "uuid \<Rightarrow> assignment_detail \<Rightarrow> rubric_service_exn + rubric_view" where
  "open_version rid d =
     (if as_status d = AssignmentArchived then Inl AssignmentState
      else case find (\<lambda>v. vw_id v = rid) (ad_versions d) of None \<Rightarrow> Inl RubricNotFound | Some v \<Rightarrow> Inr v)"

record rubric_service =
  rs_calls_enabled :: bool
  rs_decrypt :: "(uuid \<Rightarrow> pystr \<Rightarrow> pystr \<Rightarrow> pystr option) option"
  rs_generator :: "generation_env option"

text \<open>The default model and the encrypted key of a provider that may generate.\<close>

definition generation_provider :: "uuid \<Rightarrow> pdb \<Rightarrow> (provider_row \<times> pystr \<times> pystr \<times> pystr) option" where
  "generation_provider pid s = (case find_provider pid s of
      None \<Rightarrow> None
    | Some p \<Rightarrow>
        if prov_status p \<noteq> ProviderEnabled \<or> prov_tested_at p = None \<or> prov_tested_version p \<noteq> Some (prov_config_version p) then None
        else (case (prov_default_model p, prov_encrypted_key p, prov_nonce p) of
          (Some m, Some k, Some n) \<Rightarrow> Some (p, m, k, n) | _ \<Rightarrow> None))"

definition generation_request_for :: "provider_row \<Rightarrow> pystr \<Rightarrow> pystr \<Rightarrow> assignment_detail \<Rightarrow> rubric_view \<Rightarrow> generation_request" where
  "generation_request_for p model key d v = \<lparr>gq_type = prov_type p, gq_base_url = prov_base_url p, gq_api_key = key,
     gq_model = model, gq_timeout_ms = prov_timeout_ms p, gq_title = as_title d, gq_instructions = ad_instructions d,
     gq_original = vw_original v, gq_total = vw_total v, gq_step = vw_step v\<rparr>"

definition generate_with :: "generation_env \<Rightarrow> generation_request \<Rightarrow> rubric_service_exn + structured_rubric" where
  "generate_with V q =
     (if \<not> valid_generation_request q then Inl (GenerationFailed GenerationRaised)
      else case generate_rubric V q of Inl x \<Rightarrow> Inl (GenerationFailed x) | Inr r \<Rightarrow> Inr r)"

definition svc_structure_rubric ::
    "rubric_service \<Rightarrow> sql_env \<Rightarrow> (pystr \<Rightarrow> pystr) \<Rightarrow> uuid \<Rightarrow> uuid \<Rightarrow> uuid \<Rightarrow> uuid \<Rightarrow> pdb \<Rightarrow> pdb \<Rightarrow> pdb \<Rightarrow>
     rubric_service_exn + rubric_view \<times> pdb" where
  "svc_structure_rubric R E casefold owner aid rid pid s sp s1 =
     (if \<not> rs_calls_enabled R then Inl RubricProviderUnavailable
      else bindR (svc_get_assignment casefold owner aid s) (\<lambda>d.
      bindR (open_version rid d) (\<lambda>v.
      if vw_status v \<noteq> RubricDraft then Inl RubricState
      else case generation_provider pid sp of
        None \<Rightarrow> Inl RubricProviderUnavailable
      | Some (p, m, k, n) \<Rightarrow>
          (case (rs_decrypt R, rs_generator R) of
             (Some decrypt, Some V) \<Rightarrow>
               (case decrypt (prov_id p) k n of
                  None \<Rightarrow> Inl KeyUndecryptable
                | Some key \<Rightarrow>
                    bindR (generate_with V (generation_request_for p m key d v)) (\<lambda>r.
                    written RubricState (repo_save_generated E casefold owner aid rid (prov_id p) (prov_config_version p) m r s1)))
           | _ \<Rightarrow> Inl GenerationNotConfigured))))"

definition svc_update_structured ::
    "sql_env \<Rightarrow> (pystr \<Rightarrow> pystr) \<Rightarrow> uuid \<Rightarrow> uuid \<Rightarrow> uuid \<Rightarrow> structured_rubric \<Rightarrow> pdb \<Rightarrow> pdb \<Rightarrow> rubric_service_exn + rubric_view \<times> pdb" where
  "svc_update_structured E casefold owner aid rid r s s1 =
     bindR (svc_get_assignment casefold owner aid s) (\<lambda>d.
     bindR (open_version rid d) (\<lambda>v.
     if vw_status v \<noteq> RubricDraft \<or> vw_provider v = None \<or> vw_model v = None then Inl RubricState
     else if \<not> dec_eq (rub_total_score r) (vw_total v) \<or> \<not> dec_eq (rub_score_step r) (vw_step v) then Inl RubricState
     else written RubricState (repo_update_structured E casefold owner aid rid r s1)))"

definition svc_confirm_rubric ::
    "sql_env \<Rightarrow> (pystr \<Rightarrow> pystr) \<Rightarrow> time \<Rightarrow> uuid \<Rightarrow> uuid \<Rightarrow> uuid \<Rightarrow> pdb \<Rightarrow> pdb \<Rightarrow> rubric_service_exn + assignment_detail \<times> pdb" where
  "svc_confirm_rubric E casefold now owner aid rid s s1 =
     bindR (svc_get_assignment casefold owner aid s) (\<lambda>d.
     bindR (open_version rid d) (\<lambda>v.
     if vw_status v = RubricConfirmed \<and> as_status d = AssignmentReady then Inr (d, s1)
     else if vw_status v \<noteq> RubricDraft then Inl RubricState
     else case (vw_structured v, vw_provider v, vw_model v) of
       (Some _, Some pid, Some m) \<Rightarrow> written RubricState (repo_confirm_rubric E casefold now owner aid rid pid m s1)
     | _ \<Rightarrow> Inl RubricState))"

section \<open>Reading what is stored\<close>

definition view_of :: "rubric_row \<Rightarrow> rubric_view" where
  "view_of v = \<lparr>vw_id = rv_id v, vw_assignment = rv_assignment v, vw_version = rv_version v,
     vw_status = rv_status v, vw_original = rv_original v, vw_structured = rv_structured v,
     vw_total = rv_total_score v, vw_step = rv_score_step v, vw_provider = rv_provider v,
     vw_model = rv_model v, vw_confirmed_at = rv_confirmed_at v\<rparr>"

lemma stored_view: "stored_valid cf v \<Longrightarrow> to_rubric cf v = Inr (view_of v)"
  by (auto simp: to_rubric_def stored_valid_def view_of_def split: option.splits)

lemma stored_views: "(\<And>v. v \<in> set rows \<Longrightarrow> stored_valid cf v) \<Longrightarrow> mapR (to_rubric cf) rows = Inr (map view_of rows)"
  by (induction rows) (simp_all add: stored_view)

lemma service_reads:
  assumes ok: "versions_ok E cf s" and active: "owner \<in> set (db_active_teachers s)"
    and a: "a \<in> set (db_assignments s)" "asg_owner a = owner"
  obtains d where "svc_get_assignment cf owner (asg_id a) s = Inr d" "as_status d = asg_status a" "as_title d = asg_title a"
    "ad_instructions d = asg_instructions a" "ad_versions d = map view_of (versions_of owner (asg_id a) s)"
proof -
  have "stored_valid cf v" if "v \<in> set (versions_of owner (asg_id a) s)" for v
    using that versions_okD(4) [OF ok] by (auto simp: versions_of_def visible_rubrics_def split: if_splits)
  then have m: "mapR (to_rubric cf) (versions_of owner (asg_id a) s) = Inr (map view_of (versions_of owner (asg_id a) s))"
    by (rule stored_views)
  have "owned_assignment owner (asg_id a) s = Some a"
    using find_in_filter [OF versions_okD(2) [OF ok] a(1), where P = "\<lambda>a. asg_owner a = owner" and q = "\<lambda>_. True" and i = "asg_id a"] a active
    by (simp add: owned_assignment_def visible_assignments_def)
  moreover obtain x where x: "to_summary cf a (versions_of owner (asg_id a) s) = Inr x"
    "as_status x = asg_status a" "as_title x = asg_title a"
    by (simp add: to_summary_def m Let_def)
  ultimately have "svc_get_assignment cf owner (asg_id a) s = Inr (assignment_summary.extend x
      (assignment_detail.fields (asg_instructions a) (map view_of (versions_of owner (asg_id a) s))))"
    by (simp add: svc_get_assignment_def from_repo_def repo_get_assignment_def load_detail_def to_detail_def m)
  then show ?thesis by (rule that) (simp_all add: x assignment_summary.defs assignment_detail.defs)
qed

lemma version_found:
  assumes ok: "versions_ok E cf s" and active: "owner \<in> set (db_active_teachers s)"
    and v: "v \<in> set (db_rubrics s)" "rv_owner v = owner" "rv_assignment v = aid"
  shows "find (\<lambda>w. vw_id w = rv_id v) (map view_of (versions_of owner aid s)) = Some (view_of v)"
proof -
  let ?rows = "versions_of owner aid s"
  have m: "set ?rows = {u \<in> set (db_rubrics s). rv_owner u = owner \<and> rv_assignment u = aid}"
    using active by (auto simp: versions_of_def visible_rubrics_def)
  have "find (\<lambda>w. vw_id w = rv_id v) (map view_of rows) = Some (view_of v)"
    if "set rows \<subseteq> set (db_rubrics s)" "v \<in> set rows" for rows
    using that
  proof (induction rows)
    case (Cons u rows)
    then show ?case using same_rubric [OF ok _ v(1), of u] by (auto simp: view_of_def)
  qed simp
  then show ?thesis using m v by blast
qed

section \<open>A generated rubric can be stored\<close>

lemma dec_eq_commute: "dec_eq a b = dec_eq b a"
  by (auto simp: dec_eq_def Let_def min.commute)

lemma generated_rubric_valid:
  assumes "generate_rubric V q = Inr r"
  shows "validate_rubric (gv_casefold V) r = Inr r" "dec_eq (rub_total_score r) (gq_total q)" "dec_eq (rub_score_step r) (gq_step q)"
  using assms extracted_rubric by (fastforce simp: generate_rubric_def split: if_splits option.splits)+

lemma generated_write:
  assumes ok: "versions_ok E cf s" and v: "v \<in> set (db_rubrics s)" "rv_status v = RubricDraft"
    and p: "p \<in> set (db_providers s)" and m: "\<not> blank m"
    and r: "validate_rubric cf r = Inr r" "dec_eq (rub_total_score r) (rv_total_score v)" "dec_eq (rub_score_step r) (rv_score_step v)"
    and sql: "numeric_reads E" "folds_alike cf E (\<Union>d \<in> set (rub_dimensions r). set (dim_name d))"
  shows "write_rubric E v (v\<lparr>rv_provider := Some (prov_id p), rv_model := Some m, rv_structured := Some r\<rparr>) s =
    Inr (s\<lparr>db_rubrics := replace_row rv_id v (v\<lparr>rv_provider := Some (prov_id p), rv_model := Some m, rv_structured := Some r\<rparr>) (db_rubrics s)\<rparr>)"
proof -
  let ?v = "v\<lparr>rv_provider := Some (prov_id p), rv_model := Some m, rv_structured := Some r\<rparr>"
  note D = versions_okD [OF ok]
  have "valid_structured_rubric E (rubric_dump r) (rv_total_score v) (rv_score_step v)"
    by (rule database_accepts_stored [OF r(1) sql]) (use r dec_eq_commute in blast)+
  then have "rubric_row_ok E ?v" using D(4) [OF v(1)] v(2) m by (auto simp: rubric_row_ok_def check_rubric_row_def split: option.splits)
  moreover have "provider_known s ?v" using p by (auto simp: provider_known_def)
  moreover have "rubric_unique (filter (\<lambda>u. rv_id u \<noteq> rv_id v) (db_rubrics s)) ?v"
    using D(3) [OF _ v(1)] by (fastforce simp: unique_apart rubrics_apart_def)
  moreover have "protect_rubric_history s v ?v = Inr ()"
    using v(2) by (auto simp: protect_rubric_history_def rubric_identity_def)
  ultimately show ?thesis by (simp add: write_rubric_Inr)
qed


section \<open>The pipeline reads what the lifecycle writes\<close>

lemma rubric_op_tables:
  "rubric_op E cf s s' \<Longrightarrow> s' = s\<lparr>db_assignments := db_assignments s', db_rubrics := db_rubrics s'\<rparr>"
proof (induction rule: rubric_op.induct)
  case (create aid rid owner p s d s')
  then show ?case by (auto simp: repo_create_assignment_def Let_def insert_assignment_Inr insert_rubric_Inr)
next
  case (update owner aid q s x s')
  then show ?case by (auto simp: repo_update_assignment_def write_assignment_Inr split: option.splits)
next
  case (status owner aid action s x s')
  then show ?case
    by (auto simp: repo_update_status_def Let_def write_assignment_Inr split: option.splits assignment_action.splits if_splits)
next
  case (draft rid owner aid t s w s')
  then show ?case by (auto simp: repo_create_draft_def Let_def insert_rubric_Inr split: option.splits if_splits)
next
  case (save r owner aid rid pid version model s w s')
  then show ?case
    by (auto simp: repo_save_generated_def store_rubric_def write_rubric_Inr split: option.splits if_splits)
next
  case (edit r owner aid rid s w s')
  then show ?case by (auto simp: repo_update_structured_def store_rubric_def write_rubric_Inr split: option.splits)
next
  case (confirm now owner aid rid pid model s x s')
  then have "s' = s \<or> (\<exists>a v. publish_version E now owner a v s = Inr s')"
    by (auto simp: repo_confirm_rubric_def split: option.splits if_splits)
  then show ?case
    by (auto simp: publish_version_def Let_def write_assignment_Inr write_rubric_Inr split: option.splits if_splits)
qed


section \<open>What escapes the generator\<close>

text \<open>
  An answer whose number has too many digits for the interpreter is not classified: the exception
  passes the handler of \<open>_extract_structured_rubric\<close>, although the call was made and answered.
\<close>

lemma long_number_escapes:
  assumes "envelope_ok payload q" "generation_usage_ok payload" "only_choice payload = Some c"
    "json_get (ustr ''finish_reason'') c = Some (jstr ''stop'')" "message_content c = Some ds"
    "\<forall>x \<in> set ds. is_digit x" "ds \<noteq> []" "hd ds \<noteq> 48" "max_int_digits < length ds"
  shows "extract_structured_rubric V payload q = Inl GenerationRaised"
proof -
  have "jstr ''stop'' \<noteq> jstr ''length''" "jstr ''stop'' \<noteq> jstr ''content_filter''" by (simp_all add: jstr_def ustr_def)
  then show ?thesis
    using assms(1-5) long_integer [OF assms(6-9)]
    by (simp add: extract_structured_rubric_def Let_def decode_rubric_def)
qed

end
