(* ===== verification/Rubric_Example.thy ===== *)
theory Rubric_Example
  imports Rubric_Flow
begin

text \<open>
  A teacher creates an assignment, lets a provider structure the rubric, confirms it, and replaces it
  by a second version: every transaction is evaluated, and the properties of the lifecycle are applied to the states.
\<close>

section \<open>The states\<close>

definition rb_provider :: provider_row where
  "rb_provider = \<lparr>prov_id = 4, prov_type = DeepSeek, prov_name = ustr ''p'', prov_base_url = ustr ''https://api'',
     prov_encrypted_key = Some (ustr ''0123456789abcdefg''), prov_nonce = Some (ustr ''0123456789ab''),
     prov_allowed_models = [ustr ''m''], prov_default_model = Some (ustr ''m''), prov_timeout_ms = 60000,
     prov_max_concurrency = 1, prov_model_profiles = [], prov_status = ProviderEnabled,
     prov_config_version = 1, prov_tested_version = Some 1, prov_tested_at = Some 0\<rparr>"

definition rb0 :: pdb where
  "rb0 = \<lparr>db_active_teachers = [9], db_providers = [rb_provider], db_assignments = [], db_rubrics = [],
     db_submissions = [], db_jobs = [], db_items = [], db_attempts = [], db_reviews = []\<rparr>"

definition rb_new :: assignment_create where
  "rb_new = \<lparr>ac_title = ustr ''Essay'', ac_instructions = ustr ''Write'', ac_original = ustr ''text'',
     ac_total = dec_of_int 10, ac_step = dec_of_int 1\<rparr>"

definition fold_ascii :: "pystr \<Rightarrow> pystr" where
  "fold_ascii s = map ascii_lower s"

definition rb_assignment :: assignment_row where
  "rb_assignment = \<lparr>asg_id = 1, asg_owner = 9, asg_title = ustr ''Essay'', asg_instructions = ustr ''Write'',
     asg_status = AssignmentDraft\<rparr>"

definition rb_draft :: rubric_row where
  "rb_draft = draft_row 2 9 1 1 (ustr ''text'') (dec_of_int 10) (dec_of_int 1)"

definition rb_structured :: rubric_row where
  "rb_structured = rb_draft\<lparr>rv_provider := Some 4, rv_model := Some (ustr ''m''), rv_structured := Some example_rubric\<rparr>"

definition rb_confirmed :: rubric_row where
  "rb_confirmed = rb_structured\<lparr>rv_status := RubricConfirmed, rv_confirmed_at := Some 50\<rparr>"

definition rb1 :: pdb where
  "rb1 = rb0\<lparr>db_assignments := [rb_assignment], db_rubrics := [rb_draft]\<rparr>"

definition rb2 :: pdb where
  "rb2 = rb1\<lparr>db_rubrics := [rb_structured]\<rparr>"

definition rb3 :: pdb where
  "rb3 = rb2\<lparr>db_assignments := [rb_assignment\<lparr>asg_status := AssignmentReady\<rparr>], db_rubrics := [rb_confirmed]\<rparr>"

definition rb4 :: pdb where
  "rb4 = rb3\<lparr>db_rubrics := [rb_confirmed, rb_draft\<lparr>rv_id := 3, rv_version := 2\<rparr>]\<rparr>"

definition rb5 :: pdb where
  "rb5 = rb3\<lparr>db_rubrics := [rb_confirmed, rb_structured\<lparr>rv_id := 3, rv_version := 2\<rparr>]\<rparr>"

definition rb6 :: pdb where
  "rb6 = rb3\<lparr>db_rubrics := [rb_confirmed\<lparr>rv_status := RubricSuperseded\<rparr>,
     rb_structured\<lparr>rv_id := 3, rv_version := 2, rv_status := RubricConfirmed, rv_confirmed_at := Some 60\<rparr>]\<rparr>"

text \<open>The transaction \<open>m\<close> commits and leaves the tables \<open>s\<close>.\<close>

definition commits :: "'e + 'a \<times> pdb \<Rightarrow> pdb \<Rightarrow> bool" where
  "commits m s \<longleftrightarrow> (case m of Inl _ \<Rightarrow> False
     | Inr (_, t) \<Rightarrow> db_assignments t = db_assignments s \<and> db_rubrics t = db_rubrics s \<and> db_providers t = db_providers s \<and>
         db_active_teachers t = db_active_teachers s \<and> db_submissions t = [] \<and> db_jobs t = [] \<and> db_items t = [] \<and>
         db_attempts t = [] \<and> db_reviews t = [])"

lemma rb_rubric: "validate_rubric fold_ascii example_rubric = Inr example_rubric"
  by code_simp

lemma rb_folds: "folds_alike fold_ascii ascii_sql C"
proof -
  have "fold_ascii = map ascii_lower" by (simp add: fold_ascii_def fun_eq_iff)
  then show ?thesis using ascii_sql_folds by simp
qed

lemma committed:
  assumes "commits m s" "db_submissions s = []" "db_jobs s = []" "db_items s = []" "db_attempts s = []" "db_reviews s = []"
  shows "m = Inr (fst (projr m), s)"
  using assms by (cases m) (auto simp: commits_def intro!: pdb.equality)

lemma rb_empty [simp]:
  "db_submissions rb0 = []" "db_jobs rb0 = []" "db_items rb0 = []" "db_attempts rb0 = []" "db_reviews rb0 = []"
  by (simp_all add: rb0_def)

lemmas rb_states = rb1_def rb2_def rb3_def rb4_def rb5_def rb6_def

lemma rb_ops:
  "rubric_op ascii_sql fold_ascii rb0 rb1" "rubric_op ascii_sql fold_ascii rb1 rb2"
  "rubric_op ascii_sql fold_ascii rb2 rb3" "rubric_op ascii_sql fold_ascii rb3 rb4"
  "rubric_op ascii_sql fold_ascii rb4 rb5" "rubric_op ascii_sql fold_ascii rb5 rb6"
proof -
  have "commits (repo_create_assignment ascii_sql fold_ascii 1 2 9 rb_new rb0) rb1" by code_simp
  then show "rubric_op ascii_sql fold_ascii rb0 rb1"
    by (intro rubric_op.create [OF committed]) (simp_all add: rb_states)
  have "commits (repo_save_generated ascii_sql fold_ascii 9 1 2 4 1 (ustr ''m'') example_rubric rb1) rb2" by code_simp
  then show "rubric_op ascii_sql fold_ascii rb1 rb2"
    by (intro rubric_op.save [OF rb_rubric committed]) (simp_all add: rb_states)
  have "commits (repo_confirm_rubric ascii_sql fold_ascii 50 9 1 2 4 (ustr ''m'') rb2) rb3" by code_simp
  then show "rubric_op ascii_sql fold_ascii rb2 rb3"
    by (intro rubric_op.confirm [OF committed]) (simp_all add: rb_states)
  have "commits (repo_create_draft ascii_sql fold_ascii 3 9 1
     \<lparr>rd_original = ustr ''text'', rd_total = dec_of_int 10, rd_step = dec_of_int 1\<rparr> rb3) rb4" by code_simp
  then show "rubric_op ascii_sql fold_ascii rb3 rb4"
    by (intro rubric_op.draft [OF committed]) (simp_all add: rb_states)
  have "commits (repo_save_generated ascii_sql fold_ascii 9 1 3 4 1 (ustr ''m'') example_rubric rb4) rb5" by code_simp
  then show "rubric_op ascii_sql fold_ascii rb4 rb5"
    by (intro rubric_op.save [OF rb_rubric committed]) (simp_all add: rb_states)
  have "commits (repo_confirm_rubric ascii_sql fold_ascii 60 9 1 3 4 (ustr ''m'') rb5) rb6" by code_simp
  then show "rubric_op ascii_sql fold_ascii rb5 rb6"
    by (intro rubric_op.confirm [OF committed]) (simp_all add: rb_states)
qed

lemma rb_reach:
  "rubric_reach ascii_sql fold_ascii rb0" "rubric_reach ascii_sql fold_ascii rb1"
  "rubric_reach ascii_sql fold_ascii rb2" "rubric_reach ascii_sql fold_ascii rb3"
proof -
  show 0: "rubric_reach ascii_sql fold_ascii rb0" by (rule rubric_reach.start) (simp_all add: rb0_def)
  show 1: "rubric_reach ascii_sql fold_ascii rb1" by (rule rubric_reach.op [OF 0 rb_ops(1)])
  show 2: "rubric_reach ascii_sql fold_ascii rb2" by (rule rubric_reach.op [OF 1 rb_ops(2)])
  show "rubric_reach ascii_sql fold_ascii rb3" by (rule rubric_reach.op [OF 2 rb_ops(3)])
qed

lemma rb_later: "rubric_later ascii_sql fold_ascii rb3 rb6"
proof -
  let ?R = "\<lambda>s s'. rubric_op ascii_sql fold_ascii s s' \<or> rubrics_untouched s s'"
  have r: "?R rb3 rb4" "?R rb4 rb5" "?R rb5 rb6" using rb_ops by blast+
  show ?thesis unfolding rubric_later_def
    by (rule converse_rtranclp_into_rtranclp [where r = ?R, OF r(1)],
        rule converse_rtranclp_into_rtranclp [where r = ?R, OF r(2)], rule r_into_rtranclp [where r = ?R], rule r(3))
qed

section \<open>The properties on these states\<close>

lemma rb_rows:
  "db_assignments rb1 = [rb_assignment]" "db_rubrics rb1 = [rb_draft]" "db_providers rb1 = [rb_provider]"
  "db_active_teachers rb1 = [9]" "db_assignments rb2 = [rb_assignment]" "db_rubrics rb2 = [rb_structured]"
  "db_providers rb2 = [rb_provider]" "db_active_teachers rb2 = [9]" "db_rubrics rb3 = [rb_confirmed]"
  "db_assignments rb3 = [rb_assignment\<lparr>asg_status := AssignmentReady\<rparr>]"
  by (simp_all add: rb_states rb0_def)

theorem reachable_rubrics_consistent_witness: "has_confirmed rb3 (rb_assignment\<lparr>asg_status := AssignmentReady\<rparr>)"
  using reachable_rubrics_consistent [OF rb_reach(4)] by (simp add: rb_rows)


theorem confirmed_version_frozen_witness:
  "\<exists>w \<in> set (db_rubrics rb6). rubric_identity w = rubric_identity rb_confirmed \<and>
     rubric_content w = rubric_content rb_confirmed \<and> (rv_status w = rv_status rb_confirmed \<or> rv_status w = RubricSuperseded)"
  by (rule confirmed_version_frozen [OF rb_reach(4) _ _ rb_later]) (simp_all add: rb_rows rb_confirmed_def)

text \<open>The provider's answer.\<close>

definition rb_payload :: json where
  "rb_payload = JObj [(ustr ''id'', jstr ''x''), (ustr ''object'', jstr ''chat.completion''), (ustr ''created'', JInt 1),
     (ustr ''model'', jstr ''m''), (ustr ''choices'', JArr [JObj [(ustr ''index'', JInt 0), (ustr ''finish_reason'', jstr ''stop''),
        (ustr ''message'', JObj [(ustr ''role'', jstr ''assistant''), (ustr ''content'', jstr ''{}'')])]])]"

definition rb_loads :: loads_env where
  "rb_loads = \<lparr>ld_depth = 10, ld_float = JFloat\<rparr>"

definition rb_generation :: generation_env where
  "rb_generation = \<lparr>gv_http = \<lparr>he_loads = rb_loads, he_wide = (\<lambda>_. None),
       he_send = (\<lambda>_. Reply 200 [] [utf8_encode (render_json rb_payload)] StreamDone)\<rparr>,
     gv_url = (\<lambda>_ u. Some u), gv_decimals = rb_loads, gv_decode = (\<lambda>_. Some example_rubric), gv_casefold = fold_ascii\<rparr>"

definition rb_request :: generation_request where
  "rb_request = \<lparr>gq_type = DeepSeek, gq_base_url = ustr ''https://api'', gq_api_key = ustr ''key'', gq_model = ustr ''m'',
     gq_timeout_ms = 60000, gq_title = ustr ''Essay'', gq_instructions = ustr ''Write'', gq_original = ustr ''text'',
     gq_total = dec_of_int 10, gq_step = dec_of_int 1\<rparr>"

lemma rb_generated: "generate_rubric rb_generation rb_request = Inr example_rubric"
proof -
  have "json_encodable example_shape" by code_simp
  then have "encodable generation_system_prompt"
    using encodable_render [of example_shape] by (simp add: generation_system_prompt_def)
  moreover have "encodable (generation_user_text rb_request)" by code_simp
  ultimately have "json_encodable (generation_body rb_request)"
    by (simp add: generation_body_def generation_messages_def jstr_def rb_request_def)
  then have "encodable (render_json (generation_body rb_request))" using encodable_render by blast
  moreover have "loads_body rb_loads (\<lambda>_. None) (utf8_encode (render_json rb_payload)) = Inr rb_payload" by code_simp
  moreover have "read_chunks 0 [utf8_encode (render_json rb_payload)] = Some (utf8_encode (render_json rb_payload))" by code_simp
  ultimately have "post_rubric (gv_http rb_generation) target url headers (generation_body rb_request) = Inr (200, rb_payload)"
    for target url headers
    by (simp add: post_rubric_def rb_generation_def generation_stream_exn_def)
  moreover have "extract_structured_rubric rb_generation rb_payload rb_request = Inr example_rubric" by code_simp
  moreover have "raise_generation_status 200 = Inr ()" by code_simp
  moreover have "gq_type rb_request \<in> set generation_types" by (simp add: rb_request_def generation_types_def)
  moreover have "gv_url rb_generation t u = Some u" for t u by (simp add: rb_generation_def)
  ultimately show ?thesis by (simp add: generate_rubric_def)
qed

lemma rb_request_valid: "valid_generation_request rb_request"
  by code_simp

definition rb_service :: rubric_service where
  "rb_service = \<lparr>rs_calls_enabled = True, rs_decrypt = Some (\<lambda>_ _ _. Some (ustr ''key'')), rs_generator = Some rb_generation\<rparr>"



end
