(* ===== verification/Spec2Isabelle.thy ===== *)
theory Spec2Isabelle
  imports Pipeline_Stuck Runner_Adapters Review_Flow Review_Bridge Quota_Guarantees Parser_Guarantees
    Rubric_Example
begin

text \<open>
  A service that grades essays with language models. Teachers write an assignment, confirm a rubric,
  upload papers and start a batch; workers send one prompt per paper to a provider, validate the
  answer against the rubric and store it; teachers review and confirm the result. The development
  models the Python backend under \<open>src/backend/app\<close> and the database functions, triggers and
  constraints under \<open>src/backend/migrations\<close> on which it relies.

  \<^bold>\<open>Conventions.\<close> Python strings and byte strings are lists of numbers (\<open>pystr\<close>), \<open>decimal.Decimal\<close> is
  sign, coefficient and exponent with the 28-digit context, an operation that may raise returns a
  sum, a table is a list of rows, and one transaction is one function from the tables to a sum of
  an exception and the new tables, so that a raised exception leaves no trace. Identifiers and
  hashes are numbers, since only their equality matters. Code outside the repository (SHA-256,
  Unicode tables, the HTTP library, ZIP and PDF readers, the schemas pydantic generates) is a
  parameter of the definitions that use it.

  \<^bold>\<open>Values.\<close> \<open>Py_Prelude\<close> and \<open>Py_Decimal\<close> hold strings, results, tables and decimals.
  \<open>Domain_Rubric\<close> is \<open>domain/rubric.py\<close>; \<open>Domain_Grading\<close> is \<open>domain/grading.py\<close> and
  \<open>parsing/models.py\<close>; \<open>Canonical_Text\<close>, \<open>Canonical_Json\<close> and \<open>Decimal_Strings\<close> are the canonical
  texts of decimals, JSON values and scores with their unambiguity and round trips; \<open>Json_Reader\<close>
  is \<open>json.loads\<close>, which reads back what \<open>canonical_json_bytes\<close> writes.

  \<^bold>\<open>Grading.\<close> \<open>Grading_Validator\<close> is \<open>grading/validator.py\<close> and \<open>grading/totals.py\<close>: what an accepted
  answer guarantees, and when the validator raises instead of answering. \<open>Grading_Prompt\<close> is
  \<open>grading/prompt.py\<close>: prompts exist exactly for encodable requests and keep the paper out of the
  system message.

  \<^bold>\<open>Providers.\<close> \<open>Providers_Base\<close>, \<open>Provider_Schema\<close>, \<open>Provider_Http\<close>, \<open>Provider_Request\<close> and
  \<open>Provider_Adapters\<close> are \<open>providers/base.py\<close>, \<open>schema.py\<close>, \<open>http.py\<close> and the seven adapters.
  \<open>Provider_Contract\<close> states their common contract as the locale \<open>provider_adapter\<close>, interpreted for
  each adapter; the properties of the registry follow from it.

  \<^bold>\<open>Batches.\<close> \<open>Domain_Models\<close> holds the rows and check constraints, \<open>Job_Contract\<close> is
  \<open>workers/models.py\<close>, \<open>Pipeline_Db\<close> the triggers, \<open>Pipeline_Repo\<close> the methods of
  \<open>workers/repository.py\<close>, \<open>Pipeline_Control\<close> the function \<open>control_grading_job\<close>. \<open>Grading_Runner\<close>
  is one delivery of \<open>workers/tasks.py\<close> over any repository; \<open>Runner_Contract\<close> states what it needs
  as the locale \<open>attempt_repository\<close> and interprets it with the SQL model. \<open>Pipeline_System\<close> is the
  transition system in which transactions of teachers, dispatchers and workers interleave;
  \<open>Pipeline_Inv\<close>, \<open>Pipeline_History\<close>, \<open>Pipeline_Calls\<close>, \<open>Pipeline_World\<close>, \<open>Pipeline_Finish\<close> and
  \<open>Pipeline_Concurrency\<close> prove its invariants by rule induction, \<open>Pipeline_Guarantees\<close> states them,
  \<open>Pipeline_Example\<close> evaluates a history, \<open>Pipeline_Stuck\<close> is a reachable dead end, and
  \<open>Runner_Adapters\<close> joins pipeline, runner and adapters.

  \<^bold>\<open>Reviews.\<close> \<open>Review_Models\<close>, \<open>Review_Service\<close>, \<open>Review_Db\<close> and \<open>Review_Repo\<close> are
  \<open>reviews/models.py\<close>, \<open>service.py\<close>, the functions and triggers of migration 0015 and
  \<open>repository.py\<close>. \<open>Review_Inv\<close> and \<open>Review_World\<close> extend the invariant of the pipeline,
  \<open>Review_Contract\<close>, \<open>Review_Guarantees\<close>, \<open>Review_Flow\<close> and \<open>Review_Bridge\<close> state what a confirmed
  review is worth: it is immutable, it is what the service validated, and the database accepts it.
  \<open>Review_Example\<close> evaluates a review.

  \<^bold>\<open>Submissions.\<close> \<open>Upload_Staging\<close> is \<open>parsing/normalize.py\<close>, \<open>Submission_Db\<close> the function
  \<open>transition_submission\<close> with \<open>submissions/repository.py\<close>, and \<open>Submission_Flow\<close> the upload of
  \<open>submissions/service.py\<close> as a program in a state monad with exceptions, every awaited call of
  which may work or break before or after its effect. \<open>Submission_Guarantees\<close> proves with triples
  which environments leave every paper failed or ready and stored, and what the others leave.

  \<^bold>\<open>Parsers.\<close> \<open>Document_Parsers\<close> is \<open>parsing/docx.py\<close> and \<open>parsing/pdf.py\<close> over what the ZIP, XML and
  PDF readers report of a file, which is a parameter: archive checks, text and title extraction, the
  search for active content. \<open>Parser_Guarantees\<close> shows that an accepted document satisfies the result
  contract the upload relies on, which files are refused and what the search overlooks.

  \<^bold>\<open>Rubrics.\<close> \<open>Rubric_Content\<close> is the content check of migration 0008 with the JSON that the
  repository stores: the database accepts what the Python contract accepts. \<open>Rubric_Lifecycle\<close> is
  \<open>rubrics/models.py\<close>, \<open>rubrics/repository.py\<close> and the triggers and indexes they meet,
  \<open>Rubric_Generation\<close> is \<open>rubrics/generation.py\<close> and \<open>Rubric_Flow\<close> is \<open>rubrics/service.py\<close>, which
  reads in one transaction and writes in another. \<open>Rubric_Guarantees\<close> shows by rule induction that
  versions stay consistent, confirmed ones frozen and complete drafts confirmable; \<open>Rubric_Flow\<close>
  joins them with the pipeline and \<open>Rubric_Example\<close> evaluates a history.

  \<^bold>\<open>Capacity.\<close> \<open>Storage_Quota\<close> is \<open>monitoring/repository.py\<close>, the gate functions of migration 0018 and
  the reservation around a write of \<open>storage/supabase.py\<close>; \<open>Quota_Guarantees\<close> bounds the stored bytes
  under every interleaving and shows what the gate loses.

  \<^bold>\<open>Bounds and fuel.\<close> No definition needs fuel to terminate. \<open>project_limited\<close> counts calls as the
  interpreter's recursion limit does; the termination property bounds the depth by the references
  of the schema. \<open>json_loads\<close> takes the nesting limit as a parameter and refuses integers of more
  than 4300 digits, as the interpreter does. The search of a
  PDF terminates by a measure, since it stops at 100000 objects. Uploads are bounded by the 20 MB of \<open>ParseLimits\<close>.

  \<^bold>\<open>Not modelled.\<close> HTTP routes, authentication, configuration and process supervision (glue and I/O);
  provider administration, exports, retention and backups; roles and
  grants, except that a teacher sees only the rows of an active account; the frontend. Between two
  steps of one upload no other transaction changes the same paper: a second upload of the file is
  answered as a duplicate while the first one runs.
\<close>

end
